(* ===== verification/Py_Numbers.thy ===== *)
theory Py_Numbers
  imports Prelude
begin

text \<open>
  The numbers of the modelled code: Python floats (IEEE double), Python decimals in their default
  context (28 significant digits, ties to even), and columns of type \<open>NUMERIC(p, s)\<close>.  Every
  number is represented by its exact value, a rational; each arithmetic operation of the source
  is the exact operation followed by the rounding of its type.  Non-finite values, the exponent
  limits of doubles and the exponent limits of the decimal context are outside the model.
\<close>

named_theorems number_simps \<open>exactness, sign and order of the roundings\<close>

section \<open>Rounding to an integer\<close>

text \<open>Ties to even: \<open>round\<close>, IEEE arithmetic and \<open>ROUND_HALF_EVEN\<close>.\<close>

definition round_half_even :: "rat \<Rightarrow> int" where
  "round_half_even x =
     (let f = \<lfloor>x\<rfloor>; r = x - of_int f
      in if r < 1 / 2 then f else if 1 / 2 < r then f + 1 else if even f then f else f + 1)"

text \<open>Ties away from zero: \<open>ROUND_HALF_UP\<close> and Postgres' numeric rounding.\<close>

definition round_half_up :: "rat \<Rightarrow> int" where
  "round_half_up x = (if 0 \<le> x then \<lfloor>x + 1 / 2\<rfloor> else - \<lfloor>- x + 1 / 2\<rfloor>)"

lemma round_half_even_of_int [simp, number_simps]: "round_half_even (of_int n) = n"
  by (simp add: round_half_even_def)

lemma round_half_even_le: "round_half_even x \<le> \<lfloor>x\<rfloor> + 1" and
  round_half_even_ge: "\<lfloor>x\<rfloor> \<le> round_half_even x"
  by (auto simp: round_half_even_def Let_def)

lemma round_half_even_mono: "x \<le> y \<Longrightarrow> round_half_even x \<le> round_half_even y"
proof -
  assume xy: "x \<le> y"
  show ?thesis
  proof (cases "\<lfloor>x\<rfloor> = \<lfloor>y\<rfloor>")
    case True
    with xy show ?thesis by (auto simp: round_half_even_def Let_def)
  next
    case False
    with xy have "\<lfloor>x\<rfloor> + 1 \<le> \<lfloor>y\<rfloor>" using floor_mono [of x y] by linarith
    then show ?thesis using round_half_even_le [of x] round_half_even_ge [of y] by linarith
  qed
qed

lemma round_half_up_of_int [simp, number_simps]: "round_half_up (of_int n) = n"
proof -
  have "\<lfloor>of_int n + (1 :: rat) / 2\<rfloor> = n" and "\<lfloor>of_int (- n) + (1 :: rat) / 2\<rfloor> = - n"
    by linarith+
  then show ?thesis by (simp add: round_half_up_def)
qed

lemma round_half_up_mono: "x \<le> y \<Longrightarrow> round_half_up x \<le> round_half_up y"
proof -
  assume xy: "x \<le> y"
  consider "0 \<le> x" | "x < 0" "0 \<le> y" | "y < 0" using xy by linarith
  then show ?thesis
  proof cases
    case 1
    then show ?thesis using xy floor_mono [of "x + 1 / 2" "y + 1 / 2"] by (simp add: round_half_up_def)
  next
    case 2
    then have "0 \<le> \<lfloor>- x + 1 / 2\<rfloor>" and "0 \<le> \<lfloor>y + 1 / 2\<rfloor>" by linarith+
    moreover have "round_half_up x = - \<lfloor>- x + 1 / 2\<rfloor>" and "round_half_up y = \<lfloor>y + 1 / 2\<rfloor>"
      using 2 by (simp_all add: round_half_up_def)
    ultimately show ?thesis by linarith
  next
    case 3
    then show ?thesis using xy floor_mono [of "- y + 1 / 2" "- x + 1 / 2"] by (simp add: round_half_up_def)
  qed
qed

lemma round_half_up_0 [simp, number_simps]: "round_half_up 0 = 0"
  using round_half_up_of_int [of 0] by simp

lemma round_half_up_nonneg [simp, number_simps]: "0 \<le> x \<Longrightarrow> 0 \<le> round_half_up x"
  using round_half_up_mono [of 0 x] by simp

lemma round_half_up_small: "0 \<le> x \<Longrightarrow> x < 1 / 2 \<Longrightarrow> round_half_up x = 0"
  by (simp add: round_half_up_def floor_eq_iff)

lemma round_half_up_add_int:
  assumes "0 \<le> n" and "0 \<le> x"
  shows "round_half_up (of_int n + x) = n + round_half_up x"
proof -
  have "0 \<le> of_int n + x" using assms by simp
  then show ?thesis using assms by (simp add: round_half_up_def add.assoc)
qed

section \<open>Rounding to a number of significant digits\<close>

text \<open>
  \<open>lead b x\<close> is the exponent of the leading base-\<open>b\<close> digit of a positive \<open>x\<close>:
  \<open>b powi lead b x \<le> x < b powi (lead b x + 1)\<close>.
\<close>

text \<open>What shrinks: the ceiling of the reciprocal below one, the integer part above it.\<close>

definition lead_measure :: "nat \<times> rat \<Rightarrow> nat" where
  "lead_measure p = (case p of (b, x) \<Rightarrow> if x < 1 then b + nat \<lceil>1 / x\<rceil> else nat \<lfloor>x\<rfloor>)"

lemma lead_measure_up:
  assumes "2 \<le> b" "0 < x" "x < 1"
  shows "lead_measure (b, x * of_nat b) < lead_measure (b, x)"
proof (cases "x * of_nat b < 1")
  case True
  define y where "y = 1 / x"
  define z where "z = 1 / (x * of_nat b)"
  have b: "(2 :: rat) \<le> of_nat b" using assms by (metis of_nat_le_iff of_nat_numeral)
  have y: "0 < y" using assms by (simp add: y_def)
  have "z = y / of_nat b" by (simp add: z_def y_def)
  also have "\<dots> \<le> y / 2" using b y by (intro divide_left_mono) auto
  finally have le: "z \<le> y / 2" .
  have z1: "1 < z" using True assms b by (simp add: z_def field_simps)
  have "of_int \<lceil>z\<rceil> < z + (1 :: rat)" using ceiling_correct [of z] by linarith
  also have "\<dots> \<le> y" using le z1 by linarith
  also have "\<dots> \<le> of_int \<lceil>y\<rceil>" by (rule le_of_int_ceiling)
  finally have "\<lceil>z\<rceil> < \<lceil>y\<rceil>" by (simp only: of_int_less_iff)
  moreover have "0 \<le> \<lceil>z\<rceil>" using z1 by linarith
  ultimately show ?thesis using True assms by (simp add: lead_measure_def y_def z_def)
next
  case False
  have "x * of_nat b < of_nat b" using assms by simp
  then have "\<lfloor>x * of_nat b\<rfloor> < int b" by (simp add: floor_less_iff)
  then have "nat \<lfloor>x * of_nat b\<rfloor> < b" using assms by linarith
  with False assms show ?thesis by (simp add: lead_measure_def)
qed

lemma lead_measure_down:
  assumes "2 \<le> b" "of_nat b \<le> x"
  shows "lead_measure (b, x / of_nat b) < lead_measure (b, x)"
proof -
  have b: "(2 :: rat) \<le> of_nat b" using assms by (metis of_nat_le_iff of_nat_numeral)
  have ge1: "1 \<le> x / of_nat b" using assms b by (simp add: field_simps)
  have "x / of_nat b \<le> x / 2" using b assms by (intro divide_left_mono) auto
  also have "\<dots> \<le> x - 1" using b assms by simp
  finally have "\<lfloor>x / of_nat b\<rfloor> \<le> \<lfloor>x - 1\<rfloor>" by (rule floor_mono)
  then have "\<lfloor>x / of_nat b\<rfloor> < \<lfloor>x\<rfloor>" by simp
  moreover have "0 \<le> \<lfloor>x / of_nat b\<rfloor>" using ge1 by simp
  ultimately show ?thesis using ge1 b assms by (simp add: lead_measure_def)
qed

function lead :: "nat \<Rightarrow> rat \<Rightarrow> int" where
  "lead b x =
     (if b < 2 \<or> x \<le> 0 then 0
      else if x < 1 then lead b (x * of_nat b) - 1
      else if of_nat b \<le> x then lead b (x / of_nat b) + 1
      else 0)"
  by pat_completeness auto

termination
  by (relation "measure lead_measure") (auto simp: lead_measure_up lead_measure_down)

declare lead.simps [simp del]

lemma lead_bounds:
  "2 \<le> b \<Longrightarrow> 0 < x \<Longrightarrow> of_nat b powi lead b x \<le> x \<and> x < of_nat b powi (lead b x + 1)"
proof (induction b x rule: lead.induct)
  case (1 b x)
  have b: "(2 :: rat) \<le> of_nat b" using 1 by (metis of_nat_le_iff of_nat_numeral)
  then have b0: "(of_nat b :: rat) \<noteq> 0" by linarith
  consider "x < 1" | "1 \<le> x" "of_nat b \<le> x" | "1 \<le> x" "x < of_nat b" by linarith
  then show ?case
  proof cases
    case 1
    with "1.prems" b have ih: "of_nat b powi lead b (x * of_nat b) \<le> x * of_nat b \<and>
        x * of_nat b < of_nat b powi (lead b (x * of_nat b) + 1)"
      using "1.IH"(1) by simp
    have "lead b x = lead b (x * of_nat b) - 1" using 1 "1.prems" by (subst lead.simps) simp
    moreover have "(of_nat b :: rat) powi lead b (x * of_nat b) = of_nat b powi (lead b (x * of_nat b) - 1) * of_nat b"
      using b0 by (simp add: power_int_diff)
    moreover have "(of_nat b :: rat) powi (lead b (x * of_nat b) + 1) = of_nat b powi lead b (x * of_nat b) * of_nat b"
      using b0 by (simp add: power_int_add)
    ultimately show ?thesis using ih b by (simp add: mult_le_cancel_right)
  next
    case 2
    with "1.prems" b have ih: "of_nat b powi lead b (x / of_nat b) \<le> x / of_nat b \<and>
        x / of_nat b < of_nat b powi (lead b (x / of_nat b) + 1)"
      using "1.IH"(2) by simp
    have "lead b x = lead b (x / of_nat b) + 1" using 2 "1.prems" by (subst lead.simps) simp
    with ih b b0 show ?thesis
      by (simp add: power_int_add field_simps power2_eq_square)
  next
    case 3
    then have "lead b x = 0" using "1.prems" by (subst lead.simps) simp
    with 3 show ?thesis by simp
  qed
qed

text \<open>A number rounded to \<open>p\<close> significant base-\<open>b\<close> digits, ties to even.\<close>

definition sig_round :: "nat \<Rightarrow> nat \<Rightarrow> rat \<Rightarrow> rat" where
  "sig_round b p x =
     (if x = 0 then 0
      else let e = lead b \<bar>x\<bar> + 1 - int p
           in of_int (round_half_even (x / of_nat b powi e)) * of_nat b powi e)"

lemma base_ge2: "2 \<le> b \<Longrightarrow> (2 :: rat) \<le> of_nat b"
  by (metis of_nat_le_iff of_nat_numeral)

lemma sig_round_0 [simp, number_simps]: "sig_round b p 0 = 0"
  by (simp add: sig_round_def)

text \<open>A number that has at most \<open>p\<close> digits is not changed.\<close>

lemma sig_round_exact:
  assumes b: "2 \<le> b" and m: "\<bar>m\<bar> < int b ^ p" and x: "x = of_int m * of_nat b powi k"
  shows "sig_round b p x = x"
proof (cases "x = 0")
  case False
  define e where "e = lead b \<bar>x\<bar> + 1 - int p"
  have b2: "(2 :: rat) \<le> of_nat b" using b by (rule base_ge2)
  then have b0: "(of_nat b :: rat) \<noteq> 0" and b1: "(1 :: rat) < of_nat b" by linarith+
  have "of_nat b powi lead b \<bar>x\<bar> \<le> \<bar>x\<bar>" using lead_bounds [OF b, of "\<bar>x\<bar>"] False by simp
  also have "\<bar>x\<bar> = of_int \<bar>m\<bar> * of_nat b powi k" using x b2 by (simp add: abs_mult)
  also have "\<dots> < of_int (int b ^ p) * of_nat b powi k"
    using m b2 by (intro mult_strict_right_mono) (simp_all only: of_int_less_iff, simp)
  also have "\<dots> = of_nat b powi (int p + k)" using b0 by (simp add: power_int_add)
  finally have "(of_nat b :: rat) powi lead b \<bar>x\<bar> < of_nat b powi (int p + k)" .
  then have "lead b \<bar>x\<bar> < int p + k"
    using power_int_increasing [of "int p + k" "lead b \<bar>x\<bar>" "of_nat b :: rat"] b1 by (meson linorder_not_le order.strict_implies_order)
  then have ek: "e \<le> k" by (simp add: e_def)
  have "x / of_nat b powi e = of_int m * of_nat b powi (k - e)"
    using b0 by (simp add: x power_int_diff)
  also have "(of_nat b :: rat) powi (k - e) = of_int (int b ^ nat (k - e))"
    using ek by (simp add: power_int_def)
  finally have "x / of_nat b powi e = of_int (m * int b ^ nat (k - e))" by (simp only: of_int_mult)
  then have "of_int (round_half_even (x / of_nat b powi e)) = x / of_nat b powi e"
    by (simp only: round_half_even_of_int)
  with False b0 show ?thesis by (simp add: sig_round_def flip: e_def)
qed simp

lemma sig_round_int:
  assumes "2 \<le> b" and "\<bar>m\<bar> < int b ^ p"
  shows "sig_round b p (of_int m) = of_int m"
  using sig_round_exact [OF assms, of "of_int m" 0] by simp

text \<open>Rounding keeps the sign, never crosses a power of the base and keeps the order.\<close>

lemma sig_round_between:
  assumes b: "2 \<le> b" and p: "0 < p" and x: "0 < x"
  shows "of_nat b powi lead b x \<le> sig_round b p x \<and> sig_round b p x \<le> of_nat b powi (lead b x + 1)"
proof -
  define e where "e = lead b x + 1 - int p"
  define q where "q = x / of_nat b powi e"
  have b2: "(2 :: rat) \<le> of_nat b" using b by (rule base_ge2)
  then have b0: "(of_nat b :: rat) \<noteq> 0" and be: "0 < (of_nat b :: rat) powi e" by auto
  have lo: "of_int (int b ^ (p - 1)) * of_nat b powi e = (of_nat b :: rat) powi lead b x"
  proof -
    have "lead b x = int (p - 1) + e" using p by (simp add: e_def)
    then have "(of_nat b :: rat) powi lead b x = of_nat b powi int (p - 1) * of_nat b powi e"
      using b0 by (metis power_int_add)
    then show ?thesis by simp
  qed
  have hi: "of_int (int b ^ p) * of_nat b powi e = (of_nat b :: rat) powi (lead b x + 1)"
  proof -
    have "lead b x + 1 = int p + e" by (simp add: e_def)
    then have "(of_nat b :: rat) powi (lead b x + 1) = of_nat b powi int p * of_nat b powi e"
      using b0 by (metis power_int_add)
    then show ?thesis by simp
  qed
  have "of_int (int b ^ (p - 1)) \<le> q" and "q \<le> of_int (int b ^ p)"
    using lead_bounds [OF b x] be unfolding q_def lo [symmetric] hi [symmetric]
    by (simp_all add: field_simps)
  then have "int b ^ (p - 1) \<le> round_half_even q" and "round_half_even q \<le> int b ^ p"
    using round_half_even_mono by (metis round_half_even_of_int)+
  then have "of_int (int b ^ (p - 1)) * of_nat b powi e \<le> of_int (round_half_even q) * (of_nat b powi e :: rat)"
    and "of_int (round_half_even q) * of_nat b powi e \<le> of_int (int b ^ p) * (of_nat b powi e :: rat)"
    using be by (auto intro!: mult_right_mono simp del: of_int_power simp: less_imp_le)
  then show ?thesis using x unfolding lo hi by (simp add: sig_round_def Let_def q_def e_def)
qed

lemma sig_round_pos: "2 \<le> b \<Longrightarrow> 0 < p \<Longrightarrow> 0 < x \<Longrightarrow> 0 < sig_round b p x"
  using sig_round_between [of b p x] base_ge2 [of b]
  by (meson less_le_trans zero_less_power_int zero_less_numeral)

lemma lead_mono:
  assumes "2 \<le> b" "0 < x" "x \<le> y"
  shows "lead b x \<le> lead b y"
proof (rule ccontr)
  assume "\<not> lead b x \<le> lead b y"
  then have "(of_nat b :: rat) powi (lead b y + 1) \<le> of_nat b powi lead b x"
    using base_ge2 [of b] assms by (intro power_int_increasing) auto
  with lead_bounds [of b x] lead_bounds [of b y] assms show False by linarith
qed

lemma sig_round_mono:
  assumes b: "2 \<le> b" and p: "0 < p" and x: "0 \<le> x" "x \<le> y"
  shows "sig_round b p x \<le> sig_round b p y"
proof -
  have b2: "(2 :: rat) \<le> of_nat b" using b by (rule base_ge2)
  consider "x = 0" | "0 < x" "lead b x = lead b y" | "0 < x" "lead b x + 1 \<le> lead b y"
    using lead_mono [OF b _ x(2)] x by fastforce
  then show ?thesis
  proof cases
    case 1
    then show ?thesis using sig_round_pos [OF b p, of y] x by (cases "y = 0") auto
  next
    case 2
    define e where "e = lead b y + 1 - int p"
    have "0 < (of_nat b :: rat) powi e" using b2 by simp
    with x have "round_half_even (x / of_nat b powi e) \<le> round_half_even (y / of_nat b powi e)"
      by (intro round_half_even_mono divide_right_mono) auto
    with 2 x b2 show ?thesis
      by (auto simp: sig_round_def Let_def e_def intro!: mult_right_mono)
  next
    case 3
    then have "sig_round b p x \<le> of_nat b powi (lead b x + 1)" using sig_round_between [OF b p] by blast
    also have "\<dots> \<le> of_nat b powi lead b y" using 3 b2 by (intro power_int_increasing) auto
    also have "\<dots> \<le> sig_round b p y" using sig_round_between [OF b p, of y] 3 x by simp
    finally show ?thesis .
  qed
qed

lemma sig_round_nonneg: "2 \<le> b \<Longrightarrow> 0 < p \<Longrightarrow> 0 \<le> x \<Longrightarrow> 0 \<le> sig_round b p x"
  using sig_round_mono [of b p 0 x] by simp

section \<open>Doubles and decimals\<close>

definition fl :: "rat \<Rightarrow> rat" where
  "fl x = sig_round 2 53 x"

definition dfix :: "rat \<Rightarrow> rat" where
  "dfix x = sig_round 10 28 x"

text \<open>
  \<open>Decimal(str(x))\<close> of a double \<open>x\<close>: \<open>repr\<close> prints the shortest decimal that reads back as the
  same double, and the decimal constructor is exact.
\<close>

definition flt_repr :: "rat \<Rightarrow> rat" where
  "flt_repr x = (case find (\<lambda>n. fl (sig_round 10 n x) = x) [1..<18] of Some n \<Rightarrow> sig_round 10 n x | None \<Rightarrow> x)"

lemma fl_0 [simp, number_simps]: "fl 0 = 0" and dfix_0 [simp, number_simps]: "dfix 0 = 0"
  by (simp_all add: fl_def dfix_def)

lemma fl_int: "\<bar>m\<bar> < 2 ^ 53 \<Longrightarrow> fl (of_int m) = of_int m"
  unfolding fl_def by (rule sig_round_int) simp_all

lemma dfix_exact:
  assumes "\<bar>m\<bar> < 10 ^ 28" shows "dfix (of_int m * 10 powi k) = of_int m * 10 powi k"
  unfolding dfix_def using assms by (intro sig_round_exact [of 10 m 28 _ k]) simp_all

lemma dfix_mono: "0 \<le> x \<Longrightarrow> x \<le> y \<Longrightarrow> dfix x \<le> dfix y"
  unfolding dfix_def by (rule sig_round_mono) simp_all

lemma dfix_nonneg [simp, number_simps]: "0 \<le> x \<Longrightarrow> 0 \<le> dfix x"
  unfolding dfix_def by (rule sig_round_nonneg) simp_all

lemma dfix_pos [simp, number_simps]: "0 < x \<Longrightarrow> 0 < dfix x"
  unfolding dfix_def by (rule sig_round_pos) simp_all

lemma fl_nonneg [simp, number_simps]: "0 \<le> x \<Longrightarrow> 0 \<le> fl x"
  unfolding fl_def by (rule sig_round_nonneg) simp_all

lemma fl_pos [simp, number_simps]: "0 < x \<Longrightarrow> 0 < fl x"
  unfolding fl_def by (rule sig_round_pos) simp_all

text \<open>An integer below \<open>10 ^ 15\<close> prints and reads back as itself.\<close>

lemma sig_round_10_int:
  assumes m: "0 < m" "m < 10 ^ 15" and n: "0 < n"
  shows "\<exists>k. sig_round 10 n (of_int m) = of_int k \<and> 0 \<le> k \<and> k \<le> 10 ^ 15"
proof -
  define l where "l = lead 10 (of_int m)"
  have lb: "(10 :: rat) powi l \<le> of_int m" and ub: "of_int m < (10 :: rat) powi (l + 1)"
    using lead_bounds [of 10 "of_int m"] m by (simp_all add: l_def)
  have "l < 15"
  proof (rule ccontr)
    assume "\<not> l < 15"
    then have "(10 :: rat) powi 15 \<le> 10 powi l" by (intro power_int_increasing) simp_all
    with lb have "(of_int (10 ^ 15) :: rat) \<le> of_int m" by simp
    then have "10 ^ 15 \<le> m" by (simp only: of_int_le_iff)
    with m show False by simp
  qed
  have "sig_round 10 n (of_int m) \<le> 10 powi (l + 1)"
    using sig_round_between [of 10 n "of_int m"] m n by (simp add: l_def)
  also have "\<dots> \<le> (10 :: rat) powi 15" using \<open>l < 15\<close> by (intro power_int_increasing) simp_all
  finally have hi: "sig_round 10 n (of_int m) \<le> of_int (10 ^ 15)" by simp
  have lo: "of_int 0 \<le> sig_round 10 n (of_int m)" using sig_round_pos [of 10 n "of_int m"] m n by simp
  have "\<exists>k. sig_round 10 n (of_int m) = of_int k"
  proof (cases "l + 1 - int n \<le> 0")
    case True
    have "of_int m < (10 :: rat) powi (l + 1)" by (fact ub)
    also have "\<dots> \<le> 10 powi int n" using True by (intro power_int_increasing) simp_all
    finally have "of_int m < (of_int (10 ^ n) :: rat)" by simp
    then have "m < 10 ^ n" by (simp only: of_int_less_iff)
    then have "sig_round 10 n (of_int m) = of_int m" using m by (intro sig_round_int) simp_all
    then show ?thesis ..
  next
    case False
    have "(10 :: rat) powi (l + 1 - int n) = of_int (10 ^ nat (l + 1 - int n))"
      using False by (simp add: power_int_def)
    then have "sig_round 10 n (of_int m) =
        of_int (round_half_even (of_int m / 10 powi (l + 1 - int n)) * 10 ^ nat (l + 1 - int n))"
      using m by (simp add: sig_round_def l_def Let_def)
    then show ?thesis ..
  qed
  then obtain k where k: "sig_round 10 n (of_int m) = of_int k" ..
  with lo hi have "0 \<le> k" and "k \<le> 10 ^ 15" by (simp_all only: of_int_le_iff)
  with k show ?thesis by blast
qed

lemma flt_repr_nat:
  assumes "0 \<le> m" "m < 10 ^ 15" shows "flt_repr (of_int m) = of_int m"
proof (cases "m = 0")
  case False
  with assms have m: "0 < m" by simp
  have ok: "sig_round 10 n (of_int m) = of_int m" if "fl (sig_round 10 n (of_int m)) = of_int m" "0 < n" for n
  proof -
    from sig_round_10_int [OF m assms(2) that(2)] obtain k
      where k: "sig_round 10 n (of_int m) = of_int k" "0 \<le> k" "k \<le> 10 ^ 15" by blast
    then have "\<bar>k\<bar> < 2 ^ 53" by simp
    then have "fl (sig_round 10 n (of_int m)) = sig_round 10 n (of_int m)" using k fl_int [of k] by simp
    with that show ?thesis by simp
  qed
  show ?thesis
  proof (cases "find (\<lambda>n. fl (sig_round 10 n (of_int m)) = of_int m) [1..<18]")
    case (Some n)
    then have "fl (sig_round 10 n (of_int m)) = of_int m" "0 < n"
      by (auto simp: find_Some_iff nth_Cons' split: if_splits simp del: upt_conv_Cons)
    with ok Some show ?thesis by (simp add: flt_repr_def)
  qed (simp add: flt_repr_def)
qed (simp add: flt_repr_def split: option.split)

lemma flt_repr_0 [simp, number_simps]: "flt_repr 0 = 0"
  using flt_repr_nat [of 0] by simp

section \<open>Numeric columns\<close>

text \<open>
  Storing a value in a \<open>NUMERIC(p, s)\<close> column rounds it to \<open>s\<close> decimals, half away from zero, and
  raises \<open>numeric field overflow\<close> (\<open>None\<close>) when more than \<open>p - s\<close> integer digits remain.
\<close>

definition pg_round :: "nat \<Rightarrow> rat \<Rightarrow> rat" where
  "pg_round s x = of_int (round_half_up (x * 10 ^ s)) / 10 ^ s"

definition pg_numeric :: "nat \<Rightarrow> nat \<Rightarrow> rat \<Rightarrow> rat option" where
  "pg_numeric p s x = (let y = pg_round s x in if \<bar>y\<bar> < 10 ^ (p - s) then Some y else None)"

text \<open>The values a column of scale \<open>s\<close> can hold.\<close>

definition has_scale :: "nat \<Rightarrow> rat \<Rightarrow> bool" where
  "has_scale s x \<longleftrightarrow> of_int \<lfloor>x * 10 ^ s\<rfloor> = x * 10 ^ s"

lemma has_scale_iff: "has_scale s x \<longleftrightarrow> (\<exists>n. x = of_int n / 10 ^ s)"
proof
  assume "has_scale s x"
  then have "x = of_int \<lfloor>x * 10 ^ s\<rfloor> / 10 ^ s" unfolding has_scale_def by (metis nonzero_mult_div_cancel_right power_not_zero zero_neq_numeral)
  then show "\<exists>n. x = of_int n / 10 ^ s" ..
qed (auto simp: has_scale_def)

lemma has_scale_pg_round [simp, number_simps]: "has_scale s (pg_round s x)"
  by (auto simp: has_scale_iff pg_round_def)

lemma has_scale_0 [simp, number_simps]: "has_scale s 0"
  by (simp add: has_scale_def)

lemma has_scale_add: "has_scale s x \<Longrightarrow> has_scale s y \<Longrightarrow> has_scale s (x + y)"
  unfolding has_scale_iff by (metis add_divide_distrib of_int_add)

lemma pg_round_id: "has_scale s x \<Longrightarrow> pg_round s x = x"
  by (auto simp: has_scale_iff pg_round_def)

lemma pg_round_mono: "x \<le> y \<Longrightarrow> pg_round s x \<le> pg_round s y"
  by (auto simp: pg_round_def intro!: divide_right_mono round_half_up_mono mult_right_mono)

lemma pg_round_0 [simp, number_simps]: "pg_round s 0 = 0"
  by (simp add: pg_round_def)

lemma pg_round_nonneg [simp, number_simps]: "0 \<le> x \<Longrightarrow> 0 \<le> pg_round s x"
  using pg_round_mono [of 0 x s] by simp

text \<open>Adding to a stored value rounds the addend: the stored part is never re-rounded.\<close>

lemma pg_round_add_scaled:
  assumes "has_scale s u" "0 \<le> u" "0 \<le> x"
  shows "pg_round s (u + x) = u + pg_round s x"
proof -
  from assms(1) obtain n where n: "u = of_int n / 10 ^ s" by (auto simp: has_scale_iff)
  have "0 \<le> u * 10 ^ s" using assms by simp
  then have "0 \<le> n" by (simp add: n)
  moreover have "(u + x) * 10 ^ s = of_int n + x * 10 ^ s" by (simp add: n distrib_right)
  ultimately have "round_half_up ((u + x) * 10 ^ s) = n + round_half_up (x * 10 ^ s)"
    using assms by (simp add: round_half_up_add_int)
  then show ?thesis by (simp add: pg_round_def n add_divide_distrib)
qed

lemma pg_round_small: "0 \<le> x \<Longrightarrow> x * 10 ^ s < 1 / 2 \<Longrightarrow> pg_round s x = 0"
  by (simp add: pg_round_def round_half_up_small)

lemma pg_numeric_Some: "pg_numeric p s x = Some y \<Longrightarrow> y = pg_round s x"
  by (auto simp: pg_numeric_def Let_def split: if_splits)

end
