(* ===== verification/Notif_Constants.thy ===== *)
theory Notif_Constants
  imports Py_Numbers
begin

text \<open>
  The names shared by every producer of the notification pipeline
  (\<open>libs/ai4i_core/ai4i_core/kafka/constants.py\<close>): one datatype per string enumeration, the text
  of each member, the enumeration called on a text (\<open>NotificationName("...")\<close>), and the
  fixed values.
\<close>

section \<open>String enumerations\<close>

text \<open>
  A Python class deriving from \<open>str\<close> and \<open>Enum\<close> looks a member up by its text and raises
  \<open>ValueError\<close> (here \<open>None\<close>) for any other text.
\<close>

definition enum_of :: "('e \<Rightarrow> string) \<Rightarrow> 'e list \<Rightarrow> string \<Rightarrow> 'e option" where
  "enum_of val members s = find (\<lambda>m. val m = s) members"

locale str_enum =
  fixes val :: "'e \<Rightarrow> string" and members :: "'e list"
  assumes inj_val: "inj val" and all_members: "set members = UNIV"
begin

lemma enum_of_val [simp]: "enum_of val members (val e) = Some e"
proof -
  have "enum_of val members (val e) \<noteq> None"
    using all_members by (auto simp: enum_of_def find_None_iff)
  then obtain e' where e': "enum_of val members (val e) = Some e'" by auto
  then have "val e' = val e" by (auto simp: enum_of_def find_Some_iff)
  then show ?thesis using e' inj_val by (auto dest: injD)
qed

lemma enum_of_Some_iff: "enum_of val members s = Some e \<longleftrightarrow> s = val e"
proof
  assume "enum_of val members s = Some e"
  then show "s = val e" by (auto simp: enum_of_def find_Some_iff)
qed simp

lemma val_eq_iff [simp]: "val a = val b \<longleftrightarrow> a = b"
  using inj_val by (auto dest: injD)

end

datatype NotificationName =
    TIER_ASSIGNED
  | TIER_CHANGED
  | BUDGET_ASSIGNED
  | BUDGET_UPDATED
  | QUOTA_LIMIT_UPDATED
  | QUOTA_EXHAUSTED
  | BUDGET_EXHAUSTED
  | QUOTA_THRESHOLD
  | BUDGET_THRESHOLD
  | ERROR_RATE_4XX
  | ERROR_RATE_5XX
  | LATENCY_P50
  | LATENCY_P95
  | LATENCY_P99

fun NotificationName_value :: "NotificationName \<Rightarrow> string" where
  "NotificationName_value TIER_ASSIGNED = ''TIER_ASSIGNED''"
| "NotificationName_value TIER_CHANGED = ''TIER_CHANGED''"
| "NotificationName_value BUDGET_ASSIGNED = ''BUDGET_ASSIGNED''"
| "NotificationName_value BUDGET_UPDATED = ''BUDGET_UPDATED''"
| "NotificationName_value QUOTA_LIMIT_UPDATED = ''QUOTA_LIMIT_UPDATED''"
| "NotificationName_value QUOTA_EXHAUSTED = ''QUOTA_EXHAUSTED''"
| "NotificationName_value BUDGET_EXHAUSTED = ''BUDGET_EXHAUSTED''"
| "NotificationName_value QUOTA_THRESHOLD = ''QUOTA_THRESHOLD''"
| "NotificationName_value BUDGET_THRESHOLD = ''BUDGET_THRESHOLD''"
| "NotificationName_value ERROR_RATE_4XX = ''ERROR_RATE_4XX''"
| "NotificationName_value ERROR_RATE_5XX = ''ERROR_RATE_5XX''"
| "NotificationName_value LATENCY_P50 = ''LATENCY_P50''"
| "NotificationName_value LATENCY_P95 = ''LATENCY_P95''"
| "NotificationName_value LATENCY_P99 = ''LATENCY_P99''"

datatype NotificationType =
    NT_NOTIFICATION
  | NT_ALERT
  | NT_MONITORING

fun NotificationType_value :: "NotificationType \<Rightarrow> string" where
  "NotificationType_value NT_NOTIFICATION = ''NOTIFICATION''"
| "NotificationType_value NT_ALERT = ''ALERT''"
| "NotificationType_value NT_MONITORING = ''MONITORING''"

datatype NotificationModule =
    NM_TIER
  | NM_BUDGET
  | NM_QUOTA
  | NM_MONITORING

fun NotificationModule_value :: "NotificationModule \<Rightarrow> string" where
  "NotificationModule_value NM_TIER = ''TIER''"
| "NotificationModule_value NM_BUDGET = ''BUDGET''"
| "NotificationModule_value NM_QUOTA = ''QUOTA''"
| "NotificationModule_value NM_MONITORING = ''MONITORING''"

datatype NotificationChannel =
    NC_EMAIL
  | NC_SMS
  | NC_SLACK
  | NC_WHATSAPP

fun NotificationChannel_value :: "NotificationChannel \<Rightarrow> string" where
  "NotificationChannel_value NC_EMAIL = ''EMAIL''"
| "NotificationChannel_value NC_SMS = ''SMS''"
| "NotificationChannel_value NC_SLACK = ''SLACK''"
| "NotificationChannel_value NC_WHATSAPP = ''WHATSAPP''"

datatype NotificationScope =
    SCOPE_GLOBAL
  | SCOPE_INSTITUTION

fun NotificationScope_value :: "NotificationScope \<Rightarrow> string" where
  "NotificationScope_value SCOPE_GLOBAL = ''GLOBAL''"
| "NotificationScope_value SCOPE_INSTITUTION = ''INSTITUTION''"

datatype ThresholdUnit =
    UNIT_PERCENT
  | UNIT_SECONDS

fun ThresholdUnit_value :: "ThresholdUnit \<Rightarrow> string" where
  "ThresholdUnit_value UNIT_PERCENT = ''PERCENT''"
| "ThresholdUnit_value UNIT_SECONDS = ''SECONDS''"

datatype Severity =
    SEV_INFO
  | SEV_WARNING
  | SEV_CRITICAL

fun Severity_value :: "Severity \<Rightarrow> string" where
  "Severity_value SEV_INFO = ''INFO''"
| "Severity_value SEV_WARNING = ''WARNING''"
| "Severity_value SEV_CRITICAL = ''CRITICAL''"

datatype RecipientRole =
    ROLE_ADMIN
  | ROLE_TENANT_ADMIN
  | ROLE_MODERATOR

fun RecipientRole_value :: "RecipientRole \<Rightarrow> string" where
  "RecipientRole_value ROLE_ADMIN = ''ADMIN''"
| "RecipientRole_value ROLE_TENANT_ADMIN = ''TENANT ADMIN''"
| "RecipientRole_value ROLE_MODERATOR = ''MODERATOR''"

datatype DedupRule =
    RULE_STATE
  | RULE_BAND

fun DedupRule_value :: "DedupRule \<Rightarrow> string" where
  "DedupRule_value RULE_STATE = ''STATE''"
| "DedupRule_value RULE_BAND = ''BAND''"

datatype Decision =
    DEC_FIRE
  | DEC_RESET
  | DEC_SKIP
  | DEC_DUPLICATE

fun Decision_value :: "Decision \<Rightarrow> string" where
  "Decision_value DEC_FIRE = ''FIRE''"
| "Decision_value DEC_RESET = ''RESET''"
| "Decision_value DEC_SKIP = ''SKIP''"
| "Decision_value DEC_DUPLICATE = ''DUPLICATE''"

datatype FailureStage =
    FS_VALIDATION
  | FS_SETTINGS
  | FS_SUBSCRIPTION
  | FS_SOURCE
  | FS_LEDGER
  | FS_DETAILS
  | FS_RECIPIENTS
  | FS_PUBLISH
  | FS_CACHE
  | FS_DELIVERY

fun FailureStage_value :: "FailureStage \<Rightarrow> string" where
  "FailureStage_value FS_VALIDATION = ''VALIDATION''"
| "FailureStage_value FS_SETTINGS = ''SETTINGS''"
| "FailureStage_value FS_SUBSCRIPTION = ''SUBSCRIPTION''"
| "FailureStage_value FS_SOURCE = ''SOURCE''"
| "FailureStage_value FS_LEDGER = ''LEDGER''"
| "FailureStage_value FS_DETAILS = ''DETAILS''"
| "FailureStage_value FS_RECIPIENTS = ''RECIPIENTS''"
| "FailureStage_value FS_PUBLISH = ''PUBLISH''"
| "FailureStage_value FS_CACHE = ''CACHE''"
| "FailureStage_value FS_DELIVERY = ''DELIVERY''"

datatype FailureCode =
    UNKNOWN_NOTIFICATION
  | INVALID_SUBJECT
  | SETTINGS_UNAVAILABLE
  | SUBSCRIPTION_UNAVAILABLE
  | TENANT_LOOKUP_FAILED
  | PROMETHEUS_UNREACHABLE
  | PROMETHEUS_TIMEOUT
  | PROMETHEUS_BAD_RESPONSE
  | LEDGER_READ_FAILED
  | LEDGER_WRITE_FAILED
  | DETAILS_PARTIAL
  | RECIPIENTS_LOOKUP_FAILED
  | NO_RECIPIENTS
  | KAFKA_SEND_FAILED
  | CACHE_READ_FAILED
  | CACHE_WRITE_FAILED
  | INVALIDATION_PUBLISH_FAILED
  | INVALID_ENVELOPE
  | NO_SUPPORTED_CHANNEL
  | EMAIL_SEND_FAILED

fun FailureCode_value :: "FailureCode \<Rightarrow> string" where
  "FailureCode_value UNKNOWN_NOTIFICATION = ''UNKNOWN_NOTIFICATION''"
| "FailureCode_value INVALID_SUBJECT = ''INVALID_SUBJECT''"
| "FailureCode_value SETTINGS_UNAVAILABLE = ''SETTINGS_UNAVAILABLE''"
| "FailureCode_value SUBSCRIPTION_UNAVAILABLE = ''SUBSCRIPTION_UNAVAILABLE''"
| "FailureCode_value TENANT_LOOKUP_FAILED = ''TENANT_LOOKUP_FAILED''"
| "FailureCode_value PROMETHEUS_UNREACHABLE = ''PROMETHEUS_UNREACHABLE''"
| "FailureCode_value PROMETHEUS_TIMEOUT = ''PROMETHEUS_TIMEOUT''"
| "FailureCode_value PROMETHEUS_BAD_RESPONSE = ''PROMETHEUS_BAD_RESPONSE''"
| "FailureCode_value LEDGER_READ_FAILED = ''LEDGER_READ_FAILED''"
| "FailureCode_value LEDGER_WRITE_FAILED = ''LEDGER_WRITE_FAILED''"
| "FailureCode_value DETAILS_PARTIAL = ''DETAILS_PARTIAL''"
| "FailureCode_value RECIPIENTS_LOOKUP_FAILED = ''RECIPIENTS_LOOKUP_FAILED''"
| "FailureCode_value NO_RECIPIENTS = ''NO_RECIPIENTS''"
| "FailureCode_value KAFKA_SEND_FAILED = ''KAFKA_SEND_FAILED''"
| "FailureCode_value CACHE_READ_FAILED = ''CACHE_READ_FAILED''"
| "FailureCode_value CACHE_WRITE_FAILED = ''CACHE_WRITE_FAILED''"
| "FailureCode_value INVALIDATION_PUBLISH_FAILED = ''INVALIDATION_PUBLISH_FAILED''"
| "FailureCode_value INVALID_ENVELOPE = ''INVALID_ENVELOPE''"
| "FailureCode_value NO_SUPPORTED_CHANNEL = ''NO_SUPPORTED_CHANNEL''"
| "FailureCode_value EMAIL_SEND_FAILED = ''EMAIL_SEND_FAILED''"

datatype Producer =
    PROD_AUTH_SERVICE
  | PROD_PLATFORM_CORE_SERVICE
  | PROD_PAYPERUSE_CONSUMER
  | PROD_MONITORING_EVALUATOR
  | PROD_NOTIFICATIONS_CONSUMER

fun Producer_value :: "Producer \<Rightarrow> string" where
  "Producer_value PROD_AUTH_SERVICE = ''auth-service''"
| "Producer_value PROD_PLATFORM_CORE_SERVICE = ''platform-core-service''"
| "Producer_value PROD_PAYPERUSE_CONSUMER = ''payperuse-consumer''"
| "Producer_value PROD_MONITORING_EVALUATOR = ''monitoring-evaluator''"
| "Producer_value PROD_NOTIFICATIONS_CONSUMER = ''notifications-consumer''"

datatype Operation =
    OP_SETTINGS_FILL
  | OP_SUBSCRIPTION_FILL
  | OP_LEDGER_READ
  | OP_LEDGER_CLAIM_BAND
  | OP_LEDGER_RESET
  | OP_LEDGER_CLAIM_STATE
  | OP_LEDGER_CLAIM_STATE_BULK
  | OP_LEDGER_REREAD
  | OP_DETAILS_LOOKUP
  | OP_TENANT_LOOKUP
  | OP_RECIPIENTS_LOOKUP
  | OP_KAFKA_SEND
  | OP_PROMETHEUS_QUERY
  | OP_CACHE_READ
  | OP_CACHE_WRITE
  | OP_INVALIDATION_PUBLISH
  | OP_VALIDATE
  | OP_EMAIL_SEND

fun Operation_value :: "Operation \<Rightarrow> string" where
  "Operation_value OP_SETTINGS_FILL = ''settings_fill''"
| "Operation_value OP_SUBSCRIPTION_FILL = ''subscription_fill''"
| "Operation_value OP_LEDGER_READ = ''ledger_read''"
| "Operation_value OP_LEDGER_CLAIM_BAND = ''ledger_claim_band''"
| "Operation_value OP_LEDGER_RESET = ''ledger_reset''"
| "Operation_value OP_LEDGER_CLAIM_STATE = ''ledger_claim_state''"
| "Operation_value OP_LEDGER_CLAIM_STATE_BULK = ''ledger_claim_state_bulk''"
| "Operation_value OP_LEDGER_REREAD = ''ledger_reread''"
| "Operation_value OP_DETAILS_LOOKUP = ''details_lookup''"
| "Operation_value OP_TENANT_LOOKUP = ''tenant_lookup''"
| "Operation_value OP_RECIPIENTS_LOOKUP = ''recipients_lookup''"
| "Operation_value OP_KAFKA_SEND = ''kafka_send''"
| "Operation_value OP_PROMETHEUS_QUERY = ''prometheus_query''"
| "Operation_value OP_CACHE_READ = ''cache_read''"
| "Operation_value OP_CACHE_WRITE = ''cache_write''"
| "Operation_value OP_INVALIDATION_PUBLISH = ''invalidation_publish''"
| "Operation_value OP_VALIDATE = ''validate''"
| "Operation_value OP_EMAIL_SEND = ''email_send''"

datatype InvalidationKind =
    INV_SETTINGS
  | INV_SUBSCRIPTION
  | INV_LEDGER
  | INV_FLUSH

fun InvalidationKind_value :: "InvalidationKind \<Rightarrow> string" where
  "InvalidationKind_value INV_SETTINGS = ''SETTINGS''"
| "InvalidationKind_value INV_SUBSCRIPTION = ''SUBSCRIPTION''"
| "InvalidationKind_value INV_LEDGER = ''LEDGER''"
| "InvalidationKind_value INV_FLUSH = ''FLUSH''"

datatype SubjectKey =
    SK_MODEL_TASK_TYPE
  | SK_BILLING_MONTH
  | SK_BUDGET_CEILING
  | SK_BUDGET_WINDOW
  | SK_SERVICE_ID

fun SubjectKey_value :: "SubjectKey \<Rightarrow> string" where
  "SubjectKey_value SK_MODEL_TASK_TYPE = ''model_task_type''"
| "SubjectKey_value SK_BILLING_MONTH = ''billing_month''"
| "SubjectKey_value SK_BUDGET_CEILING = ''budget_ceiling''"
| "SubjectKey_value SK_BUDGET_WINDOW = ''budget_window''"
| "SubjectKey_value SK_SERVICE_ID = ''service_id''"

section \<open>Enumerations read back from text\<close>

definition NotificationName_members :: "NotificationName list" where
  "NotificationName_members =
     [TIER_ASSIGNED, TIER_CHANGED, BUDGET_ASSIGNED, BUDGET_UPDATED, QUOTA_LIMIT_UPDATED,
      QUOTA_EXHAUSTED, BUDGET_EXHAUSTED, QUOTA_THRESHOLD, BUDGET_THRESHOLD,
      ERROR_RATE_4XX, ERROR_RATE_5XX, LATENCY_P50, LATENCY_P95, LATENCY_P99]"

text \<open>The names as a finite, executable type: quantifiers over them compute.\<close>

instantiation NotificationName :: enum
begin

definition enum_NotificationName :: "NotificationName list" where
  "enum_NotificationName = NotificationName_members"

definition enum_all_NotificationName :: "(NotificationName \<Rightarrow> bool) \<Rightarrow> bool" where
  "enum_all_NotificationName P = list_all P NotificationName_members"

definition enum_ex_NotificationName :: "(NotificationName \<Rightarrow> bool) \<Rightarrow> bool" where
  "enum_ex_NotificationName P = list_ex P NotificationName_members"

instance
proof
  have all: "x \<in> set NotificationName_members" for x
    by (cases x) (simp_all add: NotificationName_members_def)
  then have univ: "set NotificationName_members = UNIV" by auto
  show "(UNIV :: NotificationName set) = set enum_class.enum"
    by (simp add: enum_NotificationName_def univ)
  show "distinct (enum_class.enum :: NotificationName list)"
    by (simp add: enum_NotificationName_def NotificationName_members_def)
  show "enum_class.enum_all P = Ball (UNIV :: NotificationName set) P" for P
    using univ by (simp add: enum_all_NotificationName_def list_all_iff)
  show "enum_class.enum_ex P = Bex (UNIV :: NotificationName set) P" for P
    using univ by (simp add: enum_ex_NotificationName_def list_ex_iff)
qed

end

abbreviation NotificationName_of :: "string \<Rightarrow> NotificationName option" where
  "NotificationName_of \<equiv> enum_of NotificationName_value NotificationName_members"

abbreviation NotificationType_of :: "string \<Rightarrow> NotificationType option" where
  "NotificationType_of \<equiv> enum_of NotificationType_value [NT_NOTIFICATION, NT_ALERT, NT_MONITORING]"

abbreviation NotificationModule_of :: "string \<Rightarrow> NotificationModule option" where
  "NotificationModule_of \<equiv> enum_of NotificationModule_value [NM_TIER, NM_BUDGET, NM_QUOTA, NM_MONITORING]"

abbreviation NotificationScope_of :: "string \<Rightarrow> NotificationScope option" where
  "NotificationScope_of \<equiv> enum_of NotificationScope_value [SCOPE_GLOBAL, SCOPE_INSTITUTION]"

abbreviation ThresholdUnit_of :: "string \<Rightarrow> ThresholdUnit option" where
  "ThresholdUnit_of \<equiv> enum_of ThresholdUnit_value [UNIT_PERCENT, UNIT_SECONDS]"

abbreviation Severity_of :: "string \<Rightarrow> Severity option" where
  "Severity_of \<equiv> enum_of Severity_value [SEV_INFO, SEV_WARNING, SEV_CRITICAL]"

abbreviation InvalidationKind_of :: "string \<Rightarrow> InvalidationKind option" where
  "InvalidationKind_of \<equiv> enum_of InvalidationKind_value
     [INV_SETTINGS, INV_SUBSCRIPTION, INV_LEDGER, INV_FLUSH]"

text \<open>Distinct members have distinct texts, and the lists above are complete.\<close>

interpretation nname: str_enum NotificationName_value NotificationName_members
proof
  show "inj NotificationName_value"
  proof (rule injI)
    fix a b assume "NotificationName_value a = NotificationName_value b"
    then show "a = b" by (cases a; cases b) simp_all
  qed
  show "set NotificationName_members = UNIV"
    using UNIV_enum [where ?'a = NotificationName] by (simp add: enum_NotificationName_def)
qed

interpretation ntype: str_enum NotificationType_value "[NT_NOTIFICATION, NT_ALERT, NT_MONITORING]"
proof
  show "inj NotificationType_value"
    by (rule injI) (case_tac x; case_tac y; simp)
  show "set [NT_NOTIFICATION, NT_ALERT, NT_MONITORING] = UNIV"
    by (auto intro: NotificationType.exhaust)
qed

interpretation nmodule: str_enum NotificationModule_value "[NM_TIER, NM_BUDGET, NM_QUOTA, NM_MONITORING]"
proof
  show "inj NotificationModule_value"
    by (rule injI) (case_tac x; case_tac y; simp)
  show "set [NM_TIER, NM_BUDGET, NM_QUOTA, NM_MONITORING] = UNIV"
    by (auto intro: NotificationModule.exhaust)
qed

interpretation nscope: str_enum NotificationScope_value "[SCOPE_GLOBAL, SCOPE_INSTITUTION]"
proof
  show "inj NotificationScope_value"
    by (rule injI) (case_tac x; case_tac y; simp)
  show "set [SCOPE_GLOBAL, SCOPE_INSTITUTION] = UNIV"
    by (auto intro: NotificationScope.exhaust)
qed

interpretation nunit: str_enum ThresholdUnit_value "[UNIT_PERCENT, UNIT_SECONDS]"
proof
  show "inj ThresholdUnit_value"
    by (rule injI) (case_tac x; case_tac y; simp)
  show "set [UNIT_PERCENT, UNIT_SECONDS] = UNIV"
    by (auto intro: ThresholdUnit.exhaust)
qed

interpretation nsev: str_enum Severity_value "[SEV_INFO, SEV_WARNING, SEV_CRITICAL]"
proof
  show "inj Severity_value"
    by (rule injI) (case_tac x; case_tac y; simp)
  show "set [SEV_INFO, SEV_WARNING, SEV_CRITICAL] = UNIV"
    by (auto intro: Severity.exhaust)
qed

interpretation nkind: str_enum InvalidationKind_value "[INV_SETTINGS, INV_SUBSCRIPTION, INV_LEDGER, INV_FLUSH]"
proof
  show "inj InvalidationKind_value"
    by (rule injI) (case_tac x; case_tac y; simp)
  show "set [INV_SETTINGS, INV_SUBSCRIPTION, INV_LEDGER, INV_FLUSH] = UNIV"
    by (auto intro: InvalidationKind.exhaust)
qed

section \<open>Fixed values\<close>

definition PLATFORM_TENANT_ID :: string where "PLATFORM_TENANT_ID = ''PLATFORM''"
definition SETTINGS_SNAPSHOT_SCHEMA_VERSION :: int where "SETTINGS_SNAPSHOT_SCHEMA_VERSION = 1"
definition INVALIDATION_MESSAGE_VERSION :: int where "INVALIDATION_MESSAGE_VERSION = 1"
definition ENVELOPE_SCHEMA_VERSION :: int where "ENVELOPE_SCHEMA_VERSION = 2"
definition AMOUNT_DECIMALS :: nat where "AMOUNT_DECIMALS = 2"
definition ERROR_MESSAGE_MAX_CHARS :: nat where "ERROR_MESSAGE_MAX_CHARS = 2000"
definition QUOTA_LEDGER_RETENTION_MONTHS :: nat where "QUOTA_LEDGER_RETENTION_MONTHS = 3"

definition MONITORING_RECIPIENT_ROLES :: "RecipientRole list" where
  "MONITORING_RECIPIENT_ROLES = [ROLE_ADMIN, ROLE_MODERATOR]"

definition REDIS_KEY_PREFIX :: string where "REDIS_KEY_PREFIX = ''ntf:v1:''"
definition SETTINGS_KEY :: string where "SETTINGS_KEY = REDIS_KEY_PREFIX @ ''settings''"
definition SUBSCRIPTION_KEY_PREFIX :: string where "SUBSCRIPTION_KEY_PREFIX = REDIS_KEY_PREFIX @ ''sub:''"
definition LEDGER_KEY_PREFIX :: string where "LEDGER_KEY_PREFIX = REDIS_KEY_PREFIX @ ''ledger:''"
definition EMPTY_SUBJECT_KEY :: string where "EMPTY_SUBJECT_KEY = ''_''"

lemma RecipientRole_value_inject [simp]: "RecipientRole_value a = RecipientRole_value b \<longleftrightarrow> a = b"
  by (cases a; cases b) simp_all

end
