(* ===== verification/Notif_Specs.thy ===== *)
theory Notif_Specs
  imports Notif_Constants
begin

text \<open>
  The fixed facts per notification type (\<open>libs/ai4i_core/ai4i_core/kafka/specs.py\<close>): the dedup
  rule, the subject keys, the period key, whether a triggered row can be re-armed and whether the
  row belongs to the platform instead of a tenant.
\<close>

record NotificationSpec =
  sp_name :: NotificationName
  sp_notification_type :: NotificationType
  sp_dedup_rule :: DedupRule
  sp_subject_keys :: "SubjectKey list"
  sp_period_key :: "SubjectKey option"
  sp_resets :: bool
  sp_platform_scoped :: bool

definition is_band :: "NotificationSpec \<Rightarrow> bool" where
  "is_band spec \<longleftrightarrow> sp_dedup_rule spec = RULE_BAND"

definition is_state :: "NotificationSpec \<Rightarrow> bool" where
  "is_state spec \<longleftrightarrow> sp_dedup_rule spec = RULE_STATE"

definition NO_SUBJECT :: "SubjectKey list" where "NO_SUBJECT = []"
definition QUOTA_SUBJECT :: "SubjectKey list" where "QUOTA_SUBJECT = [SK_BILLING_MONTH, SK_MODEL_TASK_TYPE]"
definition BUDGET_SUBJECT :: "SubjectKey list" where "BUDGET_SUBJECT = [SK_BUDGET_CEILING, SK_BUDGET_WINDOW]"
definition MONITORING_SUBJECT :: "SubjectKey list" where "MONITORING_SUBJECT = [SK_SERVICE_ID]"

definition state_spec :: "NotificationName \<Rightarrow> SubjectKey list \<Rightarrow> NotificationSpec" where
  "state_spec name subject_keys =
     \<lparr>sp_name = name, sp_notification_type = NT_NOTIFICATION, sp_dedup_rule = RULE_STATE,
      sp_subject_keys = subject_keys, sp_period_key = None, sp_resets = False, sp_platform_scoped = False\<rparr>"

definition usage_spec :: "NotificationName \<Rightarrow> NotificationType \<Rightarrow> SubjectKey list \<Rightarrow> SubjectKey \<Rightarrow> NotificationSpec" where
  "usage_spec name notification_type subject_keys period_key =
     \<lparr>sp_name = name, sp_notification_type = notification_type, sp_dedup_rule = RULE_BAND,
      sp_subject_keys = subject_keys, sp_period_key = Some period_key, sp_resets = False, sp_platform_scoped = False\<rparr>"

definition monitoring_spec :: "NotificationName \<Rightarrow> NotificationSpec" where
  "monitoring_spec name =
     \<lparr>sp_name = name, sp_notification_type = NT_MONITORING, sp_dedup_rule = RULE_BAND,
      sp_subject_keys = MONITORING_SUBJECT, sp_period_key = None, sp_resets = True, sp_platform_scoped = True\<rparr>"

definition SPECS :: "(NotificationName, NotificationSpec) dict" where
  "SPECS = map (\<lambda>spec. (sp_name spec, spec))
     [state_spec TIER_ASSIGNED NO_SUBJECT,
      state_spec TIER_CHANGED NO_SUBJECT,
      state_spec BUDGET_ASSIGNED NO_SUBJECT,
      state_spec BUDGET_UPDATED NO_SUBJECT,
      state_spec QUOTA_LIMIT_UPDATED [SK_MODEL_TASK_TYPE],
      usage_spec QUOTA_EXHAUSTED NT_NOTIFICATION QUOTA_SUBJECT SK_BILLING_MONTH,
      usage_spec BUDGET_EXHAUSTED NT_NOTIFICATION BUDGET_SUBJECT SK_BUDGET_WINDOW,
      usage_spec QUOTA_THRESHOLD NT_ALERT QUOTA_SUBJECT SK_BILLING_MONTH,
      usage_spec BUDGET_THRESHOLD NT_ALERT BUDGET_SUBJECT SK_BUDGET_WINDOW,
      monitoring_spec ERROR_RATE_4XX,
      monitoring_spec ERROR_RATE_5XX,
      monitoring_spec LATENCY_P50,
      monitoring_spec LATENCY_P95,
      monitoring_spec LATENCY_P99]"

text \<open>\<open>get_spec\<close> takes the text of a name; an enumeration member is its own text.\<close>

definition get_spec :: "string \<Rightarrow> NotificationSpec option" where
  "get_spec name = (case NotificationName_of name of None \<Rightarrow> None | Some n \<Rightarrow> dict_get SPECS n)"

definition spec_of :: "NotificationName \<Rightarrow> NotificationSpec" where
  "spec_of n = the (dict_get SPECS n)"

lemmas spec_defs = state_spec_def usage_spec_def monitoring_spec_def
  NO_SUBJECT_def QUOTA_SUBJECT_def BUDGET_SUBJECT_def MONITORING_SUBJECT_def is_band_def is_state_def

lemma SPECS_total: "\<exists>spec. dict_get SPECS n = Some spec \<and> sp_name spec = n"
  by (cases n) (simp_all add: SPECS_def spec_defs)

lemma get_spec_value [simp]: "get_spec (NotificationName_value n) = Some (spec_of n)"
  using SPECS_total [of n] by (auto simp: get_spec_def spec_of_def)

lemma sp_name_spec_of [simp]: "sp_name (spec_of n) = n"
  using SPECS_total [of n] by (auto simp: spec_of_def)

lemma get_spec_Some: "get_spec s = Some spec \<Longrightarrow> \<exists>n. s = NotificationName_value n \<and> spec = spec_of n"
  by (auto simp: get_spec_def spec_of_def nname.enum_of_Some_iff split: option.splits)

text \<open>Only platform rows are re-armed, and every spec has exactly one of the two rules.\<close>

lemma resets_iff_platform: "sp_resets (spec_of n) \<longleftrightarrow> sp_platform_scoped (spec_of n)"
  by (cases n) (simp_all add: spec_of_def SPECS_def spec_defs)

lemma band_xor_state: "is_band (spec_of n) \<longleftrightarrow> \<not> is_state (spec_of n)"
  by (cases n) (simp_all add: spec_of_def SPECS_def spec_defs)

lemma period_key_in_subject: "sp_period_key (spec_of n) = Some k \<Longrightarrow> k \<in> set (sp_subject_keys (spec_of n))"
  by (cases n) (auto simp: spec_of_def SPECS_def spec_defs)

lemma subject_keys_distinct: "distinct (sp_subject_keys (spec_of n))"
  by (cases n) (simp_all add: spec_of_def SPECS_def spec_defs)

lemma subject_keys_cases:
  "sp_subject_keys (spec_of n) \<in> {[], [SK_MODEL_TASK_TYPE], [SK_BILLING_MONTH, SK_MODEL_TASK_TYPE],
     [SK_BUDGET_CEILING, SK_BUDGET_WINDOW], [SK_SERVICE_ID]}"
  by (cases n) (simp_all add: spec_of_def SPECS_def spec_defs)

end
