(* ===== verification/Py_Time.thy ===== *)
theory Py_Time
  imports Py_Numbers
begin

text \<open>
  The part of Python's \<open>datetime\<close> the modelled code uses: an aware UTC moment is its number of
  microseconds since 1970-01-01, its calendar date comes from the proleptic Gregorian ordinal
  (CPython's \<open>_ord2ymd\<close>, with its inverse \<open>_ymd2ord\<close>), and \<open>strftime\<close> / \<open>isoformat\<close> print it.
  The main facts are that the calendar conversion is invertible, that a billing month has the
  shape \<open>YYYY-MM\<close> and that the millisecond text of a moment reads back as the moment truncated to
  milliseconds.
\<close>

section \<open>Calendar\<close>

definition days_before_month :: "int \<Rightarrow> int" where
  "days_before_month m = (if m \<le> 1 then 0 else if m = 2 then 31 else if m = 3 then 59 else if m = 4 then 90
     else if m = 5 then 120 else if m = 6 then 151 else if m = 7 then 181 else if m = 8 then 212
     else if m = 9 then 243 else if m = 10 then 273 else if m = 11 then 304 else 334)"

definition is_leap :: "int \<Rightarrow> bool" where
  "is_leap y \<longleftrightarrow> y mod 4 = 0 \<and> (y mod 100 \<noteq> 0 \<or> y mod 400 = 0)"

definition days_before_year :: "int \<Rightarrow> int" where
  "days_before_year year = (let y = year - 1 in y * 365 + y div 4 - y div 100 + y div 400)"

definition ymd2ord :: "int \<Rightarrow> int \<Rightarrow> int \<Rightarrow> int" where
  "ymd2ord y m d = days_before_year y + (days_before_month m + (if 2 < m \<and> is_leap y then 1 else 0)) + d"

definition days_in_month :: "bool \<Rightarrow> int \<Rightarrow> int" where
  "days_in_month leap m = (if m = 2 then (if leap then 29 else 28) else if m \<in> {4, 6, 9, 11} then 30 else 31)"

definition month_of :: "bool \<Rightarrow> int \<Rightarrow> int \<times> int" where
  "month_of leap n =
     (let month = (n + 50) div 32;
          preceding = days_before_month month + (if 2 < month \<and> leap then 1 else 0)
      in if n < preceding
         then (month - 1, n - (preceding - days_in_month leap (month - 1)) + 1)
         else (month, n - preceding + 1))"

definition ord2ymd :: "int \<Rightarrow> int \<times> int \<times> int" where
  "ord2ymd ordinal =
     (let n = ordinal - 1; n400 = n div 146097; n = n mod 146097;
          year = n400 * 400 + 1;
          n100 = n div 36524; n = n mod 36524;
          n4 = n div 1461; n = n mod 1461;
          n1 = n div 365; n = n mod 365;
          year = year + n100 * 100 + n4 * 4 + n1
      in if n1 = 4 \<or> n100 = 4 then (year - 1, 12, 31)
         else let leap = (n1 = 3 \<and> (n4 \<noteq> 24 \<or> n100 = 3))
              in (year, month_of leap n))"

text \<open>Both directions agree: the month and day found are in range and count back to the ordinal.\<close>

lemma month_of_ok:
  assumes "0 \<le> n" "n < 365 + (if leap then 1 else 0)" "month_of leap n = (m, d)"
  shows "1 \<le> m \<and> m \<le> 12 \<and> 1 \<le> d \<and> d \<le> days_in_month leap m \<and>
         days_before_month m + (if 2 < m \<and> leap then 1 else 0) + d = n + 1"
proof -
  define k where "k = (n + 50) div 32"
  have "1 \<le> k" and "k \<le> 12" using assms by (auto simp: k_def split: if_splits)
  moreover have "32 * k \<le> n + 50" and "n + 50 < 32 * k + 32" unfolding k_def by linarith+
  ultimately have kn: "1 \<le> k" "k \<le> 12" "32 * k \<le> n + 50" "n + 50 < 32 * k + 32" by blast+
  have mo: "(if n < days_before_month k + (if 2 < k \<and> leap then 1 else 0)
      then (k - 1, n - (days_before_month k + (if 2 < k \<and> leap then 1 else 0) - days_in_month leap (k - 1)) + 1)
      else (k, n - (days_before_month k + (if 2 < k \<and> leap then 1 else 0)) + 1)) = (m, d)"
    using assms(3) by (simp only: month_of_def Let_def k_def)
  consider "k = 1" | "k = 2" | "k = 3" | "k = 4" | "k = 5" | "k = 6" | "k = 7" | "k = 8" | "k = 9"
    | "k = 10" | "k = 11" | "k = 12"
  proof -
    have "k = 1 \<or> k = 2 \<or> k = 3 \<or> k = 4 \<or> k = 5 \<or> k = 6 \<or> k = 7 \<or> k = 8 \<or> k = 9 \<or>
        k = 10 \<or> k = 11 \<or> k = 12"
      using kn(1,2) by presburger
    then show ?thesis using that by blast
  qed
  then show ?thesis
    by cases (use mo kn assms(1,2) in \<open>cases leap; simp add: days_before_month_def days_in_month_def split: if_splits\<close>)+
qed

lemma year_parts:
  fixes a b c d :: int
  assumes "0 \<le> b" "b \<le> 3" "0 \<le> c" "c \<le> 24" "0 \<le> d" "d \<le> 3"
  shows "days_before_year (400 * a + 100 * b + 4 * c + d + 1) = 146097 * a + 36524 * b + 1461 * c + 365 * d"
    and "is_leap (400 * a + 100 * b + 4 * c + d + 1) \<longleftrightarrow> d = 3 \<and> (c \<noteq> 24 \<or> b = 3)"
proof -
  let ?y = "400 * a + 100 * b + 4 * c + d"
  have "?y div 4 = 100 * a + 25 * b + c"
    by (rule int_div_pos_eq [where r = d]) (use assms in simp_all)
  moreover have "?y div 100 = 4 * a + b"
    by (rule int_div_pos_eq [where r = "4 * c + d"]) (use assms in simp_all)
  moreover have "?y div 400 = a"
    by (rule int_div_pos_eq [where r = "100 * b + 4 * c + d"]) (use assms in simp_all)
  ultimately show "days_before_year (?y + 1) = 146097 * a + 36524 * b + 1461 * c + 365 * d"
    by (simp add: days_before_year_def)
  have "(?y + 1) mod 4 = (if d = 3 then 0 else d + 1)"
    by (cases "d = 3"; rule int_mod_pos_eq [where q = "100 * a + 25 * b + c + (if d = 3 then 1 else 0)"])
      (use assms in simp_all)
  moreover have "(?y + 1) mod 100 = (if c = 24 \<and> d = 3 then 0 else 4 * c + d + 1)"
    by (cases "c = 24 \<and> d = 3"; rule int_mod_pos_eq [where q = "4 * a + b + (if c = 24 \<and> d = 3 then 1 else 0)"])
      (use assms in \<open>auto\<close>)
  moreover have "(?y + 1) mod 400 = (if b = 3 \<and> c = 24 \<and> d = 3 then 0 else 100 * b + 4 * c + d + 1)"
    by (cases "b = 3 \<and> c = 24 \<and> d = 3"; rule int_mod_pos_eq [where q = "a + (if b = 3 \<and> c = 24 \<and> d = 3 then 1 else 0)"])
      (use assms in \<open>auto\<close>)
  ultimately show "is_leap (?y + 1) \<longleftrightarrow> d = 3 \<and> (c \<noteq> 24 \<or> b = 3)" using assms by (auto simp: is_leap_def split: if_splits)
qed

lemma ord2ymd_ok:
  assumes "ord2ymd n = (y, m, d)"
  shows "1 \<le> m \<and> m \<le> 12 \<and> 1 \<le> d \<and> d \<le> days_in_month (is_leap y) m \<and> ymd2ord y m d = n"
proof -
  define a r1 where "a = (n - 1) div 146097" and "r1 = (n - 1) mod 146097"
  define b r2 where "b = r1 div 36524" and "r2 = r1 mod 36524"
  define c r3 where "c = r2 div 1461" and "r3 = r2 mod 1461"
  define e r4 where "e = r3 div 365" and "r4 = r3 mod 365"
  have n: "n = 146097 * a + 36524 * b + 1461 * c + 365 * e + r4 + 1"
    by (simp add: a_def b_def c_def e_def r1_def r2_def r3_def r4_def)
  have rng: "0 \<le> r1" "r1 < 146097" "0 \<le> r2" "r2 < 36524" "0 \<le> r3" "r3 < 1461" "0 \<le> r4" "r4 < 365"
    by (simp_all add: r1_def r2_def r3_def r4_def)
  have eqs: "r1 = 36524 * b + r2" "r2 = 1461 * c + r3" "r3 = 365 * e + r4"
    by (simp_all add: b_def r2_def c_def r3_def e_def r4_def)
  have bce: "0 \<le> b" "b \<le> 4" "0 \<le> c" "c \<le> 24" "0 \<le> e" "e \<le> 4"
    using rng eqs by linarith+
  have o: "ord2ymd n = (if e = 4 \<or> b = 4 then (400 * a + 100 * b + 4 * c + e, 12, 31)
      else (400 * a + 100 * b + 4 * c + e + 1, month_of (e = 3 \<and> (c \<noteq> 24 \<or> b = 3)) r4))"
    by (simp add: ord2ymd_def Let_def a_def b_def c_def e_def r1_def r2_def r3_def r4_def algebra_simps)
  consider "b = 4" | "b \<noteq> 4" "e = 4" | "b \<le> 3" "e \<le> 3" using bce by linarith
  then show ?thesis
  proof cases
    case 1
    then have z: "c = 0" "e = 0" "r4 = 0" using rng eqs bce by linarith+
    then have y: "y = 400 * a + 100 * 3 + 4 * 24 + 3 + 1" "m = 12" "d = 31" using assms o 1 by auto
    have "days_before_year y = 146097 * a + 36524 * 3 + 1461 * 24 + 365 * 3" "is_leap y"
      unfolding y(1) by (subst year_parts; simp)+
    then show ?thesis using n z 1 by (simp add: ymd2ord_def days_before_month_def days_in_month_def y(2,3))
  next
    case 2
    then have z: "r4 = 0" "c \<le> 23" "b \<le> 3" using rng eqs bce by linarith+
    then have y: "y = 400 * a + 100 * b + 4 * c + 3 + 1" "m = 12" "d = 31" using assms o 2 by auto
    have "days_before_year y = 146097 * a + 36524 * b + 1461 * c + 365 * 3" "is_leap y"
      unfolding y(1) using z bce by (subst year_parts; simp)+
    then show ?thesis using n z 2 by (simp add: ymd2ord_def days_before_month_def days_in_month_def y(2,3))
  next
    case 3
    then have y: "y = 400 * a + 100 * b + 4 * c + e + 1"
      and mo: "month_of (e = 3 \<and> (c \<noteq> 24 \<or> b = 3)) r4 = (m, d)" using assms o by auto
    have "days_before_year y = 146097 * a + 36524 * b + 1461 * c + 365 * e"
      and lp: "is_leap y \<longleftrightarrow> e = 3 \<and> (c \<noteq> 24 \<or> b = 3)"
      unfolding y using 3 bce by (simp_all add: year_parts)
    then show ?thesis using month_of_ok [OF rng(7) _ mo [folded lp]] rng(8) n
      by (auto simp: ymd2ord_def split: if_splits)
  qed
qed
section \<open>Moments\<close>

type_synonym datetime = int

definition US_PER_DAY :: int where "US_PER_DAY = 86400000000"

definition date_of :: "datetime \<Rightarrow> int \<times> int \<times> int" where
  "date_of t = ord2ymd (t div US_PER_DAY + 719163)"

definition year_of :: "datetime \<Rightarrow> int" where
  "year_of t = fst (date_of t)"

definition month_num :: "datetime \<Rightarrow> int" where
  "month_num t = fst (snd (date_of t))"

definition day_num :: "datetime \<Rightarrow> int" where
  "day_num t = snd (snd (date_of t))"

definition hour_of :: "datetime \<Rightarrow> int" where
  "hour_of t = t mod US_PER_DAY div 3600000000"

definition minute_of :: "datetime \<Rightarrow> int" where
  "minute_of t = t mod 3600000000 div 60000000"

definition second_of :: "datetime \<Rightarrow> int" where
  "second_of t = t mod 60000000 div 1000000"

definition micro_of :: "datetime \<Rightarrow> int" where
  "micro_of t = t mod 1000000"

text \<open>Python's range of dates.\<close>

definition valid_moment :: "datetime \<Rightarrow> bool" where
  "valid_moment t \<longleftrightarrow> 1 \<le> year_of t \<and> year_of t \<le> 9999"

definition field :: "nat \<Rightarrow> int \<Rightarrow> string" where
  "field w n = pad_zero w (show_nat (nat n))"

lemma field_code [code]: "field w n = pad_zero w (show_pos (if n < 0 then 0 else n))"
  by (simp add: field_def show_pos_eq)

text \<open>\<open>strftime("%Y-%m")\<close>; the year is not padded.\<close>

definition strftime_Ym :: "datetime \<Rightarrow> string" where
  "strftime_Ym t = show_int (year_of t) @ ''-'' @ field 2 (month_num t)"

text \<open>The seconds part shared by the two ISO texts.\<close>

definition iso_base :: "datetime \<Rightarrow> string" where
  "iso_base t = field 4 (year_of t) @ ''-'' @ field 2 (month_num t) @ ''-'' @ field 2 (day_num t) @ ''T'' @
     field 2 (hour_of t) @ '':'' @ field 2 (minute_of t) @ '':'' @ field 2 (second_of t)"

definition isoformat :: "datetime \<Rightarrow> string" where
  "isoformat t = iso_base t @ (if micro_of t = 0 then [] else ''.'' @ field 6 (micro_of t)) @ ''+00:00''"

definition iso_ms :: "datetime \<Rightarrow> string" where
  "iso_ms t = iso_base t @ ''.'' @ field 3 (micro_of t div 1000)"

text \<open>
  Reading a text of the shape \<open>YYYY-MM-DDTHH:MM:SS.mmmZ\<close>, the one \<open>iso_z\<close> writes.  Any other text
  is refused (\<open>None\<close>, a \<open>ValueError\<close>).
\<close>

definition digits_at :: "string \<Rightarrow> nat \<Rightarrow> nat \<Rightarrow> int option" where
  "digits_at s i w = (let f = take w (drop i s) in if length f = w \<and> list_all is_digit f then Some (int (read_digits f)) else None)"

definition moment_of :: "int \<Rightarrow> int \<Rightarrow> int \<Rightarrow> int \<Rightarrow> int \<Rightarrow> int \<Rightarrow> int \<Rightarrow> datetime" where
  "moment_of y m d hh mm ss us =
     (ymd2ord y m d - 719163) * US_PER_DAY + ((hh * 60 + mm) * 60 + ss) * 1000000 + us"

definition parse_ms :: "string \<Rightarrow> datetime option" where
  "parse_ms s =
     (case (digits_at s 0 4, digits_at s 5 2, digits_at s 8 2, digits_at s 11 2, digits_at s 14 2, digits_at s 17 2, digits_at s 20 3) of
        (Some y, Some m, Some d, Some hh, Some mm, Some ss, Some ms) \<Rightarrow>
          if length s = 24 \<and> [s ! 4, s ! 7, s ! 10, s ! 13, s ! 16, s ! 19, s ! 23] = ''--T::.Z'' \<and>
             1 \<le> y \<and> 1 \<le> m \<and> m \<le> 12 \<and> 1 \<le> d \<and> d \<le> days_in_month (is_leap y) m \<and>
             hh < 24 \<and> mm < 60 \<and> ss < 60
          then Some (moment_of y m d hh mm ss (ms * 1000)) else None
      | _ \<Rightarrow> None)"

lemma date_ranges:
  "1 \<le> month_num t" "month_num t \<le> 12" "1 \<le> day_num t"
  "day_num t \<le> days_in_month (is_leap (year_of t)) (month_num t)"
  "ymd2ord (year_of t) (month_num t) (day_num t) = t div US_PER_DAY + 719163"
  using ord2ymd_ok [of "t div US_PER_DAY + 719163" "year_of t" "month_num t" "day_num t"]
  by (simp_all add: year_of_def month_num_def day_num_def date_of_def)

lemma day_num_le: "day_num t \<le> 31"
  using date_ranges(4) [of t] by (auto simp: days_in_month_def split: if_splits)

lemma clock_ranges:
  "0 \<le> hour_of t" "hour_of t < 24" "0 \<le> minute_of t" "minute_of t < 60"
  "0 \<le> second_of t" "second_of t < 60" "0 \<le> micro_of t" "micro_of t < 1000000"
  by (simp_all add: hour_of_def minute_of_def second_of_def micro_of_def US_PER_DAY_def)

text \<open>A moment is rebuilt from its fields.\<close>

lemma moment_of_fields:
  "moment_of (year_of t) (month_num t) (day_num t) (hour_of t) (minute_of t) (second_of t) (micro_of t) = t"
proof -
  define d where "d = t mod US_PER_DAY"
  define q1 r1 where "q1 = d div 3600000000" and "r1 = d mod 3600000000"
  define q2 r2 where "q2 = r1 div 60000000" and "r2 = r1 mod 60000000"
  define q3 r3 where "q3 = r2 div 1000000" and "r3 = r2 mod 1000000"
  have m: "t mod 3600000000 = r1"
    using mod_mod_cancel [of 3600000000 US_PER_DAY t] by (simp add: US_PER_DAY_def d_def r1_def)
  have s: "t mod 60000000 = r2"
    using mod_mod_cancel [of 60000000 3600000000 t] by (simp add: m r2_def)
  have u: "t mod 1000000 = r3"
    using mod_mod_cancel [of 1000000 60000000 t] by (simp add: s r3_def)
  have "d = q1 * 3600000000 + r1" "r1 = q2 * 60000000 + r2" "r2 = q3 * 1000000 + r3"
    by (simp_all only: q1_def r1_def q2_def r2_def q3_def r3_def div_mult_mod_eq)
  then have "((q1 * 60 + q2) * 60 + q3) * 1000000 + r3 = d" by (simp add: algebra_simps)
  then have "((hour_of t * 60 + minute_of t) * 60 + second_of t) * 1000000 + micro_of t = d"
    by (simp only: hour_of_def minute_of_def second_of_def micro_of_def m s u flip: d_def q1_def q2_def q3_def)
  moreover have "t div US_PER_DAY * US_PER_DAY + d = t" by (simp add: d_def)
  moreover have "ymd2ord (year_of t) (month_num t) (day_num t) - 719163 = t div US_PER_DAY"
    by (simp add: date_ranges(5))
  ultimately show ?thesis unfolding moment_of_def by (simp only: add.assoc)
qed

section \<open>Fields of fixed width\<close>

lemma length_show_nat: "0 < w \<Longrightarrow> n < 10 ^ w \<Longrightarrow> length (show_nat n) \<le> w"
proof (induction n arbitrary: w rule: show_nat.induct)
  case (1 n)
  show ?case
  proof (cases "n < 10")
    case True
    then show ?thesis using 1 by (subst show_nat.simps) simp
  next
    case False
    then obtain v where v: "w = Suc v" "0 < v" using 1 by (cases w; cases "w = 1") auto
    then have "n div 10 < 10 ^ v" using 1 by (simp add: less_mult_imp_div_less mult.commute)
    with 1 False v have "length (show_nat (n div 10)) \<le> v" by simp
    with False v show ?thesis by (subst show_nat.simps) simp
  qed
qed

lemma length_field: "0 < w \<Longrightarrow> n < 10 ^ w \<Longrightarrow> length (field w n) = w"
  using length_show_nat [of w "nat n"] by (simp add: field_def pad_zero_def nat_less_iff)

lemma field_digits: "list_all is_digit (field w n)"
proof -
  have "is_digit (CHR ''0'')" by (simp add: is_digit_def)
  then have "list_all is_digit (replicate k (CHR ''0''))" for k by (simp add: list_all_iff)
  then show ?thesis by (simp add: field_def pad_zero_def)
qed

lemma read_digits_zeros: "read_digits (replicate k (CHR ''0'') @ s) = read_digits s"
  by (induction k) (simp_all add: read_digits_def digit_val_def)

lemma read_field [simp]: "0 \<le> n \<Longrightarrow> int (read_digits (field w n)) = n"
  by (simp add: field_def pad_zero_def read_digits_zeros)

lemma digits_at_field:
  assumes "length pre = i" and "length f = w" and "list_all is_digit f"
  shows "digits_at (pre @ f @ post) i w = Some (int (read_digits f))"
  using assms by (simp add: digits_at_def)

text \<open>The millisecond text reads back as the moment cut to milliseconds.\<close>

lemma parse_iso_ms:
  assumes "valid_moment t"
  shows "parse_ms (iso_ms t @ ''Z'') = Some (t - t mod 1000)"
proof -
  define Y M D H N S U where
    "Y = field 4 (year_of t)" and "M = field 2 (month_num t)" and "D = field 2 (day_num t)" and
    "H = field 2 (hour_of t)" and "N = field 2 (minute_of t)" and "S = field 2 (second_of t)" and
    "U = field 3 (micro_of t div 1000)"
  have lens: "length Y = 4" "length M = 2" "length D = 2" "length H = 2" "length N = 2" "length S = 2" "length U = 3"
    using assms date_ranges [of t] day_num_le [of t] clock_ranges [of t]
    unfolding Y_def M_def D_def H_def N_def S_def U_def valid_moment_def
    by (intro length_field; simp)+
  have digs: "list_all is_digit Y" "list_all is_digit M" "list_all is_digit D" "list_all is_digit H"
    "list_all is_digit N" "list_all is_digit S" "list_all is_digit U"
    by (simp_all add: Y_def M_def D_def H_def N_def S_def U_def field_digits)
  have vals: "int (read_digits Y) = year_of t" "int (read_digits M) = month_num t" "int (read_digits D) = day_num t"
    "int (read_digits H) = hour_of t" "int (read_digits N) = minute_of t" "int (read_digits S) = second_of t"
    "int (read_digits U) = micro_of t div 1000"
    using assms date_ranges [of t] clock_ranges [of t]
    by (simp_all add: Y_def M_def D_def H_def N_def S_def U_def valid_moment_def)
  let ?s = "Y @ ''-'' @ M @ ''-'' @ D @ ''T'' @ H @ '':'' @ N @ '':'' @ S @ ''.'' @ U @ ''Z''"
  have s: "iso_ms t @ ''Z'' = ?s"
    by (simp add: iso_ms_def iso_base_def Y_def M_def D_def H_def N_def S_def U_def)
  have parts: "digits_at ?s 0 4 = Some (year_of t)" "digits_at ?s 5 2 = Some (month_num t)"
    "digits_at ?s 8 2 = Some (day_num t)" "digits_at ?s 11 2 = Some (hour_of t)"
    "digits_at ?s 14 2 = Some (minute_of t)" "digits_at ?s 17 2 = Some (second_of t)"
    "digits_at ?s 20 3 = Some (micro_of t div 1000)"
    using lens digs vals by (simp_all add: digits_at_def)
  have seps: "[?s ! 4, ?s ! 7, ?s ! 10, ?s ! 13, ?s ! 16, ?s ! 19, ?s ! 23] = ''--T::.Z''" and len: "length ?s = 24"
    using lens by (simp_all add: nth_append)
  have "parse_ms ?s = Some (moment_of (year_of t) (month_num t) (day_num t) (hour_of t) (minute_of t) (second_of t)
      (micro_of t div 1000 * 1000))"
    unfolding parse_ms_def parts using seps len assms date_ranges [of t] clock_ranges [of t]
    by (simp add: valid_moment_def)
  also have "\<dots> = Some (t - t mod 1000)"
  proof -
    have "micro_of t mod 1000 = t mod 1000" by (simp add: micro_of_def mod_mod_cancel)
    then have "micro_of t div 1000 * 1000 = micro_of t - t mod 1000"
      using minus_mod_eq_div_mult [of "micro_of t" 1000] by simp
    then show ?thesis using moment_of_fields [of t] by (simp add: moment_of_def)
  qed
  finally show ?thesis by (simp only: s)
qed

text \<open>A billing month has four digits, a dash and a month between 01 and 12.\<close>

lemma month_field: "\<exists>a b. field 2 (month_num t) = [a, b] \<and>
    (a = CHR ''0'' \<and> is_digit b \<and> b \<noteq> CHR ''0'' \<or> a = CHR ''1'' \<and> b \<in> {CHR ''0'', CHR ''1'', CHR ''2''})"
proof -
  have "month_num t \<in> {1, 2, 3, 4, 5, 6, 7, 8, 9, 10, 11, 12}"
    using date_ranges(1,2) [of t] by (simp, presburger)
  then show ?thesis
    by (elim insertE emptyE) (simp_all add: field_def pad_zero_def show_nat.simps digit_char_def is_digit_def char_of_def bit_Suc_0_iff)
qed

lemma strftime_Ym_shape:
  assumes "1000 \<le> year_of t" "year_of t \<le> 9999"
  shows "\<exists>y. strftime_Ym t = y @ ''-'' @ field 2 (month_num t) \<and> length y = 4 \<and> list_all is_digit y"
proof -
  have pos: "0 \<le> year_of t" and big: "\<not> nat (year_of t) < 1000" using assms by simp_all
  have le: "length (show_nat (nat (year_of t))) \<le> 4" using assms by (intro length_show_nat) simp_all
  have three: "n < 1000" if "length (show_nat n) \<le> 3" for n
  proof (rule ccontr)
    assume "\<not> n < 1000"
    then have "\<not> n < 10" "\<not> n div 10 < 10" "\<not> n div 10 div 10 < 10" by linarith+
    then have "length (show_nat n) = length (show_nat (n div 10 div 10 div 10)) + 3"
      by (subst show_nat.simps, simp, subst show_nat.simps, simp, subst show_nat.simps, simp)
    then have "length (show_nat (n div 10 div 10 div 10)) = 0" using that by linarith
    then show False by simp
  qed
  with big have "\<not> length (show_nat (nat (year_of t))) \<le> 3" by blast
  with le have "length (show_nat (nat (year_of t))) = 4" by linarith
  then show ?thesis using pos by (auto simp: strftime_Ym_def show_int_def)
qed

end
