(* ===== verification/Py_Json.thy ===== *)
theory Py_Json
  imports Py_Time "HOL-Library.Multiset"
begin

text \<open>
  Parsed JSON values, Python's truth value, \<open>int\<close>, \<open>float\<close> and \<open>str\<close> of them, and \<open>json.dumps\<close> with sorted keys
  and no spaces (\<open>canonical_json\<close> of \<open>keys.py\<close>).  Objects keep their insertion order; text is ASCII.
\<close>

datatype json = JNull | JBool bool | JInt int | JFloat rat | JStr string
  | JArr "json list" | JObj "(string \<times> json) list"

fun truthy :: "json \<Rightarrow> bool" where
  "truthy JNull = False"
| "truthy (JBool b) = b"
| "truthy (JInt i) = (i \<noteq> 0)"
| "truthy (JFloat x) = (x \<noteq> 0)"
| "truthy (JStr s) = (s \<noteq> [])"
| "truthy (JArr xs) = (xs \<noteq> [])"
| "truthy (JObj d) = (d \<noteq> [])"

text \<open>\<open>value or other\<close>\<close>

definition py_or :: "json \<Rightarrow> json \<Rightarrow> json" where
  "py_or v w = (if truthy v then v else w)"

text \<open>Equality with an integer: numbers compare by value, and \<open>True\<close> equals 1.\<close>

definition py_eq_int :: "json \<Rightarrow> int \<Rightarrow> bool" where
  "py_eq_int v n = (case v of JInt i \<Rightarrow> i = n | JFloat x \<Rightarrow> x = of_int n | JBool b \<Rightarrow> (if b then 1 else 0) = n | _ \<Rightarrow> False)"

text \<open>\<open>data.get(key)\<close> and \<open>data.get(key, default)\<close>\<close>

definition jget :: "(string \<times> json) list \<Rightarrow> string \<Rightarrow> json" where
  "jget d k = (case map_of d k of Some v \<Rightarrow> v | None \<Rightarrow> JNull)"

definition jget_default :: "(string \<times> json) list \<Rightarrow> string \<Rightarrow> json \<Rightarrow> json" where
  "jget_default d k v = (case map_of d k of Some w \<Rightarrow> w | None \<Rightarrow> v)"

section \<open>Text of numbers\<close>

text \<open>
  \<open>repr\<close> of a double: the shortest digits that read back, in positional notation for exponents
  from -4 to 15 and in scientific notation otherwise.
\<close>

definition repr_width :: "rat \<Rightarrow> nat" where
  "repr_width x = (case find (\<lambda>n. fl (sig_round 10 n x) = x) [1..<18] of Some n \<Rightarrow> n | None \<Rightarrow> 17)"

definition show_float :: "rat \<Rightarrow> string" where
  "show_float x =
     (if x = 0 then ''0.0''
      else let a = \<bar>sig_round 10 (repr_width x) x\<bar>; e = lead 10 a; w = repr_width x;
               ds = show_nat (nat \<lfloor>a / 10 powi (e + 1 - int w)\<rfloor>);
               sign = (if x < 0 then ''-'' else [])
           in sign @
              (if 0 \<le> e \<and> e < 16
               then (let n = nat e + 1
                     in if length ds \<le> n then ds @ replicate (n - length ds) (CHR ''0'') @ ''.0''
                        else take n ds @ ''.'' @ drop n ds)
               else if -4 \<le> e \<and> e < 0 then ''0.'' @ replicate (nat (- e - 1)) (CHR ''0'') @ ds
               else take 1 ds @ (if length ds = 1 then [] else ''.'' @ drop 1 ds) @ ''e'' @
                    (if e < 0 then ''-'' else ''+'') @ pad_zero 2 (show_nat (nat \<bar>e\<bar>))))"

section \<open>\<open>int\<close>, \<open>float\<close> and \<open>str\<close>\<close>

text \<open>A run of digits in which single underscores may separate digits.\<close>

fun scan_digits :: "bool \<Rightarrow> string \<Rightarrow> string option" where
  "scan_digits prev [] = (if prev then Some [] else None)"
| "scan_digits prev (c # cs) =
     (if is_digit c then map_option (Cons c) (scan_digits True cs)
      else if c = CHR ''_'' \<and> prev then scan_digits False cs
      else None)"

definition split_sign :: "string \<Rightarrow> bool \<times> string" where
  "split_sign s = (case s of
      c # cs \<Rightarrow> if c = CHR ''-'' then (True, cs) else if c = CHR ''+'' then (False, cs) else (False, s)
    | [] \<Rightarrow> (False, s))"

definition int_of_str :: "string \<Rightarrow> int option" where
  "int_of_str s = (let (neg, u) = split_sign (strip s)
     in map_option (\<lambda>ds. (if neg then - 1 else 1) * int (read_digits ds)) (scan_digits False u))"

lemma int_of_str_code [code]:
  "int_of_str s = (let (neg, u) = split_sign (strip s)
     in map_option (\<lambda>ds. (if neg then - 1 else 1) * read_int ds) (scan_digits False u))"
  by (simp add: int_of_str_def read_int)

text \<open>\<open>int(v)\<close>: doubles are truncated; \<open>None\<close> is the \<open>TypeError\<close> or \<open>ValueError\<close>.\<close>

definition py_int :: "json \<Rightarrow> int option" where
  "py_int v = (case v of
      JInt i \<Rightarrow> Some i
    | JBool b \<Rightarrow> Some (if b then 1 else 0)
    | JFloat x \<Rightarrow> Some (if 0 \<le> x then \<lfloor>x\<rfloor> else \<lceil>x\<rceil>)
    | JStr s \<Rightarrow> int_of_str s
    | _ \<Rightarrow> None)"

definition split_at :: "(char \<Rightarrow> bool) \<Rightarrow> string \<Rightarrow> string \<times> string option" where
  "split_at p s = (case dropWhile (\<lambda>c. \<not> p c) s of
      [] \<Rightarrow> (s, None)
    | _ # t \<Rightarrow> (takeWhile (\<lambda>c. \<not> p c) s, Some t))"

text \<open>
  \<open>Decimal(s)\<close> and \<open>float(s)\<close> of a decimal literal: optional sign, digits with an optional point,
  optional exponent.  (The texts of infinities and NaN are outside the model.)
\<close>

definition decimal_of_str :: "string \<Rightarrow> rat option" where
  "decimal_of_str s =
     (let (neg, u) = split_sign (strip s);
          (mant, ex) = split_at (\<lambda>c. c = CHR ''e'' \<or> c = CHR ''E'') u;
          (ip, fp) = split_at (\<lambda>c. c = CHR ''.'') mant;
          e = (case ex of None \<Rightarrow> Some 0 | Some t \<Rightarrow>
                 (let (n, ds) = split_sign t in map_option (\<lambda>d. (if n then - 1 else 1) * int (read_digits d)) (scan_digits False ds)));
          i = (if ip = [] then Some [] else scan_digits False ip);
          f = (case fp of None \<Rightarrow> Some [] | Some t \<Rightarrow> if t = [] then Some [] else scan_digits False t)
      in case (e, i, f) of
           (Some k, Some a, Some b) \<Rightarrow>
             if a = [] \<and> b = [] then None
             else Some ((if neg then - 1 else 1) * (of_nat (read_digits (a @ b)) * 10 powi (k - int (length b))))
         | _ \<Rightarrow> None)"

definition float_of_str :: "string \<Rightarrow> rat option" where
  "float_of_str s = map_option fl (decimal_of_str s)"

definition py_float :: "json \<Rightarrow> rat option" where
  "py_float v = (case v of
      JInt i \<Rightarrow> Some (fl (of_int i))
    | JBool b \<Rightarrow> Some (if b then 1 else 0)
    | JFloat x \<Rightarrow> Some x
    | JStr s \<Rightarrow> float_of_str s
    | _ \<Rightarrow> None)"

definition hex_digit :: "nat \<Rightarrow> char" where
  "hex_digit n = (if n < 10 then digit_char n else char_of (87 + n))"

definition repr_char :: "char \<Rightarrow> char \<Rightarrow> string" where
  "repr_char q c =
     (let n = (of_char c :: nat) in
      if c = q \<or> n = 92 then [CHR 0x5C, c]
      else if n = 10 then [CHR 0x5C, CHR ''n'']
      else if n = 13 then [CHR 0x5C, CHR ''r'']
      else if n = 9 then [CHR 0x5C, CHR ''t'']
      else if n < 32 \<or> n = 127 then [CHR 0x5C, CHR ''x'', hex_digit (n div 16), hex_digit (n mod 16)]
      else [c])"

definition repr_str :: "string \<Rightarrow> string" where
  "repr_str s = (let q = (if CHR 0x27 \<in> set s \<and> CHR 0x22 \<notin> set s then CHR 0x22 else CHR 0x27)
     in [q] @ concat (map (repr_char q) s) @ [q])"

fun py_repr :: "json \<Rightarrow> string" where
  "py_repr JNull = ''None''"
| "py_repr (JBool b) = (if b then ''True'' else ''False'')"
| "py_repr (JInt i) = show_int i"
| "py_repr (JFloat x) = show_float x"
| "py_repr (JStr s) = repr_str s"
| "py_repr (JArr xs) = ''['' @ join '', '' (map py_repr xs) @ '']''"
| "py_repr (JObj d) = ''{'' @ join '', '' (map (\<lambda>(k, v). repr_str k @ '': '' @ py_repr v) d) @ ''}''"

definition py_str :: "json \<Rightarrow> string" where
  "py_str v = (case v of JStr s \<Rightarrow> s | _ \<Rightarrow> py_repr v)"

lemma scan_digits_all: "list_all is_digit s \<Longrightarrow> s \<noteq> [] \<or> prev \<Longrightarrow> scan_digits prev s = Some s"
  by (induction s arbitrary: prev) auto

lemma int_of_str_show_nat [simp]: "int_of_str (show_nat n) = Some (int n)"
proof -
  obtain c cs where c: "show_nat n = c # cs" by (cases "show_nat n") auto
  have digs: "list_all is_digit (c # cs)" using show_nat_digits [of n] by (simp add: c)
  have "dropWhile is_space (show_nat n) = show_nat n" using digs by (simp add: c)
  moreover have "dropWhile is_space (rev (show_nat n)) = rev (show_nat n)"
  proof -
    obtain d ds where d: "rev (show_nat n) = d # ds" by (cases "rev (show_nat n)") auto
    then have "d \<in> set (show_nat n)" by (metis list.set_intros(1) set_rev)
    then have "is_digit d" using show_nat_digits [of n] by (auto simp: list_all_iff)
    then show ?thesis by (simp add: d)
  qed
  ultimately have "strip (show_nat n) = show_nat n" by (simp add: strip_def)
  moreover have "split_sign (show_nat n) = (False, show_nat n)"
    using digs by (auto simp: split_sign_def c is_digit_def)
  ultimately show ?thesis by (simp add: int_of_str_def scan_digits_all)
qed

section \<open>\<open>json.dumps(value, sort_keys=True, separators=(",", ":"))\<close>\<close>

definition escape_char :: "char \<Rightarrow> string" where
  "escape_char c =
     (let n = (of_char c :: nat) in
      if n = 34 then [CHR 0x5C, CHR 0x22]
      else if n = 92 then [CHR 0x5C, CHR 0x5C]
      else if n = 10 then [CHR 0x5C, CHR ''n'']
      else if n = 13 then [CHR 0x5C, CHR ''r'']
      else if n = 9 then [CHR 0x5C, CHR ''t'']
      else if n = 8 then [CHR 0x5C, CHR ''b'']
      else if n = 12 then [CHR 0x5C, CHR ''f'']
      else if n < 32 \<or> n = 127 then [CHR 0x5C, CHR ''u'', CHR ''0'', CHR ''0'', hex_digit (n div 16), hex_digit (n mod 16)]
      else [c])"

definition json_str :: "string \<Rightarrow> string" where
  "json_str s = [CHR 0x22] @ concat (map escape_char s) @ [CHR 0x22]"

fun canonical_json :: "json \<Rightarrow> string" where
  "canonical_json JNull = ''null''"
| "canonical_json (JBool b) = (if b then ''true'' else ''false'')"
| "canonical_json (JInt i) = show_int i"
| "canonical_json (JFloat x) = show_float x"
| "canonical_json (JStr s) = json_str s"
| "canonical_json (JArr xs) = ''['' @ join '','' (map canonical_json xs) @ '']''"
| "canonical_json (JObj d) =
     ''{'' @ join '','' (map (\<lambda>(k, t). json_str k @ '':'' @ t)
                 (sort_key fst (map (\<lambda>(k, v). (k, canonical_json v)) d))) @ ''}''"

text \<open>The order in which an object's keys were inserted is not visible in the text.\<close>

lemma sort_key_distinct_unique:
  assumes "distinct (map fst d)" "mset d = mset d'"
  shows "sort_key fst d = sort_key fst (d' :: (string \<times> 'a) list)"
proof (rule properties_for_sort_key)
  show "mset (sort_key fst d') = mset d" using assms(2) by simp
  show "sorted (map fst (sort_key fst d'))" by simp
  fix k assume "k \<in> set (sort_key fst d')"
  then have "k \<in> set d" using assms(2) by (metis mset_eq_setD set_sort)
  have one: "filter (\<lambda>x. fst k = fst x) xs = [k]"
    if "distinct (map fst xs)" "k \<in> set xs" for xs :: "(string \<times> 'a) list"
    using that by (induction xs) (auto simp: filter_empty_conv)
  have d': "distinct (map fst d')" using assms by (metis distinct_map mset_eq_imp_distinct_iff mset_map)
  have "k \<in> set d'" using \<open>k \<in> set d\<close> assms(2) by (metis mset_eq_setD)
  with d' have "filter (\<lambda>x. fst k = fst x) (sort_key fst d') = [k]"
    by (intro one) (simp_all add: distinct_map)
  with one [OF assms(1) \<open>k \<in> set d\<close>]
  show "filter (\<lambda>x. fst k = fst x) (sort_key fst d') = filter (\<lambda>x. fst k = fst x) d" by simp
qed

lemma canonical_json_order:
  assumes "distinct (map fst d)" "mset d = mset d'"
  shows "canonical_json (JObj d) = canonical_json (JObj d')"
proof -
  let ?f = "\<lambda>(k, v). (k, canonical_json v)"
  have "map fst (map ?f d) = map fst d" by (simp add: case_prod_beta comp_def)
  then have "sort_key fst (map ?f d) = sort_key fst (map ?f d')"
    using assms by (intro sort_key_distinct_unique) (simp_all only: mset_map)
  then show ?thesis by (simp only: canonical_json.simps)
qed

end
