(* ===== verification/Notif_Keys.thy ===== *)
theory Notif_Keys
  imports Notif_Specs Py_Json
begin

text \<open>
  Subject validation, canonical forms and the Redis and Kafka keys
  (\<open>libs/ai4i_core/ai4i_core/kafka/keys.py\<close>).  Main facts: the subjects the producers build pass
  validation, and two validated ledger rows never share a Redis key.
\<close>

type_synonym subject = "(string, string) dict"

section \<open>Subject validation\<close>

datatype InvalidSubject =
    SubjectNotObject
  | SubjectKeys "string list" "string list"
  | SubjectValueEmpty SubjectKey
  | SubjectBadMonth string
  | SubjectNotLower string
  | SubjectBadAmount string
  | TenantIdEmpty

text \<open>
  A pattern that ends in \<open>$\<close> also matches before one final newline: both patterns below are
  tested on the text without it.
\<close>

definition chomp :: "string \<Rightarrow> string" where
  "chomp s = (if s \<noteq> [] \<and> last s = CHR 0x0A then butlast s else s)"

definition BILLING_MONTH_RE :: "string \<Rightarrow> bool" where
  "BILLING_MONTH_RE v =
     (let s = chomp v
      in length s = 7 \<and> list_all is_digit (take 4 s) \<and> s ! 4 = CHR ''-'' \<and>
         (s ! 5 = CHR ''0'' \<and> is_digit (s ! 6) \<and> s ! 6 \<noteq> CHR ''0'' \<or>
          s ! 5 = CHR ''1'' \<and> s ! 6 \<in> {CHR ''0'', CHR ''1'', CHR ''2''}))"

definition AMOUNT_RE :: "string \<Rightarrow> bool" where
  "AMOUNT_RE v =
     (let s = chomp v; n = length s
      in AMOUNT_DECIMALS + 2 \<le> n \<and> list_all is_digit (take (n - AMOUNT_DECIMALS - 1) s) \<and>
         s ! (n - AMOUNT_DECIMALS - 1) = CHR ''.'' \<and> list_all is_digit (drop (n - AMOUNT_DECIMALS) s))"

definition check_value :: "SubjectKey \<Rightarrow> json \<Rightarrow> (InvalidSubject, string) res" where
  "check_value key value =
     (case value of
        JStr s \<Rightarrow>
          if strip s = [] then Inl (SubjectValueEmpty key)
          else if key = SK_BILLING_MONTH \<and> \<not> BILLING_MONTH_RE s then Inl (SubjectBadMonth s)
          else if key = SK_MODEL_TASK_TYPE \<and> s \<noteq> lower s then Inl (SubjectNotLower s)
          else if key = SK_BUDGET_CEILING \<and> \<not> AMOUNT_RE s then Inl (SubjectBadAmount s)
          else Inr s
      | _ \<Rightarrow> Inl (SubjectValueEmpty key))"

fun check_values :: "SubjectKey list \<Rightarrow> (string, json) dict \<Rightarrow> (InvalidSubject, subject) res" where
  "check_values [] d = Inr []"
| "check_values (key # ks) d =
     (case check_value key (jget d (SubjectKey_value key)) of
        Inl e \<Rightarrow> Inl e
      | Inr v \<Rightarrow> (case check_values ks d of Inl e \<Rightarrow> Inl e | Inr r \<Rightarrow> Inr ((SubjectKey_value key, v) # r)))"

definition validate_subject :: "NotificationSpec \<Rightarrow> json \<Rightarrow> (InvalidSubject, subject) res" where
  "validate_subject spec subj =
     (case subj of
        JObj d \<Rightarrow>
          (let expected = map SubjectKey_value (sp_subject_keys spec)
           in if set (dict_keys d) \<noteq> set expected then Inl (SubjectKeys (sort expected) (sort (dict_keys d)))
              else check_values (sp_subject_keys spec) d)
      | _ \<Rightarrow> Inl SubjectNotObject)"

section \<open>Canonical forms\<close>

definition subj_obj :: "subject \<Rightarrow> json" where
  "subj_obj s = JObj (map (\<lambda>(k, v). (k, JStr v)) s)"

definition subject_json :: "subject \<Rightarrow> string" where
  "subject_json s = canonical_json (subj_obj s)"

definition subject_key :: "subject \<Rightarrow> string" where
  "subject_key s =
     (if s = [] then EMPTY_SUBJECT_KEY
      else join '','' (map (\<lambda>k. k @ ''='' @ the (dict_get s k)) (sort (dict_keys s))))"

text \<open>SHA-256 of \<open>hashlib\<close> is a parameter.\<close>

definition state_hash :: "(string \<Rightarrow> string) \<Rightarrow> (string, json) dict \<Rightarrow> string" where
  "state_hash sha256 new_state = sha256 (canonical_json (JObj new_state))"

text \<open>
  \<open>Decimal.quantize\<close> to two decimals; more than 28 digits raise \<open>InvalidOperation\<close> (\<open>None\<close>).
\<close>

definition format_amount :: "rat \<Rightarrow> string option" where
  "format_amount v =
     (let c = nat \<bar>round_half_up (v * 10 ^ AMOUNT_DECIMALS)\<bar>
      in if c < 10 ^ 28
         then Some ((if v < 0 then ''-'' else []) @ show_nat (c div 10 ^ AMOUNT_DECIMALS) @ ''.'' @
                    field AMOUNT_DECIMALS (int (c mod 10 ^ AMOUNT_DECIMALS)))
         else None)"

definition billing_month_of :: "datetime \<Rightarrow> string" where
  "billing_month_of moment = strftime_Ym moment"

definition quota_subject :: "string \<Rightarrow> string \<Rightarrow> subject" where
  "quota_subject billing_month model_task_type =
     [(SubjectKey_value SK_BILLING_MONTH, billing_month),
      (SubjectKey_value SK_MODEL_TASK_TYPE, lower model_task_type)]"

definition iso_or_none :: "datetime option \<Rightarrow> string" where
  "iso_or_none moment = (case moment of Some t \<Rightarrow> isoformat t | None \<Rightarrow> ''none'')"

definition budget_subject :: "rat \<Rightarrow> datetime option \<Rightarrow> datetime option \<Rightarrow> subject option" where
  "budget_subject allocated_budget effective_from effective_to =
     (case format_amount allocated_budget of
        None \<Rightarrow> None
      | Some amount \<Rightarrow> Some
          [(SubjectKey_value SK_BUDGET_CEILING, amount),
           (SubjectKey_value SK_BUDGET_WINDOW, iso_or_none effective_from @ ''_'' @ iso_or_none effective_to)])"

definition monitoring_subject :: "string \<Rightarrow> subject" where
  "monitoring_subject service_id = [(SubjectKey_value SK_SERVICE_ID, service_id)]"

definition quota_limit_subject :: "string \<Rightarrow> subject" where
  "quota_limit_subject model_task_type = [(SubjectKey_value SK_MODEL_TASK_TYPE, lower model_task_type)]"

section \<open>Redis and Kafka keys\<close>

definition subscription_key :: "string \<Rightarrow> string" where
  "subscription_key tenant_id = SUBSCRIPTION_KEY_PREFIX @ tenant_id"

definition kafka_message_key :: "NotificationName \<Rightarrow> string \<Rightarrow> subject \<Rightarrow> string" where
  "kafka_message_key name tenant_id s = NotificationName_value name @ '':'' @ tenant_id @ '':'' @ subject_key s"

definition ledger_key :: "NotificationName \<Rightarrow> string \<Rightarrow> subject \<Rightarrow> string" where
  "ledger_key name tenant_id s =
     LEDGER_KEY_PREFIX @ NotificationName_value name @ '':'' @ tenant_id @ '':'' @ subject_key s"

section \<open>Numbers and times\<close>

text \<open>A decimal as a JSON number: an integer when whole, else a double.\<close>

definition json_number :: "rat \<Rightarrow> json" where
  "json_number v = (if of_int \<lfloor>v\<rfloor> = v then JInt \<lfloor>v\<rfloor> else JFloat (fl v))"

text \<open>\<open>Decimal(str(value))\<close> of a JSON value; what is no decimal literal raises.\<close>

definition to_decimal :: "json \<Rightarrow> rat option" where
  "to_decimal v = (case v of
      JInt i \<Rightarrow> Some (of_int i) | JFloat x \<Rightarrow> Some (flt_repr x) | JStr s \<Rightarrow> decimal_of_str s | _ \<Rightarrow> None)"

text \<open>\<open>Decimal.normalize\<close> printed without an exponent: no trailing zeros.\<close>

definition plain_scale :: "rat \<Rightarrow> nat" where
  "plain_scale v = (case find (\<lambda>s. has_scale s v) [0..<60] of Some s \<Rightarrow> s | None \<Rightarrow> 60)"

definition display_number :: "rat \<Rightarrow> string" where
  "display_number value =
     (let v = dfix value; s = plain_scale v; c = nat \<lfloor>\<bar>v\<bar> * 10 ^ s\<rfloor>
      in (if v < 0 then ''-'' else []) @ show_nat (c div 10 ^ s) @
         (if s = 0 then [] else ''.'' @ field s (int (c mod 10 ^ s))))"

definition iso_z :: "datetime \<Rightarrow> string" where
  "iso_z moment = iso_ms moment @ ''Z''"

definition parse_iso :: "string \<Rightarrow> datetime option" where
  "parse_iso v = parse_ms v"

lemma parse_iso_z: "valid_moment t \<Longrightarrow> parse_iso (iso_z t) = Some (t - t mod 1000)"
  by (simp add: parse_iso_def iso_z_def parse_iso_ms)

lemma to_decimal_json_number: "flt_repr (fl v) = v \<Longrightarrow> to_decimal (json_number v) = Some v"
  by (simp add: to_decimal_def json_number_def)

lemma to_decimal_whole [simp]: "to_decimal (json_number (of_int i)) = Some (of_int i)"
  by (simp add: to_decimal_def json_number_def)

section \<open>Subjects the producers build are valid\<close>

lemma jget_subj_obj: "dict_get s k = Some v \<Longrightarrow> jget (map (\<lambda>(k, v). (k, JStr v)) s) k = JStr v"
  by (induction s) (auto simp: jget_def split: if_splits)

lemma chomp_id: "s \<noteq> [] \<Longrightarrow> last s \<noteq> CHR 0x0A \<Longrightarrow> chomp s = s"
  by (simp add: chomp_def)

lemma digit_not_newline: "is_digit c \<Longrightarrow> c \<noteq> CHR 0x0A"
  by (auto simp: is_digit_def)

lemma billing_month_re:
  assumes "1000 \<le> year_of t" "year_of t \<le> 9999"
  shows "BILLING_MONTH_RE (strftime_Ym t)" "strip (strftime_Ym t) \<noteq> []"
proof -
  obtain y where y: "strftime_Ym t = y @ ''-'' @ field 2 (month_num t)" "length y = 4" "list_all is_digit y"
    using strftime_Ym_shape [OF assms] by blast
  obtain a b where ab: "field 2 (month_num t) = [a, b]"
    "a = CHR ''0'' \<and> is_digit b \<and> b \<noteq> CHR ''0'' \<or> a = CHR ''1'' \<and> b \<in> {CHR ''0'', CHR ''1'', CHR ''2''}"
    using month_field by blast
  have s: "strftime_Ym t = y @ [CHR ''-'', a, b]" using y(1) ab(1) by simp
  have "is_digit b" using ab(2) by (auto simp: is_digit_def)
  then have "chomp (strftime_Ym t) = strftime_Ym t" by (intro chomp_id) (auto simp: s digit_not_newline)
  then show "BILLING_MONTH_RE (strftime_Ym t)"
    using y(2,3) ab(2) by (simp add: BILLING_MONTH_RE_def s nth_append)
  show "strip (strftime_Ym t) \<noteq> []"
    using \<open>is_digit b\<close> by (simp add: strip_Nil_iff s)
qed

lemma quota_subject_valid:
  assumes "1000 \<le> year_of t" "year_of t \<le> 9999" "strip task \<noteq> []" "n \<in> {QUOTA_THRESHOLD, QUOTA_EXHAUSTED}"
  shows "validate_subject (spec_of n) (subj_obj (quota_subject (strftime_Ym t) task)) =
         Inr (quota_subject (strftime_Ym t) task)"
proof -
  have keys: "sp_subject_keys (spec_of n) = [SK_BILLING_MONTH, SK_MODEL_TASK_TYPE]"
    using assms(4) by (auto simp: spec_of_def SPECS_def spec_defs)
  show ?thesis
    using billing_month_re [OF assms(1,2)] assms(3)
    by (auto simp: validate_subject_def keys subj_obj_def quota_subject_def check_value_def jget_def)
qed

lemma quota_limit_subject_valid:
  assumes "strip task \<noteq> []"
  shows "validate_subject (spec_of QUOTA_LIMIT_UPDATED) (subj_obj (quota_limit_subject task)) = Inr (quota_limit_subject task)"
  using assms by (simp add: validate_subject_def spec_of_def SPECS_def spec_defs subj_obj_def quota_limit_subject_def
      check_value_def jget_def)

lemma format_amount_re:
  assumes "0 \<le> v" "format_amount v = Some s"
  shows "AMOUNT_RE s" "strip s \<noteq> []"
proof -
  define c where "c = nat \<bar>round_half_up (v * 10 ^ AMOUNT_DECIMALS)\<bar>"
  define ds where "ds = show_nat (c div 100)"
  define fs where "fs = field 2 (int (c mod 100))"
  have s: "s = ds @ ''.'' @ fs"
    using assms by (simp add: format_amount_def Let_def c_def ds_def fs_def AMOUNT_DECIMALS_def split: if_splits)
  have fs: "length fs = 2" "list_all is_digit fs"
    by (simp_all add: fs_def length_field field_digits)
  have ds: "ds \<noteq> []" "list_all is_digit ds" by (simp_all add: ds_def)
  obtain a b where ab: "fs = [a, b]" "is_digit b"
    using fs by (cases fs; cases "tl fs") auto
  have "chomp s = s" using ab by (intro chomp_id) (auto simp: s digit_not_newline)
  then show "AMOUNT_RE s"
    using ds fs by (simp add: AMOUNT_RE_def AMOUNT_DECIMALS_def s nth_append Suc_le_eq)
  show "strip s \<noteq> []" using ab by (simp add: strip_Nil_iff s)
qed

lemma budget_subject_valid:
  assumes "0 \<le> v" "budget_subject v f e = Some s" "n \<in> {BUDGET_THRESHOLD, BUDGET_EXHAUSTED}"
  shows "validate_subject (spec_of n) (subj_obj s) = Inr s"
proof -
  obtain amount where am: "format_amount v = Some amount"
    and s: "s = [(SubjectKey_value SK_BUDGET_CEILING, amount),
           (SubjectKey_value SK_BUDGET_WINDOW, iso_or_none f @ ''_'' @ iso_or_none e)]"
    using assms(2) by (auto simp: budget_subject_def split: option.splits)
  have "\<not> is_space (CHR ''_'')" by (simp add: is_space_def)
  then have "strip (iso_or_none f @ ''_'' @ iso_or_none e) \<noteq> []" by (simp add: strip_Nil_iff)
  moreover have keys: "sp_subject_keys (spec_of n) = [SK_BUDGET_CEILING, SK_BUDGET_WINDOW]"
    using assms(3) by (auto simp: spec_of_def SPECS_def spec_defs)
  ultimately show ?thesis
    using format_amount_re [OF assms(1) am]
    by (auto simp: validate_subject_def keys subj_obj_def s check_value_def jget_def)
qed

section \<open>Keys of validated rows never collide\<close>

lemma append_sep_inj:
  assumes "c \<notin> set a" "c \<notin> set a'" "a @ c # b = a' @ c # b'"
  shows "a = a' \<and> b = b'"
  using assms
proof (induction a arbitrary: a')
  case Nil
  then show ?case by (cases a') auto
next
  case (Cons x a)
  then show ?case by (cases a') auto
qed

lemma name_no_colon: "CHR '':'' \<notin> set (NotificationName_value n)"
  by (cases n) simp_all

lemma check_values_keys: "check_values ks d = Inr s \<Longrightarrow> map fst s = map SubjectKey_value ks"
  by (induction ks arbitrary: s) (auto split: sum.splits)

lemma SubjectKey_value_inject [simp]: "SubjectKey_value a = SubjectKey_value b \<longleftrightarrow> a = b"
  by (cases a; cases b) simp_all

lemma check_values_value:
  "check_values ks d = Inr s \<Longrightarrow> (SubjectKey_value k, v) \<in> set s \<Longrightarrow>
   check_value k (jget d (SubjectKey_value k)) = Inr v"
  by (induction ks arbitrary: s) (auto split: sum.splits)

lemma set_chomp: "c \<in> set s \<Longrightarrow> c \<in> set (chomp s) \<or> c = CHR 0x0A"
proof (cases "s \<noteq> [] \<and> last s = CHR 0x0A")
  case True
  assume "c \<in> set s"
  moreover have "s = butlast s @ [last s]" using True by (metis append_butlast_last_id)
  ultimately have "c \<in> set (butlast s) \<or> c = last s" by (metis Un_iff empty_iff insert_iff list.set set_append)
  with True show ?thesis by (auto simp: chomp_def)
qed (auto simp: chomp_def)

lemma month_no_comma: "BILLING_MONTH_RE v \<Longrightarrow> CHR '','' \<notin> set v"
proof
  assume re: "BILLING_MONTH_RE v" and "CHR '','' \<in> set v"
  then have c: "CHR '','' \<in> set (chomp v)" using set_chomp by fastforce
  obtain i where i: "i < length (chomp v)" "chomp v ! i = CHR '',''" using c by (auto simp: in_set_conv_nth)
  have len: "length (chomp v) = 7" using re by (simp add: BILLING_MONTH_RE_def Let_def)
  have "list_all is_digit (take 4 (chomp v))" using re by (simp add: BILLING_MONTH_RE_def Let_def)
  then have dig: "is_digit (chomp v ! j)" if "j < 4" for j using that len by (simp add: list_all_length)
  have nd: "\<not> is_digit (CHR '','')" by (simp add: is_digit_def)
  consider "i < 4" | "i = 4" | "i = 5" | "i = 6" using i(1) len by linarith
  then show False
    using i(2) dig [of i] nd re by cases (auto simp: BILLING_MONTH_RE_def Let_def)
qed

lemma amount_no_comma: "AMOUNT_RE v \<Longrightarrow> CHR '','' \<notin> set v"
proof
  assume re: "AMOUNT_RE v" and "CHR '','' \<in> set v"
  then have c: "CHR '','' \<in> set (chomp v)" using set_chomp by fastforce
  define n where "n = length (chomp v)"
  have r: "4 \<le> n" "list_all is_digit (take (n - 3) (chomp v))" "chomp v ! (n - 3) = CHR ''.''"
      "list_all is_digit (drop (n - 2) (chomp v))"
    using re by (simp_all add: AMOUNT_RE_def Let_def n_def AMOUNT_DECIMALS_def)
  have "chomp v = take (n - 3) (chomp v) @ chomp v ! (n - 3) # drop (Suc (n - 3)) (chomp v)"
    using r(1) by (intro id_take_nth_drop) (simp add: n_def)
  moreover have "Suc (n - 3) = n - 2" using r(1) by simp
  ultimately have "set (chomp v) = set (take (n - 3) (chomp v)) \<union> {CHR ''.''} \<union> set (drop (n - 2) (chomp v))"
    using r(3) by (metis Un_insert_right list.simps(15) set_append sup_bot.right_neutral Un_insert_left)
  with c r(2,4) show False by (auto simp: list_all_iff is_digit_def)
qed

text \<open>What a validated subject looks like, type by type.\<close>

lemma validated_shape:
  assumes "validate_subject (spec_of n) j = Inr s"
  shows "map fst s = map SubjectKey_value (sp_subject_keys (spec_of n))"
    and "(''billing_month'', v) \<in> set s \<Longrightarrow> CHR '','' \<notin> set v"
    and "(''budget_ceiling'', v) \<in> set s \<Longrightarrow> CHR '','' \<notin> set v"
proof -
  obtain d where d: "check_values (sp_subject_keys (spec_of n)) d = Inr s"
    using assms by (auto simp: validate_subject_def Let_def split: json.splits if_splits)
  then show "map fst s = map SubjectKey_value (sp_subject_keys (spec_of n))" by (rule check_values_keys)
  show "CHR '','' \<notin> set v" if "(''billing_month'', v) \<in> set s"
    using check_values_value [OF d, of SK_BILLING_MONTH v] that
    by (auto simp: check_value_def month_no_comma split: json.splits if_splits)
  show "CHR '','' \<notin> set v" if "(''budget_ceiling'', v) \<in> set s"
    using check_values_value [OF d, of SK_BUDGET_CEILING v] that
    by (auto simp: check_value_def amount_no_comma split: json.splits if_splits)
qed

lemma sorted_subject_keys:
  "sort [''billing_month'', ''model_task_type''] = [''billing_month'', ''model_task_type'']"
  "sort [''budget_ceiling'', ''budget_window''] = [''budget_ceiling'', ''budget_window'']"
  by code_simp+

lemma subject_key_pair:
  "subject_key [(''billing_month'', a), (''model_task_type'', b)] =
     ''billing_month='' @ a @ CHR '','' # ''model_task_type='' @ b"
  "subject_key [(''budget_ceiling'', a), (''budget_window'', b)] =
     ''budget_ceiling='' @ a @ CHR '','' # ''budget_window='' @ b"
  by (simp_all add: subject_key_def sorted_subject_keys)

lemma subject_key_inj:
  assumes s: "validate_subject (spec_of n) j = Inr s" and s': "validate_subject (spec_of n) j' = Inr s'"
    and eq: "subject_key s = subject_key s'"
  shows "s = s'"
proof -
  have k: "map fst s = map SubjectKey_value (sp_subject_keys (spec_of n))"
    and k': "map fst s' = map SubjectKey_value (sp_subject_keys (spec_of n))"
    using validated_shape(1) s s' by blast+
  have "sp_subject_keys (spec_of n) = [] \<or> sp_subject_keys (spec_of n) = [SK_MODEL_TASK_TYPE] \<or>
      sp_subject_keys (spec_of n) = [SK_BILLING_MONTH, SK_MODEL_TASK_TYPE] \<or>
      sp_subject_keys (spec_of n) = [SK_BUDGET_CEILING, SK_BUDGET_WINDOW] \<or>
      sp_subject_keys (spec_of n) = [SK_SERVICE_ID]"
    using subject_keys_cases [of n] by (simp only: insert_iff empty_iff simp_thms)
  then consider "sp_subject_keys (spec_of n) = []" | "sp_subject_keys (spec_of n) = [SK_MODEL_TASK_TYPE]"
    | "sp_subject_keys (spec_of n) = [SK_BILLING_MONTH, SK_MODEL_TASK_TYPE]"
    | "sp_subject_keys (spec_of n) = [SK_BUDGET_CEILING, SK_BUDGET_WINDOW]"
    | "sp_subject_keys (spec_of n) = [SK_SERVICE_ID]" by argo
  then show ?thesis
  proof cases
    case 1
    with k k' show ?thesis by simp
  next
    case 2
    with k k' obtain v v' where "s = [(''model_task_type'', v)]" "s' = [(''model_task_type'', v')]"
      by (auto simp: map_eq_Cons_conv)
    with eq show ?thesis by (simp add: subject_key_def)
  next
    case 3
    with k k' obtain a b a' b' where ab: "s = [(''billing_month'', a), (''model_task_type'', b)]"
      "s' = [(''billing_month'', a'), (''model_task_type'', b')]" by (auto simp: map_eq_Cons_conv)
    have e: "a @ CHR '','' # ''model_task_type='' @ b = a' @ CHR '','' # ''model_task_type='' @ b'"
      using eq by (simp only: ab subject_key_pair append_assoc append_same_eq same_append_eq)
    have "CHR '','' \<notin> set a" "CHR '','' \<notin> set a'"
      using validated_shape(2) [OF s, of a] validated_shape(2) [OF s', of a'] by (simp_all add: ab)
    from append_sep_inj [OF this e] show ?thesis by (simp add: ab)
  next
    case 4
    with k k' obtain a b a' b' where ab: "s = [(''budget_ceiling'', a), (''budget_window'', b)]"
      "s' = [(''budget_ceiling'', a'), (''budget_window'', b')]" by (auto simp: map_eq_Cons_conv)
    have e: "a @ CHR '','' # ''budget_window='' @ b = a' @ CHR '','' # ''budget_window='' @ b'"
      using eq by (simp only: ab subject_key_pair append_assoc append_same_eq same_append_eq)
    have "CHR '','' \<notin> set a" "CHR '','' \<notin> set a'"
      using validated_shape(3) [OF s, of a] validated_shape(3) [OF s', of a'] by (simp_all add: ab)
    from append_sep_inj [OF this e] show ?thesis by (simp add: ab)
  next
    case 5
    with k k' obtain v v' where "s = [(''service_id'', v)]" "s' = [(''service_id'', v')]"
      by (auto simp: map_eq_Cons_conv)
    with eq show ?thesis by (simp add: subject_key_def)
  qed
qed

lemma ledger_key_inj:
  assumes "validate_subject (spec_of n) j = Inr s" "validate_subject (spec_of n') j' = Inr s'"
    and "CHR '':'' \<notin> set t" "CHR '':'' \<notin> set t'"
    and "ledger_key n t s = ledger_key n' t' s'"
  shows "n = n' \<and> t = t' \<and> s = s'"
proof -
  have "NotificationName_value n @ CHR '':'' # (t @ CHR '':'' # subject_key s) =
        NotificationName_value n' @ CHR '':'' # (t' @ CHR '':'' # subject_key s')"
    using assms(5) by (simp add: ledger_key_def)
  then have n: "n = n'" and r: "t @ CHR '':'' # subject_key s = t' @ CHR '':'' # subject_key s'"
    using append_sep_inj [OF name_no_colon name_no_colon] by auto
  from append_sep_inj [OF assms(3,4) r] have "t = t'" "subject_key s = subject_key s'" by auto
  with n subject_key_inj assms(1,2) show ?thesis by blast
qed

end
