(* ===== verification/Notif_Models.thy ===== *)
theory Notif_Models
  imports Notif_Keys
begin

text \<open>
  The value objects of the notification pipeline and their JSON forms
  (\<open>libs/ai4i_core/ai4i_core/kafka/models.py\<close>).  Reading a form back is a partial function: \<open>None\<close>
  stands for the \<open>KeyError\<close>, \<open>ValueError\<close> or \<open>TypeError\<close> the reader raises, which the cache treats
  as a miss.  (A channel list that is not a list of strings, which no writer produces, is read as \<open>None\<close> too.)
  Main facts: every form reads back as the value that wrote it (the ledger state up to
  the milliseconds of its timestamp).
\<close>

section \<open>Values\<close>

record Band =
  bd_value :: rat
  bd_unit :: ThresholdUnit
  bd_severity :: Severity

record Measurement =
  ms_value :: rat
  ms_unit :: ThresholdUnit

record SettingsRow =
  sr_id :: int
  sr_name :: NotificationName
  sr_type :: NotificationType
  sr_module :: NotificationModule
  sr_scope :: NotificationScope
  sr_channels :: "string list"
  sr_recipient_roles :: "(string, bool) dict"
  sr_bands :: "Band list"

record SettingsSnapshot =
  sn_built_at :: string
  sn_rows :: "(string, SettingsRow) dict"

record SubscriptionEntry =
  se_subscribed :: bool
  se_recipients :: "string list"

record TenantSubscriptions =
  ts_tenant_id :: string
  ts_built_at :: string
  ts_rows :: "(string, SubscriptionEntry) dict"

record LedgerState =
  ls_exists :: bool
  ls_current_band :: "rat option"
  ls_triggered :: bool
  ls_triggered_at :: "datetime option"

record LedgerRef =
  lr_name :: NotificationName
  lr_tenant_id :: string
  lr_subject :: subject

record Recipient =
  rc_email :: string
  rc_name :: string

definition NO_SUBSCRIPTION :: SubscriptionEntry where
  "NO_SUBSCRIPTION = \<lparr>se_subscribed = False, se_recipients = []\<rparr>"

definition NO_LEDGER_ROW :: LedgerState where
  "NO_LEDGER_ROW = \<lparr>ls_exists = False, ls_current_band = None, ls_triggered = False, ls_triggered_at = None\<rparr>"

section \<open>Queries\<close>

definition role_enabled :: "SettingsRow \<Rightarrow> RecipientRole \<Rightarrow> bool" where
  "role_enabled row role = (dict_get (sr_recipient_roles row) (RecipientRole_value role) = Some True)"

definition any_role_enabled :: "SettingsRow \<Rightarrow> bool" where
  "any_role_enabled row = list_ex snd (sr_recipient_roles row)"

definition enabled_roles :: "SettingsRow \<Rightarrow> string list" where
  "enabled_roles row = sort (map fst (filter snd (sr_recipient_roles row)))"

definition snapshot_get :: "SettingsSnapshot \<Rightarrow> NotificationName \<Rightarrow> SettingsRow option" where
  "snapshot_get snapshot name = dict_get (sn_rows snapshot) (NotificationName_value name)"

definition subscription_entry :: "TenantSubscriptions \<Rightarrow> NotificationName \<Rightarrow> SubscriptionEntry" where
  "subscription_entry subs name =
     (case dict_get (ts_rows subs) (NotificationName_value name) of Some e \<Rightarrow> e | None \<Rightarrow> NO_SUBSCRIPTION)"

definition LedgerRef_of :: "NotificationName \<Rightarrow> string \<Rightarrow> subject \<Rightarrow> LedgerRef" where
  "LedgerRef_of name tenant_id subj = \<lparr>lr_name = name, lr_tenant_id = tenant_id, lr_subject = sort_key fst subj\<rparr>"

definition lr_key :: "LedgerRef \<Rightarrow> string" where
  "lr_key ref = ledger_key (lr_name ref) (lr_tenant_id ref) (lr_subject ref)"

definition lr_subject_json :: "LedgerRef \<Rightarrow> string" where
  "lr_subject_json ref = subject_json (lr_subject ref)"

section \<open>JSON forms\<close>

definition jobj :: "json \<Rightarrow> (string, json) dict option" where
  "jobj v = (case v of JObj d \<Rightarrow> Some d | _ \<Rightarrow> None)"

definition jstr :: "json \<Rightarrow> string option" where
  "jstr v = (case v of JStr s \<Rightarrow> Some s | _ \<Rightarrow> None)"

text \<open>\<open>data.get(key) or ()\<close> of a list and \<open>data.get(key) or {}\<close> of an object\<close>

definition jlist :: "json \<Rightarrow> json list option" where
  "jlist v = (if truthy v then (case v of JArr xs \<Rightarrow> Some xs | _ \<Rightarrow> None) else Some [])"

definition jdict :: "json \<Rightarrow> (string, json) dict option" where
  "jdict v = (if truthy v then jobj v else Some [])"

text \<open>\<open>data[key]\<close>\<close>

definition jfield :: "(string, json) dict \<Rightarrow> string \<Rightarrow> (json \<Rightarrow> 'a option) \<Rightarrow> 'a option" where
  "jfield d k f = (case map_of d k of None \<Rightarrow> None | Some v \<Rightarrow> f v)"

definition Band_to_json :: "Band \<Rightarrow> json" where
  "Band_to_json b = JObj
     [(''value'', json_number (bd_value b)), (''unit'', JStr (ThresholdUnit_value (bd_unit b))),
      (''severity'', JStr (Severity_value (bd_severity b)))]"

definition Band_from_json :: "json \<Rightarrow> Band option" where
  "Band_from_json v =
     (case jobj v of None \<Rightarrow> None | Some d \<Rightarrow>
      (case (jfield d ''value'' to_decimal,
             jfield d ''unit'' (\<lambda>u. Option.bind (jstr u) ThresholdUnit_of),
             jfield d ''severity'' (\<lambda>s. Option.bind (jstr s) Severity_of)) of
         (Some x, Some u, Some s) \<Rightarrow> Some \<lparr>bd_value = x, bd_unit = u, bd_severity = s\<rparr>
       | _ \<Rightarrow> None))"

definition Band_value_unit :: "Band \<Rightarrow> json" where
  "Band_value_unit b = JObj [(''value'', json_number (bd_value b)), (''unit'', JStr (ThresholdUnit_value (bd_unit b)))]"

definition Measurement_to_json :: "Measurement \<Rightarrow> json" where
  "Measurement_to_json m = JObj [(''value'', json_number (ms_value m)), (''unit'', JStr (ThresholdUnit_value (ms_unit m)))]"

definition SettingsRow_to_json :: "SettingsRow \<Rightarrow> json" where
  "SettingsRow_to_json row = JObj
     [(''id'', JInt (sr_id row)),
      (''type'', JStr (NotificationType_value (sr_type row))),
      (''module'', JStr (NotificationModule_value (sr_module row))),
      (''scope'', JStr (NotificationScope_value (sr_scope row))),
      (''channels'', JArr (map JStr (sr_channels row))),
      (''recipient_roles'', JObj (map (\<lambda>(k, on). (k, JBool on)) (sr_recipient_roles row))),
      (''bands'', JArr (map Band_to_json (sr_bands row)))]"

definition SettingsRow_from_json :: "string \<Rightarrow> json \<Rightarrow> SettingsRow option" where
  "SettingsRow_from_json name v =
     (case jobj v of None \<Rightarrow> None | Some d \<Rightarrow>
      (case (jfield d ''id'' py_int, NotificationName_of name,
             jfield d ''type'' (\<lambda>t. Option.bind (jstr t) NotificationType_of),
             jfield d ''module'' (\<lambda>t. Option.bind (jstr t) NotificationModule_of),
             jfield d ''scope'' (\<lambda>t. Option.bind (jstr t) NotificationScope_of),
             Option.bind (jlist (jget d ''channels'')) (map_opt jstr),
             jdict (jget d ''recipient_roles''),
             Option.bind (jlist (jget d ''bands'')) (map_opt Band_from_json)) of
         (Some i, Some n, Some t, Some m, Some sc, Some ch, Some roles, Some bands) \<Rightarrow>
           Some \<lparr>sr_id = i, sr_name = n, sr_type = t, sr_module = m, sr_scope = sc, sr_channels = ch,
                 sr_recipient_roles = map (\<lambda>(k, on). (k, truthy on)) roles,
                 sr_bands = sort_key bd_value bands\<rparr>
       | _ \<Rightarrow> None))"

definition SettingsSnapshot_to_json :: "SettingsSnapshot \<Rightarrow> json" where
  "SettingsSnapshot_to_json sn = JObj
     [(''schema_version'', JInt SETTINGS_SNAPSHOT_SCHEMA_VERSION),
      (''built_at'', JStr (sn_built_at sn)),
      (''rows'', JObj (map (\<lambda>(name, row). (name, SettingsRow_to_json row)) (sn_rows sn)))]"

definition SettingsSnapshot_from_json :: "json \<Rightarrow> SettingsSnapshot option" where
  "SettingsSnapshot_from_json v =
     (case jobj v of None \<Rightarrow> None | Some d \<Rightarrow>
      (if \<not> py_eq_int (jget d ''schema_version'') SETTINGS_SNAPSHOT_SCHEMA_VERSION then None
       else case (map_of d ''built_at'', jdict (jget d ''rows'')) of
         (Some b, Some rows) \<Rightarrow>
           map_option (\<lambda>rs. \<lparr>sn_built_at = py_str b, sn_rows = rs\<rparr>)
             (map_opt (\<lambda>(name, r). map_option (Pair name) (SettingsRow_from_json name r)) rows)
       | _ \<Rightarrow> None))"

definition TenantSubscriptions_to_json :: "TenantSubscriptions \<Rightarrow> json" where
  "TenantSubscriptions_to_json subs = JObj
     [(''tenant_id'', JStr (ts_tenant_id subs)),
      (''built_at'', JStr (ts_built_at subs)),
      (''rows'', JObj (map (\<lambda>(name, e). (name, JObj
          [(''subscribed'', JBool (se_subscribed e)), (''recipients'', JArr (map JStr (se_recipients e)))])) (ts_rows subs)))]"

definition SubscriptionEntry_from_json :: "json \<Rightarrow> SubscriptionEntry option" where
  "SubscriptionEntry_from_json v =
     (case jobj v of None \<Rightarrow> None | Some d \<Rightarrow>
      map_option (\<lambda>rs. \<lparr>se_subscribed = truthy (jget d ''subscribed''), se_recipients = map py_str rs\<rparr>)
        (jlist (jget d ''recipients'')))"

definition TenantSubscriptions_from_json :: "json \<Rightarrow> TenantSubscriptions option" where
  "TenantSubscriptions_from_json v =
     (case jobj v of None \<Rightarrow> None | Some d \<Rightarrow>
      (case (map_of d ''tenant_id'', map_of d ''built_at'', jdict (jget d ''rows'')) of
         (Some t, Some b, Some rows) \<Rightarrow>
           map_option (\<lambda>rs. \<lparr>ts_tenant_id = py_str t, ts_built_at = py_str b, ts_rows = rs\<rparr>)
             (map_opt (\<lambda>(name, e). map_option (Pair name) (SubscriptionEntry_from_json e)) rows)
       | _ \<Rightarrow> None))"

definition LedgerState_to_json :: "LedgerState \<Rightarrow> json" where
  "LedgerState_to_json s = JObj
     [(''exists'', JBool (ls_exists s)),
      (''current_band'', (case ls_current_band s of Some b \<Rightarrow> json_number b | None \<Rightarrow> JNull)),
      (''triggered'', JBool (ls_triggered s)),
      (''triggered_at'', (case ls_triggered_at s of Some t \<Rightarrow> JStr (iso_z t) | None \<Rightarrow> JNull))]"

definition LedgerState_from_json :: "json \<Rightarrow> LedgerState option" where
  "LedgerState_from_json v =
     (case jobj v of None \<Rightarrow> None | Some d \<Rightarrow>
      (let band = jget d ''current_band''; moment = jget d ''triggered_at'';
           b = (if band = JNull then Some None else map_option Some (to_decimal band));
           t = (if truthy moment then map_option Some (parse_iso (py_str moment)) else Some None)
       in case (b, t) of
            (Some b', Some t') \<Rightarrow>
              Some \<lparr>ls_exists = truthy (jget d ''exists''), ls_current_band = b',
                    ls_triggered = truthy (jget d ''triggered''), ls_triggered_at = t'\<rparr>
          | _ \<Rightarrow> None))"

definition Recipient_to_json :: "Recipient \<Rightarrow> json" where
  "Recipient_to_json r = JObj [(''email'', JStr (rc_email r)), (''name'', JStr (rc_name r))]"

section \<open>Round trips\<close>

text \<open>
  A \<open>Decimal\<close> survives the JSON form when the double nearest to it prints as it: every threshold
  the catalogue can store (\<open>Numeric(12,4)\<close>) does.
\<close>

definition json_exact :: "rat \<Rightarrow> bool" where
  "json_exact v \<longleftrightarrow> flt_repr (fl v) = v"

definition row_exact :: "SettingsRow \<Rightarrow> bool" where
  "row_exact row \<longleftrightarrow> list_all (\<lambda>b. json_exact (bd_value b)) (sr_bands row) \<and> sorted (map bd_value (sr_bands row))"

lemmas json_form_defs = jobj_def jstr_def jlist_def jdict_def jfield_def jget_def

lemma Band_round_trip: "json_exact (bd_value b) \<Longrightarrow> Band_from_json (Band_to_json b) = Some b"
  by (simp add: Band_from_json_def Band_to_json_def json_form_defs json_exact_def to_decimal_json_number
      nunit.enum_of_val nsev.enum_of_val)

lemma map_opt_Band: "list_all (\<lambda>b. json_exact (bd_value b)) bs \<Longrightarrow> map_opt (\<lambda>b. Band_from_json (Band_to_json b)) bs = Some bs"
  using map_opt_Some [of bs "\<lambda>b. Band_from_json (Band_to_json b)" "\<lambda>b. b"]
  by (simp add: list_all_iff Band_round_trip)

lemma SettingsRow_round_trip:
  assumes "row_exact row"
  shows "SettingsRow_from_json (NotificationName_value (sr_name row)) (SettingsRow_to_json row) = Some row"
proof -
  have bands: "map_opt (\<lambda>b. Band_from_json (Band_to_json b)) (sr_bands row) = Some (sr_bands row)"
    using assms by (intro map_opt_Band) (simp add: row_exact_def)
  have sorted: "sort_key bd_value (sr_bands row) = sr_bands row"
    using assms by (simp add: row_exact_def sort_key_id_if_sorted)
  have channels: "map_opt (\<lambda>s. jstr (JStr s)) (sr_channels row) = Some (sr_channels row)"
    using map_opt_Some [of "sr_channels row" "\<lambda>s. jstr (JStr s)" "\<lambda>s. s"] by (simp add: jstr_def)
  have roles: "map ((\<lambda>(k, on). (k, truthy on)) \<circ> (\<lambda>(k, on). (k, JBool on))) rs = rs" for rs :: "(string \<times> bool) list"
    by (induction rs) auto
  show ?thesis
    using bands channels sorted
    by (auto simp: SettingsRow_from_json_def SettingsRow_to_json_def json_form_defs py_int_def roles
        nname.enum_of_val ntype.enum_of_val nmodule.enum_of_val nscope.enum_of_val)
qed

definition snapshot_exact :: "SettingsSnapshot \<Rightarrow> bool" where
  "snapshot_exact sn \<longleftrightarrow>
     list_all (\<lambda>(k, row). k = NotificationName_value (sr_name row) \<and> row_exact row) (sn_rows sn)"

lemma map_opt_rows:
  "(\<And>k v. (k, v) \<in> set d \<Longrightarrow> g k (f v) = Some v) \<Longrightarrow>
     map_opt (\<lambda>(k, w). map_option (Pair k) (g k w)) (map (\<lambda>(k, v). (k, f v)) d) = Some d"
  by (induction d) auto

lemma SettingsSnapshot_round_trip:
  assumes "snapshot_exact sn"
  shows "SettingsSnapshot_from_json (SettingsSnapshot_to_json sn) = Some sn"
proof -
  have "map_opt (\<lambda>(k, w). map_option (Pair k) (SettingsRow_from_json k w))
      (map (\<lambda>(k, v). (k, SettingsRow_to_json v)) (sn_rows sn)) = Some (sn_rows sn)"
    using assms by (intro map_opt_rows) (auto simp: snapshot_exact_def list_all_iff SettingsRow_round_trip)
  then show ?thesis
    by (cases "sn_rows sn") (auto simp: SettingsSnapshot_from_json_def SettingsSnapshot_to_json_def json_form_defs py_str_def py_eq_int_def simp del: map_opt_map)
qed

lemma SubscriptionEntry_round_trip:
  "SubscriptionEntry_from_json (JObj
     [(''subscribed'', JBool (se_subscribed e)), (''recipients'', JArr (map JStr (se_recipients e)))]) = Some e"
  by (simp add: SubscriptionEntry_from_json_def json_form_defs py_str_def comp_def)

lemma TenantSubscriptions_round_trip:
  "TenantSubscriptions_from_json (TenantSubscriptions_to_json subs) = Some subs"
proof -
  let ?f = "\<lambda>e. JObj [(''subscribed'', JBool (se_subscribed e)), (''recipients'', JArr (map JStr (se_recipients e)))]"
  have "map_opt (\<lambda>(k, w). map_option (Pair k) (SubscriptionEntry_from_json w))
      (map (\<lambda>(k, v). (k, ?f v)) (ts_rows subs)) = Some (ts_rows subs)"
    by (intro map_opt_rows) (rule SubscriptionEntry_round_trip)
  then show ?thesis
    by (cases "ts_rows subs") (auto simp: TenantSubscriptions_from_json_def TenantSubscriptions_to_json_def json_form_defs py_str_def simp del: map_opt_map)
qed

text \<open>The ledger state loses what its timestamp has below a millisecond.\<close>

definition state_exact :: "LedgerState \<Rightarrow> bool" where
  "state_exact s \<longleftrightarrow> pred_option json_exact (ls_current_band s) \<and> pred_option valid_moment (ls_triggered_at s)"

lemma LedgerState_round_trip:
  assumes "state_exact s"
  shows "LedgerState_from_json (LedgerState_to_json s) =
    Some (s\<lparr>ls_triggered_at := map_option (\<lambda>t. t - t mod 1000) (ls_triggered_at s)\<rparr>)"
proof (cases s)
  case (fields ex band trig at)
  have number: "json_number b \<noteq> JNull" for b by (simp add: json_number_def)
  have stamp: "iso_z t \<noteq> []" for t by (simp add: iso_z_def)
  show ?thesis
    using assms number stamp
    by (auto simp: fields state_exact_def LedgerState_from_json_def LedgerState_to_json_def json_form_defs Let_def py_str_def
        json_exact_def to_decimal_json_number parse_iso_z split: option.split)
qed

lemma LedgerRef_key:
  assumes "distinct (map fst s)"
  shows "lr_key (LedgerRef_of n t s) = ledger_key n t s"
proof -
  have m: "mset (map fst (sort_key fst s)) = mset (map fst s)" by (simp only: mset_map mset_sort)
  have d: "distinct (map fst (sort_key fst s))"
    using assms mset_eq_imp_distinct_iff [OF m] by blast
  have "map_of (sort_key fst s) = map_of s"
    using assms d by (simp add: map_of_inject_set)
  moreover have "sort (map fst (sort_key fst s)) = sort (map fst s)"
    by (rule properties_for_sort) (simp_all only: m mset_sort sorted_sort)
  moreover have "sort_key fst s = [] \<longleftrightarrow> s = []"
    using length_sort [of fst s] by (cases s; cases "sort_key fst s") auto
  ultimately show ?thesis by (simp add: lr_key_def LedgerRef_of_def ledger_key_def subject_key_def)
qed

end
