(* ===== verification/Store.thy ===== *)
theory Store
  imports Py_Json
begin

text \<open>
  What the program uses of its stores: the errors a PostgreSQL statement raises, the limits of
  integer and uuid columns, the text of a \<open>Decimal\<close>, and Redis keys that expire.
\<close>

section \<open>PostgreSQL\<close>

datatype db_error = DB_Unavailable | DB_NumericOverflow | DB_ValueTooLong | DB_CheckViolation
  | DB_CardinalityViolation | DB_UniqueViolation | DB_OutOfRange | DB_BadUuid | DB_ForeignKey | DB_NoPartition

definition int4 :: "int \<Rightarrow> bool" where
  "int4 i \<longleftrightarrow> - (2 ^ 31) \<le> i \<and> i < 2 ^ 31"

definition int2 :: "int \<Rightarrow> bool" where
  "int2 i \<longleftrightarrow> - (2 ^ 15) \<le> i \<and> i < 2 ^ 15"

definition is_hex :: "char \<Rightarrow> bool" where
  "is_hex c \<longleftrightarrow> is_digit c \<or> lower_char c \<in> set ''abcdef''"

text \<open>
  \<open>CAST(text AS uuid)\<close>: 32 hexadecimal digits, with a hyphen allowed after any group of four and
  braces around them; the value prints as 8-4-4-4-12 lower-case digits.
\<close>

fun uuid_digits :: "nat \<Rightarrow> bool \<Rightarrow> string \<Rightarrow> string option" where
  "uuid_digits n hyphen [] = (if n = 32 \<and> \<not> hyphen then Some [] else None)"
| "uuid_digits n hyphen (c # cs) =
     (if is_hex c then map_option (Cons (lower_char c)) (uuid_digits (Suc n) False cs)
      else if c = CHR ''-'' \<and> \<not> hyphen \<and> 0 < n \<and> n < 32 \<and> n mod 4 = 0 then uuid_digits n True cs
      else None)"

definition uuid_of :: "string \<Rightarrow> string option" where
  "uuid_of s =
     (let body = (if s \<noteq> [] \<and> hd s = CHR ''{'' \<and> last s = CHR ''}'' then butlast (tl s) else s)
      in map_option (\<lambda>d. take 8 d @ ''-'' @ take 4 (drop 8 d) @ ''-'' @ take 4 (drop 12 d) @ ''-'' @
                         take 4 (drop 16 d) @ ''-'' @ drop 20 d) (uuid_digits 0 False body))"

section \<open>\<open>str\<close> of a \<open>Decimal\<close>\<close>

text \<open>A value of a numeric column with a scale; small numbers print with an exponent.\<close>

definition decimal_str :: "nat \<Rightarrow> rat \<Rightarrow> string" where
  "decimal_str s v =
     (let c = nat \<bar>\<lfloor>v * 10 ^ s\<rfloor>\<bar>; ds = show_nat c; adj = int (length ds) - 1 - int s;
          sign = (if v < 0 then ''-'' else [])
      in sign @
         (if -6 \<le> adj
          then show_nat (c div 10 ^ s) @ (if s = 0 then [] else ''.'' @ pad_zero s (show_nat (c mod 10 ^ s)))
          else take 1 ds @ (if length ds = 1 then [] else ''.'' @ drop 1 ds) @ ''E-'' @ show_nat (nat (- adj))))"

lemma decimal_str_code [code]:
  "decimal_str s v =
     (let c = \<bar>\<lfloor>v * 10 ^ s\<rfloor>\<bar>; ds = show_pos c; adj = int (length ds) - 1 - int s;
          sign = (if v < 0 then ''-'' else [])
      in sign @
         (if -6 \<le> adj
          then show_pos (c div 10 ^ s) @ (if s = 0 then [] else ''.'' @ pad_zero s (show_pos (c mod 10 ^ s)))
          else take 1 ds @ (if length ds = 1 then [] else ''.'' @ drop 1 ds) @ ''E-'' @ show_pos (- adj)))"
proof -
  define i where "i = \<bar>\<lfloor>v * 10 ^ s\<rfloor>\<bar>"
  have i: "0 \<le> i" by (simp add: i_def)
  have eqs: "show_pos i = show_nat (nat i)" "show_pos (i div 10 ^ s) = show_nat (nat i div 10 ^ s)"
    "show_pos (i mod 10 ^ s) = show_nat (nat i mod 10 ^ s)"
    using i by (simp_all add: show_pos_eq pos_imp_zdiv_nonneg_iff nat_div_distrib nat_mod_distrib nat_power_eq)
  show ?thesis
    unfolding decimal_str_def Let_def i_def [symmetric] eqs by (auto simp: show_pos_eq)
qed

text \<open>The text reads back as the number.\<close>

lemma strip_id: "s \<noteq> [] \<Longrightarrow> \<not> is_space (hd s) \<Longrightarrow> \<not> is_space (last s) \<Longrightarrow> strip s = s"
proof -
  assume a: "s \<noteq> []" "\<not> is_space (hd s)" "\<not> is_space (last s)"
  then have "dropWhile is_space s = s" by (cases s) auto
  moreover have "dropWhile is_space (rev s) = rev s" using a by (cases s rule: rev_cases) auto
  ultimately show "strip s = s" by (simp add: strip_def)
qed

lemma split_at_hit: "\<forall>c \<in> set a. \<not> p c \<Longrightarrow> p x \<Longrightarrow> split_at p (a @ x # b) = (a, Some b)"
  by (induction a) (auto simp: split_at_def split: list.splits)

lemma split_at_miss: "\<forall>c \<in> set a. \<not> p c \<Longrightarrow> split_at p a = (a, None)"
proof -
  assume "\<forall>c \<in> set a. \<not> p c"
  then have "dropWhile (\<lambda>c. \<not> p c) a = []" by simp
  then show "split_at p a = (a, None)" by (simp only: split_at_def list.case)
qed

lemma read_digits_append: "read_digits (a @ b) = read_digits a * 10 ^ length b + read_digits b"
  by (induction b rule: rev_induct) (simp_all add: append_assoc [symmetric] algebra_simps del: append_assoc)

lemma pad_zero_digits: "list_all is_digit s \<Longrightarrow> list_all is_digit (pad_zero w s)"
  by (auto simp: pad_zero_def list_all_iff is_digit_def)

lemma read_pad_zero [simp]: "read_digits (pad_zero w s) = read_digits s"
  by (simp add: pad_zero_def read_digits_zeros)

lemma length_pad_zero: "length s \<le> w \<Longrightarrow> length (pad_zero w s) = w"
  by (simp add: pad_zero_def)

lemma digits_plain:
  assumes "list_all is_digit s" "c \<in> set s"
  shows "c \<noteq> CHR ''e''" "c \<noteq> CHR ''E''" "c \<noteq> CHR ''.''" "c \<noteq> CHR ''-''" "c \<noteq> CHR ''+''" "\<not> is_space c"
  using assms by (auto simp: list_all_iff is_digit_def is_space_def)

text \<open>A literal of digits, optionally a point and digits, optionally a negative exponent.\<close>

lemma decimal_of_str_digits:
  assumes a: "list_all is_digit a" "a \<noteq> []" and b: "list_all is_digit b" and e: "list_all is_digit e"
  shows "decimal_of_str (a @ (if b = [] then [] else ''.'' @ b) @ (if e = [] then [] else ''E-'' @ e)) =
    Some (of_nat (read_digits (a @ b)) * 10 powi (- int (read_digits e) - int (length b)))"
proof -
  let ?m = "a @ (if b = [] then [] else ''.'' @ b)"
  let ?s = "?m @ (if e = [] then [] else ''E-'' @ e)"
  have digs: "is_digit x" if "x \<in> set a \<union> set b \<union> set e" for x
    using that a b e by (auto simp: list_all_iff)
  have hd: "is_digit (hd ?s)" using a by (cases a) (auto simp: list_all_iff)
  have last: "is_digit (last ?s)"
    using a b e digs last_in_set [of a] last_in_set [of b] last_in_set [of e] by (auto simp: last_append split: if_splits)
  have strip: "strip ?s = ?s" using hd last a(2) by (intro strip_id) auto
  have sign: "split_sign ?s = (False, ?s)"
    using hd a by (cases a) (auto simp: split_sign_def is_digit_def)
  have noe: "\<forall>c \<in> set ?m. \<not> (c = CHR ''e'' \<or> c = CHR ''E'')"
    using digits_plain(1,2) [OF a(1)] digits_plain(1,2) [OF b] by (auto split: if_splits)
  have ex: "split_at (\<lambda>c. c = CHR ''e'' \<or> c = CHR ''E'') ?s = (?m, if e = [] then None else Some (''-'' @ e))"
    using split_at_hit [OF noe, of "CHR ''E''" "''-'' @ e"] split_at_miss [OF noe] by auto
  have nodot: "\<forall>c \<in> set a. \<not> c = CHR ''.''" using digits_plain(3) [OF a(1)] by blast
  have pt: "split_at (\<lambda>c. c = CHR ''.'') ?m = (a, if b = [] then None else Some b)"
    using split_at_hit [OF nodot, of "CHR ''.''" b] split_at_miss [OF nodot] by auto
  have sc: "scan_digits False a = Some a" "b \<noteq> [] \<Longrightarrow> scan_digits False b = Some b" "e \<noteq> [] \<Longrightarrow> scan_digits False e = Some e"
    using a b e by (simp_all add: scan_digits_all)
  show ?thesis
    unfolding decimal_of_str_def append_assoc [symmetric] strip sign Let_def prod.case ex pt
    using a(2) sc by (auto simp: split_sign_def)
qed

lemma decimal_str_round_trip:
  assumes "0 \<le> v" "has_scale s v"
  shows "decimal_of_str (decimal_str s v) = Some v"
proof -
  define c where "c = nat \<bar>\<lfloor>v * 10 ^ s\<rfloor>\<bar>"
  have c: "of_nat c = v * 10 ^ s"
    using assms by (simp add: c_def has_scale_def)
  have v: "v = of_nat c * 10 powi (- int s)"
    by (simp add: c power_int_minus field_simps)
  define ds where "ds = show_nat c"
  have ds: "list_all is_digit ds" "ds \<noteq> []" "read_digits ds = c" by (simp_all add: ds_def)
  show ?thesis
  proof (cases "-6 \<le> int (length ds) - 1 - int s")
    case True
    define a where "a = show_nat (c div 10 ^ s)"
    define b where "b = (if s = 0 then [] else pad_zero s (show_nat (c mod 10 ^ s)))"
    have len: "length b = s"
      using length_show_nat [of s "c mod 10 ^ s"] by (simp add: b_def length_pad_zero)
    have digs: "list_all is_digit a" "a \<noteq> []" "list_all is_digit b"
      by (simp_all add: a_def b_def pad_zero_digits)
    have read: "read_digits (a @ b) = c"
      using len by (cases "s = 0") (simp_all add: read_digits_append a_def b_def div_mult_mod_eq)
    have str: "decimal_str s v = a @ (if b = [] then [] else ''.'' @ b)"
      unfolding decimal_str_def Let_def c_def [symmetric] ds_def [symmetric]
      using True assms(1) len by (auto simp: a_def b_def)
    have "decimal_of_str (decimal_str s v) = Some (of_nat c * 10 powi (- int s))"
      using decimal_of_str_digits [OF digs, of "[]"] unfolding str by (simp add: read len)
    then show ?thesis by (simp add: v)
  next
    case False
    define k where "k = nat (- (int (length ds) - 1 - int s))"
    define a where "a = take 1 ds"
    define b where "b = drop 1 ds"
    have ab: "a @ b = ds" by (simp add: a_def b_def)
    have digs: "list_all is_digit a" "a \<noteq> []" "list_all is_digit b"
      using ds by (auto simp: a_def b_def list_all_iff dest: in_set_takeD in_set_dropD)
    have len: "length b = length ds - 1" by (simp add: b_def)
    have b: "b = [] \<longleftrightarrow> length ds = 1" using ds(2) by (cases ds) (auto simp: b_def)
    have str: "decimal_str s v = a @ (if b = [] then [] else ''.'' @ b) @ (if show_nat k = [] then [] else ''E-'' @ show_nat k)"
      unfolding decimal_str_def Let_def c_def [symmetric] ds_def [symmetric]
      using False assms(1) b by (auto simp: a_def b_def k_def)
    have "- int k - int (length b) = - int s"
      using False ds(2) len by (cases ds) (auto simp: k_def)
    then have "decimal_of_str (decimal_str s v) = Some (of_nat c * 10 powi (- int s))"
      using decimal_of_str_digits [OF digs, of "show_nat k"] unfolding str ab ds(3) by simp
    then show ?thesis by (simp add: v)
  qed
qed

lemma decimal_str_not_Nil [simp]: "decimal_str s v \<noteq> []"
  using show_nat_neq_Nil by (auto simp: decimal_str_def Let_def)

section \<open>Redis\<close>

type_synonym expiry = "datetime option"

definition live :: "datetime \<Rightarrow> expiry \<Rightarrow> bool" where
  "live now e = (case e of None \<Rightarrow> True | Some t \<Rightarrow> now < t)"

text \<open>\<open>GET\<close>, \<open>EXISTS\<close> and \<open>HGETALL\<close> see a key only before it expires.\<close>

definition redis_get :: "datetime \<Rightarrow> (string, 'v \<times> expiry) dict \<Rightarrow> string \<Rightarrow> 'v option" where
  "redis_get now r k = (case dict_get r k of Some (v, e) \<Rightarrow> if live now e then Some v else None | None \<Rightarrow> None)"

definition redis_setex :: "datetime \<Rightarrow> string \<Rightarrow> 'v \<Rightarrow> int \<Rightarrow> (string, 'v \<times> expiry) dict \<Rightarrow> (string, 'v \<times> expiry) dict" where
  "redis_setex now k v ttl_s r = dict_set k (v, Some (now + ttl_s * 1000000)) r"

definition redis_del :: "string \<Rightarrow> (string, 'v \<times> expiry) dict \<Rightarrow> (string, 'v \<times> expiry) dict" where
  "redis_del k r = filter (\<lambda>(k', _). k' \<noteq> k) r"

lemma redis_get_setex:
  "redis_get t (redis_setex now k v ttl_s r) k' =
     (if k' = k then (if t < now + ttl_s * 1000000 then Some v else None) else redis_get t r k')"
  by (simp add: redis_get_def redis_setex_def live_def)

lemma redis_get_del [simp]: "redis_get t (redis_del k r) k' = (if k' = k then None else redis_get t r k')"
  by (induction r) (auto simp: redis_get_def redis_del_def)

end
