(* ===== verification/Ledger.thy ===== *)
theory Ledger
  imports Notif_Models Store
begin

text \<open>
  The band rule and the producers' ledger (\<open>kafka/bands.py\<close>, \<open>kafka/ledger.py\<close>).  The table
  \<open>ledger_notification_alert\<close> is an ordered dictionary under its unique key (notification, tenant,
  subject); every SQL statement of the module is a function on it, because PostgreSQL runs each of
  them atomically against the row it conflicts with.  Column types and constraints the statements
  meet are kept: \<open>Numeric(12,4)\<close>, \<open>String(255)\<close> and the check that a row holds a band or a hash and
  not both.  Any number of producers is a sequence of such statements; the interface a producer
  relies on is the locale \<open>band_gate\<close>, and the producers themselves are a step relation.
\<close>

section \<open>Bands\<close>

fun max_by_value :: "Band \<Rightarrow> Band list \<Rightarrow> Band" where
  "max_by_value best [] = best"
| "max_by_value best (b # bs) = max_by_value (if bd_value best < bd_value b then b else best) bs"

definition band_for :: "rat \<Rightarrow> Band list \<Rightarrow> Band option" where
  "band_for observed bands =
     (case filter (\<lambda>band. bd_value band \<le> observed) bands of
        [] \<Rightarrow> None
      | b # bs \<Rightarrow> Some (max_by_value b bs))"

section \<open>The table and its statements\<close>

record LedgerRow =
  lg_current_band :: "rat option"
  lg_state_hash :: "string option"
  lg_triggered :: bool
  lg_triggered_at :: datetime
  lg_last_event_id :: string
  lg_updated_at :: datetime

type_synonym lkey = "int \<times> string \<times> subject"
type_synonym ledger = "(lkey, LedgerRow) dict"

definition ledger_id :: "int \<Rightarrow> string \<Rightarrow> subject \<Rightarrow> lkey" where
  "ledger_id notification_id tenant_id subj = (notification_id, tenant_id, sort_key fst subj)"

definition ck_one_value :: "LedgerRow \<Rightarrow> bool" where
  "ck_one_value row \<longleftrightarrow> (lg_current_band row = None) \<noteq> (lg_state_hash row = None)"

text \<open>What a write returns: the row of \<open>RETURNING\<close>, if any, and the table.\<close>

type_synonym write_result = "(db_error, LedgerRow option \<times> ledger) res"

definition store :: "lkey \<Rightarrow> LedgerRow \<Rightarrow> ledger \<Rightarrow> write_result" where
  "store k row tbl =
     (if 255 < length (fst (snd k)) then Inl DB_ValueTooLong
      else if ck_one_value row then Inr (Some row, dict_set k row tbl)
      else Inl DB_CheckViolation)"

definition sql_claim_band :: "datetime \<Rightarrow> lkey \<Rightarrow> rat \<Rightarrow> string \<Rightarrow> ledger \<Rightarrow> write_result" where
  "sql_claim_band now k band event_id tbl =
     (case pg_numeric 12 4 band of
        None \<Rightarrow> Inl DB_NumericOverflow
      | Some b \<Rightarrow>
          (case dict_get tbl k of
             None \<Rightarrow> store k \<lparr>lg_current_band = Some b, lg_state_hash = None, lg_triggered = True,
                             lg_triggered_at = now, lg_last_event_id = event_id, lg_updated_at = now\<rparr> tbl
           | Some old \<Rightarrow>
               if \<not> lg_triggered old \<or> (case lg_current_band old of None \<Rightarrow> False | Some c \<Rightarrow> c < b)
               then store k (old\<lparr>lg_current_band := Some b, lg_triggered := True, lg_triggered_at := now,
                                 lg_last_event_id := event_id, lg_updated_at := now\<rparr>) tbl
               else Inr (None, tbl)))"

definition seconds :: "int \<Rightarrow> int" where
  "seconds s = s * 1000000"

definition resettable :: "datetime \<Rightarrow> int \<Rightarrow> LedgerRow \<Rightarrow> bool" where
  "resettable now cooldown_s row \<longleftrightarrow> lg_triggered row \<and> lg_triggered_at row \<le> now - seconds cooldown_s"

definition sql_reset :: "datetime \<Rightarrow> lkey \<Rightarrow> int \<Rightarrow> ledger \<Rightarrow> write_result" where
  "sql_reset now k cooldown_s tbl =
     (case dict_get tbl k of
        None \<Rightarrow> Inr (None, tbl)
      | Some old \<Rightarrow>
          if resettable now cooldown_s old then store k (old\<lparr>lg_triggered := False, lg_updated_at := now\<rparr>) tbl
          else Inr (None, tbl))"

definition sql_claim_state :: "datetime \<Rightarrow> lkey \<Rightarrow> string \<Rightarrow> string \<Rightarrow> ledger \<Rightarrow> write_result" where
  "sql_claim_state now k hash event_id tbl =
     (case dict_get tbl k of
        None \<Rightarrow> store k \<lparr>lg_current_band = None, lg_state_hash = Some hash, lg_triggered = True,
                        lg_triggered_at = now, lg_last_event_id = event_id, lg_updated_at = now\<rparr> tbl
      | Some old \<Rightarrow>
          if lg_state_hash old \<noteq> Some hash
          then store k (old\<lparr>lg_state_hash := Some hash, lg_triggered := True, lg_triggered_at := now,
                            lg_last_event_id := event_id, lg_updated_at := now\<rparr>) tbl
          else Inr (None, tbl))"

section \<open>\<open>ledger.py\<close>\<close>

definition decide :: "NotificationSpec \<Rightarrow> Band option \<Rightarrow> LedgerState \<Rightarrow> datetime \<Rightarrow> int \<Rightarrow> Decision" where
  "decide spec band state now cooldown_s =
     (let open_incident = ls_exists state \<and> ls_triggered state in
      case band of
        None \<Rightarrow>
          if open_incident \<and> sp_resets spec \<and>
             (case ls_triggered_at state of None \<Rightarrow> False | Some t \<Rightarrow> seconds cooldown_s \<le> now - t)
          then DEC_RESET else DEC_SKIP
      | Some b \<Rightarrow>
          if \<not> open_incident then DEC_FIRE
          else if (case ls_current_band state of None \<Rightarrow> True | Some c \<Rightarrow> c < bd_value b) then DEC_FIRE
          else DEC_SKIP)"

definition ledger_state :: "LedgerRow \<Rightarrow> LedgerState" where
  "ledger_state row = \<lparr>ls_exists = True, ls_current_band = lg_current_band row, ls_triggered = lg_triggered row,
                       ls_triggered_at = Some (lg_triggered_at row)\<rparr>"

text \<open>\<open>by_identity\<close>: a dictionary comprehension, so the last pair of an identity counts.\<close>

definition by_identity :: "(int \<times> LedgerRef) list \<Rightarrow> int \<times> string \<times> string \<Rightarrow> LedgerRef option" where
  "by_identity refs = map_of (rev (map (\<lambda>(nid, ref). ((nid, lr_tenant_id ref, lr_subject_json ref), ref)) refs))"

definition read_states :: "ledger \<Rightarrow> (int \<times> LedgerRef) list \<Rightarrow> (string, LedgerState) dict" where
  "read_states tbl refs =
     (let states = fold (\<lambda>(_, ref) d. dict_set (lr_key ref) NO_LEDGER_ROW d) refs [];
          found = filter (\<lambda>((nid, tenant, subj), _).
                    list_ex (\<lambda>(n, ref). (nid, tenant, subj) = ledger_id n (lr_tenant_id ref) (lr_subject ref)) refs) tbl
      in fold (\<lambda>((nid, tenant, subj), row) d.
                 case by_identity refs (nid, tenant, subject_json subj) of
                   None \<Rightarrow> d
                 | Some ref \<Rightarrow> dict_set (lr_key ref) (ledger_state row) d) found states)"

definition first_state :: "write_result \<Rightarrow> (db_error, LedgerState option \<times> ledger) res" where
  "first_state r = (case r of Inl e \<Rightarrow> Inl e | Inr (row, tbl) \<Rightarrow> Inr (map_option ledger_state row, tbl))"

definition ref_id :: "int \<Rightarrow> LedgerRef \<Rightarrow> lkey" where
  "ref_id notification_id ref = ledger_id notification_id (lr_tenant_id ref) (lr_subject ref)"

definition claim_band ::
  "datetime \<Rightarrow> int \<Rightarrow> LedgerRef \<Rightarrow> rat \<Rightarrow> string \<Rightarrow> ledger \<Rightarrow> (db_error, LedgerState option \<times> ledger) res" where
  "claim_band now notification_id ref band_value event_id tbl =
     first_state (sql_claim_band now (ref_id notification_id ref) band_value event_id tbl)"

definition reset_band ::
  "datetime \<Rightarrow> int \<Rightarrow> LedgerRef \<Rightarrow> int \<Rightarrow> ledger \<Rightarrow> (db_error, LedgerState option \<times> ledger) res" where
  "reset_band now notification_id ref cooldown_s tbl =
     first_state (sql_reset now (ref_id notification_id ref) cooldown_s tbl)"

definition resettable_subjects :: "datetime \<Rightarrow> int list \<Rightarrow> string \<Rightarrow> int \<Rightarrow> ledger \<Rightarrow> (int, subject list) dict" where
  "resettable_subjects now notification_ids tenant_id cooldown_s tbl =
     fold (\<lambda>((nid, _, subj), _) d.
             dict_set nid ((case dict_get d nid of None \<Rightarrow> [] | Some xs \<Rightarrow> xs) @ [subj]) d)
       (filter (\<lambda>((nid, tenant, _), row). nid \<in> set notification_ids \<and> tenant = tenant_id \<and> resettable now cooldown_s row) tbl)
       []"

definition claim_state ::
  "datetime \<Rightarrow> int \<Rightarrow> string \<Rightarrow> subject \<Rightarrow> string \<Rightarrow> string \<Rightarrow> ledger \<Rightarrow> (db_error, bool \<times> ledger) res" where
  "claim_state now notification_id tenant_id subj hash event_id tbl =
     (case sql_claim_state now (ledger_id notification_id tenant_id subj) hash event_id tbl of
        Inl e \<Rightarrow> Inl e
      | Inr (row, tbl') \<Rightarrow> Inr (row \<noteq> None, tbl'))"

record StateClaim =
  sc_tenant_id :: string
  sc_subject :: subject
  sc_state_hash :: string
  sc_event_id :: string

text \<open>
  The rows of one \<open>INSERT ... ON CONFLICT DO UPDATE\<close> are taken in order; a row that meets one the
  same statement has inserted or updated aborts the whole statement.
\<close>

fun sql_claim_state_bulk ::
  "datetime \<Rightarrow> int \<Rightarrow> lkey list \<Rightarrow> StateClaim list \<Rightarrow> ledger \<Rightarrow> (db_error, string list \<times> ledger) res" where
  "sql_claim_state_bulk now nid touched [] tbl = Inr ([], tbl)"
| "sql_claim_state_bulk now nid touched (cl # cls) tbl =
     (let k = ledger_id nid (sc_tenant_id cl) (sc_subject cl) in
      if k \<in> set touched then Inl DB_CardinalityViolation
      else case sql_claim_state now k (sc_state_hash cl) (sc_event_id cl) tbl of
             Inl e \<Rightarrow> Inl e
           | Inr (None, tbl') \<Rightarrow> sql_claim_state_bulk now nid touched cls tbl'
           | Inr (Some row, tbl') \<Rightarrow>
               (case sql_claim_state_bulk now nid (k # touched) cls tbl' of
                  Inl e \<Rightarrow> Inl e
                | Inr (ids, tbl'') \<Rightarrow> Inr (lg_last_event_id row # ids, tbl'')))"

definition claim_state_bulk ::
  "datetime \<Rightarrow> int \<Rightarrow> StateClaim list \<Rightarrow> ledger \<Rightarrow> (db_error, StateClaim list \<times> ledger) res" where
  "claim_state_bulk now notification_id claims tbl =
     (if claims = [] then Inr ([], tbl)
      else case sql_claim_state_bulk now notification_id [] claims tbl of
             Inl e \<Rightarrow> Inl e
           | Inr (won, tbl') \<Rightarrow> Inr (filter (\<lambda>claim. sc_event_id claim \<in> set won) claims, tbl'))"

definition reread :: "int \<Rightarrow> LedgerRef \<Rightarrow> ledger \<Rightarrow> LedgerState" where
  "reread notification_id ref tbl =
     (case dict_get tbl (ref_id notification_id ref) of Some row \<Rightarrow> ledger_state row | None \<Rightarrow> NO_LEDGER_ROW)"

text \<open>\<open>to_char(now() - make_interval(months => n), 'YYYY-MM')\<close>\<close>

definition month_before :: "datetime \<Rightarrow> int \<Rightarrow> string" where
  "month_before now months =
     (let total = 12 * year_of now + (month_num now - 1) - months
      in field 4 (total div 12) @ ''-'' @ field 2 (total mod 12 + 1))"

text \<open>\<open>config_name\<close> is the catalogue's name of a notification id.\<close>

definition purge_old_quota_rows :: "(int \<Rightarrow> string option) \<Rightarrow> datetime \<Rightarrow> int \<Rightarrow> ledger \<Rightarrow> nat \<times> ledger" where
  "purge_old_quota_rows config_name now months tbl =
     (let old = (\<lambda>((nid, _, subj), _).
            (config_name nid = Some ''QUOTA_THRESHOLD'' \<or> config_name nid = Some ''QUOTA_EXHAUSTED'') \<and>
            (case dict_get subj ''billing_month'' of None \<Rightarrow> False | Some m \<Rightarrow> m < month_before now months))
      in (length (filter old tbl), filter (Not \<circ> old) tbl))"

section \<open>The band a value reaches\<close>

lemma max_by_value_in: "max_by_value b bs \<in> insert b (set bs)"
  by (induction b bs rule: max_by_value.induct) (auto split: if_splits)

lemma max_by_value_ge: "x \<in> insert b (set bs) \<Longrightarrow> bd_value x \<le> bd_value (max_by_value b bs)"
proof (induction b bs arbitrary: x rule: max_by_value.induct)
  case (2 best b bs)
  let ?m = "if bd_value best < bd_value b then b else best"
  have "bd_value ?m \<le> bd_value (max_by_value ?m bs)" using "2.IH" by blast
  moreover have "bd_value best \<le> bd_value ?m" "bd_value b \<le> bd_value ?m" by auto
  moreover have "x \<in> set bs \<Longrightarrow> bd_value x \<le> bd_value (max_by_value ?m bs)" using "2.IH" by blast
  ultimately show ?case using "2.prems" by auto
qed simp

lemma band_for_Some:
  assumes "band_for v bands = Some b"
  shows "b \<in> set bands" "bd_value b \<le> v" "\<And>b'. b' \<in> set bands \<Longrightarrow> bd_value b' \<le> v \<Longrightarrow> bd_value b' \<le> bd_value b"
proof -
  let ?r = "filter (\<lambda>band. bd_value band \<le> v) bands"
  obtain x xs where r: "?r = x # xs" and b: "b = max_by_value x xs"
    using assms by (auto simp: band_for_def split: list.splits)
  have "b \<in> set ?r" using max_by_value_in [of x xs] unfolding r b by simp
  then show "b \<in> set bands" "bd_value b \<le> v" by auto
  fix b' assume "b' \<in> set bands" "bd_value b' \<le> v"
  then have "b' \<in> set ?r" by simp
  then show "bd_value b' \<le> bd_value b" unfolding r b using max_by_value_ge by (metis list.simps(15))
qed

lemma band_for_None: "band_for v bands = None \<longleftrightarrow> (\<forall>b \<in> set bands. v < bd_value b)"
  using filter_empty_conv [of "\<lambda>band. bd_value band \<le> v" bands]
  by (auto simp: band_for_def not_le split: list.splits)

section \<open>What the statements keep\<close>

text \<open>The unique constraint and the check constraint.\<close>

definition ledger_ok :: "ledger \<Rightarrow> bool" where
  "ledger_ok tbl \<longleftrightarrow> distinct (dict_keys tbl) \<and> list_all (\<lambda>(_, row). ck_one_value row) tbl"

lemma store_Inr: "store k row tbl = Inr (r, tbl') \<longleftrightarrow>
    length (fst (snd k)) \<le> 255 \<and> ck_one_value row \<and> r = Some row \<and> tbl' = dict_set k row tbl"
  by (auto simp: store_def)

lemma store_ok: "ledger_ok tbl \<Longrightarrow> store k row tbl = Inr (r, tbl') \<Longrightarrow> ledger_ok tbl'"
  by (auto simp: store_Inr ledger_ok_def list_all_iff dest!: set_dict_set)

lemmas sql_write_defs = sql_claim_band_def sql_reset_def sql_claim_state_def

lemmas sql_splits = option.splits if_splits

lemma sql_claim_band_ok: "ledger_ok tbl \<Longrightarrow> sql_claim_band now k b e tbl = Inr (r, tbl') \<Longrightarrow> ledger_ok tbl'"
  by (auto simp: sql_claim_band_def split: sql_splits intro: store_ok)

lemma sql_reset_ok: "ledger_ok tbl \<Longrightarrow> sql_reset now k c tbl = Inr (r, tbl') \<Longrightarrow> ledger_ok tbl'"
  by (auto simp: sql_reset_def split: sql_splits intro: store_ok)

lemma sql_claim_state_ok: "ledger_ok tbl \<Longrightarrow> sql_claim_state now k h e tbl = Inr (r, tbl') \<Longrightarrow> ledger_ok tbl'"
  by (auto simp: sql_claim_state_def split: sql_splits intro: store_ok)

lemma sql_claim_state_bulk_ok:
  "ledger_ok tbl \<Longrightarrow> sql_claim_state_bulk now nid touched cls tbl = Inr (ids, tbl') \<Longrightarrow> ledger_ok tbl'"
proof (induction cls arbitrary: touched tbl ids)
  case (Cons cl cls)
  let ?k = "ledger_id nid (sc_tenant_id cl) (sc_subject cl)"
  obtain row tbl1 where step: "sql_claim_state now ?k (sc_state_hash cl) (sc_event_id cl) tbl = Inr (row, tbl1)"
    using Cons.prems(2) by (auto simp: Let_def split: if_splits sum.splits)
  then have ok: "ledger_ok tbl1" using Cons.prems(1) by (rule sql_claim_state_ok [rotated])
  show ?case
  proof (cases row)
    case None
    then show ?thesis using Cons.IH [OF ok] Cons.prems(2) step by (simp add: Let_def split: if_splits)
  next
    case (Some r)
    then obtain ids' where "sql_claim_state_bulk now nid (?k # touched) cls tbl1 = Inr (ids', tbl')"
      using Cons.prems(2) step by (auto simp: Let_def split: if_splits sum.splits)
    then show ?thesis using Cons.IH [OF ok] by blast
  qed
qed simp

section \<open>The interface a producer relies on\<close>

text \<open>
  A gate per key: \<open>level\<close> is the band of the open incident (\<open>None\<close> when there is none), a claim
  tells its caller whether it won, a re-arm closes the incident.
\<close>

datatype ('i, 'k, 'b) gate_op = Claim 'i 'k 'b | Rearm 'i 'k

fun gate_step ::
  "('i \<Rightarrow> 'k \<Rightarrow> 'b \<Rightarrow> 's \<Rightarrow> bool \<times> 's) \<Rightarrow> ('i \<Rightarrow> 'k \<Rightarrow> 's \<Rightarrow> bool \<times> 's) \<Rightarrow> ('i, 'k, 'b) gate_op \<Rightarrow> 's \<Rightarrow> bool \<times> 's" where
  "gate_step claim rearm (Claim i k b) s = claim i k b s"
| "gate_step claim rearm (Rearm i k) s = rearm i k s"

fun gate_run where
  "gate_run claim rearm [] s = ([], s)"
| "gate_run claim rearm (x # xs) s =
     (let (won, s') = gate_step claim rearm x s; (ws, s'') = gate_run claim rearm xs s' in ((x, won) # ws, s''))"

lemma gate_run_Cons [simp]:
  "gate_run claim rearm (x # xs) s =
     ((x, fst (gate_step claim rearm x s)) # fst (gate_run claim rearm xs (snd (gate_step claim rearm x s))),
      snd (gate_run claim rearm xs (snd (gate_step claim rearm x s))))"
  by (simp add: Let_def split: prod.splits)

declare gate_run.simps(2) [simp del]

text \<open>The bands won for one key, in the order they were won.\<close>

fun wins :: "'k \<Rightarrow> (('i, 'k, 'b) gate_op \<times> bool) list \<Rightarrow> 'b list" where
  "wins k [] = []"
| "wins k ((Claim i k' b, won) # xs) = (if k' = k \<and> won then b # wins k xs else wins k xs)"
| "wins k ((Rearm i k', won) # xs) = wins k xs"

fun rearms :: "('i, 'k, 'b) gate_op \<Rightarrow> 'k \<Rightarrow> bool" where
  "rearms (Rearm i k') k = (k' = k)"
| "rearms (Claim i k' b) k = False"

locale band_gate =
  fixes level :: "'s \<Rightarrow> 'k \<Rightarrow> ('b :: linorder) option"
    and claim :: "'i \<Rightarrow> 'k \<Rightarrow> 'b \<Rightarrow> 's \<Rightarrow> bool \<times> 's"
    and rearm :: "'i \<Rightarrow> 'k \<Rightarrow> 's \<Rightarrow> bool \<times> 's"
    and valid :: "'s \<Rightarrow> 'k \<Rightarrow> bool"
    and storable :: "'b \<Rightarrow> bool"
  assumes claim_iff: "valid s k \<Longrightarrow> storable b \<Longrightarrow> fst (claim i k b s) \<longleftrightarrow> (\<forall>c. level s k = Some c \<longrightarrow> c < b)"
    and claim_won: "storable b \<Longrightarrow> fst (claim i k b s) \<Longrightarrow> level (snd (claim i k b s)) k = Some b"
    and claim_lost: "\<not> fst (claim i k b s) \<Longrightarrow> snd (claim i k b s) = s"
    and claim_frame: "k' \<noteq> k \<Longrightarrow> level (snd (claim i k b s)) k' = level s k'"
    and claim_valid: "valid s k' \<Longrightarrow> valid (snd (claim i k b s)) k'"
    and rearm_frame: "k' \<noteq> k \<Longrightarrow> level (snd (rearm i k s)) k' = level s k'"
    and rearm_valid: "valid s k' \<Longrightarrow> valid (snd (rearm i k s)) k'"
begin

lemma step_valid: "valid s k \<Longrightarrow> valid (snd (gate_step claim rearm x s)) k"
  by (cases x) (auto intro: claim_valid rearm_valid)

lemma run_valid: "valid s k \<Longrightarrow> valid (snd (gate_run claim rearm xs s)) k"
  by (induction xs arbitrary: s) (simp_all add: step_valid)

text \<open>While nobody re-arms a key, the bands won for it strictly increase from its level on.\<close>

lemma wins_increase:
  assumes "valid s k" "\<forall>x \<in> set xs. \<not> rearms x k" "\<forall>i b. Claim i k b \<in> set xs \<longrightarrow> storable b"
  shows "sorted_wrt (<) (wins k (fst (gate_run claim rearm xs s)))
    \<and> (\<forall>c b. level s k = Some c \<longrightarrow> b \<in> set (wins k (fst (gate_run claim rearm xs s))) \<longrightarrow> c < b)"
  using assms
proof (induction xs arbitrary: s)
  case (Cons x xs)
  let ?s' = "snd (gate_step claim rearm x s)"
  have v: "valid ?s' k" using Cons.prems(1) by (rule step_valid)
  have IH: "sorted_wrt (<) (wins k (fst (gate_run claim rearm xs ?s')))"
      "\<And>c b. level ?s' k = Some c \<Longrightarrow> b \<in> set (wins k (fst (gate_run claim rearm xs ?s'))) \<Longrightarrow> c < b"
    using Cons.IH [OF v] Cons.prems by auto
  show ?case
  proof (cases x)
    case (Claim i k' b)
    show ?thesis
    proof (cases "k' = k \<and> fst (claim i k' b s)")
      case True
      then have st: "storable b" using Cons.prems(3) Claim by auto
      have l: "level ?s' k = Some b" using claim_won [OF st, of i k s] True Claim by auto
      have "\<forall>c. level s k = Some c \<longrightarrow> c < b" using claim_iff [OF Cons.prems(1) st, of i] True by blast
      then show ?thesis using IH l True Claim by fastforce
    next
      case False
      then have "level ?s' k = level s k"
        using Claim claim_frame claim_lost by (cases "k' = k") simp_all
      then show ?thesis using IH False Claim by auto
    qed
  next
    case (Rearm i k')
    then have "level ?s' k = level s k" using Cons.prems(2) rearm_frame by auto
    then show ?thesis using IH Rearm by auto
  qed
qed simp

text \<open>Of any number of claims of one band exactly the first wins, if any may.\<close>

lemma one_winner:
  assumes "valid s k" "storable b" "\<forall>c. level s k = Some c \<longrightarrow> c < b"
  shows "map snd (fst (gate_run claim rearm (map (\<lambda>i. Claim i k b) (i # is)) s)) = True # replicate (length is) False"
proof -
  have won: "fst (claim i k b s)" using claim_iff assms by simp
  have "map snd (fst (gate_run claim rearm (map (\<lambda>i. Claim i k b) is) t)) = replicate (length is) False"
    if "valid t k" "level t k = Some b" for t
    using that
  proof (induction "is" arbitrary: t)
    case (Cons j js)
    then have lost: "\<not> fst (claim j k b t)" using claim_iff [OF Cons.prems(1) assms(2)] by auto
    then show ?case using Cons claim_lost [OF lost] by simp
  qed simp
  from this [OF claim_valid [OF assms(1)] claim_won [OF assms(2) won]] won
  show ?thesis by simp
qed

end

text \<open>The ledger is such a gate: one row per key, its band while it is triggered.\<close>

definition open_band :: "ledger \<Rightarrow> lkey \<Rightarrow> rat option" where
  "open_band tbl k = (case dict_get tbl k of
      Some row \<Rightarrow> if lg_triggered row then lg_current_band row else None
    | None \<Rightarrow> None)"

definition gate_claim :: "datetime \<times> string \<Rightarrow> lkey \<Rightarrow> rat \<Rightarrow> ledger \<Rightarrow> bool \<times> ledger" where
  "gate_claim i k b tbl = (case sql_claim_band (fst i) k b (snd i) tbl of
      Inl _ \<Rightarrow> (False, tbl) | Inr (row, tbl') \<Rightarrow> (row \<noteq> None, tbl'))"

definition gate_rearm :: "int \<Rightarrow> datetime \<times> string \<Rightarrow> lkey \<Rightarrow> ledger \<Rightarrow> bool \<times> ledger" where
  "gate_rearm cooldown_s i k tbl = (case sql_reset (fst i) k cooldown_s tbl of
      Inl _ \<Rightarrow> (False, tbl) | Inr (row, tbl') \<Rightarrow> (row \<noteq> None, tbl'))"

definition band_row :: "ledger \<Rightarrow> lkey \<Rightarrow> bool" where
  "band_row tbl k \<longleftrightarrow> length (fst (snd k)) \<le> 255 \<and>
     pred_option (\<lambda>row. lg_current_band row \<noteq> None \<and> lg_state_hash row = None) (dict_get tbl k)"

definition numeric_12_4 :: "rat \<Rightarrow> bool" where
  "numeric_12_4 b \<longleftrightarrow> pg_numeric 12 4 b = Some b"

lemmas gate_defs = gate_claim_def gate_rearm_def open_band_def band_row_def numeric_12_4_def store_def ck_one_value_def

interpretation lg: band_gate open_band gate_claim "gate_rearm cooldown_s" band_row numeric_12_4
proof
  fix s k b and i :: "datetime \<times> string"
  show "band_row s k \<Longrightarrow> numeric_12_4 b \<Longrightarrow> fst (gate_claim i k b s) \<longleftrightarrow> (\<forall>c. open_band s k = Some c \<longrightarrow> c < b)"
    by (auto simp: gate_defs sql_claim_band_def split: option.splits if_splits)
  show "numeric_12_4 b \<Longrightarrow> fst (gate_claim i k b s) \<Longrightarrow> open_band (snd (gate_claim i k b s)) k = Some b"
    by (auto simp: gate_defs sql_claim_band_def split: option.splits if_splits)
  show "\<not> fst (gate_claim i k b s) \<Longrightarrow> snd (gate_claim i k b s) = s"
    by (auto simp: gate_defs sql_claim_band_def split: option.splits if_splits)
next
  fix k' k :: lkey and s b and i :: "datetime \<times> string"
  assume "k' \<noteq> k"
  then show "open_band (snd (gate_claim i k b s)) k' = open_band s k'"
    "open_band (snd (gate_rearm cooldown_s i k s)) k' = open_band s k'"
    by (auto simp: gate_defs sql_claim_band_def sql_reset_def split: option.splits)
next
  fix s k' k b and i :: "datetime \<times> string"
  assume v: "band_row s k'"
  then show "band_row (snd (gate_claim i k b s)) k'"
    by (auto simp: gate_defs sql_claim_band_def split: option.splits if_splits)
  show "band_row (snd (gate_rearm cooldown_s i k s)) k'"
    using v by (auto simp: gate_defs sql_reset_def split: option.splits if_splits)
qed

section \<open>Deciding and claiming agree\<close>

lemmas claim_defs = claim_band_def reset_band_def first_state_def ref_id_def

lemma reread_cases:
  "reread nid ref tbl = (case dict_get tbl (ref_id nid ref) of Some row \<Rightarrow> ledger_state row | None \<Rightarrow> NO_LEDGER_ROW)"
  by (simp add: reread_def)

lemma claim_band_won_iff:
  assumes "band_row tbl (ref_id nid ref)" "numeric_12_4 b"
  shows "(\<exists>s tbl'. claim_band now nid ref b e tbl = Inr (Some s, tbl')) \<longleftrightarrow>
         (\<forall>c. open_band tbl (ref_id nid ref) = Some c \<longrightarrow> c < b)"
proof -
  have "(\<exists>s tbl'. claim_band now nid ref b e tbl = Inr (Some s, tbl')) \<longleftrightarrow> fst (gate_claim (now, e) (ref_id nid ref) b tbl)"
    by (auto simp: claim_band_def first_state_def gate_claim_def split: sum.splits)
  then show ?thesis using lg.claim_iff [OF assms] by simp
qed

lemma decide_fire_iff:
  assumes "band_row tbl (ref_id nid ref)"
  shows "decide spec (Some b) (reread nid ref tbl) now cooldown_s = DEC_FIRE \<longleftrightarrow>
         (\<forall>c. open_band tbl (ref_id nid ref) = Some c \<longrightarrow> c < bd_value b)"
  using assms
  by (auto simp: decide_def Let_def reread_cases open_band_def band_row_def ledger_state_def NO_LEDGER_ROW_def
      split: option.splits)

lemma decide_never_fires_below: "decide spec None state now cooldown_s \<noteq> DEC_FIRE"
  by (simp add: decide_def Let_def)

lemma decide_reset_iff:
  assumes "sp_resets spec" "ledger_ok tbl" "length (lr_tenant_id ref) \<le> 255"
  shows "decide spec None (reread nid ref tbl) now cooldown_s = DEC_RESET \<longleftrightarrow>
         (\<exists>s tbl'. reset_band now nid ref cooldown_s tbl = Inr (Some s, tbl'))"
proof (cases "dict_get tbl (ref_id nid ref)")
  case None
  then show ?thesis
    by (simp add: decide_def reread_cases NO_LEDGER_ROW_def reset_band_def first_state_def sql_reset_def)
next
  case (Some row)
  then have "ck_one_value row"
    using assms(2) map_of_SomeD [OF Some] by (auto simp: ledger_ok_def list_all_iff)
  then have ck: "ck_one_value (row\<lparr>lg_triggered := False, lg_updated_at := now\<rparr>)"
    by (simp add: ck_one_value_def)
  have len: "length (fst (snd (ref_id nid ref))) \<le> 255"
    using assms(3) by (simp add: ref_id_def ledger_id_def)
  show ?thesis
    using Some assms(1) ck len
    by (auto simp: decide_def reread_cases ledger_state_def reset_band_def first_state_def sql_reset_def
        resettable_def store_def split: if_splits)
qed

section \<open>Producers\<close>

text \<open>
  Any number of producers share one ledger row.  Each evaluates on the view its cache has, which may
  be arbitrarily old or wrong; what it decides it then claims.  The log keeps, newest first, the
  bands won and the re-arms.
\<close>

datatype incident = Won rat datetime | Rearmed datetime

record producers =
  pr_ledger :: ledger
  pr_seen :: "nat \<Rightarrow> LedgerState"
  pr_log :: "incident list"

inductive producer_step :: "NotificationSpec \<Rightarrow> int \<Rightarrow> LedgerRef \<Rightarrow> Band list \<Rightarrow> int \<Rightarrow> producers \<Rightarrow> producers \<Rightarrow> bool"
  for spec nid ref bands cooldown_s where
  view: "producer_step spec nid ref bands cooldown_s s (s\<lparr>pr_seen := (pr_seen s)(p := anything)\<rparr>)"
| fire: "decide spec (band_for v bands) (pr_seen s p) now cooldown_s = DEC_FIRE \<Longrightarrow>
         band_for v bands = Some b \<Longrightarrow>
         claim_band now nid ref (bd_value b) e (pr_ledger s) = Inr (Some st, tbl') \<Longrightarrow>
         ls_current_band st = Some c \<Longrightarrow>
         producer_step spec nid ref bands cooldown_s s
           (s\<lparr>pr_ledger := tbl', pr_seen := (pr_seen s)(p := st), pr_log := Won c now # pr_log s\<rparr>)"
| lose: "decide spec (band_for v bands) (pr_seen s p) now cooldown_s = DEC_FIRE \<Longrightarrow>
         band_for v bands = Some b \<Longrightarrow>
         claim_band now nid ref (bd_value b) e (pr_ledger s) = Inr (None, tbl') \<Longrightarrow>
         producer_step spec nid ref bands cooldown_s s
           (s\<lparr>pr_ledger := tbl', pr_seen := (pr_seen s)(p := reread nid ref tbl')\<rparr>)"
| rearm: "decide spec (band_for v bands) (pr_seen s p) now cooldown_s = DEC_RESET \<Longrightarrow>
         reset_band now nid ref cooldown_s (pr_ledger s) = Inr (Some st, tbl') \<Longrightarrow>
         producer_step spec nid ref bands cooldown_s s
           (s\<lparr>pr_ledger := tbl', pr_seen := (pr_seen s)(p := st), pr_log := Rearmed now # pr_log s\<rparr>)"
| rearm_lost: "decide spec (band_for v bands) (pr_seen s p) now cooldown_s = DEC_RESET \<Longrightarrow>
         reset_band now nid ref cooldown_s (pr_ledger s) = Inr (None, tbl') \<Longrightarrow>
         producer_step spec nid ref bands cooldown_s s
           (s\<lparr>pr_ledger := tbl', pr_seen := (pr_seen s)(p := reread nid ref tbl')\<rparr>)"
| elsewhere: "k \<noteq> ref_id nid ref \<Longrightarrow>
         producer_step spec nid ref bands cooldown_s s (s\<lparr>pr_ledger := dict_set k row (pr_ledger s)\<rparr>)"

inductive_cases producer_stepE: "producer_step spec nid ref bands cooldown_s s s'"

abbreviation producers_reach where
  "producers_reach spec nid ref bands cooldown_s \<equiv> rtranclp (producer_step spec nid ref bands cooldown_s)"

text \<open>
  Newest first: a band is won above the one before it unless a re-arm lies between; a re-arm follows
  a win that is at least the cooldown old.
\<close>

fun good_log :: "int \<Rightarrow> incident list \<Rightarrow> bool" where
  "good_log cooldown_s [] = True"
| "good_log cooldown_s [Won b t] = True"
| "good_log cooldown_s (Won b t # Won b' t' # xs) = (b' < b \<and> good_log cooldown_s (Won b' t' # xs))"
| "good_log cooldown_s (Won b t # Rearmed t' # xs) = good_log cooldown_s (Rearmed t' # xs)"
| "good_log cooldown_s (Rearmed t # Won b' t' # xs) = (t' + seconds cooldown_s \<le> t \<and> good_log cooldown_s (Won b' t' # xs))"
| "good_log cooldown_s (Rearmed t # xs) = False"

text \<open>The log's last entry is what the row says.\<close>

fun log_row :: "incident list \<Rightarrow> LedgerRow option \<Rightarrow> bool" where
  "log_row [] r = (r = None)"
| "log_row (Won b t # xs) r =
     pred_option (\<lambda>row. lg_triggered row \<and> lg_current_band row = Some b \<and> lg_triggered_at row = t \<and> lg_state_hash row = None) r"
| "log_row (Rearmed t # xs) r =
     pred_option (\<lambda>row. \<not> lg_triggered row \<and> lg_current_band row \<noteq> None \<and> lg_state_hash row = None) r"

definition producers_ok :: "int \<Rightarrow> lkey \<Rightarrow> producers \<Rightarrow> bool" where
  "producers_ok cooldown_s k s \<longleftrightarrow>
     good_log cooldown_s (pr_log s) \<and> log_row (pr_log s) (dict_get (pr_ledger s) k) \<and>
     (pr_log s \<noteq> [] \<longrightarrow> dict_get (pr_ledger s) k \<noteq> None)"

lemma claim_band_cases:
  assumes "claim_band now nid ref b e tbl = Inr (Some st, tbl')"
  obtains c where "pg_numeric 12 4 b = Some c" "ls_current_band st = Some c"
    "\<And>row. dict_get tbl (ref_id nid ref) = Some row \<Longrightarrow>
       \<not> lg_triggered row \<or> (\<exists>c'. lg_current_band row = Some c' \<and> c' < c)"
    "\<exists>row. dict_get tbl' (ref_id nid ref) = Some row \<and> lg_triggered row \<and> lg_current_band row = Some c \<and>
       lg_triggered_at row = now \<and> lg_state_hash row = None"
  using assms that
  by (auto simp: claim_band_def first_state_def sql_claim_band_def store_def ck_one_value_def ledger_state_def
      split: sum.splits option.splits if_splits)

lemma claim_band_lost: "claim_band now nid ref b e tbl = Inr (None, tbl') \<Longrightarrow> tbl' = tbl"
  by (auto simp: claim_band_def first_state_def sql_claim_band_def store_def split: sum.splits option.splits if_splits)

lemma reset_band_cases:
  assumes "reset_band now nid ref cooldown_s tbl = Inr (Some st, tbl')"
  obtains row where "dict_get tbl (ref_id nid ref) = Some row" "lg_triggered row"
    "lg_triggered_at row + seconds cooldown_s \<le> now"
    "dict_get tbl' (ref_id nid ref) = Some (row\<lparr>lg_triggered := False, lg_updated_at := now\<rparr>)"
  using assms that
  by (auto simp: reset_band_def first_state_def sql_reset_def resettable_def store_def
      split: sum.splits option.splits if_splits)

lemma reset_band_lost: "reset_band now nid ref cooldown_s tbl = Inr (None, tbl') \<Longrightarrow> tbl' = tbl"
  by (auto simp: reset_band_def first_state_def sql_reset_def store_def split: sum.splits option.splits if_splits)

lemma good_log_Won:
  assumes "good_log c xs" "log_row xs (Some row)" "\<not> lg_triggered row \<or> (\<exists>b'. lg_current_band row = Some b' \<and> b' < b)"
  shows "good_log c (Won b t # xs)"
proof (cases xs)
  case (Cons i ys)
  then show ?thesis using assms by (cases i) auto
qed simp

lemma producer_step_ok:
  assumes "producer_step spec nid ref bands cooldown_s s s'" "producers_ok cooldown_s (ref_id nid ref) s"
  shows "producers_ok cooldown_s (ref_id nid ref) s'"
  using assms
proof (cases rule: producer_step.cases)
  case (fire v p now b e st tbl' c)
  then obtain "won": "\<And>row. dict_get (pr_ledger s) (ref_id nid ref) = Some row \<Longrightarrow>
       \<not> lg_triggered row \<or> (\<exists>c'. lg_current_band row = Some c' \<and> c' < c)"
    and row: "\<exists>row. dict_get tbl' (ref_id nid ref) = Some row \<and> lg_triggered row \<and> lg_current_band row = Some c \<and>
       lg_triggered_at row = now \<and> lg_state_hash row = None"
    by (auto elim!: claim_band_cases)
  have "good_log cooldown_s (Won c now # pr_log s)"
  proof (cases "dict_get (pr_ledger s) (ref_id nid ref)")
    case None
    then have "pr_log s = []" using assms(2) by (auto simp: producers_ok_def)
    then show ?thesis by simp
  next
    case (Some r)
    then show ?thesis using assms(2) "won" by (intro good_log_Won [of _ _ r]) (auto simp: producers_ok_def)
  qed
  then show ?thesis using fire(1) row by (auto simp: producers_ok_def)
next
  case (rearm v p now st tbl')
  then obtain r where r: "dict_get (pr_ledger s) (ref_id nid ref) = Some r" "lg_triggered r"
    "lg_triggered_at r + seconds cooldown_s \<le> now"
    "dict_get tbl' (ref_id nid ref) = Some (r\<lparr>lg_triggered := False, lg_updated_at := now\<rparr>)"
    by (auto elim!: reset_band_cases)
  obtain b xs where log: "pr_log s = Won b (lg_triggered_at r) # xs"
    using assms(2) r(1,2) by (cases "(pr_log s, dict_get (pr_ledger s) (ref_id nid ref))" rule: log_row.cases) (auto simp: producers_ok_def)
  then show ?thesis using rearm(1) r assms(2) by (auto simp: producers_ok_def)
qed (auto simp: producers_ok_def dest: claim_band_lost reset_band_lost)

lemma producers_reach_ok:
  assumes "producers_reach spec nid ref bands cooldown_s s s'" "producers_ok cooldown_s (ref_id nid ref) s"
  shows "producers_ok cooldown_s (ref_id nid ref) s'"
  using assms by (induction rule: rtranclp_induct) (auto intro: producer_step_ok)

section \<open>State claims\<close>

definition state_row :: "ledger \<Rightarrow> lkey \<Rightarrow> bool" where
  "state_row tbl k \<longleftrightarrow> length (fst (snd k)) \<le> 255 \<and>
     pred_option (\<lambda>row. lg_current_band row = None \<and> lg_state_hash row \<noteq> None) (dict_get tbl k)"

definition hash_at :: "ledger \<Rightarrow> lkey \<Rightarrow> string option" where
  "hash_at tbl k = Option.bind (dict_get tbl k) lg_state_hash"

lemma sql_claim_state_won:
  assumes "state_row tbl k" "hash_at tbl k \<noteq> Some h"
  shows "\<exists>row. sql_claim_state now k h e tbl = Inr (Some row, dict_set k row tbl) \<and> lg_last_event_id row = e \<and>
    lg_state_hash row = Some h \<and> lg_current_band row = None"
  using assms
  by (auto simp: sql_claim_state_def state_row_def hash_at_def store_def ck_one_value_def split: option.splits)

lemma sql_claim_state_lost: "hash_at tbl k = Some h \<Longrightarrow> sql_claim_state now k h e tbl = Inr (None, tbl)"
  by (auto simp: sql_claim_state_def hash_at_def split: option.splits bind_splits)

lemma hash_at_set [simp]: "hash_at (dict_set k row tbl) k' = (if k' = k then lg_state_hash row else hash_at tbl k')"
  by (simp add: hash_at_def)

lemma state_row_set:
  "state_row tbl k' \<Longrightarrow> lg_current_band row = None \<Longrightarrow> lg_state_hash row \<noteq> None \<Longrightarrow> state_row (dict_set k row tbl) k'"
  by (auto simp: state_row_def)

abbreviation claim_id :: "int \<Rightarrow> StateClaim \<Rightarrow> lkey" where
  "claim_id nid cl \<equiv> ledger_id nid (sc_tenant_id cl) (sc_subject cl)"

lemma sql_bulk_wins:
  assumes "distinct (map (claim_id nid) cls)" "\<forall>cl \<in> set cls. state_row tbl (claim_id nid cl) \<and> claim_id nid cl \<notin> set touched"
  shows "\<exists>tbl'. sql_claim_state_bulk now nid touched cls tbl =
           Inr (map sc_event_id (filter (\<lambda>cl. hash_at tbl (claim_id nid cl) \<noteq> Some (sc_state_hash cl)) cls), tbl') \<and>
         (\<forall>k. hash_at tbl' k = (case find (\<lambda>cl. claim_id nid cl = k) cls of Some cl \<Rightarrow> Some (sc_state_hash cl) | None \<Rightarrow> hash_at tbl k))"
  using assms
proof (induction cls arbitrary: touched tbl)
  case (Cons cl cls)
  let ?k = "claim_id nid cl"
  have fresh: "claim_id nid c \<noteq> ?k" if "c \<in> set cls" for c
    using Cons.prems(1) imageI [OF that, of "claim_id nid"] by auto
  have none: "find (\<lambda>c. claim_id nid c = ?k) cls = None" using fresh by (auto simp: find_None_iff)
  show ?case
  proof (cases "hash_at tbl ?k = Some (sc_state_hash cl)")
    case True
    from Cons.IH [of tbl touched] Cons.prems obtain tbl' where
      "sql_claim_state_bulk now nid touched cls tbl =
         Inr (map sc_event_id (filter (\<lambda>c. hash_at tbl (claim_id nid c) \<noteq> Some (sc_state_hash c)) cls), tbl')"
      "\<forall>k. hash_at tbl' k = (case find (\<lambda>c. claim_id nid c = k) cls of Some c \<Rightarrow> Some (sc_state_hash c) | None \<Rightarrow> hash_at tbl k)"
      by auto
    then show ?thesis
      using True Cons.prems none by (auto simp: Let_def sql_claim_state_lost)
  next
    case False
    then obtain row where step: "sql_claim_state now ?k (sc_state_hash cl) (sc_event_id cl) tbl = Inr (Some row, dict_set ?k row tbl)"
      and row: "lg_last_event_id row = sc_event_id cl" "lg_state_hash row = Some (sc_state_hash cl)" "lg_current_band row = None"
      using Cons.prems(2) sql_claim_state_won by fastforce
    let ?t = "dict_set ?k row tbl"
    have pre: "\<forall>c \<in> set cls. state_row ?t (claim_id nid c) \<and> claim_id nid c \<notin> set (?k # touched)"
      using Cons.prems(2) fresh row by (auto intro: state_row_set)
    have same: "filter (\<lambda>c. hash_at ?t (claim_id nid c) \<noteq> Some (sc_state_hash c)) cls =
        filter (\<lambda>c. hash_at tbl (claim_id nid c) \<noteq> Some (sc_state_hash c)) cls"
      using fresh by (intro filter_cong) auto
    from Cons.IH [of ?t "?k # touched"] Cons.prems(1) pre obtain tbl' where
      "sql_claim_state_bulk now nid (?k # touched) cls ?t =
         Inr (map sc_event_id (filter (\<lambda>c. hash_at tbl (claim_id nid c) \<noteq> Some (sc_state_hash c)) cls), tbl')"
      "\<forall>k. hash_at tbl' k = (case find (\<lambda>c. claim_id nid c = k) cls of Some c \<Rightarrow> Some (sc_state_hash c) | None \<Rightarrow> hash_at ?t k)"
      unfolding same by auto
    then show ?thesis
      using False Cons.prems(2) none row by (auto simp: Let_def step split: option.split)
  qed
qed simp

section \<open>Properties\<close>

text \<open>
  C22: Any number of producers, with views of the ledger that may be arbitrarily old, share one row.
  In every reachable state the bands won since the last re-arm strictly increase, and a re-arm only
  ever follows a win that is at least the cooldown old.
\<close>

theorem ledger_log_ordered:
  assumes "producers_reach spec nid ref bands cooldown_s s0 s"
    and "dict_get (pr_ledger s0) (ref_id nid ref) = None" "pr_log s0 = []"
  shows "good_log cooldown_s (pr_log s)"
  using producers_reach_ok [OF assms(1)] assms(2,3) by (simp add: producers_ok_def)

text \<open>A run of two producers: both see no incident at 82 percent, the first claim wins.\<close>

definition ex_bands :: "Band list" where
  "ex_bands = map (\<lambda>v. \<lparr>bd_value = v, bd_unit = UNIT_PERCENT, bd_severity = SEV_WARNING\<rparr>) [70, 80, 90]"

definition ex_ref :: LedgerRef where
  "ex_ref = \<lparr>lr_name = QUOTA_THRESHOLD, lr_tenant_id = ''t1'', lr_subject = [(''billing_month'', ''2026-09''), (''model_task_type'', ''asr'')]\<rparr>"

definition ex_start :: producers where
  "ex_start = \<lparr>pr_ledger = [], pr_seen = (\<lambda>_. NO_LEDGER_ROW), pr_log = []\<rparr>"

definition ex_row :: "rat \<Rightarrow> datetime \<Rightarrow> LedgerRow" where
  "ex_row b t = \<lparr>lg_current_band = Some b, lg_state_hash = None, lg_triggered = True,
     lg_triggered_at = t, lg_last_event_id = ''e1'', lg_updated_at = t\<rparr>"

definition ex_won :: producers where
  "ex_won = \<lparr>pr_ledger = [(ref_id 7 ex_ref, ex_row 80 5)], pr_seen = (\<lambda>_. NO_LEDGER_ROW)(0 := ledger_state (ex_row 80 5)),
     pr_log = [Won 80 5]\<rparr>"

lemma ledger_state_row_band: "ls_current_band (ledger_state (ex_row b t)) = Some b"
  by (simp add: ledger_state_def ex_row_def)

lemma ex_claim: "claim_band 5 7 ex_ref 80 ''e1'' [] = Inr (Some (ledger_state (ex_row 80 5)), [(ref_id 7 ex_ref, ex_row 80 5)])"
  by code_simp

lemma ex_band: "band_for 82 ex_bands = Some \<lparr>bd_value = 80, bd_unit = UNIT_PERCENT, bd_severity = SEV_WARNING\<rparr>"
  by code_simp

lemma ex_step: "producer_step spec 7 ex_ref ex_bands c ex_start ex_won"
proof -
  have "producer_step spec 7 ex_ref ex_bands c ex_start
      (ex_start\<lparr>pr_ledger := [(ref_id 7 ex_ref, ex_row 80 5)], pr_seen := (pr_seen ex_start)(0 := ledger_state (ex_row 80 5)),
        pr_log := Won 80 5 # pr_log ex_start\<rparr>)"
    by (rule producer_step.fire [where v = 82 and e = "''e1''"])
      (simp_all only: ex_band ex_claim, simp_all add: ex_start_def ex_claim decide_def NO_LEDGER_ROW_def ledger_state_row_band)
  then show ?thesis by (simp add: ex_start_def ex_won_def)
qed

theorem ledger_log_ordered_witness:
  "producers_reach (spec_of QUOTA_THRESHOLD) 7 ex_ref ex_bands 3600 ex_start ex_won \<and> good_log 3600 (pr_log ex_won)"
proof -
  have "producers_reach (spec_of QUOTA_THRESHOLD) 7 ex_ref ex_bands 3600 ex_start ex_won"
    using ex_step by (rule r_into_rtranclp)
  moreover have "dict_get (pr_ledger ex_start) (ref_id 7 ex_ref) = None" "pr_log ex_start = []"
    by (simp_all add: ex_start_def)
  ultimately show ?thesis using ledger_log_ordered by blast
qed

lemma no_reset_log:
  assumes "producers_reach spec nid ref bands cooldown_s s0 s" "\<not> sp_resets spec" "list_all (\<lambda>i. \<exists>b t. i = Won b t) (pr_log s0)"
  shows "list_all (\<lambda>i. \<exists>b t. i = Won b t) (pr_log s)"
  using assms
proof (induction rule: rtranclp_induct)
  case (step s s')
  then show ?case by (auto elim!: producer_stepE simp: decide_def Let_def split: option.splits if_splits)
qed simp

fun won_value :: "incident \<Rightarrow> rat" where
  "won_value (Won b t) = b"
| "won_value (Rearmed t) = 0"

lemma good_log_decreasing:
  "good_log c xs \<Longrightarrow> list_all (\<lambda>i. \<exists>b t. i = Won b t) xs \<Longrightarrow> sorted_wrt (\<lambda>x y. y < x) (map won_value xs)"
proof (induction c xs rule: good_log.induct)
  case (3 c b t b' t' xs)
  then show ?case by auto
qed auto

text \<open>
  C26: A usage alert (budget or quota, whose spec never resets) fires every band at most once for its
  subject, and always a higher one than before, however many producers evaluate it.
\<close>

theorem usage_alert_fires_once_per_band:
  assumes "producers_reach spec nid ref bands cooldown_s s0 s" "\<not> sp_resets spec"
    and "dict_get (pr_ledger s0) (ref_id nid ref) = None" "pr_log s0 = []"
  shows "sorted_wrt (\<lambda>x y. y < x) (map won_value (pr_log s)) \<and> distinct (map won_value (pr_log s))"
proof -
  have "good_log cooldown_s (pr_log s)"
    using producers_reach_ok [OF assms(1)] assms(3,4) by (simp add: producers_ok_def)
  moreover have "list_all (\<lambda>i. \<exists>b t. i = Won b t) (pr_log s)"
    using no_reset_log [OF assms(1,2)] assms(4) by simp
  ultimately have s: "sorted_wrt (\<lambda>x y. y < x) (map won_value (pr_log s))" by (rule good_log_decreasing)
  then show ?thesis by (simp add: decreasing_distinct)
qed

theorem usage_alert_fires_once_per_band_witness:
  "producers_reach (spec_of QUOTA_THRESHOLD) 7 ex_ref ex_bands 3600 ex_start ex_won \<and>
   distinct (map won_value (pr_log ex_won))"
proof -
  have "producers_reach (spec_of QUOTA_THRESHOLD) 7 ex_ref ex_bands 3600 ex_start ex_won"
    using ex_step by (rule r_into_rtranclp)
  moreover have "\<not> sp_resets (spec_of QUOTA_THRESHOLD)" by code_simp
  moreover have "dict_get (pr_ledger ex_start) (ref_id 7 ex_ref) = None" "pr_log ex_start = []"
    by (simp_all add: ex_start_def)
  ultimately show ?thesis using usage_alert_fires_once_per_band by blast
qed

text \<open>
  When several producers claim the same band of a row at the same time, in whatever order the
  database serves them, exactly the first one wins if the band is above the open incident's.
\<close>

lemma claim_band_one_winner:
  assumes "band_row tbl k" "numeric_12_4 b" "\<forall>c. open_band tbl k = Some c \<longrightarrow> c < b"
  shows "map snd (fst (gate_run gate_claim (gate_rearm cooldown_s) (map (\<lambda>i. Claim i k b) (i # callers)) tbl)) =
         True # replicate (length callers) False"
  using assms by (rule lg.one_winner)

text \<open>
  On a fresh view of the ledger the decision and the database agree: the evaluation decides FIRE
  exactly when the claim it then makes wins, for every band the column can hold.
\<close>

lemma decide_agrees_with_claim:
  assumes "band_row tbl (ref_id nid ref)" "numeric_12_4 (bd_value b)"
  shows "decide spec (Some b) (reread nid ref tbl) now cooldown_s = DEC_FIRE \<longleftrightarrow>
         (\<exists>s tbl'. claim_band now nid ref (bd_value b) e tbl = Inr (Some s, tbl'))"
  using claim_band_won_iff [OF assms] decide_fire_iff [OF assms(1)] by simp

text \<open>
  For a monitoring alert the decision RESET on a fresh view is taken exactly when the guarded
  UPDATE re-arms the row: the incident is open and at least the cooldown old.
\<close>

lemma decide_agrees_with_reset:
  assumes "sp_resets spec" "ledger_ok tbl" "length (lr_tenant_id ref) \<le> 255"
  shows "decide spec None (reread nid ref tbl) now cooldown_s = DEC_RESET \<longleftrightarrow>
         (\<exists>s tbl'. reset_band now nid ref cooldown_s tbl = Inr (Some s, tbl'))"
  using assms by (rule decide_reset_iff)

text \<open>
  A state event is claimed exactly when its new state differs from the one last produced for the
  row: the claim wins iff the stored hash is another one, the table then holds the new hash, and any
  repetition of the claim loses and changes nothing.
\<close>

lemma claim_state_fires_on_change:
  assumes "state_row tbl (ledger_id nid tenant subj)"
  shows "\<exists>tbl'. claim_state now nid tenant subj h e tbl = Inr (hash_at tbl (ledger_id nid tenant subj) \<noteq> Some h, tbl') \<and>
           hash_at tbl' (ledger_id nid tenant subj) = Some h \<and>
           (\<forall>now' e'. claim_state now' nid tenant subj h e' tbl' = Inr (False, tbl'))"
proof (cases "hash_at tbl (ledger_id nid tenant subj) = Some h")
  case True
  then show ?thesis by (simp add: claim_state_def sql_claim_state_lost)
next
  case False
  from sql_claim_state_won [OF assms False, of now e] obtain row where
    "sql_claim_state now (ledger_id nid tenant subj) h e tbl = Inr (Some row, dict_set (ledger_id nid tenant subj) row tbl)"
    "lg_state_hash row = Some h" by blast
  with False show ?thesis by (auto simp: claim_state_def sql_claim_state_lost)
qed

text \<open>
  A bulk claim of distinct rows wins exactly the claims whose state changed, in input order, and
  leaves every claimed row with its new hash and every other row alone.
\<close>

lemma claim_state_bulk_wins_changes:
  assumes "distinct (map (claim_id nid) claims)" "distinct (map sc_event_id claims)"
    and "\<forall>cl \<in> set claims. state_row tbl (claim_id nid cl)"
  shows "\<exists>tbl'. claim_state_bulk now nid claims tbl =
           Inr (filter (\<lambda>cl. hash_at tbl (claim_id nid cl) \<noteq> Some (sc_state_hash cl)) claims, tbl') \<and>
         (\<forall>k. hash_at tbl' k =
            (case find (\<lambda>cl. claim_id nid cl = k) claims of Some cl \<Rightarrow> Some (sc_state_hash cl) | None \<Rightarrow> hash_at tbl k))"
proof -
  let ?P = "\<lambda>cl. hash_at tbl (claim_id nid cl) \<noteq> Some (sc_state_hash cl)"
  obtain tbl' where run: "sql_claim_state_bulk now nid [] claims tbl = Inr (map sc_event_id (filter ?P claims), tbl')"
    and hash: "\<forall>k. hash_at tbl' k =
      (case find (\<lambda>cl. claim_id nid cl = k) claims of Some cl \<Rightarrow> Some (sc_state_hash cl) | None \<Rightarrow> hash_at tbl k)"
    using sql_bulk_wins [OF assms(1), of tbl "[]" now] assms(3) by auto
  have "sc_event_id cl \<in> set (map sc_event_id (filter ?P claims)) \<longleftrightarrow> ?P cl" if "cl \<in> set claims" for cl
    using that assms(2) by (auto simp: distinct_map inj_on_def)
  then have "filter (\<lambda>cl. sc_event_id cl \<in> set (map sc_event_id (filter ?P claims))) claims = filter ?P claims"
    by (intro filter_cong) simp_all
  then show ?thesis using run hash by (cases "claims = []") (auto simp: claim_state_bulk_def)
qed

definition ex_claims :: "StateClaim list" where
  "ex_claims = map (\<lambda>(t, e). \<lparr>sc_tenant_id = t, sc_subject = [], sc_state_hash = ''h1'', sc_event_id = e\<rparr>) [(''t1'', ''e1''), (''t2'', ''e2'')]"

end
