(* ===== verification/Billing.thy ===== *)
theory Billing
  imports Store
begin

text \<open>
  Pricing and the billing writes of the pay-per-use consumer
  (\<open>consumers/payperuse_consumer/_billing.py\<close>).  Money and units are decimals: \<open>dfix\<close> is the rounding
  of Python's decimal context, \<open>pg_numeric\<close> that of a numeric column.  The databases are records of
  tables; a statement that raises leaves them unchanged.
\<close>

section \<open>Constants\<close>

definition PRICING_CACHE_PREFIX :: string where "PRICING_CACHE_PREFIX = ''ppu:svc:''"
definition INFERENCE_TYPE_CACHE_PREFIX :: string where "INFERENCE_TYPE_CACHE_PREFIX = ''core:inference_type:''"
definition INFERENCE_TYPE_MEMO_TTL :: int where "INFERENCE_TYPE_MEMO_TTL = 300"
definition INFERENCE_TYPE_NEGATIVE_MEMO_TTL :: int where "INFERENCE_TYPE_NEGATIVE_MEMO_TTL = 300"
definition PRICING_CACHE_TTL :: int where "PRICING_CACHE_TTL = 3600"
definition BILLED_KEY_PREFIX :: string where "BILLED_KEY_PREFIX = ''ppu:billed:''"
definition BILLED_KEY_TTL :: int where "BILLED_KEY_TTL = 3600"

section \<open>Stores\<close>

text \<open>One row of \<open>mm_services\<close>, as far as billing reads it.\<close>

record ServiceRec =
  sv_task_type :: "string option"
  sv_unit_rate :: "rat option"
  sv_cost_per_unit :: "rat option"
  sv_unit_size :: "int option"
  sv_cached_input_cost_per_unit :: "rat option"
  sv_output_cost_per_unit :: "rat option"
  sv_deleted :: bool

record BudgetRow =
  bu_used :: rat
  bu_snap :: "rat option"

type_synonym quota_key = "string \<times> int option \<times> string \<times> string option"

record QuotaRow =
  qu_name :: string
  qu_snap :: "rat option"
  qu_used :: rat

record EventRow =
  ev_tenant_id :: "int option"
  ev_application_id :: "int option"
  ev_api_key_id :: "int option"
  ev_tier_id :: "string option"
  ev_service_id :: "string option"
  ev_inference_type_id :: "int option"
  ev_task_type :: string
  ev_unit :: "string option"
  ev_status_code :: "int option"
  ev_total_units :: rat
  ev_cached_input_units :: rat
  ev_output_units :: rat
  ev_input_cost :: rat
  ev_cached_input_cost :: rat
  ev_output_cost :: rat

definition ev_total_cost :: "EventRow \<Rightarrow> rat" where
  "ev_total_cost r = ev_input_cost r + ev_cached_input_cost r + ev_output_cost r"

record CoreDb =
  db_services :: "(string, ServiceRec) dict"
  db_types :: "(int, string \<times> string) dict"           \<comment> \<open>id, name, unit\<close>
  db_tiers :: "(string, string) dict"                 \<comment> \<open>uuid, name\<close>
  db_tier_quotas :: "(string \<times> int, rat) dict"         \<comment> \<open>tier, type, monthly quota\<close>
  db_budget :: "(int, BudgetRow) dict"                \<comment> \<open>by API key\<close>
  db_quota :: "(quota_key, QuotaRow) dict"            \<comment> \<open>tenant, type, month, tier\<close>
  db_events :: "(string \<times> datetime, EventRow) dict"    \<comment> \<open>correlation id, end time\<close>

record AuthDb =
  ad_tenants :: "(int, rat option \<times> datetime option \<times> datetime option) dict"
  ad_applications :: "(int \<times> int) list"               \<comment> \<open>application, tenant\<close>
  ad_api_keys :: "(int \<times> int) list"                   \<comment> \<open>key, application\<close>

datatype ppu_error = RedisError | DbError db_error | ValueError | HttpGaveUp

text \<open>Redis as this consumer uses it: hashes (pricing, inference types) and the dedup keys.\<close>

record Redis =
  rd_hash :: "(string, (string, string) dict \<times> expiry) dict"
  rd_str :: "(string, string \<times> expiry) dict"

record Process =
  pc_db :: CoreDb
  pc_redis :: Redis
  pc_memo :: "(string, int option \<times> int) dict"      \<comment> \<open>\<open>_inference_type_ids\<close>, expiry on the monotonic clock\<close>

text \<open>What goes wrong during one call, and its clocks (microseconds).\<close>

record Env =
  en_now :: datetime
  en_mono :: int
  en_no_redis :: bool            \<comment> \<open>\<open>get_redis_client\<close> raises\<close>
  en_exists_fails :: bool
  en_hgetall_fails :: bool
  en_pipeline_fails :: bool
  en_hget_fails :: bool
  en_set_fails :: bool
  en_pricing_fails :: bool
  en_type_fails :: bool
  en_write_fails :: bool
  en_event_fails :: bool
  en_commit_fails :: bool
  en_auth_fails :: bool
  en_partition :: "datetime \<Rightarrow> bool"   \<comment> \<open>\<open>usage_events\<close> has a partition for the instant\<close>

section \<open>Pricing\<close>

record ServicePricing =
  pr_task_type :: string
  pr_unit_rate :: "rat option"
  pr_cost_per_unit :: "rat option"
  pr_unit_size :: "int option"
  pr_cached_input_cost_per_unit :: "rat option"
  pr_output_cost_per_unit :: "rat option"

record LlmCost =
  lc_input_cost :: rat
  lc_cached_input_cost :: rat
  lc_output_cost :: rat

definition llm_total :: "LlmCost \<Rightarrow> rat" where
  "llm_total c = dfix (dfix (lc_input_cost c + lc_cached_input_cost c) + lc_output_cost c)"

text \<open>\<open>_decimal_or_none\<close> of a cached string; the inner \<open>None\<close> is \<open>InvalidOperation\<close>.\<close>

definition decimal_or_none :: "string option \<Rightarrow> rat option option" where
  "decimal_or_none v = (case v of None \<Rightarrow> Some None
      | Some s \<Rightarrow> if s = [] then Some None else map_option Some (decimal_of_str s))"

definition str_or_empty :: "rat option \<Rightarrow> string" where
  "str_or_empty v = (case v of Some x \<Rightarrow> decimal_str 8 x | None \<Rightarrow> [])"

definition int_or_none :: "string option \<Rightarrow> int option option" where
  "int_or_none v = (case v of None \<Rightarrow> Some None | Some s \<Rightarrow> if s = [] then Some None else map_option Some (int_of_str s))"

definition pricing_of_cache :: "(string, string) dict \<Rightarrow> ServicePricing option" where
  "pricing_of_cache h =
     (case (decimal_or_none (dict_get h ''unit_rate''), decimal_or_none (dict_get h ''cost_per_unit''),
            int_or_none (dict_get h ''unit_size''), decimal_or_none (dict_get h ''cached_input_cost_per_unit''),
            decimal_or_none (dict_get h ''output_cost_per_unit'')) of
        (Some ur, Some cpu, Some us, Some ci, Some oc) \<Rightarrow>
          Some \<lparr>pr_task_type = (case dict_get h ''task_type'' of Some t \<Rightarrow> t | None \<Rightarrow> []),
                pr_unit_rate = ur, pr_cost_per_unit = cpu, pr_unit_size = us,
                pr_cached_input_cost_per_unit = ci, pr_output_cost_per_unit = oc\<rparr>
      | _ \<Rightarrow> None)"

definition cache_of_pricing :: "ServicePricing \<Rightarrow> (string, string) dict" where
  "cache_of_pricing p =
     [(''task_type'', pr_task_type p),
      (''unit_rate'', str_or_empty (pr_unit_rate p)),
      (''cost_per_unit'', str_or_empty (pr_cost_per_unit p)),
      (''unit_size'', (case pr_unit_size p of Some n \<Rightarrow> show_int n | None \<Rightarrow> [])),
      (''cached_input_cost_per_unit'', str_or_empty (pr_cached_input_cost_per_unit p)),
      (''output_cost_per_unit'', str_or_empty (pr_output_cost_per_unit p))]"

definition pricing_of_row :: "ServiceRec \<Rightarrow> ServicePricing" where
  "pricing_of_row row =
     \<lparr>pr_task_type = (case sv_task_type row of Some t \<Rightarrow> t | None \<Rightarrow> []),
      pr_unit_rate = sv_unit_rate row, pr_cost_per_unit = sv_cost_per_unit row,
      pr_unit_size = (if sv_unit_size row = Some 0 then None else sv_unit_size row),
      pr_cached_input_cost_per_unit = sv_cached_input_cost_per_unit row,
      pr_output_cost_per_unit = sv_output_cost_per_unit row\<rparr>"

definition get_service_pricing :: "Env \<Rightarrow> string \<Rightarrow> Process \<Rightarrow> (ppu_error, ServicePricing option) res \<times> Process" where
  "get_service_pricing env service_id p =
     (let cache_key = PRICING_CACHE_PREFIX @ service_id;
          from_db =
            (if en_pricing_fails env then (Inl (DbError DB_Unavailable), p)
             else case dict_get (db_services (pc_db p)) service_id of
                    None \<Rightarrow> (Inr None, p)
                  | Some row \<Rightarrow>
                      if sv_deleted row then (Inr None, p)
                      else let pricing = pricing_of_row row in
                        if \<not> en_no_redis env \<and> pr_task_type pricing \<noteq> []
                        then (if en_pipeline_fails env then (Inl RedisError, p)
                              else (Inr (Some pricing),
                                    p\<lparr>pc_redis := (pc_redis p)\<lparr>rd_hash :=
                                        redis_setex (en_now env) cache_key (cache_of_pricing pricing) PRICING_CACHE_TTL
                                          (rd_hash (pc_redis p))\<rparr>\<rparr>))
                        else (Inr (Some pricing), p))
      in if en_no_redis env then from_db
         else if en_hgetall_fails env then (Inl RedisError, p)
         else case redis_get (en_now env) (rd_hash (pc_redis p)) cache_key of
                Some cached \<Rightarrow>
                  if cached \<noteq> []
                  then (case pricing_of_cache cached of Some pr \<Rightarrow> (Inr (Some pr), p) | None \<Rightarrow> (Inl ValueError, p))
                  else from_db
              | None \<Rightarrow> from_db)"

definition type_named :: "CoreDb \<Rightarrow> string \<Rightarrow> int option" where
  "type_named db name = map_option fst (find (\<lambda>(_, n, _). n = name) (db_types db))"

text \<open>
  The cached id of the Redis hash; a failing read or an unreadable id falls through, as does an
  absent or empty field.
\<close>

definition cached_type_id :: "Env \<Rightarrow> string \<Rightarrow> Process \<Rightarrow> int option" where
  "cached_type_id env normalized p =
     (if en_no_redis env \<or> en_hget_fails env then None
      else case redis_get (en_now env) (rd_hash (pc_redis p)) (INFERENCE_TYPE_CACHE_PREFIX @ normalized) of
             None \<Rightarrow> None
           | Some h \<Rightarrow> (case dict_get h ''id'' of None \<Rightarrow> None | Some s \<Rightarrow> if s = [] then None else int_of_str s))"

definition get_inference_type_id :: "Env \<Rightarrow> string \<Rightarrow> Process \<Rightarrow> (ppu_error, int option) res \<times> Process" where
  "get_inference_type_id env inference_name p =
     (if inference_name = [] then (Inr None, p)
      else let normalized = lower inference_name in
        case cached_type_id env normalized p of
          Some i \<Rightarrow> (Inr (Some i), p)
        | None \<Rightarrow>
            let from_db =
              (if en_type_fails env then (Inl (DbError DB_Unavailable), p)
               else let type_id = type_named (pc_db p) normalized;
                        ttl = (if type_id \<noteq> None then INFERENCE_TYPE_MEMO_TTL else INFERENCE_TYPE_NEGATIVE_MEMO_TTL)
                    in (Inr type_id, p\<lparr>pc_memo := dict_set normalized (type_id, en_mono env + ttl * 1000000) (pc_memo p)\<rparr>))
            in case dict_get (pc_memo p) normalized of
                 Some (i, until) \<Rightarrow> if en_mono env < until then (Inr i, p) else from_db
               | None \<Rightarrow> from_db)"

section \<open>Costs\<close>

text \<open>\<open>x or y\<close> on an optional decimal: zero counts as absent.\<close>

definition nonzero :: "rat option \<Rightarrow> rat option" where
  "nonzero v = (case v of Some x \<Rightarrow> if x = 0 then None else Some x | None \<Rightarrow> None)"

definition per_unit_rate :: "rat option \<Rightarrow> ServicePricing \<Rightarrow> rat option" where
  "per_unit_rate price pricing =
     (case (price, pr_unit_size pricing) of
        (Some x, Some n) \<Rightarrow> if n = 0 then None else Some (dfix (x / of_int n))
      | _ \<Rightarrow> None)"

definition input_rate :: "ServicePricing \<Rightarrow> rat" where
  "input_rate pricing =
     (case nonzero (pr_unit_rate pricing) of
        Some r \<Rightarrow> r
      | None \<Rightarrow> (case nonzero (per_unit_rate (pr_cost_per_unit pricing) pricing) of Some r \<Rightarrow> r | None \<Rightarrow> 0))"

definition clamp_cached :: "rat \<Rightarrow> rat \<Rightarrow> rat" where
  "clamp_cached cached input_tokens = min (max cached 0) input_tokens"

definition calculate_llm_cost :: "rat \<Rightarrow> rat \<Rightarrow> rat \<Rightarrow> ServicePricing \<Rightarrow> LlmCost" where
  "calculate_llm_cost input_tokens cached_input_tokens output_tokens pricing =
     (let cached = clamp_cached cached_input_tokens input_tokens;
          uncached = dfix (input_tokens - cached);
          ir = input_rate pricing;
          cr = per_unit_rate (pr_cached_input_cost_per_unit pricing) pricing;
          orate = per_unit_rate (pr_output_cost_per_unit pricing) pricing
      in \<lparr>lc_input_cost = dfix (uncached * ir),
          lc_cached_input_cost = dfix (cached * (case cr of None \<Rightarrow> ir | Some r \<Rightarrow> r)),
          lc_output_cost = dfix (output_tokens * (case orate of None \<Rightarrow> ir | Some r \<Rightarrow> r))\<rparr>)"

definition calculate_cost :: "rat \<Rightarrow> ServicePricing \<Rightarrow> rat" where
  "calculate_cost total_units pricing =
     (case nonzero (pr_unit_rate pricing) of
        Some r \<Rightarrow> dfix (total_units * r)
      | None \<Rightarrow>
          (case (nonzero (pr_cost_per_unit pricing), pr_unit_size pricing) of
             (Some cpu, Some n) \<Rightarrow> if n = 0 then 0 else dfix (dfix (total_units / of_int n) * cpu)
           | _ \<Rightarrow> 0))"

section \<open>The fused budget and quota write\<close>

record BillingWriteResult =
  bw_budget_used :: rat
  bw_budget_snap :: "rat option"
  bw_tier_id :: "string option"
  bw_budget_exhausted :: bool
  bw_quota_recorded :: bool
  bw_quota_exhausted :: bool
  bw_quota_used :: "rat option"
  bw_quota_snap :: "rat option"

text \<open>The CTE \<open>budget_update\<close>: no row, no update.\<close>

definition budget_update :: "int \<Rightarrow> rat \<Rightarrow> CoreDb \<Rightarrow> (db_error, BudgetRow option \<times> CoreDb) res" where
  "budget_update api_key_id cost db =
     (case dict_get (db_budget db) api_key_id of
        None \<Rightarrow> Inr (None, db)
      | Some row \<Rightarrow>
          (case pg_numeric 15 2 (bu_used row + cost) of
             None \<Rightarrow> Inl DB_NumericOverflow
           | Some used \<Rightarrow>
               let row' = row\<lparr>bu_used := used\<rparr>
               in Inr (Some row', db\<lparr>db_budget := dict_set api_key_id row' (db_budget db)\<rparr>)))"

text \<open>
  The CTE \<open>quota_upsert\<close>: the row of the tier's quota for the type, inserted or added to.  A row of
  the month under the same name but another (or no) type id meets the older unique constraint.
\<close>

definition quota_upsert ::
  "string \<Rightarrow> int option \<Rightarrow> string \<Rightarrow> rat \<Rightarrow> string option \<Rightarrow> CoreDb \<Rightarrow> (db_error, (QuotaRow \<times> string) option \<times> CoreDb) res" where
  "quota_upsert tenant_id type_id billing_month units tier_id db =
     (case (tier_id, type_id) of
        (Some tier, Some ty) \<Rightarrow>
          (case uuid_of tier of
             None \<Rightarrow> Inl DB_BadUuid
           | Some u \<Rightarrow>
               (case (dict_get (db_tier_quotas db) (u, ty), dict_get (db_types db) ty) of
                  (Some monthly_quota, Some (name, _)) \<Rightarrow>
                    if 255 < length tenant_id \<or> 7 < length billing_month then Inl DB_ValueTooLong
                    else (case pg_numeric 16 4 units of
                       None \<Rightarrow> Inl DB_NumericOverflow
                     | Some add \<Rightarrow>
                         let k = (tenant_id, Some ty, billing_month, Some u) in
                         (case dict_get (db_quota db) k of
                            Some row \<Rightarrow>
                              (case pg_numeric 16 4 (qu_used row + add) of
                                 None \<Rightarrow> Inl DB_NumericOverflow
                               | Some used \<Rightarrow>
                                   let row' = row\<lparr>qu_used := used, qu_name := name\<rparr>
                                   in Inr (Some (row', u), db\<lparr>db_quota := dict_set k row' (db_quota db)\<rparr>))
                          | None \<Rightarrow>
                              if list_ex (\<lambda>((t, _, mo, ti), r). t = tenant_id \<and> qu_name r = name \<and> mo = billing_month \<and> ti = Some u)
                                   (db_quota db)
                              then Inl DB_UniqueViolation
                              else let row' = \<lparr>qu_name = name, qu_snap = Some monthly_quota, qu_used = add\<rparr>
                                   in Inr (Some (row', u), db\<lparr>db_quota := dict_set k row' (db_quota db)\<rparr>)))
                | _ \<Rightarrow> Inr (None, db)))
      | (Some tier, None) \<Rightarrow> (if uuid_of tier = None then Inl DB_BadUuid else Inr (None, db))
      | (None, _) \<Rightarrow> Inr (None, db))"

definition fused_write ::
  "string \<Rightarrow> string \<Rightarrow> rat \<Rightarrow> rat \<Rightarrow> int \<Rightarrow> string option \<Rightarrow> int option \<Rightarrow> CoreDb
     \<Rightarrow> (db_error, (BudgetRow option \<times> (QuotaRow \<times> string) option) \<times> CoreDb) res" where
  "fused_write tenant_id billing_month units cost api_key_id tier_id type_id db =
     (if \<not> int4 api_key_id \<or> \<not> pred_option int4 type_id then Inl DB_OutOfRange
      else case budget_update api_key_id cost db of
             Inl e \<Rightarrow> Inl e
           | Inr (b, db1) \<Rightarrow>
               (case quota_upsert tenant_id type_id billing_month units tier_id db1 of
                  Inl e \<Rightarrow> Inl e
                | Inr (q, db2) \<Rightarrow> Inr ((b, q), db2)))"

text \<open>A quota row without a ceiling cannot be compared: \<open>TypeError\<close>.\<close>

definition write_result :: "BudgetRow option \<Rightarrow> (QuotaRow \<times> string) option \<Rightarrow> string option \<Rightarrow> BillingWriteResult option" where
  "write_result b q tier_id =
     (let budget_used = (case b of Some r \<Rightarrow> bu_used r | None \<Rightarrow> 0);
          budget_snap = (case b of Some r \<Rightarrow> bu_snap r | None \<Rightarrow> None);
          tier = (case q of Some (_, u) \<Rightarrow> Some u | None \<Rightarrow> if tier_id = Some [] then None else tier_id);
          budget_exhausted = (case budget_snap of None \<Rightarrow> False | Some s \<Rightarrow> s \<le> budget_used);
          mk = (\<lambda>rec exh used snap.
             \<lparr>bw_budget_used = budget_used, bw_budget_snap = budget_snap, bw_tier_id = tier,
              bw_budget_exhausted = budget_exhausted, bw_quota_recorded = rec, bw_quota_exhausted = exh,
              bw_quota_used = used, bw_quota_snap = snap\<rparr>)
      in case q of
           None \<Rightarrow> Some (mk False True None None)
         | Some (r, _) \<Rightarrow>
             (case qu_snap r of
                None \<Rightarrow> None
              | Some s \<Rightarrow> Some (mk True (s \<le> qu_used r) (Some (qu_used r)) (Some s))))"

definition deduct_balance_and_update_quota ::
  "Env \<Rightarrow> string \<Rightarrow> string \<Rightarrow> rat \<Rightarrow> rat \<Rightarrow> int \<Rightarrow> string option \<Rightarrow> int option \<Rightarrow> CoreDb
     \<Rightarrow> (ppu_error, BillingWriteResult \<times> CoreDb) res" where
  "deduct_balance_and_update_quota env tenant_id billing_month units cost api_key_id tier_id type_id db =
     (if en_write_fails env then Inl (DbError DB_Unavailable)
      else case fused_write tenant_id billing_month units cost api_key_id tier_id type_id db of
             Inl e \<Rightarrow> Inl (DbError e)
           | Inr ((b, q), db') \<Rightarrow>
               (case write_result b q tier_id of None \<Rightarrow> Inl ValueError | Some w \<Rightarrow> Inr (w, db')))"

section \<open>Usage events\<close>

record UsageEvent =
  ue_correlation_id :: string
  ue_occurred_at :: datetime
  ue_tenant_id :: "int option"
  ue_application_id :: "int option"
  ue_api_key_id :: "int option"
  ue_tier_id :: "string option"
  ue_service_id :: string
  ue_inference_type_id :: "int option"
  ue_task_type :: string
  ue_status_code :: "int option"
  ue_total_units :: rat
  ue_cached_input_units :: rat
  ue_output_units :: rat
  ue_input_units_cost :: rat
  ue_cached_input_units_cost :: rat
  ue_output_units_cost :: rat

definition event_row :: "CoreDb \<Rightarrow> UsageEvent \<Rightarrow> rat \<times> rat \<times> rat \<Rightarrow> EventRow" where
  "event_row db e costs =
     \<lparr>ev_tenant_id = ue_tenant_id e, ev_application_id = ue_application_id e, ev_api_key_id = ue_api_key_id e,
      ev_tier_id = Option.bind (ue_tier_id e) (\<lambda>t. Option.bind (uuid_of t) (\<lambda>u. if dict_get (db_tiers db) u = None then None else Some u)),
      ev_service_id = (if dict_get (db_services db) (ue_service_id e) = None then None else Some (ue_service_id e)),
      ev_inference_type_id = ue_inference_type_id e, ev_task_type = ue_task_type e,
      ev_unit = Option.bind (ue_inference_type_id e) (\<lambda>i. map_option snd (dict_get (db_types db) i)),
      ev_status_code = ue_status_code e, ev_total_units = ue_total_units e,
      ev_cached_input_units = ue_cached_input_units e, ev_output_units = ue_output_units e,
      ev_input_cost = fst costs, ev_cached_input_cost = fst (snd costs), ev_output_cost = snd (snd costs)\<rparr>"

definition ck_units :: "UsageEvent \<Rightarrow> bool" where
  "ck_units e \<longleftrightarrow> 0 \<le> ue_cached_input_units e \<and> 0 \<le> ue_output_units e \<and>
     ue_cached_input_units e + ue_output_units e \<le> ue_total_units e"

definition insert_usage_event :: "Env \<Rightarrow> UsageEvent \<Rightarrow> CoreDb \<Rightarrow> (db_error, CoreDb) res" where
  "insert_usage_event env e db =
     (if \<not> (pred_option int4 (ue_tenant_id e) \<and> pred_option int4 (ue_application_id e) \<and> pred_option int4 (ue_api_key_id e) \<and>
            pred_option int4 (ue_inference_type_id e) \<and> pred_option int2 (ue_status_code e)) then Inl DB_OutOfRange
      else if ue_tier_id e \<noteq> None \<and> Option.bind (ue_tier_id e) uuid_of = None then Inl DB_BadUuid
      else if 64 < length (ue_correlation_id e) \<or> 64 < length (ue_task_type e) then Inl DB_ValueTooLong
      else case (pg_numeric 18 6 (ue_input_units_cost e), pg_numeric 18 6 (ue_cached_input_units_cost e),
                 pg_numeric 18 6 (ue_output_units_cost e)) of
        (Some a, Some b, Some c) \<Rightarrow>
          if pg_numeric 18 6 (a + b + c) = None then Inl DB_NumericOverflow
          else if \<not> en_partition env (ue_occurred_at e) then Inl DB_NoPartition
          else if \<not> ck_units e then Inl DB_CheckViolation
          else let k = (ue_correlation_id e, ue_occurred_at e) in
            if dict_get (db_events db) k \<noteq> None then Inr db
            else if (case ue_inference_type_id e of None \<Rightarrow> False | Some i \<Rightarrow> dict_get (db_types db) i = None) then Inl DB_ForeignKey
            else Inr (db\<lparr>db_events := dict_set k (event_row db e (a, b, c)) (db_events db)\<rparr>)
      | _ \<Rightarrow> Inl DB_NumericOverflow)"

text \<open>Inside a savepoint: a failing insert leaves the rest of the transaction alone.\<close>

definition record_usage_event :: "Env \<Rightarrow> UsageEvent \<Rightarrow> CoreDb \<Rightarrow> bool \<times> CoreDb" where
  "record_usage_event env e db =
     (if en_event_fails env then (False, db)
      else case insert_usage_event env e db of Inl _ \<Rightarrow> (False, db) | Inr db' \<Rightarrow> (True, db'))"

section \<open>The tenant's budget\<close>

record TenantBudgetStatus =
  tb_used :: rat
  tb_snap :: "rat option"
  tb_effective_from :: "datetime option"
  tb_effective_to :: "datetime option"

definition keys_of_tenant :: "AuthDb \<Rightarrow> int \<Rightarrow> int list" where
  "keys_of_tenant auth tenant =
     concat (map (\<lambda>(app, t). if t = tenant then map fst (filter (\<lambda>(_, a). a = app) (ad_api_keys auth)) else []) (ad_applications auth))"

definition fetch_tenant_budget_status ::
  "Env \<Rightarrow> AuthDb \<Rightarrow> CoreDb \<Rightarrow> string \<Rightarrow> (db_error, TenantBudgetStatus option) res" where
  "fetch_tenant_budget_status env auth core tenant_id =
     (if \<not> isdigit tenant_id then Inr None
      else if en_auth_fails env then Inl DB_Unavailable
      else let t = int (read_digits tenant_id) in
        if \<not> int4 t then Inl DB_OutOfRange
        else case dict_get (ad_tenants auth) t of
          None \<Rightarrow> Inr None
        | Some (None, _) \<Rightarrow> Inr None
        | Some (Some allocated_budget, effective_from, effective_to) \<Rightarrow>
            let key_ids = keys_of_tenant auth t;
                used = (\<Sum>(k, row) \<leftarrow> db_budget core. if k \<in> set key_ids then bu_used row else 0)
            in Inr (Some \<lparr>tb_used = used, tb_snap = Some allocated_budget,
                          tb_effective_from = effective_from, tb_effective_to = effective_to\<rparr>))"

section \<open>Messages\<close>

definition AI_INFERENCE_SPAN :: string where "AI_INFERENCE_SPAN = ''ai-inference''"
definition REQUEST_SPAN :: string where "REQUEST_SPAN = ''request''"

text \<open>
  A message carries its payload as parsed by \<open>json.loads\<close>: \<open>PEmpty\<close> for no bytes, \<open>PBad\<close> for bytes
  that are no JSON.
\<close>

datatype payload = PEmpty | PBad | PJson json

definition get_billing_data :: "payload \<Rightarrow> (ppu_error, (string, json) dict option) res" where
  "get_billing_data p =
     (case p of
        PEmpty \<Rightarrow> Inr None
      | PBad \<Rightarrow> Inr None
      | PJson (JObj data) \<Rightarrow>
          (let span_name = jget_default data ''name'' (JStr [])
           in if span_name = JStr AI_INFERENCE_SPAN \<or> span_name = JStr REQUEST_SPAN then Inr (Some data) else Inr None)
      | PJson _ \<Rightarrow> Inl ValueError)"

definition get_billed_key :: "string \<Rightarrow> string \<Rightarrow> string" where
  "get_billed_key correlation_id span_id =
     (if correlation_id \<noteq> [] then BILLED_KEY_PREFIX @ correlation_id @ '':'' @ span_id else [])"

text \<open>The strict test \<open>is_already_billed is False\<close>: an undecided check writes nothing.\<close>

definition update_billing_on_cache :: "Env \<Rightarrow> bool option \<Rightarrow> string \<Rightarrow> Process \<Rightarrow> Process" where
  "update_billing_on_cache env is_already_billed billed_key p =
     (if is_already_billed \<noteq> Some False then p
      else if en_no_redis env \<or> en_set_fails env then p
      else p\<lparr>pc_redis := (pc_redis p)\<lparr>rd_str := redis_setex (en_now env) billed_key ''1'' BILLED_KEY_TTL (rd_str (pc_redis p))\<rparr>\<rparr>)"

section \<open>The pricing cache is transparent\<close>

text \<open>Prices are \<open>Numeric(16,8)\<close> and not negative.\<close>

definition price_ok :: "rat option \<Rightarrow> bool" where
  "price_ok v = pred_option (\<lambda>x. 0 \<le> x \<and> x < 10 ^ 8 \<and> has_scale 8 x) v"

definition pricing_ok :: "ServicePricing \<Rightarrow> bool" where
  "pricing_ok p \<longleftrightarrow> price_ok (pr_unit_rate p) \<and> price_ok (pr_cost_per_unit p) \<and>
     price_ok (pr_cached_input_cost_per_unit p) \<and> price_ok (pr_output_cost_per_unit p) \<and>
     pred_option (\<lambda>n. 0 < n) (pr_unit_size p)"

lemma decimal_or_none_round_trip: "price_ok v \<Longrightarrow> decimal_or_none (Some (str_or_empty v)) = Some v"
  by (cases v) (simp_all add: decimal_or_none_def str_or_empty_def price_ok_def decimal_str_round_trip)

lemma int_or_none_round_trip:
  "pred_option (\<lambda>n. 0 < n) v \<Longrightarrow> int_or_none (Some (case v of Some n \<Rightarrow> show_int n | None \<Rightarrow> [])) = Some v"
  by (cases v) (simp_all add: int_or_none_def show_int_def)

lemma pricing_round_trip: "pricing_ok p \<Longrightarrow> pricing_of_cache (cache_of_pricing p) = Some p"
  using decimal_or_none_round_trip int_or_none_round_trip
  by (simp add: pricing_of_cache_def cache_of_pricing_def pricing_ok_def)

section \<open>Costs\<close>

lemma nonzero_cases: "nonzero v = (if v = Some 0 then None else v)"
  by (cases v) (simp_all add: nonzero_def)

lemma per_unit_rate_nonneg: "pricing_ok p \<Longrightarrow> price_ok x \<Longrightarrow> per_unit_rate x p = Some r \<Longrightarrow> 0 \<le> r"
  by (auto simp: per_unit_rate_def pricing_ok_def price_ok_def split: option.splits if_splits)

lemma input_rate_nonneg: "pricing_ok p \<Longrightarrow> 0 \<le> input_rate p"
proof -
  assume p: "pricing_ok p"
  then have "pr_unit_rate p = Some x \<Longrightarrow> 0 \<le> x" for x by (simp add: pricing_ok_def price_ok_def)
  moreover have "per_unit_rate (pr_cost_per_unit p) p = Some x \<Longrightarrow> 0 \<le> x" for x
    using p by (intro per_unit_rate_nonneg [OF p]) (simp_all add: pricing_ok_def)
  ultimately show "0 \<le> input_rate p"
    by (simp add: input_rate_def nonzero_cases split: option.split)
qed

definition rate_or :: "rat \<Rightarrow> rat option \<Rightarrow> rat" where
  "rate_or ir r = (case r of None \<Rightarrow> ir | Some x \<Rightarrow> x)"

lemma rates_nonneg:
  assumes "pricing_ok p"
  shows "0 \<le> rate_or (input_rate p) (per_unit_rate (pr_cached_input_cost_per_unit p) p)"
    "0 \<le> rate_or (input_rate p) (per_unit_rate (pr_output_cost_per_unit p) p)"
  using assms input_rate_nonneg [OF assms] per_unit_rate_nonneg [OF assms, of "pr_cached_input_cost_per_unit p"]
    per_unit_rate_nonneg [OF assms, of "pr_output_cost_per_unit p"]
  by (auto simp: rate_or_def pricing_ok_def split: option.splits)

lemma llm_cost_fields:
  "calculate_llm_cost i c out p =
     \<lparr>lc_input_cost = dfix (dfix (i - clamp_cached c i) * input_rate p),
      lc_cached_input_cost = dfix (clamp_cached c i * rate_or (input_rate p) (per_unit_rate (pr_cached_input_cost_per_unit p) p)),
      lc_output_cost = dfix (out * rate_or (input_rate p) (per_unit_rate (pr_output_cost_per_unit p) p))\<rparr>"
  by (simp add: calculate_llm_cost_def rate_or_def Let_def)

lemma clamp_bounds: "0 \<le> i \<Longrightarrow> 0 \<le> clamp_cached c i \<and> clamp_cached c i \<le> i"
  by (auto simp: clamp_cached_def)

lemma clamp_mono: "i \<le> i' \<Longrightarrow> clamp_cached c i \<le> clamp_cached c i' \<and> i - clamp_cached c i \<le> i' - clamp_cached c i'"
  by (auto simp: clamp_cached_def min_def max_def)

lemma dfix_scaled:
  assumes "has_scale 8 x" "\<bar>x\<bar> < 10 ^ 20" shows "dfix x = x"
proof -
  obtain m where m: "x = of_int m / 10 ^ 8" using assms(1) by (auto simp: has_scale_iff)
  then have "of_int \<bar>m\<bar> < (10 :: rat) ^ 20 * 10 ^ 8"
    using assms(2) by (simp only: abs_divide of_int_abs) (simp add: divide_less_eq)
  also have "\<dots> = of_int (10 ^ 28)" by simp
  finally have "of_int \<bar>m\<bar> < (of_int (10 ^ 28) :: rat)" .
  then have "\<bar>m\<bar> < 10 ^ 28" by (simp only: of_int_less_iff)
  note exact = dfix_exact [OF this, of "-8"]
  have "x = of_int m * 10 powi (-8)" unfolding m by (simp add: power_int_minus)
  then show ?thesis using exact by metis
qed

lemma has_scale_mult_int: "has_scale s x \<Longrightarrow> has_scale s (of_int n * x)"
  unfolding has_scale_iff by (metis of_int_mult times_divide_eq_right)

lemma has_scale_int: "has_scale s (of_int n)"
  unfolding has_scale_iff by (intro exI [of _ "n * 10 ^ s"]) simp

lemma tokens_cost_exact:
  assumes "0 \<le> n" "n < 10 ^ 12" "price_ok (Some r)"
  shows "dfix (of_int n * r) = of_int n * r" "0 \<le> of_int n * r" "of_int n * r < 10 ^ 20"
proof -
  have r: "0 \<le> r" "r < 10 ^ 8" "has_scale 8 r" using assms(3) by (simp_all add: price_ok_def)
  have "(of_int n :: rat) < of_int (10 ^ 12)" using assms(2) by (simp only: of_int_less_iff)
  then have n: "0 \<le> (of_int n :: rat)" "(of_int n :: rat) < 10 ^ 12"
    using assms(1) by simp_all
  show nonneg: "0 \<le> of_int n * r" using r n by simp
  have "of_int n * r < 10 ^ 12 * 10 ^ 8" using r n by (intro mult_strict_mono) auto
  then show small: "of_int n * r < 10 ^ 20" by simp
  show "dfix (of_int n * r) = of_int n * r"
    using nonneg small r by (intro dfix_scaled has_scale_mult_int) auto
qed

section \<open>What the writes keep\<close>

definition budget_of :: "CoreDb \<Rightarrow> int \<Rightarrow> BudgetRow option" where
  "budget_of db k = dict_get (db_budget db) k"

definition quota_of :: "CoreDb \<Rightarrow> quota_key \<Rightarrow> QuotaRow option" where
  "quota_of db k = dict_get (db_quota db) k"

text \<open>The tables the writes only read.\<close>

definition same_catalogue :: "CoreDb \<Rightarrow> CoreDb \<Rightarrow> bool" where
  "same_catalogue db db' \<longleftrightarrow> db_services db' = db_services db \<and> db_types db' = db_types db \<and>
     db_tiers db' = db_tiers db \<and> db_tier_quotas db' = db_tier_quotas db \<and> db_events db' = db_events db"

lemma budget_update_spec:
  assumes "budget_update k cost db = Inr (b, db')"
  shows "b = map_option (\<lambda>row. row\<lparr>bu_used := pg_round 2 (bu_used row + cost)\<rparr>) (budget_of db k)"
    "budget_of db' k' = (if k' = k then b else budget_of db k')" "db_quota db' = db_quota db" "same_catalogue db db'"
  using assms pg_numeric_Some
  by (auto simp: budget_update_def budget_of_def same_catalogue_def Let_def split: option.splits)

lemma quota_upsert_cases:
  assumes "quota_upsert tenant ty month units tier db = Inr (q, db')"
  obtains (none) "q = None" "db' = db"
  | (some) row u name add i where "q = Some (row, u)" "tier \<noteq> None" "Option.bind tier uuid_of = Some u" "ty = Some i"
      "add = pg_round 4 units" "db' = db\<lparr>db_quota := dict_set (tenant, Some i, month, Some u) row (db_quota db)\<rparr>"
      "case quota_of db (tenant, Some i, month, Some u) of
         Some old \<Rightarrow> row = old\<lparr>qu_used := pg_round 4 (qu_used old + add), qu_name := name\<rparr>
       | None \<Rightarrow> dict_get (db_tier_quotas db) (u, i) \<noteq> None \<and>
                 row = \<lparr>qu_name = name, qu_snap = dict_get (db_tier_quotas db) (u, i), qu_used = add\<rparr>"
  using assms pg_numeric_Some
  by (auto simp: quota_upsert_def quota_of_def Let_def split: option.splits if_splits prod.splits)

lemma quota_upsert_frame:
  assumes "quota_upsert tenant ty month units tier db = Inr (q, db')"
  shows "db_budget db' = db_budget db" "same_catalogue db db'"
    "k \<noteq> (tenant, ty, month, Option.bind tier uuid_of) \<Longrightarrow> quota_of db' k = quota_of db k"
  using assms by (auto elim!: quota_upsert_cases simp: same_catalogue_def quota_of_def)

lemma fused_write_cases:
  assumes "fused_write tenant month units cost key tier ty db = Inr ((b, q), db')"
  obtains db1 where "budget_update key cost db = Inr (b, db1)" "quota_upsert tenant ty month units tier db1 = Inr (q, db')"
  using assms by (auto simp: fused_write_def split: if_splits sum.splits)

lemma same_catalogue_trans: "same_catalogue a b \<Longrightarrow> same_catalogue b c \<Longrightarrow> same_catalogue a c"
  by (simp add: same_catalogue_def)

lemma fused_write_spec:
  assumes "fused_write tenant month units cost key tier ty db = Inr ((b, q), db')"
  shows "b = map_option (\<lambda>row. row\<lparr>bu_used := pg_round 2 (bu_used row + cost)\<rparr>) (budget_of db key)"
    "budget_of db' k = (if k = key then b else budget_of db k)"
    "same_catalogue db db'"
    "qk \<noteq> (tenant, ty, month, Option.bind tier uuid_of) \<Longrightarrow> quota_of db' qk = quota_of db qk"
proof -
  obtain db1 where 1: "budget_update key cost db = Inr (b, db1)" "quota_upsert tenant ty month units tier db1 = Inr (q, db')"
    using assms by (rule fused_write_cases)
  show "b = map_option (\<lambda>row. row\<lparr>bu_used := pg_round 2 (bu_used row + cost)\<rparr>) (budget_of db key)"
    using budget_update_spec(1) [OF 1(1)] .
  show "budget_of db' k = (if k = key then b else budget_of db k)"
    using budget_update_spec(2) [OF 1(1)] quota_upsert_frame(1) [OF 1(2)] by (simp add: budget_of_def)
  show "same_catalogue db db'"
    using budget_update_spec(4) [OF 1(1)] quota_upsert_frame(2) [OF 1(2)] by (rule same_catalogue_trans)
  show "quota_of db' qk = quota_of db qk" if "qk \<noteq> (tenant, ty, month, Option.bind tier uuid_of)"
    using budget_update_spec(3) [OF 1(1)] quota_upsert_frame(3) [OF 1(2) that] by (simp add: quota_of_def)
qed

text \<open>A month of quota writes for one tenant, type and tier.\<close>

fun upserts :: "string \<Rightarrow> int option \<Rightarrow> string \<Rightarrow> string option \<Rightarrow> rat list \<Rightarrow> CoreDb \<Rightarrow> (db_error, CoreDb) res" where
  "upserts tenant ty month tier [] db = Inr db"
| "upserts tenant ty month tier (u # us) db =
     (case quota_upsert tenant ty month u tier db of
        Inl e \<Rightarrow> Inl e
      | Inr (_, db') \<Rightarrow> upserts tenant ty month tier us db')"

definition quota_used_at :: "CoreDb \<Rightarrow> quota_key \<Rightarrow> rat" where
  "quota_used_at db k = (case quota_of db k of Some r \<Rightarrow> qu_used r | None \<Rightarrow> 0)"

definition quota_scaled :: "CoreDb \<Rightarrow> quota_key \<Rightarrow> bool" where
  "quota_scaled db k \<longleftrightarrow> pred_option (\<lambda>r. 0 \<le> qu_used r \<and> has_scale 4 (qu_used r)) (quota_of db k)"

lemma upsert_adds:
  assumes "quota_upsert tenant (Some i) month u (Some tier) db = Inr (Some r, db')"
    and "uuid_of tier = Some t" "quota_scaled db (tenant, Some i, month, Some t)" "0 \<le> u"
  shows "quota_used_at db' (tenant, Some i, month, Some t) = quota_used_at db (tenant, Some i, month, Some t) + pg_round 4 u"
    "quota_scaled db' (tenant, Some i, month, Some t)"
proof -
  let ?k = "(tenant, Some i, month, Some t)"
  obtain row name where row: "quota_of db' ?k = Some row"
    and old: "case quota_of db ?k of
        Some o' \<Rightarrow> row = o'\<lparr>qu_used := pg_round 4 (qu_used o' + pg_round 4 u), qu_name := name\<rparr>
      | None \<Rightarrow> row = \<lparr>qu_name = name, qu_snap = dict_get (db_tier_quotas db) (t, i), qu_used = pg_round 4 u\<rparr>"
    using assms(1,2) by (auto elim!: quota_upsert_cases simp: quota_of_def split: option.splits)
  have add: "pg_round 4 (x + pg_round 4 u) = x + pg_round 4 u" if "has_scale 4 x" for x
    using that by (intro pg_round_id has_scale_add) simp_all
  show "quota_used_at db' ?k = quota_used_at db ?k + pg_round 4 u"
    using old add assms(3) by (cases "quota_of db ?k") (auto simp: row quota_used_at_def quota_scaled_def)
  show "quota_scaled db' ?k"
    using old add assms(3,4) pg_round_nonneg [of u 4] by (cases "quota_of db ?k") (auto simp: row quota_scaled_def has_scale_add)
qed

definition entitled :: "CoreDb \<Rightarrow> string \<Rightarrow> int \<Rightarrow> bool" where
  "entitled db t i \<longleftrightarrow> dict_get (db_tier_quotas db) (t, i) \<noteq> None \<and> dict_get (db_types db) i \<noteq> None"

lemma upsert_recorded:
  "quota_upsert tenant (Some i) month u (Some tier) db = Inr (q, db') \<Longrightarrow> uuid_of tier = Some t \<Longrightarrow> entitled db t i \<Longrightarrow>
     q \<noteq> None \<and> entitled db' t i"
  by (auto simp: quota_upsert_def entitled_def Let_def split: option.splits if_splits)

lemma upserts_add:
  assumes "upserts tenant (Some i) month (Some tier) us db = Inr db'" "uuid_of tier = Some t" "entitled db t i"
    and "quota_scaled db (tenant, Some i, month, Some t)" "\<forall>u \<in> set us. 0 \<le> u"
  shows "quota_used_at db' (tenant, Some i, month, Some t) =
         quota_used_at db (tenant, Some i, month, Some t) + (\<Sum>u \<leftarrow> us. pg_round 4 u)"
  using assms(1,3,4,5)
proof (induction us arbitrary: db)
  case (Cons u us)
  obtain q db1 where up: "quota_upsert tenant (Some i) month u (Some tier) db = Inr (q, db1)"
    and rest: "upserts tenant (Some i) month (Some tier) us db1 = Inr db'"
    using Cons.prems(1) by (auto split: sum.splits prod.splits)
  obtain r where q: "q = Some r" and ent: "entitled db1 t i"
    using upsert_recorded [OF up assms(2) Cons.prems(2)] by auto
  show ?case
    using Cons.IH [OF rest ent] upsert_adds [OF up [unfolded q] assms(2) Cons.prems(3)] Cons.prems(4) by simp
qed simp

lemma budget_update_small:
  assumes "budget_of db k = Some row" "0 \<le> bu_used row" "has_scale 2 (bu_used row)" "bu_used row < 10 ^ 13"
    and "0 \<le> cost" "cost < 1 / 200"
  shows "budget_update k cost db = Inr (Some row, db\<lparr>db_budget := dict_set k row (db_budget db)\<rparr>)"
proof -
  have "pg_round 2 (bu_used row + cost) = bu_used row + pg_round 2 cost"
    using assms by (intro pg_round_add_scaled) simp_all
  also have "pg_round 2 cost = 0" using assms(5,6) by (intro pg_round_small) simp_all
  finally have "pg_round 2 (bu_used row + cost) = bu_used row" by simp
  then have "pg_numeric 15 2 (bu_used row + cost) = Some (bu_used row)"
    using assms(2,4) by (simp add: pg_numeric_def)
  then show ?thesis using assms(1) by (simp add: budget_update_def budget_of_def)
qed

lemma insert_again:
  assumes "insert_usage_event env e db = Inr db'" shows "insert_usage_event env e db' = Inr db'"
  using assms
  by (auto simp: insert_usage_event_def Let_def split: option.splits if_splits)

section \<open>Properties\<close>

text \<open>
  C37: The cost of an LLM request is never negative in any category, and it never falls when the
  request has more input or more output tokens, whatever part of the input was cached.
\<close>

theorem llm_cost_nonneg_and_monotone:
  assumes "pricing_ok p" "0 \<le> i" "i \<le> i'" "0 \<le> out" "out \<le> out'"
  shows "0 \<le> lc_input_cost (calculate_llm_cost i c out p) \<and> 0 \<le> lc_cached_input_cost (calculate_llm_cost i c out p) \<and>
         0 \<le> lc_output_cost (calculate_llm_cost i c out p) \<and>
         llm_total (calculate_llm_cost i c out p) \<le> llm_total (calculate_llm_cost i' c out' p)"
proof -
  let ?a = "calculate_llm_cost i c out p" and ?b = "calculate_llm_cost i' c out' p"
  note rates = input_rate_nonneg [OF assms(1)] rates_nonneg [OF assms(1)]
  have i': "0 \<le> i'" using assms by simp
  have c: "0 \<le> clamp_cached c i" "clamp_cached c i \<le> i" "clamp_cached c i \<le> clamp_cached c i'"
    "i - clamp_cached c i \<le> i' - clamp_cached c i'"
    using clamp_bounds [OF assms(2), of c] clamp_mono [OF assms(3), of c] by auto
  have nonneg: "0 \<le> lc_input_cost ?a" "0 \<le> lc_cached_input_cost ?a" "0 \<le> lc_output_cost ?a"
    using rates c assms(4) by (simp_all add: llm_cost_fields)
  have "lc_input_cost ?a \<le> lc_input_cost ?b"
    unfolding llm_cost_fields LlmCost.simps using rates c by (intro dfix_mono mult_right_mono) simp_all
  moreover have "lc_cached_input_cost ?a \<le> lc_cached_input_cost ?b"
    unfolding llm_cost_fields LlmCost.simps using rates c by (intro dfix_mono mult_right_mono) simp_all
  moreover have "lc_output_cost ?a \<le> lc_output_cost ?b"
    unfolding llm_cost_fields LlmCost.simps using rates assms(4,5) by (intro dfix_mono mult_right_mono) simp_all
  ultimately have "llm_total ?a \<le> llm_total ?b"
    unfolding llm_total_def using nonneg by (intro dfix_mono add_mono) simp_all
  with nonneg show ?thesis by simp
qed

definition ex_pricing :: ServicePricing where
  "ex_pricing = \<lparr>pr_task_type = ''llm'', pr_unit_rate = None, pr_cost_per_unit = Some 30, pr_unit_size = Some 1000,
     pr_cached_input_cost_per_unit = Some 3, pr_output_cost_per_unit = Some 90\<rparr>"

theorem llm_cost_nonneg_and_monotone_witness:
  "llm_total (calculate_llm_cost 1000 400 50 ex_pricing) \<le> llm_total (calculate_llm_cost 1200 400 80 ex_pricing) \<and>
   llm_total (calculate_llm_cost 1000 400 50 ex_pricing) = 237 / 10"
proof -
  have "pricing_ok ex_pricing" by code_simp
  from llm_cost_nonneg_and_monotone [OF this, of 1000 1200 50 80 400]
  have "llm_total (calculate_llm_cost 1000 400 50 ex_pricing) \<le> llm_total (calculate_llm_cost 1200 400 80 ex_pricing)"
    by simp
  moreover have "llm_total (calculate_llm_cost 1000 400 50 ex_pricing) = 237 / 10" by code_simp
  ultimately show ?thesis by simp
qed

text \<open>
  C26: A service with a price per single token and no cached or output price bills an LLM request at
  exactly that price for every token, cached or not: no rounding of the decimal context shows, and the
  result is what the generic cost function gives for the sum of the tokens.
\<close>

lemma llm_cost_falls_back_to_unit_rate:
  assumes "pr_unit_rate p = Some r" "price_ok (Some r)" "r \<noteq> 0"
    and "pr_cached_input_cost_per_unit p = None" "pr_output_cost_per_unit p = None"
    and "0 \<le> i" "0 \<le> out" "i + out < 10 ^ 12" "0 \<le> c"
  shows "llm_total (calculate_llm_cost (of_int i) (of_int c) (of_int out) p) = of_int (i + out) * r \<and>
         calculate_cost (of_int (i + out)) p = of_int (i + out) * r"
proof -
  define k where "k = min c i"
  have k: "0 \<le> k" "k \<le> i" using assms by (auto simp: k_def)
  have clamp: "clamp_cached (of_int c) (of_int i) = of_int k"
    using assms(9) by (simp add: clamp_cached_def k_def min_def)
  have rate: "input_rate p = r" using assms by (simp add: input_rate_def nonzero_cases)
  have none: "per_unit_rate None p = None" by (simp add: per_unit_rate_def)
  have sub: "dfix (of_int i - of_int k) = of_int i - of_int k"
  proof -
    have "(10 :: int) ^ 12 < 10 ^ 28" by simp
    then have "\<bar>i - k\<bar> < 10 ^ 28" using k assms(7,8) by linarith
    from dfix_exact [OF this, of 0] show ?thesis by simp
  qed
  have sizes: "i - k < 10 ^ 12" "k < 10 ^ 12" "out < 10 ^ 12" "i < 10 ^ 12" "0 \<le> i - k" using k assms(6-8) by auto
  note e = tokens_cost_exact [OF _ _ assms(2)]
  have a: "dfix ((of_int i - of_int k) * r) = (of_int i - of_int k) * r"
    using e(1) [of "i - k"] sizes by simp
  have b: "dfix (of_int k * r) = of_int k * r" "dfix (of_int out * r) = of_int out * r" "dfix (of_int i * r) = of_int i * r"
    "dfix (of_int (i + out) * r) = of_int (i + out) * r"
    using e(1) [of k] e(1) [of out] e(1) [of i] e(1) [of "i + out"] sizes k assms(6-8) by simp_all
  have "llm_total (calculate_llm_cost (of_int i) (of_int c) (of_int out) p) = dfix (dfix (of_int i * r) + of_int out * r)"
    unfolding llm_total_def llm_cost_fields LlmCost.simps clamp assms(4,5) none rate rate_or_def option.case sub a b(1,2)
    by (simp add: left_diff_distrib)
  also have "\<dots> = dfix (of_int (i + out) * r)" unfolding b(3) by (simp add: distrib_right)
  finally have "llm_total (calculate_llm_cost (of_int i) (of_int c) (of_int out) p) = of_int (i + out) * r"
    using b(4) by simp
  moreover have "calculate_cost (of_int (i + out)) p = of_int (i + out) * r"
    using assms(1,3) b(4) by (simp add: calculate_cost_def nonzero_cases)
  ultimately show ?thesis by simp
qed

text \<open>
  Where the price is quoted per \<open>unit_size\<close> tokens the two cost functions need not agree: for a
  price of 1 per 3 tokens the generic function charges 1 for three tokens, and the LLM function, which
  rounds the price of one token first, charges less.
\<close>

lemma llm_cost_differs_from_generic:
  "let p = \<lparr>pr_task_type = ''llm'', pr_unit_rate = None, pr_cost_per_unit = Some 1, pr_unit_size = Some 3,
            pr_cached_input_cost_per_unit = None, pr_output_cost_per_unit = None\<rparr>
   in calculate_cost 3 p = 1 \<and> llm_total (calculate_llm_cost 3 0 0 p) < calculate_cost 3 p"
  by code_simp

text \<open>
  One billing write debits exactly the API key of the span: its spend becomes the old spend plus
  the cost rounded to the column's two decimals, its ceiling stays, every other key, every quota row of
  another tenant, type, month or tier and the catalogue stay as they were; and the wallet counts as
  exhausted exactly when the key has a ceiling and the new spend has reached it.
\<close>

lemma deduct_debits_one_key:
  assumes "deduct_balance_and_update_quota env tenant month units cost key tier ty db = Inr (w, db')"
  shows "budget_of db' key = map_option (\<lambda>row. row\<lparr>bu_used := pg_round 2 (bu_used row + cost)\<rparr>) (budget_of db key) \<and>
         (\<forall>k. k \<noteq> key \<longrightarrow> budget_of db' k = budget_of db k) \<and>
         (\<forall>k. k \<noteq> (tenant, ty, month, Option.bind tier uuid_of) \<longrightarrow> quota_of db' k = quota_of db k) \<and>
         same_catalogue db db' \<and>
         (bw_budget_exhausted w \<longleftrightarrow> (\<exists>row s. budget_of db' key = Some row \<and> bu_snap row = Some s \<and> s \<le> bu_used row))"
proof -
  obtain b q where f: "fused_write tenant month units cost key tier ty db = Inr ((b, q), db')" and r: "write_result b q tier = Some w"
    using assms by (auto simp: deduct_balance_and_update_quota_def split: if_splits sum.splits option.splits)
  note spec = fused_write_spec [OF f]
  have "bw_budget_exhausted w \<longleftrightarrow> (\<exists>row s. b = Some row \<and> bu_snap row = Some s \<and> s \<le> bu_used row)"
    using r by (auto simp: write_result_def Let_def split: option.splits prod.splits)
  then show ?thesis using spec(1,3,4) spec(2) by auto
qed

definition ex_env :: Env where
  "ex_env = \<lparr>en_now = 1790590500000000, en_mono = 0, en_no_redis = False, en_exists_fails = False, en_hgetall_fails = False,
     en_pipeline_fails = False, en_hget_fails = False, en_set_fails = False, en_pricing_fails = False, en_type_fails = False,
     en_write_fails = False, en_event_fails = False, en_commit_fails = False, en_auth_fails = False, en_partition = (\<lambda>_. True)\<rparr>"

definition ex_tier :: string where "ex_tier = ''0A1B2C3D-0000-0000-0000-00000000000f''"
definition ex_uuid :: string where "ex_uuid = ''0a1b2c3d-0000-0000-0000-00000000000f''"

definition ex_db :: CoreDb where
  "ex_db = \<lparr>db_services = [(''svc'', \<lparr>sv_task_type = Some ''llm'', sv_unit_rate = None, sv_cost_per_unit = Some 30, sv_unit_size = Some 1000,
        sv_cached_input_cost_per_unit = Some 3, sv_output_cost_per_unit = Some 90, sv_deleted = False\<rparr>),
        (''asr-1'', \<lparr>sv_task_type = Some ''asr'', sv_unit_rate = Some 2, sv_cost_per_unit = None, sv_unit_size = None,
        sv_cached_input_cost_per_unit = None, sv_output_cost_per_unit = None, sv_deleted = False\<rparr>)],
     db_types = [(4, ''llm'', ''token''), (6, ''asr'', ''minute'')], db_tiers = [(ex_uuid, ''Gold'')],
     db_tier_quotas = [((ex_uuid, 4), 5000), ((ex_uuid, 6), 100)],
     db_budget = [(11, \<lparr>bu_used = 90, bu_snap = Some 100\<rparr>), (12, \<lparr>bu_used = 0, bu_snap = None\<rparr>)], db_quota = [], db_events = []\<rparr>"

text \<open>
  The month's quota row of a tenant, task type and tier is a sum: after any sequence of quota
  writes that all succeed it has grown by exactly the units of each, rounded to the column's four
  decimals.
\<close>

lemma quota_accumulates:
  assumes "upserts tenant (Some i) month (Some tier) us db = Inr db'" "uuid_of tier = Some t" "entitled db t i"
    and "quota_scaled db (tenant, Some i, month, Some t)" "\<forall>u \<in> set us. 0 \<le> u"
  shows "quota_used_at db' (tenant, Some i, month, Some t) =
         quota_used_at db (tenant, Some i, month, Some t) + (\<Sum>u \<leftarrow> us. pg_round 4 u)"
  using assms by (rule upserts_add)

fun charges :: "int \<Rightarrow> rat list \<Rightarrow> CoreDb \<Rightarrow> (db_error, CoreDb) res" where
  "charges k [] db = Inr db"
| "charges k (c # cs) db = (case budget_update k c db of Inl e \<Rightarrow> Inl e | Inr (_, db') \<Rightarrow> charges k cs db')"

text \<open>
  A charge below half a paisa leaves no trace in the key's spend: the spend column has two
  decimals and the sum is rounded to it, so however many such requests are billed one after the other
  the spend never moves.
\<close>

lemma small_charges_vanish:
  assumes "budget_of db k = Some row" "0 \<le> bu_used row" "has_scale 2 (bu_used row)" "bu_used row < 10 ^ 13"
    and "\<forall>c \<in> set cs. 0 \<le> c \<and> c < 1 / 200"
  shows "\<exists>db'. charges k cs db = Inr db' \<and> budget_of db' k = Some row"
  using assms(1,5)
proof (induction cs arbitrary: db)
  case (Cons c cs)
  let ?db = "db\<lparr>db_budget := dict_set k row (db_budget db)\<rparr>"
  have "budget_update k c db = Inr (Some row, ?db)"
    using Cons.prems assms(2-4) by (intro budget_update_small) auto
  moreover have "budget_of ?db k = Some row" by (simp add: budget_of_def)
  ultimately show ?case using Cons.IH [of ?db] Cons.prems(2) by simp
qed simp

text \<open>
  A usage event is recorded at most once: recording the same span again writes nothing and still
  reports success, and the event's own row is the one first written.
\<close>

lemma record_usage_event_idempotent:
  assumes "record_usage_event env e db = (True, db')"
  shows "record_usage_event env e db' = (True, db') \<and>
         dict_get (db_events db') (ue_correlation_id e, ue_occurred_at e) \<noteq> None \<and>
         (\<forall>row. dict_get (db_events db) (ue_correlation_id e, ue_occurred_at e) = Some row \<longrightarrow> db' = db)"
proof -
  have e: "\<not> en_event_fails env" "insert_usage_event env e db = Inr db'"
    using assms by (auto simp: record_usage_event_def split: if_splits sum.splits)
  then have "dict_get (db_events db') (ue_correlation_id e, ue_occurred_at e) \<noteq> None \<and>
      (\<forall>row. dict_get (db_events db) (ue_correlation_id e, ue_occurred_at e) = Some row \<longrightarrow> db' = db)"
    by (auto simp: insert_usage_event_def Let_def split: option.splits if_splits)
  then show ?thesis using e insert_again [OF e(2)] by (simp add: record_usage_event_def)
qed

definition ex_event :: UsageEvent where
  "ex_event = \<lparr>ue_correlation_id = ''req-1'', ue_occurred_at = 1790590500000000, ue_tenant_id = Some 5, ue_application_id = None,
     ue_api_key_id = Some 11, ue_tier_id = Some ex_tier, ue_service_id = ''svc'', ue_inference_type_id = Some 4, ue_task_type = ''llm'',
     ue_status_code = None, ue_total_units = 1050, ue_cached_input_units = 400, ue_output_units = 50,
     ue_input_units_cost = 18, ue_cached_input_units_cost = 6 / 5, ue_output_units_cost = 9 / 2\<rparr>"

text \<open>
  C38: The pricing cache is transparent: after a read that loaded a service's prices from the database
  and cached them, every read of the next hour returns the same prices from Redis, without the
  database.
\<close>

theorem pricing_cache_transparent:
  assumes "get_service_pricing env sid p = (Inr (Some pr), p')"
    and "dict_get (db_services (pc_db p)) sid = Some row" "redis_get (en_now env) (rd_hash (pc_redis p)) (PRICING_CACHE_PREFIX @ sid) = None"
    and "\<not> en_no_redis env" "pricing_ok (pricing_of_row row)" "pr_task_type (pricing_of_row row) \<noteq> []"
    and "\<not> en_no_redis env'" "\<not> en_hgetall_fails env'" "en_now env' < en_now env + 3600 * 1000000"
  shows "pr = pricing_of_row row \<and> get_service_pricing env' sid p' = (Inr (Some pr), p')"
proof -
  have "\<not> en_pricing_fails env" "\<not> sv_deleted row" "\<not> en_pipeline_fails env" "pr = pricing_of_row row"
    and p': "p' = p\<lparr>pc_redis := (pc_redis p)\<lparr>rd_hash := redis_setex (en_now env) (PRICING_CACHE_PREFIX @ sid) (cache_of_pricing pr)
        PRICING_CACHE_TTL (rd_hash (pc_redis p))\<rparr>\<rparr>"
    using assms(1-4,6) by (auto simp: get_service_pricing_def Let_def split: if_splits)
  then have "redis_get (en_now env') (rd_hash (pc_redis p')) (PRICING_CACHE_PREFIX @ sid) = Some (cache_of_pricing pr)"
    using assms(9) by (simp add: redis_get_setex PRICING_CACHE_TTL_def)
  moreover have "cache_of_pricing pr \<noteq> []" by (simp add: cache_of_pricing_def)
  moreover have "pricing_of_cache (cache_of_pricing pr) = Some pr"
    using \<open>pr = pricing_of_row row\<close> assms(5) by (simp add: pricing_round_trip)
  ultimately have "get_service_pricing env' sid p' = (Inr (Some pr), p')"
    unfolding get_service_pricing_def Let_def using assms(7,8) by (simp only: if_False if_True option.case simp_thms)
  then show ?thesis using \<open>pr = pricing_of_row row\<close> by simp
qed

definition ex_process :: Process where
  "ex_process = \<lparr>pc_db = ex_db, pc_redis = \<lparr>rd_hash = [], rd_str = []\<rparr>, pc_memo = []\<rparr>"

theorem pricing_cache_transparent_witness:
  "\<exists>p'. get_service_pricing ex_env ''svc'' ex_process = (Inr (Some ex_pricing), p') \<and>
     get_service_pricing (ex_env\<lparr>en_pricing_fails := True, en_now := en_now ex_env + 3599000000\<rparr>) ''svc'' p' = (Inr (Some ex_pricing), p')"
proof -
  have "fst (get_service_pricing ex_env ''svc'' ex_process) = Inr (Some ex_pricing)"
    by (simp add: get_service_pricing_def Let_def ex_env_def ex_process_def ex_db_def redis_get_def pricing_of_row_def ex_pricing_def)
  then obtain p' where g: "get_service_pricing ex_env ''svc'' ex_process = (Inr (Some ex_pricing), p')"
    by (cases "get_service_pricing ex_env ''svc'' ex_process") auto
  obtain row where row: "dict_get (db_services (pc_db ex_process)) ''svc'' = Some row" "pricing_of_row row = ex_pricing"
    by (simp add: ex_process_def ex_db_def pricing_of_row_def ex_pricing_def)
  have "redis_get (en_now ex_env) (rd_hash (pc_redis ex_process)) (PRICING_CACHE_PREFIX @ ''svc'') = None" by code_simp
  moreover have "\<not> en_no_redis ex_env" "\<not> en_hgetall_fails ex_env" by (simp_all add: ex_env_def)
  moreover have "pricing_ok ex_pricing" "pr_task_type ex_pricing \<noteq> []" by code_simp+
  ultimately show ?thesis
    using pricing_cache_transparent [OF g row(1), of "ex_env\<lparr>en_pricing_fails := True, en_now := en_now ex_env + 3599000000\<rparr>"] g row(2)
    by auto
qed

end
