(* ===== verification/Pipeline_Items.thy ===== *)
theory Pipeline_Items
  imports Notif_Models
begin

text \<open>
  The inputs of the notification pipeline (\<open>StateItem\<close>, \<open>FireContext\<close> and \<open>BandItem\<close> of
  \<open>kafka/pipeline.py\<close>).  Names are text, so that an unknown one is a value too; a builder that raises
  returns \<open>None\<close>.
\<close>

record StateItem =
  si_tenant_id :: string
  si_subject :: json
  si_new_state :: "(string, json) dict"
  si_details :: "json list"
  si_tenant_name :: "string option"

record FireContext =
  fc_name :: NotificationName
  fc_tenant_id :: string
  fc_subject :: subject
  fc_band :: Band
  fc_observed :: Measurement
  fc_occurred_at :: datetime

record BandItem =
  bi_name :: string
  bi_tenant_id :: "string option"
  bi_subject :: json
  bi_observed :: Measurement
  bi_details :: "(FireContext \<Rightarrow> json list option) option"
  bi_fallback_details :: "json list"
  bi_group_details :: "(json list list \<Rightarrow> json list option) option"

end
