(* ===== verification/Handler.thy ===== *)
theory Handler
  imports Billing Pipeline_Items
begin

text \<open>
  The pay-per-use handler (\<open>consumers/payperuse_consumer/handler.py\<close>): from a span message to the
  billing context, the charge, the alert evaluations and the enforcement calls to the auth service.
  The notification pipeline is reached through the operations of \<open>NotifOps\<close>; the pipeline of this
  development provides them.  A handler call ends with the exception that leaves it, if any, and the
  state it leaves behind.
\<close>

section \<open>Span attributes\<close>

definition to_float :: "json \<Rightarrow> rat" where
  "to_float v = (case py_float (py_or v (JInt 0)) of Some x \<Rightarrow> x | None \<Rightarrow> 0)"

definition to_int :: "json \<Rightarrow> int" where
  "to_int v = (case py_int (py_or v (JInt 0)) of Some i \<Rightarrow> i | None \<Rightarrow> 0)"

text \<open>\<open>str(attrs.get(key) or "").strip()\<close>\<close>

definition text_attr :: "(string, json) dict \<Rightarrow> string \<Rightarrow> string" where
  "text_attr attrs key = strip (py_str (py_or (jget attrs key) (JStr [])))"

record OtelAttributes =
  oa_tenant_id :: string
  oa_service_id :: string
  oa_input_tokens :: rat
  oa_output_tokens :: rat
  oa_correlation_id :: string
  oa_api_key_id :: int
  oa_tier_id :: "string option"

definition some_text :: "string \<Rightarrow> string option" where
  "some_text s = (if s = [] then None else Some s)"

definition get_otel_attributes :: "(string, json) dict \<Rightarrow> OtelAttributes" where
  "get_otel_attributes attrs =
     \<lparr>oa_tenant_id = text_attr attrs ''tenantId'', oa_service_id = text_attr attrs ''service_id'',
      oa_input_tokens = to_float (jget attrs ''input_tokens''), oa_output_tokens = to_float (jget attrs ''output_tokens''),
      oa_correlation_id = text_attr attrs ''correlation_id'', oa_api_key_id = to_int (jget attrs ''api_key_id''),
      oa_tier_id = some_text (text_attr attrs ''tier_id'')\<rparr>"

definition get_cached_input_tokens :: "(string, json) dict \<Rightarrow> rat" where
  "get_cached_input_tokens attrs = to_float (jget attrs ''cached_input_tokens'')"

definition is_already_billed :: "Env \<Rightarrow> string \<Rightarrow> Process \<Rightarrow> bool option" where
  "is_already_billed env billed_key p =
     (if billed_key = [] then None
      else if en_no_redis env \<or> en_exists_fails env then None
      else Some (redis_get (en_now env) (rd_str (pc_redis p)) billed_key \<noteq> None))"

text \<open>
  \<open>datetime.fromtimestamp(int(ns) / 1e9, tz=utc)\<close>: the integer and the quotient are rounded to
  doubles, the fraction is scaled to microseconds and rounded half to even.  \<open>None\<close> is a value
  \<open>int\<close> does not read or a moment outside the calendar.
\<close>

definition from_timestamp :: "rat \<Rightarrow> datetime option" where
  "from_timestamp d =
     (let ip = (if 0 \<le> d then \<lfloor>d\<rfloor> else \<lceil>d\<rceil>);
          us = round_half_even (fl ((d - of_int ip) * 1000000));
          t = ip * 1000000 + us
      in if valid_moment t then Some t else None)"

definition span_end_time :: "datetime \<Rightarrow> json \<Rightarrow> datetime option" where
  "span_end_time now end_time_ns =
     (if truthy end_time_ns
      then (case py_int end_time_ns of None \<Rightarrow> None | Some n \<Rightarrow> from_timestamp (fl (fl (of_int n) / 1000000000)))
      else Some now)"

definition resolve_billing_month :: "datetime \<Rightarrow> json \<Rightarrow> string option" where
  "resolve_billing_month now end_time_ns = map_option strftime_Ym (span_end_time now end_time_ns)"

definition optional_int :: "json \<Rightarrow> int option" where
  "optional_int v = (let n = to_int v in if 0 < n then Some n else None)"

section \<open>The billing context\<close>

record BillingContext =
  bc_tenant_id :: string
  bc_service_id :: string
  bc_input_tokens :: rat
  bc_total_tokens :: rat
  bc_correlation_id :: string
  bc_span_id :: string
  bc_billed_key :: string
  bc_is_already_billed :: "bool option"
  bc_billing_month :: string
  bc_api_key_id :: int
  bc_tier_id :: "string option"
  bc_output_tokens :: rat
  bc_cached_input_tokens :: rat
  bc_occurred_at :: datetime
  bc_application_id :: "int option"
  bc_status_code :: "int option"

definition span_id_of :: "(string, json) dict \<Rightarrow> string option" where
  "span_id_of data = (case jget_default data ''context'' (JObj []) of
      JObj c \<Rightarrow> (case jget_default c ''span_id'' (JStr []) of JStr s \<Rightarrow> Some (strip s) | _ \<Rightarrow> None)
    | _ \<Rightarrow> None)"

definition attributes_of :: "(string, json) dict \<Rightarrow> (string, json) dict option" where
  "attributes_of data = (case jget_default data ''attributes'' (JObj []) of JObj a \<Rightarrow> Some a | _ \<Rightarrow> None)"

definition auth_type_of :: "(string, json) dict \<Rightarrow> string" where
  "auth_type_of attrs = strip (py_str (jget_default attrs ''authType'' (JStr [])))"

definition prepare_billing_context ::
  "Env \<Rightarrow> (string, json) dict \<Rightarrow> Process \<Rightarrow> (ppu_error, BillingContext option) res" where
  "prepare_billing_context env data p =
     (if data = [] \<or> jget data ''name'' \<noteq> JStr AI_INFERENCE_SPAN then Inr None
      else case (span_id_of data, attributes_of data) of
        (Some span_id, Some attrs) \<Rightarrow>
          (let a = get_otel_attributes attrs;
               billed_key = get_billed_key (oa_correlation_id a) span_id;
               billed = is_already_billed env billed_key p
           in if billed \<noteq> Some False then Inr None
              else if auth_type_of attrs \<noteq> [] \<and> auth_type_of attrs \<noteq> ''api_key'' then Inr None
              else let total_tokens = fl (oa_input_tokens a + oa_output_tokens a) in
                if oa_tenant_id a = [] \<or> oa_service_id a = [] \<or> total_tokens = 0 then Inr None
                else case span_end_time (en_now env) (jget data ''end_time'') of
                       None \<Rightarrow> Inl ValueError
                     | Some occurred_at \<Rightarrow>
                         Inr (Some
                           \<lparr>bc_tenant_id = oa_tenant_id a, bc_service_id = oa_service_id a,
                            bc_input_tokens = oa_input_tokens a, bc_total_tokens = total_tokens,
                            bc_correlation_id = oa_correlation_id a, bc_span_id = span_id, bc_billed_key = billed_key,
                            bc_is_already_billed = billed, bc_billing_month = strftime_Ym occurred_at,
                            bc_api_key_id = oa_api_key_id a, bc_tier_id = oa_tier_id a,
                            bc_output_tokens = oa_output_tokens a,
                            bc_cached_input_tokens = get_cached_input_tokens attrs,
                            bc_occurred_at = occurred_at,
                            bc_application_id = optional_int (jget attrs ''app_id''),
                            bc_status_code = optional_int (jget attrs ''status_code'')\<rparr>))
      | _ \<Rightarrow> Inl ValueError)"

section \<open>Texts of the alerts\<close>

definition month_abbr :: "int \<Rightarrow> string" where
  "month_abbr m = [''Jan'', ''Feb'', ''Mar'', ''Apr'', ''May'', ''Jun'', ''Jul'', ''Aug'', ''Sep'', ''Oct'', ''Nov'', ''Dec''] ! nat (m - 1)"

text \<open>\<open>strftime("%d %b %Y, %I:%M %p")\<close> of the moment shifted by the five and a half hours of \<open>Asia/Kolkata\<close>\<close>

definition alert_datetime_ist :: "datetime \<Rightarrow> string" where
  "alert_datetime_ist t =
     (let i = t + 19800 * 1000000; h = hour_of i; h12 = (if h mod 12 = 0 then 12 else h mod 12)
      in field 2 (day_num i) @ '' '' @ month_abbr (month_num i) @ '' '' @ show_int (year_of i) @ '', '' @
         field 2 h12 @ '':'' @ field 2 (minute_of i) @ '' '' @ (if h < 12 then ''AM'' else ''PM'') @ '' IST'')"

definition display_pct :: "rat \<Rightarrow> rat" where
  "display_pct pct = min pct 100"

definition percent :: "rat option \<Rightarrow> rat option \<Rightarrow> rat option" where
  "percent used snap =
     (case (used, snap) of
        (Some u, Some s) \<Rightarrow> if s = 0 then None else Some (dfix (dfix (u / s) * 100))
      | _ \<Rightarrow> None)"

definition band_text :: "rat \<Rightarrow> string" where
  "band_text v = display_number v"

fun split_char :: "char \<Rightarrow> string \<Rightarrow> string list" where
  "split_char c [] = [[]]"
| "split_char c (x # xs) =
     (if x = c then [] # split_char c xs
      else case split_char c xs of y # ys \<Rightarrow> (x # y) # ys | [] \<Rightarrow> [[x]])"

definition first_of_next_month :: "string \<Rightarrow> string option" where
  "first_of_next_month billing_month =
     (case map int_of_str (split_char (CHR ''-'') billing_month) of
        [Some year, Some month] \<Rightarrow>
          Some (if month = 12 then show_int (year + 1) @ ''-01-01''
                else show_int year @ ''-'' @ (if month + 1 < 0 then show_int (month + 1) else field 2 (month + 1)) @ ''-01'')
      | _ \<Rightarrow> None)"

text \<open>\<open>:,.0f\<close> of a decimal: rounded half to even, thousands separated\<close>

fun group3 :: "string \<Rightarrow> string" where
  "group3 (a # b # c # d # ds) = a # b # c # CHR '','' # group3 (d # ds)"
| "group3 ds = ds"

definition show_grouped :: "rat \<Rightarrow> string" where
  "show_grouped v = (let n = round_half_even v
     in (if v < 0 then ''-'' else []) @ rev (group3 (rev (show_nat (nat \<bar>n\<bar>)))))"

definition threshold_details :: "string \<Rightarrow> FireContext \<Rightarrow> json list option" where
  "threshold_details suffix context =
     Some [JStr (band_text (bd_value (fc_band context))), JStr (alert_datetime_ist (fc_occurred_at context)),
           JStr (show_int (round_half_even (display_pct (ms_value (fc_observed context)))) @ ''%'' @ suffix)]"

definition quota_limit_line :: "string \<Rightarrow> rat \<Rightarrow> string \<Rightarrow> string option" where
  "quota_limit_line inference_name quota_snap billing_month =
     map_option (\<lambda>d. upper inference_name @ '': Quota Limit '' @ show_grouped quota_snap @ '', Resets on '' @ d)
       (first_of_next_month billing_month)"

text \<open>\<open>None\<close> is the failing query (the database down, a tier id that is no uuid).\<close>

definition fetch_tier_name :: "bool \<Rightarrow> CoreDb \<Rightarrow> string option \<Rightarrow> string option" where
  "fetch_tier_name fails db tier_id =
     (case tier_id of
        None \<Rightarrow> Some []
      | Some t \<Rightarrow>
          if fails then None
          else case uuid_of t of
                 None \<Rightarrow> None
               | Some u \<Rightarrow> Some (case dict_get (db_tiers db) u of Some name \<Rightarrow> name | None \<Rightarrow> t))"

definition quota_exhausted_details ::
  "bool \<Rightarrow> CoreDb \<Rightarrow> string option \<Rightarrow> string \<Rightarrow> rat \<Rightarrow> string \<Rightarrow> FireContext \<Rightarrow> json list option" where
  "quota_exhausted_details fails db tier_id inference_name quota_snap billing_month context =
     (case (fetch_tier_name fails db tier_id, quota_limit_line inference_name quota_snap billing_month) of
        (Some tier_name, Some line) \<Rightarrow> Some [JStr tier_name, JArr [JStr line]]
      | _ \<Rightarrow> None)"

section \<open>Alert evaluations\<close>

text \<open>What the handler uses of the notification pipeline, on its state.\<close>

record 'n NotifOps =
  no_configured :: bool
  no_can_fire :: "NotificationName list \<Rightarrow> string \<Rightarrow> 'n \<Rightarrow> NotificationName list \<times> 'n"
  no_emit :: "BandItem list \<Rightarrow> 'n \<Rightarrow> 'n"
  no_lookup_failed :: "NotificationName \<Rightarrow> string \<Rightarrow> 'n \<Rightarrow> 'n"

definition BUDGET_NAMES :: "NotificationName list" where "BUDGET_NAMES = [BUDGET_THRESHOLD, BUDGET_EXHAUSTED]"
definition QUOTA_NAMES :: "NotificationName list" where "QUOTA_NAMES = [QUOTA_THRESHOLD, QUOTA_EXHAUSTED]"

definition band_item ::
  "NotificationName \<Rightarrow> string \<Rightarrow> subject \<Rightarrow> rat \<Rightarrow> (FireContext \<Rightarrow> json list option) \<Rightarrow> json list \<Rightarrow> BandItem" where
  "band_item name tenant_id subj observed details fallback =
     \<lparr>bi_name = NotificationName_value name, bi_tenant_id = Some tenant_id, bi_subject = subj_obj subj,
      bi_observed = \<lparr>ms_value = observed, ms_unit = UNIT_PERCENT\<rparr>, bi_details = Some details,
      bi_fallback_details = fallback, bi_group_details = None\<rparr>"

definition budget_details :: "rat \<Rightarrow> NotificationName \<Rightarrow> FireContext \<Rightarrow> json list option" where
  "budget_details snap name =
     (if name = BUDGET_THRESHOLD then threshold_details []
      else (\<lambda>_. map_option (\<lambda>a. [JStr ''INR'', JStr a]) (format_amount snap)))"

text \<open>The outer \<open>None\<close> is the exception of an amount the decimal context cannot quantize.\<close>

definition budget_items ::
  "'n NotifOps \<Rightarrow> Env \<Rightarrow> BillingContext \<Rightarrow> AuthDb \<Rightarrow> CoreDb \<Rightarrow> 'n \<Rightarrow> BandItem list option \<times> 'n" where
  "budget_items ops env ctx auth core n =
     (let (names, n1) = no_can_fire ops BUDGET_NAMES (bc_tenant_id ctx) n in
      if names = [] then (Some [], n1)
      else case fetch_tenant_budget_status env auth core (bc_tenant_id ctx) of
             Inl _ \<Rightarrow> (Some [], fold (\<lambda>name. no_lookup_failed ops name (bc_tenant_id ctx)) names n1)
           | Inr None \<Rightarrow> (Some [], n1)
           | Inr (Some tb) \<Rightarrow>
               (case (tb_snap tb, percent (Some (tb_used tb)) (tb_snap tb)) of
                  (Some snap, Some observed) \<Rightarrow>
                    (case budget_subject snap (tb_effective_from tb) (tb_effective_to tb) of
                       None \<Rightarrow> (None, n1)
                     | Some subj \<Rightarrow>
                         (Some (map (\<lambda>name. band_item name (bc_tenant_id ctx) subj observed (budget_details snap name) []) names), n1))
                | _ \<Rightarrow> (Some [], n1)))"

definition quota_items :: "Env \<Rightarrow> CoreDb \<Rightarrow> BillingContext \<Rightarrow> BillingWriteResult \<Rightarrow> string \<Rightarrow> BandItem list option" where
  "quota_items env db ctx write inference_name =
     (if \<not> bw_quota_recorded write \<or> inference_name = [] then Some []
      else case (percent (bw_quota_used write) (bw_quota_snap write), bw_quota_snap write) of
        (Some observed, Some snap) \<Rightarrow>
          (let subj = quota_subject (bc_billing_month ctx) inference_name in
           case quota_limit_line inference_name snap (bc_billing_month ctx) of
             None \<Rightarrow> None
           | Some line \<Rightarrow>
               Some (map (\<lambda>name. if name = QUOTA_THRESHOLD
                    then band_item name (bc_tenant_id ctx) subj observed (threshold_details ('' ('' @ upper inference_name @ '')'')) []
                    else band_item name (bc_tenant_id ctx) subj observed
                           (quota_exhausted_details (en_pricing_fails env) db (bw_tier_id write) inference_name snap (bc_billing_month ctx))
                           [JStr (case bw_tier_id write of Some t \<Rightarrow> t | None \<Rightarrow> []), JArr [JStr line]])
                  QUOTA_NAMES))
      | _ \<Rightarrow> Some [])"

definition publish_usage_crossing_events ::
  "'n NotifOps \<Rightarrow> Env \<Rightarrow> BillingContext \<Rightarrow> BillingWriteResult \<Rightarrow> string \<Rightarrow> AuthDb \<Rightarrow> CoreDb \<Rightarrow> 'n \<Rightarrow> (ppu_error, unit) res \<times> 'n" where
  "publish_usage_crossing_events ops env ctx write inference_name auth db n =
     (if \<not> no_configured ops then (Inr (), n)
      else case budget_items ops env ctx auth db n of
        (None, n1) \<Rightarrow> (Inl ValueError, n1)
      | (Some bs, n1) \<Rightarrow>
          (case quota_items env db ctx write inference_name of
             None \<Rightarrow> (Inl ValueError, n1)
           | Some qs \<Rightarrow> (Inr (), if bs @ qs = [] then n1 else no_emit ops (bs @ qs) n1)))"

section \<open>Calls to the auth service\<close>

definition NOTIFY_AUTH_MAX_ATTEMPTS :: nat where "NOTIFY_AUTH_MAX_ATTEMPTS = 3"

text \<open>What one \<open>POST\<close> comes to: a response with its status, or a transport error.\<close>

datatype http = HResponse int | HTransportError

definition http_success :: "int \<Rightarrow> bool" where
  "http_success status \<longleftrightarrow> 200 \<le> status \<and> status < 300"

datatype notify_outcome = Delivered | Rejected | GaveUp

text \<open>
  The retry loop from an attempt on: \<open>reply\<close> gives the result of an attempt, \<open>late\<close> whether the
  deadline has passed after it.  The pauses are in milliseconds.
\<close>

function notify_loop :: "(nat \<Rightarrow> http) \<Rightarrow> (nat \<Rightarrow> bool) \<Rightarrow> nat \<Rightarrow> notify_outcome \<times> nat \<times> nat list" where
  "notify_loop reply late attempt =
     (let give_up = (attempt \<ge> NOTIFY_AUTH_MAX_ATTEMPTS \<or> late attempt);
          retry = (if give_up then (GaveUp, 1, [])
                   else let (r, n, pauses) = notify_loop reply late (attempt + 1)
                        in (r, n + 1, 500 * 2 ^ (attempt - 1) # pauses))
      in case reply attempt of
           HResponse status \<Rightarrow>
             if http_success status then (Delivered, 1, [])
             else if status < 500 \<and> status \<noteq> 429 then (Rejected, 1, [])
             else retry
         | HTransportError \<Rightarrow> retry)"
  by pat_completeness auto

termination
  by (relation "measure (\<lambda>(_, _, attempt). NOTIFY_AUTH_MAX_ATTEMPTS - attempt)") auto

declare notify_loop.simps [simp del]

definition notify_auth :: "(nat \<Rightarrow> http) \<Rightarrow> (nat \<Rightarrow> bool) \<Rightarrow> notify_outcome \<times> nat \<times> nat list" where
  "notify_auth reply late = notify_loop reply late 1"

text \<open>The answers of the auth service, by path.\<close>

type_synonym auth_service = "string \<Rightarrow> (nat \<Rightarrow> http) \<times> (nat \<Rightarrow> bool)"

record AuthCall =
  ac_path :: string
  ac_body :: json
  ac_outcome :: notify_outcome

definition auth_call :: "auth_service \<Rightarrow> string \<Rightarrow> json \<Rightarrow> AuthCall" where
  "auth_call svc path body =
     \<lparr>ac_path = path, ac_body = body, ac_outcome = fst (notify_auth (fst (svc path)) (snd (svc path)))\<rparr>"

definition post_billing :: "auth_service \<Rightarrow> bool \<Rightarrow> bool \<Rightarrow> string \<Rightarrow> int \<Rightarrow> string \<Rightarrow> AuthCall list" where
  "post_billing svc wallet_exhausted quota_exhausted tenant_id api_key_id billing_unit_type =
     (if wallet_exhausted \<and> api_key_id \<noteq> 0
      then [auth_call svc (''/internal/ppu/api-key/'' @ show_int api_key_id @ ''/budget-exhausted'') (JObj [(''exhausted'', JBool True)])]
      else []) @
     (if quota_exhausted
      then [auth_call svc (''/internal/ppu/tenant/'' @ tenant_id @ ''/quota-exhausted'') (JObj [(''inference_name'', JStr billing_unit_type)])]
      else [])"

section \<open>Billing a span\<close>

record BillingOutcome =
  bo_pricing :: ServicePricing
  bo_billed_units :: rat
  bo_cost :: rat
  bo_wallet_exhausted :: bool
  bo_quota_exhausted :: bool

definition usage_event ::
  "BillingContext \<Rightarrow> ServicePricing \<Rightarrow> int option \<Rightarrow> rat \<Rightarrow> rat \<Rightarrow> LlmCost option \<Rightarrow> UsageEvent" where
  "usage_event ctx pricing inference_type_id billed_units cost llm_cost =
     (let (cached, output, costs) =
        (case llm_cost of
           Some l \<Rightarrow> (clamp_cached (flt_repr (bc_cached_input_tokens ctx)) (flt_repr (bc_input_tokens ctx)),
                      flt_repr (bc_output_tokens ctx), (lc_input_cost l, lc_cached_input_cost l, lc_output_cost l))
         | None \<Rightarrow> (0, 0, (cost, 0, 0)))
      in \<lparr>ue_correlation_id = bc_correlation_id ctx, ue_occurred_at = bc_occurred_at ctx,
          ue_tenant_id = optional_int (JStr (bc_tenant_id ctx)), ue_application_id = bc_application_id ctx,
          ue_api_key_id = (if bc_api_key_id ctx = 0 then None else Some (bc_api_key_id ctx)),
          ue_tier_id = bc_tier_id ctx, ue_service_id = bc_service_id ctx, ue_inference_type_id = inference_type_id,
          ue_task_type = pr_task_type pricing, ue_status_code = None, ue_total_units = billed_units,
          ue_cached_input_units = cached, ue_output_units = output, ue_input_units_cost = fst costs,
          ue_cached_input_units_cost = fst (snd costs), ue_output_units_cost = snd (snd costs)\<rparr>)"

definition is_llm :: "ServicePricing \<Rightarrow> bool" where
  "is_llm pricing \<longleftrightarrow> lower (pr_task_type pricing) = ''llm''"

definition billed_units :: "BillingContext \<Rightarrow> ServicePricing \<Rightarrow> rat" where
  "billed_units ctx pricing = flt_repr (if is_llm pricing then bc_total_tokens ctx else bc_input_tokens ctx)"

definition llm_cost_of :: "BillingContext \<Rightarrow> ServicePricing \<Rightarrow> LlmCost option" where
  "llm_cost_of ctx pricing =
     (if is_llm pricing
      then Some (calculate_llm_cost (flt_repr (bc_input_tokens ctx)) (flt_repr (bc_cached_input_tokens ctx))
                   (flt_repr (bc_output_tokens ctx)) pricing)
      else None)"

definition cost_of :: "BillingContext \<Rightarrow> ServicePricing \<Rightarrow> rat" where
  "cost_of ctx pricing =
     (case llm_cost_of ctx pricing of Some l \<Rightarrow> llm_total l | None \<Rightarrow> calculate_cost (billed_units ctx pricing) pricing)"

text \<open>The two flags the enforcement calls are made from.\<close>

definition exhaustion_flags :: "BillingWriteResult \<Rightarrow> ServicePricing \<Rightarrow> int option \<Rightarrow> bool \<times> bool" where
  "exhaustion_flags write pricing inference_type_id =
     (if bw_tier_id write = None then (False, True)
      else (bw_budget_exhausted write,
            if pr_task_type pricing = [] \<or> inference_type_id = None then False else bw_quota_exhausted write))"

text \<open>
  The state of a handler call: the consumer's process (database, Redis, memo), the auth database it
  reads, the notification runtime and the calls made to the auth service.
\<close>

record 'n Ppu =
  pu_process :: Process
  pu_auth :: AuthDb
  pu_notif :: 'n
  pu_calls :: "AuthCall list"

definition bill_usage ::
  "'n NotifOps \<Rightarrow> Env \<Rightarrow> BillingContext \<Rightarrow> 'n Ppu \<Rightarrow> (ppu_error, BillingOutcome option) res \<times> 'n Ppu" where
  "bill_usage ops env ctx s =
     (case get_service_pricing env (bc_service_id ctx) (pu_process s) of
        (Inl e, p1) \<Rightarrow> (Inl e, s\<lparr>pu_process := p1\<rparr>)
      | (Inr None, p1) \<Rightarrow> (Inr None, s\<lparr>pu_process := p1\<rparr>)
      | (Inr (Some pricing), p1) \<Rightarrow>
          (let units = billed_units ctx pricing; llm_cost = llm_cost_of ctx pricing; cost = cost_of ctx pricing in
           if cost = 0 then (Inr None, s\<lparr>pu_process := p1\<rparr>)
           else case get_inference_type_id env (pr_task_type pricing) p1 of
             (Inl e, p2) \<Rightarrow> (Inl e, s\<lparr>pu_process := p2\<rparr>)
           | (Inr type_id, p2) \<Rightarrow>
               (case deduct_balance_and_update_quota env (bc_tenant_id ctx) (bc_billing_month ctx) units cost
                       (bc_api_key_id ctx) (bc_tier_id ctx) type_id (pc_db p2) of
                  Inl e \<Rightarrow> (Inl e, s\<lparr>pu_process := p2\<rparr>)
                | Inr (write, db1) \<Rightarrow>
                    (let (_, db2) = record_usage_event env (usage_event ctx pricing type_id units cost llm_cost) db1;
                         (wallet, quota) = exhaustion_flags write pricing type_id
                     in if en_commit_fails env then (Inl (DbError DB_Unavailable), s\<lparr>pu_process := p2\<rparr>)
                        else let p3 = p2\<lparr>pc_db := db2\<rparr> in
                          (case publish_usage_crossing_events ops env ctx write (pr_task_type pricing) (pu_auth s) db2 (pu_notif s) of
                             (Inl e, n1) \<Rightarrow> (Inl e, s\<lparr>pu_process := p3, pu_notif := n1\<rparr>)
                           | (Inr _, n1) \<Rightarrow>
                               (Inr (Some \<lparr>bo_pricing = pricing, bo_billed_units = units, bo_cost = cost,
                                           bo_wallet_exhausted = wallet, bo_quota_exhausted = quota\<rparr>),
                                s\<lparr>pu_process := p3, pu_notif := n1\<rparr>))))))"

section \<open>Request spans\<close>

definition counted_path :: "string \<Rightarrow> bool" where
  "counted_path s \<longleftrightarrow>
     (let n = length s - length ''/inference''
      in length ''/inference'' \<le> length s \<and> drop n s = ''/inference'' \<and> CHR 0x0A \<notin> set (take n s)) \<or>
     s = ''/api/v1/chat'' \<or> s = ''/api/v1/chat/completions''"

definition request_event ::
  "(string, json) dict \<Rightarrow> datetime \<Rightarrow> string \<Rightarrow> int option \<Rightarrow> UsageEvent" where
  "request_event attrs occurred_at task_type inference_type_id =
     \<lparr>ue_correlation_id = text_attr attrs ''correlation_id'', ue_occurred_at = occurred_at,
      ue_tenant_id = optional_int (JStr (text_attr attrs ''tenantId'')), ue_application_id = optional_int (jget attrs ''app_id''),
      ue_api_key_id = optional_int (jget attrs ''api_key_id''), ue_tier_id = some_text (text_attr attrs ''tier_id''),
      ue_service_id = text_attr attrs ''service_id'', ue_inference_type_id = inference_type_id, ue_task_type = task_type,
      ue_status_code = optional_int (jget attrs ''status_code''), ue_total_units = 0, ue_cached_input_units = 0,
      ue_output_units = 0, ue_input_units_cost = 0, ue_cached_input_units_cost = 0, ue_output_units_cost = 0\<rparr>"

definition request_task_type :: "(string, json) dict \<Rightarrow> ServicePricing option \<Rightarrow> string" where
  "request_task_type attrs pricing =
     lower (case pricing of
              Some pr \<Rightarrow> if pr_task_type pr \<noteq> [] then pr_task_type pr else py_str (py_or (jget attrs ''task_type'') (JStr []))
            | None \<Rightarrow> py_str (py_or (jget attrs ''task_type'') (JStr [])))"

definition record_request :: "Env \<Rightarrow> (string, json) dict \<Rightarrow> Process \<Rightarrow> (ppu_error, unit) res \<times> Process" where
  "record_request env data p =
     (case attributes_of data of
        None \<Rightarrow> (Inl ValueError, p)
      | Some attrs \<Rightarrow>
          (let correlation_id = text_attr attrs ''correlation_id'';
               tenant_id = text_attr attrs ''tenantId'';
               path = py_str (py_or (jget attrs ''url'') (JStr []));
               status_code = optional_int (jget attrs ''status_code'');
               service_id = text_attr attrs ''service_id''
           in if auth_type_of attrs \<noteq> ''api_key'' then (Inr (), p)
              else if \<not> counted_path path then (Inr (), p)
              else if correlation_id = [] \<or> tenant_id = [] \<or> status_code = None then (Inr (), p)
              else case (if service_id \<noteq> [] then get_service_pricing env service_id p else (Inr None, p)) of
                (Inl e, p1) \<Rightarrow> (Inl e, p1)
              | (Inr pricing, p1) \<Rightarrow>
                  (let task_type = request_task_type attrs pricing in
                   case (if task_type \<noteq> [] then get_inference_type_id env task_type p1 else (Inr None, p1)) of
                     (Inl e, p2) \<Rightarrow> (Inl e, p2)
                   | (Inr type_id, p2) \<Rightarrow>
                       (case span_end_time (en_now env) (jget data ''end_time'') of
                          None \<Rightarrow> (Inl ValueError, p2)
                        | Some occurred_at \<Rightarrow>
                            (let (_, db') = record_usage_event env (request_event attrs occurred_at task_type type_id) (pc_db p2)
                             in if en_commit_fails env then (Inl (DbError DB_Unavailable), p2)
                                else (Inr (), p2\<lparr>pc_db := db'\<rparr>))))))"

section \<open>The handler\<close>

definition handle_ppu_usage ::
  "'n NotifOps \<Rightarrow> auth_service \<Rightarrow> Env \<Rightarrow> payload \<Rightarrow> 'n Ppu \<Rightarrow> (ppu_error, unit) res \<times> 'n Ppu" where
  "handle_ppu_usage ops svc env msg s =
     (case get_billing_data msg of
        Inl e \<Rightarrow> (Inl e, s)
      | Inr None \<Rightarrow> (Inr (), s)
      | Inr (Some data) \<Rightarrow>
          if jget data ''name'' = JStr REQUEST_SPAN
          then (let (r, p) = record_request env data (pu_process s) in (r, s\<lparr>pu_process := p\<rparr>))
          else case prepare_billing_context env data (pu_process s) of
                 Inl e \<Rightarrow> (Inl e, s)
               | Inr None \<Rightarrow> (Inr (), s)
               | Inr (Some ctx) \<Rightarrow>
                   (case bill_usage ops env ctx s of
                      (Inl e, s1) \<Rightarrow> (Inl e, s1)
                    | (Inr None, s1) \<Rightarrow> (Inr (), s1)
                    | (Inr (Some outcome), s1) \<Rightarrow>
                        (let p = update_billing_on_cache env (bc_is_already_billed ctx) (bc_billed_key ctx) (pu_process s1)
                         in (Inr (), s1\<lparr>pu_process := p,
                              pu_calls := pu_calls s1 @
                                post_billing svc (bo_wallet_exhausted outcome) (bo_quota_exhausted outcome)
                                  (bc_tenant_id ctx) (bc_api_key_id ctx) (pr_task_type (bo_pricing outcome))\<rparr>))))"

section \<open>Facts\<close>

lemma prepare_Some:
  assumes "prepare_billing_context env data p = Inr (Some ctx)"
  obtains span_id attrs where "span_id_of data = Some span_id" "attributes_of data = Some attrs"
    "data \<noteq> []" "jget data ''name'' = JStr AI_INFERENCE_SPAN"
    "bc_billed_key ctx = get_billed_key (oa_correlation_id (get_otel_attributes attrs)) span_id"
    "is_already_billed env (bc_billed_key ctx) p = Some False" "bc_is_already_billed ctx = Some False"
    "bc_tier_id ctx = oa_tier_id (get_otel_attributes attrs)"
    "bc_billing_month ctx = strftime_Ym (bc_occurred_at ctx)"
  using assms
  by (auto simp: prepare_billing_context_def Let_def split: if_splits option.splits)

lemma prepare_billed:
  assumes "span_id_of data = Some span_id" "attributes_of data = Some attrs"
    and "is_already_billed env (get_billed_key (oa_correlation_id (get_otel_attributes attrs)) span_id) p \<noteq> Some False"
  shows "prepare_billing_context env data p = Inr None"
  using assms by (simp add: prepare_billing_context_def Let_def)

lemma get_service_pricing_db: "get_service_pricing env sid p = (r, p') \<Longrightarrow> pc_db p' = pc_db p \<and> rd_str (pc_redis p') = rd_str (pc_redis p)"
  by (auto simp: get_service_pricing_def Let_def split: if_splits option.splits)

lemma get_inference_type_id_db: "get_inference_type_id env name p = (r, p') \<Longrightarrow> pc_db p' = pc_db p \<and> pc_redis p' = pc_redis p"
  by (auto simp: get_inference_type_id_def Let_def split: if_splits option.splits)

lemma record_usage_event_budget:
  "record_usage_event env e db = (b, db') \<Longrightarrow> db_budget db' = db_budget db \<and> db_quota db' = db_quota db"
  by (auto simp: record_usage_event_def insert_usage_event_def Let_def split: if_splits option.splits)

lemma bill_usage_auth: "bill_usage ops env ctx s = (r, s') \<Longrightarrow> pu_auth s' = pu_auth s \<and> pu_calls s' = pu_calls s"
  by (auto simp: bill_usage_def Let_def split: prod.splits sum.splits option.splits if_splits)

lemma bill_usage_redis: "bill_usage ops env ctx s = (r, s') \<Longrightarrow> rd_str (pc_redis (pu_process s')) = rd_str (pc_redis (pu_process s))"
  by (auto simp: bill_usage_def Let_def split: prod.splits sum.splits option.splits if_splits
      dest!: get_service_pricing_db get_inference_type_id_db)

text \<open>Everything a charged span went through.\<close>

lemma bill_usage_Some:
  assumes "bill_usage ops env ctx s = (Inr (Some out), s')"
  obtains pricing type_id p1 p2 wr db1 ok db2 n1 where
    "get_service_pricing env (bc_service_id ctx) (pu_process s) = (Inr (Some pricing), p1)"
    "cost_of ctx pricing \<noteq> 0"
    "get_inference_type_id env (pr_task_type pricing) p1 = (Inr type_id, p2)"
    "deduct_balance_and_update_quota env (bc_tenant_id ctx) (bc_billing_month ctx) (billed_units ctx pricing) (cost_of ctx pricing)
       (bc_api_key_id ctx) (bc_tier_id ctx) type_id (pc_db (pu_process s)) = Inr (wr, db1)"
    "record_usage_event env (usage_event ctx pricing type_id (billed_units ctx pricing) (cost_of ctx pricing) (llm_cost_of ctx pricing)) db1 = (ok, db2)"
    "\<not> en_commit_fails env" "pu_process s' = p2\<lparr>pc_db := db2\<rparr>"
    "bo_cost out = cost_of ctx pricing" "bo_pricing out = pricing"
    "(bo_wallet_exhausted out, bo_quota_exhausted out) = exhaustion_flags wr pricing type_id"
proof -
  from assms obtain pricing p1 where g: "get_service_pricing env (bc_service_id ctx) (pu_process s) = (Inr (Some pricing), p1)"
    by (auto simp: bill_usage_def split: prod.splits sum.splits option.splits)
  with assms obtain type_id p2 where t: "cost_of ctx pricing \<noteq> 0" "get_inference_type_id env (pr_task_type pricing) p1 = (Inr type_id, p2)"
    by (auto simp: bill_usage_def Let_def split: prod.splits sum.splits if_splits)
  have db: "pc_db p2 = pc_db (pu_process s)"
    using get_service_pricing_db [OF g] get_inference_type_id_db [OF t(2)] by simp
  from assms g t obtain wr db1 where d: "deduct_balance_and_update_quota env (bc_tenant_id ctx) (bc_billing_month ctx)
      (billed_units ctx pricing) (cost_of ctx pricing) (bc_api_key_id ctx) (bc_tier_id ctx) type_id (pc_db p2) = Inr (wr, db1)"
    by (auto simp: bill_usage_def Let_def split: prod.splits sum.splits)
  obtain ok db2 where r: "record_usage_event env (usage_event ctx pricing type_id (billed_units ctx pricing) (cost_of ctx pricing)
      (llm_cost_of ctx pricing)) db1 = (ok, db2)" by fastforce
  show thesis
    using assms g t d r by (intro that [OF g t d [unfolded db] r])
      (auto simp: bill_usage_def Let_def split: prod.splits sum.splits if_splits)
qed

lemma redis_set_billed:
  "\<not> en_no_redis env \<Longrightarrow> \<not> en_set_fails env \<Longrightarrow> t < en_now env + BILLED_KEY_TTL * 1000000 \<Longrightarrow>
     redis_get t (rd_str (pc_redis (update_billing_on_cache env (Some False) k p))) k = Some ''1''"
  by (simp add: update_billing_on_cache_def redis_get_setex)

section \<open>Alerts do not disturb billing\<close>

lemma int_of_str_digits: "isdigit s \<Longrightarrow> int_of_str s = Some (int (read_digits s))"
proof -
  assume s: "isdigit s"
  then have d: "\<forall>c \<in> set s. is_digit c" "s \<noteq> []" by (auto simp: isdigit_def list_all_iff)
  then have "strip s = s" by (intro strip_id) auto
  moreover have "split_sign s = (False, s)" using d by (cases s) (auto simp: split_sign_def is_digit_def)
  moreover have "scan_digits False s = Some s" using s by (simp add: scan_digits_all isdigit_def)
  ultimately show ?thesis by (simp add: int_of_str_def)
qed

lemma split_char_one:
  "CHR ''-'' \<notin> set a \<Longrightarrow> CHR ''-'' \<notin> set b \<Longrightarrow> split_char (CHR ''-'') (a @ CHR ''-'' # b) = [a, b]"
proof (induction a)
  case Nil
  have "split_char (CHR ''-'') b = [b]" using Nil(2) by (induction b) auto
  then show ?case by simp
next
  case (Cons x a)
  then show ?case by auto
qed

lemma field_isdigit: "isdigit (field w n)"
  using field_digits [of w n] by (auto simp: isdigit_def field_def pad_zero_def)

lemma digits_no_hyphen: "isdigit s \<Longrightarrow> CHR ''-'' \<notin> set s"
  by (auto simp: isdigit_def list_all_iff is_digit_def)

lemma first_of_next_month_of_moment: "valid_moment t \<Longrightarrow> first_of_next_month (strftime_Ym t) \<noteq> None"
proof -
  assume "valid_moment t"
  then obtain y where y: "strftime_Ym t = y @ CHR ''-'' # field 2 (month_num t)" "isdigit y"
    by (auto simp: strftime_Ym_def valid_moment_def show_int_def)
  have "split_char (CHR ''-'') (strftime_Ym t) = [y, field 2 (month_num t)]"
    unfolding y(1) by (intro split_char_one digits_no_hyphen y(2) field_isdigit)
  then show ?thesis by (simp add: first_of_next_month_def int_of_str_digits y(2) field_isdigit)
qed

text \<open>Budgets are \<open>Numeric(15,2)\<close>.\<close>

definition auth_ok :: "AuthDb \<Rightarrow> bool" where
  "auth_ok auth \<longleftrightarrow> list_all (\<lambda>(_, b, _). pred_option (\<lambda>x. pg_numeric 15 2 x = Some x) b) (ad_tenants auth)"

lemma format_amount_numeric:
  assumes "pg_numeric 15 2 x = Some x" shows "format_amount x \<noteq> None"
proof -
  have r: "x = pg_round 2 x" and b: "\<bar>x\<bar> < 10 ^ 13"
    using assms by (auto simp: pg_numeric_def Let_def split: if_splits)
  have "has_scale 2 x" using has_scale_pg_round [of 2 x] r by simp
  then obtain n where n: "x = of_int n / 10 ^ 2" by (auto simp: has_scale_iff)
  then have "x * 10 ^ 2 = of_int n" by simp
  then have rn: "round_half_up (x * 10 ^ AMOUNT_DECIMALS) = n"
    by (simp only: AMOUNT_DECIMALS_def round_half_up_of_int)
  have "\<bar>of_int n\<bar> < (10 :: rat) ^ 13 * 100" using b unfolding n by (simp add: abs_divide)
  then have "of_int \<bar>n\<bar> < (of_int (10 ^ 15) :: rat)" by simp
  then have "\<bar>n\<bar> < 10 ^ 15" by (simp only: of_int_less_iff)
  moreover have "(10 :: int) ^ 15 < 10 ^ 28" by simp
  ultimately have "nat \<bar>n\<bar> < 10 ^ 28" by (simp add: nat_less_iff)
  then show ?thesis unfolding format_amount_def rn Let_def by simp
qed

lemma fetch_budget_snap:
  "fetch_tenant_budget_status env auth core t = Inr (Some tb) \<Longrightarrow> auth_ok auth \<Longrightarrow> tb_snap tb = Some x \<Longrightarrow> pg_numeric 15 2 x = Some x"
  by (auto simp: fetch_tenant_budget_status_def Let_def auth_ok_def list_all_iff split: if_splits option.splits prod.splits
      dest!: map_of_SomeD)

lemma budget_items_total: "auth_ok auth \<Longrightarrow> fst (budget_items ops env ctx auth core n) \<noteq> None"
proof -
  assume a: "auth_ok auth"
  have "budget_subject x f e \<noteq> None" if "fetch_tenant_budget_status env auth core t = Inr (Some tb)" "tb_snap tb = Some x" for t tb x f e
    using format_amount_numeric [OF fetch_budget_snap [OF that(1) a that(2)]] by (auto simp: budget_subject_def)
  then show ?thesis
    by (simp add: budget_items_def split: prod.splits sum.splits option.splits) (metis option.distinct(1))
qed

lemma quota_items_total: "valid_moment t \<Longrightarrow> bc_billing_month ctx = strftime_Ym t \<Longrightarrow> quota_items env db ctx w name \<noteq> None"
  using first_of_next_month_of_moment [of t]
  by (auto simp: quota_items_def quota_limit_line_def Let_def split: option.splits)

lemma publish_total:
  assumes "auth_ok auth" "valid_moment t" "bc_billing_month ctx = strftime_Ym t"
  shows "fst (publish_usage_crossing_events ops env ctx w name auth db n) = Inr ()"
proof -
  obtain bs n1 where b: "budget_items ops env ctx auth db n = (Some bs, n1)"
    using budget_items_total [OF assms(1), of ops env ctx db n] by (cases "budget_items ops env ctx auth db n") auto
  obtain qs where "quota_items env db ctx w name = Some qs"
    using quota_items_total [OF assms(2,3)] by (cases "quota_items env db ctx w name") blast+
  with b show ?thesis by (simp add: publish_usage_crossing_events_def)
qed

lemma span_end_time_valid: "span_end_time now v = Some t \<Longrightarrow> valid_moment now \<Longrightarrow> valid_moment t"
  by (auto simp: span_end_time_def from_timestamp_def Let_def split: if_splits option.splits)

lemma prepare_moment:
  "prepare_billing_context env data p = Inr (Some ctx) \<Longrightarrow> valid_moment (en_now env) \<Longrightarrow> valid_moment (bc_occurred_at ctx)"
  by (auto simp: prepare_billing_context_def Let_def split: if_splits option.splits dest: span_end_time_valid)

text \<open>A charge that fails leaves the database alone: the only step after the commit is total.\<close>

lemma bill_usage_Inl:
  assumes "bill_usage ops env ctx s = (Inl e, s')" "auth_ok (pu_auth s)" "valid_moment t" "bc_billing_month ctx = strftime_Ym t"
  shows "pc_db (pu_process s') = pc_db (pu_process s)"
proof -
  note total = publish_total [OF assms(2-4), of ops env]
  have no: "publish_usage_crossing_events ops env ctx w name (pu_auth s) db n \<noteq> (Inl e', n')" for w name db n e' n'
    using total [of w name db n] by auto
  obtain r p1 where g: "get_service_pricing env (bc_service_id ctx) (pu_process s) = (r, p1)" by fastforce
  show ?thesis
  proof (cases r)
    case (Inl x)
    then show ?thesis using assms(1) g get_service_pricing_db [OF g] by (auto simp: bill_usage_def)
  next
    case (Inr pr)
    then obtain pricing where pr: "pr = Some pricing" "cost_of ctx pricing \<noteq> 0"
      using assms(1) g by (auto simp: bill_usage_def Let_def split: option.splits if_splits)
    obtain t' p2 where h: "get_inference_type_id env (pr_task_type pricing) p1 = (t', p2)" by fastforce
    have db: "pc_db p2 = pc_db (pu_process s)"
      using get_service_pricing_db [OF g] get_inference_type_id_db [OF h] by simp
    show ?thesis
      using assms(1) g h pr Inr db no
      by (auto simp: bill_usage_def Let_def split: sum.splits prod.splits if_splits)
  qed
qed

text \<open>A call that raises has written nothing.\<close>

lemma failed_call_frame:
  assumes "handle_ppu_usage ops svc env msg s = (Inl e, s')" "auth_ok (pu_auth s)" "valid_moment (en_now env)"
  shows "pc_db (pu_process s') = pc_db (pu_process s) \<and> pu_calls s' = pu_calls s"
proof (cases "get_billing_data msg")
  case (Inl x)
  then show ?thesis using assms(1) by (simp add: handle_ppu_usage_def)
next
  case (Inr d)
  then obtain data where d: "d = Some data" using assms(1) by (auto simp: handle_ppu_usage_def split: option.splits)
  show ?thesis
  proof (cases "jget data ''name'' = JStr REQUEST_SPAN")
    case True
    obtain r p where rr: "record_request env data (pu_process s) = (r, p)" by fastforce
    then have "r = Inl e" "s' = s\<lparr>pu_process := p\<rparr>" using assms(1) Inr d True by (auto simp: handle_ppu_usage_def)
    moreover have "pc_db p = pc_db (pu_process s)" if "r = Inl e"
      using rr that
      by (auto simp: record_request_def Let_def split: option.splits if_splits prod.splits sum.splits
          dest!: get_service_pricing_db get_inference_type_id_db)
    ultimately show ?thesis by simp
  next
    case False
    consider "s' = s" | ctx where "prepare_billing_context env data (pu_process s) = Inr (Some ctx)" "bill_usage ops env ctx s = (Inl e, s')"
      using assms(1) Inr d False by (auto simp: handle_ppu_usage_def Let_def split: sum.splits option.splits prod.splits)
    then show ?thesis
    proof cases
      case (2 ctx)
      have "bc_billing_month ctx = strftime_Ym (bc_occurred_at ctx)" using 2(1) by (rule prepare_Some)
      then show ?thesis
        using bill_usage_Inl [OF 2(2) assms(2)] prepare_moment [OF 2(1) assms(3)] bill_usage_auth [OF 2(2)] by blast
    qed simp
  qed
qed

section \<open>Numbers\<close>

lemma to_float_int: "\<bar>i\<bar> < 2 ^ 53 \<Longrightarrow> to_float (JInt i) = of_int i"
  by (simp add: to_float_def py_or_def py_float_def fl_int)

lemma dfix_small_int: "\<bar>n\<bar> < 10 ^ 28 \<Longrightarrow> dfix (of_int n) = of_int n"
  using dfix_exact [of n 0] by simp

lemma ratio_below_one:
  assumes "0 \<le> a" "a < b" "b < 10 ^ 16"
  shows "dfix (dfix (of_int a / of_int b) * 100) < 100"
proof -
  define c :: rat where "c = of_int (10 ^ 16 - 1) * 10 powi (-16)"
  have c: "c = 1 - 1 / 10 ^ 16" by (simp add: c_def power_int_minus)
  have dc: "dfix c = c" unfolding c_def by (rule dfix_exact) simp
  have b: "(0 :: rat) < of_int b" "(of_int b :: rat) \<le> 10 ^ 16"
    using assms by (simp, metis less_imp_le of_int_le_iff of_int_numeral of_int_power)
  have "(of_int a :: rat) \<le> of_int b - 1" using assms(2) by (metis of_int_1 of_int_diff of_int_le_iff zle_diff1_eq)
  then have "of_int a / of_int b \<le> 1 - 1 / (of_int b :: rat)"
    using b by (simp add: field_simps)
  also have "\<dots> \<le> c" using b unfolding c by (simp add: frac_le)
  finally have "dfix (of_int a / of_int b) \<le> c"
    using dfix_mono [of "of_int a / of_int b" c] assms b dc by simp
  moreover have "0 \<le> dfix (of_int a / (of_int b :: rat))" using assms b by simp
  ultimately have "dfix (dfix (of_int a / of_int b) * 100) \<le> dfix (c * 100)" by (intro dfix_mono) simp_all
  also have "c * 100 = of_int (10 ^ 16 - 1) * 10 powi (-14)" by (simp add: c_def power_int_minus)
  also have "dfix \<dots> = of_int (10 ^ 16 - 1) * 10 powi (-14)" by (rule dfix_exact) simp
  also have "\<dots> < 100" by (simp add: power_int_minus)
  finally show ?thesis .
qed

lemma ratio_above_one:
  assumes "0 < b" "b \<le> a" shows "100 \<le> dfix (dfix (of_int a / of_int b) * 100)"
proof -
  have one: "dfix 1 = 1" using dfix_small_int [of 1] by simp
  have "1 \<le> of_int a / (of_int b :: rat)" using assms by simp
  then have "1 \<le> dfix (of_int a / of_int b)" using dfix_mono [of 1] one by simp
  then have "dfix (1 * 100) \<le> dfix (dfix (of_int a / of_int b) * 100)" by (intro dfix_mono mult_right_mono) simp_all
  then show ?thesis using dfix_small_int [of 100] by simp
qed

end
