(* ===== verification/Handler_Props.thy ===== *)
theory Handler_Props
  imports Handler
begin

text \<open>
  What the pay-per-use handler guarantees: a redelivered or failed message is never charged twice,
  a charge moves exactly one key's spend, request spans are never billed, and the numbers that reach
  the alerts agree with the enforcement flags.
\<close>

section \<open>Properties\<close>

text \<open>A span and a consumer to evaluate the handler on.\<close>

definition ex_span :: "(string, json) dict" where
  "ex_span = [(''name'', JStr ''ai-inference''), (''context'', JObj [(''span_id'', JStr ''9f01'')]),
     (''attributes'', JObj [(''tenantId'', JStr ''5''), (''service_id'', JStr ''asr-1''), (''input_tokens'', JInt 4),
        (''output_tokens'', JInt 2), (''correlation_id'', JStr ''req-1''), (''api_key_id'', JStr ''11''),
        (''tier_id'', JStr ex_tier), (''cached_input_tokens'', JInt 1), (''authType'', JStr ''api_key'')])]"

definition ex_msg :: payload where "ex_msg = PJson (JObj ex_span)"

definition ex_ops :: "unit NotifOps" where
  "ex_ops = \<lparr>no_configured = False, no_can_fire = (\<lambda>_ _ n. ([], n)), no_emit = (\<lambda>_ n. n), no_lookup_failed = (\<lambda>_ _ n. n)\<rparr>"

definition ex_svc :: auth_service where "ex_svc = (\<lambda>_. (\<lambda>_. HResponse 200, \<lambda>_. False))"

text \<open>The example service with its price per token stored as such.\<close>

definition ex_ppu :: "unit Ppu" where
  "ex_ppu = \<lparr>pu_process = ex_process, pu_auth = \<lparr>ad_tenants = [(5, Some 1000, None, None)], ad_applications = [(1, 5)], ad_api_keys = [(11, 1)]\<rparr>,
     pu_notif = (), pu_calls = []\<rparr>"

text \<open>Without the pricing cache, so that the evaluation writes no decimal text.\<close>

definition ex_cold :: Env where "ex_cold = ex_env\<lparr>en_hget_fails := True\<rparr>"

text \<open>
  C1: Redelivery is free: once a span has been charged and marked in Redis, handling the same message
  again within the hour the mark lives, with Redis reachable, changes nothing at all, whatever else is
  down by then.
\<close>

theorem redelivery_is_free:
  assumes "get_billing_data msg = Inr (Some data)" "prepare_billing_context env data (pu_process s) = Inr (Some ctx)"
    and "bill_usage ops env ctx s = (Inr (Some out), s1)" "handle_ppu_usage ops svc env msg s = (r, s')"
    and "\<not> en_no_redis env" "\<not> en_set_fails env"
    and "\<not> en_no_redis env'" "\<not> en_exists_fails env'" "en_now env' < en_now env + 3600 * 1000000"
  shows "handle_ppu_usage ops' svc' env' msg s' = (Inr (), s')"
proof -
  obtain span_id attrs where sp: "span_id_of data = Some span_id" "attributes_of data = Some attrs"
    and name: "jget data ''name'' = JStr AI_INFERENCE_SPAN"
    and key: "bc_billed_key ctx = get_billed_key (oa_correlation_id (get_otel_attributes attrs)) span_id"
    and ab: "is_already_billed env (bc_billed_key ctx) (pu_process s) = Some False" "bc_is_already_billed ctx = Some False"
    using assms(2) by (rule prepare_Some)
  have nr: "jget data ''name'' \<noteq> JStr REQUEST_SPAN" using name by (simp add: AI_INFERENCE_SPAN_def REQUEST_SPAN_def)
  have p': "pu_process s' = update_billing_on_cache env (Some False) (bc_billed_key ctx) (pu_process s1)"
    using assms(1-4) nr ab(2) by (auto simp: handle_ppu_usage_def Let_def)
  have ne: "bc_billed_key ctx \<noteq> []" using ab(1) by (auto simp: is_already_billed_def split: if_splits)
  have "redis_get (en_now env') (rd_str (pc_redis (pu_process s'))) (bc_billed_key ctx) = Some ''1''"
    unfolding p' using assms(5,6,9) by (intro redis_set_billed) (simp_all add: BILLED_KEY_TTL_def)
  then have "is_already_billed env' (bc_billed_key ctx) (pu_process s') = Some True"
    using ne assms(7,8) by (simp add: is_already_billed_def)
  then have "prepare_billing_context env' data (pu_process s') = Inr None"
    using sp key by (intro prepare_billed) auto
  then show ?thesis using assms(1) nr by (simp add: handle_ppu_usage_def)
qed

lemma ex_data: "get_billing_data ex_msg = Inr (Some ex_span)"
  by code_simp

definition ex_ctx :: BillingContext where
  "ex_ctx = the (projr (prepare_billing_context ex_cold ex_span (pu_process ex_ppu)))"

lemma ex_prepare: "prepare_billing_context ex_cold ex_span (pu_process ex_ppu) = Inr (Some ex_ctx)"
proof -
  have "case prepare_billing_context ex_cold ex_span (pu_process ex_ppu) of Inr (Some _) \<Rightarrow> True | _ \<Rightarrow> False" by code_simp
  then show ?thesis by (auto simp: ex_ctx_def split: sum.splits option.splits)
qed

lemma ex_bill: "\<exists>out s1. bill_usage ex_ops ex_cold ex_ctx ex_ppu = (Inr (Some out), s1) \<and> bo_cost out = 8"
proof -
  have "case prepare_billing_context ex_cold ex_span (pu_process ex_ppu) of
      Inr (Some ctx) \<Rightarrow> (case bill_usage ex_ops ex_cold ctx ex_ppu of (Inr (Some out), _) \<Rightarrow> bo_cost out = 8 | _ \<Rightarrow> False)
    | _ \<Rightarrow> False"
    by code_simp
  then show ?thesis unfolding ex_prepare by (auto split: prod.splits sum.splits option.splits)
qed

theorem redelivery_is_free_witness:
  "\<exists>s'. handle_ppu_usage ex_ops ex_svc ex_cold ex_msg ex_ppu = (Inr (), s') \<and>
     handle_ppu_usage ex_ops ex_svc (ex_cold\<lparr>en_pricing_fails := True, en_now := en_now ex_cold + 1000000\<rparr>) ex_msg s' = (Inr (), s')"
proof -
  obtain out s1 where b: "bill_usage ex_ops ex_cold ex_ctx ex_ppu = (Inr (Some out), s1)" using ex_bill by blast
  have "jget ex_span ''name'' \<noteq> JStr REQUEST_SPAN" by code_simp
  then obtain s' where h: "handle_ppu_usage ex_ops ex_svc ex_cold ex_msg ex_ppu = (Inr (), s')"
    using ex_data ex_prepare b by (auto simp: handle_ppu_usage_def Let_def)
  have "\<not> en_no_redis ex_cold" "\<not> en_set_fails ex_cold" "\<not> en_exists_fails ex_cold" by (simp_all add: ex_cold_def ex_env_def)
  then show ?thesis
    using redelivery_is_free [OF ex_data ex_prepare b h, of "ex_cold\<lparr>en_pricing_fails := True, en_now := en_now ex_cold + 1000000\<rparr>" ex_ops ex_svc] h
    by auto
qed





text \<open>
  When Redis cannot answer the deduplication check of a billable span, the handler returns
  normally and bills nothing: the state does not change and the span is never charged.
\<close>

lemma redis_failure_skips_billing:
  assumes "get_billing_data msg = Inr (Some data)" "jget data ''name'' = JStr AI_INFERENCE_SPAN"
    and "span_id_of data = Some span_id" "attributes_of data = Some attrs"
    and "en_no_redis env \<or> en_exists_fails env"
  shows "handle_ppu_usage ops svc env msg s = (Inr (), s)"
proof -
  have "prepare_billing_context env data (pu_process s) = Inr None"
    using assms(3-5) by (intro prepare_billed) (auto simp: is_already_billed_def)
  moreover have "jget data ''name'' \<noteq> JStr REQUEST_SPAN" using assms(2) by (simp add: AI_INFERENCE_SPAN_def REQUEST_SPAN_def)
  ultimately show ?thesis using assms(1) by (simp add: handle_ppu_usage_def)
qed

lemma record_request_frame:
  assumes "record_request env data p = (r, p')"
  shows "db_budget (pc_db p') = db_budget (pc_db p) \<and> db_quota (pc_db p') = db_quota (pc_db p) \<and>
         rd_str (pc_redis p') = rd_str (pc_redis p)"
proof (cases "attributes_of data")
  case None
  then show ?thesis using assms by (simp add: record_request_def)
next
  case (Some attrs)
  let ?sid = "text_attr attrs ''service_id''"
  obtain pr p1 where g: "(if ?sid \<noteq> [] then get_service_pricing env ?sid p else (Inr None, p)) = (pr, p1)" by fastforce
  have p1: "pc_db p1 = pc_db p" "rd_str (pc_redis p1) = rd_str (pc_redis p)"
    using g get_service_pricing_db [of env ?sid p pr p1] by (auto split: if_splits)
  let ?tt = "request_task_type attrs (projr pr)"
  obtain ty p2 where t: "(if ?tt \<noteq> [] then get_inference_type_id env ?tt p1 else (Inr None, p1)) = (ty, p2)" by fastforce
  have p2: "pc_db p2 = pc_db p" "rd_str (pc_redis p2) = rd_str (pc_redis p)"
    using t p1 get_inference_type_id_db [of env ?tt p1 ty p2] by (auto split: if_splits)
  show ?thesis
    using assms Some g t p1 p2
    by (auto simp: record_request_def Let_def split: if_splits sum.splits option.splits prod.splits
        dest!: record_usage_event_budget)
qed

text \<open>
  A request span is counted, never billed: whatever happens while it is handled, no API key's
  spend and no quota moves, no alert is evaluated, the auth service is not called and no dedup key is
  written.
\<close>

lemma request_span_never_bills:
  assumes "get_billing_data msg = Inr (Some data)" "jget data ''name'' = JStr REQUEST_SPAN"
    and "handle_ppu_usage ops svc env msg s = (r, s')"
  shows "budget_of (pc_db (pu_process s')) = budget_of (pc_db (pu_process s)) \<and>
         quota_of (pc_db (pu_process s')) = quota_of (pc_db (pu_process s)) \<and>
         rd_str (pc_redis (pu_process s')) = rd_str (pc_redis (pu_process s)) \<and>
         pu_notif s' = pu_notif s \<and> pu_calls s' = pu_calls s"
proof -
  obtain r' p' where q: "record_request env data (pu_process s) = (r', p')" by fastforce
  then have "s' = s\<lparr>pu_process := p'\<rparr>" using assms by (simp add: handle_ppu_usage_def)
  then show ?thesis using record_request_frame [OF q] by (simp add: budget_of_def quota_of_def fun_eq_iff)
qed

definition ex_request :: "(string, json) dict" where
  "ex_request = [(''name'', JStr ''request''),
     (''attributes'', JObj [(''tenantId'', JStr ''5''), (''service_id'', JStr ''asr-1''), (''url'', JStr ''/api/v1/asr/inference''),
        (''status_code'', JInt 200), (''correlation_id'', JStr ''req-1''), (''authType'', JStr ''api_key'')])]"

text \<open>
  A span without a tier is charged all the same, and its key is never reported as exhausted: the
  spend of the key grows by the cost, no budget call goes to the auth service even when the ceiling is
  passed, and the tenant's quota is reported exhausted instead.
\<close>

lemma no_tier_charges_but_never_flags_key:
  assumes "get_billing_data msg = Inr (Some data)" "prepare_billing_context env data (pu_process s) = Inr (Some ctx)"
    and "bc_tier_id ctx = None" "bill_usage ops env ctx s = (Inr (Some out), s1)" "handle_ppu_usage ops svc env msg s = (r, s')"
  shows "budget_of (pc_db (pu_process s')) (bc_api_key_id ctx) =
           map_option (\<lambda>row. row\<lparr>bu_used := pg_round 2 (bu_used row + bo_cost out)\<rparr>) (budget_of (pc_db (pu_process s)) (bc_api_key_id ctx)) \<and>
         pu_calls s' = pu_calls s @ [auth_call svc (''/internal/ppu/tenant/'' @ bc_tenant_id ctx @ ''/quota-exhausted'')
           (JObj [(''inference_name'', JStr (pr_task_type (bo_pricing out)))])]"
proof -
  obtain pricing type_id p1 p2 wr db1 ok db2 where
    d: "deduct_balance_and_update_quota env (bc_tenant_id ctx) (bc_billing_month ctx) (billed_units ctx pricing) (cost_of ctx pricing)
         (bc_api_key_id ctx) (bc_tier_id ctx) type_id (pc_db (pu_process s)) = Inr (wr, db1)"
    and e: "record_usage_event env (usage_event ctx pricing type_id (billed_units ctx pricing) (cost_of ctx pricing) (llm_cost_of ctx pricing)) db1 = (ok, db2)"
    and p: "pu_process s1 = p2\<lparr>pc_db := db2\<rparr>" and o: "bo_cost out = cost_of ctx pricing" "bo_pricing out = pricing"
    and fl: "(bo_wallet_exhausted out, bo_quota_exhausted out) = exhaustion_flags wr pricing type_id"
    using assms(4) by (rule bill_usage_Some)
  obtain b q where f: "fused_write (bc_tenant_id ctx) (bc_billing_month ctx) (billed_units ctx pricing) (cost_of ctx pricing)
      (bc_api_key_id ctx) None type_id (pc_db (pu_process s)) = Inr ((b, q), db1)" and w: "write_result b q None = Some wr"
    using d assms(3) by (auto simp: deduct_balance_and_update_quota_def split: if_splits sum.splits option.splits)
  have "q = None" using f by (auto elim!: fused_write_cases simp: quota_upsert_def)
  then have "bw_tier_id wr = None" using w by (auto simp: write_result_def Let_def)
  then have flags: "\<not> bo_wallet_exhausted out" "bo_quota_exhausted out" using fl by (simp_all add: exhaustion_flags_def)
  have same: "budget_of db2 k = budget_of db1 k" for k
    using record_usage_event_budget [OF e] by (simp add: budget_of_def)
  have "jget data ''name'' = JStr AI_INFERENCE_SPAN" using assms(2) by (rule prepare_Some)
  then have nr: "jget data ''name'' \<noteq> JStr REQUEST_SPAN" by (simp add: AI_INFERENCE_SPAN_def REQUEST_SPAN_def)
  have "pc_db (pu_process s') = db2" "pu_calls s' = pu_calls s1 @ post_billing svc False True (bc_tenant_id ctx) (bc_api_key_id ctx) (pr_task_type pricing)"
    using assms(1,2,4,5) nr p flags o(2) by (auto simp: handle_ppu_usage_def Let_def update_billing_on_cache_def split: if_splits)
  then show ?thesis
    using fused_write_spec(1,2) [OF f] same o bill_usage_auth [OF assms(4)] by (simp add: post_billing_def)
qed

text \<open>A span of key 12, which has a ceiling of 5, without a tier.\<close>

definition ex_tierless :: "(string, json) dict" where
  "ex_tierless = [(''name'', JStr ''ai-inference''), (''context'', JObj [(''span_id'', JStr ''9f02'')]),
     (''attributes'', JObj [(''tenantId'', JStr ''5''), (''service_id'', JStr ''asr-1''), (''input_tokens'', JInt 4),
        (''correlation_id'', JStr ''req-2''), (''api_key_id'', JInt 11), (''authType'', JStr ''api_key'')])]"

definition ex_near :: "unit Ppu" where
  "ex_near = ex_ppu\<lparr>pu_process := ex_process\<lparr>pc_db := ex_db\<lparr>db_budget := [(11, \<lparr>bu_used = 95, bu_snap = Some 100\<rparr>)]\<rparr>\<rparr>\<rparr>"

lemma notify_loop_bounds:
  assumes "1 \<le> attempt" "attempt \<le> 3" "notify_loop reply late attempt = (r, n, pauses)"
  shows "1 \<le> n \<and> n \<le> 4 - attempt \<and> length pauses = n - 1 \<and>
         sum_list pauses \<le> 500 * (2 ^ 2 - 2 ^ (attempt - 1)) \<and>
         (r = Delivered \<longrightarrow> (\<exists>st. reply (attempt + n - 1) = HResponse st \<and> http_success st)) \<and>
         (r = Rejected \<longrightarrow> (\<exists>st. reply (attempt + n - 1) = HResponse st \<and> \<not> http_success st \<and> st < 500 \<and> st \<noteq> 429))"
  using assms
proof (induction reply late attempt arbitrary: r n pauses rule: notify_loop.induct)
  case (1 reply late attempt)
  note step = "1.prems"(3) [unfolded notify_loop.simps [of reply late attempt] Let_def]
  show ?case
  proof (cases "attempt \<ge> NOTIFY_AUTH_MAX_ATTEMPTS \<or> late attempt")
    case True
    then show ?thesis
      using step "1.prems"(1,2) by (auto split: http.splits if_splits)
  next
    case False
    obtain r' n' p' where rest: "notify_loop reply late (attempt + 1) = (r', n', p')" by (cases "notify_loop reply late (attempt + 1)")
    have lt: "attempt < 3" using False by (simp add: NOTIFY_AUTH_MAX_ATTEMPTS_def)
    have IH: "1 \<le> n' \<and> n' \<le> 4 - (attempt + 1) \<and> length p' = n' - 1 \<and> sum_list p' \<le> 500 * (2 ^ 2 - 2 ^ attempt) \<and>
        (r' = Delivered \<longrightarrow> (\<exists>st. reply (attempt + n') = HResponse st \<and> http_success st)) \<and>
        (r' = Rejected \<longrightarrow> (\<exists>st. reply (attempt + n') = HResponse st \<and> \<not> http_success st \<and> st < 500 \<and> st \<noteq> 429))"
      using "1.IH" [OF refl False _ _ rest] lt by simp
    have "attempt = 1 \<or> attempt = 2" using lt "1.prems"(1) by auto
    then show ?thesis
      using step False IH rest by (auto split: http.splits if_splits)
  qed
qed

text \<open>
  A call to the auth service ends: it makes at most three attempts, pauses at most one and a half
  seconds in all, stops at the first success or permanent rejection, and a rejection that is neither a
  server error nor a 429 is never retried.
\<close>

lemma notify_auth_bounded:
  assumes "notify_auth reply late = (r, n, pauses)"
  shows "1 \<le> n \<and> n \<le> 3 \<and> sum_list pauses \<le> 1500 \<and>
         (r = Delivered \<longrightarrow> (\<exists>st. reply n = HResponse st \<and> http_success st)) \<and>
         (r = Rejected \<longrightarrow> (\<exists>st. reply n = HResponse st \<and> \<not> http_success st \<and> st < 500 \<and> st \<noteq> 429))"
  using notify_loop_bounds [of 1 reply late r n pauses] assms by (auto simp: notify_auth_def)

text \<open>
  Whole token counts are billed exactly: for a span whose token counts are JSON integers, no
  rounding of doubles or of their text shows in the billed units, which are input plus output for an
  LLM service and the input alone otherwise.
\<close>

lemma whole_tokens_billed_exactly:
  assumes "prepare_billing_context env data p = Inr (Some ctx)" "attributes_of data = Some attrs"
    and "jget attrs ''input_tokens'' = JInt i" "jget attrs ''output_tokens'' = JInt j" "0 \<le> i" "0 \<le> j" "i + j < 10 ^ 15"
  shows "billed_units ctx pricing = of_int (if is_llm pricing then i + j else i)"
proof -
  have big: "(10 :: int) ^ 15 < 2 ^ 53" by simp
  have fi: "to_float (JInt i) = of_int i" and fj: "to_float (JInt j) = of_int j"
    using assms(5-7) big by (auto intro!: to_float_int)
  have "bc_input_tokens ctx = to_float (jget attrs ''input_tokens'')"
    "bc_total_tokens ctx = fl (to_float (jget attrs ''input_tokens'') + to_float (jget attrs ''output_tokens''))"
    using assms(1,2) by (auto simp: prepare_billing_context_def get_otel_attributes_def Let_def split: if_splits option.splits)
  then have inp: "bc_input_tokens ctx = of_int i" and tot: "bc_total_tokens ctx = of_int (i + j)"
    using fl_int [of "i + j"] assms(3-7) big by (auto simp: fi fj)
  show ?thesis
    using flt_repr_nat [of i] flt_repr_nat [of "i + j"] assms(5-7) by (auto simp: billed_units_def inp tot)
qed

text \<open>
  The quota alert and the quota enforcement agree: for amounts a quota column can hold, the
  percentage that is evaluated against the bands reaches 100 exactly when the write reported the quota
  as exhausted.
\<close>

lemma percent_100_iff_exhausted:
  assumes "u = of_int a / 10 ^ 4" "s = of_int b / 10 ^ 4" "0 \<le> a" "0 < b" "b < 10 ^ 16"
  shows "\<exists>p. percent (Some u) (Some s) = Some p \<and> (100 \<le> p \<longleftrightarrow> s \<le> u)"
proof -
  have ratio: "u / s = of_int a / of_int b" unfolding assms(1,2) by simp
  have s: "s \<noteq> 0" using assms(2,4) by simp
  have le: "s \<le> u \<longleftrightarrow> b \<le> a" by (simp add: assms(1,2) divide_right_mono_neg divide_le_cancel)
  show ?thesis
  proof (cases "b \<le> a")
    case True
    then show ?thesis using ratio_above_one [of b a] assms(4) s le by (auto simp: percent_def ratio)
  next
    case False
    then show ?thesis using ratio_below_one [of a b] assms(3,5) s le by (auto simp: percent_def ratio)
  qed
qed

text \<open>
  The dedup key of a span identifies it: span ids hold no colon, so two spans with the same key
  have the same correlation id, whatever text the client sent as such, and the same span id.
\<close>

lemma billed_key_identifies_span:
  assumes "get_billed_key c s = get_billed_key c' s'" "c \<noteq> []" "CHR '':'' \<notin> set s" "CHR '':'' \<notin> set s'"
  shows "c = c' \<and> s = s'"
proof -
  have "c' \<noteq> []" using assms(1,2) by (auto simp: get_billed_key_def BILLED_KEY_PREFIX_def)
  then have "c @ CHR '':'' # s = c' @ CHR '':'' # s'" using assms(1,2) by (simp add: get_billed_key_def)
  then have "rev s @ CHR '':'' # rev c = rev s' @ CHR '':'' # rev c'"
    by (metis append.assoc append_Cons append_Nil rev.simps(2) rev_append)
  from append_sep_inj [OF _ _ this] assms(3,4) show ?thesis by auto
qed

end
