(* ===== verification/Consumer_Loop.thy ===== *)
theory Consumer_Loop
  imports Handler_Props
begin

text \<open>
  The consumer loop of the pay-per-use consumer (\<open>payperuse_consumer/main.py\<close>) and the consumer it
  drives (\<open>bootstrap/consumers.py\<close>).  What the Kafka client returns (chunks of messages, rebalance
  callbacks, replies to commits) is an input; the loop's own decisions are the model: the revocation
  fence, the classification of error entries, the chunk deadline, the retry ladder, and when offsets
  are stored and committed.  The handler is an argument, so the facts hold for any; the composition
  with \<open>handle_ppu_usage\<close> is at the end.
\<close>

section \<open>Messages and the managed consumer\<close>

type_synonym tp = "string \<times> int"

datatype kafka_error = KE_PARTITION_EOF | KE_AUTO_OFFSET_RESET | KE_NO_OFFSET | KE_ASSIGNMENT_LOST | KE_OTHER bool

text \<open>\<open>err.fatal()\<close>\<close>

fun fatal :: "kafka_error \<Rightarrow> bool" where
  "fatal (KE_OTHER b) = b"
| "fatal _ = False"

record Msg =
  mg_tp :: tp
  mg_offset :: nat
  mg_error :: "kafka_error option"
  mg_payload :: payload

datatype CommitMode = PER_MESSAGE | PER_BATCH

record Consumer =
  cs_assigned :: "tp list"
  cs_generation :: nat
  cs_mode :: CommitMode
  cs_stored :: "(tp, nat) dict"
  cs_committed :: "(tp, nat) dict"

definition owns :: "Consumer \<Rightarrow> Msg \<Rightarrow> bool" where
  "owns c msg \<longleftrightarrow> mg_tp msg \<in> set (cs_assigned c)"

definition on_assign :: "tp list \<Rightarrow> Consumer \<Rightarrow> Consumer" where
  "on_assign partitions c =
     c\<lparr>cs_assigned := cs_assigned c @ filter (\<lambda>p. p \<notin> set (cs_assigned c)) (fromkeys partitions), cs_generation := cs_generation c + 1\<rparr>"

definition drop_partitions :: "tp list \<Rightarrow> Consumer \<Rightarrow> Consumer" where
  "drop_partitions partitions c =
     c\<lparr>cs_assigned := filter (\<lambda>p. p \<notin> set partitions) (cs_assigned c), cs_generation := cs_generation c + 1\<rparr>"

definition on_revoke :: "tp list \<Rightarrow> Consumer \<Rightarrow> Consumer" where
  "on_revoke partitions c = drop_partitions partitions c"

definition on_lost :: "tp list \<Rightarrow> Consumer \<Rightarrow> Consumer" where
  "on_lost partitions c = drop_partitions partitions c"

text \<open>\<open>store_offsets(message=msg)\<close> records the offset after the message, as a high-water mark.\<close>

definition store_processed :: "Msg \<Rightarrow> Consumer \<Rightarrow> Consumer" where
  "store_processed msg c =
     c\<lparr>cs_stored := dict_set (mg_tp msg)
         (case dict_get (cs_stored c) (mg_tp msg) of Some n \<Rightarrow> max n (mg_offset msg + 1) | None \<Rightarrow> mg_offset msg + 1) (cs_stored c)\<rparr>"

text \<open>
  A synchronous commit: the client's reply is a success, or an error code.  A success makes the
  stored offsets of the assigned partitions the committed ones.
\<close>

datatype commit_reply = CommitOk | CommitError kafka_error

definition commit_stored :: "commit_reply \<Rightarrow> Consumer \<Rightarrow> (kafka_error, Consumer) res" where
  "commit_stored reply c =
     (case reply of
        CommitOk \<Rightarrow> Inr (c\<lparr>cs_committed := fold (\<lambda>(p, n) d. if p \<in> set (cs_assigned c) then dict_set p n d else d) (cs_stored c) (cs_committed c)\<rparr>)
      | CommitError e \<Rightarrow> if e = KE_NO_OFFSET \<or> e = KE_ASSIGNMENT_LOST then Inr c else Inl e)"

definition record_processed :: "commit_reply \<Rightarrow> Msg \<Rightarrow> bool \<Rightarrow> Consumer \<Rightarrow> (kafka_error, Consumer) res" where
  "record_processed reply msg flush c =
     (let c1 = store_processed msg c
      in if cs_mode c = PER_MESSAGE \<or> flush then commit_stored reply c1 else Inr c1)"

section \<open>\<open>main.py\<close>\<close>

text \<open>Whether a fetched entry is a message to handle; two kinds of error take the process down.\<close>

definition usable :: "Msg \<Rightarrow> (kafka_error, bool) res" where
  "usable msg =
     (case mg_error msg of
        None \<Rightarrow> Inr True
      | Some err \<Rightarrow>
          if err = KE_PARTITION_EOF then Inr False
          else if err = KE_AUTO_OFFSET_RESET then Inl err
          else if fatal err then Inl err
          else Inr False)"

definition MAX_ATTEMPTS :: nat where "MAX_ATTEMPTS = 3"
definition BACKOFF_BASE_MS :: nat where "BACKOFF_BASE_MS = 2000"

text \<open>
  The retry ladder from an attempt on.  \<open>handler attempt\<close> says whether the call returned; the result
  is whether the message was handled (else dropped), the attempts made and the pauses.
\<close>

function retry_loop :: "(nat \<Rightarrow> 'w \<Rightarrow> bool \<times> 'w) \<Rightarrow> nat \<Rightarrow> 'w \<Rightarrow> (bool \<times> nat \<times> nat list) \<times> 'w" where
  "retry_loop handler attempt w =
     (let (ok, w') = handler attempt w in
      if ok then ((True, 1, []), w')
      else if attempt \<ge> MAX_ATTEMPTS then ((False, 1, []), w')
      else let ((r, n, pauses), w'') = retry_loop handler (attempt + 1) w'
           in ((r, n + 1, BACKOFF_BASE_MS * 2 ^ (attempt - 1) # pauses), w''))"
  by pat_completeness auto

termination
  by (relation "measure (\<lambda>(_, attempt, _). MAX_ATTEMPTS - attempt)") auto

declare retry_loop.simps [simp del]

definition handle_with_retry :: "(nat \<Rightarrow> 'w \<Rightarrow> bool \<times> 'w) \<Rightarrow> 'w \<Rightarrow> (bool \<times> nat \<times> nat list) \<times> 'w" where
  "handle_with_retry handler w = retry_loop handler 1 w"

text \<open>
  The state of the loop: the consumer, the world the handler works on, and the messages the handler
  was called for, in order.
\<close>

record 'w Loop =
  lp_consumer :: Consumer
  lp_world :: 'w
  lp_handled :: "Msg list"

text \<open>
  One chunk.  \<open>late i\<close>: the deadline has passed when message \<open>i\<close> comes up; \<open>reply i\<close>: the client's answer
  to the commit after it.  The first component is the Kafka error that leaves the loop.
\<close>

fun process_chunk ::
  "(Msg \<Rightarrow> nat \<Rightarrow> 'w \<Rightarrow> bool \<times> 'w) \<Rightarrow> (nat \<Rightarrow> bool) \<Rightarrow> (nat \<Rightarrow> commit_reply) \<Rightarrow> nat \<Rightarrow> Msg list \<Rightarrow> 'w Loop
     \<Rightarrow> kafka_error option \<times> 'w Loop" where
  "process_chunk handler late reply i [] s = (None, s)"
| "process_chunk handler late reply i (msg # chunk) s =
     (if \<not> owns (lp_consumer s) msg then process_chunk handler late reply (i + 1) chunk s
      else case usable msg of
             Inl e \<Rightarrow> (Some e, s)
           | Inr False \<Rightarrow> process_chunk handler late reply (i + 1) chunk s
           | Inr True \<Rightarrow>
               if late i then (None, s)
               else let (_, w) = handle_with_retry (handler msg) (lp_world s);
                        s1 = s\<lparr>lp_world := w, lp_handled := lp_handled s @ [msg]\<rparr>
                    in case record_processed (reply i) msg (chunk = []) (lp_consumer s) of
                         Inl e \<Rightarrow> (Some e, s1)
                       | Inr c \<Rightarrow> process_chunk handler late reply (i + 1) chunk (s1\<lparr>lp_consumer := c\<rparr>))"

text \<open>
  What one call of \<open>consume\<close> comes to: the rebalance callbacks it runs, then a chunk or a fetch error.
\<close>

datatype rebalance = Assigned "tp list" | Revoked "tp list" | Lost "tp list"

fun on_rebalance :: "rebalance \<Rightarrow> Consumer \<Rightarrow> Consumer" where
  "on_rebalance (Assigned ps) c = on_assign ps c"
| "on_rebalance (Revoked ps) c = on_revoke ps c"
| "on_rebalance (Lost ps) c = on_lost ps c"

record Fetch =
  ft_rebalances :: "rebalance list"
  ft_chunk :: "(kafka_error, Msg list) res"
  ft_late :: "nat \<Rightarrow> bool"
  ft_reply :: "nat \<Rightarrow> commit_reply"

text \<open>The loop over the fetches until shutdown.\<close>

fun run_loop :: "(Msg \<Rightarrow> nat \<Rightarrow> 'w \<Rightarrow> bool \<times> 'w) \<Rightarrow> Fetch list \<Rightarrow> 'w Loop \<Rightarrow> kafka_error option \<times> 'w Loop" where
  "run_loop handler [] s = (None, s)"
| "run_loop handler (f # fs) s =
     (let s1 = s\<lparr>lp_consumer := fold on_rebalance (ft_rebalances f) (lp_consumer s)\<rparr> in
      case ft_chunk f of
        Inl e \<Rightarrow> if fatal e then (Some e, s1) else run_loop handler fs s1
      | Inr chunk \<Rightarrow>
          (case process_chunk handler (ft_late f) (ft_reply f) 0 chunk s1 of
             (Some e, s2) \<Rightarrow> (Some e, s2)
           | (None, s2) \<Rightarrow> run_loop handler fs s2))"

section \<open>The retry ladder\<close>

lemma retry_loop_bounds:
  assumes "1 \<le> attempt" "attempt \<le> 3" "retry_loop handler attempt w = ((ok, n, pauses), w')"
  shows "1 \<le> n \<and> n \<le> 4 - attempt \<and> pauses = map (\<lambda>k. 2000 * 2 ^ (k - 1)) [attempt..<attempt + n - 1] \<and> (\<not> ok \<longrightarrow> n = 4 - attempt)"
  using assms
proof (induction handler attempt w arbitrary: ok n pauses w' rule: retry_loop.induct)
  case (1 handler attempt w)
  obtain b v where h: "handler attempt w = (b, v)" by fastforce
  note step = "1.prems"(3) [unfolded retry_loop.simps [of handler attempt w] h Let_def prod.case]
  show ?case
  proof (cases "b \<or> attempt \<ge> MAX_ATTEMPTS")
    case True
    then show ?thesis using step "1.prems"(1,2) by (auto simp: MAX_ATTEMPTS_def split: if_splits)
  next
    case False
    obtain r n' p' v' where rest: "retry_loop handler (attempt + 1) v = ((r, n', p'), v')"
      by (cases "retry_loop handler (attempt + 1) v") auto
    have lt: "attempt < 3" using False by (simp add: MAX_ATTEMPTS_def)
    have IH: "1 \<le> n' \<and> n' \<le> 4 - (attempt + 1) \<and>
        p' = map (\<lambda>k. 2000 * 2 ^ (k - 1)) [attempt + 1..<attempt + 1 + n' - 1] \<and> (\<not> r \<longrightarrow> n' = 4 - (attempt + 1))"
      using "1.IH" [OF refl h [symmetric] _ _ _ _ rest] False lt by simp
    have "[attempt..<attempt + (n' + 1) - 1] = attempt # [attempt + 1..<attempt + 1 + n' - 1]"
      using IH by (simp add: upt_rec)
    then show ?thesis using step False IH rest lt by (auto simp: BACKOFF_BASE_MS_def)
  qed
qed

lemma retry_invariant:
  assumes "\<forall>k v b v'. I v \<longrightarrow> handler k v = (b, v') \<longrightarrow> \<not> b \<longrightarrow> I v'"
    and "I w" "retry_loop handler attempt w = ((ok, n, pauses), w')"
  shows "1 \<le> n \<and> (if ok then \<exists>v. I v \<and> handler (attempt + n - 1) v = (True, w') else I w')"
  using assms
proof (induction handler attempt w arbitrary: ok n pauses w' rule: retry_loop.induct)
  case (1 handler attempt w)
  obtain b v where h: "handler attempt w = (b, v)" by fastforce
  note step = "1.prems"(3) [unfolded retry_loop.simps [of handler attempt w] h Let_def prod.case]
  show ?case
  proof (cases "b \<or> attempt \<ge> MAX_ATTEMPTS")
    case True
    then show ?thesis using step "1.prems"(1,2) h by (auto split: if_splits)
  next
    case False
    obtain r n' p' v' where rest: "retry_loop handler (attempt + 1) v = ((r, n', p'), v')"
      by (cases "retry_loop handler (attempt + 1) v") auto
    have "I v" using "1.prems"(1,2) h False by blast
    then have "1 \<le> n' \<and> (if r then \<exists>x. I x \<and> handler (attempt + 1 + n' - 1) x = (True, v') else I v')"
      using "1.IH" [OF refl h [symmetric] _ _ "1.prems"(1) _ rest] False by blast
    then show ?thesis using step False rest by auto
  qed
qed

section \<open>Offsets follow the handler\<close>

text \<open>
  Every offset that is stored or committed was so at the start, or is the one after a message the
  handler has been called for.
\<close>

definition offset_ok :: "(tp \<times> nat) set \<Rightarrow> Msg list \<Rightarrow> tp \<times> nat \<Rightarrow> bool" where
  "offset_ok base handled pn \<longleftrightarrow> pn \<in> base \<or> (\<exists>m \<in> set handled. pn = (mg_tp m, mg_offset m + 1))"

definition offsets_ok :: "(tp \<times> nat) set \<Rightarrow> Consumer \<Rightarrow> Msg list \<Rightarrow> bool" where
  "offsets_ok base c handled \<longleftrightarrow>
     (\<forall>pn \<in> set (cs_stored c). offset_ok base handled pn) \<and> (\<forall>pn \<in> set (cs_committed c). offset_ok base handled pn)"

lemma offset_ok_mono: "offset_ok base handled pn \<Longrightarrow> offset_ok base (handled @ ms) pn"
  by (auto simp: offset_ok_def)

lemma store_processed_ok:
  assumes "offsets_ok base c handled"
  shows "offsets_ok base (store_processed msg c) (handled @ [msg])"
proof -
  have new: "offset_ok base (handled @ [msg]) (mg_tp msg, mg_offset msg + 1)" by (simp add: offset_ok_def)
  have old: "offset_ok base (handled @ [msg]) (mg_tp msg, n)" if "dict_get (cs_stored c) (mg_tp msg) = Some n" for n
    using assms map_of_SomeD [OF that] by (auto simp: offsets_ok_def intro: offset_ok_mono)
  have "offset_ok base (handled @ [msg]) pn" if "pn \<in> set (cs_stored (store_processed msg c))" for pn
    using that new old assms
    by (auto simp: store_processed_def offsets_ok_def max_def intro: offset_ok_mono dest!: set_dict_set split: option.splits if_splits)
  then show ?thesis using assms by (auto simp: offsets_ok_def store_processed_def intro: offset_ok_mono)
qed

lemma fold_commit:
  "pn \<in> set (fold (\<lambda>(p, n) d. if p \<in> A then dict_set p n d else d) stored d) \<Longrightarrow> pn \<in> set stored \<or> pn \<in> set d"
proof (induction stored arbitrary: d)
  case (Cons x xs)
  then show ?case by (cases x) (auto split: if_splits dest!: Cons.IH set_dict_set)
qed simp

lemma commit_stored_ok: "offsets_ok base c handled \<Longrightarrow> commit_stored reply c = Inr c' \<Longrightarrow> offsets_ok base c' handled"
  by (auto simp: commit_stored_def offsets_ok_def split: commit_reply.splits if_splits dest!: fold_commit)

lemma record_processed_ok:
  "offsets_ok base c handled \<Longrightarrow> record_processed reply msg flush c = Inr c' \<Longrightarrow> offsets_ok base c' (handled @ [msg])"
  using store_processed_ok [of base c handled msg]
  by (auto simp: record_processed_def Let_def split: if_splits intro: commit_stored_ok)

lemma rebalance_offsets: "cs_stored (on_rebalance r c) = cs_stored c" "cs_committed (on_rebalance r c) = cs_committed c"
  "cs_mode (on_rebalance r c) = cs_mode c"
  by (cases r; simp add: on_assign_def on_revoke_def on_lost_def drop_partitions_def)+

lemma rebalances_offsets:
  "cs_stored (fold on_rebalance rs c) = cs_stored c" "cs_committed (fold on_rebalance rs c) = cs_committed c"
  "cs_mode (fold on_rebalance rs c) = cs_mode c"
  by (induction rs arbitrary: c) (simp_all add: rebalance_offsets)

lemma record_processed_assigned: "record_processed reply msg flush c = Inr c' \<Longrightarrow> cs_assigned c' = cs_assigned c \<and> cs_mode c' = cs_mode c"
  by (auto simp: record_processed_def Let_def commit_stored_def store_processed_def split: if_splits commit_reply.splits)

text \<open>A chunk hands on messages of it that are owned and no error entries, in order.\<close>

definition handleable :: "Consumer \<Rightarrow> Msg \<Rightarrow> bool" where
  "handleable c m \<longleftrightarrow> owns c m \<and> mg_error m = None"

lemma usable_True: "usable m = Inr True \<longleftrightarrow> mg_error m = None"
  by (auto simp: usable_def split: option.splits)

lemma process_chunk_spec:
  assumes "process_chunk handler late reply i chunk s = (e, s')" "offsets_ok base (lp_consumer s) (lp_handled s)"
  shows "offsets_ok base (lp_consumer s') (lp_handled s') \<and> cs_assigned (lp_consumer s') = cs_assigned (lp_consumer s) \<and>
         cs_mode (lp_consumer s') = cs_mode (lp_consumer s) \<and>
         (\<exists>k. lp_handled s' = lp_handled s @ filter (handleable (lp_consumer s)) (take k chunk))"
  using assms
proof (induction chunk arbitrary: i s)
  case (Cons msg chunk)
  have skip: ?case if "process_chunk handler late reply (i + 1) chunk s = (e, s')" "\<not> handleable (lp_consumer s) msg"
  proof -
    from Cons.IH [OF that(1) Cons.prems(2)] obtain k where "lp_handled s' = lp_handled s @ filter (handleable (lp_consumer s)) (take k chunk)"
      by blast
    then have "lp_handled s' = lp_handled s @ filter (handleable (lp_consumer s)) (take (Suc k) (msg # chunk))" using that(2) by simp
    then show ?thesis using Cons.IH [OF that(1) Cons.prems(2)] by blast
  qed
  have stop: ?case if "s' = s" using that Cons.prems(2) by (auto intro!: exI [of _ 0])
  show ?case
  proof (cases "owns (lp_consumer s) msg \<and> usable msg = Inr True \<and> \<not> late i")
    case False
    then show ?thesis using Cons.prems(1) skip stop
      by (auto simp: handleable_def usable_True [symmetric] split: if_splits sum.splits bool.splits)
  next
    case True
    obtain r w where h: "handle_with_retry (handler msg) (lp_world s) = (r, w)" by fastforce
    let ?s1 = "s\<lparr>lp_world := w, lp_handled := lp_handled s @ [msg]\<rparr>"
    have ok: "handleable (lp_consumer s) msg" using True by (simp add: handleable_def usable_True)
    show ?thesis
    proof (cases "record_processed (reply i) msg (chunk = []) (lp_consumer s)")
      case (Inl err)
      then have "s' = ?s1" using Cons.prems(1) True h by (simp add: Let_def)
      moreover have "offsets_ok base (lp_consumer s) (lp_handled s @ [msg])"
        using Cons.prems(2) by (auto simp: offsets_ok_def intro: offset_ok_mono)
      ultimately show ?thesis using ok by (auto intro!: exI [of _ 1])
    next
      case (Inr c)
      let ?s2 = "?s1\<lparr>lp_consumer := c\<rparr>"
      have rest: "process_chunk handler late reply (i + 1) chunk ?s2 = (e, s')"
        using Cons.prems(1) True h Inr by (simp add: Let_def)
      have off: "offsets_ok base (lp_consumer ?s2) (lp_handled ?s2)"
        using record_processed_ok [OF Cons.prems(2) Inr] by simp
      have as: "cs_assigned c = cs_assigned (lp_consumer s)" "cs_mode c = cs_mode (lp_consumer s)"
        using record_processed_assigned [OF Inr] by simp_all
      then have same: "handleable (lp_consumer ?s2) = handleable (lp_consumer s)"
        by (simp add: handleable_def owns_def fun_eq_iff)
      from Cons.IH [OF rest off] obtain k where k: "lp_handled s' = lp_handled ?s2 @ filter (handleable (lp_consumer s)) (take k chunk)"
        unfolding same by blast
      then have "lp_handled s' = lp_handled s @ filter (handleable (lp_consumer s)) (take (Suc k) (msg # chunk))" using ok by simp
      then show ?thesis using Cons.IH [OF rest off] as by (auto simp del: take_Suc_Cons)
    qed
  qed
qed (auto intro!: exI [of _ 0])

lemma run_loop_ok:
  assumes "run_loop handler fs s = (e, s')" "offsets_ok base (lp_consumer s) (lp_handled s)"
  shows "offsets_ok base (lp_consumer s') (lp_handled s')"
  using assms
proof (induction fs arbitrary: s)
  case (Cons f fs)
  let ?s1 = "s\<lparr>lp_consumer := fold on_rebalance (ft_rebalances f) (lp_consumer s)\<rparr>"
  have off: "offsets_ok base (lp_consumer ?s1) (lp_handled ?s1)"
    using Cons.prems(2) by (simp add: offsets_ok_def rebalances_offsets)
  show ?case
  proof (cases "ft_chunk f")
    case (Inl x)
    then show ?thesis using Cons.prems(1) Cons.IH [OF _ off] off by (auto simp: Let_def split: if_splits)
  next
    case (Inr chunk)
    obtain x s2 where p: "process_chunk handler (ft_late f) (ft_reply f) 0 chunk ?s1 = (x, s2)" by fastforce
    then have "offsets_ok base (lp_consumer s2) (lp_handled s2)" using process_chunk_spec [OF p off] by blast
    then show ?thesis using Cons.prems(1) Cons.IH p Inr by (auto simp: Let_def split: option.splits)
  qed
qed simp

section \<open>Properties\<close>



text \<open>The handler of the pay-per-use consumer, in the surroundings each attempt meets.\<close>

definition ppu_attempt ::
  "'n NotifOps \<Rightarrow> auth_service \<Rightarrow> (nat \<Rightarrow> Env) \<Rightarrow> Msg \<Rightarrow> nat \<Rightarrow> 'n Ppu \<Rightarrow> bool \<times> 'n Ppu" where
  "ppu_attempt ops svc envs msg attempt s =
     (let (r, s') = handle_ppu_usage ops svc (envs attempt) (mg_payload msg) s in (\<not> isl r, s'))"

lemma handle_auth: "handle_ppu_usage ops svc env msg s = (r, s') \<Longrightarrow> pu_auth s' = pu_auth s"
  by (auto simp: handle_ppu_usage_def Let_def split: sum.splits option.splits if_splits prod.splits dest!: bill_usage_auth)


definition ex_kmsg :: Msg where
  "ex_kmsg = \<lparr>mg_tp = (''spans'', 0), mg_offset = 41, mg_error = None, mg_payload = ex_msg\<rparr>"

definition ex_envs :: "nat \<Rightarrow> Env" where
  "ex_envs k = (if k = 1 then ex_cold\<lparr>en_pricing_fails := True\<rparr> else ex_cold)"



text \<open>A consumer of two partitions, and a handler that counts.\<close>

definition ex_consumer :: Consumer where
  "ex_consumer = \<lparr>cs_assigned = [(''spans'', 0), (''spans'', 1)], cs_generation = 1, cs_mode = PER_MESSAGE, cs_stored = [], cs_committed = []\<rparr>"

definition ex_loop :: "nat Loop" where
  "ex_loop = \<lparr>lp_consumer = ex_consumer, lp_world = 0, lp_handled = []\<rparr>"

definition ex_count :: "Msg \<Rightarrow> nat \<Rightarrow> nat \<Rightarrow> bool \<times> nat" where
  "ex_count msg attempt w = (True, Suc w)"

definition ex_at :: "int \<Rightarrow> nat \<Rightarrow> Msg" where
  "ex_at p n = \<lparr>mg_tp = (''spans'', p), mg_offset = n, mg_error = None, mg_payload = PEmpty\<rparr>"

definition ex_fetch :: "rebalance list \<Rightarrow> Msg list \<Rightarrow> (nat \<Rightarrow> bool) \<Rightarrow> Fetch" where
  "ex_fetch rs chunk late = \<lparr>ft_rebalances = rs, ft_chunk = Inr chunk, ft_late = late, ft_reply = (\<lambda>_. CommitOk)\<rparr>"


text \<open>
  The fence: a message of a partition that the fetch itself revoked (or lost) is never handled,
  and the other messages of the chunk still are, in order, up to where the chunk ends.
\<close>

lemma revoked_partition_not_handled:
  assumes "p \<in> set ps" "process_chunk handler late reply 0 chunk (s\<lparr>lp_consumer := on_revoke ps (lp_consumer s)\<rparr>) = (e, s')"
  shows "\<exists>k. lp_handled s' = lp_handled s @ filter (handleable (on_revoke ps (lp_consumer s))) (take k chunk) \<and>
             (\<forall>m \<in> set (filter (handleable (on_revoke ps (lp_consumer s))) (take k chunk)). mg_tp m \<noteq> p)"
proof -
  let ?s = "s\<lparr>lp_consumer := on_revoke ps (lp_consumer s)\<rparr>"
  have "offsets_ok (set (cs_stored (lp_consumer ?s)) \<union> set (cs_committed (lp_consumer ?s))) (lp_consumer ?s) (lp_handled ?s)"
    by (auto simp: offsets_ok_def offset_ok_def)
  from process_chunk_spec [OF assms(2) this] obtain k where
    "lp_handled s' = lp_handled s @ filter (handleable (on_revoke ps (lp_consumer s))) (take k chunk)" by auto
  moreover have "\<not> handleable (on_revoke ps (lp_consumer s)) m" if "mg_tp m = p" for m
    using that assms(1) by (auto simp: handleable_def owns_def on_revoke_def drop_partitions_def)
  ultimately show ?thesis by auto
qed

text \<open>
  A chunk that is left at its deadline can lose messages: the client hands out the messages after
  the last one it returned, so when the first of two messages of a chunk is handled, the deadline stops
  the second, and the next chunk begins with the third, the third one's commit passes the second, which
  no handler call ever saw.
\<close>

lemma deadline_passes_over_message:
  assumes "mg_tp m0 = p" "mg_tp m1 = p" "mg_tp m2 = p" "p \<in> set (cs_assigned (lp_consumer s))" "cs_mode (lp_consumer s) = PER_MESSAGE"
    and "mg_error m0 = None" "mg_error m1 = None" "mg_error m2 = None"
    and "mg_offset m1 = mg_offset m0 + 1" "mg_offset m2 = mg_offset m1 + 1" "cs_stored (lp_consumer s) = []"
    and "run_loop handler [ex_fetch [] [m0, m1] (\<lambda>i. 0 < i), ex_fetch [] [m2] (\<lambda>_. False)] s = (e, s')"
  shows "e = None \<and> lp_handled s' = lp_handled s @ [m0, m2] \<and> dict_get (cs_committed (lp_consumer s')) p = Some (mg_offset m1 + 2)"
proof -
  obtain r0 w0 where h0: "handle_with_retry (handler m0) (lp_world s) = (r0, w0)" by fastforce
  obtain r2 w2 where h2: "handle_with_retry (handler m2) w0 = (r2, w2)" by fastforce
  show ?thesis
    using assms h0 h2
    by (auto simp: ex_fetch_def Let_def owns_def usable_def record_processed_def store_processed_def commit_stored_def)
qed

end
