(* ===== verification/Notif_Runtime.thy ===== *)
theory Notif_Runtime
  imports Effects Ledger Pipeline_Items
begin

text \<open>
  The process-wide notification runtime: its configuration (\<open>config.py\<close>, \<open>runtime.py\<close>), the state one
  process and the stores it shares have, and the failure log (\<open>failure_log.py\<close>).

  Everything outside the process is a \<open>World\<close>: the clocks, fresh uuids, and for every external operation,
  numbered in the order the process makes them, whether it fails and with which exception.  A statement on
  these definitions holds for every world, so for every pattern of failures.  Third-party code is a
  parameter in the same way: SHA-256, the decryption of e-mail addresses, the exceptions of caller-supplied builders, the trace id of OpenTelemetry and
  the entries the in-process caches of \<open>cachetools\<close> choose to evict.

  Redis values are parsed JSON (\<open>json.loads\<close> undoes \<open>json.dumps\<close> on the values written here) or a text that
  is no JSON.  Prometheus counters are not modelled, except the decisions.
\<close>

section \<open>Constants\<close>

definition NOTIFICATION_TOPIC :: string where "NOTIFICATION_TOPIC = ''notification.events''"
definition SETTINGS_FILL_LOCK_KEY :: string where "SETTINGS_FILL_LOCK_KEY = REDIS_KEY_PREFIX @ ''lock:settings-fill''"
definition INVALIDATION_CHANNEL :: string where "INVALIDATION_CHANNEL = REDIS_KEY_PREFIX @ ''invalidate''"
definition SETTINGS_FILL_LOCK_TTL_MS :: int where "SETTINGS_FILL_LOCK_TTL_MS = 5000"
definition SETTINGS_FILL_POLL_ATTEMPTS :: nat where "SETTINGS_FILL_POLL_ATTEMPTS = 5"
definition SETTINGS_FILL_BACKOFF_S :: int where "SETTINGS_FILL_BACKOFF_S = 5"
definition STALE_SETTINGS_MAX_AGE_S :: int where "STALE_SETTINGS_MAX_AGE_S = 3600"

definition DEFAULT_L1_SETTINGS_TTL_S :: int where "DEFAULT_L1_SETTINGS_TTL_S = 60"
definition DEFAULT_L1_SUB_TTL_S :: int where "DEFAULT_L1_SUB_TTL_S = 60"
definition DEFAULT_L1_LEDGER_TTL_S :: int where "DEFAULT_L1_LEDGER_TTL_S = 30"
definition DEFAULT_REDIS_SETTINGS_TTL_S :: int where "DEFAULT_REDIS_SETTINGS_TTL_S = 600"
definition DEFAULT_REDIS_SUB_TTL_S :: int where "DEFAULT_REDIS_SUB_TTL_S = 600"
definition DEFAULT_REDIS_LEDGER_TTL_S :: int where "DEFAULT_REDIS_LEDGER_TTL_S = 900"
definition DEFAULT_FAILURE_THROTTLE_S :: int where "DEFAULT_FAILURE_THROTTLE_S = 60"
definition DEFAULT_MONITOR_COOLDOWN_S :: int where "DEFAULT_MONITOR_COOLDOWN_S = 1800"
definition DEFAULT_FAILURE_RETENTION_DAYS :: int where "DEFAULT_FAILURE_RETENTION_DAYS = 30"

text \<open>\<open>NotificationSettings\<close>; the two sizes of the in-process caches only bound what \<open>w_evict\<close> may do.\<close>

record NotificationSettings =
  notif_l1_settings_ttl_s :: int
  notif_l1_sub_ttl_s :: int
  notif_l1_ledger_ttl_s :: int
  notif_redis_settings_ttl_s :: int
  notif_redis_sub_ttl_s :: int
  notif_redis_ledger_ttl_s :: int
  notif_failure_throttle_s :: int
  notif_failure_retention_days :: int
  notif_monitor_cooldown_s :: int

definition default_settings :: NotificationSettings where
  "default_settings = \<lparr>notif_l1_settings_ttl_s = DEFAULT_L1_SETTINGS_TTL_S, notif_l1_sub_ttl_s = DEFAULT_L1_SUB_TTL_S,
     notif_l1_ledger_ttl_s = DEFAULT_L1_LEDGER_TTL_S, notif_redis_settings_ttl_s = DEFAULT_REDIS_SETTINGS_TTL_S,
     notif_redis_sub_ttl_s = DEFAULT_REDIS_SUB_TTL_S, notif_redis_ledger_ttl_s = DEFAULT_REDIS_LEDGER_TTL_S,
     notif_failure_throttle_s = DEFAULT_FAILURE_THROTTLE_S, notif_failure_retention_days = DEFAULT_FAILURE_RETENTION_DAYS,
     notif_monitor_cooldown_s = DEFAULT_MONITOR_COOLDOWN_S\<rparr>"

section \<open>The world\<close>

record err =
  er_class :: string
  er_text :: string

record World =
  w_now :: "nat \<Rightarrow> datetime"
  w_mono :: "nat \<Rightarrow> int"                        \<comment> \<open>\<open>time.monotonic\<close>, microseconds\<close>
  w_fails :: "nat \<Rightarrow> err option"
  w_uuid :: "nat \<Rightarrow> string"
  w_trace :: "nat \<Rightarrow> string option"
  w_evict :: "nat \<Rightarrow> string \<Rightarrow> bool"
  w_db_error :: "db_error \<Rightarrow> err"
  w_sha256 :: "string \<Rightarrow> string"
  w_decrypt :: "string option \<Rightarrow> (err, string option) res"
  w_builder_error :: err                        \<comment> \<open>what a failing details builder raises\<close>

section \<open>Tables\<close>

record ConfigRow =
  cg_id :: int
  cg_name :: string
  cg_type :: string
  cg_module :: string
  cg_scope :: string
  cg_channels :: "string list"
  cg_recipient_roles :: "(string, json) dict"

record ThresholdRow =
  th_notification_id :: int
  th_band_value :: rat
  th_unit :: string
  th_severity :: string
  th_active :: bool

record SubscriptionRow =
  sb_tenant_id :: string
  sb_notification_id :: int
  sb_subscribed :: bool
  sb_recipients :: "string list"

record UserRow =
  us_id :: int
  us_tenant_id :: "int option"
  us_email :: "string option"
  us_full_name :: "string option"
  us_is_active :: "bool option"
  us_is_delete :: "bool option"
  us_roles :: "string list"

record FailureRow =
  fr_event_id :: "string option"
  fr_notification_name :: string
  fr_notification_id :: "int option"
  fr_tenant_id :: "string option"
  fr_subject :: "string option"
  fr_producer :: string
  fr_pod_name :: "string option"
  fr_stage :: string
  fr_error_code :: string
  fr_error_message :: string
  fr_error_detail :: "(string, json) dict"
  fr_created_at :: datetime

section \<open>The state\<close>

datatype rval = RJson json | RText string

datatype cached = CSettings SettingsSnapshot | CSubs TenantSubscriptions | CLedger LedgerState

text \<open>
  Process state first, then the stores.  \<open>rt_inflight\<close> holds the futures of loads other coroutines of the
  process have begun, with the outcome each of them is going to have.
\<close>

record Rt =
  rt_tick :: nat
  rt_override :: "Producer option"
  rt_throttle :: "(string list, int \<times> nat) dict"
  rt_settings_l1 :: "(string, SettingsSnapshot \<times> int) dict"
  rt_subs_l1 :: "(string, TenantSubscriptions \<times> int) dict"
  rt_ledger_l1 :: "(string, LedgerState \<times> int) dict"
  rt_last_good :: "(SettingsSnapshot \<times> int) option"
  rt_settings_fill_failed_at :: "int option"
  rt_inflight :: "(string, (err, cached) res) dict"
  rt_decisions :: "(string \<times> Decision) list"
  rt_unwritten :: "FailureRow list"             \<comment> \<open>failure rows that only reached the service log\<close>
  rt_redis :: "(string, rval \<times> expiry) dict"
  rt_channel :: "json list"                     \<comment> \<open>invalidations published\<close>
  rt_configs :: "ConfigRow list"
  rt_thresholds :: "ThresholdRow list"
  rt_subscriptions :: "SubscriptionRow list"
  rt_ledger :: ledger
  rt_failures :: "FailureRow list"
  rt_users :: "UserRow list"
  rt_tenants :: "(int, string option) dict"     \<comment> \<open>\<open>tenants.organisation\<close>\<close>
  rt_kafka :: "(string \<times> string \<times> json) list"  \<comment> \<open>topic, key and value handed to the producer\<close>

type_synonym 'a rt = "(Rt, 'a) state"

record NotificationRuntime =
  nr_config :: NotificationSettings
  nr_producer :: Producer
  nr_pod_name :: "string option"
  nr_origin :: string
  nr_topic :: string

definition origin_of :: "string \<Rightarrow> string option \<Rightarrow> int \<Rightarrow> string" where
  "origin_of service pod_name pid =
     service @ ''/'' @ (case pod_name of Some (c # cs) \<Rightarrow> c # cs | _ \<Rightarrow> ''local'') @ ''/pid-'' @ show_int pid"

text \<open>\<open>pod_name\<close> stands for the argument or the environment, \<open>pid\<close> for \<open>os.getpid()\<close>.\<close>

definition configure :: "Producer \<Rightarrow> NotificationSettings \<Rightarrow> string option \<Rightarrow> string \<Rightarrow> int \<Rightarrow> NotificationRuntime" where
  "configure producer config pod_name topic pid =
     \<lparr>nr_config = config, nr_producer = producer, nr_pod_name = pod_name,
      nr_origin = origin_of (Producer_value producer) pod_name pid, nr_topic = topic\<rparr>"

section \<open>External operations\<close>

definition mono :: "World \<Rightarrow> Rt \<Rightarrow> int" where "mono w s = w_mono w (rt_tick s)"
definition utc_now :: "World \<Rightarrow> Rt \<Rightarrow> datetime" where "utc_now w s = w_now w (rt_tick s)"

definition tick :: "Rt \<Rightarrow> Rt" where "tick s = s\<lparr>rt_tick := Suc (rt_tick s)\<rparr>"

definition uuid4 :: "World \<Rightarrow> string rt" where
  "uuid4 w = State (\<lambda>s. (w_uuid w (rt_tick s), tick s))"

text \<open>One operation that either raises or takes effect.\<close>

definition external :: "World \<Rightarrow> (Rt \<Rightarrow> 'a \<times> Rt) \<Rightarrow> (err, 'a) res rt" where
  "external w act = State (\<lambda>s. case w_fails w (rt_tick s) of
      Some e \<Rightarrow> (Inl e, tick s)
    | None \<Rightarrow> (case act (tick s) of (a, s') \<Rightarrow> (Inr a, s')))"

text \<open>A statement that reads.\<close>

definition query :: "World \<Rightarrow> (Rt \<Rightarrow> (err, 'a) res) \<Rightarrow> (err, 'a) res rt" where
  "query w f = do { r \<leftarrow> external w (\<lambda>s. (f s, s)); State_Monad.return (case r of Inl e \<Rightarrow> Inl e | Inr x \<Rightarrow> x) }"

text \<open>
  A statement that writes and its commit: an error of the statement leaves the tables alone; a commit whose
  acknowledgement is lost raises although its effect stays.
\<close>

definition transact :: "World \<Rightarrow> (Rt \<Rightarrow> (db_error, 'a \<times> Rt) res) \<Rightarrow> (err, 'a) res rt" where
  "transact w act = do {
     r \<leftarrow> external w (\<lambda>s. case act s of Inl e \<Rightarrow> (Inl (w_db_error w e), s) | Inr (a, s') \<Rightarrow> (Inr a, s'));
     case r of
       Inl e \<Rightarrow> State_Monad.return (Inl e)
     | Inr (Inl e) \<Rightarrow> State_Monad.return (Inl e)
     | Inr (Inr a) \<Rightarrow> do {
         ack \<leftarrow> external w (\<lambda>s. ((), s));
         State_Monad.return (case ack of Inl e \<Rightarrow> Inl e | Inr _ \<Rightarrow> Inr a) } }"

text \<open>
  A Redis pipeline: it may fail before anything is sent, any of its commands may fail alone, and the reply
  may be lost after the commands took effect.
\<close>

definition pipeline_execute :: "World \<Rightarrow> (Rt \<Rightarrow> 'a \<times> Rt) list \<Rightarrow> (err, (err, 'a) res list) res rt" where
  "pipeline_execute w commands = do {
     c \<leftarrow> external w (\<lambda>s. ((), s));
     case c of
       Inl e \<Rightarrow> State_Monad.return (Inl e)
     | Inr _ \<Rightarrow> do {
         results \<leftarrow> State_Monad.traverse_list (external w) commands;
         reply \<leftarrow> external w (\<lambda>s. ((), s));
         State_Monad.return (case reply of Inl e \<Rightarrow> Inl e | Inr _ \<Rightarrow> Inr results) } }"

text \<open>With \<open>raise_on_error\<close> the first failed command raises.\<close>

definition raise_first :: "(err, (err, 'a) res list) res \<Rightarrow> (err, 'a list) res" where
  "raise_first r = (case r of Inl e \<Rightarrow> Inl e | Inr rs \<Rightarrow>
     (case filter isl rs of x # _ \<Rightarrow> Inl (projl x) | [] \<Rightarrow> Inr (map projr rs)))"

section \<open>The failure log\<close>

definition decision :: "string \<Rightarrow> Decision \<Rightarrow> nat \<Rightarrow> unit rt" where
  "decision name d n = modify (\<lambda>s. s\<lparr>rt_decisions := rt_decisions s @ replicate n (name, d)\<rparr>)"

text \<open>The keyword arguments of \<open>FailureLogger.record\<close>, and a call that gives only the required ones.\<close>

record FailureArgs =
  fa_notification_name :: string
  fa_operation :: Operation
  fa_error :: "err option"
  fa_message :: "string option"
  fa_notification_id :: "int option"
  fa_tenant_id :: "string option"
  fa_subject :: "json option"
  fa_event_id :: "string option"
  fa_redis_key :: "string option"
  fa_kafka_topic :: "string option"
  fa_observed :: "json option"
  fa_band :: "json option"
  fa_state_hash :: "string option"
  fa_throttle_s :: "int option"

definition failure_args :: "string \<Rightarrow> Operation \<Rightarrow> err option \<Rightarrow> FailureArgs" where
  "failure_args name operation error =
     \<lparr>fa_notification_name = name, fa_operation = operation, fa_error = error, fa_message = None,
      fa_notification_id = None, fa_tenant_id = None, fa_subject = None, fa_event_id = None, fa_redis_key = None,
      fa_kafka_topic = None, fa_observed = None, fa_band = None, fa_state_hash = None, fa_throttle_s = None\<rparr>"

definition truncate_text :: "string \<Rightarrow> string" where
  "truncate_text value = take ERROR_MESSAGE_MAX_CHARS value"

definition producer_scope :: "Producer \<Rightarrow> 'a rt \<Rightarrow> 'a rt" where
  "producer_scope producer m = do {
     old \<leftarrow> gets rt_override;
     modify (\<lambda>s. s\<lparr>rt_override := Some producer\<rparr>);
     a \<leftarrow> m;
     modify (\<lambda>s. s\<lparr>rt_override := old\<rparr>);
     State_Monad.return a }"

definition admit :: "World \<Rightarrow> string list \<Rightarrow> int \<Rightarrow> nat option rt" where
  "admit w key window_s = State (\<lambda>s.
     let now = mono w s in
     case dict_get (rt_throttle s) key of
       Some (last_at, suppressed) \<Rightarrow>
         if now - last_at < seconds window_s
         then (None, s\<lparr>rt_throttle := dict_set key (last_at, Suc suppressed) (rt_throttle s)\<rparr>)
         else (Some suppressed, s\<lparr>rt_throttle := dict_set key (now, 0) (rt_throttle s)\<rparr>)
     | None \<Rightarrow> (Some 0, s\<lparr>rt_throttle := dict_set key (now, 0) (rt_throttle s)\<rparr>))"

definition opt_json :: "('a \<Rightarrow> json) \<Rightarrow> 'a option \<Rightarrow> json" where
  "opt_json f v = (case v of None \<Rightarrow> JNull | Some x \<Rightarrow> f x)"

definition failure_message :: "FailureCode \<Rightarrow> FailureArgs \<Rightarrow> string" where
  "failure_message code a = truncate_text
     (case fa_message a of Some m \<Rightarrow> m | None \<Rightarrow>
       (case fa_error a of Some e \<Rightarrow> er_text e | None \<Rightarrow> FailureCode_value code))"

definition error_detail :: "FailureCode \<Rightarrow> FailureArgs \<Rightarrow> nat \<Rightarrow> string option \<Rightarrow> (string, json) dict" where
  "error_detail code a suppressed trace =
     [(''exception'', JStr (case fa_error a of Some e \<Rightarrow> er_class e | None \<Rightarrow> FailureCode_value code)),
      (''message'', JStr (failure_message code a)),
      (''operation'', JStr (Operation_value (fa_operation a))),
      (''redis_key'', opt_json JStr (fa_redis_key a)),
      (''kafka_topic'', opt_json JStr (fa_kafka_topic a)),
      (''observed'', opt_json (\<lambda>j. j) (fa_observed a)),
      (''band'', opt_json (\<lambda>j. j) (fa_band a)),
      (''state_hash'', opt_json JStr (fa_state_hash a)),
      (''suppressed'', JInt (int suppressed)),
      (''trace_id'', opt_json JStr trace)]"

text \<open>The columns of \<open>notification_alert_failure_log\<close>; the row is inserted and committed.\<close>

definition insert_failure :: "FailureRow \<Rightarrow> Rt \<Rightarrow> (db_error, unit \<times> Rt) res" where
  "insert_failure row s =
     (if 64 < length (fr_notification_name row) \<or> (\<exists>t \<in> set_option (fr_tenant_id row). 255 < length t) \<or>
         (\<exists>t \<in> set_option (fr_pod_name row). 255 < length t) then Inl DB_ValueTooLong
      else if (\<exists>i \<in> set_option (fr_notification_id row). i \<notin> set (map cg_id (rt_configs s))) then Inl DB_ForeignKey
      else Inr ((), s\<lparr>rt_failures := rt_failures s @ [row]\<rparr>))"

definition failure_row ::
  "NotificationRuntime \<Rightarrow> Producer \<Rightarrow> FailureStage \<Rightarrow> FailureCode \<Rightarrow> FailureArgs \<Rightarrow> nat \<Rightarrow> string option \<Rightarrow> datetime \<Rightarrow> FailureRow" where
  "failure_row rt producer stage code a suppressed trace now =
     \<lparr>fr_event_id = fa_event_id a, fr_notification_name = fa_notification_name a,
      fr_notification_id = fa_notification_id a, fr_tenant_id = fa_tenant_id a,
      fr_subject = map_option canonical_json (fa_subject a), fr_producer = Producer_value producer,
      fr_pod_name = nr_pod_name rt, fr_stage = FailureStage_value stage, fr_error_code = FailureCode_value code,
      fr_error_message = failure_message code a, fr_error_detail = error_detail code a suppressed trace,
      fr_created_at = now\<rparr>"

definition throttle_key :: "Producer \<Rightarrow> FailureStage \<Rightarrow> FailureCode \<Rightarrow> FailureArgs \<Rightarrow> string list" where
  "throttle_key producer stage code a =
     [Producer_value producer, FailureStage_value stage, FailureCode_value code, fa_notification_name a,
      case fa_tenant_id a of Some t \<Rightarrow> t | None \<Rightarrow> []]"

definition record_failure :: "World \<Rightarrow> NotificationRuntime \<Rightarrow> FailureStage \<Rightarrow> FailureCode \<Rightarrow> FailureArgs \<Rightarrow> unit rt" where
  "record_failure w rt stage code a = do {
     override \<leftarrow> gets rt_override;
     let producer = (case override of Some p \<Rightarrow> p | None \<Rightarrow> nr_producer rt);
     admitted \<leftarrow> (if fa_event_id a = None
                  then admit w (throttle_key producer stage code a)
                         (case fa_throttle_s a of Some t \<Rightarrow> t | None \<Rightarrow> notif_failure_throttle_s (nr_config rt))
                  else State_Monad.return (Some 0));
     case admitted of
       None \<Rightarrow> State_Monad.return ()
     | Some suppressed \<Rightarrow> do {
         row \<leftarrow> gets (\<lambda>s. failure_row rt producer stage code a suppressed (w_trace w (rt_tick s)) (utc_now w s));
         r \<leftarrow> transact w (insert_failure row);
         case r of
           Inl _ \<Rightarrow> modify (\<lambda>s. s\<lparr>rt_unwritten := rt_unwritten s @ [row]\<rparr>)
         | Inr _ \<Rightarrow> State_Monad.return () } }"

definition purge_failures :: "datetime \<Rightarrow> int \<Rightarrow> Rt \<Rightarrow> nat \<times> Rt" where
  "purge_failures now retention_days s =
     (let old = (\<lambda>row. fr_created_at row < now - seconds (retention_days * 86400))
      in (length (filter old (rt_failures s)), s\<lparr>rt_failures := filter (Not \<circ> old) (rt_failures s)\<rparr>))"

end
