(* ===== verification/Notif_Examples.thy ===== *)
theory Notif_Examples
  imports Notif_Runtime
begin

text \<open>A concrete world, runtime and store, on which the properties of the notification components are tried.\<close>

definition ex_world :: World where
  "ex_world = \<lparr>w_now = (\<lambda>n. 1790000000000000 + int n * 1000), w_mono = (\<lambda>n. int n * 1000), w_fails = (\<lambda>_. None),
     w_uuid = (\<lambda>n. ''u'' @ show_nat n), w_trace = (\<lambda>_. None), w_evict = (\<lambda>_ _. False),
     w_db_error = (\<lambda>_. \<lparr>er_class = ''DBAPIError'', er_text = ''db''\<rparr>), w_sha256 = (\<lambda>t. t),
     w_decrypt = (\<lambda>t. Inr t), w_builder_error = \<lparr>er_class = ''ValueError'', er_text = ''details''\<rparr>\<rparr>"

definition ex_user :: "int \<Rightarrow> int option \<Rightarrow> string \<Rightarrow> string list \<Rightarrow> UserRow" where
  "ex_user i tenant email roles = \<lparr>us_id = i, us_tenant_id = tenant, us_email = Some email, us_full_name = None,
     us_is_active = Some True, us_is_delete = None, us_roles = roles\<rparr>"

definition ex_rt :: Rt where
  "ex_rt = \<lparr>rt_tick = 0, rt_override = None, rt_throttle = [], rt_settings_l1 = [], rt_subs_l1 = [], rt_ledger_l1 = [],
     rt_last_good = None, rt_settings_fill_failed_at = None, rt_inflight = [], rt_decisions = [], rt_unwritten = [],
     rt_redis = [], rt_channel = [], rt_configs = [], rt_thresholds = [], rt_subscriptions = [], rt_ledger = [],
     rt_failures = [],
     rt_users = [ex_user 1 None ''root@x'' [''ADMIN''], ex_user 2 (Some 7) ''b@x'' [''TENANT ADMIN'', ''USER''],
                 ex_user 3 (Some 7) ''a@x'' [''USER''], ex_user 4 (Some 8) ''c@x'' [''TENANT ADMIN'']],
     rt_tenants = [(7, Some ''Seven''), (8, None)], rt_kafka = []\<rparr>"

definition ex_runtime :: NotificationRuntime where
  "ex_runtime = configure PROD_PAYPERUSE_CONSUMER default_settings (Some ''pod-1'') NOTIFICATION_TOPIC 42"

end
