(* ===== verification/Failure_Log.thy ===== *)
theory Failure_Log
  imports Notif_Examples
begin

text \<open>
  What the failure log promises (\<open>failure_log.py\<close>): a report never disappears without being counted, a
  burst of equal reports writes one row, a report of a lost event is never throttled, and no report touches
  anything but the log.
\<close>

section \<open>What a report does\<close>

text \<open>A state up to the failure log and the operation counter.\<close>

definition log_only :: "Rt \<Rightarrow> Rt \<Rightarrow> bool" where
  "log_only s s' \<longleftrightarrow> rt_tick s \<le> rt_tick s' \<and>
     s'\<lparr>rt_tick := rt_tick s, rt_throttle := rt_throttle s, rt_failures := rt_failures s, rt_unwritten := rt_unwritten s\<rparr> = s"

interpretation logs: frame log_only
proof
  show "log_only s s" for s by (simp add: log_only_def)
  show "log_only s t \<Longrightarrow> log_only t u \<Longrightarrow> log_only s u" for s t u
    unfolding log_only_def by (cases s; cases t; cases u) auto
qed

lemma log_only_fields:
  assumes "log_only s s'"
  shows "rt_tick s \<le> rt_tick s'" "rt_override s' = rt_override s" "rt_settings_l1 s' = rt_settings_l1 s" "rt_subs_l1 s' = rt_subs_l1 s"
    "rt_ledger_l1 s' = rt_ledger_l1 s" "rt_last_good s' = rt_last_good s"
    "rt_settings_fill_failed_at s' = rt_settings_fill_failed_at s" "rt_inflight s' = rt_inflight s"
    "rt_decisions s' = rt_decisions s" "rt_redis s' = rt_redis s" "rt_channel s' = rt_channel s"
    "rt_configs s' = rt_configs s" "rt_thresholds s' = rt_thresholds s" "rt_subscriptions s' = rt_subscriptions s"
    "rt_ledger s' = rt_ledger s" "rt_users s' = rt_users s" "rt_tenants s' = rt_tenants s" "rt_kafka s' = rt_kafka s"
  using assms unfolding log_only_def by (cases s; cases s'; auto)+

definition effective_producer :: "NotificationRuntime \<Rightarrow> Rt \<Rightarrow> Producer" where
  "effective_producer rt s = (case rt_override s of Some p \<Rightarrow> p | None \<Rightarrow> nr_producer rt)"

text \<open>The report is throttled, or its row is written, logged, or both (a commit whose reply was lost).\<close>

lemma insert_failure_result:
  "(\<exists>e. insert_failure row s = Inl e) \<or> insert_failure row s = Inr ((), s\<lparr>rt_failures := rt_failures s @ [row]\<rparr>)"
  by (simp add: insert_failure_def)

lemma transact_insert:
  "wp (transact w (insert_failure row)) (\<lambda>r s'. rt_tick s < rt_tick s' \<and> (\<exists>rows. (rows = [] \<or> rows = [row]) \<and> (is_ok r \<longrightarrow> rows = [row]) \<and>
      s' = s\<lparr>rt_tick := rt_tick s', rt_failures := rt_failures s @ rows\<rparr>)) s"
proof (cases "w_fails w (rt_tick s)")
  case (Some e)
  then show ?thesis by (simp add: transact_def external_def tick_def) (rule exI [of _ "[]"], simp)
next
  case ok: None
  consider e where "insert_failure row (tick s) = Inl e"
    | "insert_failure row (tick s) = Inr ((), (tick s)\<lparr>rt_failures := rt_failures (tick s) @ [row]\<rparr>)"
    using insert_failure_result by blast
  then show ?thesis
  proof cases
    case 1
    then show ?thesis by (simp add: transact_def external_def tick_def ok) (rule exI [of _ "[]"], simp)
  next
    case 2
    then show ?thesis
      by (simp add: transact_def external_def tick_def ok split: option.split) (intro impI exI [of _ "[row]"], simp)
  qed
qed

text \<open>Whether a report is throttled.\<close>

definition throttled :: "World \<Rightarrow> NotificationRuntime \<Rightarrow> FailureStage \<Rightarrow> FailureCode \<Rightarrow> FailureArgs \<Rightarrow> Rt \<Rightarrow> bool" where
  "throttled w rt stage code a s \<longleftrightarrow> fa_event_id a = None \<and>
     (case dict_get (rt_throttle s) (throttle_key (effective_producer rt s) stage code a) of
        None \<Rightarrow> False
      | Some (last_at, _) \<Rightarrow> mono w s - last_at <
          seconds (case fa_throttle_s a of Some t \<Rightarrow> t | None \<Rightarrow> notif_failure_throttle_s (nr_config rt)))"

definition pending :: "string list \<Rightarrow> Rt \<Rightarrow> nat" where
  "pending key s = (case dict_get (rt_throttle s) key of None \<Rightarrow> 0 | Some (_, n) \<Rightarrow> n)"

lemma record_failure_cases:
  assumes "run_state (record_failure w rt stage code a) s = (u, s')"
  defines "key \<equiv> throttle_key (effective_producer rt s) stage code a"
  obtains (Throttled) last_at n where "throttled w rt stage code a s" "dict_get (rt_throttle s) key = Some (last_at, n)"
      "s' = s\<lparr>rt_throttle := dict_set key (last_at, Suc n) (rt_throttle s)\<rparr>"
  | (Reported) row rows lost k th where "\<not> throttled w rt stage code a s"
      "s' = s\<lparr>rt_tick := rt_tick s + k, rt_throttle := th, rt_failures := rt_failures s @ rows, rt_unwritten := rt_unwritten s @ lost\<rparr>"
      "0 < k" "rows = [] \<or> rows = [row]" "lost = [] \<or> lost = [row]" "rows \<noteq> [] \<or> lost \<noteq> []"
      "th = (if fa_event_id a = None then dict_set key (mono w s, 0) (rt_throttle s) else rt_throttle s)"
      "row = failure_row rt (effective_producer rt s) stage code a (if fa_event_id a = None then pending key s else 0)
               (w_trace w (rt_tick s)) (utc_now w s)"
proof (cases "throttled w rt stage code a s")
  case True
  then obtain last_at n where "dict_get (rt_throttle s) key = Some (last_at, n)"
    by (auto simp: throttled_def key_def split: option.splits)
  moreover have "s' = s\<lparr>rt_throttle := dict_set key (last_at, Suc n) (rt_throttle s)\<rparr>"
    using assms(1) True calculation
    by (auto simp: record_failure_def admit_def throttled_def effective_producer_def key_def Let_def split: if_splits)
  ultimately show thesis by (rule Throttled [OF True])
next
  case False
  define th where "th = (if fa_event_id a = None then dict_set key (mono w s, 0) (rt_throttle s) else rt_throttle s)"
  define row where "row = failure_row rt (effective_producer rt s) stage code a (if fa_event_id a = None then pending key s else 0)
               (w_trace w (rt_tick s)) (utc_now w s)"
  let ?s = "s\<lparr>rt_throttle := th\<rparr>"
  obtain r s1 where t: "run_state (transact w (insert_failure row)) ?s = (r, s1)"
    by (cases "run_state (transact w (insert_failure row)) ?s")
  have s': "s' = (case r of Inl _ \<Rightarrow> s1\<lparr>rt_unwritten := rt_unwritten s1 @ [row]\<rparr> | Inr _ \<Rightarrow> s1)"
  proof (cases "fa_event_id a = None")
    case True
    then have "run_state (admit w key (case fa_throttle_s a of Some t \<Rightarrow> t | None \<Rightarrow> notif_failure_throttle_s (nr_config rt))) s =
        (Some (pending key s), ?s)"
      using False by (auto simp: admit_def throttled_def key_def pending_def th_def Let_def split: option.splits)
    then show ?thesis
      using assms(1) t True
      by (auto simp: record_failure_def key_def effective_producer_def row_def mono_def utc_now_def Let_def split: sum.splits)
  next
    case ev: False
    then have "?s = s" unfolding th_def if_not_P [OF ev] by simp
    then show ?thesis
      using assms(1) t ev
      by (auto simp: record_failure_def effective_producer_def row_def Let_def split: sum.splits)
  qed
  obtain rows where "rt_tick s < rt_tick s1" "s1 = ?s\<lparr>rt_tick := rt_tick s1, rt_failures := rt_failures ?s @ rows\<rparr>"
    and rows: "rows = [] \<or> rows = [row]" "is_ok r \<longrightarrow> rows = [row]"
    using wp_run [OF t transact_insert] by auto
  then obtain k where k: "0 < k" "s1 = ?s\<lparr>rt_tick := rt_tick s + k, rt_failures := rt_failures ?s @ rows\<rparr>"
    by (metis less_imp_add_positive)
  show thesis
  proof (rule Reported [where th = th and lost = "if is_ok r then [] else [row]", OF False _ k(1) rows(1)])
    show "s' = s\<lparr>rt_tick := rt_tick s + k, rt_throttle := th, rt_failures := rt_failures s @ rows,
        rt_unwritten := rt_unwritten s @ (if is_ok r then [] else [row])\<rparr>"
      using s' k(2) by (cases r) simp_all
  qed (use rows in \<open>auto simp: th_def row_def\<close>)
qed

lemma record_failure_logs [intro!, simp]: "keeps log_only (record_failure w rt stage code a)"
  unfolding keeps_def
proof (intro allI wp_of_run)
  fix s u s' assume "run_state (record_failure w rt stage code a) s = (u, s')"
  then show "log_only s s'" by (cases rule: record_failure_cases) (auto simp: log_only_def)
qed

section \<open>No report is lost\<close>

definition suppressed_of :: "FailureRow \<Rightarrow> nat" where
  "suppressed_of row = (case dict_get (fr_error_detail row) ''suppressed'' of Some (JInt n) \<Rightarrow> nat n | _ \<Rightarrow> 0)"

lemma suppressed_failure_row [simp]: "suppressed_of (failure_row rt p stage code a n tr now) = n"
  by (simp add: suppressed_of_def failure_row_def error_detail_def)

text \<open>The reports on record: every row stands for itself and those it says were suppressed before it.\<close>

definition accounted :: "Rt \<Rightarrow> nat" where
  "accounted s = sum_list (map (Suc \<circ> suppressed_of) (rt_failures s @ rt_unwritten s)) +
     sum_list (map (\<lambda>(_, _, n). n) (rt_throttle s))"

lemma sum_dict_set:
  fixes f :: "'k \<times> 'v \<Rightarrow> nat"
  assumes "\<And>k' u. f (k', u) = g u"
  shows "sum_list (map f (dict_set k v d)) + (case dict_get d k of None \<Rightarrow> 0 | Some u \<Rightarrow> g u) = sum_list (map f d) + g v"
  by (induction d) (auto simp: assms split: option.splits)

lemma record_failure_accounted:
  assumes "run_state (record_failure w rt stage code a) s = (u, s')"
  shows "accounted s + 1 \<le> accounted s'"
proof -
  let ?g = "\<lambda>(_ :: int, n :: nat). n" and ?f = "\<lambda>(_ :: string list, _ :: int, n :: nat). n"
  let ?key = "throttle_key (effective_producer rt s) stage code a"
  have set: "sum_list (map ?f (dict_set ?key (t, n) (rt_throttle s))) + pending ?key s = sum_list (map ?f (rt_throttle s)) + n" for t n
    using sum_dict_set [of ?f ?g ?key "(t, n)" "rt_throttle s"]
    by (auto simp: pending_def split: option.splits)
  from assms show ?thesis
  proof (cases rule: record_failure_cases)
    case (Throttled last_at n)
    then show ?thesis using set [of last_at "Suc n"] by (simp add: accounted_def pending_def)
  next
    case (Reported row rows lost k th)
    then show ?thesis using set [of "mono w s" 0] by (auto simp: accounted_def split: if_splits)
  qed
qed

text \<open>A sequence of reports.\<close>

definition record_all :: "World \<Rightarrow> NotificationRuntime \<Rightarrow> (FailureStage \<times> FailureCode \<times> FailureArgs) list \<Rightarrow> unit list rt" where
  "record_all w rt reports = State_Monad.traverse_list (\<lambda>(stage, code, a). record_failure w rt stage code a) reports"

lemma record_all_Cons:
  "run_state (record_all w rt ((stage, code, a) # reports)) s = (us, s') \<Longrightarrow>
     \<exists>s1 us'. run_state (record_failure w rt stage code a) s = ((), s1) \<and> run_state (record_all w rt reports) s1 = (us', s')"
  by (auto simp: record_all_def split: prod.splits)

lemma record_all_accounted: "run_state (record_all w rt reports) s = (us, s') \<Longrightarrow> accounted s + length reports \<le> accounted s'"
proof (induction reports arbitrary: s us)
  case (Cons x reports)
  obtain stage code a where x: "x = (stage, code, a)" by (cases x)
  from record_all_Cons [OF Cons.prems [unfolded x]] obtain s1 us' where
    1: "run_state (record_failure w rt stage code a) s = ((), s1)" and 2: "run_state (record_all w rt reports) s1 = (us', s')"
    by blast
  then show ?case using record_failure_accounted [OF 1] Cons.IH [OF 2] by simp
qed (simp add: record_all_def)

text \<open>Reports that share a throttle key, made while no clock reading is a window apart.\<close>

definition burst :: "World \<Rightarrow> NotificationRuntime \<Rightarrow> string list \<Rightarrow> Rt \<Rightarrow> (FailureStage \<times> FailureCode \<times> FailureArgs) list \<Rightarrow> bool" where
  "burst w rt key s reports \<longleftrightarrow>
     (\<forall>(stage, code, a) \<in> set reports. fa_event_id a = None \<and> fa_throttle_s a = None \<and>
        throttle_key (effective_producer rt s) stage code a = key) \<and>
     (\<forall>i \<ge> rt_tick s. \<forall>j \<ge> rt_tick s. w_mono w i - w_mono w j < seconds (notif_failure_throttle_s (nr_config rt)))"

lemma burst_rest_throttled:
  assumes "run_state (record_all w rt reports) s = (us, s')" "burst w rt key s reports"
    and "dict_get (rt_throttle s) key = Some (w_mono w j, n)" "j0 \<le> j" "j0 \<le> rt_tick s"
    and "\<forall>i \<ge> j0. \<forall>j \<ge> j0. w_mono w i - w_mono w j < seconds (notif_failure_throttle_s (nr_config rt))"
  shows "rt_failures s' = rt_failures s \<and> rt_unwritten s' = rt_unwritten s"
  using assms(1-3,5)
proof (induction reports arbitrary: s us n)
  case (Cons x reports)
  obtain stage code a where x: "x = (stage, code, a)" by (cases x)
  from record_all_Cons [OF Cons.prems(1) [unfolded x]] obtain s1 us' where
    1: "run_state (record_failure w rt stage code a) s = ((), s1)" and 2: "run_state (record_all w rt reports) s1 = (us', s')"
    by blast
  have key: "throttle_key (effective_producer rt s) stage code a = key" "fa_event_id a = None" "fa_throttle_s a = None"
    using Cons.prems(2) by (auto simp: burst_def x)
  have "mono w s - w_mono w j < seconds (notif_failure_throttle_s (nr_config rt))"
    using assms(4,6) Cons.prems(4) by (simp add: mono_def)
  then have th: "throttled w rt stage code a s" using Cons.prems(3) key by (simp add: throttled_def)
  from 1 have s1: "s1 = s\<lparr>rt_throttle := dict_set key (w_mono w j, Suc n) (rt_throttle s)\<rparr>"
    by (cases rule: record_failure_cases) (use th Cons.prems(3) key in auto)
  have "burst w rt key s1 reports" using Cons.prems(2) by (auto simp: burst_def s1 effective_producer_def)
  from Cons.IH [OF 2 this, of "Suc n"] show ?case using Cons.prems(4) by (simp add: s1)
qed (simp add: record_all_def)

lemma burst_one_row:
  "run_state (record_all w rt reports) s = (us, s') \<Longrightarrow> burst w rt key s reports \<Longrightarrow>
     length (rt_failures s') \<le> length (rt_failures s) + 1"
proof (induction reports arbitrary: s us)
  case (Cons x rest)
  obtain stage code a where x: "x = (stage, code, a)" by (cases x)
  from record_all_Cons [OF Cons.prems(1) [unfolded x]] obtain s1 us' where
    1: "run_state (record_failure w rt stage code a) s = ((), s1)" and 2: "run_state (record_all w rt rest) s1 = (us', s')"
    by blast
  have key: "throttle_key (effective_producer rt s) stage code a = key" "fa_event_id a = None"
    and win: "\<forall>i \<ge> rt_tick s. \<forall>j \<ge> rt_tick s. w_mono w i - w_mono w j < seconds (notif_failure_throttle_s (nr_config rt))"
    using Cons.prems(2) by (auto simp: burst_def x)
  from 1 show ?case
  proof (cases rule: record_failure_cases)
    case (Throttled last_at n)
    then have "burst w rt key s1 rest" using Cons.prems(2) by (auto simp: burst_def effective_producer_def)
    then show ?thesis using Cons.IH [OF 2] Throttled(3) by simp
  next
    case (Reported row rows lost k th)
    have b: "burst w rt key s1 rest" using Cons.prems(2) Reported(2) by (auto simp: burst_def effective_producer_def)
    have "dict_get (rt_throttle s1) key = Some (w_mono w (rt_tick s), 0)" using Reported key by (simp add: mono_def)
    then have "rt_failures s' = rt_failures s1" using burst_rest_throttled [OF 2 b _ _ _ win] Reported(2,3) by simp
    then show ?thesis using Reported by auto
  qed
qed (simp add: record_all_def)

text \<open>
  C35: Throttling loses no report: after any sequence of reports the rows written, the rows that only reached
  the service log and the suppressed counts together account for every one of them; and a burst of reports
  with one throttle key inside a window writes at most one row.
\<close>

theorem throttle_accounts_for_every_report:
  assumes "run_state (record_all w rt reports) s = (us, s')"
  shows "accounted s + length reports \<le> accounted s' \<and>
         (burst w rt key s reports \<longrightarrow> length (rt_failures s') \<le> length (rt_failures s) + 1)"
  using record_all_accounted [OF assms] burst_one_row [OF assms] by blast

definition ex_still :: World where "ex_still = ex_world\<lparr>w_mono := \<lambda>_. 0\<rparr>"

definition ex_reports :: "(FailureStage \<times> FailureCode \<times> FailureArgs) list" where
  "ex_reports = replicate 3 (FS_CACHE, CACHE_READ_FAILED, failure_args ''*'' OP_CACHE_READ None)"

theorem throttle_accounts_for_every_report_witness:
  "accounted ex_rt + 3 \<le> accounted (snd (run_state (record_all ex_still ex_runtime ex_reports) ex_rt)) \<and>
   length (rt_failures (snd (run_state (record_all ex_still ex_runtime ex_reports) ex_rt))) = 1"
proof -
  obtain us s' where r: "run_state (record_all ex_still ex_runtime ex_reports) ex_rt = (us, s')" by fastforce
  define key where "key = throttle_key (effective_producer ex_runtime ex_rt) FS_CACHE CACHE_READ_FAILED (failure_args ''*'' OP_CACHE_READ None)"
  have b: "burst ex_still ex_runtime key ex_rt ex_reports"
    by (auto simp: burst_def ex_reports_def ex_still_def key_def failure_args_def seconds_def ex_runtime_def configure_def
        default_settings_def DEFAULT_FAILURE_THROTTLE_S_def)
  have n: "length (rt_failures (snd (run_state (record_all ex_still ex_runtime ex_reports) ex_rt))) \<noteq> 0"
    by code_simp
  have "length (rt_failures ex_rt) = 0" "length ex_reports = 3" by (simp_all add: ex_rt_def ex_reports_def)
  then show ?thesis
    using throttle_accounts_for_every_report [OF r, of key] b n unfolding r by (auto simp: le_Suc_eq)
qed

end
