(* ===== verification/Settings_Loader.thy ===== *)
theory Settings_Loader
  imports Failure_Log
begin

text \<open>
  The database loaders of the settings snapshot and of tenant subscriptions (\<open>settings.py\<close>).  A text that is
  no member of its enumeration raises \<open>ValueError\<close>.
\<close>

definition bad_member :: "string \<Rightarrow> string \<Rightarrow> err" where
  "bad_member cls value = \<lparr>er_class = ''ValueError'', er_text = repr_str value @ '' is not a valid '' @ cls\<rparr>"

definition member :: "string \<Rightarrow> (string \<Rightarrow> 'e option) \<Rightarrow> string \<Rightarrow> (err, 'e) res" where
  "member cls of_text value = (case of_text value of None \<Rightarrow> Inl (bad_member cls value) | Some e \<Rightarrow> Inr e)"

definition and_then :: "('e, 'a) res \<Rightarrow> ('a \<Rightarrow> ('e, 'b) res) \<Rightarrow> ('e, 'b) res" where
  "and_then r f = (case r of Inl e \<Rightarrow> Inl e | Inr a \<Rightarrow> f a)"

fun map_res :: "('a \<Rightarrow> ('e, 'b) res) \<Rightarrow> 'a list \<Rightarrow> ('e, 'b list) res" where
  "map_res f [] = Inr []"
| "map_res f (x # xs) = and_then (f x) (\<lambda>y. and_then (map_res f xs) (\<lambda>ys. Inr (y # ys)))"

section \<open>The snapshot\<close>

text \<open>
  \<open>_bands\<close> on the JSON array of the statement: the active bands of a notification by value.  The decimals of
  the column arrive unchanged, because the text is parsed with \<open>parse_float=Decimal\<close>.
\<close>

definition bands_of :: "ThresholdRow list \<Rightarrow> int \<Rightarrow> (err, Band list) res" where
  "bands_of thresholds nid =
     and_then (map_res (\<lambda>t. and_then (member ''ThresholdUnit'' ThresholdUnit_of (th_unit t)) (\<lambda>u.
                            and_then (member ''Severity'' Severity_of (th_severity t)) (\<lambda>sev.
                            Inr \<lparr>bd_value = th_band_value t, bd_unit = u, bd_severity = sev\<rparr>)))
                (sort_key th_band_value (filter (\<lambda>t. th_notification_id t = nid \<and> th_active t) thresholds)))
       (\<lambda>bands. Inr (sort_key bd_value bands))"

definition settings_row_of :: "ThresholdRow list \<Rightarrow> ConfigRow \<Rightarrow> (err, SettingsRow) res" where
  "settings_row_of thresholds c =
     and_then (member ''NotificationName'' NotificationName_of (cg_name c)) (\<lambda>n.
     and_then (member ''NotificationType'' NotificationType_of (cg_type c)) (\<lambda>t.
     and_then (member ''NotificationModule'' NotificationModule_of (cg_module c)) (\<lambda>m.
     and_then (member ''NotificationScope'' NotificationScope_of (cg_scope c)) (\<lambda>sc.
     and_then (bands_of thresholds (cg_id c)) (\<lambda>bands.
     Inr \<lparr>sr_id = cg_id c, sr_name = n, sr_type = t, sr_module = m, sr_scope = sc, sr_channels = cg_channels c,
          sr_recipient_roles = map (\<lambda>(k, v). (k, truthy v)) (cg_recipient_roles c), sr_bands = bands\<rparr>)))))"

definition load_settings_snapshot :: "World \<Rightarrow> (err, SettingsSnapshot) res rt" where
  "load_settings_snapshot w = query w (\<lambda>s.
     and_then (map_res (\<lambda>c. and_then (settings_row_of (rt_thresholds s) c) (\<lambda>row. Inr (cg_name c, row))) (rt_configs s))
       (\<lambda>rows. Inr \<lparr>sn_built_at = iso_z (utc_now w s), sn_rows = fold (\<lambda>(name, row). dict_set name row) rows []\<rparr>))"

section \<open>Subscriptions\<close>

definition sub_entry :: "SubscriptionRow \<Rightarrow> SubscriptionEntry" where
  "sub_entry row = \<lparr>se_subscribed = sb_subscribed row, se_recipients = sb_recipients row\<rparr>"

text \<open>The join with the catalogue: the rows with the name of their notification.\<close>

definition named_subscriptions :: "ConfigRow list \<Rightarrow> SubscriptionRow list \<Rightarrow> (string \<times> SubscriptionRow) list" where
  "named_subscriptions configs subs =
     concat (map (\<lambda>row. map (\<lambda>c. (cg_name c, row)) (filter (\<lambda>c. cg_id c = sb_notification_id row) configs)) subs)"

definition tenant_entries :: "(string \<times> SubscriptionRow) list \<Rightarrow> string \<Rightarrow> (string, SubscriptionEntry) dict" where
  "tenant_entries rows tenant_id =
     fold (\<lambda>(name, row). dict_set name (sub_entry row)) (filter (\<lambda>(_, row). sb_tenant_id row = tenant_id) rows) []"

definition load_subscriptions :: "ConfigRow list \<Rightarrow> SubscriptionRow list \<Rightarrow> datetime \<Rightarrow> string \<Rightarrow> TenantSubscriptions" where
  "load_subscriptions configs subs now tenant_id =
     \<lparr>ts_tenant_id = tenant_id, ts_built_at = iso_z now, ts_rows = tenant_entries (named_subscriptions configs subs) tenant_id\<rparr>"

text \<open>The grouping loop of the statement for many tenants.\<close>

definition grouped :: "string list \<Rightarrow> (string \<times> SubscriptionRow) list \<Rightarrow> (string, (string, SubscriptionEntry) dict) dict" where
  "grouped ids rows =
     fold (\<lambda>(name, row) g. dict_set (sb_tenant_id row)
              (dict_set name (sub_entry row) (case dict_get g (sb_tenant_id row) of None \<Rightarrow> [] | Some d \<Rightarrow> d)) g)
       (filter (\<lambda>(_, row). sb_tenant_id row \<in> set ids) rows)
       (fold (\<lambda>t. dict_set t []) ids [])"

definition load_subscriptions_many :: "World \<Rightarrow> string list \<Rightarrow> (err, (string, TenantSubscriptions) dict) res rt" where
  "load_subscriptions_many w ids =
     (if ids = [] then State_Monad.return (Inr [])
      else if length ids = 1
      then query w (\<lambda>s. Inr [(hd ids, load_subscriptions (rt_configs s) (rt_subscriptions s) (utc_now w s) (hd ids))])
      else query w (\<lambda>s. let g = grouped ids (named_subscriptions (rt_configs s) (rt_subscriptions s)) in
             Inr (map (\<lambda>t. (t, \<lparr>ts_tenant_id = t, ts_built_at = iso_z (utc_now w s), ts_rows = the (dict_get g t)\<rparr>)) (fromkeys ids))))"

section \<open>The two loaders agree\<close>

lemma fold_set_empty: "dict_get (fold (\<lambda>t. dict_set t []) ids g) t = (if t \<in> set ids then Some [] else dict_get g t)"
  by (induction ids arbitrary: g) auto

lemma grouped_get_aux:
  assumes "dict_get g t = Some d"
  shows "dict_get (fold (\<lambda>(name, row) g. dict_set (sb_tenant_id row)
              (dict_set name (sub_entry row) (case dict_get g (sb_tenant_id row) of None \<Rightarrow> [] | Some d \<Rightarrow> d)) g) rows g) t =
    Some (fold (\<lambda>(name, row). dict_set name (sub_entry row)) (filter (\<lambda>(_, row). sb_tenant_id row = t) rows) d)"
  using assms by (induction rows arbitrary: g d) (auto split: option.splits)

lemma grouped_get:
  assumes "t \<in> set ids"
  shows "dict_get (grouped ids rows) t = Some (tenant_entries rows t)"
proof -
  have "filter (\<lambda>(_, row). sb_tenant_id row = t) (filter (\<lambda>(_, row). sb_tenant_id row \<in> set ids) rows) =
      filter (\<lambda>(_, row). sb_tenant_id row = t) rows"
    using assms by (induction rows) auto
  then show ?thesis
    unfolding grouped_def using assms by (subst grouped_get_aux [where d = "[]"]) (simp_all add: fold_set_empty tenant_entries_def)
qed

lemma query_run:
  "run_state (query w f) s = (case w_fails w (rt_tick s) of Some e \<Rightarrow> (Inl e, tick s) | None \<Rightarrow> (f (tick s), tick s))"
  by (auto simp: query_def external_def split: option.split sum.split)

lemma load_subscriptions_many_get:
  assumes "run_state (load_subscriptions_many w ids) s = (Inr loaded, s')" "t \<in> set ids"
  shows "dict_get loaded t = Some (load_subscriptions (rt_configs s) (rt_subscriptions s) (utc_now w (tick s)) t)"
proof -
  have ne: "ids \<noteq> []" using assms(2) by auto
  have tk: "rt_configs (tick s) = rt_configs s" "rt_subscriptions (tick s) = rt_subscriptions s" by (simp_all add: tick_def)
  show ?thesis
  proof (cases "length ids = 1")
    case True
    then have "t = hd ids" using assms(2) by (cases ids) auto
    then show ?thesis
      using assms(1) True ne by (auto simp: load_subscriptions_many_def query_run tk split: option.splits)
  next
    case False
    then show ?thesis
      using assms ne by (auto simp: load_subscriptions_many_def query_run tk Let_def map_of_map_restrict grouped_get load_subscriptions_def split: option.splits)
  qed
qed

end
