(* ===== verification/Notif_Cache.thy ===== *)
theory Notif_Cache
  imports Settings_Loader
begin

text \<open>
  The tiered cache (\<open>cache.py\<close>: in-process entries, then Redis, then the database), the invalidation
  messages and their listener (\<open>invalidation.py\<close>).

  One call of \<open>read\<close> is one coroutine: the keys other coroutines are loading are \<open>rt_inflight\<close>, and the futures
  this call completes are part of its result.  Entries of the in-process caches expire and may be evicted
  whenever another one is stored (\<open>w_evict\<close>).  A sleep is an operation of its own.
\<close>

section \<open>In-process entries\<close>

definition l1_get :: "(string, 'v \<times> int) dict \<Rightarrow> int \<Rightarrow> string \<Rightarrow> 'v option" where
  "l1_get d now k = (case dict_get d k of Some (v, expires) \<Rightarrow> if now < expires then Some v else None | None \<Rightarrow> None)"

definition l1_set :: "(string \<Rightarrow> bool) \<Rightarrow> string \<Rightarrow> 'v \<Rightarrow> int \<Rightarrow> (string, 'v \<times> int) dict \<Rightarrow> (string, 'v \<times> int) dict" where
  "l1_set evict k v expires d = dict_set k (v, expires) (filter (\<lambda>(k', _). \<not> evict k') d)"

definition l1_pop :: "string \<Rightarrow> (string, 'v \<times> int) dict \<Rightarrow> (string, 'v \<times> int) dict" where
  "l1_pop k d = filter (\<lambda>(k', _). k' \<noteq> k) d"

definition peek_settings :: "World \<Rightarrow> Rt \<Rightarrow> SettingsSnapshot option" where
  "peek_settings w s = l1_get (rt_settings_l1 s) (mono w s) SETTINGS_KEY"

definition peek_subscriptions :: "World \<Rightarrow> string \<Rightarrow> Rt \<Rightarrow> TenantSubscriptions option" where
  "peek_subscriptions w tenant_id s = l1_get (rt_subs_l1 s) (mono w s) tenant_id"

definition peek_ledger :: "World \<Rightarrow> string \<Rightarrow> Rt \<Rightarrow> LedgerState option" where
  "peek_ledger w key s = l1_get (rt_ledger_l1 s) (mono w s) key"

definition set_settings_l1 :: "World \<Rightarrow> NotificationRuntime \<Rightarrow> SettingsSnapshot \<Rightarrow> unit rt" where
  "set_settings_l1 w rt snapshot = modify (\<lambda>s. s\<lparr>
     rt_settings_l1 := l1_set (w_evict w (rt_tick s)) SETTINGS_KEY snapshot (mono w s + seconds (notif_l1_settings_ttl_s (nr_config rt))) (rt_settings_l1 s),
     rt_last_good := Some (snapshot, mono w s)\<rparr>)"

definition set_subs_l1 :: "World \<Rightarrow> NotificationRuntime \<Rightarrow> string \<Rightarrow> TenantSubscriptions \<Rightarrow> unit rt" where
  "set_subs_l1 w rt tenant v = modify (\<lambda>s. s\<lparr>
     rt_subs_l1 := l1_set (w_evict w (rt_tick s)) tenant v (mono w s + seconds (notif_l1_sub_ttl_s (nr_config rt))) (rt_subs_l1 s)\<rparr>)"

definition set_ledger_l1 :: "World \<Rightarrow> NotificationRuntime \<Rightarrow> string \<Rightarrow> LedgerState \<Rightarrow> unit rt" where
  "set_ledger_l1 w rt key v = modify (\<lambda>s. s\<lparr>
     rt_ledger_l1 := l1_set (w_evict w (rt_tick s)) key v (mono w s + seconds (notif_l1_ledger_ttl_s (nr_config rt))) (rt_ledger_l1 s)\<rparr>)"

definition drop_settings :: "Rt \<Rightarrow> Rt" where "drop_settings s = s\<lparr>rt_settings_l1 := l1_pop SETTINGS_KEY (rt_settings_l1 s)\<rparr>"
definition drop_subscription :: "string \<Rightarrow> Rt \<Rightarrow> Rt" where "drop_subscription tenant_id s = s\<lparr>rt_subs_l1 := l1_pop tenant_id (rt_subs_l1 s)\<rparr>"
definition drop_ledger :: "string list \<Rightarrow> Rt \<Rightarrow> Rt" where "drop_ledger keys s = s\<lparr>rt_ledger_l1 := fold l1_pop keys (rt_ledger_l1 s)\<rparr>"
definition drop_all :: "Rt \<Rightarrow> Rt" where "drop_all s = s\<lparr>rt_settings_l1 := [], rt_subs_l1 := [], rt_ledger_l1 := []\<rparr>"

section \<open>Invalidation messages\<close>

record InvalidationMessage =
  im_kind :: InvalidationKind
  im_names :: "string list"
  im_tenant_id :: "string option"
  im_keys :: "string list"
  im_origin :: string
  im_ts :: string

definition apply_invalidation :: "InvalidationMessage \<Rightarrow> Rt \<Rightarrow> Rt" where
  "apply_invalidation message s =
     (case (im_kind message, im_tenant_id message) of
        (INV_SETTINGS, _) \<Rightarrow> drop_settings s
      | (INV_SUBSCRIPTION, Some tenant_id) \<Rightarrow> drop_subscription tenant_id s
      | (INV_LEDGER, _) \<Rightarrow> drop_ledger (im_keys message) s
      | _ \<Rightarrow> drop_all s)"

definition build_message :: "InvalidationKind \<Rightarrow> string \<Rightarrow> string list \<Rightarrow> string option \<Rightarrow> string list \<Rightarrow> datetime \<Rightarrow> json" where
  "build_message kind origin names tenant_id keys now = JObj
     [(''v'', JInt INVALIDATION_MESSAGE_VERSION),
      (''kind'', JStr (InvalidationKind_value kind)),
      (''names'', JArr (map JStr names)),
      (''tenant_id'', opt_json JStr tenant_id),
      (''keys'', JArr (map JStr keys)),
      (''origin'', JStr origin),
      (''ts'', JStr (iso_z now))]"

text \<open>\<open>tuple(str(x) for x in data.get(key) or ())\<close>; a text iterates over its characters.\<close>

definition texts :: "json \<Rightarrow> string list option" where
  "texts v = (if \<not> truthy v then Some [] else case v of
      JArr xs \<Rightarrow> Some (map py_str xs)
    | JStr s \<Rightarrow> Some (map (\<lambda>c. [c]) s)
    | JObj d \<Rightarrow> Some (dict_keys d)
    | _ \<Rightarrow> None)"

definition parse_message :: "rval \<Rightarrow> InvalidationMessage option" where
  "parse_message raw = (case raw of
      RJson (JObj data) \<Rightarrow>
        if \<not> py_eq_int (jget data ''v'') INVALIDATION_MESSAGE_VERSION then None
        else (case (jfield data ''kind'' (\<lambda>k. Option.bind (jstr k) InvalidationKind_of), texts (jget data ''names''),
                    texts (jget data ''keys''), map_of data ''origin'') of
                (Some kind, Some names, Some keys, Some origin) \<Rightarrow>
                  Some \<lparr>im_kind = kind, im_names = names,
                        im_tenant_id = (if jget data ''tenant_id'' = JNull then None else Some (py_str (jget data ''tenant_id''))),
                        im_keys = keys, im_origin = py_str origin, im_ts = py_str (py_or (jget data ''ts'') (JStr []))\<rparr>
              | _ \<Rightarrow> None)
    | _ \<Rightarrow> None)"

definition listener_handle :: "NotificationRuntime \<Rightarrow> rval \<Rightarrow> Rt \<Rightarrow> Rt" where
  "listener_handle rt raw s =
     (case parse_message raw of
        None \<Rightarrow> drop_all s
      | Some message \<Rightarrow> if im_origin message = nr_origin rt then s else apply_invalidation message s)"

text \<open>
  The listener's loop over what its connection does; the state pairs the process with the delay before the
  next attempt (seconds).
\<close>

definition LISTENER_RECONNECT_MIN_S :: int where "LISTENER_RECONNECT_MIN_S = 1"
definition LISTENER_RECONNECT_MAX_S :: int where "LISTENER_RECONNECT_MAX_S = 30"

datatype listener_event = Subscribed | Item rval | Idle | Raised

fun listener_step :: "NotificationRuntime \<Rightarrow> listener_event \<Rightarrow> Rt \<times> int \<Rightarrow> Rt \<times> int" where
  "listener_step rt Subscribed (s, backoff) = (drop_all s, LISTENER_RECONNECT_MIN_S)"
| "listener_step rt (Item raw) (s, backoff) = (listener_handle rt raw s, backoff)"
| "listener_step rt Idle (s, backoff) = (s, backoff)"
| "listener_step rt Raised (s, backoff) = (s, min (backoff * 2) LISTENER_RECONNECT_MAX_S)"

definition listener_run :: "NotificationRuntime \<Rightarrow> listener_event list \<Rightarrow> Rt \<Rightarrow> Rt \<times> int" where
  "listener_run rt events s = fold (listener_step rt) events (s, LISTENER_RECONNECT_MIN_S)"

section \<open>Redis\<close>

definition parse_value :: "(json \<Rightarrow> 'a option) \<Rightarrow> rval option \<Rightarrow> 'a option" where
  "parse_value loader raw = (case raw of Some (RJson j) \<Rightarrow> loader j | _ \<Rightarrow> None)"

definition cmd_get :: "World \<Rightarrow> string \<Rightarrow> Rt \<Rightarrow> rval option list \<times> Rt" where
  "cmd_get w key s = ([redis_get (utc_now w s) (rt_redis s) key], s)"

definition cmd_mget :: "World \<Rightarrow> string list \<Rightarrow> Rt \<Rightarrow> rval option list \<times> Rt" where
  "cmd_mget w keys s = (map (redis_get (utc_now w s) (rt_redis s)) keys, s)"

definition cmd_set :: "World \<Rightarrow> string \<Rightarrow> json \<Rightarrow> int \<Rightarrow> Rt \<Rightarrow> unit \<times> Rt" where
  "cmd_set w key v ttl_s s = ((), s\<lparr>rt_redis := redis_setex (utc_now w s) key (RJson v) ttl_s (rt_redis s)\<rparr>)"

definition cmd_set_nx :: "World \<Rightarrow> string \<Rightarrow> json \<Rightarrow> int \<Rightarrow> Rt \<Rightarrow> unit \<times> Rt" where
  "cmd_set_nx w key v ttl_s s =
     ((), if redis_get (utc_now w s) (rt_redis s) key = None
          then s\<lparr>rt_redis := redis_setex (utc_now w s) key (RJson v) ttl_s (rt_redis s)\<rparr> else s)"

definition cmd_publish :: "json \<Rightarrow> Rt \<Rightarrow> unit \<times> Rt" where
  "cmd_publish message s = ((), s\<lparr>rt_channel := rt_channel s @ [message]\<rparr>)"

text \<open>\<open>LOCK_RELEASE_SCRIPT\<close>, by \<open>EVALSHA\<close> or \<open>EVAL\<close>: the lock goes only if it still holds the token.\<close>

definition cmd_release :: "World \<Rightarrow> string \<Rightarrow> Rt \<Rightarrow> unit \<times> Rt" where
  "cmd_release w token s =
     ((), if redis_get (utc_now w s) (rt_redis s) SETTINGS_FILL_LOCK_KEY = Some (RText token)
          then s\<lparr>rt_redis := redis_del SETTINGS_FILL_LOCK_KEY (rt_redis s)\<rparr> else s)"

text \<open>\<open>SET key token NX PX ttl\<close>: whether the lock was free.\<close>

definition cmd_lock :: "World \<Rightarrow> string \<Rightarrow> Rt \<Rightarrow> bool \<times> Rt" where
  "cmd_lock w token s =
     (if redis_get (utc_now w s) (rt_redis s) SETTINGS_FILL_LOCK_KEY = None
      then (True, s\<lparr>rt_redis := dict_set SETTINGS_FILL_LOCK_KEY
                     (RText token, Some (utc_now w s + SETTINGS_FILL_LOCK_TTL_MS * 1000)) (rt_redis s)\<rparr>)
      else (False, s))"

definition release_lock :: "World \<Rightarrow> string \<Rightarrow> unit rt" where
  "release_lock w token = do { _ \<leftarrow> external w (cmd_release w token); State_Monad.return () }"

section \<open>Filling\<close>

definition ANY_NOTIFICATION :: string where "ANY_NOTIFICATION = ''*''"

definition settings_unavailable :: "string \<Rightarrow> err" where
  "settings_unavailable msg = \<lparr>er_class = ''ai4i_core.kafka.cache.SettingsUnavailable'', er_text = msg\<rparr>"

definition stale_settings :: "World \<Rightarrow> (err, SettingsSnapshot) res rt" where
  "stale_settings w = gets (\<lambda>s. case rt_last_good s of
      Some (snapshot, loaded_at) \<Rightarrow>
        if mono w s - loaded_at < seconds STALE_SETTINGS_MAX_AGE_S then Inr snapshot
        else Inl (settings_unavailable ''settings unavailable and no recent snapshot'')
    | None \<Rightarrow> Inl (settings_unavailable ''settings unavailable and no recent snapshot''))"

text \<open>The lock is held by another pod: wait for its snapshot.  \<open>None\<close> when the attempts run out.\<close>

fun poll_settings :: "World \<Rightarrow> NotificationRuntime \<Rightarrow> nat \<Rightarrow> (err, SettingsSnapshot option) res rt" where
  "poll_settings w rt 0 = State_Monad.return (Inr None)"
| "poll_settings w rt (Suc n) = do {
     modify tick;
     r \<leftarrow> external w (cmd_get w SETTINGS_KEY);
     case r of
       Inl e \<Rightarrow> State_Monad.return (Inl e)
     | Inr raw \<Rightarrow>
         (case parse_value SettingsSnapshot_from_json (hd raw) of
            None \<Rightarrow> poll_settings w rt n
          | Some snapshot \<Rightarrow> do { set_settings_l1 w rt snapshot; State_Monad.return (Inr (Some snapshot)) }) }"

datatype lock_outcome = Locked string | Found SettingsSnapshot | NotLocked

definition lock_or_wait :: "World \<Rightarrow> NotificationRuntime \<Rightarrow> string \<Rightarrow> lock_outcome rt" where
  "lock_or_wait w rt context_name = do {
     uid \<leftarrow> uuid4 w;
     let candidate = nr_origin rt @ '':'' @ uid;
     won \<leftarrow> external w (cmd_lock w candidate);
     r \<leftarrow> (case won of
            Inl e \<Rightarrow> State_Monad.return (Inl e)
          | Inr True \<Rightarrow> State_Monad.return (Inr (Locked candidate))
          | Inr False \<Rightarrow> do {
              polled \<leftarrow> poll_settings w rt SETTINGS_FILL_POLL_ATTEMPTS;
              State_Monad.return (case polled of Inl e \<Rightarrow> Inl e | Inr None \<Rightarrow> Inr NotLocked | Inr (Some sn) \<Rightarrow> Inr (Found sn)) });
     case r of
       Inl e \<Rightarrow> do {
         record_failure w rt FS_CACHE CACHE_READ_FAILED
           ((failure_args context_name OP_CACHE_READ (Some e))\<lparr>fa_redis_key := Some SETTINGS_FILL_LOCK_KEY\<rparr>);
         State_Monad.return NotLocked }
     | Inr out \<Rightarrow> State_Monad.return out }"

text \<open>The part after the lock: load from the database, or serve the last good snapshot.\<close>

definition fill_from_db ::
  "World \<Rightarrow> NotificationRuntime \<Rightarrow> string \<Rightarrow> string option \<Rightarrow> (err, SettingsSnapshot \<times> string option \<times> bool) res rt" where
  "fill_from_db w rt context_name token = do {
     loaded \<leftarrow> load_settings_snapshot w;
     case loaded of
       Inl e \<Rightarrow> do {
         modify (\<lambda>s. s\<lparr>rt_settings_fill_failed_at := Some (mono w s)\<rparr>);
         (case token of None \<Rightarrow> State_Monad.return () | Some t \<Rightarrow> release_lock w t);
         stale \<leftarrow> stale_settings w;
         case stale of
           Inl e' \<Rightarrow> State_Monad.return (Inl e')
         | Inr snapshot \<Rightarrow> do {
             record_failure w rt FS_SETTINGS SETTINGS_UNAVAILABLE
               ((failure_args context_name OP_SETTINGS_FILL (Some e))\<lparr>fa_message := Some ''serving the last good settings snapshot''\<rparr>);
             State_Monad.return (Inr (snapshot, None, False)) } }
     | Inr snapshot \<Rightarrow> do {
         modify (\<lambda>s. s\<lparr>rt_settings_fill_failed_at := None\<rparr>);
         set_settings_l1 w rt snapshot;
         State_Monad.return (Inr (snapshot, token, True)) } }"

text \<open>The snapshot, the lock token to release, and whether it was loaded from the database.\<close>

definition fill_settings ::
  "World \<Rightarrow> NotificationRuntime \<Rightarrow> bool \<Rightarrow> string \<Rightarrow> (err, SettingsSnapshot \<times> string option \<times> bool) res rt" where
  "fill_settings w rt redis_ok context_name = do {
     recent \<leftarrow> gets (\<lambda>s. case rt_settings_fill_failed_at s of None \<Rightarrow> False | Some t \<Rightarrow> mono w s - t < seconds SETTINGS_FILL_BACKOFF_S);
     if recent
     then do { stale \<leftarrow> stale_settings w; State_Monad.return (case stale of Inl e \<Rightarrow> Inl e | Inr sn \<Rightarrow> Inr (sn, None, False)) }
     else do {
       out \<leftarrow> (if redis_ok then lock_or_wait w rt context_name else State_Monad.return NotLocked);
       case out of
         Found sn \<Rightarrow> State_Monad.return (Inr (sn, None, False))
       | Locked t \<Rightarrow> fill_from_db w rt context_name (Some t)
       | NotLocked \<Rightarrow> fill_from_db w rt context_name None } }"

definition fill_redis :: "World \<Rightarrow> NotificationRuntime \<Rightarrow> (string \<times> json \<times> int) list \<Rightarrow> string option \<Rightarrow> string \<Rightarrow> unit rt" where
  "fill_redis w rt fills lock_token context_name = do {
     r \<leftarrow> pipeline_execute w
       (map (\<lambda>(key, v, ttl_s). cmd_set_nx w key v ttl_s) fills @
        (case lock_token of None \<Rightarrow> [] | Some t \<Rightarrow> [cmd_release w t]));
     case r of
       Inl e \<Rightarrow> record_failure w rt FS_CACHE CACHE_WRITE_FAILED (failure_args context_name OP_CACHE_WRITE (Some e))
     | Inr results \<Rightarrow>
         (case lock_token of
            None \<Rightarrow> State_Monad.return ()
          | Some t \<Rightarrow> if isl (last results) then release_lock w t else State_Monad.return ()) }"

section \<open>Reading\<close>

record CacheRead =
  cr_settings :: "SettingsSnapshot option"
  cr_subscriptions :: "(string, TenantSubscriptions) dict"
  cr_ledger :: "(string, LedgerState) dict"
  cr_settings_error :: "err option"
  cr_subscription_error :: "err option"
  cr_ledger_error :: "err option"

type_synonym futures = "(string, (err, cached) res) dict"
type_synonym fills = "(string \<times> json \<times> int) list"

text \<open>The keys whose value was found with it, and the keys to load, of a list of parsed values.\<close>

definition hits :: "('k \<times> 'v option) list \<Rightarrow> ('k \<times> 'v) list" where
  "hits parsed = concat (map (\<lambda>(k, v). case v of Some x \<Rightarrow> [(k, x)] | None \<Rightarrow> []) parsed)"

definition misses :: "('k \<times> 'v option) list \<Rightarrow> 'k list" where
  "misses parsed = map fst (filter (\<lambda>(k, v). v = None) parsed)"

text \<open>The one Redis pipeline of the owned misses: whether it worked, and the raw values.\<close>

definition read_redis ::
  "World \<Rightarrow> NotificationRuntime \<Rightarrow> bool \<Rightarrow> string list \<Rightarrow> LedgerRef list \<Rightarrow> string \<Rightarrow>
   (bool \<times> rval option \<times> rval option list \<times> rval option list) rt" where
  "read_redis w rt own_settings own_subs own_refs context_name = do {
     r \<leftarrow> pipeline_execute w
       ((if own_settings then [cmd_get w SETTINGS_KEY] else []) @ map (\<lambda>t. cmd_get w (subscription_key t)) own_subs @
        (if own_refs = [] then [] else [cmd_mget w (map lr_key own_refs)]));
     case raise_first r of
       Inl e \<Rightarrow> do {
         record_failure w rt FS_CACHE CACHE_READ_FAILED (failure_args context_name OP_CACHE_READ (Some e));
         State_Monad.return (False, None, replicate (length own_subs) None, replicate (length own_refs) None) }
     | Inr results \<Rightarrow>
         (let rest = (if own_settings then tl results else results) in
          State_Monad.return (True, if own_settings then hd (hd results) else None,
            map hd (take (length own_subs) rest),
            if own_refs = [] then [] else rest ! length own_subs)) }"

text \<open>
  The settings of a call that owns loading them: the snapshot or the error, the lock token and the fill of
  Redis.
\<close>

definition load_settings ::
  "World \<Rightarrow> NotificationRuntime \<Rightarrow> bool \<Rightarrow> rval option \<Rightarrow> string \<Rightarrow> ((err, SettingsSnapshot) res \<times> string option \<times> fills) rt" where
  "load_settings w rt redis_ok raw context_name =
     (case parse_value SettingsSnapshot_from_json raw of
        Some snapshot \<Rightarrow> do { set_settings_l1 w rt snapshot; State_Monad.return (Inr snapshot, None, []) }
      | None \<Rightarrow> do {
          r \<leftarrow> fill_settings w rt redis_ok context_name;
          State_Monad.return (case r of
              Inl e \<Rightarrow> (Inl e, None, [])
            | Inr (snapshot, token, from_db) \<Rightarrow>
                (Inr snapshot, token,
                 if from_db then [(SETTINGS_KEY, SettingsSnapshot_to_json snapshot, notif_redis_settings_ttl_s (nr_config rt))] else [])) })"

definition load_subs ::
  "World \<Rightarrow> NotificationRuntime \<Rightarrow> (string \<times> rval option) list \<Rightarrow>
   ((string, TenantSubscriptions) dict \<times> err option \<times> futures \<times> fills) rt" where
  "load_subs w rt raws = do {
     let parsed = map (apsnd (parse_value TenantSubscriptions_from_json)) raws;
     let found = hits parsed;
     let subs_db = misses parsed;
     let done_futures = map (\<lambda>(t, x). (subscription_key t, Inr (CSubs x))) found;
     _ \<leftarrow> State_Monad.traverse_list (\<lambda>(t, x). set_subs_l1 w rt t x) found;
     if subs_db = [] then State_Monad.return (found, None, done_futures, [])
     else do {
       r \<leftarrow> load_subscriptions_many w subs_db;
       case r of
         Inl e \<Rightarrow> State_Monad.return (found, Some e, done_futures @ map (\<lambda>t. (subscription_key t, Inl e)) subs_db, [])
       | Inr loaded \<Rightarrow> do {
           let fresh = map (\<lambda>t. (t, the (dict_get loaded t))) subs_db;
           _ \<leftarrow> State_Monad.traverse_list (\<lambda>(t, x). set_subs_l1 w rt t x) fresh;
           State_Monad.return (found @ fresh, None,
             done_futures @ map (\<lambda>(t, x). (subscription_key t, Inr (CSubs x))) fresh,
             map (\<lambda>(t, x). (subscription_key t, TenantSubscriptions_to_json x, notif_redis_sub_ttl_s (nr_config rt))) fresh) } } }"

text \<open>\<open>pairs\<close>: the catalogue ids come from the snapshot; a notification that is not in it raises \<open>KeyError\<close>.\<close>

fun with_ids :: "SettingsSnapshot \<Rightarrow> LedgerRef list \<Rightarrow> (err, (int \<times> LedgerRef) list) res" where
  "with_ids snapshot [] = Inr []"
| "with_ids snapshot (ref # refs) =
     (case snapshot_get snapshot (lr_name ref) of
        None \<Rightarrow> Inl \<lparr>er_class = ''KeyError'', er_text = repr_str (NotificationName_value (lr_name ref) @ '' is not in the catalog'')\<rparr>
      | Some row \<Rightarrow> and_then (with_ids snapshot refs) (\<lambda>ps. Inr ((sr_id row, ref) # ps)))"

text \<open>The snapshot the ledger states are read with: the one at hand, or the one another coroutine is loading.\<close>

definition snapshot_for_ledger :: "SettingsSnapshot option \<Rightarrow> (err, cached) res option \<Rightarrow> (err, SettingsSnapshot) res" where
  "snapshot_for_ledger snapshot settings_wait = (case (snapshot, settings_wait) of
      (Some sn, _) \<Rightarrow> Inr sn
    | (None, Some (Inr (CSettings sn))) \<Rightarrow> Inr sn
    | (None, Some (Inl e)) \<Rightarrow> Inl e
    | _ \<Rightarrow> Inl (settings_unavailable ''ledger state needs the settings snapshot''))"

definition load_ledger ::
  "World \<Rightarrow> NotificationRuntime \<Rightarrow> SettingsSnapshot option \<Rightarrow> (err, cached) res option \<Rightarrow> (LedgerRef \<times> rval option) list \<Rightarrow>
   ((string, LedgerState) dict \<times> SettingsSnapshot option \<times> err option \<times> futures \<times> fills) rt" where
  "load_ledger w rt snapshot settings_wait raws = do {
     let parsed = map (apsnd (parse_value LedgerState_from_json)) raws;
     let found = map (apfst lr_key) (hits parsed);
     let refs_db = misses parsed;
     let done_futures = map (\<lambda>(k, x). (k, Inr (CLedger x))) found;
     _ \<leftarrow> State_Monad.traverse_list (\<lambda>(k, x). set_ledger_l1 w rt k x) found;
     if refs_db = [] then State_Monad.return (found, snapshot, None, done_futures, [])
     else do {
       let sn = snapshot_for_ledger snapshot settings_wait;
       let snapshot' = (case sn of Inl _ \<Rightarrow> snapshot | Inr x \<Rightarrow> Some x);
       r \<leftarrow> (case and_then sn (\<lambda>x. with_ids x refs_db) of
               Inl e \<Rightarrow> State_Monad.return (Inl e)
             | Inr pairs \<Rightarrow> query w (\<lambda>s. Inr (read_states (rt_ledger s) pairs)));
       case r of
         Inl e \<Rightarrow> State_Monad.return (found, snapshot', Some e, done_futures @ map (\<lambda>ref. (lr_key ref, Inl e)) refs_db, [])
       | Inr states \<Rightarrow> do {
           let fresh = map (\<lambda>ref. (lr_key ref, the (dict_get states (lr_key ref)))) refs_db;
           _ \<leftarrow> State_Monad.traverse_list (\<lambda>(k, x). set_ledger_l1 w rt k x) fresh;
           State_Monad.return (found @ fresh, snapshot', None,
             done_futures @ map (\<lambda>(k, x). (k, Inr (CLedger x))) fresh,
             map (\<lambda>(k, x). (k, LedgerState_to_json x, notif_redis_ledger_ttl_s (nr_config rt))) fresh) } } }"

text \<open>\<open>_load_owned\<close>; the result is the \<open>CacheRead\<close> so far and the futures it completes.\<close>

definition load_owned ::
  "World \<Rightarrow> NotificationRuntime \<Rightarrow> CacheRead \<Rightarrow> bool \<Rightarrow> string list \<Rightarrow> LedgerRef list \<Rightarrow> string \<Rightarrow> (err, cached) res option \<Rightarrow>
   (CacheRead \<times> futures) rt" where
  "load_owned w rt out own_settings own_subs own_refs context_name settings_wait = do {
     (redis_ok, raw_settings, raw_subs, raw_refs) \<leftarrow> read_redis w rt own_settings own_subs own_refs context_name;
     (sn, token, fills1) \<leftarrow>
       (if own_settings then do { r \<leftarrow> load_settings w rt redis_ok raw_settings context_name; State_Monad.return (case r of (x, y, z) \<Rightarrow> (Some x, y, z)) }
        else State_Monad.return (None, None, []));
     let snapshot = (case sn of Some (Inr x) \<Rightarrow> Some x | Some (Inl _) \<Rightarrow> None | None \<Rightarrow> cr_settings out);
     let f1 = (case sn of None \<Rightarrow> [] | Some r \<Rightarrow> [(SETTINGS_KEY, map_sum (\<lambda>e. e) CSettings r)]);
     (subs, subs_error, f2, fills2) \<leftarrow> load_subs w rt (zip own_subs raw_subs);
     (ledger, snapshot', ledger_error, f3, fills3) \<leftarrow> load_ledger w rt snapshot settings_wait (zip own_refs raw_refs);
     (if redis_ok \<and> (fills1 @ fills2 @ fills3 \<noteq> [] \<or> token \<noteq> None)
      then fill_redis w rt (fills1 @ fills2 @ fills3) token context_name else State_Monad.return ());
     State_Monad.return (out\<lparr>cr_settings := snapshot', cr_subscriptions := cr_subscriptions out @ subs, cr_ledger := cr_ledger out @ ledger,
        cr_settings_error := (case sn of Some (Inl e) \<Rightarrow> Some e | _ \<Rightarrow> cr_settings_error out),
        cr_subscription_error := (if subs_error = None then cr_subscription_error out else subs_error),
        cr_ledger_error := (if ledger_error = None then cr_ledger_error out else ledger_error)\<rparr>, f1 @ f2 @ f3) }"

text \<open>What a future of another coroutine adds to the read.\<close>

definition or_error :: "err option \<Rightarrow> err \<Rightarrow> err option" where
  "or_error old e = (case old of None \<Rightarrow> Some e | Some x \<Rightarrow> Some x)"

definition await_future :: "string \<times> (err, cached) res \<Rightarrow> CacheRead \<Rightarrow> CacheRead" where
  "await_future f out = (case f of (key, r) \<Rightarrow>
     (if key = SETTINGS_KEY then
        (case r of Inl e \<Rightarrow> out\<lparr>cr_settings_error := or_error (cr_settings_error out) e\<rparr>
         | Inr (CSettings sn) \<Rightarrow> out\<lparr>cr_settings := (case cr_settings out of None \<Rightarrow> Some sn | x \<Rightarrow> x)\<rparr>
         | _ \<Rightarrow> out)
      else if take (length SUBSCRIPTION_KEY_PREFIX) key = SUBSCRIPTION_KEY_PREFIX then
        (case r of Inl e \<Rightarrow> out\<lparr>cr_subscription_error := or_error (cr_subscription_error out) e\<rparr>
         | Inr (CSubs x) \<Rightarrow> out\<lparr>cr_subscriptions := dict_set (ts_tenant_id x) x (cr_subscriptions out)\<rparr>
         | _ \<Rightarrow> out)
      else
        (case r of Inl e \<Rightarrow> out\<lparr>cr_ledger_error := or_error (cr_ledger_error out) e\<rparr>
         | Inr (CLedger x) \<Rightarrow> out\<lparr>cr_ledger := dict_set key x (cr_ledger out)\<rparr>
         | _ \<Rightarrow> out)))"

text \<open>The keys of a call in the order it claims them, and the split into owned and awaited ones.\<close>

definition distinct_refs :: "LedgerRef list \<Rightarrow> LedgerRef list" where
  "distinct_refs refs = map snd (fold (\<lambda>ref. dict_set (lr_key ref) ref) refs [])"

definition read_l1 :: "World \<Rightarrow> string list \<Rightarrow> LedgerRef list \<Rightarrow> Rt \<Rightarrow> CacheRead" where
  "read_l1 w tenants refs s =
     \<lparr>cr_settings = peek_settings w s,
      cr_subscriptions = hits (map (\<lambda>t. (t, peek_subscriptions w t s)) tenants),
      cr_ledger = hits (map (\<lambda>r. (lr_key r, peek_ledger w (lr_key r) s)) refs),
      cr_settings_error = None, cr_subscription_error = None, cr_ledger_error = None\<rparr>"

definition read_with_futures ::
  "World \<Rightarrow> NotificationRuntime \<Rightarrow> string list \<Rightarrow> LedgerRef list \<Rightarrow> string \<Rightarrow> (CacheRead \<times> futures) rt" where
  "read_with_futures w rt tenant_ids ledger_refs context_name = do {
     let tenants = fromkeys tenant_ids;
     let refs = distinct_refs ledger_refs;
     out \<leftarrow> gets (read_l1 w tenants refs);
     inflight \<leftarrow> gets rt_inflight;
     let subs_missing = filter (\<lambda>t. dict_get (cr_subscriptions out) t = None) tenants;
     let refs_missing = filter (\<lambda>r. dict_get (cr_ledger out) (lr_key r) = None) refs;
     let miss_settings = (cr_settings out = None);
     let own_settings = (miss_settings \<and> dict_get inflight SETTINGS_KEY = None);
     let own_subs = filter (\<lambda>t. dict_get inflight (subscription_key t) = None) subs_missing;
     let own_refs = filter (\<lambda>r. dict_get inflight (lr_key r) = None) refs_missing;
     let missed = (if miss_settings then [SETTINGS_KEY] else []) @ map subscription_key subs_missing @ map lr_key refs_missing;
     let waits = hits (map (\<lambda>k. (k, dict_get inflight k)) missed);
     (out1, completed) \<leftarrow>
       (if own_settings \<or> own_subs \<noteq> [] \<or> own_refs \<noteq> []
        then load_owned w rt out own_settings own_subs own_refs context_name (dict_get waits SETTINGS_KEY)
        else State_Monad.return (out, []));
     let out2 = fold await_future waits out1;
     State_Monad.return
       (if cr_settings out2 = None \<and> cr_settings_error out2 = None
        then out2\<lparr>cr_settings_error := Some (settings_unavailable ''no settings snapshot'')\<rparr> else out2, completed) }"

definition cache_read :: "World \<Rightarrow> NotificationRuntime \<Rightarrow> string list \<Rightarrow> LedgerRef list \<Rightarrow> string \<Rightarrow> CacheRead rt" where
  "cache_read w rt tenant_ids ledger_refs context_name = do {
     r \<leftarrow> read_with_futures w rt tenant_ids ledger_refs context_name;
     State_Monad.return (fst r) }"

section \<open>Writing\<close>

text \<open>
  \<open>_write\<close>: the keys whose command failed, all of them when the publication failed, are deleted, so that no
  stale value stays behind a lost invalidation.
\<close>

definition write_results :: "nat \<Rightarrow> (err, (err, unit) res list) res \<Rightarrow> (err, unit) res list" where
  "write_results n r = (case r of Inr rs \<Rightarrow> rs | Inl e \<Rightarrow> replicate n (Inl e))"

definition write_stale :: "string list \<Rightarrow> (err, unit) res list \<Rightarrow> string list" where
  "write_stale keys results =
     (if filter isl (drop (length keys) results) \<noteq> [] then keys else map fst (filter (\<lambda>(_, res). isl res) (zip keys results)))"

definition write_redis ::
  "World \<Rightarrow> NotificationRuntime \<Rightarrow> (string, json \<times> int) dict \<Rightarrow> json list \<Rightarrow> string \<Rightarrow> string option \<Rightarrow> unit rt" where
  "write_redis w rt values messages context_name tenant_id = do {
     let keys = dict_keys values;
     r \<leftarrow> pipeline_execute w (map (\<lambda>(key, v, ttl_s). cmd_set w key v ttl_s) values @ map cmd_publish messages);
     let results = write_results (length keys + length messages) r;
     let failed = filter (\<lambda>(_, res). isl res) (zip keys results);
     let publish_error = (case filter isl (drop (length keys) results) of [] \<Rightarrow> None | x # _ \<Rightarrow> Some (projl x));
     _ \<leftarrow> State_Monad.traverse_list (\<lambda>(key, res). record_failure w rt FS_CACHE CACHE_WRITE_FAILED
            ((failure_args context_name OP_CACHE_WRITE (Some (projl res)))\<lparr>fa_redis_key := Some key, fa_tenant_id := tenant_id\<rparr>)) failed;
     (case publish_error of
        None \<Rightarrow> State_Monad.return ()
      | Some e \<Rightarrow> record_failure w rt FS_CACHE INVALIDATION_PUBLISH_FAILED
            ((failure_args context_name OP_INVALIDATION_PUBLISH (Some e))\<lparr>fa_redis_key := Some INVALIDATION_CHANNEL, fa_tenant_id := tenant_id\<rparr>));
     let stale_keys = write_stale keys results;
     (if stale_keys = [] then State_Monad.return ()
      else do { _ \<leftarrow> external w (\<lambda>s. ((), s\<lparr>rt_redis := fold redis_del stale_keys (rt_redis s)\<rparr>)); State_Monad.return () }) }"

definition write_settings :: "World \<Rightarrow> NotificationRuntime \<Rightarrow> SettingsSnapshot \<Rightarrow> string list \<Rightarrow> unit rt" where
  "write_settings w rt snapshot names = do {
     set_settings_l1 w rt snapshot;
     now \<leftarrow> gets (utc_now w);
     write_redis w rt [(SETTINGS_KEY, SettingsSnapshot_to_json snapshot, notif_redis_settings_ttl_s (nr_config rt))]
       [build_message INV_SETTINGS (nr_origin rt) names None [] now]
       (case names of [] \<Rightarrow> ANY_NOTIFICATION | n # _ \<Rightarrow> n) None }"

definition write_subscriptions :: "World \<Rightarrow> NotificationRuntime \<Rightarrow> TenantSubscriptions list \<Rightarrow> unit rt" where
  "write_subscriptions w rt values =
     (if values = [] then State_Monad.return ()
      else do {
        _ \<leftarrow> State_Monad.traverse_list (\<lambda>v. set_subs_l1 w rt (ts_tenant_id v) v) values;
        now \<leftarrow> gets (utc_now w);
        write_redis w rt
          (fold (\<lambda>v. dict_set (subscription_key (ts_tenant_id v)) (TenantSubscriptions_to_json v, notif_redis_sub_ttl_s (nr_config rt))) values [])
          (map (\<lambda>v. build_message INV_SUBSCRIPTION (nr_origin rt) [] (Some (ts_tenant_id v)) [] now) values)
          ANY_NOTIFICATION (if length values = 1 then Some (ts_tenant_id (hd values)) else None) })"

definition write_ledger ::
  "World \<Rightarrow> NotificationRuntime \<Rightarrow> (string, LedgerState) dict \<Rightarrow> (string, LedgerState) dict \<Rightarrow> string list \<Rightarrow> unit rt" where
  "write_ledger w rt changed refreshed names = do {
     _ \<leftarrow> State_Monad.traverse_list (\<lambda>(key, state). set_ledger_l1 w rt key state) (refreshed @ changed);
     let values = fold (\<lambda>(key, state). dict_set key (LedgerState_to_json state, notif_redis_ledger_ttl_s (nr_config rt))) (refreshed @ changed) [];
     now \<leftarrow> gets (utc_now w);
     (if values = [] then State_Monad.return ()
      else write_redis w rt values
        (if changed = [] then [] else [build_message INV_LEDGER (nr_origin rt) names None (dict_keys changed) now])
        (case names of [] \<Rightarrow> ANY_NOTIFICATION | n # _ \<Rightarrow> n) None) }"

end
