(* ===== verification/Notif_Cache_Props.thy ===== *)
theory Notif_Cache_Props
  imports Notif_Cache
begin

text \<open>What the tiered cache promises its callers.\<close>

section \<open>Frames\<close>

text \<open>The cache never touches the tables, Kafka or the decisions, and only adds to the failure log.\<close>

definition cache_only :: "Rt \<Rightarrow> Rt \<Rightarrow> bool" where
  "cache_only s s' \<longleftrightarrow> rt_tick s \<le> rt_tick s' \<and> accounted s \<le> accounted s' \<and>
     rt_override s' = rt_override s \<and> rt_inflight s' = rt_inflight s \<and> rt_decisions s' = rt_decisions s \<and>
     rt_configs s' = rt_configs s \<and> rt_thresholds s' = rt_thresholds s \<and> rt_subscriptions s' = rt_subscriptions s \<and>
     rt_ledger s' = rt_ledger s \<and> rt_users s' = rt_users s \<and> rt_tenants s' = rt_tenants s \<and> rt_kafka s' = rt_kafka s"

interpretation caches: frame cache_only
  by unfold_locales (auto simp: cache_only_def)

lemma accounted_tick [simp]: "accounted (tick s) = accounted s"
  by (simp add: accounted_def tick_def)

lemma cache_only_tick [simp]: "cache_only s (tick s)"
  by (simp add: cache_only_def) (simp add: tick_def)

lemma cache_only_modify:
  "(\<And>s. cache_only s (f s)) \<Longrightarrow> keeps cache_only (modify f)"
  by (simp add: keeps_def)

lemma record_failure_cache [intro!, simp]: "keeps cache_only (record_failure w rt stage code a)"
  unfolding keeps_def
proof (intro allI wp_of_run)
  fix s u s' assume r: "run_state (record_failure w rt stage code a) s = (u, s')"
  have "log_only s s'" using keeps_run [OF record_failure_logs r] .
  then show "cache_only s s'"
    using record_failure_accounted [OF r] by (auto simp: cache_only_def dest: log_only_fields)
qed

lemma external_cache:
  "(\<And>s. cache_only s (snd (act s))) \<Longrightarrow> keeps cache_only (external w act)"
  unfolding keeps_def external_def
  by (auto split: option.split prod.split) (metis cache_only_tick caches.trans snd_conv)

lemma query_cache [intro!, simp]: "keeps cache_only (query w f)"
  unfolding query_def by (intro caches.keeps_bind external_cache) (auto simp: caches.refl)

lemma pipeline_cache:
  "(\<And>c s. c \<in> set cmds \<Longrightarrow> cache_only s (snd (c s))) \<Longrightarrow> keeps cache_only (pipeline_execute w cmds)"
  unfolding pipeline_execute_def
  by (intro caches.keeps_bind caches.keeps_sum caches.keeps_traverse external_cache caches.keeps_return) (auto simp: caches.refl)

lemma accounted_cong:
  "rt_failures s' = rt_failures s \<Longrightarrow> rt_unwritten s' = rt_unwritten s \<Longrightarrow> rt_throttle s' = rt_throttle s \<Longrightarrow> accounted s' = accounted s"
  by (simp add: accounted_def)

lemma cmd_cache [simp]:
  "cache_only s (snd (cmd_get w k s))" "cache_only s (snd (cmd_mget w ks s))" "cache_only s (snd (cmd_set w k v ttl s))"
  "cache_only s (snd (cmd_set_nx w k v ttl s))" "cache_only s (snd (cmd_publish m s))" "cache_only s (snd (cmd_release w tk s))"
  "cache_only s (snd (cmd_lock w tk s))"
  by (simp_all add: cmd_get_def cmd_mget_def cmd_set_def cmd_set_nx_def cmd_publish_def cmd_release_def cmd_lock_def
      cache_only_def accounted_def)

lemma l1_cache [intro!, simp]:
  "keeps cache_only (set_settings_l1 w rt sn)" "keeps cache_only (set_subs_l1 w rt t x)" "keeps cache_only (set_ledger_l1 w rt k v)"
  by (auto simp: set_settings_l1_def set_subs_l1_def set_ledger_l1_def cache_only_def accounted_def intro!: cache_only_modify)

lemma uuid4_cache [intro!, simp]: "keeps cache_only (uuid4 w)"
  by (simp add: keeps_def uuid4_def)

lemma release_lock_cache [intro!, simp]: "keeps cache_only (release_lock w t)"
  unfolding release_lock_def by (intro caches.keeps_bind external_cache caches.keeps_return) simp

lemma load_cache [intro!, simp]:
  "keeps cache_only (load_settings_snapshot w)" "keeps cache_only (load_subscriptions_many w ids)"
  by (simp_all add: load_settings_snapshot_def load_subscriptions_many_def)

lemma poll_settings_cache [intro!, simp]: "keeps cache_only (poll_settings w rt n)"
  by (induction n) (auto intro!: external_cache cache_only_modify)

lemma stale_settings_cache [intro!, simp]: "keeps cache_only (stale_settings w)"
  by (simp add: stale_settings_def)

lemma lock_or_wait_cache [intro!, simp]: "keeps cache_only (lock_or_wait w rt ctx)"
  unfolding lock_or_wait_def Let_def
  by (intro caches.keeps_bind caches.keeps_sum external_cache) (auto split: bool.split)

lemma fill_from_db_cache [intro!, simp]: "keeps cache_only (fill_from_db w rt ctx token)"
  unfolding fill_from_db_def
  by (intro caches.keeps_bind caches.keeps_sum caches.keeps_option cache_only_modify) (auto simp: cache_only_def accounted_def)

lemma fill_settings_cache [intro!, simp]: "keeps cache_only (fill_settings w rt ok ctx)"
  unfolding fill_settings_def
  by (intro caches.keeps_bind caches.keeps_if) (auto split: lock_outcome.split)

lemma fill_redis_cache [intro!, simp]: "keeps cache_only (fill_redis w rt fills token ctx)"
  unfolding fill_redis_def
  by (intro caches.keeps_bind caches.keeps_sum caches.keeps_option caches.keeps_if pipeline_cache) (auto split: option.splits)

lemma read_redis_cache [intro!, simp]: "keeps cache_only (read_redis w rt own ts rs ctx)"
  unfolding read_redis_def Let_def
  by (intro caches.keeps_bind caches.keeps_sum pipeline_cache) (auto split: if_splits)

lemma load_settings_cache [intro!, simp]: "keeps cache_only (load_settings w rt ok raw ctx)"
  unfolding load_settings_def by auto

lemma load_subs_cache [intro!, simp]: "keeps cache_only (load_subs w rt raws)"
  unfolding load_subs_def Let_def by auto

lemma load_ledger_cache [intro!, simp]: "keeps cache_only (load_ledger w rt sn wait raws)"
  unfolding load_ledger_def Let_def by auto

lemma load_owned_cache [intro!, simp]: "keeps cache_only (load_owned w rt out own ts rs ctx wait)"
  unfolding load_owned_def Let_def by (intro caches.keeps_bind caches.keeps_prod caches.keeps_if) auto

lemma cache_read_cache [intro!, simp]: "keeps cache_only (cache_read w rt ts rs ctx)"
  unfolding cache_read_def read_with_futures_def Let_def by (intro caches.keeps_bind caches.keeps_prod caches.keeps_if) auto

lemma fold_del_cache [simp]: "cache_only s (s\<lparr>rt_redis := fold redis_del ks (rt_redis s)\<rparr>)"
  by (simp add: cache_only_def accounted_def)

lemma write_redis_cache [intro!, simp]: "keeps cache_only (write_redis w rt values msgs ctx tenant)"
  unfolding write_redis_def Let_def
  by (intro caches.keeps_bind caches.keeps_option caches.keeps_if caches.keeps_traverse pipeline_cache external_cache) auto

lemma write_ledger_cache [intro!, simp]: "keeps cache_only (write_ledger w rt changed refreshed names)"
  unfolding write_ledger_def Let_def by (intro caches.keeps_bind caches.keeps_if caches.keeps_traverse) auto

section \<open>What a load covers\<close>

lemma hits_simps [simp]: "hits [] = []" "hits ((k, v) # ps) = (case v of Some x \<Rightarrow> (k, x) # hits ps | None \<Rightarrow> hits ps)"
  by (simp_all add: hits_def split: option.split)

lemma hits_iff: "(k, x) \<in> set (hits ps) \<longleftrightarrow> (k, Some x) \<in> set ps"
  by (induction ps) (auto split: option.splits)

lemma hits_map: "fst ` set (hits (map (\<lambda>k. (k, g k)) ks)) = {k \<in> set ks. g k \<noteq> None}"
  by (induction ks) (auto split: option.splits)

lemma misses_iff: "k \<in> set (misses ps) \<longleftrightarrow> (k, None) \<in> set ps"
  by (induction ps) (auto simp: misses_def)

lemma hits_misses: "fst ` set ps = fst ` set (hits ps) \<union> set (misses ps)"
  by (induction ps) (auto simp: hits_def misses_def split: option.splits)

lemma wp_any: "(\<And>a s'. Q a s') \<Longrightarrow> wp m Q s"
  by (simp add: wp_def split: prod.split)

lemma load_subs_covers:
  "wp (load_subs w rt raws) (\<lambda>(subs, e, f, fills) s'.
     set (map fst f) = subscription_key ` fst ` set raws \<and>
     (e = None \<longrightarrow> fst ` set raws \<subseteq> fst ` set subs)) s"
proof -
  let ?parsed = "map (apsnd (parse_value TenantSubscriptions_from_json)) raws"
  have all: "fst ` set raws = fst ` set (hits ?parsed) \<union> set (misses ?parsed)"
    using hits_misses [of ?parsed] by (simp add: image_image)
  have fut: "fst ` (\<lambda>(t, x). (subscription_key t, Inr (CSubs x) :: (err, cached) res)) ` set xs = subscription_key ` fst ` set xs" for xs
    unfolding image_image by (rule image_cong) auto
  show ?thesis
    unfolding load_subs_def Let_def wp_bind
    apply (rule wp_any)
    apply (cases "misses ?parsed = []")
    subgoal using all fut by simp
    subgoal
      apply (simp only: if_not_P wp_bind not_False_eq_True)
      apply (rule wp_any)
      apply (split sum.split, intro conjI allI impI)
      subgoal using all fut by (simp add: image_Un image_image)
      subgoal for l
        apply (simp only: wp_bind)
        apply (rule wp_any)
        using all fut by (simp add: image_Un image_image)
      done
    done
qed

lemma load_ledger_covers:
  "wp (load_ledger w rt sn wait raws) (\<lambda>(ledger, sn', e, f, fills) s'.
     set (map fst f) = lr_key ` fst ` set raws \<and> (sn \<noteq> None \<longrightarrow> sn' = sn) \<and>
     (e = None \<longrightarrow> lr_key ` fst ` set raws \<subseteq> fst ` set ledger)) s"
proof -
  let ?parsed = "map (apsnd (parse_value LedgerState_from_json)) raws"
  have all: "lr_key ` fst ` set raws = fst ` set (map (apfst lr_key) (hits ?parsed)) \<union> lr_key ` set (misses ?parsed)"
    using hits_misses [of ?parsed] by (simp add: image_image image_Un)
  have sn: "(case snapshot_for_ledger (Some x) wait of Inl _ \<Rightarrow> Some x | Inr y \<Rightarrow> Some y) = Some x" for x
    by (simp add: snapshot_for_ledger_def split: option.split)
  show ?thesis
    unfolding load_ledger_def Let_def wp_bind
    apply (rule wp_any)
    apply (cases "misses ?parsed = []")
    subgoal using all by (simp add: case_prod_beta image_image)
    subgoal
      apply (simp only: if_not_P wp_bind not_False_eq_True)
      apply (rule wp_any)
      apply (split sum.split, intro conjI allI impI)
      subgoal using all sn by (auto simp: image_Un image_image case_prod_beta)
      subgoal for l
        apply (simp only: wp_bind)
        apply (rule wp_any)
        using all sn by (auto simp: image_Un image_image case_prod_beta)
      done
    done
qed

text \<open>Every value a pipeline returns is what its command returned in some state.\<close>

lemma external_result: "wp (external w c) (\<lambda>r _. \<forall>a. r = Inr a \<longrightarrow> (\<exists>t. a = fst (c t))) s"
  by (auto simp: external_def split: option.split prod.split) (metis fst_conv)

lemma pipeline_results:
  "wp (pipeline_execute w cmds) (\<lambda>r _. \<forall>as. raise_first r = Inr as \<longrightarrow> list_all2 (\<lambda>c a. \<exists>t. a = fst (c t)) cmds as) s"
proof -
  have "wp (State_Monad.traverse_list (external w) cmds)
      (\<lambda>rs s'. True \<and> list_all2 (\<lambda>c r. \<forall>a. r = Inr a \<longrightarrow> (\<exists>t. a = fst (c t))) cmds rs) s1" for s1
    by (rule wp_traverse_results [where I = "\<lambda>_. True"]) (simp_all add: external_result)
  then have tr: "wp (State_Monad.traverse_list (external w) cmds)
      (\<lambda>rs s'. \<forall>as. raise_first (Inr rs) = Inr as \<longrightarrow> list_all2 (\<lambda>c a. \<exists>t. a = fst (c t)) cmds as) s1" for s1
  proof (rule wp_mono)
    fix rs :: "(err, 'a) res list"
    assume "True \<and> list_all2 (\<lambda>c r. \<forall>a. r = Inr a \<longrightarrow> (\<exists>t. a = fst (c t))) cmds rs"
    then have l: "list_all2 (\<lambda>c r. \<forall>a. r = Inr a \<longrightarrow> (\<exists>t. a = fst (c t))) cmds rs" by simp
    show "\<forall>as. raise_first (Inr rs) = Inr as \<longrightarrow> list_all2 (\<lambda>c a. \<exists>t. a = fst (c t)) cmds as"
    proof (intro allI impI)
      fix as assume "raise_first (Inr rs) = Inr as"
      then have none: "filter isl rs = []" and as: "as = map projr rs"
        by (auto simp: raise_first_def split: list.splits)
      have inr: "r = Inr (projr r)" if "r \<in> set rs" for r using none that by (auto simp: filter_empty_conv)
      show "list_all2 (\<lambda>c a. \<exists>t. a = fst (c t)) cmds as"
        unfolding as list_all2_map2 list_all2_conv_all_nth
        using l inr [OF nth_mem] unfolding list_all2_conv_all_nth by auto
    qed
  qed
  show ?thesis
    unfolding pipeline_execute_def wp_bind
    apply (rule wp_any)
    apply (split sum.split, intro conjI allI impI)
    subgoal by (simp add: raise_first_def)
    subgoal
      apply (simp only: wp_bind)
      apply (rule wp_mono [OF tr])
      apply (rule wp_any)
      subgoal for rs s1 reply s2 by (cases reply) (simp_all add: raise_first_def)
      done
    done
qed

lemma read_redis_lengths:
  "wp (read_redis w rt own ts refs ctx) (\<lambda>(ok, raw, raw_subs, raw_refs) _. length raw_subs = length ts \<and> length raw_refs = length refs) s"
proof -
  let ?cmds = "(if own then [cmd_get w SETTINGS_KEY] else []) @ map (\<lambda>t. cmd_get w (subscription_key t)) ts @
        (if refs = [] then [] else [cmd_mget w (map lr_key refs)])"
  have *: "length (map hd (take (length ts) (if own then tl as else as))) = length ts \<and>
      length (if refs = [] then [] else (if own then tl as else as) ! length ts) = length refs"
    if l: "list_all2 (\<lambda>c a. \<exists>t. a = fst (c t)) ?cmds as" for as
  proof -
    let ?rest = "if own then tl as else as"
    have r: "list_all2 (\<lambda>c a. \<exists>t. a = fst (c t))
        (map (\<lambda>t. cmd_get w (subscription_key t)) ts @ (if refs = [] then [] else [cmd_mget w (map lr_key refs)])) ?rest"
      using l by (cases own) (auto simp: list_all2_Cons1)
    then have len: "length ts \<le> length ?rest" by (auto dest: list_all2_lengthD)
    moreover have "length (?rest ! length ts) = length refs" if "refs \<noteq> []"
      using list_all2_nthD [OF r, of "length ts"] that by (auto simp: nth_append cmd_mget_def)
    ultimately show ?thesis by auto
  qed
  show ?thesis
    unfolding read_redis_def Let_def wp_bind
    apply (rule wp_mono [OF pipeline_results])
    apply (split sum.split, intro conjI allI impI)
     apply (simp add: wp_def split: prod.split)
    using * by (auto simp only: wp_return prod.case)
qed

lemma zip_keys: "length ys = length xs \<Longrightarrow> fst ` set (zip xs ys) = set xs"
  by (metis map_fst_zip set_map)

lemma load_owned_covers:
  "wp (load_owned w rt out own ts refs ctx wait) (\<lambda>(out', f) _.
     set (map fst f) = (if own then {SETTINGS_KEY} else {}) \<union> subscription_key ` set ts \<union> lr_key ` set refs \<and>
     (if own then cr_settings out' \<noteq> None \<or> cr_settings_error out' \<noteq> None else cr_settings out \<noteq> None \<longrightarrow> cr_settings out' = cr_settings out) \<and>
     fst ` set (cr_subscriptions out) \<subseteq> fst ` set (cr_subscriptions out') \<and> fst ` set (cr_ledger out) \<subseteq> fst ` set (cr_ledger out') \<and>
     (set ts \<subseteq> fst ` set (cr_subscriptions out') \<or> cr_subscription_error out' \<noteq> None) \<and>
     (lr_key ` set refs \<subseteq> fst ` set (cr_ledger out') \<or> cr_ledger_error out' \<noteq> None)) s"
proof -
  have settings: "wp (if own then do { r \<leftarrow> load_settings w rt ok raw ctx; State_Monad.return (case r of (x, y, z) \<Rightarrow> (Some x, y, z)) }
      else State_Monad.return (None, None, [])) (\<lambda>(sn, token, fills) _. sn = None \<longleftrightarrow> \<not> own) s1" for ok raw s1
    by (auto simp: wp_def split: prod.split)
  show ?thesis
    unfolding load_owned_def Let_def
    apply (simp only: wp_bind)
    apply (rule wp_mono [OF read_redis_lengths])
    apply (clarsimp simp only: split_paired_all prod.case wp_bind)
    apply (rule wp_mono [OF settings])
    apply (clarsimp simp only: split_paired_all prod.case wp_bind)
    apply (rule wp_mono [OF load_subs_covers])
    apply (clarsimp simp only: split_paired_all prod.case wp_bind)
    apply (rule wp_mono [OF load_ledger_covers])
    apply (clarsimp simp only: split_paired_all prod.case wp_bind)
    apply (rule wp_any)
    subgoal for ok raw raw_subs raw_refs s1 sn token fills1 s2 subs e f fills2 s3 ledger sn' e' f' fills3 s4 u s5
      using zip_keys [of raw_subs ts] zip_keys [of raw_refs refs]
      by (cases sn; cases "the sn"; simp add: image_Un split: if_splits) blast+
    done
qed

section \<open>Every key is answered\<close>

definition is_sub_key :: "string \<Rightarrow> bool" where
  "is_sub_key k \<longleftrightarrow> take (length SUBSCRIPTION_KEY_PREFIX) k = SUBSCRIPTION_KEY_PREFIX"

lemma key_kinds [simp]:
  "is_sub_key (subscription_key t)" "\<not> is_sub_key (lr_key ref)" "\<not> is_sub_key SETTINGS_KEY"
  "subscription_key t \<noteq> SETTINGS_KEY" "SETTINGS_KEY \<noteq> subscription_key t" "lr_key ref \<noteq> SETTINGS_KEY" "SETTINGS_KEY \<noteq> lr_key ref"
  "subscription_key t \<noteq> lr_key ref" "lr_key ref \<noteq> subscription_key t"
  by (simp_all add: is_sub_key_def subscription_key_def lr_key_def ledger_key_def SETTINGS_KEY_def SUBSCRIPTION_KEY_PREFIX_def
      LEDGER_KEY_PREFIX_def REDIS_KEY_PREFIX_def)

lemma subscription_key_inject [simp]: "subscription_key t = subscription_key t' \<longleftrightarrow> t = t'"
  by (simp add: subscription_key_def)

text \<open>A read has a value for the key or the error of its kind.\<close>

definition answered :: "CacheRead \<Rightarrow> string \<Rightarrow> bool" where
  "answered out k \<longleftrightarrow>
     (if k = SETTINGS_KEY then cr_settings out \<noteq> None \<or> cr_settings_error out \<noteq> None
      else if is_sub_key k then k \<in> subscription_key ` fst ` set (cr_subscriptions out) \<or> cr_subscription_error out \<noteq> None
      else k \<in> fst ` set (cr_ledger out) \<or> cr_ledger_error out \<noteq> None)"

text \<open>The futures of other coroutines carry a value of the kind of their key.\<close>

definition future_ok :: "string \<Rightarrow> cached \<Rightarrow> bool" where
  "future_ok k c = (case c of
      CSettings _ \<Rightarrow> k = SETTINGS_KEY
    | CSubs x \<Rightarrow> k = subscription_key (ts_tenant_id x)
    | CLedger _ \<Rightarrow> k \<noteq> SETTINGS_KEY \<and> \<not> is_sub_key k)"

definition inflight_ok :: "futures \<Rightarrow> bool" where
  "inflight_ok fs \<longleftrightarrow> (\<forall>k c. dict_get fs k = Some (Inr c) \<longrightarrow> future_ok k c)"

lemma await_answered: "answered out k \<Longrightarrow> answered (await_future f out) k"
  by (cases f; cases "snd f"; cases "projr (snd f)")
    (auto simp: await_future_def answered_def or_error_def is_sub_key_def split: if_splits option.splits cached.splits)

lemma await_answers:
  assumes "\<And>c. r = Inr c \<Longrightarrow> future_ok k c"
  shows "answered (await_future (k, r) out) k"
proof (cases r)
  case (Inl e)
  then show ?thesis by (auto simp: await_future_def answered_def or_error_def is_sub_key_def split: option.splits)
next
  case (Inr c)
  then show ?thesis
    using assms [OF Inr] by (cases c) (auto simp: await_future_def answered_def future_ok_def is_sub_key_def [symmetric] split: option.splits)
qed

lemma awaits_answered: "answered out k \<Longrightarrow> answered (fold await_future fs out) k"
  by (induction fs arbitrary: out) (auto simp: await_answered)

lemma awaits_answer:
  "(\<And>k c. (k, Inr c) \<in> set fs \<Longrightarrow> future_ok k c) \<Longrightarrow> k \<in> fst ` set fs \<Longrightarrow> answered (fold await_future fs out) k"
proof (induction fs arbitrary: out)
  case (Cons f fs)
  show ?case
  proof (cases "k = fst f")
    case True
    have "answered (await_future (fst f, snd f) out) (fst f)"
      by (rule await_answers) (metis Cons.prems(1) list.set_intros(1) prod.collapse)
    then show ?thesis using True by (simp add: awaits_answered)
  next
    case False
    then show ?thesis using Cons.IH Cons.prems by auto
  qed
qed simp

definition requested :: "string list \<Rightarrow> LedgerRef list \<Rightarrow> string set" where
  "requested ts refs = {SETTINGS_KEY} \<union> subscription_key ` set ts \<union> lr_key ` set refs"

lemma distinct_refs_keys: "lr_key ` set (distinct_refs refs) = lr_key ` set refs"
proof -
  have inv: "\<forall>(k, r) \<in> set d. k = lr_key r \<Longrightarrow> \<forall>(k, r) \<in> set (fold (\<lambda>ref. dict_set (lr_key ref) ref) refs d). k = lr_key r" for d
  proof (induction refs arbitrary: d)
    case (Cons a refs)
    have "\<forall>(k, r) \<in> set (dict_set (lr_key a) a d). k = lr_key r" using Cons.prems by (auto dest!: set_dict_set)
    from Cons.IH [OF this] show ?case by simp
  qed simp
  have keys: "fst ` set (fold (\<lambda>ref. dict_set (lr_key ref) ref) refs d) = lr_key ` set refs \<union> fst ` set d" for d
    by (induction refs arbitrary: d) auto
  have "lr_key ` snd ` set (fold (\<lambda>ref. dict_set (lr_key ref) ref) refs []) = fst ` set (fold (\<lambda>ref. dict_set (lr_key ref) ref) refs [])"
    unfolding image_image by (rule image_cong) (use inv [of "[]"] in auto)
  then show ?thesis using keys [of "[]"] by (simp add: distinct_refs_def)
qed

lemma read_l1_answered:
  "t \<in> set ts \<Longrightarrow> answered (read_l1 w ts refs s) (subscription_key t) \<longleftrightarrow> dict_get (cr_subscriptions (read_l1 w ts refs s)) t \<noteq> None"
  "r \<in> set refs \<Longrightarrow> answered (read_l1 w ts refs s) (lr_key r) \<longleftrightarrow> dict_get (cr_ledger (read_l1 w ts refs s)) (lr_key r) \<noteq> None"
  "answered (read_l1 w ts refs s) SETTINGS_KEY \<longleftrightarrow> cr_settings (read_l1 w ts refs s) \<noteq> None"
  by (auto simp: answered_def read_l1_def map_of_eq_None_iff intro: rev_image_eqI)

lemma owned_answered:
  assumes "if own then cr_settings out' \<noteq> None \<or> cr_settings_error out' \<noteq> None else True"
    and "set ts \<subseteq> fst ` set (cr_subscriptions out') \<or> cr_subscription_error out' \<noteq> None"
    and "lr_key ` set refs \<subseteq> fst ` set (cr_ledger out') \<or> cr_ledger_error out' \<noteq> None"
  shows "\<forall>k \<in> (if own then {SETTINGS_KEY} else {}) \<union> subscription_key ` set ts \<union> lr_key ` set refs. answered out' k"
proof
  fix k assume "k \<in> (if own then {SETTINGS_KEY} else {}) \<union> subscription_key ` set ts \<union> lr_key ` set refs"
  then consider "own" "k = SETTINGS_KEY" | t where "t \<in> set ts" "k = subscription_key t" | r where "r \<in> set refs" "k = lr_key r"
    by (auto split: if_splits)
  then show "answered out' k"
  proof cases
    case 1
    then show ?thesis using assms(1) by (simp add: answered_def)
  next
    case (2 t)
    then show ?thesis using assms(2) by (auto simp: answered_def)
  next
    case (3 r)
    then show ?thesis using assms(3) by (auto simp: answered_def)
  qed
qed

lemma kept_answered:
  assumes "answered out k" "cr_settings_error out = None" "cr_subscription_error out = None" "cr_ledger_error out = None"
    and "cr_settings out \<noteq> None \<Longrightarrow> cr_settings out' \<noteq> None"
    and "fst ` set (cr_subscriptions out) \<subseteq> fst ` set (cr_subscriptions out')" "fst ` set (cr_ledger out) \<subseteq> fst ` set (cr_ledger out')"
  shows "answered out' k"
  using assms unfolding answered_def by (metis image_mono subsetD)

lemma read_with_futures_answers:
  assumes "inflight_ok (rt_inflight s)"
  shows "wp (read_with_futures w rt tenant_ids ledger_refs ctx) (\<lambda>(out, f) _.
     (\<forall>k \<in> requested tenant_ids ledger_refs. answered out k) \<and>
     set (map fst f) = {k \<in> requested tenant_ids ledger_refs.
        \<not> answered (read_l1 w (fromkeys tenant_ids) (distinct_refs ledger_refs) s) k \<and> dict_get (rt_inflight s) k = None}) s"
proof -
  let ?ts = "fromkeys tenant_ids" and ?refs = "distinct_refs ledger_refs" and ?fl = "rt_inflight s"
  let ?l1 = "read_l1 w ?ts ?refs s"
  let ?subs_missing = "filter (\<lambda>t. dict_get (cr_subscriptions ?l1) t = None) ?ts"
  let ?refs_missing = "filter (\<lambda>r. dict_get (cr_ledger ?l1) (lr_key r) = None) ?refs"
  let ?own_settings = "cr_settings ?l1 = None \<and> dict_get ?fl SETTINGS_KEY = None"
  let ?own_subs = "filter (\<lambda>t. dict_get ?fl (subscription_key t) = None) ?subs_missing"
  let ?own_refs = "filter (\<lambda>r. dict_get ?fl (lr_key r) = None) ?refs_missing"
  let ?missed = "(if cr_settings ?l1 = None then [SETTINGS_KEY] else []) @ map subscription_key ?subs_missing @ map lr_key ?refs_missing"
  let ?waits = "hits (map (\<lambda>k. (k, dict_get ?fl k)) ?missed)"
  let ?owned = "(if ?own_settings then {SETTINGS_KEY} else {}) \<union> subscription_key ` set ?own_subs \<union> lr_key ` set ?own_refs"
  have req: "requested tenant_ids ledger_refs = {SETTINGS_KEY} \<union> subscription_key ` set ?ts \<union> lr_key ` set ?refs"
    by (simp add: requested_def distinct_refs_keys)
  have missed: "set ?missed = {k \<in> requested tenant_ids ledger_refs. \<not> answered ?l1 k}"
    unfolding req by (auto simp: read_l1_answered)
  have owned: "?owned = {k \<in> set ?missed. dict_get ?fl k = None}" by auto
  have own_req: "?owned = {k \<in> requested tenant_ids ledger_refs. \<not> answered ?l1 k \<and> dict_get ?fl k = None}"
    unfolding owned missed by blast
  have waits: "fst ` set ?waits = {k \<in> set ?missed. dict_get ?fl k \<noteq> None}" by (rule hits_map)
  have ok: "future_ok k c" if "(k, Inr c) \<in> set ?waits" for k c
    using that assms by (auto simp: hits_iff inflight_ok_def)
  have fin: "\<forall>k \<in> requested tenant_ids ledger_refs. answered (fold await_future ?waits out) k"
    if "\<forall>k \<in> ?owned. answered out k" "\<And>k. k \<in> requested tenant_ids ledger_refs \<Longrightarrow> answered ?l1 k \<Longrightarrow> answered out k" for out
  proof
    fix k assume k: "k \<in> requested tenant_ids ledger_refs"
    consider "answered ?l1 k" | "k \<in> ?owned" | "k \<in> fst ` set ?waits"
      using k missed owned waits by blast
    then show "answered (fold await_future ?waits out) k"
    proof cases
      case 1
      show ?thesis by (rule awaits_answered [OF that(2) [OF k 1]])
    next
      case 2
      show ?thesis by (rule awaits_answered [OF bspec [OF that(1) 2]])
    next
      case 3
      show ?thesis by (rule awaits_answer [OF ok 3])
    qed
  qed
  have last: "\<forall>k \<in> requested tenant_ids ledger_refs. answered (if b then o2\<lparr>cr_settings_error := Some e\<rparr> else o2) k"
    if "\<forall>k \<in> requested tenant_ids ledger_refs. answered o2 k" for b o2 e
    using that by (auto simp: answered_def)
  show ?thesis
  proof (cases "?own_settings \<or> ?own_subs \<noteq> [] \<or> ?own_refs \<noteq> []")
    case True
    show ?thesis
      unfolding read_with_futures_def Let_def
      apply (simp only: wp_bind wp_gets if_P [OF True])
      apply (rule wp_mono [OF load_owned_covers])
      apply (clarsimp simp only: split_paired_all prod.case wp_return)
      apply (intro conjI)
      subgoal premises p for out f s1
        apply (rule last, rule fin)
        subgoal by (rule owned_answered) (use p in \<open>auto split: if_splits\<close>)
        subgoal for k by (rule kept_answered [of ?l1]) (use p in \<open>auto simp: read_l1_def split: if_splits\<close>)
        done
      subgoal by (rule own_req)
      done
  next
    case False
    then have none: "?owned = {}" by simp
    show ?thesis
      unfolding read_with_futures_def Let_def
      apply (simp only: wp_bind wp_gets if_not_P [OF False] wp_return prod.case)
      apply (intro conjI)
      subgoal by (rule last, rule fin) (use none in auto)
      subgoal unfolding own_req [symmetric] none by simp
      done
  qed
qed

text \<open>
  C34: A cache read answers every key, whatever fails: it has the settings or their error, and for every
  tenant and every ledger row a value or the error of its kind; it completes the future of every key it
  claimed, so no other coroutine waits forever; and it changes nothing but caches and the failure log.
\<close>

theorem read_answers_every_key:
  assumes "run_state (read_with_futures w rt tenant_ids refs ctx) s = ((out, completed), s')" "inflight_ok (rt_inflight s)"
  shows "(cr_settings out \<noteq> None \<or> cr_settings_error out \<noteq> None) \<and>
         (\<forall>t \<in> set tenant_ids. dict_get (cr_subscriptions out) t \<noteq> None \<or> cr_subscription_error out \<noteq> None) \<and>
         (\<forall>r \<in> set refs. dict_get (cr_ledger out) (lr_key r) \<noteq> None \<or> cr_ledger_error out \<noteq> None) \<and>
         set (map fst completed) = {k \<in> requested tenant_ids refs.
            \<not> answered (read_l1 w (fromkeys tenant_ids) (distinct_refs refs) s) k \<and> dict_get (rt_inflight s) k = None} \<and>
         cache_only s s'"
proof -
  note b = wp_run [OF assms(1) read_with_futures_answers [OF assms(2)], unfolded prod.case]
  note a = conjunct1 [OF b] conjunct2 [OF b]
  have k: "keeps cache_only (read_with_futures w rt tenant_ids refs ctx)"
    unfolding read_with_futures_def Let_def by (intro caches.keeps_bind caches.keeps_prod caches.keeps_if) auto
  have ans: "answered out SETTINGS_KEY" "\<And>t. t \<in> set tenant_ids \<Longrightarrow> answered out (subscription_key t)"
    "\<And>r. r \<in> set refs \<Longrightarrow> answered out (lr_key r)"
    using a(1) by (auto simp: requested_def)
  show ?thesis
  proof (intro conjI ballI)
    show "cr_settings out \<noteq> None \<or> cr_settings_error out \<noteq> None" using ans(1) by (simp add: answered_def)
    show "dict_get (cr_subscriptions out) t \<noteq> None \<or> cr_subscription_error out \<noteq> None" if "t \<in> set tenant_ids" for t
      using ans(2) [OF that] inj_image_mem_iff [of subscription_key t]
      unfolding answered_def map_of_eq_None_iff by (simp add: inj_def)
    show "dict_get (cr_ledger out) (lr_key r) \<noteq> None \<or> cr_ledger_error out \<noteq> None" if "r \<in> set refs" for r
      using ans(3) [OF that] unfolding answered_def map_of_eq_None_iff by simp
    show "set (map fst completed) = {k \<in> requested tenant_ids refs.
        \<not> answered (read_l1 w (fromkeys tenant_ids) (distinct_refs refs) s) k \<and> dict_get (rt_inflight s) k = None}"
      using a(2) .
    show "cache_only s s'" by (rule keeps_run [OF k assms(1)])
  qed
qed

definition ex_ledger_ref :: LedgerRef where
  "ex_ledger_ref = LedgerRef_of QUOTA_THRESHOLD ''7'' (quota_subject ''2026-09'' ''asr'')"

theorem read_answers_every_key_witness:
  "\<exists>out completed s'. run_state (read_with_futures ex_world ex_runtime [''7''] [ex_ledger_ref] ''*'') ex_rt = ((out, completed), s') \<and>
     (dict_get (cr_ledger out) (lr_key ex_ledger_ref) \<noteq> None \<or> cr_ledger_error out \<noteq> None) \<and>
     SETTINGS_KEY \<in> set (map fst completed) \<and> subscription_key ''7'' \<in> set (map fst completed)"
proof -
  obtain out completed s' where r: "run_state (read_with_futures ex_world ex_runtime [''7''] [ex_ledger_ref] ''*'') ex_rt = ((out, completed), s')"
    by (metis surj_pair)
  have ok: "inflight_ok (rt_inflight ex_rt)" by (simp add: inflight_ok_def ex_rt_def)
  show ?thesis using read_answers_every_key [OF r ok] r
    by (simp add: requested_def answered_def read_l1_def peek_settings_def peek_subscriptions_def l1_get_def ex_rt_def)
qed

section \<open>Writing\<close>

lemma traverse_append:
  "State_Monad.traverse_list f (xs @ ys) =
     do { as \<leftarrow> State_Monad.traverse_list f xs; bs \<leftarrow> State_Monad.traverse_list f ys; State_Monad.return (as @ bs) }"
  by (induction xs) simp_all

lemma wp_external:
  "wp (external w act) Q s \<longleftrightarrow>
     (case w_fails w (rt_tick s) of Some e \<Rightarrow> Q (Inl e) (tick s) | None \<Rightarrow> (case act (tick s) of (a, s') \<Rightarrow> Q (Inr a) s'))"
  by (simp add: external_def split: option.split prod.split)

text \<open>What the commands of a write leave in Redis and on the channel.\<close>

definition set_done :: "Rt \<Rightarrow> string \<times> json \<times> int \<Rightarrow> (err, unit) res \<Rightarrow> bool" where
  "set_done s c r = (case c of (k, v, _) \<Rightarrow> is_ok r \<longrightarrow> (\<exists>e. dict_get (rt_redis s) k = Some (RJson v, e)))"

definition publish_done :: "Rt \<Rightarrow> json \<Rightarrow> (err, unit) res \<Rightarrow> bool" where
  "publish_done s m r \<longleftrightarrow> (is_ok r \<longrightarrow> m \<in> set (rt_channel s))"

lemma done_tick [simp]:
  "set_done (s\<lparr>rt_tick := n\<rparr>) = set_done s" "publish_done (s\<lparr>rt_tick := n\<rparr>) = publish_done s"
  by (auto simp: set_done_def publish_done_def fun_eq_iff)

lemma sets_done:
  "distinct (map fst vals) \<Longrightarrow> wp (State_Monad.traverse_list (external w) (map (\<lambda>(k, v, ttl). cmd_set w k v ttl) vals))
     (\<lambda>rs s'. list_all2 (set_done s') vals rs \<and> (\<forall>k. k \<notin> fst ` set vals \<longrightarrow> dict_get (rt_redis s') k = dict_get (rt_redis s) k)) s"
proof (induction vals arbitrary: s)
  case (Cons c vals)
  obtain k v ttl where c: "c = (k, v, ttl)" by (cases c)
  have k: "k \<notin> fst ` set vals" and d: "distinct (map fst vals)" using Cons.prems by (auto simp: c)
  have step: "wp (external w (cmd_set w k v ttl)) (\<lambda>r s1. set_done s1 c r \<and> (\<forall>k'. k' \<noteq> k \<longrightarrow> dict_get (rt_redis s1) k' = dict_get (rt_redis s) k')) s"
    by (auto simp: wp_external cmd_set_def redis_setex_def set_done_def c tick_def split: option.split)
  have "wp (external w (cmd_set w k v ttl)) (\<lambda>r s1. wp (State_Monad.traverse_list (external w) (map (\<lambda>(k, v, ttl). cmd_set w k v ttl) vals))
      (\<lambda>rs s'. list_all2 (set_done s') (c # vals) (r # rs) \<and>
        (\<forall>k'. k' \<notin> fst ` set (c # vals) \<longrightarrow> dict_get (rt_redis s') k' = dict_get (rt_redis s) k')) s1) s"
    by (rule wp_mono [OF step], rule wp_mono [OF Cons.IH [OF d]]) (use k in \<open>auto simp: c set_done_def [abs_def]\<close>)
  then show ?case by (simp add: c)
qed simp

lemma publishes_done:
  "wp (State_Monad.traverse_list (external w) (map cmd_publish ms))
     (\<lambda>rs s'. rt_redis s' = rt_redis s \<and> list_all2 (publish_done s') ms rs \<and> set (rt_channel s) \<subseteq> set (rt_channel s')) s"
proof (induction ms arbitrary: s)
  case (Cons m ms)
  have step: "wp (external w (cmd_publish m)) (\<lambda>r s1. publish_done s1 m r \<and> rt_redis s1 = rt_redis s \<and> set (rt_channel s) \<subseteq> set (rt_channel s1)) s"
    by (auto simp: wp_external cmd_publish_def publish_done_def tick_def split: option.split)
  have "wp (external w (cmd_publish m)) (\<lambda>r s1. wp (State_Monad.traverse_list (external w) (map cmd_publish ms))
      (\<lambda>rs s'. rt_redis s' = rt_redis s \<and> list_all2 (publish_done s') (m # ms) (r # rs) \<and> set (rt_channel s) \<subseteq> set (rt_channel s')) s1) s"
    by (rule wp_mono [OF step], rule wp_mono [OF Cons.IH]) (auto simp: publish_done_def [abs_def])
  then show ?case by simp
qed simp

lemma write_commands_done:
  assumes "distinct (map fst vals)"
  shows "wp (pipeline_execute w (map (\<lambda>(k, v, ttl). cmd_set w k v ttl) vals @ map cmd_publish ms))
     (\<lambda>r s'. \<forall>rs. r = Inr rs \<longrightarrow> (\<exists>as bs. rs = as @ bs \<and> list_all2 (set_done s') vals as \<and> list_all2 (publish_done s') ms bs)) s"
proof -
  have tr: "wp (State_Monad.traverse_list (external w) (map (\<lambda>(k, v, ttl). cmd_set w k v ttl) vals @ map cmd_publish ms))
      (\<lambda>rs s'. \<exists>as bs. rs = as @ bs \<and> list_all2 (set_done s') vals as \<and> list_all2 (publish_done s') ms bs) s1" for s1
    unfolding traverse_append wp_bind
    apply (rule wp_mono [OF sets_done [OF assms]])
    apply (rule wp_mono [OF publishes_done])
    apply clarsimp
    subgoal for as s2 bs s3
      by (intro exI [of _ as] exI [of _ bs]) (auto simp: set_done_def elim!: list_all2_mono)
    done
  show ?thesis
    unfolding pipeline_execute_def wp_bind
    apply (rule wp_any)
    apply (split sum.split, intro conjI allI impI)
    subgoal by simp
    subgoal
      apply (simp only: wp_bind)
      apply (rule wp_mono [OF tr])
      by (simp add: wp_external tick_def split: option.split)
    done
qed

lemma fold_redis_del:
  fixes r :: "(string, 'v \<times> expiry) dict"
  shows "dict_get (fold redis_del ks r) k = (if k \<in> set ks then None else dict_get r k)"
proof -
  have del: "dict_get (redis_del k' r) k = (if k = k' then None else dict_get r k)" for k' and r :: "(string, 'v \<times> expiry) dict"
    unfolding redis_del_def by (induction r) auto
  show ?thesis by (induction ks arbitrary: r) (auto simp: del)
qed

lemma stale_or_done:
  assumes "\<forall>rs. r = Inr rs \<longrightarrow> (\<exists>as bs. rs = as @ bs \<and> list_all2 (set_done s1) vals as \<and> list_all2 (publish_done s1) ms bs)"
    and "(k, v, ttl) \<in> set vals"
  shows "k \<in> set (write_stale (map fst vals) (write_results (length (map fst vals) + length ms) r)) \<or>
    ((\<exists>e. dict_get (rt_redis s1) k = Some (RJson v, e)) \<and> set ms \<subseteq> set (rt_channel s1))"
proof (cases r)
  case (Inl e)
  have k: "k \<in> set (map fst vals)" using assms(2) by force
  have "map fst (zip (map fst vals) (replicate (length vals + length ms) (Inl e :: (err, unit) res))) = map fst vals"
    by (simp add: map_fst_zip_take)
  moreover have "filter (\<lambda>(_, res). isl res) (zip (map fst vals) (replicate (length vals + length ms) (Inl e :: (err, unit) res))) =
      zip (map fst vals) (replicate (length vals + length ms) (Inl e))"
    by (rule filter_True) (auto simp: set_zip)
  ultimately have "write_stale (map fst vals) (write_results (length (map fst vals) + length ms) r) = map fst vals"
    unfolding write_stale_def write_results_def Inl sum.case length_map by (simp only: if_cancel)
  then show ?thesis using k by simp
next
  case (Inr rs)
  then obtain as bs where rs: "rs = as @ bs" and a: "list_all2 (set_done s1) vals as" and b: "list_all2 (publish_done s1) ms bs"
    using assms(1) by blast
  have len: "length as = length vals" using a by (auto dest: list_all2_lengthD)
  obtain i where i: "i < length vals" "vals ! i = (k, v, ttl)" using assms(2) by (metis in_set_conv_nth)
  have k: "k \<in> set (map fst vals)" using assms(2) by force
  show ?thesis
  proof (cases "filter isl bs = [] \<and> is_ok (as ! i)")
    case True
    then have "set_done s1 (k, v, ttl) (as ! i)" using list_all2_nthD [OF a i(1)] i(2) by simp
    moreover have "set ms \<subseteq> set (rt_channel s1)"
    proof
      fix m assume "m \<in> set ms"
      then obtain j where j: "j < length ms" "ms ! j = m" by (auto simp: in_set_conv_nth)
      moreover have "bs ! j \<in> set bs" using j b by (auto dest: list_all2_lengthD)
      ultimately show "m \<in> set (rt_channel s1)"
        using list_all2_nthD [OF b j(1)] True by (auto simp: publish_done_def filter_empty_conv)
    qed
    ultimately show ?thesis using True by (simp add: set_done_def)
  next
    case False
    have mem: "(k, as ! i) \<in> set (zip (map fst vals) as)"
      using i len by (auto simp: set_zip intro!: exI [of _ i])
    have "k \<in> set (map fst (filter (\<lambda>(_, res). isl res) (zip (map fst vals) (as @ bs))))" if "isl (as ! i)"
      using mem that len by (auto simp: zip_append2 image_iff)
    then show ?thesis
      using False k len by (auto simp: write_stale_def write_results_def Inr rs)
  qed
qed

text \<open>
  No stale value survives a failed write: after a writer has stored its vals and announced them, every
  key holds the new value or nothing, and if an announcement did not go out every key is gone; the only
  exception is a clean-up \<open>DELETE\<close>, the last operation of the write, that fails as well.
\<close>

lemma failed_write_leaves_no_stale_value:
  assumes "run_state (write_redis w rt vals messages ctx tenant) s = (u, s')" "distinct (map fst vals)"
    and "(k, v, ttl) \<in> set vals"
  shows "dict_get (rt_redis s') k = None \<or>
         ((\<exists>e. dict_get (rt_redis s') k = Some (RJson v, e)) \<and> set messages \<subseteq> set (rt_channel s')) \<or>
         w_fails w (rt_tick s' - 1) \<noteq> None"
proof -
  let ?Q = "\<lambda>s'. dict_get (rt_redis s') k = None \<or>
         ((\<exists>e. dict_get (rt_redis s') k = Some (RJson v, e)) \<and> set messages \<subseteq> set (rt_channel s')) \<or>
         w_fails w (rt_tick s' - 1) \<noteq> None"
  have cleanup: "wp (if ks = [] then State_Monad.return () else do {
        _ \<leftarrow> external w (\<lambda>s. ((), s\<lparr>rt_redis := fold redis_del ks (rt_redis s)\<rparr>)); State_Monad.return () }) (\<lambda>_. ?Q) s3"
    if "k \<in> set ks \<or> ((\<exists>e. dict_get (rt_redis s1) k = Some (RJson v, e)) \<and> set messages \<subseteq> set (rt_channel s1))"
      "log_only s1 s2" "log_only s2 s3" for ks s1 s2 s3
    using that(1) log_only_fields(10,11) [OF that(2)] log_only_fields(10,11) [OF that(3)]
    by (auto simp: wp_external fold_redis_del tick_def split: option.split)
  have "wp (write_redis w rt vals messages ctx tenant) (\<lambda>_. ?Q) s"
    unfolding write_redis_def Let_def wp_bind
    apply (rule wp_mono [OF write_commands_done [OF assms(2)]])
    subgoal premises p for r s1
      apply (rule wp_keeps [where R = log_only])
      subgoal by (rule logs.keeps_traverse) auto
      apply (rule wp_keeps [where R = log_only])
      subgoal by auto
      subgoal premises q for a s2 b s3
        using cleanup [OF stale_or_done [OF p assms(3)] q] .
      done
    done
  then show ?thesis using assms(1) by (simp add: wp_def)
qed

end
