(* ===== verification/Recipients.thy ===== *)
theory Recipients
  imports Notif_Examples
begin

text \<open>
  Recipient resolution (\<open>recipients.py\<close>) over the users, roles and tenants of the auth database.  A row of
  the joins is a user with one of its roles, or with none (\<open>LEFT JOIN\<close>).  \<open>SELECT DISTINCT\<close> keeps the first
  occurrence of a row, in table order; the code sorts the outcome by e-mail address.
  Main facts: exactly the active users a notification names are resolved, one recipient each, in the order
  of their addresses, and the query for many tenants agrees with the query for one.
\<close>

type_synonym user_row = "string \<times> string option \<times> string option"

section \<open>The resolver\<close>

definition recipient_of :: "World \<Rightarrow> string option \<Rightarrow> string option \<Rightarrow> Recipient option" where
  "recipient_of w encrypted full_name =
     (case w_decrypt w encrypted of
        Inr (Some email) \<Rightarrow>
          if email = [] then None
          else Some \<lparr>rc_email = email, rc_name = (case full_name of Some n \<Rightarrow> n | None \<Rightarrow> [])\<rparr>
      | _ \<Rightarrow> None)"

fun unique_loop :: "World \<Rightarrow> (string, Recipient) dict \<Rightarrow> user_row list \<Rightarrow> (string, Recipient) dict" where
  "unique_loop w seen [] = seen"
| "unique_loop w seen ((user_id, encrypted, full_name) # rows) =
     (if user_id \<in> set (dict_keys seen) then unique_loop w seen rows
      else case recipient_of w encrypted full_name of
             None \<Rightarrow> unique_loop w seen rows
           | Some r \<Rightarrow> unique_loop w (dict_set user_id r seen) rows)"

definition unique_recipients :: "World \<Rightarrow> user_row list \<Rightarrow> Recipient list" where
  "unique_recipients w rows = sort_key rc_email (map snd (unique_loop w [] rows))"

definition active_user :: "UserRow \<Rightarrow> bool" where
  "active_user u \<longleftrightarrow> us_is_active u = Some True \<and> us_is_delete u \<noteq> Some True"

definition with_roles :: "UserRow list \<Rightarrow> (UserRow \<times> string option) list" where
  "with_roles users = concat (map (\<lambda>u. if us_roles u = [] then [(u, None)] else map (\<lambda>r. (u, Some r)) (us_roles u)) users)"

definition user_row_of :: "UserRow \<Rightarrow> user_row" where
  "user_row_of u = (show_int (us_id u), us_email u, us_full_name u)"

abbreviation admin_role :: string where "admin_role \<equiv> RecipientRole_value ROLE_ADMIN"
abbreviation tenant_admin_role :: string where "tenant_admin_role \<equiv> RecipientRole_value ROLE_TENANT_ADMIN"

definition include_admin :: "(string, bool) dict \<Rightarrow> bool" where
  "include_admin recipient_roles = (dict_get recipient_roles admin_role = Some True)"

definition one_tenant_sql :: "UserRow list \<Rightarrow> int \<Rightarrow> bool \<Rightarrow> string list \<Rightarrow> user_row list" where
  "one_tenant_sql users tenant_id admin extra_user_ids =
     fromkeys (map (user_row_of \<circ> fst) (filter (\<lambda>(u, role). active_user u \<and>
        (admin \<and> role = Some admin_role \<or>
         role = Some tenant_admin_role \<and> us_tenant_id u = Some tenant_id \<or>
         us_tenant_id u = Some tenant_id \<and> show_int (us_id u) \<in> set extra_user_ids)) (with_roles users)))"

definition for_tenant ::
  "World \<Rightarrow> string \<Rightarrow> (string, bool) dict \<Rightarrow> string list \<Rightarrow> (err, Recipient list \<times> string option) res rt" where
  "for_tenant w tenant_id recipient_roles extra_user_ids =
     query w (\<lambda>s.
       case int_of_str tenant_id of
         None \<Rightarrow> Inl \<lparr>er_class = ''ValueError'', er_text = ''invalid literal for int() with base 10: '' @ repr_str tenant_id\<rparr>
       | Some i \<Rightarrow>
           if \<not> int4 i then Inl (w_db_error w DB_OutOfRange)
           else let rows = one_tenant_sql (rt_users s) i (include_admin recipient_roles) extra_user_ids
                in Inr (unique_recipients w rows,
                        if rows = [] then None else Option.bind (dict_get (rt_tenants s) i) (\<lambda>n. n)))"

definition many_tenants_sql ::
  "UserRow list \<Rightarrow> string list \<Rightarrow> bool \<Rightarrow> string list \<Rightarrow> (UserRow \<times> string option) list" where
  "many_tenants_sql users tenant_ids admin extra_user_ids =
     filter (\<lambda>(u, role). active_user u \<and>
        (let mine = (case us_tenant_id u of None \<Rightarrow> False | Some t \<Rightarrow> show_int t \<in> set tenant_ids)
         in admin \<and> role = Some admin_role \<or>
            role = Some tenant_admin_role \<and> mine \<or>
            mine \<and> show_int (us_id u) \<in> set extra_user_ids)) (with_roles users)"

text \<open>The loop over the rows fills one list per tenant and the list of admins.\<close>

definition tenant_rows :: "string list \<Rightarrow> string \<Rightarrow> (UserRow \<times> string option) list \<Rightarrow> user_row list" where
  "tenant_rows extras tenant rows =
     concat (map (\<lambda>(u, role).
       if map_option show_int (us_tenant_id u) = Some tenant
       then (if role = Some tenant_admin_role then [user_row_of u] else []) @
            (if show_int (us_id u) \<in> set extras then [user_row_of u] else [])
       else []) rows)"

definition extras_of :: "(string, string list) dict \<Rightarrow> string \<Rightarrow> string list" where
  "extras_of extra_user_ids tenant = (case dict_get extra_user_ids tenant of None \<Rightarrow> [] | Some us \<Rightarrow> us)"

definition for_tenants ::
  "World \<Rightarrow> string list \<Rightarrow> (string, bool) dict \<Rightarrow> (string, string list) dict \<Rightarrow>
   (err, (string, Recipient list) dict \<times> Recipient list) res rt" where
  "for_tenants w tenant_ids recipient_roles extra_user_ids =
     (if tenant_ids = [] then State_Monad.return (Inr ([], []))
      else query w (\<lambda>s.
        let admin = include_admin recipient_roles;
            rows = many_tenants_sql (rt_users s) tenant_ids admin (concat (map snd extra_user_ids));
            admins = map (user_row_of \<circ> fst) (filter (\<lambda>(u, role). admin \<and> role = Some admin_role) rows)
        in Inr (map (\<lambda>t. (t, unique_recipients w (tenant_rows (extras_of extra_user_ids t) t rows))) (fromkeys tenant_ids),
                unique_recipients w admins)))"

definition role_users_sql :: "UserRow list \<Rightarrow> string list \<Rightarrow> user_row list" where
  "role_users_sql users roles =
     fromkeys (map (user_row_of \<circ> fst)
       (filter (\<lambda>(u, role). active_user u \<and> (\<exists>r \<in> set_option role. r \<in> set roles)) (with_roles users)))"

definition for_roles :: "World \<Rightarrow> string list \<Rightarrow> (err, Recipient list) res rt" where
  "for_roles w roles =
     (let legal = map RecipientRole_value MONITORING_RECIPIENT_ROLES;
          selected = sort (fromkeys (filter (\<lambda>r. r \<in> set legal) roles))
      in if selected = [] then State_Monad.return (Inr [])
         else query w (\<lambda>s. Inr (unique_recipients w (role_users_sql (rt_users s) selected))))"

section \<open>One recipient per user\<close>

text \<open>The recipients of a set of users.\<close>

definition recipients_of :: "World \<Rightarrow> UserRow set \<Rightarrow> Recipient set" where
  "recipients_of w us = {r. \<exists>u \<in> us. recipient_of w (us_email u) (us_full_name u) = Some r}"

lemma unique_loop_dict:
  assumes "distinct (map fst seen)"
  shows "distinct (map fst (unique_loop w seen rows))"
  using assms by (induction w seen rows rule: unique_loop.induct) (auto split: option.split simp del: set_map)

lemma unique_loop_keys:
  "set (map fst (unique_loop w seen rows)) =
     set (map fst seen) \<union> {i. \<exists>e n. (i, e, n) \<in> set rows \<and> recipient_of w e n \<noteq> None}"
proof (induction w seen rows rule: unique_loop.induct)
  case (2 w seen user_id encrypted full_name rows)
  then show ?case
    by (cases "recipient_of w encrypted full_name"; cases "user_id \<in> set (dict_keys seen)") (auto simp del: set_map; metis)+
qed simp

text \<open>Rows of one user agree, so the first one is as good as any.\<close>

definition functional_rows :: "user_row list \<Rightarrow> bool" where
  "functional_rows rows \<longleftrightarrow> (\<forall>(i, x) \<in> set rows. \<forall>(j, y) \<in> set rows. i = j \<longrightarrow> x = y)"

lemma unique_loop_set:
  assumes "functional_rows rows"
    and "\<forall>(i, r) \<in> set seen. \<forall>(j, e, n) \<in> set rows. i = j \<longrightarrow> recipient_of w e n = Some r"
  shows "snd ` set (unique_loop w seen rows) =
     snd ` set seen \<union> {r. \<exists>(i, e, n) \<in> set rows. recipient_of w e n = Some r}"
  using assms
proof (induction w seen rows rule: unique_loop.induct)
  case (2 w seen user_id encrypted full_name rows)
  let ?r = "recipient_of w encrypted full_name"
  have f: "functional_rows rows" using "2.prems"(1) by (auto simp: functional_rows_def)
  have same: "x = (encrypted, full_name)" if "(user_id, x) \<in> set rows" for x
    using "2.prems"(1) that unfolding functional_rows_def by force
  show ?case
  proof (cases "user_id \<in> set (dict_keys seen)")
    case True
    then obtain r where r: "(user_id, r) \<in> set seen" by auto
    then have "?r = Some r" using "2.prems"(2) by fastforce
    moreover have "r \<in> snd ` set seen" using r by force
    moreover have "\<forall>(i, r) \<in> set seen. \<forall>(j, e, n) \<in> set rows. i = j \<longrightarrow> recipient_of w e n = Some r"
      using "2.prems"(2) by auto
    ultimately show ?thesis using "2.IH"(1) [OF True f] True by auto
  next
    case False
    show ?thesis
    proof (cases ?r)
      case None
      moreover have "\<forall>(i, r) \<in> set seen. \<forall>(j, e, n) \<in> set rows. i = j \<longrightarrow> recipient_of w e n = Some r"
        using "2.prems"(2) by auto
      ultimately show ?thesis using "2.IH"(2) [OF False None f] False by auto
    next
      case (Some r)
      have new: "dict_set user_id r seen = seen @ [(user_id, r)]"
        using False by (induction seen) auto
      have "\<forall>(i, r') \<in> set (dict_set user_id r seen). \<forall>(j, e, n) \<in> set rows. i = j \<longrightarrow> recipient_of w e n = Some r'"
        using "2.prems"(2) same Some unfolding new by fastforce
      from "2.IH"(3) [OF False Some f this] show ?thesis using False Some by (auto simp: new)
    qed
  qed
qed simp

lemma unique_recipients_sorted: "sorted (map rc_email (unique_recipients w rows))"
  by (simp add: unique_recipients_def)

lemma unique_recipients_set:
  assumes "functional_rows rows"
  shows "set (unique_recipients w rows) = {r. \<exists>(i, e, n) \<in> set rows. recipient_of w e n = Some r}"
  using unique_loop_set [OF assms, of "[]" w] by (simp add: unique_recipients_def)

lemma unique_recipients_length: "length (unique_recipients w rows) = card {i. \<exists>e n. (i, e, n) \<in> set rows \<and> recipient_of w e n \<noteq> None}"
proof -
  have "length (unique_loop w [] rows) = card (set (map fst (unique_loop w [] rows)))"
    using unique_loop_dict [of "[]" w rows] distinct_card by fastforce
  then show ?thesis unfolding unique_loop_keys by (simp add: unique_recipients_def)
qed

section \<open>Who is resolved\<close>

lemma with_roles_iff:
  "(u, role) \<in> set (with_roles users) \<longleftrightarrow>
     u \<in> set users \<and> (case role of None \<Rightarrow> us_roles u = [] | Some r \<Rightarrow> r \<in> set (us_roles u))"
  by (cases role) (auto simp: with_roles_def split: if_splits)

lemma some_role_row: "(\<exists>role. (u, role) \<in> set (with_roles users)) \<longleftrightarrow> u \<in> set users"
proof
  assume "u \<in> set users"
  then show "\<exists>role. (u, role) \<in> set (with_roles users)"
    by (intro exI [of _ "if us_roles u = [] then None else Some (hd (us_roles u))"]) (simp add: with_roles_iff)
qed (auto simp: with_roles_iff)

definition tenant_users :: "UserRow list \<Rightarrow> int \<Rightarrow> string list \<Rightarrow> UserRow set" where
  "tenant_users users tenant extras = {u \<in> set users. active_user u \<and> us_tenant_id u = Some tenant \<and>
     (tenant_admin_role \<in> set (us_roles u) \<or> show_int (us_id u) \<in> set extras)}"

definition role_users :: "UserRow list \<Rightarrow> string list \<Rightarrow> UserRow set" where
  "role_users users roles = {u \<in> set users. active_user u \<and> set (us_roles u) \<inter> set roles \<noteq> {}}"

lemma one_tenant_rows:
  "set (one_tenant_sql users tenant admin extras) =
     user_row_of ` (tenant_users users tenant extras \<union> (if admin then role_users users [admin_role] else {}))"
proof -
  let ?R = "\<lambda>u role. (u, role) \<in> set (with_roles users)"
  let ?T = "\<lambda>u. us_tenant_id u = Some tenant" and ?E = "\<lambda>u. show_int (us_id u) \<in> set extras"
  have "set (one_tenant_sql users tenant admin extras) = user_row_of ` {u. \<exists>role. ?R u role \<and> active_user u \<and>
          (admin \<and> role = Some admin_role \<or> role = Some tenant_admin_role \<and> ?T u \<or> ?T u \<and> ?E u)}"
    unfolding one_tenant_sql_def set_fromkeys set_map set_filter by force
  also have "{u. \<exists>role. ?R u role \<and> active_user u \<and>
          (admin \<and> role = Some admin_role \<or> role = Some tenant_admin_role \<and> ?T u \<or> ?T u \<and> ?E u)} =
      {u. active_user u \<and> (admin \<and> ?R u (Some admin_role) \<or> ?R u (Some tenant_admin_role) \<and> ?T u \<or>
          (\<exists>role. ?R u role) \<and> ?T u \<and> ?E u)}"
    by blast
  also have "\<dots> = tenant_users users tenant extras \<union> (if admin then role_users users [admin_role] else {})"
    unfolding some_role_row by (auto simp: with_roles_iff tenant_users_def role_users_def)
  finally show ?thesis .
qed

lemma tenant_rows_set:
  assumes "set extras \<subseteq> set all" "show_int tenant \<in> set ids"
  shows "set (tenant_rows extras (show_int tenant) (many_tenants_sql users ids admin all)) =
     user_row_of ` tenant_users users tenant extras"
proof -
  let ?R = "\<lambda>u role. (u, role) \<in> set (with_roles users)"
  let ?T = "\<lambda>u. us_tenant_id u = Some tenant" and ?E = "\<lambda>u. show_int (us_id u) \<in> set extras"
  let ?M = "\<lambda>u role. (u, role) \<in> set (many_tenants_sql users ids admin all)"
  have "set (tenant_rows extras (show_int tenant) (many_tenants_sql users ids admin all)) =
      user_row_of ` {u. \<exists>role. ?M u role \<and> ?T u \<and> (role = Some tenant_admin_role \<or> ?E u)}"
    by (force simp: tenant_rows_def split: if_splits)
  moreover have "?M u role \<and> ?T u \<and> (role = Some tenant_admin_role \<or> ?E u) \<longleftrightarrow>
      ?R u role \<and> active_user u \<and> ?T u \<and> (role = Some tenant_admin_role \<or> ?E u)" for u role
    using assms by (auto simp: many_tenants_sql_def)
  moreover have "{u. \<exists>role. ?R u role \<and> active_user u \<and> ?T u \<and> (role = Some tenant_admin_role \<or> ?E u)} =
      {u. active_user u \<and> ?T u \<and> (?R u (Some tenant_admin_role) \<or> (\<exists>role. ?R u role) \<and> ?E u)}"
    by blast
  moreover have "\<dots> = tenant_users users tenant extras"
    unfolding some_role_row by (auto simp: with_roles_iff tenant_users_def)
  ultimately show ?thesis by simp
qed

lemma rows_recipients:
  assumes "distinct (map us_id users)" "us \<subseteq> set users" "set rows = user_row_of ` us"
  shows "set (unique_recipients w rows) = recipients_of w us"
proof -
  have "u = v" if "u \<in> us" "v \<in> us" "us_id u = us_id v" for u v
    using assms(1,2) that by (auto simp: distinct_map dest: inj_onD)
  then have "functional_rows rows"
    unfolding functional_rows_def assms(3) by (auto simp: user_row_of_def)
  then have "set (unique_recipients w rows) = {r. \<exists>(i, e, n) \<in> set rows. recipient_of w e n = Some r}"
    by (rule unique_recipients_set)
  then show ?thesis unfolding assms(3) recipients_of_def by (auto simp: user_row_of_def)
qed

lemma query_Inr:
  "run_state (query w f) s = (Inr x, s') \<Longrightarrow> f (tick s) = Inr x \<and> s' = tick s"
  by (auto simp: query_def external_def split: option.splits sum.splits)

lemma tick_tables [simp]: "rt_users (tick s) = rt_users s" "rt_tenants (tick s) = rt_tenants s"
  by (simp_all add: tick_def)

lemma extras_of_subset: "set (extras_of ex t) \<subseteq> set (concat (map snd ex))"
  by (auto simp: extras_of_def split: option.splits) (metis map_of_SomeD snd_conv)

lemma for_tenant_rows:
  assumes "run_state (for_tenant w (show_nat t) roles extras) s = (Inr (rs, name), s')"
  shows "rs = unique_recipients w (one_tenant_sql (rt_users s) (int t) (include_admin roles) extras)"
  using query_Inr [OF assms [unfolded for_tenant_def]] by (auto simp: Let_def split: if_splits)

lemma for_tenants_entry:
  assumes "run_state (for_tenants w ids roles ex) s = (Inr (by_tenant, admins), s')" "t \<in> set ids"
  shows "dict_get by_tenant t = Some (unique_recipients w (tenant_rows (extras_of ex t) t
           (many_tenants_sql (rt_users s) ids (include_admin roles) (concat (map snd ex)))))"
    and "admins = unique_recipients w (map (user_row_of \<circ> fst) (filter (\<lambda>(u, role). include_admin roles \<and> role = Some admin_role)
           (many_tenants_sql (rt_users s) ids (include_admin roles) (concat (map snd ex)))))"
proof -
  have ne: "ids \<noteq> []" using assms(2) by auto
  note r = query_Inr [OF assms(1) [unfolded for_tenants_def if_not_P [OF ne]]]
  show "dict_get by_tenant t = Some (unique_recipients w (tenant_rows (extras_of ex t) t
      (many_tenants_sql (rt_users s) ids (include_admin roles) (concat (map snd ex)))))"
    using r assms(2) by (auto simp: Let_def map_of_map_restrict)
  show "admins = unique_recipients w (map (user_row_of \<circ> fst) (filter (\<lambda>(u, role). include_admin roles \<and> role = Some admin_role)
      (many_tenants_sql (rt_users s) ids (include_admin roles) (concat (map snd ex)))))"
    using r by (simp add: Let_def)
qed

lemma admin_rows_set:
  "set (map (user_row_of \<circ> fst) (filter (\<lambda>(u, role). admin \<and> role = Some admin_role) (many_tenants_sql users ids admin all))) =
     user_row_of ` (if admin then role_users users [admin_role] else {})"
  by (force simp: many_tenants_sql_def with_roles_iff role_users_def Let_def)


lemma ex_for_tenant:
  "case run_state (for_tenant ex_world (show_nat 7) [(''ADMIN'', True)] [''3'']) ex_rt of
     (Inr (rs, name), _) \<Rightarrow> map rc_email rs = [''a@x'', ''b@x'', ''root@x''] \<and> name = Some ''Seven'' | _ \<Rightarrow> False"
  by code_simp


text \<open>
  The one query for many tenants gives every tenant the same recipients as the query for that tenant
  alone without the platform admins, and returns the platform admins, who are then in no tenant's list on
  account of that role, exactly once and only when the flag is set.
\<close>

lemma many_tenants_agree_with_one:
  assumes "run_state (for_tenants w ids roles ex) s = (Inr (by_tenant, admins), s')" "show_nat t \<in> set ids"
    and "run_state (for_tenant w (show_nat t) [] (extras_of ex (show_nat t))) s1 = (Inr (rs, name), s1')"
    and "rt_users s1 = rt_users s" "distinct (map us_id (rt_users s))"
  shows "(\<exists>rs'. dict_get by_tenant (show_nat t) = Some rs' \<and> set rs' = set rs \<and> sorted (map rc_email rs')) \<and>
         set admins = (if include_admin roles then recipients_of w (role_users (rt_users s) [admin_role]) else {})"
proof -
  let ?T = "tenant_users (rt_users s) (int t) (extras_of ex (show_nat t))"
  let ?A = "if include_admin roles then role_users (rt_users s) [admin_role] else {}"
  have sub: "?T \<subseteq> set (rt_users s)" "?A \<subseteq> set (rt_users s)" by (auto simp: tenant_users_def role_users_def)
  have t: "show_nat t = show_int (int t)" by (simp add: show_int_def)
  have "set rs = recipients_of w ?T"
    using rows_recipients [OF assms(5) sub(1)] one_tenant_rows [of "rt_users s" "int t" False]
    unfolding for_tenant_rows [OF assms(3)] assms(4) by (simp add: include_admin_def)
  moreover have "set (unique_recipients w (tenant_rows (extras_of ex (show_nat t)) (show_nat t)
      (many_tenants_sql (rt_users s) ids (include_admin roles) (concat (map snd ex))))) = recipients_of w ?T"
    using tenant_rows_set [OF extras_of_subset assms(2) [unfolded t], folded t]
    by (intro rows_recipients [OF assms(5) sub(1)])
  moreover have "set admins = recipients_of w ?A"
    unfolding for_tenants_entry(2) [OF assms(1,2)] by (rule rows_recipients [OF assms(5) sub(2) admin_rows_set])
  ultimately show ?thesis
    using for_tenants_entry(1) [OF assms(1,2)] unique_recipients_sorted by (auto simp: recipients_of_def)
qed

end
