(* ===== verification/Notif_Publisher.thy ===== *)
theory Notif_Publisher
  imports Notif_Runtime
begin

text \<open>
  The event envelope and its hand-off to Kafka (\<open>publisher.py\<close>).  Creating the client and calling
  \<open>producer.send\<close> is one external operation; an error reported later reaches only the service log and is not
  part of the model.
\<close>

record Envelope =
  ev_event_id :: string
  ev_event_name :: NotificationName
  ev_notification_type :: NotificationType
  ev_tenant :: string
  ev_tenant_name :: "string option"
  ev_subject :: subject
  ev_occurred_at :: datetime
  ev_channels :: "string list"
  ev_severity :: Severity
  ev_details :: "json list"
  ev_recipients :: "Recipient list"
  ev_band :: "Band option"
  ev_observed :: "Measurement option"
  ev_subjects :: "subject list"
  ev_state_hash :: "string option"

definition envelope_key :: "Envelope \<Rightarrow> string" where
  "envelope_key e = kafka_message_key (ev_event_name e) (ev_tenant e) (ev_subject e)"

definition failure_subjects :: "Envelope \<Rightarrow> subject list" where
  "failure_subjects e = (if ev_subjects e = [] then [ev_subject e] else ev_subjects e)"

text \<open>\<open>isoformat(timespec="milliseconds")\<close>\<close>

definition isoformat_ms :: "datetime \<Rightarrow> string" where
  "isoformat_ms t = iso_base t @ ''.'' @ field 3 (micro_of t div 1000) @ ''+00:00''"

definition Envelope_to_json :: "Envelope \<Rightarrow> json" where
  "Envelope_to_json e = JObj
     ([(''schema_version'', JInt ENVELOPE_SCHEMA_VERSION),
       (''event_id'', JStr (ev_event_id e)),
       (''event_name'', JStr (NotificationName_value (ev_event_name e))),
       (''notification_type'', JStr (NotificationType_value (ev_notification_type e))),
       (''tenant_id'', JStr (ev_tenant e)),
       (''tenant_name'', opt_json JStr (ev_tenant_name e)),
       (''subject'', subj_obj (ev_subject e)),
       (''occurred_at'', JStr (isoformat_ms (ev_occurred_at e))),
       (''channels'', JArr (map JStr (ev_channels e))),
       (''severity'', JStr (Severity_value (ev_severity e))),
       (''band'', opt_json Band_value_unit (ev_band e)),
       (''observed'', opt_json Measurement_to_json (ev_observed e)),
       (''details'', JArr (ev_details e)),
       (''recipients'', JArr (map Recipient_to_json (ev_recipients e)))] @
      (if ev_subjects e = [] then [] else [(''subjects'', JArr (map subj_obj (ev_subjects e)))]))"

definition send :: "World \<Rightarrow> NotificationRuntime \<Rightarrow> Envelope \<Rightarrow> int option \<Rightarrow> bool rt" where
  "send w rt e notification_id = do {
     r \<leftarrow> external w (\<lambda>s. ((), s\<lparr>rt_kafka := rt_kafka s @ [(nr_topic rt, envelope_key e, Envelope_to_json e)]\<rparr>));
     case r of
       Inl exc \<Rightarrow> do {
         _ \<leftarrow> State_Monad.traverse_list (\<lambda>subj. record_failure w rt FS_PUBLISH KAFKA_SEND_FAILED
                ((failure_args (NotificationName_value (ev_event_name e)) OP_KAFKA_SEND (Some exc))
                   \<lparr>fa_notification_id := notification_id, fa_tenant_id := Some (ev_tenant e), fa_subject := Some (subj_obj subj),
                    fa_event_id := Some (ev_event_id e), fa_kafka_topic := Some (nr_topic rt),
                    fa_observed := map_option Measurement_to_json (ev_observed e),
                    fa_band := map_option Band_value_unit (ev_band e), fa_state_hash := ev_state_hash e\<rparr>))
              (failure_subjects e);
         State_Monad.return False }
     | Inr _ \<Rightarrow> State_Monad.return True }"

end
