(* ===== verification/Notif_Pipeline.thy ===== *)
theory Notif_Pipeline
  imports Notif_Cache_Props Recipients Notif_Publisher
begin

text \<open>
  The producer pipeline (\<open>pipeline.py\<close>): validation, settings, gate, evaluation, details, claim,
  recipients and publication of notification events.  Names are given as texts, subjects as parsed JSON; a
  details loader is nothing, a list, or the outcome of a call.
\<close>

section \<open>Gates\<close>

definition enabled :: "SettingsRow \<Rightarrow> TenantSubscriptions option \<Rightarrow> bool" where
  "enabled row subs =
     (if sr_scope row = SCOPE_GLOBAL then True
      else case subs of None \<Rightarrow> False | Some x \<Rightarrow> se_subscribed (subscription_entry x (sr_name row)))"

definition gate_needs_subscription :: "SettingsRow \<Rightarrow> bool" where
  "gate_needs_subscription row = (if sr_type row = NT_MONITORING then False else sr_scope row = SCOPE_INSTITUTION)"

definition someone_assigned :: "SettingsRow \<Rightarrow> bool" where
  "someone_assigned row = (if sr_type row = NT_MONITORING then any_role_enabled row else True)"

abbreviation name_text :: "NotificationSpec \<Rightarrow> string" where
  "name_text spec \<equiv> NotificationName_value (sp_name spec)"

section \<open>Details\<close>

datatype loader = NoLoader | Given "json list" | Call "(err, json list) res"

definition details_of ::
  "World \<Rightarrow> NotificationRuntime \<Rightarrow> loader \<Rightarrow> json list \<Rightarrow> string \<Rightarrow> int \<Rightarrow> string \<Rightarrow> subject \<Rightarrow> json list rt" where
  "details_of w rt l fallback name row_id tenant_id subj =
     (case l of
        NoLoader \<Rightarrow> State_Monad.return fallback
      | Given v \<Rightarrow> State_Monad.return v
      | Call (Inr v) \<Rightarrow> State_Monad.return v
      | Call (Inl e) \<Rightarrow> do {
          record_failure w rt FS_DETAILS DETAILS_PARTIAL
            ((failure_args name OP_DETAILS_LOOKUP (Some e))
               \<lparr>fa_notification_id := Some row_id, fa_tenant_id := Some tenant_id, fa_subject := Some (subj_obj subj)\<rparr>);
          State_Monad.return fallback })"

section \<open>Delivery\<close>

record Delivery =
  dl_tenant_id :: string
  dl_subject :: subject
  dl_event_id :: string
  dl_occurred_at :: datetime
  dl_details :: "json list"
  dl_severity :: Severity
  dl_band :: "Band option"
  dl_observed :: "Measurement option"
  dl_extra_user_ids :: "string list"
  dl_state_hash :: "string option"
  dl_recipients :: "Recipient list option"
  dl_tenant_name :: "string option"
  dl_subjects :: "subject list"

text \<open>The failure rows of a delivery: one per member of a grouped event.\<close>

definition record_delivery_failure ::
  "World \<Rightarrow> NotificationRuntime \<Rightarrow> SettingsRow \<Rightarrow> Delivery \<Rightarrow> FailureCode \<Rightarrow> err option \<Rightarrow> string option \<Rightarrow> unit rt" where
  "record_delivery_failure w rt row d code error message = do {
     _ \<leftarrow> State_Monad.traverse_list (\<lambda>member.
            record_failure w rt FS_RECIPIENTS code
              ((failure_args (NotificationName_value (sr_name row)) OP_RECIPIENTS_LOOKUP error)
                 \<lparr>fa_message := message, fa_notification_id := Some (sr_id row), fa_tenant_id := Some (dl_tenant_id d),
                  fa_subject := Some (subj_obj member), fa_event_id := Some (dl_event_id d), fa_state_hash := dl_state_hash d,
                  fa_observed := map_option Measurement_to_json (dl_observed d), fa_band := map_option Band_value_unit (dl_band d)\<rparr>))
          (if dl_subjects d = [] then [dl_subject d] else dl_subjects d);
     State_Monad.return () }"

definition resolve_recipients ::
  "World \<Rightarrow> SettingsRow \<Rightarrow> Delivery \<Rightarrow> (err, Recipient list \<times> string option) res rt" where
  "resolve_recipients w row d =
     (case dl_recipients d of
        Some rs \<Rightarrow> State_Monad.return (Inr (rs, dl_tenant_name d))
      | None \<Rightarrow>
          if sr_type row = NT_MONITORING
          then do { r \<leftarrow> for_roles w (enabled_roles row); State_Monad.return (map_sum (\<lambda>e. e) (\<lambda>rs. (rs, dl_tenant_name d)) r) }
          else do {
            r \<leftarrow> for_tenant w (dl_tenant_id d) (sr_recipient_roles row) (dl_extra_user_ids d);
            State_Monad.return (map_sum (\<lambda>e. e) (\<lambda>(rs, resolved).
              (rs, case dl_tenant_name d of Some (c # cs) \<Rightarrow> Some (c # cs) | _ \<Rightarrow> resolved)) r) })"

definition envelope_of :: "SettingsRow \<Rightarrow> Delivery \<Rightarrow> Recipient list \<Rightarrow> string option \<Rightarrow> Envelope" where
  "envelope_of row d recipients tenant_name =
     \<lparr>ev_event_id = dl_event_id d, ev_event_name = sr_name row, ev_notification_type = sr_type row,
      ev_tenant = dl_tenant_id d, ev_tenant_name = (if sr_type row = NT_MONITORING then None else tenant_name),
      ev_subject = dl_subject d, ev_occurred_at = dl_occurred_at d, ev_channels = sr_channels row,
      ev_severity = dl_severity d, ev_details = dl_details d, ev_recipients = recipients, ev_band = dl_band d,
      ev_observed = dl_observed d, ev_subjects = dl_subjects d, ev_state_hash = dl_state_hash d\<rparr>"

definition deliver :: "World \<Rightarrow> NotificationRuntime \<Rightarrow> SettingsRow \<Rightarrow> Delivery \<Rightarrow> string option rt" where
  "deliver w rt row d = do {
     r \<leftarrow> resolve_recipients w row d;
     case r of
       Inl e \<Rightarrow> do { record_delivery_failure w rt row d RECIPIENTS_LOOKUP_FAILED (Some e) None; State_Monad.return None }
     | Inr (recipients, tenant_name) \<Rightarrow>
         if recipients = [] then do {
           record_delivery_failure w rt row d NO_RECIPIENTS None (Some ''no active user matches the selected recipients'');
           State_Monad.return None }
         else do {
           sent \<leftarrow> send w rt (envelope_of row d recipients tenant_name) (Some (sr_id row));
           State_Monad.return (if sent then Some (dl_event_id d) else None) } }"

section \<open>Validation and settings\<close>

definition py_strings :: "string list \<Rightarrow> string" where
  "py_strings xs = py_repr (JArr (map JStr xs))"

definition invalid_subject_text :: "InvalidSubject \<Rightarrow> string" where
  "invalid_subject_text e = (case e of
      SubjectNotObject \<Rightarrow> ''subject must be an object''
    | SubjectKeys expected got \<Rightarrow> ''subject keys must be '' @ py_strings expected @ '', got '' @ py_strings got
    | SubjectValueEmpty key \<Rightarrow> SubjectKey_value key @ '' must be a non-empty string''
    | SubjectBadMonth v \<Rightarrow> ''billing_month must be YYYY-MM, got '' @ repr_str v
    | SubjectNotLower v \<Rightarrow> ''model_task_type must be lower case, got '' @ repr_str v
    | SubjectBadAmount v \<Rightarrow> ''budget_ceiling must have '' @ show_nat AMOUNT_DECIMALS @ '' decimals, got '' @ repr_str v
    | TenantIdEmpty \<Rightarrow> ''tenant id is empty'')"

definition invalid_subject :: "InvalidSubject \<Rightarrow> err" where
  "invalid_subject e = \<lparr>er_class = ''ai4i_core.kafka.keys.InvalidSubject'', er_text = invalid_subject_text e\<rparr>"

definition validate ::
  "World \<Rightarrow> NotificationRuntime \<Rightarrow> string \<Rightarrow> string option \<Rightarrow> json \<Rightarrow> bool \<Rightarrow> (NotificationSpec \<times> subject) option rt" where
  "validate w rt name tenant_id subj expect_state =
     (case get_spec name of
        Some spec \<Rightarrow>
          if is_state spec = expect_state
          then (case (if strip (case tenant_id of Some t \<Rightarrow> t | None \<Rightarrow> []) = [] then Inl TenantIdEmpty else validate_subject spec subj) of
                  Inr s \<Rightarrow> State_Monad.return (Some (spec, s))
                | Inl e \<Rightarrow> do {
                    record_failure w rt FS_VALIDATION INVALID_SUBJECT
                      ((failure_args (name_text spec) OP_VALIDATE (Some (invalid_subject e)))
                         \<lparr>fa_tenant_id := tenant_id, fa_subject := (case subj of JObj d \<Rightarrow> Some (JObj d) | _ \<Rightarrow> None)\<rparr>);
                    State_Monad.return None })
          else do {
            record_failure w rt FS_VALIDATION UNKNOWN_NOTIFICATION
              ((failure_args name OP_VALIDATE None)\<lparr>fa_tenant_id := tenant_id,
                 fa_message := Some (repr_str name @ '' is not a known '' @ (if expect_state then ''STATE'' else ''BAND'') @ '' notification'')\<rparr>);
            State_Monad.return None }
      | None \<Rightarrow> do {
          record_failure w rt FS_VALIDATION UNKNOWN_NOTIFICATION
            ((failure_args name OP_VALIDATE None)\<lparr>fa_tenant_id := tenant_id,
               fa_message := Some (repr_str name @ '' is not a known '' @ (if expect_state then ''STATE'' else ''BAND'') @ '' notification'')\<rparr>);
          State_Monad.return None })"

definition settings_row ::
  "World \<Rightarrow> NotificationRuntime \<Rightarrow> CacheRead \<Rightarrow> NotificationSpec \<Rightarrow> string option \<Rightarrow> string option \<Rightarrow> string option \<Rightarrow> SettingsRow option rt" where
  "settings_row w rt rd spec tenant_id hash message =
     (case cr_settings rd of
        None \<Rightarrow> do {
          record_failure w rt FS_SETTINGS SETTINGS_UNAVAILABLE
            ((failure_args (name_text spec) OP_SETTINGS_FILL (cr_settings_error rd))
               \<lparr>fa_tenant_id := tenant_id, fa_message := message, fa_state_hash := hash\<rparr>);
          State_Monad.return None }
      | Some snapshot \<Rightarrow>
          (case snapshot_get snapshot (sp_name spec) of
             Some row \<Rightarrow> State_Monad.return (Some row)
           | None \<Rightarrow> do {
               record_failure w rt FS_VALIDATION UNKNOWN_NOTIFICATION
                 ((failure_args (name_text spec) OP_VALIDATE None)\<lparr>fa_tenant_id := tenant_id,
                    fa_message := Some (name_text spec @ '' is not in configs_notification_alert'')\<rparr>);
               State_Monad.return None }))"

section \<open>One state event\<close>

definition plain_delivery :: "string \<Rightarrow> subject \<Rightarrow> string \<Rightarrow> datetime \<Rightarrow> json list \<Rightarrow> Severity \<Rightarrow> Delivery" where
  "plain_delivery tenant_id subj event_id occurred_at details severity =
     \<lparr>dl_tenant_id = tenant_id, dl_subject = subj, dl_event_id = event_id, dl_occurred_at = occurred_at, dl_details = details,
      dl_severity = severity, dl_band = None, dl_observed = None, dl_extra_user_ids = [], dl_state_hash = None,
      dl_recipients = None, dl_tenant_name = None, dl_subjects = []\<rparr>"

definition claim_state_tx :: "World \<Rightarrow> int \<Rightarrow> string \<Rightarrow> subject \<Rightarrow> string \<Rightarrow> string \<Rightarrow> (err, bool) res rt" where
  "claim_state_tx w nid tenant_id subj hash event_id = transact w (\<lambda>s.
     case claim_state (utc_now w s) nid tenant_id subj hash event_id (rt_ledger s) of
       Inl e \<Rightarrow> Inl e
     | Inr (won, tbl) \<Rightarrow> Inr (won, s\<lparr>rt_ledger := tbl\<rparr>))"

text \<open>The claim of an event that passed its gate, and its delivery when the claim wins.\<close>

definition fire_state ::
  "World \<Rightarrow> NotificationRuntime \<Rightarrow> SettingsRow \<Rightarrow> NotificationSpec \<Rightarrow> TenantSubscriptions \<Rightarrow> string \<Rightarrow> subject \<Rightarrow> string \<Rightarrow> loader \<Rightarrow>
   json list \<Rightarrow> string option rt" where
  "fire_state w rt row spec subs tenant_id subj fingerprint l fallback = do {
     event_id \<leftarrow> uuid4 w;
     occurred_at \<leftarrow> gets (utc_now w);
     vals \<leftarrow> details_of w rt l fallback (name_text spec) (sr_id row) tenant_id subj;
     won \<leftarrow> claim_state_tx w (sr_id row) tenant_id subj fingerprint event_id;
     case won of
       Inl e \<Rightarrow> do {
         record_failure w rt FS_LEDGER LEDGER_WRITE_FAILED
           ((failure_args (name_text spec) OP_LEDGER_CLAIM_STATE (Some e))
              \<lparr>fa_notification_id := Some (sr_id row), fa_tenant_id := Some tenant_id, fa_subject := Some (subj_obj subj),
               fa_state_hash := Some fingerprint\<rparr>);
         State_Monad.return None }
     | Inr False \<Rightarrow> do { decision (name_text spec) DEC_DUPLICATE 1; State_Monad.return None }
     | Inr True \<Rightarrow> do {
         decision (name_text spec) DEC_FIRE 1;
         deliver w rt row ((plain_delivery tenant_id subj event_id occurred_at vals SEV_INFO)
           \<lparr>dl_extra_user_ids := se_recipients (subscription_entry subs (sp_name spec)),
            dl_state_hash := Some fingerprint\<rparr>) } }"

definition emit_state ::
  "World \<Rightarrow> NotificationRuntime \<Rightarrow> string \<Rightarrow> string \<Rightarrow> (string, json) dict \<Rightarrow> json \<Rightarrow> loader \<Rightarrow> json list \<Rightarrow> string option rt" where
  "emit_state w rt name tenant_id new_state subj0 l fallback = do {
     v \<leftarrow> validate w rt name (Some tenant_id) (py_or subj0 (JObj [])) True;
     case v of
       None \<Rightarrow> State_Monad.return None
     | Some (spec, subj) \<Rightarrow> do {
         let fingerprint = state_hash (w_sha256 w) new_state;
         rd \<leftarrow> cache_read w rt [tenant_id] [] (name_text spec);
         r \<leftarrow> settings_row w rt rd spec (Some tenant_id) (Some fingerprint) None;
         case r of
           None \<Rightarrow> State_Monad.return None
         | Some row \<Rightarrow>
             (case dict_get (cr_subscriptions rd) tenant_id of
                None \<Rightarrow> do {
                  record_failure w rt FS_SUBSCRIPTION SUBSCRIPTION_UNAVAILABLE
                    ((failure_args (name_text spec) OP_SUBSCRIPTION_FILL (cr_subscription_error rd))
                       \<lparr>fa_notification_id := Some (sr_id row), fa_tenant_id := Some tenant_id, fa_subject := Some (subj_obj subj),
                        fa_state_hash := Some fingerprint\<rparr>);
                  State_Monad.return None }
              | Some subs \<Rightarrow>
                  if \<not> (enabled row (Some subs) \<and> someone_assigned row)
                  then do { decision (name_text spec) DEC_SKIP 1; State_Monad.return None }
                  else fire_state w rt row spec subs tenant_id subj fingerprint l fallback) } }"

section \<open>A fan-out of state events\<close>

text \<open>
  The consolidated copy for the platform admins reads positions of the details it is given; a missing
  position, or one that cannot be iterated, raises (\<open>None\<close>).
\<close>

definition py_iter :: "json \<Rightarrow> json list option" where
  "py_iter v = (case v of
      JArr xs \<Rightarrow> Some xs | JStr s \<Rightarrow> Some (map (\<lambda>c. JStr [c]) s) | JObj d \<Rightarrow> Some (map (JStr \<circ> fst) d) | _ \<Rightarrow> None)"

definition hashable :: "json \<Rightarrow> bool" where
  "hashable v = (case v of JArr _ \<Rightarrow> False | JObj _ \<Rightarrow> False | _ \<Rightarrow> True)"

definition item_at :: "json list \<Rightarrow> nat \<Rightarrow> json option" where
  "item_at xs i = (if i < length xs then Some (xs ! i) else None)"

definition change_lines :: "json list list \<Rightarrow> json list option" where
  "change_lines details =
     (case map_opt (\<lambda>d. Option.bind (item_at d 1) py_iter) details of
        None \<Rightarrow> None
      | Some ls \<Rightarrow> if list_all hashable (concat ls) then Some (fromkeys (concat ls)) else None)"

definition consolidated ::
  "(StateClaim \<times> StateItem) list \<Rightarrow> (string \<times> json list) option" where
  "consolidated won =
     (let head = snd (hd won);
          institution_names = fromkeys (map (\<lambda>(cl, item). case si_tenant_name item of Some (c # cs) \<Rightarrow> c # cs | _ \<Rightarrow> sc_tenant_id cl) won)
      in case (change_lines (map (si_details \<circ> snd) won), item_at (si_details head) 0, item_at (si_details head) 2) of
           (Some changes, Some d0, Some d2) \<Rightarrow>
             Some (if length institution_names = 1 then (hd institution_names, [d0, JArr changes, d2])
                   else (''multiple institutions'', [d0, JArr changes, d2, JArr (map JStr institution_names)]))
         | _ \<Rightarrow> None)"

definition distinct_subjects :: "StateClaim list \<Rightarrow> subject list" where
  "distinct_subjects won = map snd (fold (\<lambda>cl. dict_set (sort_key fst (sc_subject cl)) (sc_subject cl)) won [])"

definition claim_state_bulk_tx :: "World \<Rightarrow> int \<Rightarrow> StateClaim list \<Rightarrow> (err, StateClaim list) res rt" where
  "claim_state_bulk_tx w nid claims = transact w (\<lambda>s.
     case claim_state_bulk (utc_now w s) nid claims (rt_ledger s) of
       Inl e \<Rightarrow> Inl e
     | Inr (won, tbl) \<Rightarrow> Inr (won, s\<lparr>rt_ledger := tbl\<rparr>))"

definition somes :: "'a option list \<Rightarrow> 'a list" where
  "somes xs = concat (map (\<lambda>v. case v of Some x \<Rightarrow> [x] | None \<Rightarrow> []) xs)"

text \<open>The claims of the items that pass the gate, each with its item and a fresh event id.\<close>

definition bulk_claims ::
  "World \<Rightarrow> SettingsRow \<Rightarrow> string \<Rightarrow> CacheRead \<Rightarrow> (StateItem \<times> subject) list \<Rightarrow> (StateClaim \<times> StateItem) list rt" where
  "bulk_claims w row name rd valid = do {
     cs \<leftarrow> State_Monad.traverse_list (\<lambda>(item, subj).
       if \<not> (enabled row (dict_get (cr_subscriptions rd) (si_tenant_id item)) \<and> someone_assigned row)
       then do { decision name DEC_SKIP 1; State_Monad.return None }
       else do {
         event_id \<leftarrow> uuid4 w;
         State_Monad.return (Some (\<lparr>sc_tenant_id = si_tenant_id item, sc_subject = subj,
            sc_state_hash = state_hash (w_sha256 w) (si_new_state item), sc_event_id = event_id\<rparr>, item)) }) valid;
     State_Monad.return (somes cs) }"

text \<open>The deliveries of the won claims, and the copy for the platform admins.\<close>

definition bulk_deliver ::
  "World \<Rightarrow> NotificationRuntime \<Rightarrow> SettingsRow \<Rightarrow> datetime \<Rightarrow> (StateClaim \<times> StateItem) list \<Rightarrow> (string, Recipient list) dict \<Rightarrow>
   Recipient list \<Rightarrow> (err, string list) res rt" where
  "bulk_deliver w rt row occurred_at won by_tenant admins = do {
     sent \<leftarrow> State_Monad.traverse_list (\<lambda>(cl, item).
       deliver w rt row ((plain_delivery (sc_tenant_id cl) (sc_subject cl) (sc_event_id cl) occurred_at (si_details item) SEV_INFO)
         \<lparr>dl_state_hash := Some (sc_state_hash cl),
          dl_recipients := Some (case dict_get by_tenant (sc_tenant_id cl) of Some rs \<Rightarrow> rs | None \<Rightarrow> []),
          dl_tenant_name := si_tenant_name item\<rparr>)) won;
     if admins = [] then State_Monad.return (Inr (somes sent))
     else case consolidated won of
       None \<Rightarrow> State_Monad.return (Inl \<lparr>er_class = ''IndexError'', er_text = ''list index out of range''\<rparr>)
     | Some (tenant_name, details) \<Rightarrow> do {
         event_id \<leftarrow> uuid4 w;
         e \<leftarrow> deliver w rt row ((plain_delivery PLATFORM_TENANT_ID [] event_id occurred_at details SEV_INFO)
           \<lparr>dl_recipients := Some admins, dl_tenant_name := Some tenant_name, dl_subjects := distinct_subjects (map fst won)\<rparr>);
         State_Monad.return (Inr (somes (sent @ [e]))) } }"

definition emit_state_bulk ::
  "World \<Rightarrow> NotificationRuntime \<Rightarrow> string \<Rightarrow> StateItem list \<Rightarrow> string \<Rightarrow> (err, string list) res rt" where
  "emit_state_bulk w rt name items summary =
     (let message = (if summary = [] then None else Some summary) in
      case get_spec name of
        None \<Rightarrow> do { _ \<leftarrow> validate w rt name None (JObj []) True; State_Monad.return (Inr []) }
      | Some spec \<Rightarrow>
          if \<not> is_state spec then do { _ \<leftarrow> validate w rt name None (JObj []) True; State_Monad.return (Inr []) }
          else do {
            vs \<leftarrow> State_Monad.traverse_list (\<lambda>item. do {
                v \<leftarrow> validate w rt (name_text spec) (Some (si_tenant_id item)) (si_subject item) True;
                State_Monad.return (map_option (\<lambda>(_, subj). (item, subj)) v) }) items;
            let valid = somes vs;
            if valid = [] then State_Monad.return (Inr [])
            else do {
              let tenants = fromkeys (map (si_tenant_id \<circ> fst) valid);
              rd \<leftarrow> cache_read w rt tenants [] (name_text spec);
              r \<leftarrow> settings_row w rt rd spec None None message;
              case r of
                None \<Rightarrow> State_Monad.return (Inr [])
              | Some row \<Rightarrow>
                  if cr_subscription_error rd \<noteq> None \<and> list_ex (\<lambda>t. dict_get (cr_subscriptions rd) t = None) tenants
                  then do {
                    record_failure w rt FS_SUBSCRIPTION SUBSCRIPTION_UNAVAILABLE
                      ((failure_args (name_text spec) OP_SUBSCRIPTION_FILL (cr_subscription_error rd))
                         \<lparr>fa_notification_id := Some (sr_id row), fa_message := message\<rparr>);
                    State_Monad.return (Inr []) }
                  else do {
                    claims \<leftarrow> bulk_claims w row (name_text spec) rd valid;
                    if claims = [] then State_Monad.return (Inr [])
                    else do {
                      occurred_at \<leftarrow> gets (utc_now w);
                      res \<leftarrow> claim_state_bulk_tx w (sr_id row) (map fst claims);
                      case res of
                        Inl e \<Rightarrow> do {
                          record_failure w rt FS_LEDGER LEDGER_WRITE_FAILED
                            ((failure_args (name_text spec) OP_LEDGER_CLAIM_STATE_BULK (Some e))
                               \<lparr>fa_notification_id := Some (sr_id row), fa_message := message\<rparr>);
                          State_Monad.return (Inr []) }
                      | Inr won \<Rightarrow> do {
                          decision (name_text spec) DEC_DUPLICATE (length claims - length won);
                          decision (name_text spec) DEC_FIRE (length won);
                          if won = [] then State_Monad.return (Inr [])
                          else do {
                            let won_items = filter (\<lambda>(cl, _). sc_event_id cl \<in> set (map sc_event_id won)) claims;
                            let fired_tenants = fromkeys (map sc_tenant_id won);
                            let extras = hits (map (\<lambda>t. (t, map_option (\<lambda>x. se_recipients (subscription_entry x (sp_name spec)))
                                                   (dict_get (cr_subscriptions rd) t))) fired_tenants);
                            rr \<leftarrow> for_tenants w fired_tenants (sr_recipient_roles row) extras;
                            case rr of
                              Inl e \<Rightarrow> do {
                                _ \<leftarrow> State_Monad.traverse_list (\<lambda>cl. record_failure w rt FS_RECIPIENTS RECIPIENTS_LOOKUP_FAILED
                                      ((failure_args (name_text spec) OP_RECIPIENTS_LOOKUP (Some e))
                                         \<lparr>fa_notification_id := Some (sr_id row), fa_tenant_id := Some (sc_tenant_id cl),
                                          fa_subject := Some (subj_obj (sc_subject cl)), fa_event_id := Some (sc_event_id cl),
                                          fa_state_hash := Some (sc_state_hash cl)\<rparr>)) won;
                                State_Monad.return (Inr []) }
                            | Inr (by_tenant, admins) \<Rightarrow> bulk_deliver w rt row occurred_at won_items by_tenant admins } } } } } })"

section \<open>Bands\<close>

record Evaluation =
  ea_item :: BandItem
  ea_spec :: NotificationSpec
  ea_ref :: LedgerRef
  ea_row :: "SettingsRow option"
  ea_subs :: "TenantSubscriptions option"
  ea_band :: "Band option"
  ea_decision :: Decision
  ea_event_id :: "string option"
  ea_details :: "json list"

abbreviation ea_key :: "Evaluation \<Rightarrow> string" where "ea_key e \<equiv> lr_key (ea_ref e)"
abbreviation ea_name :: "Evaluation \<Rightarrow> string" where "ea_name e \<equiv> name_text (ea_spec e)"
abbreviation ea_tenant :: "Evaluation \<Rightarrow> string" where "ea_tenant e \<equiv> lr_tenant_id (ea_ref e)"

text \<open>The arguments of a failure row of an evaluation.\<close>

definition ea_failure :: "Evaluation \<Rightarrow> Operation \<Rightarrow> int option \<Rightarrow> err option \<Rightarrow> FailureArgs" where
  "ea_failure e operation row_id error =
     (failure_args (ea_name e) operation error)\<lparr>fa_notification_id := row_id, fa_tenant_id := Some (ea_tenant e),
        fa_subject := Some (subj_obj (lr_subject (ea_ref e)))\<rparr>"

definition evaluation_of :: "World \<Rightarrow> NotificationRuntime \<Rightarrow> BandItem \<Rightarrow> Evaluation option rt" where
  "evaluation_of w rt item = do {
     let tenant_id = (case get_spec (bi_name item) of
           Some spec \<Rightarrow> if sp_platform_scoped spec then PLATFORM_TENANT_ID else (case bi_tenant_id item of Some t \<Rightarrow> t | None \<Rightarrow> [])
         | None \<Rightarrow> (case bi_tenant_id item of Some t \<Rightarrow> t | None \<Rightarrow> []));
     v \<leftarrow> validate w rt (bi_name item) (Some tenant_id) (bi_subject item) False;
     State_Monad.return (map_option (\<lambda>(spec, subj).
       \<lparr>ea_item = item, ea_spec = spec, ea_ref = LedgerRef_of (sp_name spec) tenant_id subj, ea_row = None, ea_subs = None,
        ea_band = None, ea_decision = DEC_SKIP, ea_event_id = None, ea_details = []\<rparr>) v) }"

text \<open>
  With the settings in memory the evaluations are narrowed to those that pass the gate; the second component
  names the tenants whose subscription the gate still needs.
\<close>

definition narrow :: "World \<Rightarrow> SettingsSnapshot \<Rightarrow> Evaluation \<Rightarrow> (Evaluation \<times> string option) option rt" where
  "narrow w snapshot e =
     (case snapshot_get snapshot (sp_name (ea_spec e)) of
        None \<Rightarrow> State_Monad.return None
      | Some row \<Rightarrow>
          if sr_bands row = [] then State_Monad.return None
          else do {
            subs \<leftarrow> (if sp_platform_scoped (ea_spec e) then State_Monad.return None else gets (peek_subscriptions w (ea_tenant e)));
            if \<not> sp_platform_scoped (ea_spec e) \<and> gate_needs_subscription row \<and> subs = None
            then State_Monad.return (Some (e, Some (ea_tenant e)))
            else if enabled row subs \<and> someone_assigned row then State_Monad.return (Some (e, None))
            else do { decision (ea_name e) DEC_SKIP 1; State_Monad.return None } })"

text \<open>One candidate after the read: the evaluation with its row, band and decision when it has to act.\<close>

definition py_or_option :: "'a option \<Rightarrow> 'a option \<Rightarrow> 'a option" where
  "py_or_option v x = (case v of None \<Rightarrow> x | Some y \<Rightarrow> Some y)"

definition evaluate :: "World \<Rightarrow> NotificationRuntime \<Rightarrow> CacheRead \<Rightarrow> SettingsSnapshot \<Rightarrow> datetime \<Rightarrow> Evaluation \<Rightarrow> Evaluation option rt" where
  "evaluate w rt rd snapshot now e =
     (case snapshot_get snapshot (sp_name (ea_spec e)) of
        None \<Rightarrow> State_Monad.return None
      | Some row \<Rightarrow>
          if sr_bands row = [] then State_Monad.return None
          else do {
            subs \<leftarrow> (if sp_platform_scoped (ea_spec e) then State_Monad.return None
                     else gets (\<lambda>s. py_or_option (dict_get (cr_subscriptions rd) (ea_tenant e)) (peek_subscriptions w (ea_tenant e) s)));
            if \<not> sp_platform_scoped (ea_spec e) \<and> subs = None \<and> gate_needs_subscription row
            then do {
              record_failure w rt FS_SUBSCRIPTION SUBSCRIPTION_UNAVAILABLE
                (ea_failure e OP_SUBSCRIPTION_FILL (Some (sr_id row)) (cr_subscription_error rd));
              State_Monad.return None }
            else if \<not> (enabled row subs \<and> someone_assigned row) then State_Monad.return None
            else case dict_get (cr_ledger rd) (ea_key e) of
              None \<Rightarrow> do {
                record_failure w rt FS_LEDGER LEDGER_READ_FAILED (ea_failure e OP_LEDGER_READ (Some (sr_id row)) (cr_ledger_error rd));
                State_Monad.return None }
            | Some state \<Rightarrow>
                (let band = band_for (ms_value (bi_observed (ea_item e))) (sr_bands row);
                     d = decide (ea_spec e) band state now (notif_monitor_cooldown_s (nr_config rt))
                 in if d = DEC_FIRE \<or> d = DEC_RESET
                    then State_Monad.return (Some (e\<lparr>ea_row := Some row, ea_subs := subs, ea_band := band, ea_decision := d\<rparr>))
                    else do { decision (ea_name e) d 1; State_Monad.return None }) })"

text \<open>The subscriptions a firing evaluation still needs for its extra recipients.\<close>

definition needs_subs :: "Evaluation \<Rightarrow> bool" where
  "needs_subs e \<longleftrightarrow> ea_decision e = DEC_FIRE \<and> \<not> sp_platform_scoped (ea_spec e) \<and> ea_subs e = None"

definition backfill :: "World \<Rightarrow> NotificationRuntime \<Rightarrow> Evaluation list \<Rightarrow> Evaluation list rt" where
  "backfill w rt active =
     (case filter needs_subs active of
        [] \<Rightarrow> State_Monad.return active
      | m # ms \<Rightarrow> do {
          rd \<leftarrow> cache_read w rt (map ea_tenant (m # ms)) [] (ea_name m);
          es \<leftarrow> State_Monad.traverse_list (\<lambda>e.
            if needs_subs e
            then (case dict_get (cr_subscriptions rd) (ea_tenant e) of
                    Some x \<Rightarrow> State_Monad.return (e\<lparr>ea_subs := Some x\<rparr>)
                  | None \<Rightarrow> do {
                      record_failure w rt FS_SUBSCRIPTION SUBSCRIPTION_UNAVAILABLE
                        (ea_failure e OP_SUBSCRIPTION_FILL (map_option sr_id (ea_row e)) (cr_subscription_error rd));
                      State_Monad.return e })
            else State_Monad.return e) active;
          State_Monad.return (filter (\<lambda>e. sp_platform_scoped (ea_spec e) \<or> ea_decision e \<noteq> DEC_FIRE \<or> ea_subs e \<noteq> None) es) })"

text \<open>Event ids and details of the firing evaluations; items that group share the id of their name and tenant.\<close>

definition fire_context :: "Evaluation \<Rightarrow> datetime \<Rightarrow> FireContext" where
  "fire_context e now = \<lparr>fc_name = sp_name (ea_spec e), fc_tenant_id = ea_tenant e, fc_subject = lr_subject (ea_ref e),
     fc_band = the (ea_band e), fc_observed = bi_observed (ea_item e), fc_occurred_at = now\<rparr>"

definition item_loader :: "World \<Rightarrow> BandItem \<Rightarrow> FireContext \<Rightarrow> loader" where
  "item_loader w item ctx = (case bi_details item of
      None \<Rightarrow> NoLoader
    | Some f \<Rightarrow> Call (case f ctx of None \<Rightarrow> Inl (w_builder_error w) | Some v \<Rightarrow> Inr v))"

fun prepare :: "World \<Rightarrow> NotificationRuntime \<Rightarrow> datetime \<Rightarrow> (string \<times> string, string) dict \<Rightarrow> Evaluation list \<Rightarrow> Evaluation list rt" where
  "prepare w rt now ids [] = State_Monad.return []"
| "prepare w rt now ids (e # es) =
     (if ea_decision e = DEC_FIRE
      then do {
        fresh \<leftarrow> uuid4 w;
        let (event_id, ids') =
          (if bi_group_details (ea_item e) = None then (fresh, ids)
           else case dict_get ids (ea_name e, ea_tenant e) of
                  Some i \<Rightarrow> (i, ids)
                | None \<Rightarrow> (fresh, dict_set (ea_name e, ea_tenant e) fresh ids));
        vals \<leftarrow> details_of w rt (item_loader w (ea_item e) (fire_context e now)) (bi_fallback_details (ea_item e)) (ea_name e)
                  (sr_id (the (ea_row e))) (ea_tenant e) (lr_subject (ea_ref e));
        rest \<leftarrow> prepare w rt now ids' es;
        State_Monad.return (e\<lparr>ea_event_id := Some event_id, ea_details := vals\<rparr> # rest) }
      else do { rest \<leftarrow> prepare w rt now ids es; State_Monad.return (e # rest) })"

end
