(* ===== verification/Notif_Bands.thy ===== *)
theory Notif_Bands
  imports Notif_Pipeline
begin

text \<open>
  The second half of \<open>pipeline.py\<close>: the claims of a batch of band evaluations, their deliveries, the whole
  \<open>emit_band_batch\<close>, the pre-check \<open>names_that_can_fire\<close> and the writers' \<open>refresh_*\<close> calls.
\<close>

section \<open>Claims\<close>

record Claims =
  cm_changed :: "(string, LedgerState) dict"
  cm_refreshed :: "(string, LedgerState) dict"
  cm_fired :: "Evaluation list"

definition no_claims :: Claims where
  "no_claims = \<lparr>cm_changed = [], cm_refreshed = [], cm_fired = []\<rparr>"

text \<open>The statement of an evaluation and its commit.\<close>

definition claim_tx :: "World \<Rightarrow> NotificationRuntime \<Rightarrow> Evaluation \<Rightarrow> (err, LedgerState option) res rt" where
  "claim_tx w rt e = transact w (\<lambda>s.
     case (if ea_decision e = DEC_FIRE
           then claim_band (utc_now w s) (sr_id (the (ea_row e))) (ea_ref e) (bd_value (the (ea_band e))) (the (ea_event_id e)) (rt_ledger s)
           else reset_band (utc_now w s) (sr_id (the (ea_row e))) (ea_ref e) (notif_monitor_cooldown_s (nr_config rt)) (rt_ledger s)) of
       Inl x \<Rightarrow> Inl x
     | Inr (state, tbl) \<Rightarrow> Inr (state, s\<lparr>rt_ledger := tbl\<rparr>))"

text \<open>A lost claim rereads the row, and keeps what it read also when the commit after it raises.\<close>

definition claim_lost :: "World \<Rightarrow> Evaluation \<Rightarrow> Claims \<Rightarrow> (err option \<times> Claims) rt" where
  "claim_lost w e acc = do {
     decision (ea_name e) DEC_DUPLICATE 1;
     q \<leftarrow> query w (\<lambda>s. Inr (reread (sr_id (the (ea_row e))) (ea_ref e) (rt_ledger s)));
     case q of
       Inl exc \<Rightarrow> State_Monad.return (Some exc, acc)
     | Inr state \<Rightarrow> do {
         ack \<leftarrow> external w (\<lambda>s. ((), s));
         State_Monad.return (case ack of Inl exc \<Rightarrow> Some exc | Inr _ \<Rightarrow> None,
           acc\<lparr>cm_refreshed := dict_set (ea_key e) state (cm_refreshed acc)\<rparr>) } }"

text \<open>One pass of the loop: the exception it ends with, if any, and what it has gathered.\<close>

definition claim_one :: "World \<Rightarrow> NotificationRuntime \<Rightarrow> Evaluation \<Rightarrow> Claims \<Rightarrow> (err option \<times> Claims) rt" where
  "claim_one w rt e acc = do {
     r \<leftarrow> claim_tx w rt e;
     case r of
       Inl exc \<Rightarrow> State_Monad.return (Some exc, acc)
     | Inr (Some state) \<Rightarrow> do {
         decision (ea_name e) (if ea_decision e = DEC_FIRE then DEC_FIRE else DEC_RESET) 1;
         State_Monad.return (None, acc\<lparr>cm_changed := dict_set (ea_key e) state (cm_changed acc),
           cm_fired := cm_fired acc @ (if ea_decision e = DEC_FIRE then [e] else [])\<rparr>) }
     | Inr None \<Rightarrow> claim_lost w e acc }"

definition record_claim_failure :: "World \<Rightarrow> NotificationRuntime \<Rightarrow> Operation \<Rightarrow> err \<Rightarrow> Evaluation \<Rightarrow> unit rt" where
  "record_claim_failure w rt operation exc e =
     record_failure w rt FS_LEDGER LEDGER_WRITE_FAILED
       ((ea_failure e operation (Some (sr_id (the (ea_row e)))) (Some exc))
          \<lparr>fa_observed := Some (Measurement_to_json (bi_observed (ea_item e))), fa_band := map_option Band_value_unit (ea_band e)\<rparr>)"

text \<open>The loop; a failing rollback leaves it.\<close>

fun claim_loop :: "World \<Rightarrow> NotificationRuntime \<Rightarrow> Evaluation list \<Rightarrow> Claims \<Rightarrow> (err option \<times> Claims) rt" where
  "claim_loop w rt [] acc = State_Monad.return (None, acc)"
| "claim_loop w rt (e # es) acc = do {
     (exc, acc') \<leftarrow> claim_one w rt e acc;
     case exc of
       None \<Rightarrow> claim_loop w rt es acc'
     | Some x \<Rightarrow> do {
         rollback \<leftarrow> external w (\<lambda>s. ((), s));
         case rollback of
           Inl x' \<Rightarrow> State_Monad.return (Some x', acc')
         | Inr _ \<Rightarrow> do {
             record_claim_failure w rt (if ea_decision e = DEC_FIRE then OP_LEDGER_CLAIM_BAND else OP_LEDGER_RESET) x e;
             claim_loop w rt es acc' } } }"

text \<open>The session around the loop.  What escapes it is reported for every evaluation that has no outcome.\<close>

definition claim_all :: "World \<Rightarrow> NotificationRuntime \<Rightarrow> Evaluation list \<Rightarrow> Claims rt" where
  "claim_all w rt active = do {
     opened \<leftarrow> external w (\<lambda>s. ((), s));
     (exc, acc) \<leftarrow> (case opened of
         Inl x \<Rightarrow> State_Monad.return (Some x, no_claims)
       | Inr _ \<Rightarrow> do {
           (exc, acc) \<leftarrow> claim_loop w rt active no_claims;
           closed \<leftarrow> external w (\<lambda>s. ((), s));
           State_Monad.return (case closed of Inl x \<Rightarrow> Some x | Inr _ \<Rightarrow> exc, acc) });
     _ \<leftarrow> (case exc of
         None \<Rightarrow> State_Monad.return []
       | Some x \<Rightarrow> State_Monad.traverse_list (record_claim_failure w rt OP_LEDGER_CLAIM_BAND x)
           (filter (\<lambda>e. dict_get (cm_changed acc) (ea_key e) = None \<and> dict_get (cm_refreshed acc) (ea_key e) = None) active));
     (if cm_changed acc \<noteq> [] \<or> cm_refreshed acc \<noteq> []
      then write_ledger w rt (cm_changed acc) (cm_refreshed acc)
             (fromkeys (map ea_name (filter (\<lambda>e. dict_get (cm_changed acc) (ea_key e) \<noteq> None) active)))
      else State_Monad.return ());
     State_Monad.return acc }"

section \<open>Groups\<close>

text \<open>\<open>groups.setdefault(e.event_id, []).append(e)\<close>\<close>

definition groups_of :: "Evaluation list \<Rightarrow> (string, Evaluation list) dict" where
  "groups_of fired = fold (\<lambda>e d. dict_set (the (ea_event_id e))
     ((case dict_get d (the (ea_event_id e)) of Some ms \<Rightarrow> ms | None \<Rightarrow> []) @ [e]) d) fired []"

text \<open>\<open>max(members, key=lambda m: m.band.value)\<close>: the first of the highest.\<close>

fun highest :: "Evaluation \<Rightarrow> Evaluation list \<Rightarrow> Evaluation" where
  "highest e [] = e"
| "highest e (m # ms) = highest (if bd_value (the (ea_band e)) < bd_value (the (ea_band m)) then m else e) ms"

definition group_details :: "World \<Rightarrow> NotificationRuntime \<Rightarrow> Evaluation \<Rightarrow> Evaluation list \<Rightarrow> json list rt" where
  "group_details w rt h members =
     (case Option.bind (bi_group_details (ea_item h)) (\<lambda>f. f (map ea_details members)) of
        Some d \<Rightarrow> State_Monad.return d
      | None \<Rightarrow> do {
          _ \<leftarrow> State_Monad.traverse_list (\<lambda>m. record_failure w rt FS_DETAILS DETAILS_PARTIAL
                 ((failure_args (ea_name h) OP_DETAILS_LOOKUP (Some (w_builder_error w)))
                    \<lparr>fa_notification_id := Some (sr_id (the (ea_row h))), fa_tenant_id := Some (ea_tenant h),
                     fa_subject := Some (subj_obj (lr_subject (ea_ref m))), fa_event_id := ea_event_id h\<rparr>)) members;
          State_Monad.return (ea_details h) })"

definition deliver_group :: "World \<Rightarrow> NotificationRuntime \<Rightarrow> datetime \<Rightarrow> Evaluation list \<Rightarrow> string option rt" where
  "deliver_group w rt now members = do {
     let e = highest (hd members) (tl members);
     details \<leftarrow> (if length members = 1 then State_Monad.return (ea_details e) else group_details w rt e members);
     deliver w rt (the (ea_row e))
       ((plain_delivery (ea_tenant e) (if length members = 1 then lr_subject (ea_ref e) else []) (the (ea_event_id e)) now details
           (bd_severity (the (ea_band e))))
        \<lparr>dl_band := ea_band e, dl_observed := Some (bi_observed (ea_item e)),
         dl_extra_user_ids := (case ea_subs e of Some x \<Rightarrow> se_recipients (subscription_entry x (sp_name (ea_spec e))) | None \<Rightarrow> []),
         dl_subjects := (if length members = 1 then [] else map (lr_subject \<circ> ea_ref) members)\<rparr>) }"

section \<open>The batch\<close>

text \<open>The candidates and the tenants whose subscription is read.\<close>

definition candidates_of :: "World \<Rightarrow> Evaluation list \<Rightarrow> (Evaluation list \<times> string list) rt" where
  "candidates_of w evaluations = do {
     peeked \<leftarrow> gets (peek_settings w);
     case peeked of
       Some snapshot \<Rightarrow> do {
         ns \<leftarrow> State_Monad.traverse_list (narrow w snapshot) evaluations;
         State_Monad.return (map fst (somes ns), somes (map snd (somes ns))) }
     | None \<Rightarrow> State_Monad.return (evaluations, map ea_tenant (filter (\<lambda>e. \<not> sp_platform_scoped (ea_spec e)) evaluations)) }"

definition active_of :: "World \<Rightarrow> NotificationRuntime \<Rightarrow> CacheRead \<Rightarrow> SettingsSnapshot \<Rightarrow> datetime \<Rightarrow> Evaluation list \<Rightarrow> Evaluation list rt" where
  "active_of w rt rd snapshot now candidates = do {
     as \<leftarrow> State_Monad.traverse_list (evaluate w rt rd snapshot now) candidates;
     backfill w rt (somes as) }"

definition fire_all :: "World \<Rightarrow> NotificationRuntime \<Rightarrow> datetime \<Rightarrow> Evaluation list \<Rightarrow> string list rt" where
  "fire_all w rt now active = do {
     prepared \<leftarrow> prepare w rt now [] active;
     acc \<leftarrow> claim_all w rt prepared;
     sent \<leftarrow> State_Monad.traverse_list (deliver_group w rt now) (map snd (groups_of (cm_fired acc)));
     State_Monad.return (somes sent) }"

definition emit_band_batch :: "World \<Rightarrow> NotificationRuntime \<Rightarrow> BandItem list \<Rightarrow> string list rt" where
  "emit_band_batch w rt items = do {
     evs \<leftarrow> State_Monad.traverse_list (evaluation_of w rt) items;
     let evaluations = somes evs;
     if evaluations = [] then State_Monad.return []
     else do {
       (candidates, tenants) \<leftarrow> candidates_of w evaluations;
       if candidates = [] then State_Monad.return []
       else do {
         rd \<leftarrow> cache_read w rt tenants (map ea_ref candidates) (ea_name (hd evaluations));
         case cr_settings rd of
           None \<Rightarrow> do {
             _ \<leftarrow> State_Monad.traverse_list (\<lambda>name. record_failure w rt FS_SETTINGS SETTINGS_UNAVAILABLE
                    (failure_args name OP_SETTINGS_FILL (cr_settings_error rd))) (fromkeys (map ea_name candidates));
             State_Monad.return [] }
         | Some snapshot \<Rightarrow> do {
             now \<leftarrow> gets (utc_now w);
             active \<leftarrow> active_of w rt rd snapshot now candidates;
             if active = [] then State_Monad.return [] else fire_all w rt now active } } } }"

section \<open>The pre-check\<close>

definition can_fire ::
  "World \<Rightarrow> NotificationRuntime \<Rightarrow> string \<Rightarrow> CacheRead \<Rightarrow> SettingsSnapshot \<Rightarrow> TenantSubscriptions option \<Rightarrow> NotificationSpec \<Rightarrow> NotificationName option rt" where
  "can_fire w rt tenant rd snapshot subs spec =
     (case snapshot_get snapshot (sp_name spec) of
        None \<Rightarrow> State_Monad.return None
      | Some row \<Rightarrow>
          if sr_bands row = [] then State_Monad.return None
          else
            let row_subs = (if sp_platform_scoped spec then None else subs) in
            if row_subs = None \<and> \<not> sp_platform_scoped spec \<and> gate_needs_subscription row
            then do {
              record_failure w rt FS_SUBSCRIPTION SUBSCRIPTION_UNAVAILABLE
                ((failure_args (name_text spec) OP_SUBSCRIPTION_FILL (cr_subscription_error rd))
                   \<lparr>fa_notification_id := Some (sr_id row), fa_tenant_id := Some tenant\<rparr>);
              State_Monad.return None }
            else State_Monad.return (if enabled row row_subs \<and> someone_assigned row then Some (sp_name spec) else None))"

definition check_needs_subs :: "SettingsSnapshot option \<Rightarrow> NotificationSpec \<Rightarrow> bool" where
  "check_needs_subs peeked spec \<longleftrightarrow> \<not> sp_platform_scoped spec \<and>
     (case peeked of None \<Rightarrow> True | Some snapshot \<Rightarrow>
        (case snapshot_get snapshot (sp_name spec) of None \<Rightarrow> False | Some row \<Rightarrow> sr_bands row \<noteq> [] \<and> gate_needs_subscription row))"

definition names_that_can_fire :: "World \<Rightarrow> NotificationRuntime \<Rightarrow> string list \<Rightarrow> string \<Rightarrow> NotificationName list rt" where
  "names_that_can_fire w rt names tenant = do {
     let specs = filter is_band (somes (map get_spec names));
     if specs = [] then State_Monad.return []
     else do {
       peeked \<leftarrow> gets (peek_settings w);
       rd \<leftarrow> cache_read w rt (if list_ex (check_needs_subs peeked) specs then [tenant] else []) [] (name_text (hd specs));
       case cr_settings rd of
         None \<Rightarrow> do {
           _ \<leftarrow> State_Monad.traverse_list (\<lambda>spec. record_failure w rt FS_SETTINGS SETTINGS_UNAVAILABLE
                  ((failure_args (name_text spec) OP_SETTINGS_FILL (cr_settings_error rd))\<lparr>fa_tenant_id := Some tenant\<rparr>)) specs;
           State_Monad.return [] }
       | Some snapshot \<Rightarrow> do {
           subs \<leftarrow> gets (\<lambda>s. py_or_option (dict_get (cr_subscriptions rd) tenant) (peek_subscriptions w tenant s));
           vs \<leftarrow> State_Monad.traverse_list (can_fire w rt tenant rd snapshot subs) specs;
           State_Monad.return (somes vs) } } }"

section \<open>Writers\<close>

text \<open>These run after a commit of the settings or the subscriptions; an exception of the load reaches the caller.\<close>

definition refresh_settings :: "World \<Rightarrow> NotificationRuntime \<Rightarrow> string list \<Rightarrow> (err, unit) res rt" where
  "refresh_settings w rt names = do {
     r \<leftarrow> load_settings_snapshot w;
     case r of
       Inl e \<Rightarrow> State_Monad.return (Inl e)
     | Inr snapshot \<Rightarrow> do { write_settings w rt snapshot names; State_Monad.return (Inr ()) } }"

definition refresh_subscriptions :: "World \<Rightarrow> NotificationRuntime \<Rightarrow> string list \<Rightarrow> (err, unit) res rt" where
  "refresh_subscriptions w rt ids =
     (if ids = [] then State_Monad.return (Inr ())
      else do {
        r \<leftarrow> load_subscriptions_many w ids;
        case r of
          Inl e \<Rightarrow> State_Monad.return (Inl e)
        | Inr loaded \<Rightarrow> do {
            write_subscriptions w rt (map (\<lambda>t. the (dict_get loaded t)) ids);
            State_Monad.return (Inr ()) } })"

end
