(* ===== verification/Notif_Pipeline_Props.thy ===== *)
theory Notif_Pipeline_Props
  imports Notif_Bands Failure_Log
begin

text \<open>
  What the producer pipeline promises: no event without a won claim, no won claim that is neither published
  nor reported, and no decision to stay silent that leaves no trace.
\<close>

section \<open>Reports\<close>

lemma wp_record:
  "wp (record_failure w rt stage code a) (\<lambda>_ s'. cache_only s s' \<and> accounted s + 1 \<le> accounted s') s"
  by (rule wp_of_run) (auto dest: record_failure_accounted keeps_run [OF record_failure_cache])

lemma wp_records:
  "wp (State_Monad.traverse_list (\<lambda>x. record_failure w rt (f x) (g x) (h x)) xs)
     (\<lambda>_ s'. cache_only s s' \<and> accounted s + length xs \<le> accounted s') s"
proof (induction xs arbitrary: s)
  case (Cons x xs)
  have "wp (record_failure w rt (f x) (g x) (h x)) (\<lambda>_ s1. wp (State_Monad.traverse_list (\<lambda>x. record_failure w rt (f x) (g x) (h x)) xs)
      (\<lambda>_ s'. cache_only s s' \<and> accounted s + length (x # xs) \<le> accounted s') s1) s"
    by (rule wp_mono [OF wp_record], rule wp_mono [OF Cons.IH]) (auto intro: caches.trans)
  then show ?case by simp
qed (simp add: caches.refl)

section \<open>Deliveries\<close>

definition message :: "NotificationRuntime \<Rightarrow> Envelope \<Rightarrow> string \<times> string \<times> json" where
  "message rt env = (nr_topic rt, envelope_key env, Envelope_to_json env)"

text \<open>Publishing touches neither the ledger nor the decisions.\<close>

definition publish_only :: "Rt \<Rightarrow> Rt \<Rightarrow> bool" where
  "publish_only s s' \<longleftrightarrow> accounted s \<le> accounted s' \<and> rt_decisions s' = rt_decisions s \<and> rt_ledger s' = rt_ledger s"

interpretation pubs: frame publish_only
  by unfold_locales (auto simp: publish_only_def)

lemma cache_publish: "cache_only s s' \<Longrightarrow> publish_only s s'"
  by (simp add: cache_only_def publish_only_def)

lemma tick_fields [simp]:
  "rt_kafka (tick s) = rt_kafka s" "rt_decisions (tick s) = rt_decisions s" "rt_ledger (tick s) = rt_ledger s"
  by (simp_all add: tick_def)

definition members_of :: "Delivery \<Rightarrow> subject list" where
  "members_of d = (if dl_subjects d = [] then [dl_subject d] else dl_subjects d)"

lemma failure_subjects_envelope [simp]: "failure_subjects (envelope_of row d rs tn) = members_of d"
  by (simp add: failure_subjects_def envelope_of_def members_of_def)

lemma record_delivery_failure_spec:
  "wp (record_delivery_failure w rt row d code e m) (\<lambda>_ s'. cache_only s s' \<and> accounted s + length (members_of d) \<le> accounted s') s"
  unfolding record_delivery_failure_def wp_bind
  by (rule wp_mono [OF wp_records]) (simp add: members_of_def)

lemma send_spec:
  "wp (send w rt env nid) (\<lambda>r s'. publish_only s s' \<and>
     (if r then rt_kafka s' = rt_kafka s @ [message rt env]
      else rt_kafka s' = rt_kafka s \<and> accounted s + length (failure_subjects env) \<le> accounted s')) s"
proof (cases "w_fails w (rt_tick s)")
  case (Some e)
  show ?thesis
    unfolding send_def wp_bind wp_external Some
    by simp (rule wp_mono [OF wp_records], auto simp: publish_only_def cache_only_def)
next
  case None
  then show ?thesis
    by (simp add: send_def wp_external publish_only_def message_def accounted_def) (simp add: tick_def)
qed

lemma resolve_recipients_cache [intro!, simp]: "keeps cache_only (resolve_recipients w row d)"
  unfolding resolve_recipients_def for_roles_def for_tenant_def by (auto split: option.split)

lemma deliver_spec:
  "wp (deliver w rt row d) (\<lambda>r s'. publish_only s s' \<and>
     (case r of
        None \<Rightarrow> rt_kafka s' = rt_kafka s \<and> accounted s + length (members_of d) \<le> accounted s'
      | Some i \<Rightarrow> i = dl_event_id d \<and>
          (\<exists>rs tn. rs \<noteq> [] \<and> rt_kafka s' = rt_kafka s @ [message rt (envelope_of row d rs tn)]))) s"
  unfolding deliver_def wp_bind
proof (rule wp_keeps [OF resolve_recipients_cache], goal_cases)
  case (1 r s1)
  then have k: "publish_only s s1" "rt_kafka s1 = rt_kafka s" "accounted s \<le> accounted s1"
    by (auto simp: cache_publish cache_only_def)
  have rec: "wp (record_delivery_failure w rt row d code e m) (\<lambda>_ s'. publish_only s s' \<and>
      rt_kafka s' = rt_kafka s \<and> accounted s + length (members_of d) \<le> accounted s') s1" for code e m
    by (rule wp_mono [OF record_delivery_failure_spec]) (use k in \<open>auto simp: publish_only_def cache_only_def\<close>)
  have snd: "wp (send w rt (envelope_of row d rs tn) n) (\<lambda>b s'. publish_only s s' \<and>
      (if b then rt_kafka s' = rt_kafka s @ [message rt (envelope_of row d rs tn)]
       else rt_kafka s' = rt_kafka s \<and> accounted s + length (members_of d) \<le> accounted s')) s1" for rs tn n
    by (rule wp_mono [OF send_spec]) (use k in \<open>auto simp: publish_only_def split: if_splits\<close>)
  show ?case
  proof (cases r)
    case (Inl e)
    then show ?thesis by simp (rule wp_mono [OF rec], auto)
  next
    case (Inr p)
    obtain rs tn where p: "p = (rs, tn)" by (cases p)
    show ?thesis
    proof (cases "rs = []")
      case True
      then show ?thesis by (simp add: Inr p) (rule wp_mono [OF rec], auto)
    next
      case False
      then show ?thesis by (simp add: Inr p) (rule wp_mono [OF snd], auto split: if_splits)
    qed
  qed
qed

section \<open>Validation, settings and details\<close>

lemma validate_spec:
  "wp (validate w rt name t subj st) (\<lambda>v s'. cache_only s s' \<and>
     (case v of
        None \<Rightarrow> accounted s < accounted s'
      | Some (spec, sj) \<Rightarrow> s' = s \<and> get_spec name = Some spec \<and> is_state spec = st \<and> validate_subject spec subj = Inr sj)) s"
  unfolding validate_def
  by (auto simp: caches.refl Let_def split: option.split sum.split intro!: wp_mono [OF wp_record])

lemma settings_row_spec:
  "wp (settings_row w rt rd spec t h m) (\<lambda>v s'. cache_only s s' \<and> (case v of None \<Rightarrow> accounted s < accounted s' | Some _ \<Rightarrow> s' = s)) s"
  unfolding settings_row_def by (auto simp: caches.refl split: option.split intro!: wp_mono [OF wp_record])

lemma details_of_cache [intro!, simp]: "keeps cache_only (details_of w rt l fb name nid t sj)"
  unfolding details_of_def by (auto split: loader.split sum.split)

lemma wp_decision: "wp (decision name d n) Q s \<longleftrightarrow> Q () (s\<lparr>rt_decisions := rt_decisions s @ replicate n (name, d)\<rparr>)"
  by (simp add: decision_def)

lemma wp_transact:
  assumes "\<And>e. Q (Inl e) (tick s)"
    and "\<And>a s'. act (tick s) = Inr (a, s') \<Longrightarrow> Q (Inr a) (tick s') \<and> (\<forall>e. Q (Inl e) (tick s'))"
  shows "wp (transact w act) Q s"
proof -
  have ack: "wp (external w (\<lambda>s. ((), s))) (\<lambda>r. Q (case r of Inl e \<Rightarrow> Inl e | Inr _ \<Rightarrow> Inr a)) s'"
    if "act (tick s) = Inr (a, s')" for a s'
    using assms(2) [OF that] by (simp add: wp_external split: option.split)
  show ?thesis
    using assms(1) ack
    by (auto simp: transact_def wp_external split: option.split sum.split)
qed

section \<open>One state event\<close>

lemma claim_state_Inr:
  assumes "claim_state now nid t sj h e tbl = Inr (True, tbl')"
  shows "hash_at tbl (ledger_id nid t sj) \<noteq> Some h"
    "\<exists>row. dict_get tbl' (ledger_id nid t sj) = Some row \<and> lg_state_hash row = Some h \<and> lg_last_event_id row = e"
  using assms
  by (auto simp: claim_state_def sql_claim_state_def store_def hash_at_def split: sum.splits option.splits if_splits)

lemma claim_state_tx_spec:
  "wp (claim_state_tx w nid t sj h e) (\<lambda>r s'. rt_kafka s' = rt_kafka s \<and> rt_decisions s' = rt_decisions s \<and> accounted s' = accounted s \<and>
     (r = Inr True \<longrightarrow> hash_at (rt_ledger s) (ledger_id nid t sj) \<noteq> Some h \<and>
        (\<exists>row. dict_get (rt_ledger s') (ledger_id nid t sj) = Some row \<and> lg_state_hash row = Some h \<and> lg_last_event_id row = e))) s"
  unfolding claim_state_tx_def
proof (rule wp_transact, goal_cases)
  case (2 b s')
  then obtain tbl where c: "claim_state (utc_now w (tick s)) nid t sj h e (rt_ledger s) = Inr (b, tbl)" and s': "s' = (tick s)\<lparr>rt_ledger := tbl\<rparr>"
    by (auto split: sum.splits)
  have "accounted s' = accounted s" by (simp add: s' accounted_def) (simp add: tick_def)
  then show ?case
    using c claim_state_Inr [of _ nid t sj h e "rt_ledger s" tbl] by (auto simp: s')
qed simp

definition state_fired :: "NotificationRuntime \<Rightarrow> string \<Rightarrow> subject \<Rightarrow> string \<Rightarrow> string \<Rightarrow> Rt \<Rightarrow> Rt \<Rightarrow> bool" where
  "state_fired rt t sj h i s s' \<longleftrightarrow>
     (\<exists>env. rt_kafka s' = rt_kafka s @ [message rt env] \<and> ev_event_id env = i \<and> ev_tenant env = t \<and>
        ev_subject env = sj \<and> ev_recipients env \<noteq> []) \<and>
     (\<exists>nid row. hash_at (rt_ledger s) (ledger_id nid t sj) \<noteq> Some h \<and>
        dict_get (rt_ledger s') (ledger_id nid t sj) = Some row \<and> lg_state_hash row = Some h \<and> lg_last_event_id row = i)"

text \<open>Silence leaves a trace: a failure report, or the one decision not to fire.\<close>

definition stays_silent :: "Rt \<Rightarrow> Rt \<Rightarrow> bool" where
  "stays_silent s s' \<longleftrightarrow> rt_kafka s' = rt_kafka s \<and>
     (accounted s < accounted s' \<or> (\<exists>name. \<exists>d \<in> {DEC_SKIP, DEC_DUPLICATE}. rt_decisions s' = rt_decisions s @ [(name, d)]))"

lemma fire_state_spec:
  assumes "cache_only s0 s"
  shows "wp (fire_state w rt row spec subs t sj h l fb) (\<lambda>r s'. case r of
     None \<Rightarrow> stays_silent s0 s' | Some i \<Rightarrow> state_fired rt t sj h i s0 s') s"
  unfolding fire_state_def wp_bind
proof (rule wp_keeps [OF uuid4_cache], simp only: wp_gets, rule wp_keeps [OF details_of_cache], rule wp_mono [OF claim_state_tx_spec], goal_cases)
  case (1 i s1 vals s2 won s3)
  have pre: "rt_kafka s3 = rt_kafka s0" "rt_decisions s3 = rt_decisions s0" "accounted s0 \<le> accounted s3" "rt_ledger s2 = rt_ledger s0"
    using 1 assms by (auto simp: cache_only_def)
  consider e where "won = Inl e" | "won = Inr False" | "won = Inr True" by (metis sumE)
  then show ?case
  proof cases
    case (1 e)
    then show ?thesis
      using pre by simp (rule wp_mono [OF wp_record], auto simp: stays_silent_def cache_only_def)
  next
    case 2
    then show ?thesis using pre by (simp add: wp_decision stays_silent_def)
  next
    case 3
    let ?d = "(plain_delivery t sj i (utc_now w s1) vals SEV_INFO)\<lparr>dl_extra_user_ids := se_recipients (subscription_entry subs (sp_name spec)), dl_state_hash := Some h\<rparr>"
    let ?s = "s3\<lparr>rt_decisions := rt_decisions s3 @ [(name_text spec, DEC_FIRE)]\<rparr>"
    have "accounted ?s = accounted s3" by (simp add: accounted_def)
    then have "wp (deliver w rt row ?d) (\<lambda>r s'. case r of None \<Rightarrow> stays_silent s0 s' | Some i \<Rightarrow> state_fired rt t sj h i s0 s') ?s"
      using 1 3 pre
      by (intro wp_mono [OF deliver_spec])
        (auto simp: stays_silent_def state_fired_def publish_only_def members_of_def plain_delivery_def envelope_of_def split: option.splits)
    then show ?thesis using 3 by (simp add: wp_decision)
  qed
qed

lemma emit_state_spec:
  "wp (emit_state w rt name t new_state subj0 l fb) (\<lambda>r s'. case r of
     None \<Rightarrow> stays_silent s s'
   | Some i \<Rightarrow> \<exists>spec sj. get_spec name = Some spec \<and> is_state spec \<and> validate_subject spec (py_or subj0 (JObj [])) = Inr sj \<and>
       state_fired rt t sj (state_hash (w_sha256 w) new_state) i s s') s"
  (is "wp _ ?Q s")
  unfolding emit_state_def wp_bind
proof (rule wp_mono [OF validate_spec], goal_cases)
  case (1 v s1)
  show ?case
  proof (cases v)
    case None
    then show ?thesis using 1 by (simp add: stays_silent_def cache_only_def)
  next
    case (Some p)
    obtain spec sj where p: "p = (spec, sj)" by (cases p)
    have v: "s1 = s" "get_spec name = Some spec" "is_state spec" "validate_subject spec (py_or subj0 (JObj [])) = Inr sj"
      using 1 Some p by auto
    show ?thesis
      unfolding Some p option.case prod.case Let_def wp_bind v(1)
    proof (rule wp_keeps [OF cache_read_cache], rule wp_mono [OF settings_row_spec], goal_cases)
      case (1 rd s2 r s3)
      then have c: "cache_only s s3" by (auto intro: caches.trans)
      show ?case
      proof (cases r)
        case None
        then show ?thesis using 1 c by (auto simp: stays_silent_def cache_only_def)
      next
        case (Some row)
        show ?thesis
        proof (cases "dict_get (cr_subscriptions rd) t")
          case None
          then show ?thesis
            using c by (simp add: Some) (rule wp_mono [OF wp_record], auto simp: stays_silent_def cache_only_def)
        next
          case subs: (Some subs)
          have "wp (fire_state w rt row spec subs t sj (state_hash (w_sha256 w) new_state) l fb) ?Q s3"
            by (rule wp_mono [OF fire_state_spec [OF c]]) (use v in \<open>auto split: option.splits\<close>)
          then show ?thesis
            using c by (auto simp: Some subs wp_decision stays_silent_def cache_only_def)
        qed
      qed
    qed
  qed
qed

section \<open>A healthy world\<close>

lemma cache_read_l1:
  assumes "peek_settings w s = Some snapshot" "peek_subscriptions w t s = Some subs"
  shows "run_state (cache_read w rt [t] [] ctx) s =
    (\<lparr>cr_settings = Some snapshot, cr_subscriptions = [(t, subs)], cr_ledger = [],
      cr_settings_error = None, cr_subscription_error = None, cr_ledger_error = None\<rparr>, s)"
  using assms by (simp add: cache_read_def read_with_futures_def read_l1_def distinct_refs_def Let_def)

lemma transact_healthy:
  assumes "\<And>n. w_fails w n = None" "act (tick s) = Inr (a, s')"
  shows "run_state (transact w act) s = (Inr a, tick s')"
  using assms by (simp add: transact_def external_def)

lemma deliver_healthy:
  assumes "\<And>n. w_fails w n = None" "dl_recipients d = None" "sr_type row \<noteq> NT_MONITORING"
    "int_of_str (dl_tenant_id d) = Some i" "int4 i"
    "unique_recipients w (one_tenant_sql (rt_users s) i (include_admin (sr_recipient_roles row)) (dl_extra_user_ids d)) \<noteq> []"
  shows "fst (run_state (deliver w rt row d) s) = Some (dl_event_id d)"
  using assms
  by (simp add: deliver_def resolve_recipients_def for_tenant_def query_run send_def external_def tick_def Let_def split: prod.split)

lemma fire_state_healthy:
  assumes h: "\<And>n. w_fails w n = None"
    and row: "sr_type row \<noteq> NT_MONITORING" "int_of_str t = Some i" "int4 i"
    "unique_recipients w (one_tenant_sql (rt_users s) i (include_admin (sr_recipient_roles row)) (se_recipients (subscription_entry subs (sp_name spec)))) \<noteq> []"
    and claim: "state_row (rt_ledger s) (ledger_id (sr_id row) t sj)" "hash_at (rt_ledger s) (ledger_id (sr_id row) t sj) \<noteq> Some hash"
  shows "fst (run_state (fire_state w rt row spec subs t sj hash NoLoader fb) s) = Some (w_uuid w (rt_tick s))"
proof -
  let ?i = "w_uuid w (rt_tick s)" and ?k = "ledger_id (sr_id row) t sj"
  have led: "rt_ledger (tick s) = rt_ledger s" "rt_users (tick s) = rt_users s" by (simp_all add: tick_def)
  obtain r where "sql_claim_state (utc_now w (tick (tick s))) ?k hash ?i (rt_ledger s) = Inr (Some r, dict_set ?k r (rt_ledger s))"
    using sql_claim_state_won [OF claim] by blast
  then have c: "run_state (claim_state_tx w (sr_id row) t sj hash ?i) (tick s) = (Inr True, tick ((tick (tick s))\<lparr>rt_ledger := dict_set ?k r (rt_ledger s)\<rparr>))"
    unfolding claim_state_tx_def by (intro transact_healthy h) (simp add: claim_state_def)
  show ?thesis
    unfolding fire_state_def
    by (simp add: uuid4_def details_of_def c decision_def deliver_healthy [OF h] row plain_delivery_def)
qed

section \<open>Properties\<close>

text \<open>
  C20: Whatever fails, a call of \<open>emit_state\<close> ends in one of two ways.  It returns an event id; then exactly one
  message with that id, the tenant, the validated subject and at least one recipient was handed to Kafka, the
  ledger had another state before and now holds the fingerprint of the new state with this event id.  Or it
  returns nothing; then nothing was handed to Kafka, and either the failure log has a report more or the one
  decision to skip the event or to drop it as a duplicate is counted.
\<close>

theorem emit_state_outcome:
  "case run_state (emit_state w rt name tenant new_state subj l fallback) s of
     (Some i, s') \<Rightarrow> \<exists>spec sj env nid row. get_spec name = Some spec \<and> is_state spec \<and> validate_subject spec (py_or subj (JObj [])) = Inr sj \<and>
       rt_kafka s' = rt_kafka s @ [message rt env] \<and> ev_event_id env = i \<and> ev_tenant env = tenant \<and> ev_subject env = sj \<and> ev_recipients env \<noteq> [] \<and>
       hash_at (rt_ledger s) (ledger_id nid tenant sj) \<noteq> Some (state_hash (w_sha256 w) new_state) \<and>
       dict_get (rt_ledger s') (ledger_id nid tenant sj) = Some row \<and>
       lg_state_hash row = Some (state_hash (w_sha256 w) new_state) \<and> lg_last_event_id row = i
   | (None, s') \<Rightarrow> stays_silent s s'"
proof -
  obtain r s' where run: "run_state (emit_state w rt name tenant new_state subj l fallback) s = (r, s')" by (metis surj_pair)
  show ?thesis
    using wp_run [OF run emit_state_spec] unfolding run
    by (cases r) (simp, clarsimp simp: state_fired_def, blast)
qed


definition ex_settings_row :: SettingsRow where
  "ex_settings_row = \<lparr>sr_id = 3, sr_name = TIER_CHANGED, sr_type = NT_NOTIFICATION, sr_module = NM_TIER, sr_scope = SCOPE_INSTITUTION,
     sr_channels = [''email''], sr_recipient_roles = [(''ADMIN'', True)], sr_bands = []\<rparr>"

definition ex_subs :: TenantSubscriptions where
  "ex_subs = \<lparr>ts_tenant_id = ''7'', ts_built_at = [], ts_rows = [(''TIER_CHANGED'', \<lparr>se_subscribed = True, se_recipients = [''3'']\<rparr>)]\<rparr>"

definition ex_warm :: Rt where
  "ex_warm = ex_rt\<lparr>rt_settings_l1 := [(SETTINGS_KEY, \<lparr>sn_built_at = [], sn_rows = [(''TIER_CHANGED'', ex_settings_row)]\<rparr>, 60000000)],
     rt_subs_l1 := [(''7'', ex_subs, 60000000)]\<rparr>"


end
