(* ===== verification/Notif_Bands_Props.thy ===== *)
theory Notif_Bands_Props
  imports Notif_Pipeline_Props
begin

text \<open>
  What a batch of band evaluations promises.  Its effect on the ledger is that of a sequence of operations
  of the abstract gate, every event it hands to Kafka belongs to a claim that won there, and every won claim
  is either part of such an event or on record in the failure log.
\<close>

section \<open>Quiet steps\<close>

text \<open>The decisions to fire.\<close>

definition fires :: "Rt \<Rightarrow> nat" where
  "fires s = length (filter (\<lambda>(_, d). d = DEC_FIRE) (rt_decisions s))"

definition quiet :: "Rt \<Rightarrow> Rt \<Rightarrow> bool" where
  "quiet s s' \<longleftrightarrow> accounted s \<le> accounted s' \<and> fires s' = fires s \<and> rt_kafka s' = rt_kafka s \<and> rt_ledger s' = rt_ledger s"

interpretation quiets: frame quiet
  by unfold_locales (auto simp: quiet_def)

lemma cache_quiet: "cache_only s s' \<Longrightarrow> quiet s s'"
  by (simp add: cache_only_def quiet_def fires_def)

lemma keeps_cache_quiet: "keeps cache_only m \<Longrightarrow> keeps quiet m"
  unfolding keeps_def by (blast intro: wp_mono cache_quiet)

lemma decision_quiet: "d \<noteq> DEC_FIRE \<Longrightarrow> keeps quiet (decision name d n)"
  by (simp add: keeps_def wp_decision quiet_def fires_def accounted_def)

lemmas quiet_calls = keeps_cache_quiet [OF record_failure_cache] keeps_cache_quiet [OF cache_read_cache]
  keeps_cache_quiet [OF uuid4_cache] keeps_cache_quiet [OF details_of_cache] keeps_cache_quiet [OF write_ledger_cache]

declare quiet_calls [intro!, simp]

lemma validate_quiet [intro!, simp]: "keeps quiet (validate w rt name t subj st)"
  unfolding keeps_def using validate_spec by (blast intro: wp_mono cache_quiet)

lemma evaluation_of_quiet [intro!, simp]: "keeps quiet (evaluation_of w rt item)"
  by (simp add: evaluation_of_def Let_def quiets.keeps_bind)

lemma narrow_quiet [intro!, simp]: "keeps quiet (narrow w sn e)"
  unfolding narrow_def
  by (intro quiets.keeps_option quiets.keeps_if quiets.keeps_bind decision_quiet) auto

lemma decided_quiet:
  "keeps quiet (if d = DEC_FIRE \<or> d = DEC_RESET then State_Monad.return a else do { decision name d 1; State_Monad.return b })"
  by (auto intro!: decision_quiet)

lemma evaluate_quiet [intro!, simp]: "keeps quiet (evaluate w rt rd sn now e)"
  unfolding evaluate_def Let_def
  by (intro quiets.keeps_option decided_quiet quiets.keeps_if quiets.keeps_bind) auto

lemma backfill_quiet [intro!, simp]: "keeps quiet (backfill w rt es)"
  unfolding backfill_def
  by (intro quiets.keeps_list quiets.keeps_bind quiets.keeps_traverse quiets.keeps_if quiets.keeps_option) auto

lemma prepare_quiet [intro!, simp]: "keeps quiet (prepare w rt now ids es)"
  by (induction es arbitrary: ids) (auto split: prod.split)

lemma candidates_of_quiet [intro!, simp]: "keeps quiet (candidates_of w es)"
  unfolding candidates_of_def by (intro quiets.keeps_bind quiets.keeps_option quiets.keeps_traverse) auto

lemma active_of_quiet [intro!, simp]: "keeps quiet (active_of w rt rd sn now es)"
  unfolding active_of_def by (intro quiets.keeps_bind quiets.keeps_traverse) auto

section \<open>The gate behind the claims\<close>

lemma gate_run_append:
  "gate_run claim rearm (xs @ ys) s =
     (fst (gate_run claim rearm xs s) @ fst (gate_run claim rearm ys (snd (gate_run claim rearm xs s))),
      snd (gate_run claim rearm ys (snd (gate_run claim rearm xs s))))"
  by (induction xs arbitrary: s) simp_all

text \<open>The events whose claims won, in order.\<close>

fun won_ids :: "((datetime \<times> string, lkey, rat) gate_op \<times> bool) list \<Rightarrow> string list" where
  "won_ids [] = []"
| "won_ids ((Claim i k b, won) # xs) = (if won then snd i # won_ids xs else won_ids xs)"
| "won_ids ((Rearm i k, won) # xs) = won_ids xs"

lemma won_ids_append [simp]: "won_ids (xs @ ys) = won_ids xs @ won_ids ys"
  by (induction xs rule: won_ids.induct) simp_all

text \<open>Some operations of the gate lead from one ledger to the other, and the given events are among the winners.\<close>

definition gated :: "int \<Rightarrow> ledger \<Rightarrow> string set \<Rightarrow> ledger \<Rightarrow> bool" where
  "gated c tbl ids tbl' \<longleftrightarrow> (\<exists>ops. tbl' = snd (gate_run gate_claim (gate_rearm c) ops tbl) \<and>
     ids \<subseteq> set (won_ids (fst (gate_run gate_claim (gate_rearm c) ops tbl))))"

lemma gatedI: "tbl' = snd (gate_run gate_claim (gate_rearm c) ops tbl) \<Longrightarrow>
    ids \<subseteq> set (won_ids (fst (gate_run gate_claim (gate_rearm c) ops tbl))) \<Longrightarrow> gated c tbl ids tbl'"
  unfolding gated_def by blast

lemma gated_refl [simp]: "gated c tbl {} tbl"
  by (rule gatedI [of _ _ "[]"]) simp_all

lemma gated_trans:
  assumes "gated c t A u" "gated c u B v"
  shows "gated c t (A \<union> B) v"
proof -
  obtain xs ys where "u = snd (gate_run gate_claim (gate_rearm c) xs t)" "v = snd (gate_run gate_claim (gate_rearm c) ys u)"
    "A \<subseteq> set (won_ids (fst (gate_run gate_claim (gate_rearm c) xs t)))" "B \<subseteq> set (won_ids (fst (gate_run gate_claim (gate_rearm c) ys u)))"
    using assms unfolding gated_def by blast
  then show ?thesis by (intro gatedI [of _ _ "xs @ ys"]) (auto simp: gate_run_append)
qed

lemma gated_mono: "gated c t A u \<Longrightarrow> B \<subseteq> A \<Longrightarrow> gated c t B u"
  unfolding gated_def by blast

lemma claim_band_gated:
  "claim_band now nid ref b i tbl = Inr (st, tbl') \<Longrightarrow> gated c tbl (if st \<noteq> None then {i} else {}) tbl'"
  by (rule gatedI [of _ _ "[Claim (now, i) (ref_id nid ref) b]"])
    (auto simp: claim_band_def first_state_def gate_claim_def split: sum.splits)

lemma reset_band_gated:
  "reset_band now nid ref c tbl = Inr (st, tbl') \<Longrightarrow> gated c tbl {} tbl'"
  by (rule gatedI [of _ _ "[Rearm (now, []) (ref_id nid ref)]"])
    (auto simp: reset_band_def first_state_def gate_rearm_def split: sum.splits)

section \<open>The claims of a batch\<close>

text \<open>What a stretch of the claims does, with the evaluations it adds to the fired ones.\<close>

definition claimed :: "NotificationRuntime \<Rightarrow> Evaluation list \<Rightarrow> Rt \<Rightarrow> Rt \<Rightarrow> bool" where
  "claimed rt new s s' \<longleftrightarrow> accounted s \<le> accounted s' \<and> rt_kafka s' = rt_kafka s \<and> fires s' = fires s + length new \<and>
     gated (notif_monitor_cooldown_s (nr_config rt)) (rt_ledger s) ((the \<circ> ea_event_id) ` set new) (rt_ledger s')"

lemma claimed_trans: "claimed rt xs s t \<Longrightarrow> claimed rt ys t u \<Longrightarrow> claimed rt (xs @ ys) s u"
  unfolding claimed_def image_Un set_append by (auto intro: gated_trans)

lemma quiet_claimed: "quiet s s' \<Longrightarrow> claimed rt [] s s'"
  by (simp add: quiet_def claimed_def)

lemma claimed_quiet: "claimed rt xs s t \<Longrightarrow> quiet t u \<Longrightarrow> claimed rt xs s u"
  using claimed_trans [OF _ quiet_claimed, of rt xs s t u] by simp

lemma external_quiet [intro!, simp]: "keeps quiet (external w (\<lambda>s. ((), s)))"
  by (intro keeps_cache_quiet external_cache) (simp add: caches.refl)

lemma query_quiet [intro!, simp]: "keeps quiet (query w f)"
  by (intro keeps_cache_quiet) simp

lemma claim_tx_spec:
  "wp (claim_tx w rt e) (\<lambda>r s'. accounted s' = accounted s \<and> rt_kafka s' = rt_kafka s \<and> fires s' = fires s \<and>
     gated (notif_monitor_cooldown_s (nr_config rt)) (rt_ledger s)
       (if ea_decision e = DEC_FIRE \<and> (\<exists>st. r = Inr (Some st)) then {the (ea_event_id e)} else {}) (rt_ledger s')) s"
  unfolding claim_tx_def
proof (rule wp_transact, goal_cases)
  case (2 st s')
  then obtain tbl where c: "(if ea_decision e = DEC_FIRE
       then claim_band (utc_now w (tick s)) (sr_id (the (ea_row e))) (ea_ref e) (bd_value (the (ea_band e))) (the (ea_event_id e)) (rt_ledger s)
       else reset_band (utc_now w (tick s)) (sr_id (the (ea_row e))) (ea_ref e) (notif_monitor_cooldown_s (nr_config rt)) (rt_ledger s)) = Inr (st, tbl)"
    and s': "s' = (tick s)\<lparr>rt_ledger := tbl\<rparr>"
    by (auto split: sum.splits if_splits)
  have "accounted s' = accounted s" "fires s' = fires s"
    by (simp_all add: s' accounted_def fires_def) (simp add: tick_def)
  moreover have "gated (notif_monitor_cooldown_s (nr_config rt)) (rt_ledger s)
      (if ea_decision e = DEC_FIRE \<and> st \<noteq> None then {the (ea_event_id e)} else {}) tbl"
    using c by (cases "ea_decision e = DEC_FIRE") (auto dest: claim_band_gated reset_band_gated)
  ultimately show ?case by (auto simp: s' fires_def elim: gated_mono)
qed (simp add: fires_def)

lemma claim_lost_spec: "wp (claim_lost w e acc) (\<lambda>(_, acc') s'. cm_fired acc' = cm_fired acc \<and> quiet s s') s"
  unfolding claim_lost_def wp_bind
proof (rule wp_keeps [OF decision_quiet], simp, rule wp_keeps [OF query_quiet], goal_cases)
  case (1 _ s1 q s2)
  then have q: "quiet s s2" by (auto intro: quiets.trans)
  show ?case
  proof (cases q)
    case (Inr st)
    then show ?thesis using q by simp (rule wp_keeps [OF external_quiet], auto intro: quiets.trans)
  qed (use q in simp)
qed

lemma claim_one_spec:
  "wp (claim_one w rt e acc) (\<lambda>(_, acc') s'. \<exists>new. cm_fired acc' = cm_fired acc @ new \<and> set new \<subseteq> {e} \<and> claimed rt new s s') s"
  unfolding claim_one_def wp_bind
proof (rule wp_mono [OF claim_tx_spec], goal_cases)
  case (1 r s1)
  consider x where "r = Inl x" | "r = Inr None" | st where "r = Inr (Some st)" by (metis not_None_eq sumE)
  then show ?case
  proof cases
    case (1 x)
    then show ?thesis using \<open>_ \<and> _\<close> by (auto simp: claimed_def elim: gated_mono)
  next
    case 2
    then have c: "claimed rt [] s s1" using 1 by (simp add: claimed_def)
    show ?thesis
      unfolding 2 by simp (rule wp_mono [OF claim_lost_spec], use claimed_quiet [OF c] in auto)
  next
    case (3 st)
    then show ?thesis
      using 1 by (auto simp: wp_decision claimed_def fires_def accounted_def elim: gated_mono)
  qed
qed

lemma claim_loop_spec:
  "wp (claim_loop w rt es acc) (\<lambda>(_, acc') s'. \<exists>new. cm_fired acc' = cm_fired acc @ new \<and> set new \<subseteq> set es \<and> claimed rt new s s') s"
proof (induction es arbitrary: acc s)
  case Nil
  then show ?case by (simp add: quiet_claimed quiets.refl)
next
  case (Cons e es)
  show ?case
    unfolding claim_loop.simps wp_bind
  proof (rule wp_mono [OF claim_one_spec], goal_cases)
    case (1 p s1)
    obtain exc acc1 new where p: "p = (exc, acc1)" and f: "cm_fired acc1 = cm_fired acc @ new" "set new \<subseteq> {e}" and c: "claimed rt new s s1"
      using 1 by (cases p) auto
    have rest: "wp (claim_loop w rt es acc1) (\<lambda>(_, acc') s'. \<exists>new. cm_fired acc' = cm_fired acc @ new \<and> set new \<subseteq> set (e # es) \<and> claimed rt new s s') s2"
      if "quiet s1 s2" for s2
      by (rule wp_mono [OF Cons.IH]) (use f claimed_trans [OF claimed_quiet [OF c that]] in \<open>fastforce\<close>)
    show ?case
    proof (cases exc)
      case None
      then show ?thesis using rest [OF quiets.refl] by (simp add: p)
    next
      case (Some x)
      show ?thesis
        unfolding p Some prod.case option.case wp_bind
      proof (rule wp_keeps [OF external_quiet], goal_cases)
        case (1 rb s2)
        show ?case
        proof (cases rb)
          case (Inl y)
          then show ?thesis using f claimed_quiet [OF c 1] by auto
        next
          case (Inr u)
          show ?thesis
            unfolding Inr sum.case wp_bind record_claim_failure_def
            by (rule wp_keeps [OF quiet_calls(1)], rule rest) (rule quiets.trans [OF 1])
        qed
      qed
    qed
  qed
qed

lemma claim_all_spec:
  "wp (claim_all w rt es) (\<lambda>acc s'. set (cm_fired acc) \<subseteq> set es \<and> claimed rt (cm_fired acc) s s') s"
  unfolding claim_all_def wp_bind
proof (rule wp_keeps [OF external_quiet], goal_cases)
  case (1 opened s1)
  let ?Q = "\<lambda>(_ :: err option, acc) s'. set (cm_fired acc) \<subseteq> set es \<and> claimed rt (cm_fired acc) s s'"
  have loop: "wp (case opened of
         Inl x \<Rightarrow> State_Monad.return (Some x, no_claims)
       | Inr _ \<Rightarrow> do {
           (exc, acc) \<leftarrow> claim_loop w rt es no_claims;
           closed \<leftarrow> external w (\<lambda>s. ((), s));
           State_Monad.return (case closed of Inl x \<Rightarrow> Some x | Inr _ \<Rightarrow> exc, acc) }) ?Q s1"
  proof (cases opened)
    case (Inl x)
    then show ?thesis using quiet_claimed [OF 1] by (simp add: no_claims_def)
  next
    case (Inr u)
    show ?thesis
      unfolding Inr sum.case wp_bind
    proof (rule wp_mono [OF claim_loop_spec], clarify, goal_cases)
      case (1 exc acc s2 new)
      then have "claimed rt (cm_fired acc) s s2"
        using claimed_trans [OF quiet_claimed [OF \<open>quiet s s1\<close>]] by (simp add: no_claims_def)
      then show ?case
        using 1 by simp (rule wp_keeps [OF external_quiet], auto simp: no_claims_def intro: claimed_quiet)
    qed
  qed
  show ?case
    by (rule wp_mono [OF loop], clarify, simp only: wp_bind prod.case,
        rule wp_keeps [OF quiets.keeps_option [OF quiets.keeps_return quiets.keeps_traverse]],
        simp add: record_claim_failure_def,
        rule wp_keeps [OF quiets.keeps_if [OF quiet_calls(5) quiets.keeps_return]])
      (auto intro: claimed_quiet)
qed

section \<open>Groups\<close>

lemma groups_fold:
  fixes d :: "(string, Evaluation list) dict"
  defines "g \<equiv> (\<lambda>e d. dict_set (the (ea_event_id e)) ((case dict_get d (the (ea_event_id e)) of Some ms \<Rightarrow> ms | None \<Rightarrow> []) @ [e]) d)"
  assumes "\<forall>(k, ms) \<in> set d. ms \<noteq> []"
  shows "sum_list (map (length \<circ> snd) (fold g es d)) = sum_list (map (length \<circ> snd) d) + length es"
    "\<forall>(k, ms) \<in> set (fold g es d). ms \<noteq> []" "set (concat (map snd (fold g es d))) = set (concat (map snd d)) \<union> set es"
proof -
  have sum1: "sum_list (map (length \<circ> snd) (g e d)) = sum_list (map (length \<circ> snd) d) + 1" for e and d :: "(string, Evaluation list) dict"
    using sum_dict_set [of "length \<circ> snd" length "the (ea_event_id e)" "(case dict_get d (the (ea_event_id e)) of Some ms \<Rightarrow> ms | None \<Rightarrow> []) @ [e]" d]
    by (auto simp: g_def split: option.splits)
  have ne1: "\<forall>(k, ms) \<in> set (g e d). ms \<noteq> []" if "\<forall>(k, ms) \<in> set d. ms \<noteq> []" for e and d :: "(string, Evaluation list) dict"
    using that by (fastforce simp: g_def dest!: set_dict_set)
  have set1: "set (concat (map snd (g e d))) = set (concat (map snd d)) \<union> {e}" for e and d :: "(string, Evaluation list) dict"
  proof -
    have "set (concat (map snd (dict_set k ((case dict_get d k of Some ms \<Rightarrow> ms | None \<Rightarrow> []) @ [e]) d))) = set (concat (map snd d)) \<union> {e}" for k
    proof (induction d)
      case (Cons p d)
      then show ?case by (cases p; cases "k = fst p") simp_all
    qed simp
    then show ?thesis by (simp add: g_def)
  qed
  show "sum_list (map (length \<circ> snd) (fold g es d)) = sum_list (map (length \<circ> snd) d) + length es"
    by (induction es arbitrary: d) (simp_all add: sum1)
  show "\<forall>(k, ms) \<in> set (fold g es d). ms \<noteq> []"
    using assms(2)
  proof (induction es arbitrary: d)
    case (Cons e es)
    show ?case using Cons.IH [OF ne1 [OF Cons.prems]] by simp
  qed simp
  show "set (concat (map snd (fold g es d))) = set (concat (map snd d)) \<union> set es"
    by (induction es arbitrary: d) (simp_all add: set1 del: set_concat)
qed

lemma highest_in: "highest e ms \<in> insert e (set ms)"
  by (induction e ms rule: highest.induct) (auto split: if_splits)

text \<open>The number of claims an event stands for.\<close>

definition covered :: "Envelope \<Rightarrow> nat" where
  "covered env = length (failure_subjects env)"

lemma group_details_cache [intro!, simp]: "keeps cache_only (group_details w rt h ms)"
  unfolding group_details_def by (intro caches.keeps_option caches.keeps_bind caches.keeps_traverse) auto

lemma deliver_group_spec:
  assumes "ms \<noteq> []"
  shows "wp (deliver_group w rt now ms) (\<lambda>r s'. publish_only s s' \<and>
     (case r of
        None \<Rightarrow> rt_kafka s' = rt_kafka s \<and> accounted s + length ms \<le> accounted s'
      | Some i \<Rightarrow> i \<in> (the \<circ> ea_event_id) ` set ms \<and> (\<exists>env. rt_kafka s' = rt_kafka s @ [message rt env] \<and> ev_event_id env = i \<and>
          ev_recipients env \<noteq> [] \<and> covered env = length ms))) s"
proof -
  define e where "e = highest (hd ms) (tl ms)"
  have e: "e \<in> set ms" using highest_in [of "hd ms" "tl ms"] assms by (cases ms) (auto simp: e_def)
  define d where "d = (\<lambda>details. (plain_delivery (ea_tenant e) (if length ms = 1 then lr_subject (ea_ref e) else []) (the (ea_event_id e)) now details
           (bd_severity (the (ea_band e))))
        \<lparr>dl_band := ea_band e, dl_observed := Some (bi_observed (ea_item e)),
         dl_extra_user_ids := (case ea_subs e of Some x \<Rightarrow> se_recipients (subscription_entry x (sp_name (ea_spec e))) | None \<Rightarrow> []),
         dl_subjects := (if length ms = 1 then [] else map (lr_subject \<circ> ea_ref) ms)\<rparr>)"
  have m: "length (members_of (d x)) = length ms" "dl_event_id (d x) = the (ea_event_id e)" for x
    using assms by (auto simp: d_def members_of_def plain_delivery_def)
  have env: "ev_event_id (envelope_of row (d x) rs tn) = the (ea_event_id e)" "ev_recipients (envelope_of row (d x) rs tn) = rs"
    "covered (envelope_of row (d x) rs tn) = length ms" for x row rs tn
    by (simp add: envelope_of_def m(2), simp add: envelope_of_def, simp add: covered_def m(1))
  have body: "deliver_group w rt now ms = do {
      details \<leftarrow> (if length ms = 1 then State_Monad.return (ea_details e) else group_details w rt e ms);
      deliver w rt (the (ea_row e)) (d details) }"
    unfolding deliver_group_def Let_def d_def e_def by (rule refl)
  show ?thesis
    unfolding body wp_bind
  proof (rule wp_keeps [OF caches.keeps_if [OF caches.keeps_return group_details_cache]], goal_cases)
    case (1 details s1)
    show ?case
    proof (rule wp_mono [OF deliver_spec], goal_cases)
      case (1 r s2)
      then show ?case
        using \<open>cache_only s s1\<close> e m env by (cases r) (auto simp: publish_only_def cache_only_def)
    qed
  qed
qed

lemma somes_simps [simp]: "somes [] = []" "somes (None # xs) = somes xs" "somes (Some x # xs) = x # somes xs"
  by (simp_all add: somes_def)

text \<open>The deliveries of a list of groups.\<close>

definition published :: "NotificationRuntime \<Rightarrow> string list \<Rightarrow> Evaluation list list \<Rightarrow> Rt \<Rightarrow> Rt \<Rightarrow> bool" where
  "published rt sent groups s s' \<longleftrightarrow> publish_only s s' \<and> set sent \<subseteq> (the \<circ> ea_event_id) ` set (concat groups) \<and>
     (\<exists>envs. rt_kafka s' = rt_kafka s @ map (message rt) envs \<and> map ev_event_id envs = sent \<and>
        list_all (\<lambda>env. ev_recipients env \<noteq> []) envs \<and>
        sum_list (map covered envs) \<le> sum_list (map length groups) \<and>
        sum_list (map length groups) + accounted s \<le> sum_list (map covered envs) + accounted s')"

lemma published_Nil: "published rt [] [] s s"
  by (simp add: published_def pubs.refl)

lemma published_None:
  assumes "publish_only s s1" "rt_kafka s1 = rt_kafka s" "accounted s + length ms \<le> accounted s1" "published rt sent gs s1 s'"
  shows "published rt sent (ms # gs) s s'"
proof -
  obtain envs where "rt_kafka s' = rt_kafka s1 @ map (message rt) envs" "map ev_event_id envs = sent"
      "list_all (\<lambda>env. ev_recipients env \<noteq> []) envs" "sum_list (map covered envs) \<le> sum_list (map length gs)"
      "sum_list (map length gs) + accounted s1 \<le> sum_list (map covered envs) + accounted s'"
    using assms(4) unfolding published_def by blast
  moreover have "set sent \<subseteq> (the \<circ> ea_event_id) ` set (concat (ms # gs))" "publish_only s s'"
    using assms(1,4) unfolding published_def concat.simps set_append image_Un by (auto intro: pubs.trans)
  ultimately show ?thesis
    unfolding published_def using assms(2,3) by (intro conjI exI [of _ envs]) (assumption | simp)+
qed

lemma published_Some:
  assumes "publish_only s s1" "rt_kafka s1 = rt_kafka s @ [message rt env]" "ev_event_id env = i" "ev_recipients env \<noteq> []"
    "covered env = length ms" "i \<in> (the \<circ> ea_event_id) ` set ms" and rest: "published rt sent gs s1 s'"
  shows "published rt (i # sent) (ms # gs) s s'"
proof -
  obtain envs where "rt_kafka s' = rt_kafka s1 @ map (message rt) envs" "map ev_event_id envs = sent"
      "list_all (\<lambda>env. ev_recipients env \<noteq> []) envs" "sum_list (map covered envs) \<le> sum_list (map length gs)"
      "sum_list (map length gs) + accounted s1 \<le> sum_list (map covered envs) + accounted s'"
    using rest unfolding published_def by blast
  then have "\<exists>envs. rt_kafka s' = rt_kafka s @ map (message rt) envs \<and> map ev_event_id envs = i # sent \<and>
        list_all (\<lambda>env. ev_recipients env \<noteq> []) envs \<and> sum_list (map covered envs) \<le> sum_list (map length (ms # gs)) \<and>
        sum_list (map length (ms # gs)) + accounted s \<le> sum_list (map covered envs) + accounted s'"
    using assms(1-5) by (intro exI [of _ "env # envs"]) (auto simp: publish_only_def)
  moreover have "set sent \<subseteq> (the \<circ> ea_event_id) ` set (concat gs)" "publish_only s s'"
    using rest assms(1) unfolding published_def by (auto intro: pubs.trans)
  ultimately show ?thesis using assms(6) unfolding published_def by auto
qed

lemma deliver_groups_spec:
  assumes "[] \<notin> set gs"
  shows "wp (State_Monad.traverse_list (deliver_group w rt now) gs) (\<lambda>rs s'. published rt (somes rs) gs s s') s"
  using assms
proof (induction gs arbitrary: s)
  case (Cons ms gs)
  have "wp (deliver_group w rt now ms) (\<lambda>r s1. wp (State_Monad.traverse_list (deliver_group w rt now) gs)
      (\<lambda>rs s'. published rt (somes (r # rs)) (ms # gs) s s') s1) s"
  proof (rule wp_mono [OF deliver_group_spec], goal_cases)
    case (2 r s1)
    show ?case
    proof (rule wp_mono [OF Cons.IH], goal_cases)
      case (2 rs s')
      then show ?case
        using \<open>_ \<and> _\<close> published_None published_Some by (cases r) auto
    qed (use Cons.prems in simp)
  qed (use Cons.prems in auto)
  then show ?case by simp
qed (simp add: published_Nil)

section \<open>The whole batch\<close>

text \<open>The outcome of a batch that returned the given events.\<close>

definition batch_outcome :: "NotificationRuntime \<Rightarrow> string list \<Rightarrow> Rt \<Rightarrow> Rt \<Rightarrow> bool" where
  "batch_outcome rt sent s s' \<longleftrightarrow>
     gated (notif_monitor_cooldown_s (nr_config rt)) (rt_ledger s) (set sent) (rt_ledger s') \<and>
     (\<exists>envs. rt_kafka s' = rt_kafka s @ map (message rt) envs \<and> map ev_event_id envs = sent \<and>
        list_all (\<lambda>env. ev_recipients env \<noteq> []) envs \<and> fires s \<le> fires s' \<and>
        sum_list (map covered envs) \<le> fires s' - fires s \<and>
        fires s' - fires s + accounted s \<le> sum_list (map covered envs) + accounted s')"

lemma quiet_outcome: "quiet s s' \<Longrightarrow> batch_outcome rt [] s s'"
  unfolding batch_outcome_def by (auto simp: quiet_def)

lemma fire_all_spec:
  assumes q: "quiet s0 s"
  shows "wp (fire_all w rt now active) (\<lambda>sent s'. batch_outcome rt sent s0 s') s"
  unfolding fire_all_def wp_bind
proof (rule wp_keeps [OF prepare_quiet], rule wp_mono [OF claim_all_spec], goal_cases)
  case (1 es s1 acc s2)
  define gs where "gs = map snd (groups_of (cm_fired acc))"
  have gs: "[] \<notin> set gs" "sum_list (map length gs) = length (cm_fired acc)" "set (concat gs) = set (cm_fired acc)"
    using groups_fold [of "[]" "cm_fired acc"] by (auto simp: gs_def groups_of_def)
  have c: "claimed rt (cm_fired acc) s0 s2"
    using claimed_trans [OF quiet_claimed [OF quiets.trans [OF q 1(1)]]] 1(2) by fastforce
  show ?case
    unfolding gs_def [symmetric]
  proof (rule wp_mono [OF deliver_groups_spec [OF gs(1)]], goal_cases)
    case (1 rs s3)
    then have p: "published rt (somes rs) gs s2 s3" .
    then have "set (somes rs) \<subseteq> (the \<circ> ea_event_id) ` set (cm_fired acc)" "rt_ledger s3 = rt_ledger s2" "fires s3 = fires s2"
      by (auto simp: published_def gs(3) publish_only_def fires_def simp del: set_concat)
    with p c show ?case
      unfolding wp_return batch_outcome_def published_def gs(2)
      by (auto simp: claimed_def publish_only_def intro: gated_mono)
  qed
qed

lemma emit_band_batch_spec: "wp (emit_band_batch w rt items) (\<lambda>sent s'. batch_outcome rt sent s s') s"
  unfolding emit_band_batch_def Let_def wp_bind
proof (rule wp_keeps [OF quiets.keeps_traverse [OF evaluation_of_quiet]], goal_cases)
  case (1 evs s1)
  show ?case
  proof (cases "somes evs = []")
    case False
    show ?thesis
      unfolding if_not_P [OF False] wp_bind
    proof (rule wp_keeps [OF candidates_of_quiet], clarify, goal_cases)
      case (1 cands tenants s2)
      then have q: "quiet s s2" using \<open>quiet s s1\<close> by (rule quiets.trans [rotated])
      show ?case
      proof (cases "cands = []")
        case False
        show ?thesis
          unfolding if_not_P [OF False] wp_bind
        proof (rule wp_keeps [OF quiet_calls(2)], goal_cases)
          case (1 rd s3)
          then have q3: "quiet s s3" using q by (rule quiets.trans [rotated])
          show ?case
          proof (cases "cr_settings rd")
            case None
            then show ?thesis
              by simp (rule wp_keeps [OF quiets.keeps_traverse [OF quiet_calls(1)]], rule quiet_outcome, erule quiets.trans [OF q3])
          next
            case (Some sn)
            show ?thesis
              unfolding Some option.case wp_bind wp_gets
            proof (rule wp_keeps [OF active_of_quiet], goal_cases)
              case (1 active s4)
              then have "quiet s s4" by (rule quiets.trans [OF q3])
              then show ?case by (auto intro: fire_all_spec quiet_outcome)
            qed
          qed
        qed
      qed (use q in \<open>simp add: quiet_outcome\<close>)
    qed
  qed (use 1 in \<open>simp add: quiet_outcome\<close>)
qed

section \<open>The pre-check\<close>

definition passes_gate :: "SettingsSnapshot \<Rightarrow> TenantSubscriptions option \<Rightarrow> NotificationSpec \<Rightarrow> bool" where
  "passes_gate snapshot subs spec = (case snapshot_get snapshot (sp_name spec) of
      None \<Rightarrow> False
    | Some row \<Rightarrow> sr_bands row \<noteq> [] \<and> enabled row (if sp_platform_scoped spec then None else subs) \<and> someone_assigned row)"

lemma cache_read_warm:
  assumes "peek_settings w s = Some snapshot" "\<And>t. t \<in> set ts \<Longrightarrow> peek_subscriptions w t s \<noteq> None"
  shows "run_state (cache_read w rt ts [] ctx) s = (read_l1 w (fromkeys ts) [] s, s)"
proof -
  have "dict_get (hits (map (\<lambda>t. (t, peek_subscriptions w t s)) xs)) t = (if t \<in> set xs then peek_subscriptions w t s else None)" for t xs
    by (induction xs) (auto split: option.splits)
  then have "filter (\<lambda>t. dict_get (hits (map (\<lambda>t. (t, peek_subscriptions w t s)) (fromkeys ts))) t = None) (fromkeys ts) = []"
    using assms(2) by (auto simp: filter_empty_conv)
  then show ?thesis
    using assms(1) by (simp add: cache_read_def read_with_futures_def read_l1_def distinct_refs_def Let_def del: filter_filter)
qed

lemma can_fire_warm:
  "run_state (can_fire w rt t rd snapshot (Some subs) spec) s = (if passes_gate snapshot (Some subs) spec then Some (sp_name spec) else None, s)"
  by (auto simp: can_fire_def passes_gate_def Let_def split: option.split)

lemma names_warm:
  assumes "peek_settings w s = Some snapshot" "peek_subscriptions w t s = Some subs"
  shows "run_state (names_that_can_fire w rt names t) s =
    (map sp_name (filter (passes_gate snapshot (Some subs)) (filter is_band (somes (map get_spec names)))), s)"
proof -
  let ?specs = "filter is_band (somes (map get_spec names))"
  let ?ts = "if list_ex (check_needs_subs (Some snapshot)) ?specs then [t] else []"
  have read: "run_state (cache_read w rt ?ts [] ctx) s = (read_l1 w (fromkeys ?ts) [] s, s)" for ctx
    using assms by (intro cache_read_warm) (auto split: if_splits)
  have subs: "py_or_option (dict_get (cr_subscriptions (read_l1 w (fromkeys ?ts) [] s)) t) (peek_subscriptions w t s) = Some subs"
    using assms(2) by (auto simp: read_l1_def py_or_option_def)
  have loop: "run_state (State_Monad.traverse_list (can_fire w rt t rd snapshot (Some subs)) specs) s =
      (map (\<lambda>spec. if passes_gate snapshot (Some subs) spec then Some (sp_name spec) else None) specs, s)" for rd specs
    by (induction specs) (simp_all add: can_fire_warm)
  have somes: "somes (map (\<lambda>spec. if passes_gate snapshot (Some subs) spec then Some (sp_name spec) else None) specs) =
      map sp_name (filter (passes_gate snapshot (Some subs)) specs)" for specs
    by (induction specs) simp_all
  have settings: "cr_settings (read_l1 w (fromkeys ?ts) [] s) = Some snapshot"
    using assms(1) by (simp add: read_l1_def)
  show ?thesis
    unfolding names_that_can_fire_def Let_def
    using assms(1) by (simp add: read [simplified] subs [simplified] settings [simplified] loop somes del: filter_filter)
qed

lemma narrow_out:
  assumes "peek_subscriptions w (ea_tenant e) s = Some subs" "\<not> sp_platform_scoped (ea_spec e)" "\<not> passes_gate snapshot (Some subs) (ea_spec e)"
  shows "wp (narrow w snapshot e) (\<lambda>r s'. r = None \<and> quiet s s') s"
  using assms keeps_run [OF decision_quiet]
  by (auto simp: narrow_def passes_gate_def wp_decision quiet_def fires_def accounted_def split: option.split)

lemma evaluation_of_spec:
  "wp (evaluation_of w rt item) (\<lambda>v s'. cache_only s s' \<and> (case v of None \<Rightarrow> True | Some e \<Rightarrow> s' = s \<and>
     (\<exists>spec. get_spec (bi_name item) = Some spec \<and> ea_spec e = spec \<and>
        (\<not> sp_platform_scoped spec \<longrightarrow> ea_tenant e = (case bi_tenant_id item of Some t \<Rightarrow> t | None \<Rightarrow> []))))) s"
  unfolding evaluation_of_def Let_def wp_bind
proof (rule wp_mono [OF validate_spec], goal_cases)
  case (1 v s')
  then show ?case by (cases v) (auto simp: LedgerRef_of_def split: option.splits)
qed

lemma batch_quiet:
  assumes "peek_settings w s = Some snapshot" "peek_subscriptions w t s = Some subs" "bi_tenant_id item = Some t"
    "get_spec (bi_name item) = Some spec" "\<not> sp_platform_scoped spec" "\<not> passes_gate snapshot (Some subs) spec"
  shows "wp (emit_band_batch w rt [item]) (\<lambda>sent s'. sent = [] \<and> quiet s s') s"
  unfolding emit_band_batch_def Let_def State_Monad.traverse_list.simps wp_bind wp_return
proof (rule wp_mono [OF evaluation_of_spec], goal_cases)
  case (1 v s1)
  show ?case
  proof (cases v)
    case None
    then show ?thesis using 1 by (simp add: cache_quiet)
  next
    case (Some e)
    have e: "s1 = s" "ea_spec e = spec" "ea_tenant e = t" using 1 Some assms(3-5) by auto
    have "wp (narrow w snapshot e) (\<lambda>r s'. r = None \<and> quiet s s') s"
      using assms e by (intro narrow_out) auto
    then show ?thesis
      unfolding Some e(1) using assms(1)
      by (simp add: candidates_of_def) (erule wp_mono, simp)
  qed
qed

section \<open>Properties\<close>

text \<open>
  C4: Whatever fails, the effect of \<open>emit_band_batch\<close> on the ledger is that of some sequence of claims and
  re-arms of the abstract gate, and every event id it returns is the id of a claim that won there.
\<close>

theorem band_batch_refines_gate:
  "case run_state (emit_band_batch w rt items) s of (sent, s') \<Rightarrow>
     \<exists>ops. rt_ledger s' = snd (gate_run gate_claim (gate_rearm (notif_monitor_cooldown_s (nr_config rt))) ops (rt_ledger s)) \<and>
       set sent \<subseteq> set (won_ids (fst (gate_run gate_claim (gate_rearm (notif_monitor_cooldown_s (nr_config rt))) ops (rt_ledger s))))"
  using emit_band_batch_spec [of w rt items s]
  by (auto simp: wp_def batch_outcome_def gated_def split: prod.splits)


text \<open>
  The pre-check and the batch agree.  With the settings and the tenant's subscription in memory, a
  notification that \<open>names_that_can_fire\<close> leaves out is not published when it is evaluated all the same, whatever
  the observed value, and the ledger is not touched.
\<close>

lemma precheck_agrees_with_batch:
  assumes "peek_settings w s = Some snapshot" "peek_subscriptions w t s = Some subs"
    and "get_spec (bi_name item) = Some spec" "is_band spec" "\<not> sp_platform_scoped spec" "bi_tenant_id item = Some t"
    and "sp_name spec \<notin> set (fst (run_state (names_that_can_fire w rt [bi_name item] t) s))"
    and "run_state (emit_band_batch w rt [item]) s = (sent, s')"
  shows "sent = [] \<and> rt_ledger s' = rt_ledger s \<and> rt_kafka s' = rt_kafka s"
proof -
  have "\<not> passes_gate snapshot (Some subs) spec"
    using assms(3,4,7) by (auto simp: names_warm [OF assms(1,2)])
  from wp_run [OF assms(8) batch_quiet [OF assms(1,2,6,3,5) this]] show ?thesis by (simp add: quiet_def)
qed

definition ex_item :: BandItem where
  "ex_item = \<lparr>bi_name = ''QUOTA_THRESHOLD'', bi_tenant_id = Some ''7'', bi_subject = subj_obj (quota_subject ''2026-09'' ''asr''),
     bi_observed = \<lparr>ms_value = 85, ms_unit = UNIT_PERCENT\<rparr>, bi_details = None, bi_fallback_details = [], bi_group_details = None\<rparr>"

end
