(* ===== verification/Ppu_Alerts.thy ===== *)
theory Ppu_Alerts
  imports Notif_Bands_Props Handler
begin

text \<open>
  The pay-per-use handler on the notification pipeline of the same repository: the operations the handler
  calls (\<open>handler.py\<close> imports them from \<open>ai4i_core.kafka\<close>) are those of the pipeline, on its state.
\<close>

text \<open>\<open>lookup_error\<close> is the exception of the budget lookup, which the handler reports and swallows.\<close>

definition pipeline_ops :: "World \<Rightarrow> NotificationRuntime \<Rightarrow> err \<Rightarrow> Rt NotifOps" where
  "pipeline_ops w rt lookup_error =
     \<lparr>no_configured = True,
      no_can_fire = (\<lambda>names tenant. run_state (names_that_can_fire w rt (map NotificationName_value names) tenant)),
      no_emit = (\<lambda>items s. snd (run_state (emit_band_batch w rt items) s)),
      no_lookup_failed = (\<lambda>name tenant s. snd (run_state (record_failure w rt FS_SOURCE TENANT_LOOKUP_FAILED
        ((failure_args (NotificationName_value name) OP_TENANT_LOOKUP (Some lookup_error))\<lparr>fa_tenant_id := Some tenant\<rparr>)) s))\<rparr>"

lemma pipeline_configured: "no_configured (pipeline_ops w rt x)"
  by (simp add: pipeline_ops_def)

text \<open>What the alerts of a span do: claims and re-arms of the gate, and messages of winning claims.\<close>

definition alerts :: "NotificationRuntime \<Rightarrow> Rt \<Rightarrow> Rt \<Rightarrow> bool" where
  "alerts rt s s' \<longleftrightarrow> (\<exists>envs. rt_kafka s' = rt_kafka s @ map (message rt) envs \<and>
     gated (notif_monitor_cooldown_s (nr_config rt)) (rt_ledger s) (ev_event_id ` set envs) (rt_ledger s'))"

interpretation alerting: frame "alerts rt"
proof
  show "alerts rt s s" for s unfolding alerts_def by (rule exI [of _ "[]"]) simp
  show "alerts rt s u" if ab: "alerts rt s t" "alerts rt t u" for s t u
  proof -
    obtain xs ys where "rt_kafka t = rt_kafka s @ map (message rt) xs" "rt_kafka u = rt_kafka t @ map (message rt) ys"
      and g: "gated (notif_monitor_cooldown_s (nr_config rt)) (rt_ledger s) (ev_event_id ` set xs) (rt_ledger t)"
        "gated (notif_monitor_cooldown_s (nr_config rt)) (rt_ledger t) (ev_event_id ` set ys) (rt_ledger u)"
      using ab unfolding alerts_def by blast
    then show ?thesis
      using gated_trans [OF g] unfolding alerts_def by (intro exI [of _ "xs @ ys"]) (simp add: image_Un)
  qed
qed

lemma quiet_alerts: "quiet s s' \<Longrightarrow> alerts rt s s'"
  unfolding alerts_def by (rule exI [of _ "[]"]) (simp add: quiet_def)

lemma batch_alerts: "keeps (alerts rt) (emit_band_batch w rt items)"
  unfolding keeps_def
proof (intro allI)
  fix s
  show "wp (emit_band_batch w rt items) (\<lambda>_. alerts rt s) s"
    by (rule wp_mono [OF emit_band_batch_spec]) (auto simp: batch_outcome_def alerts_def)
qed

lemma names_quiet: "keeps quiet (names_that_can_fire w rt names t)"
  unfolding names_that_can_fire_def Let_def
  by (intro quiets.keeps_if quiets.keeps_bind quiets.keeps_option quiets.keeps_traverse) (auto simp: can_fire_def Let_def)

lemma run_alerts: "keeps (alerts rt) m \<Longrightarrow> alerts rt s (snd (run_state m s))"
  by (metis keeps_run surjective_pairing)

lemma run_quiet: "keeps quiet m \<Longrightarrow> quiet s (snd (run_state m s))"
  by (metis keeps_run surjective_pairing)

lemma lookup_failed_quiet: "quiet n (fold (\<lambda>name. no_lookup_failed (pipeline_ops w rt x) name t) names n)"
proof (induction names arbitrary: n)
  case (Cons name names)
  have "quiet n (no_lookup_failed (pipeline_ops w rt x) name t n)" by (simp add: pipeline_ops_def run_quiet)
  then show ?case using Cons.IH quiets.trans by fastforce
qed (simp add: quiets.refl)

lemma budget_items_quiet: "budget_items (pipeline_ops w rt x) env ctx auth core n = (r, n') \<Longrightarrow> quiet n n'"
proof -
  assume b: "budget_items (pipeline_ops w rt x) env ctx auth core n = (r, n')"
  obtain names n1 where c: "no_can_fire (pipeline_ops w rt x) BUDGET_NAMES (bc_tenant_id ctx) n = (names, n1)" by fastforce
  have q: "quiet n n1"
    using run_quiet [OF names_quiet, of n w rt "map NotificationName_value BUDGET_NAMES" "bc_tenant_id ctx"] c
    by (simp add: pipeline_ops_def)
  have "n' = n1 \<or> n' = fold (\<lambda>name. no_lookup_failed (pipeline_ops w rt x) name (bc_tenant_id ctx)) names n1"
    using b c by (auto simp: budget_items_def split: if_splits sum.splits option.splits)
  then show ?thesis using q lookup_failed_quiet quiets.trans by metis
qed

lemma publish_alerts:
  assumes "publish_usage_crossing_events (pipeline_ops w rt x) env ctx wr name auth db n = (r, n')"
  shows "alerts rt n n'"
proof -
  obtain bs n1 where b: "budget_items (pipeline_ops w rt x) env ctx auth db n = (bs, n1)" by fastforce
  have a: "alerts rt n n1" using quiet_alerts [OF budget_items_quiet [OF b]] .
  have "n' = n1 \<or> (\<exists>items. n' = no_emit (pipeline_ops w rt x) items n1)"
    using assms b by (fastforce simp: publish_usage_crossing_events_def pipeline_configured split: option.splits if_splits)
  moreover have "alerts rt n1 (no_emit (pipeline_ops w rt x) items n1)" for items
    by (simp add: pipeline_ops_def run_alerts [OF batch_alerts])
  ultimately show ?thesis using a alerting.trans by metis
qed

lemma bill_usage_alerts:
  assumes "bill_usage (pipeline_ops w rt x) env ctx s = (r, s')"
  shows "alerts rt (pu_notif s) (pu_notif s')"
  using assms
  by (auto simp: bill_usage_def Let_def alerting.refl split: prod.splits sum.splits option.splits if_splits dest!: publish_alerts)

lemma handle_alerts:
  assumes "handle_ppu_usage (pipeline_ops w rt x) svc env msg s = (r, s')"
  shows "alerts rt (pu_notif s) (pu_notif s')"
  using assms
  by (auto simp: handle_ppu_usage_def Let_def alerting.refl split: prod.splits sum.splits option.splits if_splits dest!: bill_usage_alerts)

end
