(* ===== verification/Auth_Models.thy ===== *)
theory Auth_Models
  imports Billing
begin

text \<open>
  The data of the auth-service that budget allocation and the API-key life cycle work on: tenants,
  applications and API keys (\<open>app/models\<close>), the roles of users, the budget ledger of platform-core
  (\<open>budget_usage\<close>, the table the pay-per-use consumer bills against) and the Redis hashes of API
  keys; the repositories that read them; the decimal arithmetic of the services; and the scope check
  every budget endpoint starts with.  A statement that raises leaves the transaction to be rolled
  back, so a step that may raise returns either the error or the new state.
\<close>

named_theorems auth_simps \<open>reads and updates of the auth-service tables\<close>

section \<open>Results\<close>

text \<open>The exceptions that leave the services; messages are left out, error codes are kept.\<close>

datatype auth_error =
    EntityNotFound                 \<comment> \<open>\<open>EntityNotFoundError\<close>, 404\<close>
  | Validation string              \<comment> \<open>\<open>ValidationError\<close>, 422, with its code\<close>
  | Http int string                \<comment> \<open>\<open>HTTPException\<close> with status and code\<close>
  | AppErr int string              \<comment> \<open>\<open>AppError\<close> with status and code\<close>
  | InsufficientPermissions        \<comment> \<open>403\<close>
  | InvalidAPIKey                  \<comment> \<open>\<open>InvalidAPIKeyError\<close>, 401\<close>
  | ResponseInvalid                \<comment> \<open>a response model refuses its own value: 500\<close>
  | InvalidOperation               \<comment> \<open>\<open>decimal.InvalidOperation\<close>: 500\<close>
  | OverflowError                  \<comment> \<open>a date past the year 9999: 500\<close>
  | NotNullViolation               \<comment> \<open>\<open>IntegrityError\<close> of a \<open>NOT NULL\<close> column: 500\<close>
  | DbFailed db_error
  | RedisFailed

definition rbind :: "('e, 'a) res \<Rightarrow> ('a \<Rightarrow> ('e, 'b) res) \<Rightarrow> ('e, 'b) res" where
  "rbind m f = (case m of Inl e \<Rightarrow> Inl e | Inr x \<Rightarrow> f x)"

lemma rbind_simps [simp]: "rbind (Inl e) f = Inl e" "rbind (Inr x) f = f x"
  by (simp_all add: rbind_def)

lemma rbind_Inr [simp]: "rbind m f = Inr y \<longleftrightarrow> (\<exists>x. m = Inr x \<and> f x = Inr y)"
  by (cases m) auto

lemma rbind_cong [fundef_cong]:
  "m = m' \<Longrightarrow> (\<And>x. m' = Inr x \<Longrightarrow> f x = g x) \<Longrightarrow> rbind m f = rbind m' g"
  by (cases m') auto

definition guard :: "bool \<Rightarrow> 'e \<Rightarrow> ('e, unit) res" where
  "guard b e = (if b then Inr () else Inl e)"

lemma guard_Inr [simp]: "guard b e = Inr u \<longleftrightarrow> b"
  by (simp add: guard_def)

text \<open>A loop over a list that threads a state and stops at the first element that raises.\<close>

fun res_fold :: "('a \<Rightarrow> 's \<Rightarrow> ('e, 's) res) \<Rightarrow> 'a list \<Rightarrow> 's \<Rightarrow> ('e, 's) res" where
  "res_fold f [] s = Inr s"
| "res_fold f (x # xs) s = rbind (f x s) (res_fold f xs)"

text \<open>A list built by a step that may raise.\<close>

fun res_map :: "('a \<Rightarrow> ('e, 'b) res) \<Rightarrow> 'a list \<Rightarrow> ('e, 'b list) res" where
  "res_map f [] = Inr []"
| "res_map f (x # xs) = rbind (f x) (\<lambda>y. rbind (res_map f xs) (\<lambda>ys. Inr (y # ys)))"

lemma res_fold_append: "res_fold f (xs @ ys) s = rbind (res_fold f xs s) (res_fold f ys)"
proof (induction xs arbitrary: s)
  case (Cons x xs)
  then show ?case by (cases "f x s") simp_all
qed simp

lemma res_fold_invariant:
  assumes "res_fold f xs s = Inr s'" "P s" "\<And>x s s'. x \<in> set xs \<Longrightarrow> P s \<Longrightarrow> f x s = Inr s' \<Longrightarrow> P s'"
  shows "P s'"
  using assms
proof (induction xs arbitrary: s)
  case (Cons x xs)
  from Cons.prems(1) obtain t where t: "f x s = Inr t" "res_fold f xs t = Inr s'" by auto
  have "P t" using Cons.prems t by auto
  with t(2) show ?case using Cons.prems(3) by (auto intro: Cons.IH)
qed simp

lemma res_map_length: "res_map f xs = Inr ys \<Longrightarrow> length ys = length xs"
  by (induction xs arbitrary: ys) auto

lemma res_map_list_all2: "res_map f xs = Inr ys \<Longrightarrow> list_all2 (\<lambda>x y. f x = Inr y) xs ys"
  by (induction xs arbitrary: ys) auto

text \<open>A dictionary comprehension \<open>{k(x): x for x in xs}\<close>.\<close>

definition dict_of :: "('a \<Rightarrow> 'k) \<Rightarrow> 'a list \<Rightarrow> ('k, 'a) dict" where
  "dict_of k xs = foldl (\<lambda>d x. dict_set (k x) x d) [] xs"

section \<open>Decimals\<close>

text \<open>
  A decimal of a request keeps its digits and its exponent, which the schema counts.  The arithmetic
  of the services is that of the default context, 28 significant digits, and \<open>quantize\<close> to two places
  raises \<open>InvalidOperation\<close> when the result needs more digits than that.
\<close>

type_synonym pydec = "int \<times> int"   \<comment> \<open>signed coefficient and exponent\<close>

definition dval :: "pydec \<Rightarrow> rat" where
  "dval d = of_int (fst d) * 10 powi snd d"

definition dadd :: "rat \<Rightarrow> rat \<Rightarrow> rat" where "dadd x y = dfix (x + y)"
definition dsub :: "rat \<Rightarrow> rat \<Rightarrow> rat" where "dsub x y = dfix (x - y)"
definition dmul :: "rat \<Rightarrow> rat \<Rightarrow> rat" where "dmul x y = dfix (x * y)"
definition ddiv :: "rat \<Rightarrow> rat \<Rightarrow> rat" where "ddiv x y = dfix (x / y)"

definition dsum :: "rat list \<Rightarrow> rat" where
  "dsum xs = foldl dadd 0 xs"

definition round_down :: "rat \<Rightarrow> int" where
  "round_down x = (if 0 \<le> x then \<lfloor>x\<rfloor> else \<lceil>x\<rceil>)"

definition quantize :: "(rat \<Rightarrow> int) \<Rightarrow> rat \<Rightarrow> (auth_error, rat) res" where
  "quantize rnd x = (let c = rnd (x * 100) in if \<bar>c\<bar> < 10 ^ 28 then Inr (of_int c / 100) else Inl InvalidOperation)"

text \<open>\<open>x or Decimal("0")\<close> of a nullable numeric column.\<close>

definition or_zero :: "rat option \<Rightarrow> rat" where
  "or_zero v = (case v of None \<Rightarrow> 0 | Some x \<Rightarrow> x)"

section \<open>Rows\<close>

datatype ApplicationStatus = APP_ACTIVE | APP_INACTIVE

datatype TenantStatus = PENDING | ACTIVE | SUSPENDED | DEACTIVATED

record Tenant =
  tn_id :: int
  tn_name :: string
  tn_organisation :: string
  tn_status :: TenantStatus
  tn_tier_id :: "string option"
  tn_allocated_budget :: "rat option"                 \<comment> \<open>\<open>NUMERIC(15, 2)\<close>\<close>
  tn_budget_effective_from :: "datetime option"
  tn_budget_effective_to :: "datetime option"
  tn_updated_by :: "string option"

record Application =
  ap_id :: int
  ap_tenant_id :: int
  ap_name :: string
  ap_description :: "string option"
  ap_domain :: "string option"
  ap_allocated_percentage :: "rat option"             \<comment> \<open>\<open>NUMERIC(5, 2)\<close>\<close>
  ap_allocated_budget :: "rat option"                 \<comment> \<open>\<open>NUMERIC(15, 2)\<close>\<close>
  ap_status :: ApplicationStatus
  ap_policy_id :: "int list option"
  ap_service_fallbacks :: "(string, string list) dict"
  ap_created_by :: "string option"
  ap_updated_by :: "string option"

text \<open>
  A value of the cached payload of a key: the JSON column \<open>cached_data\<close> holds numbers, texts, the
  permission list and nulls; in the Redis hash everything but the permissions is text, and the
  permissions are the JSON text of the list, read back by \<open>get_api_key_cache\<close>.
\<close>

datatype cell = C_int int | C_str string | C_perms "int list" | C_null

type_synonym payload = "(string, cell) dict"

record APIKey =
  ak_id :: int
  ak_application_id :: int
  ak_key_name :: string
  ak_api_key :: string
  ak_allocated_percentage :: "rat option"             \<comment> \<open>\<open>NUMERIC(5, 2)\<close>\<close>
  ak_allocated_budget :: "rat option"                 \<comment> \<open>\<open>NUMERIC(15, 2)\<close>\<close>
  ak_permissions :: "int list"
  ak_expires_at :: "datetime option"
  ak_is_active :: bool
  ak_created_at :: datetime
  ak_created_by :: "string option"
  ak_updated_by :: "string option"
  ak_cached_data :: "payload option"
  ak_rotated_key :: "string option"
  ak_rotated_key_expires_at :: "datetime option"
  ak_rotated_at :: "datetime option"

record User =
  us_id :: string
  us_tenant_id :: "int option"

section \<open>State\<close>

text \<open>
  The tables of the auth database, the ledger \<open>budget_usage\<close> in the database of platform-core, and
  the Redis hashes of API keys under their key values.
\<close>

record AuthState =
  au_tenants :: "Tenant list"
  au_applications :: "Application list"
  au_keys :: "APIKey list"
  au_roles :: "(string, string list) dict"            \<comment> \<open>role names of a user id\<close>
  au_budget_usage :: "(int, BudgetRow) dict"          \<comment> \<open>by API key id\<close>
  au_redis :: "(string, payload \<times> expiry) dict"

text \<open>
  What the environment does to one request: whether a platform-core session was configured, whether
  its reads and its writes succeed, whether Redis answers, and the instant at which it runs.
\<close>

record Env =
  en_core_db :: bool
  en_core_read :: bool
  en_core_write :: bool
  en_redis :: bool
  en_now :: datetime

section \<open>Repositories\<close>

text \<open>Ids are \<open>int4\<close> primary keys: a lookup by any other number answers \<open>None\<close> without a query.\<close>

definition INT4_MAX :: int where "INT4_MAX = 2 ^ 31 - 1"

definition is_int4_id :: "int option \<Rightarrow> bool" where
  "is_int4_id v = (case v of None \<Rightarrow> False | Some i \<Rightarrow> 0 < i \<and> i \<le> INT4_MAX)"

definition tenant_by_id :: "AuthState \<Rightarrow> int \<Rightarrow> Tenant option" where
  "tenant_by_id s i = (if is_int4_id (Some i) then find (\<lambda>t. tn_id t = i) (au_tenants s) else None)"

definition app_by_id :: "AuthState \<Rightarrow> int \<Rightarrow> Application option" where
  "app_by_id s i = (if is_int4_id (Some i) then find (\<lambda>a. ap_id a = i) (au_applications s) else None)"

definition app_by_id_for_tenant :: "AuthState \<Rightarrow> int \<Rightarrow> int \<Rightarrow> Application option" where
  "app_by_id_for_tenant s i t =
     (if is_int4_id (Some i) \<and> is_int4_id (Some t)
      then find (\<lambda>a. ap_id a = i \<and> ap_tenant_id a = t) (au_applications s) else None)"

definition key_by_id :: "AuthState \<Rightarrow> int \<Rightarrow> APIKey option" where
  "key_by_id s i = (if is_int4_id (Some i) then find (\<lambda>k. ak_id k = i) (au_keys s) else None)"

text \<open>\<open>list_by_tenant\<close>, and \<open>lock_tenant_applications\<close> with its row locks: in the order of the ids.\<close>

definition apps_by_tenant :: "AuthState \<Rightarrow> int \<Rightarrow> Application list" where
  "apps_by_tenant s t = sort_key ap_id (filter (\<lambda>a. ap_tenant_id a = t) (au_applications s))"

text \<open>\<open>list_by_application\<close> and \<open>list_by_applications\<close>: the newest key first.\<close>

definition keys_by_application :: "AuthState \<Rightarrow> int \<Rightarrow> APIKey list" where
  "keys_by_application s a =
     sort_key (\<lambda>k. - ak_created_at k) (filter (\<lambda>k. ak_application_id k = a) (au_keys s))"

definition keys_by_applications :: "AuthState \<Rightarrow> int list \<Rightarrow> APIKey list" where
  "keys_by_applications s as =
     (if as = [] then []
      else sort_key ak_application_id
             (sort_key (\<lambda>k. - ak_created_at k) (filter (\<lambda>k. ak_application_id k \<in> set as) (au_keys s))))"

definition update_app :: "int \<Rightarrow> (Application \<Rightarrow> Application) \<Rightarrow> AuthState \<Rightarrow> AuthState" where
  "update_app i f s = s\<lparr>au_applications := map (\<lambda>a. if ap_id a = i then f a else a) (au_applications s)\<rparr>"

definition update_key :: "int \<Rightarrow> (APIKey \<Rightarrow> APIKey) \<Rightarrow> AuthState \<Rightarrow> AuthState" where
  "update_key i f s = s\<lparr>au_keys := map (\<lambda>k. if ak_id k = i then f k else k) (au_keys s)\<rparr>"

text \<open>
  \<open>SELECT COALESCE(SUM(...), 0)\<close>: the sum of a numeric column is exact, and nulls are skipped.
\<close>

definition sql_sum :: "rat option list \<Rightarrow> rat" where
  "sql_sum vs = sum_list (map or_zero vs)"

definition sum_allocated_percentage :: "AuthState \<Rightarrow> int \<Rightarrow> rat" where
  "sum_allocated_percentage s t =
     sql_sum (map ap_allocated_percentage
       (filter (\<lambda>a. ap_tenant_id a = t \<and> ap_status a = APP_ACTIVE) (au_applications s)))"

definition sum_allocated_budget :: "AuthState \<Rightarrow> int \<Rightarrow> rat" where
  "sum_allocated_budget s t =
     sql_sum (map ap_allocated_budget
       (filter (\<lambda>a. ap_tenant_id a = t \<and> ap_status a = APP_ACTIVE) (au_applications s)))"

definition sum_api_key_allocated_percentage :: "AuthState \<Rightarrow> int \<Rightarrow> rat" where
  "sum_api_key_allocated_percentage s a =
     sql_sum (map ak_allocated_percentage
       (filter (\<lambda>k. ak_application_id k = a \<and> ak_is_active k) (au_keys s)))"

section \<open>Scope\<close>

text \<open>
  Only an administrator of the platform, or the administrator of that very institution, may touch
  its allocations; another institution's administrator is told that it does not exist.
\<close>

definition ROLE_ADMIN :: string where "ROLE_ADMIN = ''ADMIN''"
definition ROLE_TENANT_ADMIN :: string where "ROLE_TENANT_ADMIN = ''TENANT ADMIN''"

definition get_user_roles :: "AuthState \<Rightarrow> string \<Rightarrow> string list" where
  "get_user_roles s u = (case dict_get (au_roles s) u of None \<Rightarrow> [] | Some rs \<Rightarrow> rs)"

definition authorize_institution_scope :: "AuthState \<Rightarrow> User \<Rightarrow> int \<Rightarrow> (auth_error, unit) res" where
  "authorize_institution_scope s user t =
     (let roles = get_user_roles s (us_id user)
      in if ROLE_ADMIN \<in> set roles then Inr ()
         else if ROLE_TENANT_ADMIN \<in> set roles
              then if us_tenant_id user = Some t then Inr () else Inl (Http 404 ''NOT_FOUND'')
              else Inl InsufficientPermissions)"

section \<open>The budget ledger of platform-core\<close>

text \<open>
  \<open>fetch_budget_usage\<close> without \<open>raise_on_error\<close>: an unreachable ledger reads as empty.  A row's
  snapshot is not used by the callers modelled here.
\<close>

definition fetch_budget_usage :: "Env \<Rightarrow> AuthState \<Rightarrow> int list \<Rightarrow> (int, rat \<times> rat option) dict" where
  "fetch_budget_usage env s key_ids =
     (if key_ids = [] \<or> \<not> en_core_db env \<or> \<not> en_core_read env then []
      else map (\<lambda>(k, r). (k, (bu_used r, bu_snap r)))
             (filter (\<lambda>(k, _). k \<in> set key_ids) (au_budget_usage s)))"

definition used_of :: "(int, rat \<times> rat option) dict \<Rightarrow> int \<Rightarrow> rat" where
  "used_of usage k = (case dict_get usage k of None \<Rightarrow> 0 | Some (u, _) \<Rightarrow> u)"

text \<open>
  \<open>write_budget_snapshot\<close>: one upsert per key in one transaction.  The running total belongs to the
  billing consumer and is never touched; a failure rolls the whole batch back and is reported, not
  raised.
\<close>

definition upsert_snapshot :: "int \<Rightarrow> rat \<Rightarrow> (int, BudgetRow) dict \<Rightarrow> (int, BudgetRow) dict" where
  "upsert_snapshot k snap d =
     (case dict_get d k of
        None \<Rightarrow> dict_set k \<lparr>bu_used = 0, bu_snap = Some snap\<rparr> d
      | Some r \<Rightarrow> dict_set k (r\<lparr>bu_snap := Some snap\<rparr>) d)"

fun upsert_snapshots :: "(int \<times> rat) list \<Rightarrow> (int, BudgetRow) dict \<Rightarrow> (int, BudgetRow) dict option" where
  "upsert_snapshots [] d = Some d"
| "upsert_snapshots ((k, snap) # xs) d =
     (case pg_numeric 15 2 snap of None \<Rightarrow> None | Some v \<Rightarrow> upsert_snapshots xs (upsert_snapshot k v d))"

definition write_budget_snapshot :: "Env \<Rightarrow> (int, rat) dict \<Rightarrow> AuthState \<Rightarrow> bool \<times> AuthState" where
  "write_budget_snapshot env snapshots s =
     (if snapshots = [] \<or> \<not> en_core_db env then (True, s)
      else if \<not> en_core_write env then (False, s)
      else case upsert_snapshots snapshots (au_budget_usage s) of
             None \<Rightarrow> (False, s)
           | Some d \<Rightarrow> (True, s\<lparr>au_budget_usage := d\<rparr>))"

section \<open>Facts about decimals\<close>

lemma dfix_scale:
  assumes "has_scale s x" "\<bar>x\<bar> < 10 ^ (28 - s)" "s \<le> 28" shows "dfix x = x"
proof -
  obtain m where m: "x = of_int m / 10 ^ s" using assms(1) by (auto simp: has_scale_iff)
  then have "of_int \<bar>m\<bar> < (10 :: rat) ^ (28 - s) * 10 ^ s"
    using assms(2) by (simp only: abs_divide of_int_abs) (simp add: divide_less_eq)
  also have "\<dots> = of_int (10 ^ 28)" using assms(3) by (simp flip: power_add)
  finally have "\<bar>m\<bar> < 10 ^ 28" by (simp only: of_int_less_iff)
  note exact = dfix_exact [OF this, of "- int s"]
  have "x = of_int m * 10 powi (- int s)" unfolding m by (simp add: power_int_minus divide_inverse)
  then show ?thesis using exact by metis
qed

text \<open>Amounts with two decimals that a \<open>NUMERIC(15, 2)\<close> column can hold, and sums of them.\<close>

definition money :: "rat \<Rightarrow> bool" where
  "money x \<longleftrightarrow> has_scale 2 x \<and> 0 \<le> x \<and> x < 10 ^ 13"

definition percent :: "rat \<Rightarrow> bool" where
  "percent x \<longleftrightarrow> has_scale 2 x \<and> 0 \<le> x \<and> x < 1000"

lemma has_scale_sum_list: "\<forall>x \<in> set xs. has_scale s x \<Longrightarrow> has_scale s (sum_list xs)"
  by (induction xs) (auto intro: has_scale_add)

lemma has_scale_diff: "has_scale s x \<Longrightarrow> has_scale s y \<Longrightarrow> has_scale s (x - y)"
  unfolding has_scale_iff by (metis diff_divide_distrib of_int_diff)

lemma dadd_exact: "has_scale 2 x \<Longrightarrow> has_scale 2 y \<Longrightarrow> 0 \<le> x \<Longrightarrow> 0 \<le> y \<Longrightarrow> x + y < 10 ^ 26 \<Longrightarrow> dadd x y = x + y"
  unfolding dadd_def by (rule dfix_scale) (auto intro: has_scale_add)

lemma dsum_append: "dsum (xs @ [x]) = dadd (dsum xs) x"
  by (simp add: dsum_def)

text \<open>
  A sum of such amounts is exact as long as it stays below \<open>10 ^ 26\<close>; from there on the rounded sum
  stays above, so a small rounded sum is always the exact one.
\<close>

definition cents :: "rat \<Rightarrow> bool" where
  "cents x \<longleftrightarrow> has_scale 2 x \<and> 0 \<le> x"

lemma cents_add [intro]: "cents x \<Longrightarrow> cents y \<Longrightarrow> cents (x + y)"
  by (simp add: cents_def has_scale_add)

lemma cents_0 [simp]: "cents 0"
  by (simp add: cents_def)

lemma money_cents: "money x \<Longrightarrow> cents x"
  by (simp add: money_def cents_def)

lemma cents_sum_list: "\<forall>x \<in> set xs. cents x \<Longrightarrow> cents (sum_list xs)"
  by (induction xs) (auto intro: cents_add)

lemma dadd_cents: "cents x \<Longrightarrow> cents y \<Longrightarrow> x + y < 10 ^ 26 \<Longrightarrow> dadd x y = x + y"
  by (auto simp: cents_def intro: dadd_exact)

lemma dfix_10_26: "dfix (10 ^ 26) = 10 ^ 26"
  using dfix_exact [of 1 26] by simp

lemma dadd_large: "10 ^ 26 \<le> x + y \<Longrightarrow> 10 ^ 26 \<le> dadd x y"
  unfolding dadd_def using dfix_mono [of "10 ^ 26" "x + y"] dfix_10_26 by (metis zero_le_numeral zero_le_power)

lemma dadd_small: "cents x \<Longrightarrow> cents y \<Longrightarrow> dadd x y < 10 ^ 26 \<Longrightarrow> dadd x y = x + y"
  using dadd_large [of x y] dadd_cents [of x y] by linarith

lemma foldl_dadd_large: "10 ^ 26 \<le> t \<Longrightarrow> \<forall>x \<in> set xs. cents x \<Longrightarrow> 10 ^ 26 \<le> foldl dadd t xs"
proof (induction xs arbitrary: t)
  case (Cons x xs)
  then have "10 ^ 26 \<le> t + x" by (simp add: cents_def)
  then show ?case using Cons dadd_large by simp
qed simp

lemma foldl_dadd_exact:
  "\<forall>x \<in> set xs. cents x \<Longrightarrow> cents t \<Longrightarrow> foldl dadd t xs < 10 ^ 26 \<Longrightarrow> foldl dadd t xs = t + sum_list xs"
proof (induction xs arbitrary: t)
  case (Cons x xs)
  have "dadd t x < 10 ^ 26"
    using Cons.prems foldl_dadd_large [of "dadd t x" xs] by (simp add: linorder_not_le [symmetric] del: linorder_not_le) force
  then have "dadd t x = t + x" using Cons.prems by (intro dadd_small) auto
  moreover have "cents (t + x)" using Cons.prems by (intro cents_add) simp_all
  ultimately show ?case using Cons.IH [of "t + x"] Cons.prems by (simp add: add.assoc)
qed simp

lemma dsum_exact: "\<forall>x \<in> set xs. cents x \<Longrightarrow> dsum xs < 10 ^ 26 \<Longrightarrow> dsum xs = sum_list xs"
  unfolding dsum_def using foldl_dadd_exact [of xs 0] by simp

lemma dadd_dsum_exact:
  assumes x: "cents x" and ys: "\<forall>y \<in> set ys. cents y" and small: "dadd x (dsum ys) < 10 ^ 26"
  shows "dadd x (dsum ys) = x + sum_list ys"
proof -
  have "dsum ys < 10 ^ 26"
  proof (rule ccontr)
    assume "\<not> dsum ys < 10 ^ 26"
    then have "10 ^ 26 \<le> x + dsum ys" using x by (simp add: cents_def)
    from dadd_large [OF this] small show False by simp
  qed
  with ys have "dsum ys = sum_list ys" by (rule dsum_exact)
  with small show ?thesis using dadd_small [OF x cents_sum_list [OF ys]] by simp
qed

lemma dsum_cents: "\<forall>x \<in> set xs. cents x \<Longrightarrow> sum_list xs < 10 ^ 26 \<Longrightarrow> dsum xs = sum_list xs"
proof (induction xs rule: rev_induct)
  case (snoc x xs)
  have "0 \<le> x" using snoc.prems by (simp add: cents_def)
  moreover have "cents (sum_list xs)" using snoc.prems by (intro cents_sum_list) simp
  ultimately show ?case using snoc by (simp add: dsum_append dadd_cents)
qed (simp add: dsum_def)

lemma quantize_Inr: "quantize rnd x = Inr y \<Longrightarrow> y = of_int (rnd (x * 100)) / 100 \<and> has_scale 2 y"
  unfolding quantize_def Let_def has_scale_iff by (auto split: if_splits intro: exI [of _ "rnd (x * 100)"])

lemma quantize_up_pg: "quantize round_half_up x = Inr y \<Longrightarrow> y = pg_round 2 x"
  using quantize_Inr [of round_half_up x y] by (simp add: pg_round_def)

lemma quantize_up_id: "has_scale 2 x \<Longrightarrow> \<bar>x\<bar> < 10 ^ 26 \<Longrightarrow> quantize round_half_up x = Inr x"
proof -
  assume a: "has_scale 2 x" "\<bar>x\<bar> < 10 ^ 26"
  then obtain n where n: "x = of_int n / 100" by (auto simp: has_scale_iff)
  then have "\<bar>of_int n :: rat\<bar> < of_int (10 ^ 28)" using a(2) by simp
  then have "\<bar>n\<bar> < 10 ^ 28" by (metis of_int_abs of_int_less_iff)
  with n show ?thesis by (simp add: quantize_def)
qed

lemma round_down_le: "0 \<le> x \<Longrightarrow> of_int (round_down x) \<le> x" "0 \<le> x \<Longrightarrow> 0 \<le> round_down x"
  by (simp_all add: round_down_def)

text \<open>The error of one decimal operation, relative to its exact result.\<close>

lemma round_half_even_error: "\<bar>of_int (round_half_even x) - x\<bar> \<le> 1 / 2"
  unfolding round_half_even_def Let_def by (auto simp: abs_if) linarith+

lemma round_half_up_error: "0 \<le> x \<Longrightarrow> \<bar>of_int (round_half_up x) - x\<bar> \<le> 1 / 2"
  unfolding round_half_up_def by (simp add: abs_if) linarith

definition ulp :: rat where "ulp = 1 / (2 * 10 ^ 27)"

lemma dfix_error:
  assumes "0 \<le> x" shows "\<bar>dfix x - x\<bar> \<le> x * ulp"
proof (cases "x = 0")
  case False
  define e where "e = lead 10 x + 1 - int 28"
  have x: "0 < x" using assms False by simp
  have e0: "0 < (10 :: rat) powi e" by simp
  have "(10 :: rat) powi lead 10 x \<le> x" using lead_bounds [of 10 x] x by simp
  moreover have "(10 :: rat) powi lead 10 x = 10 powi e * 10 ^ 27"
  proof -
    have "lead 10 x = e + int 27" by (simp add: e_def)
    then have "(10 :: rat) powi lead 10 x = 10 powi e * 10 powi int 27" by (metis power_int_add zero_neq_numeral)
    then show ?thesis by simp
  qed
  ultimately have le: "10 powi e \<le> x / 10 ^ 27" by simp
  have "dfix x - x = (of_int (round_half_even (x / 10 powi e)) - x / 10 powi e) * 10 powi e"
    using x e0 by (simp add: dfix_def sig_round_def Let_def e_def field_simps)
  then have "\<bar>dfix x - x\<bar> = \<bar>of_int (round_half_even (x / 10 powi e)) - x / 10 powi e\<bar> * 10 powi e"
    by (simp add: abs_mult)
  also have "\<dots> \<le> 1 / 2 * 10 powi e"
    using round_half_even_error e0 by (intro mult_right_mono) auto
  also have "\<dots> \<le> x * ulp" using le by (simp add: ulp_def)
  finally show ?thesis .
qed simp

text \<open>A share of a parent in percent, as the services compute it.\<close>

definition share :: "rat \<Rightarrow> rat \<Rightarrow> rat" where
  "share parent x = dmul (ddiv x parent) 100"

lemma share_bounds:
  assumes "0 \<le> x" "0 < parent"
  shows "share parent x \<le> 100 * x / parent * (1 + 3 * ulp)" "100 * x / parent * (1 - 3 * ulp) \<le> share parent x"
    "0 \<le> share parent x"
proof -
  define y where "y = x / parent"
  have y: "0 \<le> y" using assms by (simp add: y_def)
  have a: "\<bar>dfix y - y\<bar> \<le> y * ulp" "\<bar>dfix (dfix y * 100) - dfix y * 100\<bar> \<le> dfix y * 100 * ulp"
    using y dfix_error [of y] dfix_error [of "dfix y * 100"] by simp_all
  have u: "0 < ulp" "ulp < 1" by (simp_all add: ulp_def)
  have d: "dfix y \<le> y * (1 + ulp)" "y * (1 - ulp) \<le> dfix y" using a(1) by (simp_all add: abs_if algebra_simps split: if_splits)
  have "dfix (dfix y * 100) \<le> dfix y * 100 * (1 + ulp)" using a(2) by (simp add: abs_if algebra_simps split: if_splits)
  also have "\<dots> \<le> y * (1 + ulp) * 100 * (1 + ulp)" using d u by (intro mult_right_mono) auto
  also have "\<dots> = 100 * y * ((1 + ulp) * (1 + ulp))" by simp
  also have "\<dots> \<le> 100 * y * (1 + 3 * ulp)"
  proof (rule mult_left_mono)
    have "ulp * ulp \<le> ulp" using u by simp
    then show "(1 + ulp) * (1 + ulp) \<le> 1 + 3 * ulp" by (simp add: algebra_simps)
  qed (use y in simp)
  finally show "share parent x \<le> 100 * x / parent * (1 + 3 * ulp)" by (simp add: share_def dmul_def ddiv_def y_def)
  have "100 * y * (1 - 3 * ulp) \<le> 100 * y * ((1 - ulp) * (1 - ulp))"
    using y u by (intro mult_left_mono) (auto simp: algebra_simps)
  also have "\<dots> = y * (1 - ulp) * 100 * (1 - ulp)" by simp
  also have "\<dots> \<le> dfix y * 100 * (1 - ulp)" using d u by (intro mult_right_mono) auto
  also have "\<dots> \<le> dfix (dfix y * 100)" using a(2) by (simp add: abs_if algebra_simps split: if_splits)
  finally show "100 * x / parent * (1 - 3 * ulp) \<le> share parent x" by (simp add: share_def dmul_def ddiv_def y_def)
  show "0 \<le> share parent x" using assms by (simp add: share_def dmul_def ddiv_def)
qed

section \<open>Facts about the tables\<close>

text \<open>Primary keys are unique.\<close>

definition tables_ok :: "AuthState \<Rightarrow> bool" where
  "tables_ok s \<longleftrightarrow> distinct (map tn_id (au_tenants s)) \<and> distinct (map ap_id (au_applications s)) \<and>
     distinct (map ak_id (au_keys s))"

lemma find_distinct:
  assumes "distinct (map f xs)" "x \<in> set xs"
  shows "find (\<lambda>y. f y = f x) xs = Some x"
  using assms by (induction xs) (auto simp: image_iff)

lemma app_by_id_Some: "app_by_id s i = Some a \<Longrightarrow> a \<in> set (au_applications s) \<and> ap_id a = i \<and> is_int4_id (Some i)"
  by (auto simp: app_by_id_def find_Some_iff split: if_splits)

lemma tenant_by_id_Some: "tenant_by_id s i = Some t \<Longrightarrow> t \<in> set (au_tenants s) \<and> tn_id t = i"
  by (auto simp: tenant_by_id_def find_Some_iff split: if_splits)

lemma key_by_id_Some: "key_by_id s i = Some k \<Longrightarrow> k \<in> set (au_keys s) \<and> ak_id k = i"
  by (auto simp: key_by_id_def find_Some_iff split: if_splits)

lemma update_app_fields [simp, auth_simps]:
  "au_tenants (update_app i f s) = au_tenants s" "au_keys (update_app i f s) = au_keys s"
  "au_roles (update_app i f s) = au_roles s" "au_budget_usage (update_app i f s) = au_budget_usage s"
  "au_redis (update_app i f s) = au_redis s"
  "au_applications (update_app i f s) = map (\<lambda>a. if ap_id a = i then f a else a) (au_applications s)"
  by (simp_all add: update_app_def)

lemma update_key_fields [simp, auth_simps]:
  "au_tenants (update_key i f s) = au_tenants s" "au_applications (update_key i f s) = au_applications s"
  "au_roles (update_key i f s) = au_roles s" "au_budget_usage (update_key i f s) = au_budget_usage s"
  "au_redis (update_key i f s) = au_redis s"
  "au_keys (update_key i f s) = map (\<lambda>k. if ak_id k = i then f k else k) (au_keys s)"
  by (simp_all add: update_key_def)

lemma keys_by_applications_subset: "set (keys_by_applications s as) = {k \<in> set (au_keys s). ak_application_id k \<in> set as}"
  by (auto simp: keys_by_applications_def)

lemma keys_by_application_set [simp]: "set (keys_by_application s a) = {k \<in> set (au_keys s). ak_application_id k = a}"
  by (auto simp: keys_by_application_def)

lemma apps_by_tenant_set [simp]: "set (apps_by_tenant s t) = {a \<in> set (au_applications s). ap_tenant_id a = t}"
  by (auto simp: apps_by_tenant_def)

lemma distinct_map_sort_key: "distinct (map f (sort_key g xs)) = distinct (map f xs)"
  by (metis distinct_map distinct_sort set_sort)

lemma distinct_map_filter: "distinct (map f xs) \<Longrightarrow> distinct (map f (filter P xs))"
  by (induction xs) auto

lemma upsert_snapshot_used:
  "(case dict_get (upsert_snapshot k snap d) j of None \<Rightarrow> 0 | Some r \<Rightarrow> bu_used r) =
   (case dict_get d j of None \<Rightarrow> 0 | Some r \<Rightarrow> bu_used r)"
  by (auto simp: upsert_snapshot_def split: option.split)

lemma write_budget_snapshot_tables [simp, auth_simps]:
  "au_tenants (snd (write_budget_snapshot env w s)) = au_tenants s"
  "au_applications (snd (write_budget_snapshot env w s)) = au_applications s"
  "au_keys (snd (write_budget_snapshot env w s)) = au_keys s"
  "au_roles (snd (write_budget_snapshot env w s)) = au_roles s"
  "au_redis (snd (write_budget_snapshot env w s)) = au_redis s"
  by (simp_all add: write_budget_snapshot_def split: option.split)

end
