(* ===== verification/Api_Key_Cache.thy ===== *)
theory Api_Key_Cache
  imports Auth_Models
begin

text \<open>
  The values an API key authenticates with, the Redis hashes that answer validations, the snapshot
  \<open>cached_data\<close> that rebuilds them, and the fan-outs that keep both in step with billing
  (\<open>models/api_key.py\<close>, \<open>services/cache_service.py\<close>, the cache half of
  \<open>services/api_key_service.py\<close> and of \<open>repositories/api_key_repository.py\<close>).  A request runs at one
  instant, \<open>en_now\<close>; Redis either answers all commands of a request or none, and a key of Redis that
  holds something else than a hash is outside the model.
\<close>

section \<open>The values of a key\<close>

definition is_expired :: "datetime \<Rightarrow> APIKey \<Rightarrow> bool" where
  "is_expired now k = (case ak_expires_at k of None \<Rightarrow> False | Some e \<Rightarrow> e < now)"

definition live_rotated_key :: "datetime \<Rightarrow> APIKey \<Rightarrow> string option" where
  "live_rotated_key now k =
     (case (ak_rotated_key k, ak_rotated_key_expires_at k) of
        (Some r, Some e) \<Rightarrow> if r \<noteq> [] \<and> now < e then Some r else None
      | _ \<Rightarrow> None)"

definition live_rotated_key_expires_at :: "datetime \<Rightarrow> APIKey \<Rightarrow> datetime option" where
  "live_rotated_key_expires_at now k =
     (if ak_is_active k \<and> \<not> is_expired now k \<and> live_rotated_key now k \<noteq> None
      then ak_rotated_key_expires_at k else None)"

definition cache_key_values :: "datetime \<Rightarrow> APIKey \<Rightarrow> string list" where
  "cache_key_values now k =
     (case live_rotated_key now k of Some r \<Rightarrow> [ak_api_key k, r] | None \<Rightarrow> [ak_api_key k])"

text \<open>\<open>_active_key_conditions\<close>: the rows a bulk statement works on.\<close>

definition active_key_conditions :: "datetime \<Rightarrow> bool \<Rightarrow> APIKey \<Rightarrow> bool" where
  "active_key_conditions now require_cached_data k \<longleftrightarrow>
     ak_is_active k \<and> (case ak_expires_at k of None \<Rightarrow> True | Some e \<Rightarrow> now < e) \<and>
     (require_cached_data \<longrightarrow> ak_cached_data k \<noteq> None)"

text \<open>\<open>_live_key_values\<close> of the rows a statement returned.\<close>

definition live_key_values :: "datetime \<Rightarrow> APIKey list \<Rightarrow> string list" where
  "live_key_values now ks = concat (map (cache_key_values now) ks)"

section \<open>The Redis hashes\<close>

type_synonym key_hashes = "(string, payload \<times> expiry) dict"

definition REDIS_API_KEY_PREFIX :: string where "REDIS_API_KEY_PREFIX = ''auth:apikey:''"

definition cell_text :: "cell \<Rightarrow> cell" where
  "cell_text c = (case c of C_int i \<Rightarrow> C_str (show_int i) | C_null \<Rightarrow> C_str [] | _ \<Rightarrow> c)"

text \<open>
  \<open>set_api_key_cache\<close>: \<open>HSET\<close> adds to the fields that are there, a tombstone is cleared unless it is
  what is written, and \<open>EXPIRE\<close> starts the time to live afresh.
\<close>

definition set_api_key_cache :: "datetime \<Rightarrow> string \<Rightarrow> int \<Rightarrow> payload \<Rightarrow> key_hashes \<Rightarrow> key_hashes" where
  "set_api_key_cache now value ttl_seconds data r =
     (let key = REDIS_API_KEY_PREFIX @ value;
          old = (case redis_get now r key of Some h \<Rightarrow> h | None \<Rightarrow> []);
          hash = fold (\<lambda>(k, v). dict_set k (cell_text v)) data old;
          hash' = (if ''is_already_invalid'' \<in> set (dict_keys data) then hash
                   else filter (\<lambda>(k, _). k \<noteq> ''is_already_invalid'') hash)
      in redis_setex now key hash' ttl_seconds r)"

definition get_api_key_cache :: "datetime \<Rightarrow> key_hashes \<Rightarrow> string \<Rightarrow> payload option" where
  "get_api_key_cache now r value =
     (case redis_get now r (REDIS_API_KEY_PREFIX @ value) of
        None \<Rightarrow> None
      | Some h \<Rightarrow> if h = [] then None else Some h)"

definition delete_api_key_cache :: "string \<Rightarrow> key_hashes \<Rightarrow> key_hashes" where
  "delete_api_key_cache value r = redis_del (REDIS_API_KEY_PREFIX @ value) r"

text \<open>A change of the fields of a live hash keeps its time to live; a hash with no field left is gone.\<close>

definition change_hash :: "datetime \<Rightarrow> string \<Rightarrow> (payload \<Rightarrow> payload) \<Rightarrow> key_hashes \<Rightarrow> key_hashes" where
  "change_hash now value f r =
     (let key = REDIS_API_KEY_PREFIX @ value
      in case dict_get r key of
           Some (h, e) \<Rightarrow> if live now e then (if f h = [] then redis_del key r else dict_set key (f h, e) r) else r
         | None \<Rightarrow> r)"

definition patch_api_key_cache_field :: "datetime \<Rightarrow> string \<Rightarrow> string \<Rightarrow> string \<Rightarrow> key_hashes \<Rightarrow> key_hashes" where
  "patch_api_key_cache_field now value fld v r = change_hash now value (dict_set fld (C_str v)) r"

definition patch_api_key_cache_field_if_present :: "datetime \<Rightarrow> string \<Rightarrow> string \<Rightarrow> string \<Rightarrow> key_hashes \<Rightarrow> key_hashes" where
  "patch_api_key_cache_field_if_present now value fld v r =
     change_hash now value (\<lambda>h. if fld \<in> set (dict_keys h) then dict_set fld (C_str v) h else h) r"

definition remove_fields :: "string list \<Rightarrow> payload \<Rightarrow> payload" where
  "remove_fields flds h = filter (\<lambda>(k, _). k \<notin> set flds) h"

definition delete_api_key_cache_fields :: "datetime \<Rightarrow> string list \<Rightarrow> string \<Rightarrow> key_hashes \<Rightarrow> key_hashes" where
  "delete_api_key_cache_fields now flds value r =
     (if flds = [] then r else change_hash now value (remove_fields flds) r)"

text \<open>\<open>delete_api_key_cache_fields_bulk\<close>: pipelines of five keys, whose commands are applied in order.\<close>

function chunks :: "nat \<Rightarrow> 'a list \<Rightarrow> 'a list list" where
  "chunks n xs = (if xs = [] \<or> n = 0 then [] else take n xs # chunks n (drop n xs))"
  by pat_completeness auto

termination
  by (relation "measure (\<lambda>(n, xs). length xs)") auto

declare chunks.simps [simp del]

definition CHUNK_SIZE :: nat where "CHUNK_SIZE = 5"

definition delete_api_key_cache_fields_bulk :: "datetime \<Rightarrow> string list \<Rightarrow> string list \<Rightarrow> key_hashes \<Rightarrow> key_hashes" where
  "delete_api_key_cache_fields_bulk now flds values r =
     (if flds = [] \<or> values = [] then r
      else fold (fold (delete_api_key_cache_fields now flds)) (chunks CHUNK_SIZE values) r)"

section \<open>Eligibility\<close>

definition application_may_use_api_keys :: "Application option \<Rightarrow> Tenant option \<Rightarrow> bool" where
  "application_may_use_api_keys app tenant =
     (if pred_option (\<lambda>a. ap_status a = APP_ACTIVE) app
      then (case tenant of None \<Rightarrow> True | Some t \<Rightarrow> tn_status t = ACTIVE)
      else False)"

definition effective_is_active :: "datetime \<Rightarrow> APIKey \<Rightarrow> Application option \<Rightarrow> Tenant option \<Rightarrow> bool" where
  "effective_is_active now k app tenant \<longleftrightarrow>
     ak_is_active k \<and> \<not> is_expired now k \<and> application_may_use_api_keys app tenant"

definition application_and_tenant :: "AuthState \<Rightarrow> APIKey \<Rightarrow> Application option \<times> Tenant option" where
  "application_and_tenant s k =
     (let app = app_by_id s (ak_application_id k)
      in (app, case app of None \<Rightarrow> None | Some a \<Rightarrow> tenant_by_id s (ap_tenant_id a)))"

section \<open>Payloads\<close>

record Settings =
  st_api_key_expire_days :: int
  st_invalid_api_key_cache_ttl_seconds :: int

definition seconds_until :: "datetime \<Rightarrow> datetime \<Rightarrow> int" where
  "seconds_until now e = max 0 ((e - now) div 1000000)"

definition compute_cache_ttl :: "Settings \<Rightarrow> datetime \<Rightarrow> APIKey \<Rightarrow> int" where
  "compute_cache_ttl cfg now k =
     (case ak_expires_at k of
        Some e \<Rightarrow> seconds_until now e
      | None \<Rightarrow> st_api_key_expire_days cfg * 86400)"

definition cache_ttl_for :: "Settings \<Rightarrow> datetime \<Rightarrow> APIKey \<Rightarrow> string \<Rightarrow> int" where
  "cache_ttl_for cfg now k value =
     (if value \<noteq> ak_api_key k \<and> ak_rotated_key k = Some value
      then (case ak_rotated_key_expires_at k of
              None \<Rightarrow> 0
            | Some e \<Rightarrow> max 0 (min ((e - now) div 1000000) (compute_cache_ttl cfg now k)))
      else compute_cache_ttl cfg now k)"

definition delete_key_caches :: "APIKey \<Rightarrow> key_hashes \<Rightarrow> key_hashes" where
  "delete_key_caches k r =
     fold (\<lambda>v r. if v = [] then r else delete_api_key_cache v r)
       (ak_api_key k # (case ak_rotated_key k of None \<Rightarrow> [] | Some v \<Rightarrow> [v])) r"

definition merge :: "payload \<Rightarrow> payload \<Rightarrow> payload" where
  "merge base over = fold (\<lambda>(k, v). dict_set k v) over base"

definition build_cache_payload :: "APIKey \<Rightarrow> string option \<Rightarrow> datetime option \<Rightarrow> payload \<Rightarrow> payload" where
  "build_cache_payload k tenant_id budget_effective_to extra_fields =
     merge
       [(''id'', C_int (ak_id k)),
        (''api_key'', C_str (ak_api_key k)),
        (''permissions'', C_perms (ak_permissions k)),
        (''application_id'', C_str (show_int (ak_application_id k))),
        (''tenant_id'', case tenant_id of None \<Rightarrow> C_null | Some t \<Rightarrow> C_str t),
        (''user_id'', case ak_created_by k of None \<Rightarrow> C_null | Some u \<Rightarrow> C_str u),
        (''budget_effective_to'', C_str (case budget_effective_to of None \<Rightarrow> [] | Some d \<Rightarrow> isoformat d))]
       extra_fields"

definition is_preserved_billing_field :: "string \<Rightarrow> bool" where
  "is_preserved_billing_field f \<longleftrightarrow> f = ''budget-exhausted'' \<or> take 6 f = ''quota-''"

definition preserved_billing_fields :: "payload option \<Rightarrow> payload" where
  "preserved_billing_fields d =
     filter (\<lambda>(f, _). is_preserved_billing_field f) (case d of None \<Rightarrow> [] | Some p \<Rightarrow> p)"

definition preserved_tier_id :: "APIKey \<Rightarrow> payload" where
  "preserved_tier_id k =
     (case ak_cached_data k of
        None \<Rightarrow> []
      | Some d \<Rightarrow> (case dict_get d ''tier_id'' of None \<Rightarrow> [] | Some v \<Rightarrow> [(''tier_id'', v)]))"

text \<open>\<open>_persist_cache_snapshot\<close>, with its commit.\<close>

definition persist_cache_snapshot :: "int \<Rightarrow> payload \<Rightarrow> AuthState \<Rightarrow> AuthState" where
  "persist_cache_snapshot i payload s =
     update_key i (\<lambda>k. k\<lparr>ak_cached_data := Some (merge (preserved_billing_fields (ak_cached_data k)) payload)\<rparr>) s"

definition write_entries :: "Settings \<Rightarrow> datetime \<Rightarrow> APIKey \<Rightarrow> payload \<Rightarrow> key_hashes \<Rightarrow> key_hashes" where
  "write_entries cfg now k payload r =
     fold (\<lambda>v r. if 0 < cache_ttl_for cfg now k v then set_api_key_cache now v (cache_ttl_for cfg now k v) payload r else r)
       (cache_key_values now k) r"

text \<open>
  \<open>_refresh_redis_cache\<close>: the billing flags of the live hash win over those of the snapshot, and the
  same payload goes under every live value of the row, each with its own time to live.
\<close>

definition refresh_redis_cache :: "Settings \<Rightarrow> Env \<Rightarrow> APIKey \<Rightarrow> string option \<Rightarrow> datetime option \<Rightarrow> AuthState \<Rightarrow> (auth_error, AuthState) res" where
  "refresh_redis_cache cfg env k tenant_id budget_effective_to s =
     (let now = en_now env
      in if compute_cache_ttl cfg now k \<le> 0 then Inr s
         else if \<not> en_redis env then Inl RedisFailed
         else
           let existing = get_api_key_cache now (au_redis s) (ak_api_key k);
               preserved = merge (preserved_billing_fields (ak_cached_data k)) (preserved_billing_fields existing);
               payload = build_cache_payload k tenant_id budget_effective_to (merge (preserved_tier_id k) preserved);
               s' = s\<lparr>au_redis := write_entries cfg now k payload (au_redis s)\<rparr>
           in Inr (persist_cache_snapshot (ak_id k) payload s'))"

text \<open>\<open>_persist_current_state_to_cached_data\<close>: the snapshot only, never Redis.\<close>

definition persist_current_state_to_cached_data :: "APIKey \<Rightarrow> string option \<Rightarrow> datetime option \<Rightarrow> AuthState \<Rightarrow> AuthState" where
  "persist_current_state_to_cached_data k tenant_id budget_effective_to s =
     persist_cache_snapshot (ak_id k) (build_cache_payload k tenant_id budget_effective_to (preserved_tier_id k)) s"

section \<open>Bulk statements on \<open>cached_data\<close>\<close>

text \<open>\<open>UPDATE api_key SET cached_data = ... WHERE ...\<close> on the rows that satisfy a condition.\<close>

definition change_cached_data :: "(APIKey \<Rightarrow> bool) \<Rightarrow> (payload \<Rightarrow> payload) \<Rightarrow> AuthState \<Rightarrow> AuthState" where
  "change_cached_data c f s =
     s\<lparr>au_keys := map (\<lambda>k. if c k then k\<lparr>ak_cached_data := map_option f (ak_cached_data k)\<rparr> else k) (au_keys s)\<rparr>"

definition owned_by :: "AuthState \<Rightarrow> int \<Rightarrow> APIKey \<Rightarrow> bool" where
  "owned_by s t k \<longleftrightarrow> (\<exists>a \<in> set (au_applications s). ap_id a = ak_application_id k \<and> ap_tenant_id a = t)"

definition patch_cached_data_field_for_tenant :: "datetime \<Rightarrow> int \<Rightarrow> string \<Rightarrow> string \<Rightarrow> bool \<Rightarrow> AuthState \<Rightarrow> AuthState" where
  "patch_cached_data_field_for_tenant now t fld v only_if_present s =
     change_cached_data
       (\<lambda>k. owned_by s t k \<and> active_key_conditions now True k \<and>
            (only_if_present \<longrightarrow> pred_option (\<lambda>d. fld \<in> set (dict_keys d)) (ak_cached_data k)))
       (dict_set fld (C_str v)) s"

definition patch_cached_data_field_for_keys :: "datetime \<Rightarrow> int list \<Rightarrow> string \<Rightarrow> string \<Rightarrow> AuthState \<Rightarrow> string list \<times> AuthState" where
  "patch_cached_data_field_for_keys now key_ids fld v s =
     (if key_ids = [] then ([], s)
      else
        let c = (\<lambda>k. ak_id k \<in> set key_ids \<and> active_key_conditions now True k)
        in (live_key_values now (filter c (au_keys s)), change_cached_data c (dict_set fld (C_str v)) s))"

definition remove_cached_data_fields_for_tenant :: "datetime \<Rightarrow> int \<Rightarrow> string list \<Rightarrow> AuthState \<Rightarrow> AuthState" where
  "remove_cached_data_fields_for_tenant now t flds s =
     (if flds = [] then s
      else change_cached_data (\<lambda>k. owned_by s t k \<and> active_key_conditions now True k) (remove_fields flds) s)"

section \<open>Walking the keys of a tenant\<close>

text \<open>\<open>list_active_keys_for_tenant\<close>: one page of the active keys, by ascending id.\<close>

definition active_keys_for_tenant :: "datetime \<Rightarrow> AuthState \<Rightarrow> int \<Rightarrow> APIKey list" where
  "active_keys_for_tenant now s t =
     sort_key ak_id (filter (\<lambda>k. owned_by s t k \<and> active_key_conditions now False k) (au_keys s))"

definition page_after :: "APIKey list \<Rightarrow> int \<Rightarrow> nat \<Rightarrow> APIKey list" where
  "page_after ks after limit = take limit (filter (\<lambda>k. after < ak_id k) ks)"

definition list_active_keys_for_tenant :: "datetime \<Rightarrow> AuthState \<Rightarrow> int \<Rightarrow> int \<Rightarrow> nat \<Rightarrow> APIKey list" where
  "list_active_keys_for_tenant now s t after_id limit = page_after (active_keys_for_tenant now s t) after_id limit"

definition TENANT_CASCADE_PAGE_SIZE :: nat where "TENANT_CASCADE_PAGE_SIZE = 500"

text \<open>The keyset-paginated loop: the keys in the order the operation is applied to them.\<close>

lemma page_after_progress:
  assumes "page_after ks after limit \<noteq> []"
  shows "length (filter (\<lambda>k. ak_id (last (page_after ks after limit)) < ak_id k) ks) < length (filter (\<lambda>k. after < ak_id k) ks)"
proof -
  let ?l = "last (page_after ks after limit)"
  have l: "?l \<in> set ks" "after < ak_id ?l"
    using last_in_set [OF assms] by (auto simp: page_after_def dest: in_set_takeD)
  have "set (filter (\<lambda>k. ak_id ?l < ak_id k) ks) \<subseteq> set (filter (\<lambda>k. after < ak_id k) ks)" using l by auto
  have "filter (\<lambda>k. ak_id ?l < ak_id k) ks = filter (\<lambda>k. ak_id ?l < ak_id k) (filter (\<lambda>k. after < ak_id k) ks)"
    using l(2) by (auto intro: filter_cong)
  also have "length \<dots> < length (filter (\<lambda>k. after < ak_id k) ks)"
    using l by (intro length_filter_less [of ?l]) auto
  finally show ?thesis .
qed

function walk_pages :: "nat \<Rightarrow> APIKey list \<Rightarrow> int \<Rightarrow> APIKey list" where
  "walk_pages limit ks after_id =
     (let page = page_after ks after_id limit
      in if page = [] then []
         else page @ (if length page < limit then [] else walk_pages limit ks (ak_id (last page))))"
  by pat_completeness auto

termination
  by (relation "measure (\<lambda>(limit, ks, after_id). length (filter (\<lambda>k. after_id < ak_id k) ks))")
    (auto dest: page_after_progress)

declare walk_pages.simps [simp del]

text \<open>\<open>_for_each_active_tenant_key\<close> with an operation on the Redis hashes.\<close>

definition for_each_active_tenant_key :: "datetime \<Rightarrow> int \<Rightarrow> (APIKey \<Rightarrow> key_hashes \<Rightarrow> key_hashes) \<Rightarrow> AuthState \<Rightarrow> AuthState" where
  "for_each_active_tenant_key now t f s =
     s\<lparr>au_redis := fold f (walk_pages TENANT_CASCADE_PAGE_SIZE (active_keys_for_tenant now s t) 0) (au_redis s)\<rparr>"

section \<open>Fan-outs\<close>

text \<open>What a request leaves: its answer or error, and the committed state.\<close>

type_synonym 'a outcome = "(auth_error, 'a) res \<times> AuthState"

definition evict_keys_for_application :: "Env \<Rightarrow> int \<Rightarrow> AuthState \<Rightarrow> unit outcome" where
  "evict_keys_for_application env a s =
     (let ks = keys_by_application s a
      in if ks \<noteq> [] \<and> \<not> en_redis env then (Inl RedisFailed, s)
         else (Inr (), s\<lparr>au_redis := fold delete_key_caches ks (au_redis s)\<rparr>))"

definition evict_keys_for_tenant :: "Env \<Rightarrow> int \<Rightarrow> AuthState \<Rightarrow> unit outcome" where
  "evict_keys_for_tenant env t s =
     (if active_keys_for_tenant (en_now env) s t \<noteq> [] \<and> \<not> en_redis env then (Inl RedisFailed, s)
      else (Inr (), for_each_active_tenant_key (en_now env) t delete_key_caches s))"

text \<open>
  \<open>revoke_active_for_applications\<close>: one statement, returning every value that may have a hash, live or
  not.
\<close>

definition revoke_active_for_applications :: "int list \<Rightarrow> AuthState \<Rightarrow> string list \<times> AuthState" where
  "revoke_active_for_applications app_ids s =
     (if app_ids = [] then ([], s)
      else
        let c = (\<lambda>k. ak_application_id k \<in> set app_ids \<and> ak_is_active k)
        in (filter (\<lambda>v. v \<noteq> [])
              (concat (map (\<lambda>k. ak_api_key k # (case ak_rotated_key k of None \<Rightarrow> [] | Some v \<Rightarrow> [v]))
                (filter c (au_keys s)))),
            s\<lparr>au_keys := map (\<lambda>k. if c k then k\<lparr>ak_is_active := False\<rparr> else k) (au_keys s)\<rparr>))"

text \<open>The revocation is committed before Redis is touched, so a failing Redis leaves it in place.\<close>

definition revoke_keys_for_tenant :: "Env \<Rightarrow> int \<Rightarrow> AuthState \<Rightarrow> unit outcome" where
  "revoke_keys_for_tenant env t s =
     (let app_ids = map ap_id (apps_by_tenant s t);
          (revoked, s') = revoke_active_for_applications app_ids s
      in if revoked = [] then (Inr (), s)
         else if \<not> en_redis env then (Inl RedisFailed, s')
         else (Inr (), s'\<lparr>au_redis := fold delete_api_key_cache revoked (au_redis s')\<rparr>))"

fun refresh_keys :: "Settings \<Rightarrow> Env \<Rightarrow> string option \<Rightarrow> datetime option \<Rightarrow> APIKey list \<Rightarrow> AuthState \<Rightarrow> unit outcome" where
  "refresh_keys cfg env tenant_id effective_to [] s = (Inr (), s)"
| "refresh_keys cfg env tenant_id effective_to (k # ks) s =
     (if ak_is_active k \<and> \<not> is_expired (en_now env) k
      then case refresh_redis_cache cfg env k tenant_id effective_to s of
             Inl e \<Rightarrow> (Inl e, s)
           | Inr s' \<Rightarrow> refresh_keys cfg env tenant_id effective_to ks s'
      else refresh_keys cfg env tenant_id effective_to ks s)"

definition refresh_keys_cache_for_application :: "Settings \<Rightarrow> Env \<Rightarrow> Application \<Rightarrow> Tenant option \<Rightarrow> AuthState \<Rightarrow> unit outcome" where
  "refresh_keys_cache_for_application cfg env app tenant s =
     (let tenant' = (case tenant of None \<Rightarrow> tenant_by_id s (ap_tenant_id app) | Some t \<Rightarrow> Some t)
      in if \<not> application_may_use_api_keys (Some app) tenant' then evict_keys_for_application env (ap_id app) s
         else refresh_keys cfg env (Some (show_int (ap_tenant_id app)))
                (Option.bind tenant' tn_budget_effective_to) (keys_by_application s (ap_id app)) s)"

fun refresh_applications :: "Settings \<Rightarrow> Env \<Rightarrow> Tenant \<Rightarrow> Application list \<Rightarrow> AuthState \<Rightarrow> unit outcome" where
  "refresh_applications cfg env t [] s = (Inr (), s)"
| "refresh_applications cfg env t (a # as) s =
     (case refresh_keys_cache_for_application cfg env a (Some t) s of
        (Inl e, s') \<Rightarrow> (Inl e, s')
      | (Inr _, s') \<Rightarrow> refresh_applications cfg env t as s')"

definition refresh_keys_cache_for_tenant :: "Settings \<Rightarrow> Env \<Rightarrow> int \<Rightarrow> AuthState \<Rightarrow> unit outcome" where
  "refresh_keys_cache_for_tenant cfg env t s =
     (case tenant_by_id s t of
        None \<Rightarrow> (Inr (), s)
      | Some tenant \<Rightarrow> refresh_applications cfg env tenant (apps_by_tenant s t) s)"

definition patch_all_tenant_key_caches :: "Env \<Rightarrow> int \<Rightarrow> string \<Rightarrow> string \<Rightarrow> bool \<Rightarrow> AuthState \<Rightarrow> unit outcome" where
  "patch_all_tenant_key_caches env t fld v only_if_present s =
     (let now = en_now env;
          patch = (if only_if_present then patch_api_key_cache_field_if_present else patch_api_key_cache_field)
      in if active_keys_for_tenant now s t \<noteq> [] \<and> \<not> en_redis env then (Inl RedisFailed, s)
         else (Inr (), patch_cached_data_field_for_tenant now t fld v only_if_present
                 (for_each_active_tenant_key now t
                    (\<lambda>k r. fold (\<lambda>value. patch now value fld v) (cache_key_values now k) r) s)))"

definition flag :: "bool \<Rightarrow> string" where
  "flag b = (if b then ''1'' else ''0'')"

definition set_budget_exhausted_for_tenant :: "Env \<Rightarrow> int \<Rightarrow> bool \<Rightarrow> AuthState \<Rightarrow> unit outcome" where
  "set_budget_exhausted_for_tenant env t exhausted s =
     patch_all_tenant_key_caches env t ''budget-exhausted'' (flag exhausted) False s"

definition set_budget_effective_to_for_tenant :: "Env \<Rightarrow> int \<Rightarrow> datetime option \<Rightarrow> AuthState \<Rightarrow> unit outcome" where
  "set_budget_effective_to_for_tenant env t effective_to s =
     patch_all_tenant_key_caches env t ''budget_effective_to''
       (case effective_to of None \<Rightarrow> [] | Some d \<Rightarrow> isoformat d) False s"

definition set_budget_exhausted_for_key :: "Env \<Rightarrow> int \<Rightarrow> bool \<Rightarrow> AuthState \<Rightarrow> unit outcome" where
  "set_budget_exhausted_for_key env key_id exhausted s =
     (let now = en_now env in
      case key_by_id s key_id of
        None \<Rightarrow> (Inr (), s)
      | Some k \<Rightarrow>
          if \<not> ak_is_active k \<or> is_expired now k \<or> ak_cached_data k = None \<or> ak_cached_data k = Some [] then (Inr (), s)
          else if \<not> en_redis env then (Inl RedisFailed, s)
          else (Inr (),
            update_key key_id (\<lambda>k. k\<lparr>ak_cached_data := map_option (dict_set ''budget-exhausted'' (C_str (flag exhausted))) (ak_cached_data k)\<rparr>)
              (s\<lparr>au_redis := fold (\<lambda>value. patch_api_key_cache_field now value ''budget-exhausted'' (flag exhausted))
                                (cache_key_values now k) (au_redis s)\<rparr>)))"

definition set_budget_exhausted_for_keys :: "Env \<Rightarrow> int list \<Rightarrow> bool \<Rightarrow> AuthState \<Rightarrow> unit outcome" where
  "set_budget_exhausted_for_keys env key_ids exhausted s =
     (if key_ids = [] then (Inr (), s)
      else
        let (touched, s') = patch_cached_data_field_for_keys (en_now env) key_ids ''budget-exhausted'' (flag exhausted) s
        in if touched \<noteq> [] \<and> \<not> en_redis env then (Inl RedisFailed, s)
           else (Inr (), s'\<lparr>au_redis :=
             fold (\<lambda>value. patch_api_key_cache_field (en_now env) value ''budget-exhausted'' (flag exhausted)) touched (au_redis s')\<rparr>))"

definition list_key_ids_for_tenant :: "AuthState \<Rightarrow> int \<Rightarrow> int list" where
  "list_key_ids_for_tenant s t =
     map ak_id (sort_key ak_application_id (sort_key (\<lambda>k. - ak_created_at k) (filter (owned_by s t) (au_keys s))))"

definition UNASSIGNED_TIER_ID :: string where "UNASSIGNED_TIER_ID = []"

definition set_tier_id_for_tenant :: "Env \<Rightarrow> int \<Rightarrow> string \<Rightarrow> AuthState \<Rightarrow> unit outcome" where
  "set_tier_id_for_tenant env t tier s = patch_all_tenant_key_caches env t ''tier_id'' tier False s"

definition mark_tier_unassigned_for_tenant :: "Env \<Rightarrow> int \<Rightarrow> AuthState \<Rightarrow> unit outcome" where
  "mark_tier_unassigned_for_tenant env t s = patch_all_tenant_key_caches env t ''tier_id'' UNASSIGNED_TIER_ID True s"

definition set_quota_exhausted_for_tenant :: "Env \<Rightarrow> int \<Rightarrow> string \<Rightarrow> AuthState \<Rightarrow> unit outcome" where
  "set_quota_exhausted_for_tenant env t inference_name s =
     patch_all_tenant_key_caches env t (''quota-'' @ inference_name) ''1'' False s"

text \<open>
  The names to clear come from the inference-type catalogue of the core library, a parameter here;
  an empty answer means that it could not be read, and nothing is cleared.
\<close>

definition quota_field_names :: "string list \<Rightarrow> string list" where
  "quota_field_names catalogue = map (\<lambda>n. ''quota-'' @ n) catalogue"

definition clear_quota_flags_for_tenant :: "Env \<Rightarrow> string list \<Rightarrow> int \<Rightarrow> AuthState \<Rightarrow> unit outcome" where
  "clear_quota_flags_for_tenant env catalogue t s =
     (let now = en_now env; flds = quota_field_names catalogue
      in if flds = [] then (Inr (), s)
         else if active_keys_for_tenant now s t \<noteq> [] \<and> \<not> en_redis env then (Inl RedisFailed, s)
         else (Inr (), remove_cached_data_fields_for_tenant now t flds
                 (for_each_active_tenant_key now t
                    (\<lambda>k r. fold (delete_api_key_cache_fields now flds) (cache_key_values now k) r) s)))"

section \<open>The monthly reset\<close>

text \<open>\<open>list_active_keys\<close>, offset-paginated, and the loop over its pages.\<close>

definition active_keys :: "datetime \<Rightarrow> bool \<Rightarrow> AuthState \<Rightarrow> APIKey list" where
  "active_keys now require_cached_data s = sort_key ak_id (filter (active_key_conditions now require_cached_data) (au_keys s))"

function offset_pages :: "nat \<Rightarrow> APIKey list \<Rightarrow> nat \<Rightarrow> APIKey list list" where
  "offset_pages page_size ks offset =
     (let page = take page_size (drop offset ks)
      in if page = [] then []
         else page # (if length page < page_size then [] else offset_pages page_size ks (offset + page_size)))"
  by pat_completeness auto

termination
  by (relation "measure (\<lambda>(page_size, ks, offset). length ks - offset)") auto

declare offset_pages.simps [simp del]

text \<open>
  \<open>remove_cached_data_fields_globally\<close>: batches of ids, each its own transaction; the snapshot of a
  row is never null once it was not, so the batches are those of the rows at the start.
\<close>

definition BATCH_SIZE :: nat where "BATCH_SIZE = 1000"

definition remove_cached_data_fields_globally :: "datetime \<Rightarrow> string list \<Rightarrow> AuthState \<Rightarrow> AuthState" where
  "remove_cached_data_fields_globally now flds s =
     (if flds = [] then s
      else
        let ids = map ak_id (walk_pages BATCH_SIZE (active_keys now True s) 0)
        in change_cached_data (\<lambda>k. ak_id k \<in> set ids) (remove_fields flds) s)"

definition reset_all_quota_fields :: "Env \<Rightarrow> string list \<Rightarrow> AuthState \<Rightarrow> unit outcome" where
  "reset_all_quota_fields env catalogue s =
     (let now = en_now env; flds = quota_field_names catalogue
      in if flds = [] then (Inr (), s)
         else if active_keys now False s \<noteq> [] \<and> \<not> en_redis env then (Inl RedisFailed, s)
         else (Inr (), remove_cached_data_fields_globally now flds
                 (s\<lparr>au_redis :=
                      fold (\<lambda>page. delete_api_key_cache_fields_bulk now flds (live_key_values now page))
                        (offset_pages TENANT_CASCADE_PAGE_SIZE (active_keys now False s) 0) (au_redis s)\<rparr>)))"

end
