(* ===== verification/Api_Keys.thy ===== *)
theory Api_Keys
  imports Api_Key_Cache
begin

text \<open>
  The life of an API key (\<open>services/api_key_service.py\<close> with \<open>repositories/api_key_repository.py\<close>,
  \<open>routes/api_key.py\<close> and \<open>utils/budget_window.py\<close>): creation under an application's budget,
  validation from Redis with the database as fallback, update, revocation, and rotation with a grace
  period for the previous value.  Values drawn from \<open>secrets\<close> and the ids of the table's sequence are
  arguments.  A request runs at one instant, so what a request re-reads is what it wrote.
\<close>

section \<open>Permissions\<close>

record Permission =
  pm_id :: int
  pm_name :: string
  pm_action :: string

definition get_permission_ids_by_names :: "Permission list \<Rightarrow> string list \<Rightarrow> (string, int) dict" where
  "get_permission_ids_by_names ps names =
     (if names = [] then []
      else foldl (\<lambda>d p. dict_set (pm_name p) (pm_id p) d) []
             (filter (\<lambda>p. pm_name p \<in> set names \<and> pm_action p = ''inference'') ps))"

text \<open>\<open>list(dict.fromkeys(xs))\<close>.\<close>

definition unique :: "'a list \<Rightarrow> 'a list" where
  "unique xs = rev (remdups (rev xs))"

definition resolve_permission_names :: "Permission list \<Rightarrow> string list \<Rightarrow> (auth_error, int list) res" where
  "resolve_permission_names ps names =
     (let unique_names = unique names
      in if unique_names = [] then Inr []
         else
           let name_to_id = get_permission_ids_by_names ps unique_names
           in if \<not> set unique_names \<subseteq> set (dict_keys name_to_id) then Inl (Validation ''INVALID_PERMISSION_NAMES'')
              else Inr (List.map_filter (dict_get name_to_id) unique_names))"

section \<open>Values and windows\<close>

definition is_api_key :: "string \<Rightarrow> bool" where
  "is_api_key token \<longleftrightarrow> length token = 32 \<and> list_all (\<lambda>c. is_digit c \<or> c \<in> set ''abcdef'') token"

definition US_PER_SECOND :: int where "US_PER_SECOND = 1000000"

text \<open>\<open>as_utc_date\<close> as the ordinal of the day; instants are kept in UTC.\<close>

definition as_utc_date :: "datetime \<Rightarrow> int" where
  "as_utc_date t = t div US_PER_DAY"

definition is_budget_window_expired :: "datetime \<Rightarrow> datetime option \<Rightarrow> bool" where
  "is_budget_window_expired now budget_effective_to =
     (case budget_effective_to of None \<Rightarrow> False | Some e \<Rightarrow> as_utc_date e < as_utc_date now)"

text \<open>\<open>datetime.now(timezone.utc) + timedelta(days=days)\<close>, which raises past the year 9999.\<close>

definition days_from :: "datetime \<Rightarrow> int \<Rightarrow> (auth_error, datetime) res" where
  "days_from now days =
     (let t = now + days * US_PER_DAY in if valid_moment t then Inr t else Inl OverflowError)"

section \<open>Who may act on a key\<close>

text \<open>
  \<open>require_any_role(ADMIN, TENANT_ADMIN)\<close> and \<open>_resolve_caller_tenant_scope\<close>: no scope for the platform's
  administrator, the own tenant for an institution's, and no one else.
\<close>

definition resolve_caller_tenant_scope :: "AuthState \<Rightarrow> User \<Rightarrow> (auth_error, int option) res" where
  "resolve_caller_tenant_scope s user =
     (let roles = get_user_roles s (us_id user)
      in if ROLE_ADMIN \<notin> set roles \<and> ROLE_TENANT_ADMIN \<notin> set roles then Inl InsufficientPermissions
         else if ROLE_ADMIN \<in> set roles then Inr None
         else (case us_tenant_id user of
                 None \<Rightarrow> Inl (Http 403 ''TENANT_FORBIDDEN'')
               | Some t \<Rightarrow> if t = 0 then Inl (Http 403 ''TENANT_FORBIDDEN'') else Inr (Some t)))"

definition key_by_id_for_tenant :: "AuthState \<Rightarrow> int \<Rightarrow> int \<Rightarrow> APIKey option" where
  "key_by_id_for_tenant s i t =
     (if is_int4_id (Some i) \<and> is_int4_id (Some t)
      then find (\<lambda>k. ak_id k = i \<and> owned_by s t k) (au_keys s) else None)"

definition get_by_id_for_scope :: "AuthState \<Rightarrow> int \<Rightarrow> int option \<Rightarrow> APIKey option" where
  "get_by_id_for_scope s i caller_tenant_id =
     (case caller_tenant_id of None \<Rightarrow> key_by_id s i | Some t \<Rightarrow> key_by_id_for_tenant s i t)"

text \<open>The start of every route on one key.\<close>

definition scoped_key :: "AuthState \<Rightarrow> User \<Rightarrow> int \<Rightarrow> (auth_error, APIKey) res" where
  "scoped_key s user i =
     rbind (resolve_caller_tenant_scope s user) (\<lambda>scope.
     case get_by_id_for_scope s i scope of None \<Rightarrow> Inl EntityNotFound | Some k \<Rightarrow> Inr k)"

section \<open>Creation\<close>

record CreateRequest =
  cq_key_name :: string
  cq_permissions :: "string list"
  cq_application_id :: int
  cq_expires_days :: "int option"
  cq_allocated_percentage :: "rat option"
  cq_budget :: "rat option"

text \<open>
  \<open>_committed_total_for_application\<close>: an active key counts with its reservation or its use, whichever
  is greater, a revoked one with its use.
\<close>

definition committed_by :: "rat \<Rightarrow> (int, rat \<times> rat option) dict \<Rightarrow> APIKey \<Rightarrow> rat" where
  "committed_by application_budget usage k =
     (if ak_is_active k
      then max (case ak_allocated_percentage k of
                  Some p \<Rightarrow> dmul (ddiv p 100) application_budget
                | None \<Rightarrow> or_zero (ak_allocated_budget k))
               (used_of usage (ak_id k))
      else used_of usage (ak_id k))"

definition committed_total_for_application :: "Env \<Rightarrow> AuthState \<Rightarrow> int \<Rightarrow> rat \<Rightarrow> rat" where
  "committed_total_for_application env s app application_budget =
     (let ks = keys_by_application s app
      in dsum (map (committed_by application_budget (fetch_budget_usage env s (map ak_id ks))) ks))"

text \<open>The ceiling of a new key: exactly one of the two inputs, positive, as a percentage and an amount.\<close>

definition check_allocation_input :: "rat option \<Rightarrow> rat option \<Rightarrow> (auth_error, unit) res" where
  "check_allocation_input pct budget =
     (if pct \<noteq> None \<and> budget \<noteq> None then Inl (Validation ''PERCENTAGE_AMOUNT_MISMATCH'')
      else if pct = None \<and> budget = None then Inl (Validation ''ALLOCATION_REQUIRED'')
      else if \<not> pred_option (\<lambda>p. 0 < p) pct then Inl (Validation ''BUDGET_TOO_SMALL'')
      else if \<not> pred_option (\<lambda>b. 0 < b) budget then Inl (Validation ''BUDGET_TOO_SMALL'')
      else Inr ())"

definition resolve_ceiling :: "rat \<Rightarrow> rat option \<Rightarrow> rat option \<Rightarrow> (auth_error, rat \<times> rat) res" where
  "resolve_ceiling application_budget pct budget =
     (case budget of
        Some b \<Rightarrow>
          rbind (quantize round_half_up (dmul (ddiv b application_budget) 100)) (\<lambda>p.
          if p = 0 then Inl (Validation ''BUDGET_TOO_SMALL'')
          else rbind (quantize round_half_up b) (\<lambda>amount. Inr (p, amount)))
      | None \<Rightarrow>
          (let p = or_zero pct; amount = ddiv (dmul application_budget p) 100
           in rbind (quantize round_half_up amount) (\<lambda>q.
              if q \<le> 0 then Inl (Validation ''BUDGET_TOO_SMALL'') else Inr (p, amount))))"

definition create_checks :: "Permission list \<Rightarrow> Env \<Rightarrow> int option \<Rightarrow> CreateRequest \<Rightarrow> AuthState
    \<Rightarrow> (auth_error, Application \<times> Tenant \<times> int list \<times> rat \<times> rat) res" where
  "create_checks ps env caller_tenant_id rq s =
     rbind (guard (pred_option (\<lambda>d. 1 \<le> d) (cq_expires_days rq)) (Validation ''INVALID_EXPIRES_DAYS'')) (\<lambda>_.
     case (case caller_tenant_id of
             Some t \<Rightarrow> app_by_id_for_tenant s (cq_application_id rq) t
           | None \<Rightarrow> app_by_id s (cq_application_id rq)) of
       None \<Rightarrow> Inl (Http 404 ''APPLICATION_NOT_FOUND'')
     | Some a \<Rightarrow>
         (case tenant_by_id s (ap_tenant_id a) of
            None \<Rightarrow> Inl (Http 404 ''APPLICATION_NOT_FOUND'')
          | Some t \<Rightarrow>
              rbind (guard (\<not> is_budget_window_expired (en_now env) (tn_budget_effective_to t)) (Validation ''BUDGET_EXPIRED'')) (\<lambda>_.
              rbind (guard (tn_tier_id t \<noteq> None \<and> tn_tier_id t \<noteq> Some []) (Validation ''NO_ACTIVE_TIER'')) (\<lambda>_.
              rbind (resolve_permission_names ps (cq_permissions rq)) (\<lambda>permission_ids.
              rbind (check_allocation_input (cq_allocated_percentage rq) (cq_budget rq)) (\<lambda>_.
              case app_by_id s (cq_application_id rq) of
                None \<Rightarrow> Inl (Http 404 ''APPLICATION_NOT_FOUND'')
              | Some locked \<Rightarrow>
                  (case ap_allocated_budget locked of
                     None \<Rightarrow> Inl (Validation ''APPLICATION_BUDGET_NOT_SET'')
                   | Some budget \<Rightarrow>
                       rbind (guard (0 < budget) (Validation ''APPLICATION_BUDGET_NOT_SET'')) (\<lambda>_.
                       rbind (resolve_ceiling budget (cq_allocated_percentage rq) (cq_budget rq)) (\<lambda>(pct, amount).
                       rbind (guard (\<not> 100 < dadd (sum_api_key_allocated_percentage s (cq_application_id rq)) pct)
                                (Validation ''ALLOCATION_TOTAL_EXCEEDED'')) (\<lambda>_.
                       rbind (guard (\<not> budget < dadd (committed_total_for_application env s (cq_application_id rq) budget) amount)
                                (Validation ''BUDGET_OVERCOMMITTED'')) (\<lambda>_.
                       Inr (locked, t, permission_ids, pct, amount))))))))))))"

text \<open>The row as the table stores it: both numbers go through their columns.\<close>

definition new_key_row :: "Settings \<Rightarrow> Env \<Rightarrow> string \<Rightarrow> int \<Rightarrow> string \<Rightarrow> CreateRequest \<Rightarrow> int list \<Rightarrow> rat \<Rightarrow> rat \<Rightarrow> AuthState
    \<Rightarrow> (auth_error, APIKey) res" where
  "new_key_row cfg env actor new_id raw_key rq permission_ids pct amount s =
     rbind (days_from (en_now env) (case cq_expires_days rq of None \<Rightarrow> st_api_key_expire_days cfg | Some d \<Rightarrow> d)) (\<lambda>expires_at.
     case (pg_numeric 5 2 pct, pg_numeric 15 2 amount) of
       (Some p, Some b) \<Rightarrow>
         if raw_key \<in> ak_api_key ` set (au_keys s) then Inl (DbFailed DB_UniqueViolation)
         else Inr \<lparr>ak_id = new_id, ak_application_id = cq_application_id rq, ak_key_name = cq_key_name rq, ak_api_key = raw_key,
                ak_allocated_percentage = Some p, ak_allocated_budget = Some b, ak_permissions = permission_ids,
                ak_expires_at = Some expires_at, ak_is_active = True, ak_created_at = en_now env, ak_created_by = Some actor,
                ak_updated_by = Some actor, ak_cached_data = None, ak_rotated_key = None, ak_rotated_key_expires_at = None,
                ak_rotated_at = None\<rparr>
     | _ \<Rightarrow> Inl (DbFailed DB_NumericOverflow))"

text \<open>
  After the commit the ceiling goes to the ledger, best effort, and the key into Redis and its own
  snapshot when its application and tenant may use keys.
\<close>

definition create_api_key ::
  "Settings \<Rightarrow> Permission list \<Rightarrow> Env \<Rightarrow> string \<Rightarrow> int option \<Rightarrow> int \<Rightarrow> string \<Rightarrow> CreateRequest \<Rightarrow> AuthState
    \<Rightarrow> (string \<times> APIKey \<times> bool) outcome" where
  "create_api_key cfg ps env actor caller_tenant_id new_id raw_key rq s =
     (case rbind (create_checks ps env caller_tenant_id rq s) (\<lambda>(a, t, permission_ids, pct, amount).
           rbind (new_key_row cfg env actor new_id raw_key rq permission_ids pct amount s) (\<lambda>k.
           Inr (a, t, amount, k))) of
        Inl e \<Rightarrow> (Inl e, s)
      | Inr (a, t, amount, k) \<Rightarrow>
          let s1 = s\<lparr>au_keys := au_keys s @ [k]\<rparr>;
              s2 = snd (write_budget_snapshot env [(ak_id k, amount)] s1);
              exhausted = amount \<le> 0
          in if application_may_use_api_keys (Some a) (Some t)
             then if \<not> en_redis env then (Inl RedisFailed, s2)
                  else
                    let payload = build_cache_payload k (Some (show_int (tn_id t))) (tn_budget_effective_to t)
                          ((''tier_id'', C_str (case tn_tier_id t of None \<Rightarrow> ''None'' | Some v \<Rightarrow> v))
                           # (if exhausted then [(''budget-exhausted'', C_str ''1'')] else []));
                        days = (case cq_expires_days rq of None \<Rightarrow> st_api_key_expire_days cfg | Some d \<Rightarrow> d);
                        s3 = s2\<lparr>au_redis := set_api_key_cache (en_now env) raw_key (days * 86400) payload (au_redis s2)\<rparr>
                    in (Inr (raw_key, k, exhausted), persist_cache_snapshot (ak_id k) payload s3)
             else (Inr (raw_key, k, exhausted), s2))"

definition create_api_key_route ::
  "Settings \<Rightarrow> Permission list \<Rightarrow> Env \<Rightarrow> User \<Rightarrow> int \<Rightarrow> string \<Rightarrow> CreateRequest \<Rightarrow> AuthState \<Rightarrow> (string \<times> APIKey \<times> bool) outcome" where
  "create_api_key_route cfg ps env user new_id raw_key rq s =
     (case resolve_caller_tenant_scope s user of
        Inl e \<Rightarrow> (Inl e, s)
      | Inr scope \<Rightarrow> create_api_key cfg ps env (us_id user) scope new_id raw_key rq s)"

section \<open>Validation\<close>

datatype validation = InvalidFormat | ValidKey payload

definition is_cache_entry_invalid :: "payload \<Rightarrow> bool" where
  "is_cache_entry_invalid cached \<longleftrightarrow> dict_get cached ''is_already_invalid'' = Some (C_str ''1'')"

definition get_by_api_key_if_valid :: "datetime \<Rightarrow> AuthState \<Rightarrow> string \<Rightarrow> (auth_error, APIKey option) res" where
  "get_by_api_key_if_valid now s value =
     (case filter (\<lambda>k. (ak_api_key k = value \<or> ak_rotated_key k = Some value \<and> pred_option (\<lambda>e. now < e) (ak_rotated_key_expires_at k)
                          \<and> ak_rotated_key_expires_at k \<noteq> None)
                       \<and> active_key_conditions now False k) (au_keys s) of
        [] \<Rightarrow> Inr None
      | [k] \<Rightarrow> Inr (Some k)
      | _ \<Rightarrow> Inl (DbFailed DB_CardinalityViolation))"

definition is_key_eligible :: "AuthState \<Rightarrow> APIKey \<Rightarrow> bool" where
  "is_key_eligible s k =
     (let (app, tenant) = application_and_tenant s k in app \<noteq> None \<and> application_may_use_api_keys app tenant)"

definition rehydrate_cache_from_db :: "Settings \<Rightarrow> datetime \<Rightarrow> APIKey \<Rightarrow> string \<Rightarrow> AuthState \<Rightarrow> payload outcome" where
  "rehydrate_cache_from_db cfg now k token s =
     (case ak_cached_data k of
        None \<Rightarrow> (Inl InvalidAPIKey, s)
      | Some payload \<Rightarrow>
          if payload = [] then (Inl InvalidAPIKey, s)
          else if cache_ttl_for cfg now k token \<le> 0 then (Inr payload, s)
          else (Inr payload, s\<lparr>au_redis := set_api_key_cache now token (cache_ttl_for cfg now k token) payload (au_redis s)\<rparr>))"

definition tombstone_invalid_token :: "Settings \<Rightarrow> datetime \<Rightarrow> string \<Rightarrow> AuthState \<Rightarrow> AuthState" where
  "tombstone_invalid_token cfg now token s =
     s\<lparr>au_redis := set_api_key_cache now token (st_invalid_api_key_cache_ttl_seconds cfg)
                     [(''is_already_invalid'', C_str ''1'')] (au_redis s)\<rparr>"

definition resolve_from_db_or_tombstone :: "Settings \<Rightarrow> datetime \<Rightarrow> string \<Rightarrow> AuthState \<Rightarrow> payload outcome" where
  "resolve_from_db_or_tombstone cfg now token s =
     (case get_by_api_key_if_valid now s token of
        Inl e \<Rightarrow> (Inl e, s)
      | Inr None \<Rightarrow> (Inl InvalidAPIKey, tombstone_invalid_token cfg now token s)
      | Inr (Some k) \<Rightarrow>
          if \<not> is_key_eligible s k then (Inl InvalidAPIKey, tombstone_invalid_token cfg now token s)
          else rehydrate_cache_from_db cfg now k token s)"

definition validate_api_key :: "Settings \<Rightarrow> Env \<Rightarrow> string \<Rightarrow> AuthState \<Rightarrow> validation outcome" where
  "validate_api_key cfg env token s =
     (if \<not> is_api_key token then (Inr InvalidFormat, s)
      else if \<not> en_redis env then (Inl RedisFailed, s)
      else case get_api_key_cache (en_now env) (au_redis s) token of
             Some cached \<Rightarrow> if is_cache_entry_invalid cached then (Inl InvalidAPIKey, s) else (Inr (ValidKey cached), s)
           | None \<Rightarrow>
               (case resolve_from_db_or_tombstone cfg (en_now env) token s of
                  (Inl e, s') \<Rightarrow> (Inl e, s')
                | (Inr payload, s') \<Rightarrow> (Inr (ValidKey payload), s')))"

section \<open>Revocation\<close>

definition revoke_by_obj :: "Env \<Rightarrow> APIKey \<Rightarrow> AuthState \<Rightarrow> unit outcome" where
  "revoke_by_obj env k s =
     (let s1 = update_key (ak_id k) (\<lambda>r. r\<lparr>ak_is_active := False\<rparr>) s
      in if \<not> en_redis env then (Inl RedisFailed, s1)
         else (Inr (), s1\<lparr>au_redis := delete_key_caches k (au_redis s1)\<rparr>))"

definition revoke_api_key_route :: "Env \<Rightarrow> User \<Rightarrow> int \<Rightarrow> AuthState \<Rightarrow> unit outcome" where
  "revoke_api_key_route env user key_id s =
     (case scoped_key s user key_id of Inl e \<Rightarrow> (Inl e, s) | Inr k \<Rightarrow> revoke_by_obj env k s)"

section \<open>Update\<close>

text \<open>
  The fields that were set in the body (\<open>exclude_unset\<close>): a field may be set to null.  A null
  \<open>permissions\<close> column reads as the empty list everywhere.
\<close>

record UpdateRequest =
  uq_key_name :: "string option option"
  uq_permissions :: "string list option option"
  uq_expires_days :: "int option option"

definition new_permissions :: "Permission list \<Rightarrow> UpdateRequest \<Rightarrow> APIKey \<Rightarrow> (auth_error, int list) res" where
  "new_permissions ps rq k =
     (case uq_permissions rq of
        None \<Rightarrow> Inr (ak_permissions k)
      | Some None \<Rightarrow> Inr []
      | Some (Some names) \<Rightarrow> resolve_permission_names ps names)"

definition new_expiry :: "datetime \<Rightarrow> UpdateRequest \<Rightarrow> APIKey \<Rightarrow> (auth_error, datetime option \<times> datetime option) res" where
  "new_expiry now rq k =
     (case uq_expires_days rq of
        Some (Some days) \<Rightarrow>
          if days < 1 then Inl (Validation ''INVALID_EXPIRES_DAYS'')
          else rbind (days_from now days) (\<lambda>e.
            Inr (Some e, case ak_rotated_key_expires_at k of None \<Rightarrow> None | Some r \<Rightarrow> Some (if e < r then e else r)))
      | _ \<Rightarrow> Inr (ak_expires_at k, ak_rotated_key_expires_at k))"

definition new_name :: "UpdateRequest \<Rightarrow> APIKey \<Rightarrow> (auth_error, string) res" where
  "new_name rq k =
     (case uq_key_name rq of None \<Rightarrow> Inr (ak_key_name k) | Some None \<Rightarrow> Inl NotNullViolation | Some (Some n) \<Rightarrow> Inr n)"

definition updated_row :: "Permission list \<Rightarrow> datetime \<Rightarrow> string \<Rightarrow> UpdateRequest \<Rightarrow> APIKey \<Rightarrow> (auth_error, APIKey) res" where
  "updated_row ps now actor rq k =
     rbind (new_permissions ps rq k) (\<lambda>permissions.
     rbind (new_expiry now rq k) (\<lambda>(expires_at, rotated_expires_at).
     rbind (new_name rq k) (\<lambda>name.
     Inr (k\<lparr>ak_key_name := name, ak_permissions := permissions, ak_expires_at := expires_at,
            ak_rotated_key_expires_at := rotated_expires_at, ak_updated_by := Some actor\<rparr>))))"

definition update_key_by_obj :: "Settings \<Rightarrow> Permission list \<Rightarrow> Env \<Rightarrow> string \<Rightarrow> UpdateRequest \<Rightarrow> APIKey \<Rightarrow> AuthState \<Rightarrow> APIKey outcome" where
  "update_key_by_obj cfg ps env actor rq k s =
     (case updated_row ps (en_now env) actor rq k of
        Inl e \<Rightarrow> (Inl e, s)
      | Inr k1 \<Rightarrow>
          let s1 = update_key (ak_id k) (\<lambda>_. k1) s;
              (app, tenant) = application_and_tenant s1 k1;
              tenant_id = map_option (\<lambda>a. show_int (ap_tenant_id a)) app;
              effective_to = Option.bind tenant tn_budget_effective_to
          in if app \<noteq> None \<and> effective_is_active (en_now env) k1 app tenant
             then (case refresh_redis_cache cfg env k1 tenant_id effective_to s1 of
                     Inl e \<Rightarrow> (Inl e, s1)
                   | Inr s2 \<Rightarrow> (Inr k1, s2))
             else if \<not> en_redis env then (Inl RedisFailed, s1)
             else (Inr k1, persist_current_state_to_cached_data k1 tenant_id effective_to
                             (s1\<lparr>au_redis := delete_key_caches k1 (au_redis s1)\<rparr>)))"

definition update_api_key_route :: "Settings \<Rightarrow> Permission list \<Rightarrow> Env \<Rightarrow> User \<Rightarrow> int \<Rightarrow> UpdateRequest \<Rightarrow> AuthState \<Rightarrow> APIKey outcome" where
  "update_api_key_route cfg ps env user key_id rq s =
     (if uq_key_name rq = None \<and> uq_permissions rq = None \<and> uq_expires_days rq = None
      then (Inl (Validation ''NOTHING_TO_UPDATE''), s)
      else case scoped_key s user key_id of
             Inl e \<Rightarrow> (Inl e, s)
           | Inr k \<Rightarrow> update_key_by_obj cfg ps env (us_id user) rq k s)"

section \<open>Rotation\<close>

definition key_value_in_use :: "AuthState \<Rightarrow> string \<Rightarrow> bool" where
  "key_value_in_use s v \<longleftrightarrow> (\<exists>k \<in> set (au_keys s). ak_api_key k = v \<or> ak_rotated_key k = Some v)"

definition generate_unused_key :: "AuthState \<Rightarrow> string list \<Rightarrow> (auth_error, string) res" where
  "generate_unused_key s drawn =
     (case filter (\<lambda>v. \<not> key_value_in_use s v) (take 3 drawn) of
        [] \<Rightarrow> Inl (AppErr 503 ''API_KEY_GENERATION_FAILED'')
      | v # _ \<Rightarrow> Inr v)"

text \<open>
  The three guarded statements of the repository: each answers whether its row was still in the state
  the service had seen.
\<close>

definition rotate_row :: "datetime \<Rightarrow> string \<Rightarrow> datetime \<Rightarrow> string \<Rightarrow> APIKey \<Rightarrow> APIKey" where
  "rotate_row now new_value rotated_expires_at actor k =
     k\<lparr>ak_rotated_key := Some (ak_api_key k), ak_api_key := new_value, ak_rotated_key_expires_at := Some rotated_expires_at,
       ak_rotated_at := Some now, ak_cached_data := map_option (dict_set ''api_key'' (C_str new_value)) (ak_cached_data k),
       ak_updated_by := Some actor\<rparr>"

definition rotate :: "datetime \<Rightarrow> int \<Rightarrow> string \<Rightarrow> string \<Rightarrow> datetime \<Rightarrow> string \<Rightarrow> AuthState \<Rightarrow> bool \<times> AuthState" where
  "rotate now key_id current_value new_value rotated_expires_at actor s =
     (let c = (\<lambda>k. ak_id k = key_id \<and> ak_api_key k = current_value \<and> active_key_conditions now False k \<and>
                (ak_rotated_key k = None \<or> pred_option (\<lambda>e. e \<le> now) (ak_rotated_key_expires_at k)))
      in if \<exists>k \<in> set (au_keys s). c k
         then (True, s\<lparr>au_keys := map (\<lambda>k. if c k then rotate_row now new_value rotated_expires_at actor k else k) (au_keys s)\<rparr>)
         else (False, s))"

definition end_rotation :: "datetime \<Rightarrow> int \<Rightarrow> string \<Rightarrow> string \<Rightarrow> AuthState \<Rightarrow> bool \<times> AuthState" where
  "end_rotation now key_id rotated_value actor s =
     (let c = (\<lambda>k. ak_id k = key_id \<and> ak_rotated_key k = Some rotated_value \<and> active_key_conditions now False k)
      in if \<exists>k \<in> set (au_keys s). c k
         then (True, s\<lparr>au_keys := map (\<lambda>k. if c k
                 then k\<lparr>ak_rotated_key := None, ak_rotated_key_expires_at := None, ak_updated_by := Some actor\<rparr> else k) (au_keys s)\<rparr>)
         else (False, s))"

definition extend_rotation :: "datetime \<Rightarrow> int \<Rightarrow> string \<Rightarrow> datetime \<Rightarrow> string \<Rightarrow> AuthState \<Rightarrow> bool \<times> AuthState" where
  "extend_rotation now key_id rotated_value new_expires_at actor s =
     (let c = (\<lambda>k. ak_id k = key_id \<and> ak_rotated_key k = Some rotated_value \<and>
                (case ak_rotated_key_expires_at k of None \<Rightarrow> False | Some e \<Rightarrow> now < e \<and> e < new_expires_at) \<and>
                pred_option (\<lambda>e. new_expires_at \<le> e) (ak_expires_at k) \<and> active_key_conditions now False k)
      in if \<exists>k \<in> set (au_keys s). c k
         then (True, s\<lparr>au_keys := map (\<lambda>k. if c k
                 then k\<lparr>ak_rotated_key_expires_at := Some new_expires_at, ak_updated_by := Some actor\<rparr> else k) (au_keys s)\<rparr>)
         else (False, s))"

text \<open>The committed row again, after one of these statements.\<close>

definition reread :: "AuthState \<Rightarrow> APIKey \<Rightarrow> APIKey" where
  "reread s k = (case find (\<lambda>r. ak_id r = ak_id k) (au_keys s) of None \<Rightarrow> k | Some r \<Rightarrow> r)"

text \<open>
  The cache half of a rotation.  A failing Redis is logged and the new value is returned all the same:
  every command fails then, so nothing is written.
\<close>

definition rotation_cache :: "Settings \<Rightarrow> Env \<Rightarrow> Application \<Rightarrow> Tenant option \<Rightarrow> string \<Rightarrow> APIKey \<Rightarrow> AuthState \<Rightarrow> AuthState" where
  "rotation_cache cfg env a tenant old_value k s =
     (if \<not> en_redis env then s
      else case refresh_redis_cache cfg env k (Some (show_int (ap_tenant_id a))) (Option.bind tenant tn_budget_effective_to) s of
             Inl _ \<Rightarrow> s\<lparr>au_redis := delete_key_caches k (au_redis s)\<rparr>
           | Inr s1 \<Rightarrow>
               let s2 = (if live_rotated_key (en_now env) k = None
                         then s1\<lparr>au_redis := delete_api_key_cache old_value (au_redis s1)\<rparr> else s1);
                   (app', tenant') = application_and_tenant s2 (reread s2 k)
               in if app' = None \<or> \<not> effective_is_active (en_now env) (reread s2 k) app' tenant'
                  then s2\<lparr>au_redis := delete_key_caches (reread s2 k) (au_redis s2)\<rparr> else s2)"

definition rotate_by_obj :: "Settings \<Rightarrow> Env \<Rightarrow> string list \<Rightarrow> string \<Rightarrow> int \<Rightarrow> APIKey \<Rightarrow> AuthState \<Rightarrow> (string \<times> APIKey) outcome" where
  "rotate_by_obj cfg env drawn actor grace_days k s =
     (case application_and_tenant s k of
        (None, _) \<Rightarrow> (Inl (AppErr 409 ''API_KEY_NOT_ROTATABLE''), s)
      | (Some a, tenant) \<Rightarrow>
          if \<not> effective_is_active (en_now env) k (Some a) tenant then (Inl (AppErr 409 ''API_KEY_NOT_ROTATABLE''), s)
          else if live_rotated_key (en_now env) k \<noteq> None then (Inl (AppErr 409 ''ROTATION_IN_PROGRESS''), s)
          else
            case rbind (days_from (en_now env) grace_days) (\<lambda>rotated_expires_at.
                 rbind (guard (pred_option (\<lambda>e. rotated_expires_at \<le> e) (ak_expires_at k)) (Validation ''INVALID_GRACE_PERIOD'')) (\<lambda>_.
                 rbind (generate_unused_key s drawn) (\<lambda>new_value. Inr (rotated_expires_at, new_value)))) of
              Inl e \<Rightarrow> (Inl e, s)
            | Inr (rotated_expires_at, new_value) \<Rightarrow>
                (case rotate (en_now env) (ak_id k) (ak_api_key k) new_value rotated_expires_at actor s of
                   (False, _) \<Rightarrow> (Inl (AppErr 409 ''ROTATION_IN_PROGRESS''), s)
                 | (True, s1) \<Rightarrow>
                     let s2 = rotation_cache cfg env a tenant (ak_api_key k) (reread s1 k) s1
                     in (Inr (new_value, reread s2 k), s2)))"

definition end_rotation_by_obj :: "Env \<Rightarrow> string \<Rightarrow> APIKey \<Rightarrow> AuthState \<Rightarrow> APIKey outcome" where
  "end_rotation_by_obj env actor k s =
     (case (live_rotated_key (en_now env) k, live_rotated_key_expires_at (en_now env) k) of
        (Some old_value, Some _) \<Rightarrow>
          (case end_rotation (en_now env) (ak_id k) old_value actor s of
             (False, _) \<Rightarrow> (Inl (AppErr 409 ''NO_ROTATION_IN_PROGRESS''), s)
           | (True, s1) \<Rightarrow>
               (Inr (reread s1 k),
                if en_redis env then s1\<lparr>au_redis := delete_api_key_cache old_value (au_redis s1)\<rparr> else s1))
      | _ \<Rightarrow> (Inl (AppErr 409 ''NO_ROTATION_IN_PROGRESS''), s))"

definition extend_rotation_by_obj :: "Settings \<Rightarrow> Env \<Rightarrow> datetime \<Rightarrow> string \<Rightarrow> APIKey \<Rightarrow> AuthState \<Rightarrow> APIKey outcome" where
  "extend_rotation_by_obj cfg env new_expires_at actor k s =
     (case (live_rotated_key (en_now env) k, live_rotated_key_expires_at (en_now env) k) of
        (Some old_value, Some current_end) \<Rightarrow>
          if new_expires_at \<le> current_end then (Inl (Validation ''INVALID_GRACE_EXTENSION''), s)
          else if \<not> pred_option (\<lambda>e. new_expires_at \<le> e) (ak_expires_at k) then (Inl (Validation ''INVALID_GRACE_EXTENSION''), s)
          else (case extend_rotation (en_now env) (ak_id k) old_value new_expires_at actor s of
                  (False, _) \<Rightarrow> (Inl (AppErr 409 ''NO_ROTATION_IN_PROGRESS''), s)
                | (True, s1) \<Rightarrow>
                    let k1 = reread s1 k; (app, tenant) = application_and_tenant s1 k1
                    in (case app of
                          None \<Rightarrow> (Inr k1, s1)
                        | Some a \<Rightarrow>
                            if effective_is_active (en_now env) k1 app tenant
                            then (case refresh_redis_cache cfg env k1 (Some (show_int (ap_tenant_id a)))
                                        (Option.bind tenant tn_budget_effective_to) s1 of
                                    Inl _ \<Rightarrow> (Inr k1, s1) | Inr s2 \<Rightarrow> (Inr (reread s2 k), s2))
                            else (Inr k1, s1)))
      | _ \<Rightarrow> (Inl (AppErr 409 ''NO_ROTATION_IN_PROGRESS''), s))"

definition rotate_api_key_route :: "Settings \<Rightarrow> Env \<Rightarrow> User \<Rightarrow> string list \<Rightarrow> int \<Rightarrow> int \<Rightarrow> AuthState \<Rightarrow> (string \<times> APIKey) outcome" where
  "rotate_api_key_route cfg env user drawn key_id grace_days s =
     (case scoped_key s user key_id of Inl e \<Rightarrow> (Inl e, s) | Inr k \<Rightarrow> rotate_by_obj cfg env drawn (us_id user) grace_days k s)"

definition revoke_previous_api_key_value :: "Env \<Rightarrow> User \<Rightarrow> int \<Rightarrow> AuthState \<Rightarrow> APIKey outcome" where
  "revoke_previous_api_key_value env user key_id s =
     (case scoped_key s user key_id of Inl e \<Rightarrow> (Inl e, s) | Inr k \<Rightarrow> end_rotation_by_obj env (us_id user) k s)"

definition extend_previous_api_key_value :: "Settings \<Rightarrow> Env \<Rightarrow> User \<Rightarrow> int \<Rightarrow> datetime \<Rightarrow> AuthState \<Rightarrow> APIKey outcome" where
  "extend_previous_api_key_value cfg env user key_id new_expires_at s =
     (case scoped_key s user key_id of
        Inl e \<Rightarrow> (Inl e, s) | Inr k \<Rightarrow> extend_rotation_by_obj cfg env new_expires_at (us_id user) k s)"

end
