(* ===== verification/Alloc_Validator.thy ===== *)
theory Alloc_Validator
  imports Auth_Models
begin

text \<open>
  The one algorithm that resolves a parent's money across its children
  (\<open>services/allocation_validator.py\<close>) and the request schema in front of it
  (\<open>schemas/allocation.py\<close>).  The validator is pure: rows in, rows or an error out.
\<close>

section \<open>The request schema\<close>

datatype AllocationType = PERCENTAGE | FIXED

record AllocationValue =
  av_type :: AllocationType
  av_value :: pydec

definition PCT_MAX_DIGITS :: nat where "PCT_MAX_DIGITS = 5"
definition AMT_MAX_DIGITS :: nat where "AMT_MAX_DIGITS = 15"
definition DECIMAL_PLACES :: int where "DECIMAL_PLACES = 2"

definition digit_count :: "pydec \<Rightarrow> nat" where
  "digit_count d = length (show_pos \<bar>fst d\<bar>)"

definition decimal_places :: "pydec \<Rightarrow> int" where
  "decimal_places d = (if snd d < 0 then - snd d else 0)"

text \<open>\<open>Field(..., ge=0)\<close> and the validator: whether the model accepts the value.\<close>

definition check_bounds_and_precision :: "AllocationValue \<Rightarrow> bool" where
  "check_bounds_and_precision v \<longleftrightarrow>
     0 \<le> dval (av_value v) \<and> decimal_places (av_value v) \<le> DECIMAL_PLACES \<and>
     (case av_type v of
        PERCENTAGE \<Rightarrow> dval (av_value v) \<le> 100 \<and> digit_count (av_value v) \<le> PCT_MAX_DIGITS
      | FIXED \<Rightarrow> digit_count (av_value v) \<le> AMT_MAX_DIGITS)"

text \<open>The same model builds the responses, from decimals with two places.\<close>

definition response_value :: "AllocationType \<Rightarrow> rat \<Rightarrow> (auth_error, AllocationValue) res" where
  "response_value ty x =
     (let v = \<lparr>av_type = ty, av_value = (\<lfloor>x * 100\<rfloor>, -2)\<rparr>
      in if check_bounds_and_precision v then Inr v else Inl ResponseInvalid)"

section \<open>Rows of the validator\<close>

record AllocationRow =
  ar_id :: int
  ar_allocated_amount :: rat
  ar_allocated_percentage :: rat
  ar_consumed_amount :: rat
  ar_has_children :: bool
  ar_label :: "string option"

record ExplicitInput =
  ei_id :: int
  ei_percentage :: "rat option"
  ei_amount :: "rat option"

record ResolvedRow =
  rr_id :: int
  rr_amount :: rat
  rr_percentage :: rat
  rr_changed :: bool

definition explicit_input :: "int \<Rightarrow> AllocationValue \<Rightarrow> ExplicitInput" where
  "explicit_input i a =
     (case av_type a of
        PERCENTAGE \<Rightarrow> \<lparr>ei_id = i, ei_percentage = Some (dval (av_value a)), ei_amount = None\<rparr>
      | FIXED \<Rightarrow> \<lparr>ei_id = i, ei_percentage = None, ei_amount = Some (dval (av_value a))\<rparr>)"

section \<open>Converting one explicit row\<close>

text \<open>
  Exactly one of percentage and amount is given; the other is computed from it.  A parent of zero
  makes every amount zero percent.
\<close>

definition convert :: "ExplicitInput \<Rightarrow> rat \<Rightarrow> (auth_error, rat \<times> rat) res" where
  "convert e parent =
     (case (ei_percentage e, ei_amount e) of
        (None, Some a) \<Rightarrow>
          rbind (quantize round_half_up a) (\<lambda>amount.
          rbind (quantize round_half_up (if parent \<noteq> 0 then dmul (ddiv amount parent) 100 else 0)) (\<lambda>percentage.
          Inr (amount, percentage)))
      | (Some p, None) \<Rightarrow>
          rbind (quantize round_half_up p) (\<lambda>percentage.
          rbind (quantize round_half_up (ddiv (dmul parent percentage) 100)) (\<lambda>amount.
          Inr (amount, percentage)))
      | _ \<Rightarrow> Inl (Validation ''PERCENTAGE_AMOUNT_MISMATCH''))"

section \<open>Resolving one level\<close>

text \<open>
  One explicit row: converted, and refused when it would push the ceiling below what the child has
  already consumed, unless it re-affirms the ceiling the child already has.
\<close>

definition resolve_row :: "rat \<Rightarrow> (int, AllocationRow) dict \<Rightarrow> int \<times> ExplicitInput \<Rightarrow> rat \<times> (int, ResolvedRow) dict
    \<Rightarrow> (auth_error, rat \<times> (int, ResolvedRow) dict) res" where
  "resolve_row parent children_by_id ce acc =
     (case dict_get children_by_id (fst ce) of
        None \<Rightarrow> Inl EntityNotFound
      | Some child \<Rightarrow>
          rbind (convert (snd ce) parent) (\<lambda>(amount, percentage).
            if amount < ar_consumed_amount child \<and> amount \<noteq> ar_allocated_amount child
            then Inl (Validation ''ALLOCATION_BELOW_CONSUMED'')
            else Inr (dadd (fst acc) amount,
                      dict_set (fst ce)
                        \<lparr>rr_id = fst ce, rr_amount = amount, rr_percentage = percentage,
                         rr_changed = (amount \<noteq> ar_allocated_amount child)\<rparr> (snd acc))))"

definition resolve_level :: "rat \<Rightarrow> AllocationRow list \<Rightarrow> ExplicitInput list \<Rightarrow> (auth_error, ResolvedRow list) res" where
  "resolve_level parent children explicit =
     (let children_by_id = dict_of ar_id children;
          explicit_by_id = dict_of ei_id explicit
      in if \<not> set (dict_keys explicit_by_id) \<subseteq> set (dict_keys children_by_id) then Inl EntityNotFound
         else if parent < dsum (map ar_consumed_amount children) then Inl (Validation ''BUDGET_OVERCOMMITTED'')
         else rbind (res_fold (resolve_row parent children_by_id) explicit_by_id (0, [])) (\<lambda>(explicit_total, resolved).
           if parent < explicit_total then Inl (Validation ''ALLOCATION_TOTAL_EXCEEDED'')
           else
             let unlisted = filter (\<lambda>c. ar_id c \<notin> set (dict_keys explicit_by_id)) children;
                 sibling_total = dadd explicit_total (dsum (map ar_allocated_amount unlisted));
                 drift_tolerance = dmul (1 / 100) (of_nat (length children))
             in if dadd parent drift_tolerance < sibling_total then Inl (Validation ''ALLOCATION_TOTAL_EXCEEDED'')
                else Inr (List.map_filter (\<lambda>c. dict_get resolved (ar_id c)) children)))"

section \<open>What one explicit row resolves to\<close>

text \<open>
  The rows a level may be called with: distinct children with well-typed amounts, and explicit rows
  that came through the schema.
\<close>

definition level_ok :: "AllocationRow list \<Rightarrow> bool" where
  "level_ok children \<longleftrightarrow> distinct (map ar_id children) \<and> length children < 10 ^ 20 \<and>
     (\<forall>c \<in> set children. money (ar_allocated_amount c))"

definition explicit_ok :: "ExplicitInput \<Rightarrow> bool" where
  "explicit_ok e \<longleftrightarrow> pred_option (\<lambda>p. 0 \<le> p \<and> p \<le> 100) (ei_percentage e) \<and> pred_option (\<lambda>a. 0 \<le> a) (ei_amount e)"

lemma schema_explicit_ok: "check_bounds_and_precision a \<Longrightarrow> explicit_ok (explicit_input i a)"
  by (auto simp: check_bounds_and_precision_def explicit_ok_def explicit_input_def split: AllocationType.splits)

lemma pg_round_of_nat [simp]: "pg_round 2 (of_nat n) = of_nat n" "pg_round 2 (numeral k) = numeral k"
proof -
  show "pg_round 2 (of_nat n) = of_nat n"
    using has_scale_int [of 2 "int n"] by (simp add: pg_round_id)
  show "pg_round 2 (numeral k) = numeral k"
    using has_scale_int [of 2 "numeral k"] by (simp add: pg_round_id)
qed

lemma dfix_100 [simp]: "dfix 100 = 100"
  using dfix_exact [of 100 0] by simp

lemma dfix_1 [simp]: "dfix 1 = 1"
  using dfix_exact [of 1 0] by simp

text \<open>A share that fits its parent is at most one hundred percent.\<close>

lemma share_le_100: "0 \<le> a \<Longrightarrow> a \<le> parent \<Longrightarrow> parent \<noteq> 0 \<Longrightarrow> dmul (ddiv a parent) 100 \<le> 100"
proof -
  assume a: "0 \<le> a" "a \<le> parent" "parent \<noteq> 0"
  have "dfix (a / parent) \<le> dfix 1" using a by (intro dfix_mono) (auto simp: divide_le_eq_1)
  then have "dfix (dfix (a / parent) * 100) \<le> dfix 100" using a by (intro dfix_mono) (auto simp: field_simps)
  then show ?thesis by (simp add: dmul_def ddiv_def)
qed

lemma convert_typed:
  assumes "convert e parent = Inr (amount, percentage)" "explicit_ok e" "0 \<le> parent"
  shows "cents amount" "cents percentage" "amount \<le> parent \<Longrightarrow> percentage \<le> 100"
proof -
  consider (amt) a where "ei_percentage e = None" "ei_amount e = Some a" "0 \<le> a"
      "quantize round_half_up a = Inr amount"
      "quantize round_half_up (if parent \<noteq> 0 then dmul (ddiv amount parent) 100 else 0) = Inr percentage"
    | (pct) p where "ei_percentage e = Some p" "0 \<le> p" "p \<le> 100"
      "quantize round_half_up p = Inr percentage"
      "quantize round_half_up (ddiv (dmul parent percentage) 100) = Inr amount"
    using assms by (auto simp: convert_def explicit_ok_def split: option.splits)
  then have "cents amount \<and> cents percentage \<and> (amount \<le> parent \<longrightarrow> percentage \<le> 100)"
  proof cases
    case amt
    have "amount = pg_round 2 a" using amt(4) by (rule quantize_up_pg)
    then have a: "amount = pg_round 2 a" "cents amount" using amt(3) by (simp_all add: cents_def)
    have p: "percentage = pg_round 2 (if parent \<noteq> 0 then dmul (ddiv amount parent) 100 else 0)"
      using amt(5) by (rule quantize_up_pg)
    moreover have "0 \<le> (if parent \<noteq> 0 then dmul (ddiv amount parent) 100 else 0)"
      using a assms(3) by (auto simp: cents_def dmul_def ddiv_def)
    moreover have "percentage \<le> 100" if "amount \<le> parent"
    proof -
      have "(if parent \<noteq> 0 then dmul (ddiv amount parent) 100 else 0) \<le> 100"
        using share_le_100 [of amount parent] that a by (auto simp: cents_def)
      then have "percentage \<le> pg_round 2 100" unfolding p by (rule pg_round_mono)
      then show ?thesis by simp
    qed
    ultimately show ?thesis using a by (simp add: cents_def del: pg_round_of_nat)
  next
    case pct
    have p: "percentage = pg_round 2 p" using pct(4) by (rule quantize_up_pg)
    then have "0 \<le> percentage" "percentage \<le> pg_round 2 100"
      using pct(2,3) pg_round_mono [of p 100 2] by simp_all
    moreover have "amount = pg_round 2 (ddiv (dmul parent percentage) 100)"
      using pct(5) by (rule quantize_up_pg)
    ultimately show ?thesis using p assms(3) by (auto simp: cents_def ddiv_def dmul_def)
  qed
  then show "cents amount" "cents percentage" "amount \<le> parent \<Longrightarrow> percentage \<le> 100" by simp_all
qed

section \<open>What a level resolves to\<close>

lemma dict_set_fresh: "k \<notin> fst ` set d \<Longrightarrow> dict_set k v d = d @ [(k, v)]"
  by (induction d) auto

lemma dict_of_ids: "dict_of ar_id cs = map (\<lambda>c. (ar_id c, c)) cs" if "distinct (map ar_id cs)"
  using that
proof (induction cs rule: rev_induct)
  case (snoc c cs)
  then show ?case by (auto simp: dict_of_def dict_set_fresh image_image)
qed (simp add: dict_of_def)

lemma distinct_dict_of [simp]: "distinct (map fst (dict_of k xs))"
  by (induction xs rule: rev_induct) (simp_all add: dict_of_def)

lemma keys_dict_of [simp]: "fst ` set (dict_of k xs) = k ` set xs"
  by (induction xs rule: rev_induct) (simp_all add: dict_of_def)

lemma dict_of_entry: "(i, x) \<in> set (dict_of k xs) \<Longrightarrow> x \<in> set xs \<and> k x = i"
proof (induction xs rule: rev_induct)
  case (snoc y xs)
  then show ?case by (auto simp: dict_of_def dest!: set_dict_set)
qed (simp add: dict_of_def)

text \<open>The row a child got, and the rules it obeys.\<close>

definition row_fits :: "rat \<Rightarrow> AllocationRow list \<Rightarrow> (int, ExplicitInput) dict \<Rightarrow> ResolvedRow \<Rightarrow> bool" where
  "row_fits parent children explicit_by_id r \<longleftrightarrow>
     (\<exists>c e. c \<in> set children \<and> ar_id c = rr_id r \<and> (rr_id r, e) \<in> set explicit_by_id \<and>
        convert e parent = Inr (rr_amount r, rr_percentage r) \<and>
        rr_changed r = (rr_amount r \<noteq> ar_allocated_amount c) \<and>
        (ar_consumed_amount c \<le> rr_amount r \<or> rr_amount r = ar_allocated_amount c))"

lemma resolve_row_Inr:
  assumes "resolve_row parent cb (i, e) (t, d) = Inr x"
  obtains c amount percentage where "dict_get cb i = Some c" "convert e parent = Inr (amount, percentage)"
    "ar_consumed_amount c \<le> amount \<or> amount = ar_allocated_amount c"
    "x = (dadd t amount, dict_set i \<lparr>rr_id = i, rr_amount = amount, rr_percentage = percentage,
            rr_changed = (amount \<noteq> ar_allocated_amount c)\<rparr> d)"
proof (cases "dict_get cb i")
  case (Some c)
  with assms obtain amount percentage where conv: "convert e parent = Inr (amount, percentage)"
    by (cases "convert e parent") (auto simp: resolve_row_def)
  with Some assms show thesis
    by (intro that [of c amount percentage])
      (auto simp: resolve_row_def simp del: split_paired_All split_paired_Ex split: if_splits)
qed (use assms in \<open>simp add: resolve_row_def\<close>)

lemma resolve_rows:
  assumes "res_fold (resolve_row parent (map (\<lambda>c. (ar_id c, c)) children)) ex (t, d) = Inr (t', d')"
    and "distinct (map fst ex)" "fst ` set ex \<inter> fst ` set d = {}" "set ex \<subseteq> set explicit_by_id"
  shows "\<exists>rs. d' = d @ map (\<lambda>r. (rr_id r, r)) rs \<and> map rr_id rs = map fst ex \<and>
     t' = foldl dadd t (map rr_amount rs) \<and> (\<forall>r \<in> set rs. row_fits parent children explicit_by_id r)"
  using assms
proof (induction ex arbitrary: t d)
  case (Cons ie ex)
  obtain i e where ie: "ie = (i, e)" by (cases ie)
  from Cons.prems(1) obtain x where step: "resolve_row parent (map (\<lambda>c. (ar_id c, c)) children) (i, e) (t, d) = Inr x"
    and nxt: "res_fold (resolve_row parent (map (\<lambda>c. (ar_id c, c)) children)) ex x = Inr (t', d')"
    by (auto simp: ie simp del: split_paired_Ex)
  obtain c amount percentage where c: "map_of (map (\<lambda>c. (ar_id c, c)) children) i = Some c"
    and conv: "convert e parent = Inr (amount, percentage)"
    and floor: "ar_consumed_amount c \<le> amount \<or> amount = ar_allocated_amount c"
    and x: "x = (dadd t amount, dict_set i \<lparr>rr_id = i, rr_amount = amount, rr_percentage = percentage,
                   rr_changed = (amount \<noteq> ar_allocated_amount c)\<rparr> d)"
    using step by (rule resolve_row_Inr)
  define r where "r = \<lparr>rr_id = i, rr_amount = amount, rr_percentage = percentage,
                       rr_changed = (amount \<noteq> ar_allocated_amount c)\<rparr>"
  have fresh: "dict_set i r d = d @ [(i, r)]" using Cons.prems(3) by (intro dict_set_fresh) (auto simp: ie)
  have rest: "res_fold (resolve_row parent (map (\<lambda>c. (ar_id c, c)) children)) ex (dadd t amount, d @ [(i, r)]) = Inr (t', d')"
    using nxt unfolding x r_def [symmetric] fresh .
  have "\<exists>rs. d' = (d @ [(i, r)]) @ map (\<lambda>r. (rr_id r, r)) rs \<and> map rr_id rs = map fst ex \<and>
     t' = foldl dadd (dadd t amount) (map rr_amount rs) \<and> (\<forall>r \<in> set rs. row_fits parent children explicit_by_id r)"
    using rest Cons.prems(2-4) by (intro Cons.IH) (auto simp: ie)
  then obtain rs where rs: "d' = (d @ [(i, r)]) @ map (\<lambda>r. (rr_id r, r)) rs" "map rr_id rs = map fst ex"
     "t' = foldl dadd (dadd t amount) (map rr_amount rs)" "\<forall>r \<in> set rs. row_fits parent children explicit_by_id r"
    by blast
  have "row_fits parent children explicit_by_id r"
    using c conv floor Cons.prems(4) unfolding row_fits_def
    by (intro exI [of _ c] exI [of _ e]) (auto simp: r_def ie dest: map_of_SomeD)
  then show ?case using rs by (intro exI [of _ "r # rs"]) (simp add: r_def ie)
qed simp

text \<open>The money a child holds after the call.\<close>

definition amount_after :: "ResolvedRow list \<Rightarrow> AllocationRow \<Rightarrow> rat" where
  "amount_after rows c = (case find (\<lambda>r. rr_id r = ar_id c) rows of Some r \<Rightarrow> rr_amount r | None \<Rightarrow> ar_allocated_amount c)"

lemma resolve_level_Inr:
  assumes ok: "resolve_level parent children explicit = Inr rows" and dist: "distinct (map ar_id children)"
  obtains rs where
    "map rr_id rs = map fst (dict_of ei_id explicit)"
    "\<forall>r \<in> set rs. row_fits parent children (dict_of ei_id explicit) r"
    "rows = List.map_filter (\<lambda>c. map_of (map (\<lambda>r. (rr_id r, r)) rs) (ar_id c)) children"
    "ei_id ` set explicit \<subseteq> ar_id ` set children"
    "dsum (map ar_consumed_amount children) \<le> parent"
    "dsum (map rr_amount rs) \<le> parent"
    "dadd (dsum (map rr_amount rs)) (dsum (map ar_allocated_amount (filter (\<lambda>c. ar_id c \<notin> ei_id ` set explicit) children)))
       \<le> dadd parent (dmul (1 / 100) (of_nat (length children)))"
proof -
  let ?ex = "dict_of ei_id explicit"
  from ok obtain t d where fold: "res_fold (resolve_row parent (map (\<lambda>c. (ar_id c, c)) children)) ?ex (0, []) = Inr (t, d)"
    and rows: "rows = List.map_filter (\<lambda>c. map_of d (ar_id c)) children"
    and gates: "\<not> parent < t" "\<not> parent < dsum (map ar_consumed_amount children)" "ei_id ` set explicit \<subseteq> ar_id ` set children"
     "\<not> dadd parent (dmul (1 / 100) (of_nat (length children))) <
        dadd t (dsum (map ar_allocated_amount (filter (\<lambda>c. ar_id c \<notin> ei_id ` set explicit) children)))"
    by (auto simp: resolve_level_def Let_def dict_of_ids [OF dist] image_image split: if_splits)
  from resolve_rows [OF fold, of ?ex] obtain rs where rs: "d = map (\<lambda>r. (rr_id r, r)) rs"
    "map rr_id rs = map fst ?ex" "t = dsum (map rr_amount rs)" "\<forall>r \<in> set rs. row_fits parent children ?ex r"
    by (auto simp: dsum_def)
  show thesis
    using rs rows gates by (intro that [of rs]) (simp_all add: linorder_not_less)
qed

lemma sum_list_mset: "mset xs = mset ys \<Longrightarrow> sum_list xs = (sum_list ys :: rat)"
  by (metis sum_mset_sum_list)

lemma sum_list_mset_map: "mset xs = mset ys \<Longrightarrow> sum_list (map f xs) = (sum_list (map f ys) :: rat)"
  by (rule sum_list_mset) (simp only: mset_map)

lemma resolved_rows_of:
  assumes "distinct (map ar_id children)" "distinct (map rr_id rs)" "rr_id ` set rs \<subseteq> ar_id ` set children"
    and rows: "rows = List.map_filter (\<lambda>c. map_of (map (\<lambda>r. (rr_id r, r)) rs) (ar_id c)) children"
  shows "set rows = set rs" "distinct rows" "map rr_id rows = filter (\<lambda>i. i \<in> rr_id ` set rs) (map ar_id children)"
    "sum_list (map rr_amount rows) = sum_list (map rr_amount rs)"
proof -
  have row: "map_of (map (\<lambda>r. (rr_id r, r)) rs) i = Some r \<longleftrightarrow> r \<in> set rs \<and> rr_id r = i" for i r
    using assms(2) by (induction rs) (auto simp: image_iff)
  have none: "map_of (map (\<lambda>r. (rr_id r, r)) rs) i = None \<longleftrightarrow> i \<notin> rr_id ` set rs" for i
    by (simp add: map_of_eq_None_iff image_image)
  show ids: "map rr_id rows = filter (\<lambda>i. i \<in> rr_id ` set rs) (map ar_id children)"
    unfolding rows
  proof (induction children)
    case (Cons c children)
    show ?case
    proof (cases "map_of (map (\<lambda>r. (rr_id r, r)) rs) (ar_id c)")
      case None
      with Cons none [of "ar_id c"] show ?thesis by (simp add: List.map_filter_simps)
    next
      case (Some r)
      with row [of "ar_id c" r] have "r \<in> set rs" "rr_id r = ar_id c" by simp_all
      with Some Cons show ?thesis by (force simp: List.map_filter_simps)
    qed
  qed (simp add: List.map_filter_simps)
  show "set rows = set rs"
  proof
    show "set rows \<subseteq> set rs" using row by (auto simp: rows List.map_filter_def) (metis option.sel row)
    show "set rs \<subseteq> set rows"
    proof
      fix r assume r: "r \<in> set rs"
      then obtain c where c: "c \<in> set children" "ar_id c = rr_id r" using assms(3) by (metis image_iff subset_iff)
      with r row have "map_of (map (\<lambda>r. (rr_id r, r)) rs) (ar_id c) = Some r" by simp
      with c(1) show "r \<in> set rows" by (force simp: rows List.map_filter_def)
    qed
  qed
  have "distinct (map rr_id rows)" unfolding ids using assms(1) by simp
  then show "distinct rows" by (simp add: distinct_map)
  then have "mset rows = mset rs"
    using \<open>set rows = set rs\<close> assms(2) by (metis distinct_map set_eq_iff_mset_eq_distinct)
  then show "sum_list (map rr_amount rows) = sum_list (map rr_amount rs)"
    by (rule sum_list_mset_map)
qed

lemma find_id: "distinct (map rr_id rows) \<Longrightarrow> r \<in> set rows \<Longrightarrow> find (\<lambda>r'. rr_id r' = rr_id r) rows = Some r"
  by (rule find_distinct)

lemma amount_after_sum:
  assumes "distinct (map ar_id children)" "distinct (map rr_id rows)" "rr_id ` set rows \<subseteq> ar_id ` set children"
  shows "sum_list (map (amount_after rows) children) =
    sum_list (map rr_amount rows) + sum_list (map ar_allocated_amount (filter (\<lambda>c. ar_id c \<notin> rr_id ` set rows) children))"
proof -
  let ?listed = "\<lambda>c. ar_id c \<in> rr_id ` set rows"
  have "sum_list (map (amount_after rows) children) =
      sum_list (map (amount_after rows) (filter ?listed children)) +
      sum_list (map (amount_after rows) (filter (\<lambda>c. \<not> ?listed c) children))"
    by (induction children) auto
  also have "map (amount_after rows) (filter (\<lambda>c. \<not> ?listed c) children) =
      map ar_allocated_amount (filter (\<lambda>c. \<not> ?listed c) children)"
  proof (rule map_cong [OF refl])
    fix c assume "c \<in> set (filter (\<lambda>c. \<not> ?listed c) children)"
    then have "find (\<lambda>r. rr_id r = ar_id c) rows = None" by (auto simp: find_None_iff image_iff)
    then show "amount_after rows c = ar_allocated_amount c" by (simp add: amount_after_def)
  qed
  also have "sum_list (map (amount_after rows) (filter ?listed children)) = sum_list (map rr_amount rows)"
  proof -
    let ?amt = "\<lambda>i. case find (\<lambda>r. rr_id r = i) rows of Some r \<Rightarrow> rr_amount r | None \<Rightarrow> 0"
    have c: "map (amount_after rows) (filter ?listed children) = map ?amt (map ar_id (filter ?listed children))"
      using find_id [OF assms(2)] by (auto simp: amount_after_def)
    have r: "map rr_amount rows = map ?amt (map rr_id rows)"
      using find_id [OF assms(2)] by auto
    have "distinct (map ar_id (filter ?listed children))" using assms(1) by (rule distinct_map_filter)
    moreover have "set (map ar_id (filter ?listed children)) = set (map rr_id rows)" using assms(3) by force
    ultimately have "mset (map ar_id (filter ?listed children)) = mset (map rr_id rows)"
      using assms(2) set_eq_iff_mset_eq_distinct by blast
    then have "mset (map ?amt (map ar_id (filter ?listed children))) = mset (map ?amt (map rr_id rows))"
      by (simp only: mset_map)
    then show ?thesis unfolding c using r sum_list_mset by metis
  qed
  finally show ?thesis .
qed

section \<open>Properties of a level\<close>

text \<open>
  Everything a successful call establishes, for well-typed rows: the rows it returns and what the
  children hold afterwards.
\<close>

lemma resolve_level_spec:
  assumes ok: "resolve_level parent children explicit = Inr rows" and level: "level_ok children"
    and explicit: "\<forall>e \<in> set explicit. explicit_ok e" and parent: "money parent"
  shows "map rr_id rows = filter (\<lambda>i. i \<in> ei_id ` set explicit) (map ar_id children)" (is ?ids)
    and "\<forall>r \<in> set rows. row_fits parent children (dict_of ei_id explicit) r" (is ?fits)
    and "sum_list (map rr_amount rows) \<le> parent" (is ?sum)
    and "\<forall>r \<in> set rows. cents (rr_amount r) \<and> rr_amount r \<le> parent \<and> cents (rr_percentage r) \<and> rr_percentage r \<le> 100" (is ?typed)
    and "sum_list (map (amount_after rows) children) \<le> parent + of_nat (length children) / 100" (is ?total)
proof -
  have dist: "distinct (map ar_id children)" using level by (simp add: level_ok_def)
  obtain rs where rs: "map rr_id rs = map fst (dict_of ei_id explicit)"
    "\<forall>r \<in> set rs. row_fits parent children (dict_of ei_id explicit) r"
    "rows = List.map_filter (\<lambda>c. map_of (map (\<lambda>r. (rr_id r, r)) rs) (ar_id c)) children"
    "ei_id ` set explicit \<subseteq> ar_id ` set children" "dsum (map ar_consumed_amount children) \<le> parent"
    "dsum (map rr_amount rs) \<le> parent"
    "dadd (dsum (map rr_amount rs)) (dsum (map ar_allocated_amount (filter (\<lambda>c. ar_id c \<notin> ei_id ` set explicit) children)))
       \<le> dadd parent (dmul (1 / 100) (of_nat (length children)))"
    by (rule resolve_level_Inr [OF ok dist])
  have "set (map rr_id rs) = set (map fst (dict_of ei_id explicit))" by (simp only: rs(1))
  then have ids: "rr_id ` set rs = ei_id ` set explicit" by simp
  have drs: "distinct (map rr_id rs)" by (simp add: rs(1))
  note of_rs = resolved_rows_of [OF dist drs _ rs(3), unfolded ids, OF rs(4)]
  show ?ids using of_rs(3) .
  show fits: ?fits using rs(2) of_rs(1) by simp
  have p0: "0 \<le> parent" using parent by (simp add: money_def)
  have conv: "\<exists>e. explicit_ok e \<and> convert e parent = Inr (rr_amount r, rr_percentage r)" if "r \<in> set rows" for r
    using fits that explicit by (auto simp: row_fits_def dest!: bspec dict_of_entry)
  have amounts: "\<forall>x \<in> set (map rr_amount rs). cents x"
    using conv convert_typed(1) [OF _ _ p0] of_rs(1) by fastforce
  have psmall: "parent < 10 ^ 26" using parent by (simp add: money_def)
  then have exact: "dsum (map rr_amount rs) = sum_list (map rr_amount rs)"
    using rs(6) amounts by (intro dsum_exact) auto
  with rs(6) of_rs(4) show sum: ?sum by simp
  have le: "rr_amount r \<le> parent" if "r \<in> set rows" for r
  proof -
    have "rr_amount r \<le> sum_list (map rr_amount rows)"
      using that amounts of_rs(1) by (intro member_le_sum_list) (auto simp: cents_def)
    with sum show ?thesis by simp
  qed
  show ?typed using conv le convert_typed [OF _ _ p0] by metis
  define tol where "tol = (of_nat (length children) :: rat) / 100"
  have n: "(of_nat (length children) :: rat) < 10 ^ 20"
  proof -
    have "(of_nat (length children) :: rat) < of_nat (10 ^ 20)" using level by (simp only: level_ok_def of_nat_less_iff)
    then show ?thesis by simp
  qed
  have tol: "cents tol" "tol < 10 ^ 18"
    using n by (auto simp: tol_def cents_def has_scale_iff intro!: exI [of _ "int (length children)"])
  have "dmul (1 / 100) (of_nat (length children)) = tol"
    using tol unfolding dmul_def by (subst dfix_scale [of 2]) (auto simp: tol_def cents_def)
  moreover have "dadd parent tol = parent + tol"
    using parent tol by (intro dadd_cents) (auto simp: money_def cents_def)
  ultimately have gate: "dadd (sum_list (map rr_amount rs))
      (dsum (map ar_allocated_amount (filter (\<lambda>c. ar_id c \<notin> ei_id ` set explicit) children))) \<le> parent + tol"
    using rs(7) by (simp add: exact)
  have others: "\<forall>x \<in> set (map ar_allocated_amount (filter (\<lambda>c. ar_id c \<notin> ei_id ` set explicit) children)). cents x"
    using level by (auto simp: level_ok_def dest: money_cents)
  have "dadd (sum_list (map rr_amount rs))
      (dsum (map ar_allocated_amount (filter (\<lambda>c. ar_id c \<notin> ei_id ` set explicit) children))) < 10 ^ 26"
    using gate parent tol by (simp add: money_def)
  from dadd_dsum_exact [OF cents_sum_list [OF amounts] others this] gate
  have "sum_list (map rr_amount rs) + sum_list (map ar_allocated_amount (filter (\<lambda>c. ar_id c \<notin> ei_id ` set explicit) children))
      \<le> parent + tol" by simp
  moreover have "rr_id ` set rows = ei_id ` set explicit" using ids of_rs(1) by simp
  moreover have "distinct (map rr_id rows)" unfolding of_rs(3) using dist by simp
  ultimately show ?total
    using amount_after_sum [OF dist, of rows] rs(4) of_rs(4) by (simp add: tol_def)
qed

end
