(* ===== verification/Allocation.thy ===== *)
theory Allocation
  imports Alloc_Validator Api_Key_Cache
begin

text \<open>
  \<open>AllocationService\<close> (\<open>services/allocation_service.py\<close>): the endpoints that divide a tenant's budget
  among its applications and an application's among its keys, and the revision of a tenant's own
  budget.  Each endpoint authorizes the caller, resolves a level with the validator, persists what
  changed, commits once, copies the new ceilings into the budget ledger and recomputes the exhaustion
  flags.  An error before the commit leaves every table as it was.  The row locks serialize requests,
  so a request is one step.
\<close>

section \<open>Requests and responses\<close>

record APIKeyAllocationRow =
  kr_api_key_id :: int
  kr_allocation :: AllocationValue

record ApplicationAllocationRow =
  pr_application_id :: int
  pr_allocation :: AllocationValue
  pr_api_keys :: "APIKeyAllocationRow list"

record APIKeyAllocationResponseItem =
  ki_api_key_id :: int
  ki_allocation :: AllocationValue
  ki_allocated_budget :: rat

record ApplicationAllocationResponseItem =
  pi_application_id :: int
  pi_allocation :: AllocationValue
  pi_allocated_budget :: rat
  pi_api_keys :: "APIKeyAllocationResponseItem list option"

definition response_allocation :: "int \<Rightarrow> rat \<Rightarrow> rat \<Rightarrow> int list \<Rightarrow> (auth_error, AllocationValue) res" where
  "response_allocation i amount percentage fixed_ids =
     (if i \<in> set fixed_ids then response_value FIXED amount else response_value PERCENTAGE percentage)"

section \<open>Children\<close>

definition active :: "APIKey list \<Rightarrow> APIKey list" where
  "active ks = filter ak_is_active ks"

definition active_applications :: "Application list \<Rightarrow> Application list" where
  "active_applications as = filter (\<lambda>a. ap_status a = APP_ACTIVE) as"

definition consumed_total :: "APIKey list \<Rightarrow> (int, rat \<times> rat option) dict \<Rightarrow> rat" where
  "consumed_total ks usage = dsum (map (\<lambda>k. used_of usage (ak_id k)) ks)"

text \<open>
  \<open>_load_keys_and_usage\<close>: every key of the applications, revoked ones too, and what each has used.
\<close>

definition load_keys_and_usage :: "Env \<Rightarrow> AuthState \<Rightarrow> int list \<Rightarrow> (int \<Rightarrow> APIKey list) \<times> (int, rat \<times> rat option) dict" where
  "load_keys_and_usage env s app_ids =
     (let all_keys = keys_by_applications s app_ids
      in (\<lambda>a. filter (\<lambda>k. ak_application_id k = a) all_keys, fetch_budget_usage env s (map ak_id all_keys)))"

definition app_row :: "(int \<Rightarrow> APIKey list) \<Rightarrow> (int, rat \<times> rat option) dict \<Rightarrow> Application \<Rightarrow> AllocationRow" where
  "app_row keys_by_app usage a =
     \<lparr>ar_id = ap_id a, ar_allocated_amount = or_zero (ap_allocated_budget a),
      ar_allocated_percentage = or_zero (ap_allocated_percentage a),
      ar_consumed_amount = consumed_total (keys_by_app (ap_id a)) usage,
      ar_has_children = True, ar_label = Some (ap_name a)\<rparr>"

definition key_row :: "(int, rat \<times> rat option) dict \<Rightarrow> APIKey \<Rightarrow> AllocationRow" where
  "key_row usage k =
     \<lparr>ar_id = ak_id k, ar_allocated_amount = or_zero (ak_allocated_budget k),
      ar_allocated_percentage = or_zero (ak_allocated_percentage k),
      ar_consumed_amount = used_of usage (ak_id k), ar_has_children = False, ar_label = Some (ak_key_name k)\<rparr>"

section \<open>Persisting\<close>

text \<open>\<open>repo.update(entity, \<dots>)\<close> and its flush: the columns refuse what does not fit them.\<close>

definition column :: "nat \<Rightarrow> rat \<Rightarrow> (auth_error, rat) res" where
  "column p x = (case pg_numeric p 2 x of None \<Rightarrow> Inl (DbFailed DB_NumericOverflow) | Some y \<Rightarrow> Inr y)"

definition store_app :: "string \<Rightarrow> int \<Rightarrow> rat \<Rightarrow> rat \<Rightarrow> AuthState \<Rightarrow> (auth_error, AuthState) res" where
  "store_app user i amount percentage s =
     rbind (column 15 amount) (\<lambda>a. rbind (column 5 percentage) (\<lambda>p.
       Inr (update_app i (\<lambda>r. r\<lparr>ap_allocated_budget := Some a, ap_allocated_percentage := Some p, ap_updated_by := Some user\<rparr>) s)))"

definition store_key :: "string \<Rightarrow> int \<Rightarrow> rat \<Rightarrow> rat \<Rightarrow> AuthState \<Rightarrow> (auth_error, AuthState) res" where
  "store_key user i amount percentage s =
     rbind (column 15 amount) (\<lambda>a. rbind (column 5 percentage) (\<lambda>p.
       Inr (update_key i (\<lambda>r. r\<lparr>ak_allocated_budget := Some a, ak_allocated_percentage := Some p, ak_updated_by := Some user\<rparr>) s)))"

definition store_app_percentage :: "string \<Rightarrow> int \<Rightarrow> rat \<Rightarrow> AuthState \<Rightarrow> (auth_error, AuthState) res" where
  "store_app_percentage user i percentage s =
     rbind (column 5 percentage) (\<lambda>p. Inr (update_app i (\<lambda>r. r\<lparr>ap_allocated_percentage := Some p, ap_updated_by := Some user\<rparr>) s))"

definition store_key_percentage :: "string \<Rightarrow> int \<Rightarrow> rat \<Rightarrow> AuthState \<Rightarrow> (auth_error, AuthState) res" where
  "store_key_percentage user i percentage s =
     rbind (column 5 percentage) (\<lambda>p. Inr (update_key i (\<lambda>r. r\<lparr>ak_allocated_percentage := Some p, ak_updated_by := Some user\<rparr>) s))"

text \<open>
  \<open>_resolve_and_persist_level\<close>, shared by both levels: the update of the level's repository is the
  argument.  Every changed row is stored; \<open>changed_ceilings\<close> are the \<open>snapshot_writes\<close> of a key-level
  call.
\<close>

definition persist_rows :: "(int \<Rightarrow> rat \<Rightarrow> rat \<Rightarrow> AuthState \<Rightarrow> (auth_error, AuthState) res) \<Rightarrow> ResolvedRow list \<Rightarrow> AuthState \<Rightarrow> (auth_error, AuthState) res" where
  "persist_rows store rows s =
     res_fold (\<lambda>r s. if rr_changed r then store (rr_id r) (rr_amount r) (rr_percentage r) s else Inr s) rows s"

definition changed_ceilings :: "ResolvedRow list \<Rightarrow> (int, rat) dict \<Rightarrow> (int, rat) dict" where
  "changed_ceilings rows d = fold (\<lambda>r d. if rr_changed r then dict_set (rr_id r) (rr_amount r) d else d) rows d"

definition resolve_and_persist_level ::
  "(int \<Rightarrow> rat \<Rightarrow> rat \<Rightarrow> AuthState \<Rightarrow> (auth_error, AuthState) res) \<Rightarrow> rat \<Rightarrow> AllocationRow list \<Rightarrow> ExplicitInput list
    \<Rightarrow> AuthState \<Rightarrow> (auth_error, ResolvedRow list \<times> AuthState) res" where
  "resolve_and_persist_level store parent_amount children explicit s =
     rbind (resolve_level parent_amount children explicit) (\<lambda>rows.
     rbind (persist_rows store rows s) (\<lambda>s'. Inr (rows, s')))"

section \<open>Percentages of the children that were not listed\<close>

text \<open>
  \<open>_recompute_unlisted_percentages\<close>: the same money as a share of the parent's new total.  Every funded
  child but the last is rounded down, the last takes what is left of the rounded total; a child that
  never got money keeps its percentage and is not reported.
\<close>

fun recompute_funded :: "rat \<Rightarrow> rat \<Rightarrow> rat \<Rightarrow> (int \<times> rat) list \<Rightarrow> (auth_error, (int \<times> rat) list) res" where
  "recompute_funded new_amount target running [] = Inr []"
| "recompute_funded new_amount target running ((i, budget) # rest) =
     rbind (if rest = [] then Inr (dsub target running)
            else quantize round_down (dmul (ddiv budget new_amount) 100)) (\<lambda>p.
     rbind (recompute_funded new_amount target (dadd running p) rest) (\<lambda>ps. Inr ((i, p) # ps)))"

definition recompute_percentages :: "rat \<Rightarrow> (int \<times> rat option) list \<Rightarrow> (auth_error, (int \<times> rat) list) res" where
  "recompute_percentages new_amount entities =
     (let funded = map (\<lambda>(i, b). (i, or_zero b)) (filter (\<lambda>(i, b). or_zero b \<noteq> 0) entities)
      in if funded = [] then Inr []
         else if new_amount \<noteq> 0
              then rbind (quantize round_half_up (dmul (ddiv (dsum (map (or_zero \<circ> snd) entities)) new_amount) 100)) (\<lambda>target.
                   recompute_funded new_amount target 0 funded)
              else Inr (map (\<lambda>(i, _). (i, 0)) funded))"

text \<open>Only a percentage that differs from the stored one is written.\<close>

definition store_percentages :: "(int \<Rightarrow> rat \<Rightarrow> AuthState \<Rightarrow> (auth_error, AuthState) res) \<Rightarrow> (int \<Rightarrow> rat) \<Rightarrow> (int \<times> rat) list \<Rightarrow> AuthState \<Rightarrow> (auth_error, AuthState) res" where
  "store_percentages store current ps s =
     res_fold (\<lambda>(i, p) s. if p \<noteq> current i then store i p s else Inr s) ps s"

definition percentage_in :: "(int \<times> rat) list \<Rightarrow> int \<Rightarrow> rat" where
  "percentage_in d i = (case dict_get d i of None \<Rightarrow> 0 | Some p \<Rightarrow> p)"

definition recompute_key_percentages :: "string \<Rightarrow> rat \<Rightarrow> APIKey list \<Rightarrow> AuthState \<Rightarrow> (auth_error, (int \<times> rat) list \<times> AuthState) res" where
  "recompute_key_percentages user new_amount ks s =
     rbind (recompute_percentages new_amount (map (\<lambda>k. (ak_id k, ak_allocated_budget k)) ks)) (\<lambda>ps.
     rbind (store_percentages (store_key_percentage user)
              (percentage_in (map (\<lambda>k. (ak_id k, or_zero (ak_allocated_percentage k))) ks)) ps s) (\<lambda>s'. Inr (ps, s')))"

definition recompute_app_percentages :: "string \<Rightarrow> rat \<Rightarrow> Application list \<Rightarrow> AuthState \<Rightarrow> (auth_error, (int \<times> rat) list \<times> AuthState) res" where
  "recompute_app_percentages user new_amount as s =
     rbind (recompute_percentages new_amount (map (\<lambda>a. (ap_id a, ap_allocated_budget a)) as)) (\<lambda>ps.
     rbind (store_percentages (store_app_percentage user)
              (percentage_in (map (\<lambda>a. (ap_id a, or_zero (ap_allocated_percentage a))) as)) ps s) (\<lambda>s'. Inr (ps, s')))"

section \<open>The keys of an application\<close>

text \<open>
  The checks on the listed keys before the level is resolved: a key of this application that is not
  among the active ones is revoked, one of another application is misplaced, an unknown one is left to
  the validator; and every listed key must get a ceiling it can use.
\<close>

definition check_listed_key :: "AuthState \<Rightarrow> int option \<Rightarrow> APIKey list \<Rightarrow> APIKeyAllocationRow \<Rightarrow> (auth_error, unit) res" where
  "check_listed_key s owner existing row =
     (case owner of
        None \<Rightarrow> Inr ()
      | Some app \<Rightarrow>
          if kr_api_key_id row \<in> ak_id ` set existing then Inr ()
          else case key_by_id s (kr_api_key_id row) of
                 None \<Rightarrow> Inr ()
               | Some other \<Rightarrow>
                   if ak_application_id other = app then Inl (Validation ''API_KEY_REVOKED'')
                   else Inl (Validation ''KEY_APPLICATION_MISMATCH''))"

definition check_positive :: "rat option \<Rightarrow> APIKeyAllocationRow \<Rightarrow> (auth_error, unit) res" where
  "check_positive parent_amount row =
     (case parent_amount of
        None \<Rightarrow> Inl (Validation ''APPLICATION_BUDGET_NOT_SET'')
      | Some parent \<Rightarrow>
          if parent \<le> 0 then Inl (Validation ''APPLICATION_BUDGET_NOT_SET'')
          else rbind (convert (explicit_input (kr_api_key_id row) (kr_allocation row)) parent) (\<lambda>(amount, percentage).
            if amount \<le> 0 \<or> percentage \<le> 0 then Inl (Validation ''BUDGET_TOO_SMALL'') else Inr ()))"

definition fixed_key_ids :: "APIKeyAllocationRow list \<Rightarrow> int list" where
  "fixed_key_ids rows = map kr_api_key_id (filter (\<lambda>r. av_type (kr_allocation r) = FIXED) rows)"

definition resolve_and_persist_keys ::
  "string \<Rightarrow> rat \<Rightarrow> APIKeyAllocationRow list \<Rightarrow> APIKey list \<Rightarrow> (int, rat \<times> rat option) dict \<Rightarrow> int option \<Rightarrow> AuthState
    \<Rightarrow> (auth_error, ResolvedRow list \<times> AuthState) res" where
  "resolve_and_persist_keys user parent_amount nested existing usage owner s =
     rbind (res_map (check_listed_key s owner existing) nested) (\<lambda>_.
     rbind (res_map (check_positive (Some parent_amount)) nested) (\<lambda>_.
     resolve_and_persist_level (store_key user) parent_amount (map (key_row usage) existing)
       (map (\<lambda>r. explicit_input (kr_api_key_id r) (kr_allocation r)) nested) s))"

text \<open>The response lists the resolved keys first, then every other active key with what it has.\<close>

definition build_key_response ::
  "ResolvedRow list \<Rightarrow> APIKey list \<Rightarrow> int list \<Rightarrow> (int \<times> rat) list \<Rightarrow> (auth_error, APIKeyAllocationResponseItem list) res" where
  "build_key_response resolved existing fixed_ids recomputed =
     rbind (res_map (\<lambda>r. rbind (response_allocation (rr_id r) (rr_amount r) (rr_percentage r) fixed_ids) (\<lambda>v.
              Inr \<lparr>ki_api_key_id = rr_id r, ki_allocation = v, ki_allocated_budget = rr_amount r\<rparr>)) resolved) (\<lambda>listed.
     rbind (res_map (\<lambda>k.
              rbind (response_value PERCENTAGE
                       (case dict_get recomputed (ak_id k) of Some p \<Rightarrow> p | None \<Rightarrow> or_zero (ak_allocated_percentage k))) (\<lambda>v.
              Inr \<lparr>ki_api_key_id = ak_id k, ki_allocation = v, ki_allocated_budget = or_zero (ak_allocated_budget k)\<rparr>))
            (filter (\<lambda>k. ak_id k \<notin> rr_id ` set resolved) existing)) (\<lambda>others.
     Inr (listed @ others)))"

text \<open>
  \<open>_cascade_into_keys\<close>: the listed keys are resolved against the application's amount, and when that
  amount changed every other active key's percentage is recomputed; nobody's money moves unless it was
  listed.
\<close>

definition cascade_into_keys ::
  "string \<Rightarrow> int \<Rightarrow> rat \<Rightarrow> APIKeyAllocationRow list \<Rightarrow> APIKey list \<Rightarrow> (int, rat \<times> rat option) dict \<Rightarrow> bool
    \<Rightarrow> (int, rat) dict \<times> AuthState
    \<Rightarrow> (auth_error, APIKeyAllocationResponseItem list \<times> (int, rat) dict \<times> AuthState) res" where
  "cascade_into_keys user app amount nested existing usage amount_changed ws =
     rbind (resolve_and_persist_keys user amount nested existing usage (Some app) (snd ws)) (\<lambda>(resolved, s1).
     rbind (if amount_changed
            then recompute_key_percentages user amount (filter (\<lambda>k. ak_id k \<notin> rr_id ` set resolved) existing) s1
            else Inr ([], s1)) (\<lambda>(recomputed, s2).
     rbind (build_key_response resolved existing (fixed_key_ids nested) recomputed) (\<lambda>out.
     Inr (out, changed_ceilings resolved (fst ws), s2))))"

section \<open>After the commit\<close>

text \<open>
  \<open>_sync_key_exhaustion_flags\<close>: a key whose ceiling changed is exhausted exactly when its use has
  reached the new ceiling, the comparison the billing consumer makes.
\<close>

definition now_exhausted :: "(int, rat) dict \<Rightarrow> (int, rat \<times> rat option) dict \<Rightarrow> int list" where
  "now_exhausted writes usage = map fst (filter (\<lambda>(k, snap). snap \<le> used_of usage k) writes)"

definition now_clear :: "(int, rat) dict \<Rightarrow> (int, rat \<times> rat option) dict \<Rightarrow> int list" where
  "now_clear writes usage = map fst (filter (\<lambda>(k, snap). \<not> snap \<le> used_of usage k) writes)"

definition sync_key_exhaustion_flags :: "Env \<Rightarrow> (int, rat) dict \<Rightarrow> (int, rat \<times> rat option) dict \<Rightarrow> AuthState \<Rightarrow> unit outcome" where
  "sync_key_exhaustion_flags env writes usage s =
     (case set_budget_exhausted_for_keys env (now_exhausted writes usage) True s of
        (Inl e, s') \<Rightarrow> (Inl e, s')
      | (Inr _, s') \<Rightarrow> set_budget_exhausted_for_keys env (now_clear writes usage) False s')"

definition finalize :: "Env \<Rightarrow> (int, rat) dict \<Rightarrow> (int, rat \<times> rat option) dict \<Rightarrow> AuthState \<Rightarrow> unit outcome" where
  "finalize env writes usage s =
     sync_key_exhaustion_flags env writes usage (snd (write_budget_snapshot env writes s))"

text \<open>What is staged is committed by \<open>finalize\<close>; an error before it rolls back.\<close>

definition committed :: "AuthState \<Rightarrow> Env \<Rightarrow> (int, rat \<times> rat option) dict \<Rightarrow> (auth_error, 'a \<times> (int, rat) dict \<times> AuthState) res \<Rightarrow> 'a outcome" where
  "committed s env usage r =
     (case r of
        Inl e \<Rightarrow> (Inl e, s)
      | Inr (out, writes, s') \<Rightarrow>
          (case finalize env writes usage s' of (Inl e, s'') \<Rightarrow> (Inl e, s'') | (Inr _, s'') \<Rightarrow> (Inr out, s'')))"

section \<open>Tenant to applications\<close>

text \<open>An application that is listed, exists and is inactive is refused by name.\<close>

definition check_listed_app :: "Application list \<Rightarrow> ApplicationAllocationRow \<Rightarrow> (auth_error, unit) res" where
  "check_listed_app locked row =
     guard (pr_application_id row \<in> ap_id ` set (active_applications locked) \<or> pr_application_id row \<notin> ap_id ` set locked)
       (Validation ''APPLICATION_INACTIVE'')"

definition fixed_app_ids :: "ApplicationAllocationRow list \<Rightarrow> int list" where
  "fixed_app_ids rows = map pr_application_id (filter (\<lambda>r. av_type (pr_allocation r) = FIXED) rows)"

text \<open>The keys of one resolved application; the request row is the last one with its id.\<close>

definition cascade_app ::
  "string \<Rightarrow> ApplicationAllocationRow list \<Rightarrow> (int \<Rightarrow> APIKey list) \<Rightarrow> (int, rat \<times> rat option) dict \<Rightarrow> ResolvedRow
    \<Rightarrow> ApplicationAllocationResponseItem list \<times> (int, rat) dict \<times> AuthState
    \<Rightarrow> (auth_error, ApplicationAllocationResponseItem list \<times> (int, rat) dict \<times> AuthState) res" where
  "cascade_app user rows keys_by_app usage r acc =
     (let nested = (case dict_get (dict_of pr_application_id rows) (rr_id r) of None \<Rightarrow> [] | Some row \<Rightarrow> pr_api_keys row)
      in rbind (if rr_changed r \<or> nested \<noteq> []
                then rbind (cascade_into_keys user (rr_id r) (rr_amount r) nested (active (keys_by_app (rr_id r))) usage
                              (rr_changed r) (snd acc)) (\<lambda>(out, ws). Inr (Some out, ws))
                else Inr (None, snd acc)) (\<lambda>(out, ws).
         rbind (response_allocation (rr_id r) (rr_amount r) (rr_percentage r) (fixed_app_ids rows)) (\<lambda>v.
         Inr (fst acc @ [\<lparr>pi_application_id = rr_id r, pi_allocation = v, pi_allocated_budget = rr_amount r, pi_api_keys = out\<rparr>], ws))))"

definition stage_tenant_allocations ::
  "string \<Rightarrow> rat \<Rightarrow> ApplicationAllocationRow list \<Rightarrow> Application list \<Rightarrow> (int \<Rightarrow> APIKey list) \<Rightarrow> (int, rat \<times> rat option) dict \<Rightarrow> AuthState
    \<Rightarrow> (auth_error, ApplicationAllocationResponseItem list \<times> (int, rat) dict \<times> AuthState) res" where
  "stage_tenant_allocations user budget rows applications keys_by_app usage s =
     rbind (resolve_and_persist_level (store_app user) budget (map (app_row keys_by_app usage) applications)
              (map (\<lambda>r. explicit_input (pr_application_id r) (pr_allocation r)) rows) s) (\<lambda>(resolved, s1).
     rbind (res_fold (cascade_app user rows keys_by_app usage) resolved ([], [], s1)) (\<lambda>(out, ws).
     rbind (res_map (\<lambda>a. rbind (response_value PERCENTAGE (or_zero (ap_allocated_percentage a))) (\<lambda>v.
              Inr \<lparr>pi_application_id = ap_id a, pi_allocation = v,
                   pi_allocated_budget = or_zero (ap_allocated_budget a), pi_api_keys = None\<rparr>))
            (filter (\<lambda>a. ap_id a \<notin> rr_id ` set resolved) applications)) (\<lambda>untouched.
     Inr (out @ untouched, ws))))"

definition update_tenant_application_allocations ::
  "Env \<Rightarrow> User \<Rightarrow> int \<Rightarrow> ApplicationAllocationRow list \<Rightarrow> AuthState \<Rightarrow> ApplicationAllocationResponseItem list outcome" where
  "update_tenant_application_allocations env user tenant_id rows s =
     (case rbind (authorize_institution_scope s user tenant_id) (\<lambda>_.
           case tenant_by_id s tenant_id of
             None \<Rightarrow> Inl EntityNotFound
           | Some t \<Rightarrow>
               (case tn_allocated_budget t of
                  None \<Rightarrow> Inl (Validation ''TENANT_BUDGET_NOT_SET'')
                | Some budget \<Rightarrow>
                    rbind (guard (active_applications (apps_by_tenant s tenant_id) \<noteq> []) EntityNotFound) (\<lambda>_.
                    rbind (res_map (check_listed_app (apps_by_tenant s tenant_id)) rows) (\<lambda>_. Inr budget)))) of
        Inl e \<Rightarrow> (Inl e, s)
      | Inr budget \<Rightarrow>
          let applications = active_applications (apps_by_tenant s tenant_id);
              (keys_by_app, usage) = load_keys_and_usage env s (map ap_id applications)
          in committed s env usage (stage_tenant_allocations (us_id user) budget rows applications keys_by_app usage s))"

section \<open>Application to keys\<close>

definition load_and_lock_application :: "AuthState \<Rightarrow> User \<Rightarrow> int \<Rightarrow> (auth_error, Application \<times> rat) res" where
  "load_and_lock_application s user app_id =
     (case app_by_id s app_id of
        None \<Rightarrow> Inl EntityNotFound
      | Some a \<Rightarrow>
          rbind (authorize_institution_scope s user (ap_tenant_id a)) (\<lambda>_.
          case ap_allocated_budget a of
            None \<Rightarrow> Inl (Validation ''APPLICATION_BUDGET_NOT_SET'')
          | Some b \<Rightarrow> Inr (a, b)))"

definition assert_matches_current_application_allocation :: "Application \<Rightarrow> AllocationValue \<Rightarrow> (auth_error, unit) res" where
  "assert_matches_current_application_allocation a v =
     guard ((case av_type v of PERCENTAGE \<Rightarrow> ap_allocated_percentage a | FIXED \<Rightarrow> ap_allocated_budget a) = Some (dval (av_value v)))
       (Validation ''APPLICATION_ALLOCATION_MISMATCH'')"

definition stage_key_allocations ::
  "Env \<Rightarrow> string \<Rightarrow> Application \<Rightarrow> rat \<Rightarrow> APIKeyAllocationRow list \<Rightarrow> AuthState
    \<Rightarrow> (int, rat \<times> rat option) dict \<times> (auth_error, APIKeyAllocationResponseItem list \<times> (int, rat) dict \<times> AuthState) res" where
  "stage_key_allocations env user a budget nested s =
     (let existing = active (keys_by_application s (ap_id a));
          usage = fetch_budget_usage env s (map ak_id existing)
      in (usage,
          rbind (resolve_and_persist_keys user budget nested existing usage (Some (ap_id a)) s) (\<lambda>(resolved, s').
          rbind (build_key_response resolved existing (fixed_key_ids nested) []) (\<lambda>out.
          Inr (out, changed_ceilings resolved [], s')))))"

definition update_application_key_allocations ::
  "Env \<Rightarrow> User \<Rightarrow> int \<Rightarrow> ApplicationAllocationRow \<Rightarrow> AuthState \<Rightarrow> ApplicationAllocationResponseItem outcome" where
  "update_application_key_allocations env user app_id body s =
     (case rbind (guard (pr_application_id body = app_id) (Validation ''APPLICATION_ID_MISMATCH'')) (\<lambda>_.
           rbind (load_and_lock_application s user app_id) (\<lambda>(a, budget).
           rbind (assert_matches_current_application_allocation a (pr_allocation body)) (\<lambda>_. Inr (a, budget)))) of
        Inl e \<Rightarrow> (Inl e, s)
      | Inr (a, budget) \<Rightarrow>
          let (usage, staged) = stage_key_allocations env (us_id user) a budget (pr_api_keys body) s
          in (case committed s env usage staged of
                (Inl e, s') \<Rightarrow> (Inl e, s')
              | (Inr out, s') \<Rightarrow>
                  (Inr \<lparr>pi_application_id = app_id, pi_allocation = pr_allocation body,
                        pi_allocated_budget = budget, pi_api_keys = Some out\<rparr>, s')))"

text \<open>The single-key endpoint: the application comes from the key.\<close>

definition update_single_api_key_allocation ::
  "Env \<Rightarrow> User \<Rightarrow> int \<Rightarrow> APIKeyAllocationRow \<Rightarrow> AuthState \<Rightarrow> ApplicationAllocationResponseItem outcome" where
  "update_single_api_key_allocation env user key_id body s =
     (case rbind (guard (kr_api_key_id body = key_id) (Validation ''KEY_ID_MISMATCH'')) (\<lambda>_.
           case key_by_id s key_id of
             None \<Rightarrow> Inl EntityNotFound
           | Some k \<Rightarrow>
               rbind (guard (ak_is_active k) (Validation ''API_KEY_REVOKED'')) (\<lambda>_.
               load_and_lock_application s user (ak_application_id k))) of
        Inl e \<Rightarrow> (Inl e, s)
      | Inr (a, budget) \<Rightarrow>
          let (usage, staged) = stage_key_allocations env (us_id user) a budget
                 [\<lparr>kr_api_key_id = key_id, kr_allocation = kr_allocation body\<rparr>] s
          in (case committed s env usage staged of
                (Inl e, s') \<Rightarrow> (Inl e, s')
              | (Inr out, s') \<Rightarrow>
                  (case response_value PERCENTAGE (or_zero (ap_allocated_percentage a)) of
                     Inl e \<Rightarrow> (Inl e, s')
                   | Inr v \<Rightarrow> (Inr \<lparr>pi_application_id = ap_id a, pi_allocation = v,
                                    pi_allocated_budget = budget, pi_api_keys = Some out\<rparr>, s'))))"

section \<open>A tenant's own budget\<close>

text \<open>
  \<open>cascade_tenant_budget_revision\<close>: the validator is called for its gates only, no application's money
  moves, percentages are recomputed, nothing is committed here.
\<close>

definition cascade_tenant_budget_revision ::
  "Env \<Rightarrow> string \<Rightarrow> int \<Rightarrow> rat \<Rightarrow> AuthState \<Rightarrow> (auth_error, nat \<times> AuthState) res" where
  "cascade_tenant_budget_revision env user tenant_id new_amount s =
     (let applications = active_applications (apps_by_tenant s tenant_id)
      in if applications = [] then Inr (0, s)
         else
           let (keys_by_app, usage) = load_keys_and_usage env s (map ap_id applications);
               original = percentage_in (map (\<lambda>a. (ap_id a, or_zero (ap_allocated_percentage a))) applications)
           in rbind (resolve_level new_amount (map (app_row keys_by_app usage) applications) []) (\<lambda>_.
              rbind (recompute_app_percentages user new_amount applications s) (\<lambda>(ps, s').
              Inr (length (filter (\<lambda>(i, p). p \<noteq> original i) ps), s'))))"

end
