(* ===== verification/Allocation_Props.thy ===== *)
theory Allocation_Props
  imports Allocation
begin

text \<open>
  What the allocation endpoints keep: stored amounts fit their columns, the children of a parent never
  hold more than the parent up to the documented cent per child, money moves only where a row was
  listed, and a refused request changes nothing.
\<close>

section \<open>Well-typed tables\<close>

definition typed_app :: "Application \<Rightarrow> bool" where
  "typed_app a \<longleftrightarrow> pred_option money (ap_allocated_budget a) \<and> pred_option percent (ap_allocated_percentage a)"

definition typed_key :: "APIKey \<Rightarrow> bool" where
  "typed_key k \<longleftrightarrow> pred_option money (ak_allocated_budget k) \<and> pred_option percent (ak_allocated_percentage k)"

text \<open>Primary keys are distinct \<open>int4\<close> numbers and every numeric column holds what it can hold.\<close>

definition typed_state :: "AuthState \<Rightarrow> bool" where
  "typed_state s \<longleftrightarrow> tables_ok s \<and>
     (\<forall>a \<in> set (au_applications s). typed_app a \<and> is_int4_id (Some (ap_id a))) \<and>
     (\<forall>k \<in> set (au_keys s). typed_key k \<and> is_int4_id (Some (ak_id k))) \<and>
     (\<forall>t \<in> set (au_tenants s). pred_option money (tn_allocated_budget t))"

lemma int4_ids_few:
  assumes "distinct (map f xs)" "\<forall>x \<in> set xs. is_int4_id (Some (f x))"
  shows "length xs < 10 ^ 20"
proof -
  have "set (map f xs) \<subseteq> {1..INT4_MAX}" using assms(2) by (auto simp: is_int4_id_def)
  then have "card (set (map f xs)) \<le> card {1..INT4_MAX}" by (rule card_mono [rotated]) simp
  also have "\<dots> < 10 ^ 20" by (simp add: INT4_MAX_def)
  finally show ?thesis using assms(1) by (metis distinct_card length_map)
qed

lemma or_zero_money [simp]: "pred_option money v \<Longrightarrow> money (or_zero v)"
  by (cases v) (simp_all add: or_zero_def money_def)

lemma column_money: "money x \<Longrightarrow> column 15 x = Inr x"
  by (simp add: column_def pg_numeric_def pg_round_id money_def)

lemma column_percent: "percent x \<Longrightarrow> column 5 x = Inr x"
  by (simp add: column_def pg_numeric_def pg_round_id percent_def)

lemma column_cents: "column 5 x = Inr y \<Longrightarrow> cents x \<Longrightarrow> percent x"
  by (auto simp: column_def pg_numeric_def Let_def percent_def cents_def pg_round_id split: option.splits if_splits)

text \<open>The rows of the validator fit the columns they go to.\<close>

definition typed_rows :: "ResolvedRow list \<Rightarrow> bool" where
  "typed_rows rows \<longleftrightarrow> distinct (map rr_id rows) \<and> (\<forall>r \<in> set rows. money (rr_amount r) \<and> percent (rr_percentage r))"

lemma resolve_level_typed:
  assumes "resolve_level parent children explicit = Inr rows" "level_ok children" "\<forall>e \<in> set explicit. explicit_ok e" "money parent"
  shows "typed_rows rows"
proof -
  note spec = resolve_level_spec [OF assms]
  have "distinct (map rr_id rows)" unfolding spec(1) using assms(2) by (simp add: level_ok_def)
  moreover have "\<forall>r \<in> set rows. money (rr_amount r) \<and> percent (rr_percentage r)"
    using spec(4) assms(4) by (fastforce simp: money_def percent_def cents_def)
  ultimately show ?thesis by (simp add: typed_rows_def)
qed

section \<open>What persisting writes\<close>

text \<open>The row of a child among the resolved ones that changed.\<close>

definition changed_row :: "ResolvedRow list \<Rightarrow> int \<Rightarrow> ResolvedRow option" where
  "changed_row rows i = find (\<lambda>r. rr_id r = i \<and> rr_changed r) rows"

definition apply_row :: "('r \<Rightarrow> int) \<Rightarrow> (rat \<Rightarrow> rat \<Rightarrow> 'r \<Rightarrow> 'r) \<Rightarrow> ResolvedRow list \<Rightarrow> 'r \<Rightarrow> 'r" where
  "apply_row rid put rows x =
     (case changed_row rows (rid x) of None \<Rightarrow> x | Some r \<Rightarrow> put (rr_amount r) (rr_percentage r) x)"

definition apply_percentage :: "('r \<Rightarrow> int) \<Rightarrow> (rat \<Rightarrow> 'r \<Rightarrow> 'r) \<Rightarrow> (int \<Rightarrow> rat) \<Rightarrow> (int \<times> rat) list \<Rightarrow> 'r \<Rightarrow> 'r" where
  "apply_percentage rid pput current ps x =
     (case dict_get ps (rid x) of None \<Rightarrow> x | Some p \<Rightarrow> if p \<noteq> current (rid x) then pput p x else x)"

text \<open>
  A level's repository: a table of rows with ids, an update of both allocation columns and one of the
  percentage alone.  A row that fits its columns is stored as it is; storing a list of resolved rows
  then rewrites exactly the rows that changed.
\<close>

locale allocation_store =
  fixes rows_of :: "AuthState \<Rightarrow> 'r list" and set_rows :: "'r list \<Rightarrow> AuthState \<Rightarrow> AuthState"
    and rid :: "'r \<Rightarrow> int"
    and put :: "rat \<Rightarrow> rat \<Rightarrow> 'r \<Rightarrow> 'r" and pput :: "rat \<Rightarrow> 'r \<Rightarrow> 'r"
    and store :: "int \<Rightarrow> rat \<Rightarrow> rat \<Rightarrow> AuthState \<Rightarrow> (auth_error, AuthState) res"
    and pstore :: "int \<Rightarrow> rat \<Rightarrow> AuthState \<Rightarrow> (auth_error, AuthState) res"
  assumes rows_set [simp]: "rows_of (set_rows rs s) = rs"
    and set_set [simp]: "set_rows rs (set_rows rs' s) = set_rows rs s"
    and set_same [simp]: "set_rows (rows_of s) s = s"
    and rid_put [simp]: "rid (put a p x) = rid x" and rid_pput [simp]: "rid (pput p x) = rid x"
    and store: "money a \<Longrightarrow> percent p \<Longrightarrow>
      store i a p s = Inr (set_rows (map (\<lambda>x. if rid x = i then put a p x else x) (rows_of s)) s)"
    and pstore: "percent p \<Longrightarrow> pstore i p s = Inr (set_rows (map (\<lambda>x. if rid x = i then pput p x else x) (rows_of s)) s)"
    and pstore_fits: "pstore i p s = Inr s' \<Longrightarrow> cents p \<Longrightarrow> percent p"
begin

lemma apply_row_rid [simp]: "rid (apply_row rid put rows x) = rid x"
  by (simp add: apply_row_def split: option.split)

lemma apply_percentage_rid [simp]: "rid (apply_percentage rid pput current ps x) = rid x"
  by (simp add: apply_percentage_def split: option.split)

lemma persist:
  assumes "typed_rows rows"
  shows "persist_rows store rows s = Inr (set_rows (map (apply_row rid put rows) (rows_of s)) s)"
  using assms
proof (induction rows arbitrary: s)
  case Nil
  have "apply_row rid put [] = id" by (rule ext) (simp add: apply_row_def changed_row_def)
  then show ?case by (simp add: persist_rows_def)
next
  case (Cons r rows)
  have typed: "typed_rows rows" "money (rr_amount r)" "percent (rr_percentage r)" "rr_id r \<notin> rr_id ` set rows"
    using Cons.prems by (auto simp: typed_rows_def)
  note rest = Cons.IH [OF typed(1), unfolded persist_rows_def]
  show ?case
  proof (cases "rr_changed r")
    case True
    have "changed_row rows (rr_id r) = None" using typed(4) by (force simp: changed_row_def find_None_iff image_iff)
    then have "apply_row rid put rows (if rid x = rr_id r then put (rr_amount r) (rr_percentage r) x else x) =
        apply_row rid put (r # rows) x" for x
      using True by (auto simp: apply_row_def changed_row_def)
    then show ?thesis using True typed by (simp add: persist_rows_def store rest o_def)
  next
    case False
    then have "apply_row rid put (r # rows) = apply_row rid put rows"
      by (intro ext) (simp add: apply_row_def changed_row_def)
    then show ?thesis using False by (simp add: persist_rows_def rest)
  qed
qed

lemma persist_percentages:
  assumes "store_percentages pstore current ps s = Inr s'" "distinct (map fst ps)" "\<forall>(i, p) \<in> set ps. cents p"
  shows "s' = set_rows (map (apply_percentage rid pput current ps) (rows_of s)) s \<and>
    (\<forall>(i, p) \<in> set ps. p \<noteq> current i \<longrightarrow> percent p)"
  using assms
proof (induction ps arbitrary: s)
  case Nil
  have "apply_percentage rid pput current [] = id" by (rule ext) (simp add: apply_percentage_def)
  with Nil show ?case by (simp add: store_percentages_def)
next
  case (Cons ip ps)
  obtain i p where ip: "ip = (i, p)" by (cases ip)
  have typed: "distinct (map fst ps)" "\<forall>(i, p) \<in> set ps. cents p" "cents p" "i \<notin> fst ` set ps"
    using Cons.prems(2,3) by (auto simp: ip)
  have none: "dict_get ps i = None" using typed(4) by (simp add: map_of_eq_None_iff)
  show ?case
  proof (cases "p \<noteq> current i")
    case True
    from Cons.prems(1) True obtain s1 where s1: "pstore i p s = Inr s1" "store_percentages pstore current ps s1 = Inr s'"
      by (auto simp: store_percentages_def ip)
    have p: "percent p" by (rule pstore_fits [OF s1(1) typed(3)])
    have eq: "apply_percentage rid pput current ps (if rid x = i then pput p x else x) =
        apply_percentage rid pput current (ip # ps) x" for x
      using True none by (auto simp: apply_percentage_def ip)
    have "s1 = set_rows (map (\<lambda>x. if rid x = i then pput p x else x) (rows_of s)) s"
      using pstore [OF p, of i s] s1(1) by simp
    then show ?thesis using Cons.IH [OF s1(2) typed(1,2)] p by (simp add: ip eq [unfolded ip] o_def)
  next
    case False
    then have "apply_percentage rid pput current (ip # ps) = apply_percentage rid pput current ps"
      using none by (intro ext) (auto simp: apply_percentage_def ip)
    moreover have "store_percentages pstore current ps s = Inr s'"
      using Cons.prems(1) False by (simp add: store_percentages_def ip)
    ultimately show ?thesis using Cons.IH [OF _ typed(1,2)] False by (simp add: ip)
  qed
qed

lemma persist_level:
  assumes "resolve_and_persist_level store parent children explicit s = Inr (rows, s')"
    and "level_ok children" "\<forall>e \<in> set explicit. explicit_ok e" "money parent"
  shows "resolve_level parent children explicit = Inr rows" "typed_rows rows"
    "s' = set_rows (map (apply_row rid put rows) (rows_of s)) s"
proof -
  show ok: "resolve_level parent children explicit = Inr rows"
    using assms(1) by (auto simp: resolve_and_persist_level_def)
  show typed: "typed_rows rows" by (rule resolve_level_typed [OF ok assms(2-4)])
  show "s' = set_rows (map (apply_row rid put rows) (rows_of s)) s"
    using assms(1) persist [OF typed, of s] by (auto simp: resolve_and_persist_level_def ok)
qed

end

text \<open>The level the validator sees of such a table: a row of the validator for every row of the table.\<close>

locale allocation_level = allocation_store +
  fixes budget :: "'a \<Rightarrow> rat option" and row :: "'a \<Rightarrow> AllocationRow"
  assumes row_id [simp]: "ar_id (row x) = rid x" and row_amount [simp]: "ar_allocated_amount (row x) = or_zero (budget x)"
    and budget_put [simp]: "budget (put a p x) = Some a"
begin

lemma untouched: "rid x \<notin> rr_id ` set rows \<Longrightarrow> apply_row rid put rows x = x"
proof -
  assume "rid x \<notin> rr_id ` set rows"
  then have "changed_row rows (rid x) = None" by (force simp: changed_row_def find_None_iff image_iff)
  then show ?thesis by (simp add: apply_row_def)
qed

lemma changed_row_of:
  assumes "distinct (map rr_id rows)" "r \<in> set rows"
  shows "changed_row rows (rr_id r) = (if rr_changed r then Some r else None)"
proof -
  have uniq: "x = r" if "x \<in> set rows" "rr_id x = rr_id r" for x
    using assms that by (auto simp: distinct_map inj_on_def)
  show ?thesis
  proof (cases "changed_row rows (rr_id r)")
    case None
    then show ?thesis using assms(2) by (auto simp: changed_row_def find_None_iff)
  next
    case (Some x)
    then have "x \<in> set rows" "rr_id x = rr_id r" "rr_changed x" by (auto simp: changed_row_def find_Some_iff)
    with uniq Some show ?thesis by auto
  qed
qed

text \<open>The money of a row after the level was stored is the one the validator resolved.\<close>

lemma budget_after:
  assumes ok: "resolve_level parent (map row xs) explicit = Inr rows" and level: "level_ok (map row xs)"
    and explicit: "\<forall>e \<in> set explicit. explicit_ok e" and parent: "money parent" and x: "x \<in> set xs"
  shows "or_zero (budget (apply_row rid put rows x)) = amount_after rows (row x)"
proof (cases "find (\<lambda>r. rr_id r = rid x) rows")
  case None
  then have "rid x \<notin> rr_id ` set rows" by (auto simp: find_None_iff)
  with None show ?thesis by (simp add: amount_after_def untouched)
next
  case (Some r)
  then have r: "r \<in> set rows" "rr_id r = rid x" by (auto simp: find_Some_iff)
  have "row_fits parent (map row xs) (dict_of ei_id explicit) r"
    using resolve_level_spec(2) [OF ok level explicit parent] r(1) by blast
  then obtain c where c: "c \<in> set (map row xs)" "ar_id c = rr_id r" "rr_changed r = (rr_amount r \<noteq> ar_allocated_amount c)"
    unfolding row_fits_def by blast
  have "distinct (map ar_id (map row xs))" using level by (simp only: level_ok_def)
  moreover have "row x \<in> set (map row xs)" "ar_id (row x) = ar_id c" using x c(2) r(2) by simp_all
  ultimately have "row x = c" using c(1) unfolding distinct_map inj_on_def by blast
  then have ch: "rr_changed r = (rr_amount r \<noteq> or_zero (budget x))" using c(3) row_amount by metis
  have "distinct (map rr_id rows)" using resolve_level_typed [OF ok level explicit parent] by (simp add: typed_rows_def)
  from changed_row_of [OF this r(1)] ch Some r(2) show ?thesis
    by (simp add: apply_row_def amount_after_def or_zero_def)
qed

lemma total_after:
  assumes "resolve_level parent (map row xs) explicit = Inr rows" "level_ok (map row xs)"
    "\<forall>e \<in> set explicit. explicit_ok e" "money parent"
  shows "sum_list (map (\<lambda>x. or_zero (budget (apply_row rid put rows x))) xs) \<le> parent + of_nat (length xs) / 100"
proof -
  have "map (\<lambda>x. or_zero (budget (apply_row rid put rows x))) xs = map (amount_after rows) (map row xs)"
    using budget_after [OF assms] by simp
  then have "sum_list (map (\<lambda>x. or_zero (budget (apply_row rid put rows x))) xs) = sum_list (map (amount_after rows) (map row xs))"
    by (rule arg_cong)
  also have "\<dots> \<le> parent + of_nat (length (map row xs)) / 100" by (rule resolve_level_spec(5) [OF assms])
  finally show ?thesis by simp
qed

end

section \<open>The two levels\<close>

definition put_app :: "string \<Rightarrow> rat \<Rightarrow> rat \<Rightarrow> Application \<Rightarrow> Application" where
  "put_app user amount percentage a =
     a\<lparr>ap_allocated_budget := Some amount, ap_allocated_percentage := Some percentage, ap_updated_by := Some user\<rparr>"

definition put_app_percentage :: "string \<Rightarrow> rat \<Rightarrow> Application \<Rightarrow> Application" where
  "put_app_percentage user percentage a = a\<lparr>ap_allocated_percentage := Some percentage, ap_updated_by := Some user\<rparr>"

definition put_key :: "string \<Rightarrow> rat \<Rightarrow> rat \<Rightarrow> APIKey \<Rightarrow> APIKey" where
  "put_key user amount percentage k =
     k\<lparr>ak_allocated_budget := Some amount, ak_allocated_percentage := Some percentage, ak_updated_by := Some user\<rparr>"

definition put_key_percentage :: "string \<Rightarrow> rat \<Rightarrow> APIKey \<Rightarrow> APIKey" where
  "put_key_percentage user percentage k = k\<lparr>ak_allocated_percentage := Some percentage, ak_updated_by := Some user\<rparr>"

interpretation apps: allocation_level au_applications "\<lambda>rs s. s\<lparr>au_applications := rs\<rparr>" ap_id "put_app u" "put_app_percentage u"
    "store_app u" "store_app_percentage u" ap_allocated_budget "app_row keys_by_app usage" for u keys_by_app usage
  by unfold_locales
    (auto simp: put_app_def put_app_percentage_def store_app_def store_app_percentage_def column_money column_percent column_cents
      update_app_def app_row_def)

interpretation keys: allocation_level au_keys "\<lambda>rs s. s\<lparr>au_keys := rs\<rparr>" ak_id "put_key u" "put_key_percentage u"
    "store_key u" "store_key_percentage u" ak_allocated_budget "key_row usage" for u usage
  by unfold_locales
    (auto simp: put_key_def put_key_percentage_def store_key_def store_key_percentage_def column_money column_percent column_cents
      update_key_def key_row_def)

section \<open>Recomputed percentages\<close>

text \<open>A share rounded down to two decimals.\<close>

definition down_share :: "rat \<Rightarrow> rat \<Rightarrow> rat" where
  "down_share parent x = of_int (round_down (share parent x * 100)) / 100"

lemma down_share_cents: "0 \<le> x \<Longrightarrow> 0 < parent \<Longrightarrow> cents (down_share parent x) \<and> down_share parent x \<le> share parent x"
proof -
  assume a: "0 \<le> x" "0 < parent"
  have s: "0 \<le> share parent x * 100" using share_bounds(3) [OF a] by simp
  have "has_scale 2 (down_share parent x)" unfolding down_share_def has_scale_iff by (intro exI) simp
  with s round_down_le [OF s] show ?thesis by (simp add: cents_def down_share_def)
qed

lemma quantize_down_share:
  assumes "0 \<le> x" "0 < parent" "share parent x < 10 ^ 26"
  shows "quantize round_down (dmul (ddiv x parent) 100) = Inr (down_share parent x)"
proof -
  have s: "0 \<le> share parent x * 100" using share_bounds(3) assms by simp
  have "of_int (round_down (share parent x * 100)) \<le> share parent x * 100" "0 \<le> round_down (share parent x * 100)"
    by (rule round_down_le [OF s])+
  then have "of_int (round_down (share parent x * 100)) < (of_int (10 ^ 28) :: rat)" using assms(3) by simp
  then have "round_down (share parent x * 100) < 10 ^ 28" by (simp only: of_int_less_iff)
  with \<open>0 \<le> round_down (share parent x * 100)\<close> show ?thesis
    by (simp add: quantize_def down_share_def share_def)
qed

lemma recompute_funded_closed:
  assumes "fs \<noteq> []" "0 < parent" "\<forall>(i, b) \<in> set fs. 0 \<le> b \<and> share parent b < 10 ^ 26"
    and "cents running" "cents target" "target < 10 ^ 26"
    and "running + sum_list (map (\<lambda>(i, b). down_share parent b) (butlast fs)) \<le> target"
  shows "recompute_funded parent target running fs =
    Inr (map (\<lambda>(i, b). (i, down_share parent b)) (butlast fs) @
         [(fst (last fs), target - running - sum_list (map (\<lambda>(i, b). down_share parent b) (butlast fs)))])"
  using assms
proof (induction fs arbitrary: running)
  case (Cons f fs)
  obtain i b where f: "f = (i, b)" by (cases f)
  show ?case
  proof (cases "fs = []")
    case True
    then have le: "running \<le> target" using Cons.prems by simp
    have "dsub target running = target - running"
      unfolding dsub_def
      by (rule dfix_scale [of 2]) (use Cons.prems le in \<open>auto simp: cents_def has_scale_diff abs_if\<close>)
    with True show ?thesis by (simp add: f)
  next
    case False
    let ?d = "down_share parent b"
    have d: "cents ?d" using down_share_cents [of b parent] Cons.prems by (simp add: f)
    have rest: "0 \<le> sum_list (map (\<lambda>(i, b). down_share parent b) (butlast fs))"
      using Cons.prems down_share_cents
      by (intro sum_list_nonneg) (auto simp: cents_def dest!: in_set_butlastD)
    then have small: "running + ?d < 10 ^ 26" using Cons.prems(6,7) False by (simp add: f)
    have add: "dadd running ?d = running + ?d" using Cons.prems(4) d small by (rule dadd_cents)
    have q: "quantize round_down (dmul (ddiv b parent) 100) = Inr ?d"
      using Cons.prems by (intro quantize_down_share) (auto simp: f)
    have "recompute_funded parent target (running + ?d) fs =
      Inr (map (\<lambda>(i, b). (i, down_share parent b)) (butlast fs) @
         [(fst (last fs), target - (running + ?d) - sum_list (map (\<lambda>(i, b). down_share parent b) (butlast fs)))])"
      using Cons.prems False d by (intro Cons.IH) (auto simp: f cents_add)
    then show ?thesis using False q by (simp add: f add algebra_simps)
  qed
qed simp

text \<open>
  The rounded-down shares of all but one child never exceed the rounded total: decimal rounding errors
  are far too small to bridge a cent.
\<close>

lemma down_shares_le_target:
  assumes parent: "0 < parent" and bs: "\<forall>b \<in> set bs. 0 \<le> b" and "0 \<le> b"
    and total: "100 * (sum_list bs + b) / parent \<le> 10 ^ 22"
  shows "sum_list (map (down_share parent) bs) \<le> pg_round 2 (share parent (sum_list bs + b))"
proof -
  define T where "T = 100 * (sum_list bs + b) / parent"
  have S0: "0 \<le> sum_list bs" using bs by (intro sum_list_nonneg) auto
  have "sum_list (map (down_share parent) bs) \<le> sum_list (map (\<lambda>x. 100 * x / parent * (1 + 3 * ulp)) bs)"
    using bs parent share_bounds(1) down_share_cents by (intro sum_list_mono) (meson order_trans)
  also have "\<dots> = 100 * sum_list bs / parent * (1 + 3 * ulp)"
    by (simp add: sum_list_const_mult sum_list_mult_const add_divide_distrib flip: sum_list_mult_const)
      (induction bs, simp_all add: algebra_simps add_divide_distrib)
  also have "\<dots> \<le> T * (1 + 3 * ulp)"
    using parent \<open>0 \<le> b\<close> by (intro mult_right_mono) (simp_all add: T_def ulp_def divide_right_mono)
  finally have lhs: "sum_list (map (down_share parent) bs) \<le> T * (1 + 3 * ulp)" .
  have sh: "T * (1 - 3 * ulp) \<le> share parent (sum_list bs + b)" "0 \<le> share parent (sum_list bs + b)"
    using share_bounds(2,3) [of "sum_list bs + b" parent] parent S0 \<open>0 \<le> b\<close> by (simp_all add: T_def)
  have "share parent (sum_list bs + b) - 1 / 200 \<le> pg_round 2 (share parent (sum_list bs + b))"
    using round_half_up_error [of "share parent (sum_list bs + b) * 100"] sh(2)
    by (simp add: pg_round_def abs_if field_simps split: if_splits)
  with lhs sh(1) have gap: "sum_list (map (down_share parent) bs) - pg_round 2 (share parent (sum_list bs + b)) \<le> 1 / 200 + 6 * T * ulp"
    by (simp add: algebra_simps)
  have "T \<le> 10 ^ 22" using total by (simp only: T_def)
  then have "6 * T * ulp < 1 / 200" by (simp add: ulp_def)
  with gap have lt: "sum_list (map (down_share parent) bs) - pg_round 2 (share parent (sum_list bs + b)) < 1 / 100" by simp
  have "has_scale 2 (sum_list (map (down_share parent) bs) - pg_round 2 (share parent (sum_list bs + b)))"
    using bs parent down_share_cents by (intro has_scale_diff has_scale_sum_list) (auto simp: cents_def)
  then obtain n where n: "sum_list (map (down_share parent) bs) - pg_round 2 (share parent (sum_list bs + b)) = of_int n / 100"
    by (auto simp: has_scale_iff)
  with lt have "(of_int n :: rat) < of_int 1" by simp
  then have "n \<le> 0" by (simp only: of_int_less_iff)
  then have "(of_int n :: rat) \<le> 0" by simp
  with n show ?thesis by (simp add: algebra_simps)
qed


text \<open>The recomputation in closed form.\<close>

definition funded :: "(int \<times> rat option) list \<Rightarrow> (int \<times> rat) list" where
  "funded entities = map (\<lambda>(i, b). (i, or_zero b)) (filter (\<lambda>(i, b). or_zero b \<noteq> 0) entities)"

lemma sum_funded: "sum_list (map (or_zero \<circ> snd) entities) = sum_list (map snd (funded entities))"
  by (induction entities) (auto simp: funded_def)

lemma sum_butlast: "xs \<noteq> [] \<Longrightarrow> sum_list (map f (butlast xs)) + f (last xs) = (sum_list (map f xs) :: rat)"
  by (induction xs) auto

lemma recompute_percentages_closed:
  assumes fs: "funded entities \<noteq> []" and parent: "money parent" "0 < parent"
    and typed: "\<forall>(i, b) \<in> set entities. pred_option money b"
    and total: "sum_list (map (or_zero \<circ> snd) entities) \<le> parent + 10 ^ 8"
  defines "target \<equiv> pg_round 2 (share parent (sum_list (map (or_zero \<circ> snd) entities)))"
  shows "recompute_percentages parent entities =
    Inr (map (\<lambda>(i, b). (i, down_share parent b)) (butlast (funded entities)) @
      [(fst (last (funded entities)), target - sum_list (map (\<lambda>(i, b). down_share parent b) (butlast (funded entities))))])"
    and "0 \<le> target - sum_list (map (\<lambda>(i, b). down_share parent b) (butlast (funded entities)))"
    and "target < 10 ^ 20" and "cents target"
proof -
  define S where "S = sum_list (map (or_zero \<circ> snd) entities)"
  have S: "S = sum_list (map snd (funded entities))" unfolding S_def by (rule sum_funded)
  have cents: "\<forall>x \<in> set (map (or_zero \<circ> snd) entities). cents x"
    using typed by (auto simp: split_beta intro!: money_cents or_zero_money)
  have S0: "0 \<le> S" unfolding S_def using cents by (intro sum_list_nonneg) (auto simp: cents_def)
  have p1: "1 / 100 \<le> parent"
  proof -
    from parent obtain m where m: "parent = of_int m / 100" by (auto simp: money_def has_scale_iff)
    with parent(2) have "0 < (of_int m :: rat)" by simp
    then have "1 \<le> m" by (simp only: of_int_0_less_iff)
    then have "(1 :: rat) \<le> of_int m" by (simp only: of_int_1_le_iff)
    with m show ?thesis by simp
  qed
  have "S \<le> parent + 10 ^ 8" using total by (simp only: S_def)
  also have "\<dots> \<le> parent * (1 + 10 ^ 10)" using p1 by (simp add: algebra_simps)
  finally have Sp: "S / parent \<le> 1 + 10 ^ 10" using parent(2) by (simp add: divide_le_eq mult.commute)
  then have big: "100 * S / parent \<le> 10 ^ 15" by simp
  have share_small: "share parent x < 10 ^ 19" if "0 \<le> x" "x \<le> S" for x
  proof -
    have "100 * x / parent \<le> 100 * S / parent" using that parent(2) by (intro divide_right_mono) auto
    also note big
    finally have "100 * x / parent \<le> 10 ^ 15" .
    then have "100 * x / parent * (1 + 3 * ulp) \<le> 10 ^ 15 * (1 + 3 * ulp)"
      by (intro mult_right_mono) (simp_all add: ulp_def)
    with share_bounds(1) [OF that(1) parent(2)] show ?thesis by (simp add: ulp_def)
  qed
  have each: "\<forall>(i, b) \<in> set (funded entities). 0 \<le> b \<and> b \<le> S"
  proof -
    have "\<forall>b \<in> set (map snd (funded entities)). 0 \<le> b"
      using cents by (auto simp: funded_def split_beta cents_def)
    then show ?thesis unfolding S by (force intro: member_le_sum_list)
  qed
  have t0: "0 \<le> share parent S" using share_bounds(3) [OF S0 parent(2)] .
  have q: "quantize round_half_up (dmul (ddiv (dsum (map (or_zero \<circ> snd) entities)) parent) 100) = Inr target"
  proof -
    have "S < 10 ^ 26" using \<open>S \<le> parent + 10 ^ 8\<close> parent(1) by (simp add: money_def)
    then have "dsum (map (or_zero \<circ> snd) entities) = S" unfolding S_def using cents by (intro dsum_cents) auto
    moreover have "\<bar>round_half_up (share parent S * 100)\<bar> < 10 ^ 28"
    proof -
      have "of_int (round_half_up (share parent S * 100)) \<le> share parent S * 100 + 1 / 2"
        using round_half_up_error [of "share parent S * 100"] t0 by (simp add: abs_if split: if_splits)
      then have "of_int (round_half_up (share parent S * 100)) < (of_int (10 ^ 28) :: rat)"
        using share_small [OF S0 order_refl] by simp
      then have "round_half_up (share parent S * 100) < 10 ^ 28" by (simp only: of_int_less_iff)
      moreover have "0 \<le> round_half_up (share parent S * 100)" using t0 by (intro round_half_up_nonneg) simp
      ultimately show ?thesis by simp
    qed
    ultimately show ?thesis by (simp add: quantize_def target_def pg_round_def share_def S_def [symmetric])
  qed
  show tc: "cents target" using t0 by (simp add: target_def cents_def S_def)
  show tsmall: "target < 10 ^ 20"
  proof -
    have "target \<le> share parent S + 1 / 200"
      using round_half_up_error [of "share parent S * 100"] t0
      by (simp add: target_def pg_round_def S_def [symmetric] abs_if field_simps split: if_splits)
    with share_small [OF S0 order_refl] show ?thesis by simp
  qed
  have le: "sum_list (map (\<lambda>(i, b). down_share parent b) (butlast (funded entities))) \<le> target"
  proof -
    have m: "map (\<lambda>(i, b). down_share parent b) (butlast (funded entities)) = map (down_share parent) (map snd (butlast (funded entities)))"
      by auto
    have S': "S = sum_list (map snd (butlast (funded entities))) + snd (last (funded entities))"
      unfolding S using sum_butlast [OF fs, of snd] by simp
    have "100 * S / parent \<le> 10 ^ 22" using big by simp
    then show ?thesis
      using down_shares_le_target [OF parent(2), of "map snd (butlast (funded entities))" "snd (last (funded entities))"]
        each last_in_set [OF fs] unfolding m target_def S_def [symmetric] S'
      by (fastforce dest!: in_set_butlastD)
  qed
  then show "0 \<le> target - sum_list (map (\<lambda>(i, b). down_share parent b) (butlast (funded entities)))" by simp
  have sm: "\<forall>(i, b) \<in> set (funded entities). 0 \<le> b \<and> share parent b < 10 ^ 26"
    using each share_small by fastforce
  have "recompute_funded parent target 0 (funded entities) =
    Inr (map (\<lambda>(i, b). (i, down_share parent b)) (butlast (funded entities)) @
         [(fst (last (funded entities)), target - 0 - sum_list (map (\<lambda>(i, b). down_share parent b) (butlast (funded entities))))])"
    using le tsmall by (intro recompute_funded_closed fs parent(2) sm cents_0 tc) simp_all
  then show "recompute_percentages parent entities =
    Inr (map (\<lambda>(i, b). (i, down_share parent b)) (butlast (funded entities)) @
      [(fst (last (funded entities)), target - sum_list (map (\<lambda>(i, b). down_share parent b) (butlast (funded entities))))])"
    using fs parent(2) q by (simp add: recompute_percentages_def funded_def [symmetric] Let_def)
qed


lemma funded_ids: "distinct (map fst entities) \<Longrightarrow> distinct (map fst (funded entities))"
  "fst ` set (funded entities) \<subseteq> fst ` set entities"
  by (induction entities) (auto simp: funded_def image_iff)

lemma map_fst_butlast_last: "xs \<noteq> [] \<Longrightarrow> map fst (map (\<lambda>(i, b). (i, f b)) (butlast xs) @ [(fst (last xs), y)]) = map fst xs"
proof -
  assume "xs \<noteq> []"
  then have "map fst xs = map fst (butlast xs @ [last xs])" by simp
  then show ?thesis by (simp add: split_beta o_def)
qed

lemma recompute_percentages_cents:
  assumes ok: "recompute_percentages parent entities = Inr ps" and "money parent" "distinct (map fst entities)"
    and typed: "\<forall>(i, b) \<in> set entities. pred_option money b"
    and total: "sum_list (map (or_zero \<circ> snd) entities) \<le> parent + 10 ^ 8"
  shows "distinct (map fst ps)" "\<forall>(i, p) \<in> set ps. cents p" "fst ` set ps \<subseteq> fst ` set entities"
proof -
  have "map fst ps = (if funded entities = [] then [] else map fst (funded entities)) \<and> (\<forall>(i, p) \<in> set ps. cents p)"
  proof (cases "funded entities = [] \<or> parent = 0")
    case True
    with ok show ?thesis by (auto simp: recompute_percentages_def funded_def [symmetric] Let_def split: if_splits)
  next
    case False
    then have fs: "funded entities \<noteq> []" and p0: "0 < parent" using assms(2) by (auto simp: money_def)
    note closed = recompute_percentages_closed [OF fs assms(2) p0 typed total]
    let ?t = "pg_round 2 (share parent (sum_list (map (or_zero \<circ> snd) entities)))"
    let ?d = "sum_list (map (\<lambda>(i, b). down_share parent b) (butlast (funded entities)))"
    have ps: "ps = map (\<lambda>(i, b). (i, down_share parent b)) (butlast (funded entities)) @ [(fst (last (funded entities)), ?t - ?d)]"
      using ok closed(1) by simp
    have b: "\<forall>(i, b) \<in> set (butlast (funded entities)). cents (down_share parent b)"
    proof safe
      fix i b assume "(i, b) \<in> set (butlast (funded entities))"
      then have "(i, b) \<in> set (funded entities)" by (rule in_set_butlastD)
      then have "0 \<le> b" using typed
        by (auto simp: funded_def dest!: bspec) (metis cents_def money_cents or_zero_money)
      then show "cents (down_share parent b)" using down_share_cents p0 by blast
    qed
    have "has_scale 2 ?d" using b by (intro has_scale_sum_list) (auto simp: cents_def)
    then have "cents (?t - ?d)" using closed(2) by (simp add: cents_def has_scale_diff)
    moreover have "map fst ps = map fst (funded entities)" unfolding ps by (rule map_fst_butlast_last [OF fs])
    ultimately show ?thesis using b fs by (auto simp: ps)
  qed
  then show "distinct (map fst ps)" "\<forall>(i, p) \<in> set ps. cents p" "fst ` set ps \<subseteq> fst ` set entities"
    using funded_ids(1) [OF assms(3)] funded_ids(2) [of entities]
    by (auto split: if_splits simp flip: set_map)
qed

section \<open>What a request does to the keys\<close>

text \<open>
  How a key row may change: only its allocation, only under the applications \<open>A\<close>, its money only when
  its id is in \<open>L\<close>, and a revoked key not at all.
\<close>

definition blank_key :: "APIKey \<Rightarrow> APIKey" where
  "blank_key k = k\<lparr>ak_allocated_budget := None, ak_allocated_percentage := None, ak_updated_by := None\<rparr>"

definition same_key :: "APIKey \<Rightarrow> APIKey \<Rightarrow> bool" where
  "same_key k k' \<longleftrightarrow> blank_key k = blank_key k'"

definition realloc :: "int set \<Rightarrow> int set \<Rightarrow> APIKey \<Rightarrow> APIKey \<Rightarrow> bool" where
  "realloc A L k k' \<longleftrightarrow> same_key k k' \<and>
     (ak_application_id k \<notin> A \<longrightarrow> k' = k) \<and> (ak_id k \<notin> L \<longrightarrow> ak_allocated_budget k' = ak_allocated_budget k) \<and>
     (\<not> ak_is_active k \<longrightarrow> k' = k) \<and> (typed_key k \<longrightarrow> typed_key k')"

definition keys_realloc :: "int set \<Rightarrow> int set \<Rightarrow> AuthState \<Rightarrow> AuthState \<Rightarrow> bool" where
  "keys_realloc A L s s' \<longleftrightarrow> (\<exists>ks. s' = s\<lparr>au_keys := ks\<rparr> \<and> list_all2 (realloc A L) (au_keys s) ks)"

lemma same_key_refl [simp]: "same_key k k"
  by (simp add: same_key_def)

lemma same_key_fields: "same_key k k' \<Longrightarrow> ak_id k' = ak_id k" "same_key k k' \<Longrightarrow> ak_application_id k' = ak_application_id k"
    "same_key k k' \<Longrightarrow> ak_is_active k' = ak_is_active k"
  unfolding same_key_def
  by (drule arg_cong [of _ _ ak_id], simp add: blank_key_def, drule arg_cong [of _ _ ak_application_id], simp add: blank_key_def,
    drule arg_cong [of _ _ ak_is_active], simp add: blank_key_def)

lemma same_key_trans: "same_key k1 k2 \<Longrightarrow> same_key k2 k3 \<Longrightarrow> same_key k1 k3"
  by (simp add: same_key_def)

lemma realloc_refl [simp]: "realloc A L k k"
  by (simp add: realloc_def)

lemma realloc_fields: "realloc A L k k' \<Longrightarrow> ak_id k' = ak_id k" "realloc A L k k' \<Longrightarrow> ak_application_id k' = ak_application_id k"
    "realloc A L k k' \<Longrightarrow> ak_is_active k' = ak_is_active k"
  by (simp_all add: realloc_def same_key_fields)

lemma realloc_trans:
  assumes "realloc A L k1 k2" "realloc B M k2 k3"
  shows "realloc (A \<union> B) (L \<union> M) k1 k3"
  using assms realloc_fields [OF assms(1)] same_key_trans [of k1 k2 k3] unfolding realloc_def by simp

lemma keys_realloc_refl [simp]: "keys_realloc A L s s"
  unfolding keys_realloc_def by (rule exI [of _ "au_keys s"]) (simp add: list_all2_refl)

lemma keys_realloc_trans:
  assumes "keys_realloc A L s1 s2" "keys_realloc B M s2 s3"
  shows "keys_realloc (A \<union> B) (L \<union> M) s1 s3"
proof -
  from assms obtain ks2 ks3 where s: "s2 = s1\<lparr>au_keys := ks2\<rparr>" "s3 = s2\<lparr>au_keys := ks3\<rparr>"
    "list_all2 (realloc A L) (au_keys s1) ks2" "list_all2 (realloc B M) ks2 ks3"
    by (auto simp: keys_realloc_def)
  have "list_all2 (realloc (A \<union> B) (L \<union> M)) (au_keys s1) ks3"
    by (rule list_all2_trans [OF _ s(3,4)]) (rule realloc_trans)
  with s(1,2) show ?thesis by (auto simp: keys_realloc_def)
qed

lemma realloc_mono: "realloc A L k k' \<Longrightarrow> A \<subseteq> B \<Longrightarrow> L \<subseteq> M \<Longrightarrow> realloc B M k k'"
  unfolding realloc_def by blast

lemma keys_realloc_mono:
  assumes "keys_realloc A L s s'" "A \<subseteq> B" "L \<subseteq> M" shows "keys_realloc B M s s'"
proof -
  obtain ks where ks: "s' = s\<lparr>au_keys := ks\<rparr>" "list_all2 (realloc A L) (au_keys s) ks"
    using assms(1) by (auto simp: keys_realloc_def)
  have "list_all2 (realloc B M) (au_keys s) ks"
    by (rule list_all2_mono [OF ks(2)]) (rule realloc_mono [OF _ assms(2,3)])
  with ks(1) show ?thesis by (auto simp: keys_realloc_def)
qed

lemma keys_realloc_map:
  assumes "\<And>k. k \<in> set (au_keys s) \<Longrightarrow> realloc A L k (f k)"
  shows "keys_realloc A L s (s\<lparr>au_keys := map f (au_keys s)\<rparr>)"
  using assms by (auto simp: keys_realloc_def list_all2_conv_all_nth)

text \<open>The rows of an application outside \<open>A\<close> are the same rows.\<close>

lemma keys_realloc_other:
  assumes "keys_realloc A L s s'" "a \<notin> A"
  shows "filter (\<lambda>k. ak_application_id k = a) (au_keys s') = filter (\<lambda>k. ak_application_id k = a) (au_keys s)"
proof -
  obtain ks where ks: "s' = s\<lparr>au_keys := ks\<rparr>" "list_all2 (realloc A L) (au_keys s) ks"
    using assms(1) by (auto simp: keys_realloc_def)
  from ks(2) have "filter (\<lambda>k. ak_application_id k = a) ks = filter (\<lambda>k. ak_application_id k = a) (au_keys s)"
  proof (induction rule: list_all2_induct)
    case (Cons x xs y ys)
    then show ?case using assms(2) realloc_fields(2) [OF Cons(1)] by (auto simp: realloc_def)
  qed simp
  with ks(1) show ?thesis by simp
qed

lemma keys_realloc_typed:
  assumes "keys_realloc A L s s'" "typed_state s" shows "typed_state s'"
proof -
  obtain ks where ks: "s' = s\<lparr>au_keys := ks\<rparr>" "list_all2 (realloc A L) (au_keys s) ks"
    using assms(1) by (auto simp: keys_realloc_def)
  have ids: "map ak_id ks = map ak_id (au_keys s)"
    using ks(2) by (intro nth_equalityI) (auto simp: list_all2_conv_all_nth intro!: realloc_fields(1))
  have from_s: "\<exists>k \<in> set (au_keys s). realloc A L k k'" if "k' \<in> set ks" for k'
    using ks(2) that by (auto simp: list_all2_conv_all_nth in_set_conv_nth) (metis nth_mem)
  have typed: "typed_key k' \<and> is_int4_id (Some (ak_id k'))" if k': "k' \<in> set ks" for k'
  proof -
    from from_s [OF k'] obtain k where k: "k \<in> set (au_keys s)" "realloc A L k k'" by blast
    have "typed_key k" "is_int4_id (Some (ak_id k))" using assms(2) k(1) by (auto simp: typed_state_def)
    moreover have "typed_key k \<longrightarrow> typed_key k'" using k(2) unfolding realloc_def by blast
    ultimately show ?thesis using realloc_fields(1) [OF k(2)] by simp
  qed
  have "tables_ok s'" using assms(2) ids by (simp add: typed_state_def tables_ok_def ks(1))
  moreover have "\<forall>k \<in> set (au_keys s'). typed_key k \<and> is_int4_id (Some (ak_id k))"
    using typed by (simp add: ks(1))
  ultimately show ?thesis using assms(2) by (simp add: typed_state_def ks(1))
qed

text \<open>The active keys of an application, and the money they hold.\<close>

definition app_keys :: "AuthState \<Rightarrow> int \<Rightarrow> APIKey list" where
  "app_keys s a = filter (\<lambda>k. ak_application_id k = a \<and> ak_is_active k) (au_keys s)"

definition keys_total :: "AuthState \<Rightarrow> int \<Rightarrow> rat" where
  "keys_total s a = sum_list (map (or_zero \<circ> ak_allocated_budget) (app_keys s a))"

lemma apply_key_realloc:
  assumes typed: "typed_rows rows" and "rr_id ` set rows \<subseteq> L" and k: "ak_application_id k \<in> A" "ak_is_active k"
  shows "realloc A L k (apply_row ak_id (put_key u) rows k)"
proof (cases "changed_row rows (ak_id k)")
  case (Some r)
  then have r: "r \<in> set rows" "rr_id r = ak_id k" by (auto simp: changed_row_def find_Some_iff)
  then have "money (rr_amount r)" "percent (rr_percentage r)" "ak_id k \<in> L"
    using typed assms(2) by (auto simp: typed_rows_def)
  with Some k show ?thesis
    by (simp add: realloc_def apply_row_def put_key_def typed_key_def same_key_def blank_key_def)
qed (simp add: apply_row_def)

lemma apply_percentage_realloc:
  assumes "\<forall>(i, p) \<in> set ps. p \<noteq> current i \<longrightarrow> percent p" and k: "ak_application_id k \<in> A" "ak_is_active k"
  shows "realloc A L k (apply_percentage ak_id (put_key_percentage u) current ps k)"
proof (cases "dict_get ps (ak_id k)")
  case (Some p)
  then have "p \<noteq> current (ak_id k) \<longrightarrow> percent p" using assms(1) by (auto dest: map_of_SomeD)
  with Some k show ?thesis
    by (simp add: realloc_def apply_percentage_def put_key_percentage_def typed_key_def same_key_def blank_key_def)
qed (simp add: apply_percentage_def)

lemma apply_percentage_untouched:
  "ak_id k \<notin> fst ` set ps \<Longrightarrow> apply_percentage ak_id (put_key_percentage u) current ps k = k"
  by (simp add: apply_percentage_def map_of_eq_None_iff split: option.split) (metis map_of_eq_None_iff option.distinct(1))

text \<open>The rows of the keys' level, and what the level holds afterwards.\<close>

lemma level_ok_keys:
  assumes "\<forall>k \<in> set ks. typed_key k \<and> is_int4_id (Some (ak_id k))" "distinct (map ak_id ks)"
  shows "level_ok (map (key_row usage) ks)"
  using assms int4_ids_few [of ak_id ks]
  by (auto simp: level_ok_def key_row_def typed_key_def o_def)


lemma sum_list_filter_le: "(\<And>x. x \<in> set xs \<Longrightarrow> (0 :: rat) \<le> f x) \<Longrightarrow> sum_list (map f (filter P xs)) \<le> sum_list (map f xs)"
  by (induction xs) (auto intro: add_mono add_increasing)

lemma distinct_eqI: "distinct (map f xs) \<Longrightarrow> x \<in> set xs \<Longrightarrow> y \<in> set xs \<Longrightarrow> f x = f y \<Longrightarrow> x = y"
  by (auto simp: distinct_map inj_on_def)

lemma ei_id_explicit [simp]: "ei_id (explicit_input i v) = i"
  by (simp add: explicit_input_def split: AllocationType.split)

lemma apply_row_key_fields [simp]:
  "ak_application_id (apply_row ak_id (put_key u) rows k) = ak_application_id k"
  "ak_is_active (apply_row ak_id (put_key u) rows k) = ak_is_active k"
  by (simp_all add: apply_row_def put_key_def split: option.split)

lemma apply_percentage_key_fields [simp]:
  "ak_application_id (apply_percentage ak_id (put_key_percentage u) c ps k) = ak_application_id k"
  "ak_is_active (apply_percentage ak_id (put_key_percentage u) c ps k) = ak_is_active k"
  "ak_allocated_budget (apply_percentage ak_id (put_key_percentage u) c ps k) = ak_allocated_budget k"
  by (simp_all add: apply_percentage_def put_key_percentage_def split: option.split)

text \<open>The listed keys of a request.\<close>

definition listed :: "APIKeyAllocationRow list \<Rightarrow> int set" where
  "listed nested = kr_api_key_id ` set nested"

definition schema_ok :: "APIKeyAllocationRow list \<Rightarrow> bool" where
  "schema_ok nested \<longleftrightarrow> (\<forall>r \<in> set nested. check_bounds_and_precision (kr_allocation r))"

lemma explicit_ids [simp]: "ei_id ` set (map (\<lambda>r. explicit_input (kr_api_key_id r) (kr_allocation r)) nested) = listed nested"
  by (simp add: listed_def image_image)

lemma explicit_schema: "schema_ok nested \<Longrightarrow> \<forall>e \<in> set (map (\<lambda>r. explicit_input (kr_api_key_id r) (kr_allocation r)) nested). explicit_ok e"
  by (auto simp: schema_ok_def intro: schema_explicit_ok)

lemma app_keys_facts:
  assumes "typed_state s" "mset existing = mset (app_keys s a)"
  shows "set existing = set (app_keys s a)" "distinct (map ak_id existing)" "level_ok (map (key_row usage) existing)"
    "length existing = length (app_keys s a)"
proof -
  show set: "set existing = set (app_keys s a)" using assms(2) by (rule mset_eq_setD)
  have "distinct (map ak_id (app_keys s a))"
    using assms(1) unfolding app_keys_def typed_state_def tables_ok_def by (intro distinct_map_filter) simp
  moreover have "mset (map ak_id existing) = mset (map ak_id (app_keys s a))" using assms(2) by (simp only: mset_map)
  ultimately show dist: "distinct (map ak_id existing)" by (metis mset_eq_imp_distinct_iff)
  show "level_ok (map (key_row usage) existing)"
    using assms(1) set dist by (intro level_ok_keys) (auto simp: app_keys_def typed_state_def)
  show "length existing = length (app_keys s a)" using assms(2) by (rule mset_eq_length)
qed

lemma resolve_keys_spec:
  assumes ok: "resolve_and_persist_keys u parent nested existing usage owner s = Inr (rows, s')"
    and typed: "typed_state s" and ex: "mset existing = mset (app_keys s a)"
    and schema: "schema_ok nested" and parent: "money parent"
  shows "s' = s\<lparr>au_keys := map (apply_row ak_id (put_key u) rows) (au_keys s)\<rparr>" (is ?eq)
    and "keys_realloc {a} (listed nested) s s'" (is ?realloc)
    and "keys_total s' a \<le> parent + of_nat (length (app_keys s a)) / 100" (is ?total)
    and "rr_id ` set rows \<subseteq> listed nested" (is ?listed)
    and "typed_rows rows"
proof -
  let ?explicit = "map (\<lambda>r. explicit_input (kr_api_key_id r) (kr_allocation r)) nested"
  note facts = app_keys_facts [OF typed ex]
  have persisted: "resolve_and_persist_level (store_key u) parent (map (key_row usage) existing) ?explicit s = Inr (rows, s')"
    using ok by (auto simp: resolve_and_persist_keys_def)
  note level = keys.persist_level [OF persisted facts(3) explicit_schema [OF schema] parent]
  show eq: ?eq using level(3) .
  show "typed_rows rows" using level(2) .
  have ids: "map rr_id rows = filter (\<lambda>i. i \<in> listed nested) (map ar_id (map (key_row usage) existing))"
    using resolve_level_spec(1) [OF level(1) facts(3) explicit_schema [OF schema] parent] by (simp only: explicit_ids)
  have "set (map rr_id rows) = set (filter (\<lambda>i. i \<in> listed nested) (map ak_id existing))"
    unfolding ids by (simp add: o_def)
  then have rr: "rr_id ` set rows \<subseteq> listed nested" "rr_id ` set rows \<subseteq> ak_id ` set existing" by auto
  show ?listed using rr(1) .
  have keyids: "distinct (map ak_id (au_keys s))" using typed by (simp add: typed_state_def tables_ok_def)
  have "realloc {a} (listed nested) k (apply_row ak_id (put_key u) rows k)" if k: "k \<in> set (au_keys s)" for k
  proof (cases "k \<in> set existing")
    case True
    then have "ak_application_id k \<in> {a}" "ak_is_active k" by (simp_all add: facts(1) app_keys_def)
    with level(2) rr(1) show ?thesis by (rule apply_key_realloc)
  next
    case False
    have "ak_id k \<notin> rr_id ` set rows"
    proof
      assume "ak_id k \<in> rr_id ` set rows"
      with rr(2) obtain k' where "k' \<in> set existing" "ak_id k = ak_id k'" by auto
      with facts(1) k False show False using distinct_eqI [OF keyids, of k k'] by (auto simp: app_keys_def)
    qed
    then show ?thesis by (simp add: keys.untouched)
  qed
  then show ?realloc unfolding eq by (rule keys_realloc_map)
  have "app_keys s' a = map (apply_row ak_id (put_key u) rows) (app_keys s a)"
    by (simp add: eq app_keys_def filter_map o_def)
  then have "keys_total s' a = sum_list (map (\<lambda>k. or_zero (ak_allocated_budget (apply_row ak_id (put_key u) rows k))) (app_keys s a))"
    by (simp add: keys_total_def o_def)
  also have "\<dots> = sum_list (map (\<lambda>k. or_zero (ak_allocated_budget (apply_row ak_id (put_key u) rows k))) existing)"
    using ex by (intro sum_list_mset_map) simp
  also have "\<dots> \<le> parent + of_nat (length existing) / 100"
    by (rule keys.total_after [OF level(1) facts(3) explicit_schema [OF schema] parent])
  finally show ?total by (simp add: facts(4))
qed


lemma few_keys: "typed_state s \<Longrightarrow> of_nat (length (app_keys s a)) / 100 < (10 :: rat) ^ 8"
proof -
  assume t: "typed_state s"
  have "distinct (map ak_id (app_keys s a))"
    using t unfolding app_keys_def typed_state_def tables_ok_def by (intro distinct_map_filter) simp
  then have "length (app_keys s a) = card (ak_id ` set (app_keys s a))" by (metis distinct_card length_map set_map)
  also have "\<dots> \<le> card {1..INT4_MAX}"
    using t by (intro card_mono) (auto simp: typed_state_def app_keys_def is_int4_id_def)
  finally have "of_nat (length (app_keys s a)) \<le> (of_nat (card {1..INT4_MAX}) :: rat)" by (simp only: of_nat_le_iff)
  then show ?thesis by (simp add: INT4_MAX_def)
qed

lemma cascade_into_keys_spec:
  assumes ok: "cascade_into_keys u a parent nested existing usage ch (ws, s) = Inr (out, ws', s')"
    and typed: "typed_state s" and ex: "mset existing = mset (app_keys s a)"
    and schema: "schema_ok nested" and parent: "money parent"
  shows "keys_realloc {a} (listed nested) s s'" "keys_total s' a \<le> parent + of_nat (length (app_keys s a)) / 100"
proof -
  from ok obtain rows s1 ps where keys: "resolve_and_persist_keys u parent nested existing usage (Some a) s = Inr (rows, s1)"
    and rec: "(if ch then recompute_key_percentages u parent (filter (\<lambda>k. ak_id k \<notin> rr_id ` set rows) existing) s1
               else Inr ([], s1)) = Inr (ps, s')"
    by (auto simp: cascade_into_keys_def split: prod.splits)
  note spec = resolve_keys_spec [OF keys typed ex schema parent] and facts = app_keys_facts [OF typed ex]
  show "keys_realloc {a} (listed nested) s s'" "keys_total s' a \<le> parent + of_nat (length (app_keys s a)) / 100"
  proof (atomize (full), cases ch)
    case False
    with rec spec show "keys_realloc {a} (listed nested) s s' \<and> keys_total s' a \<le> parent + of_nat (length (app_keys s a)) / 100"
      by simp
  next
    case True
    define un where "un = filter (\<lambda>k. ak_id k \<notin> rr_id ` set rows) existing"
    define cur where "cur = percentage_in (map (\<lambda>k. (ak_id k, or_zero (ak_allocated_percentage k))) un)"
    from rec True have pct: "recompute_percentages parent (map (\<lambda>k. (ak_id k, ak_allocated_budget k)) un) = Inr ps"
      and st: "store_percentages (store_key_percentage u) cur ps s1 = Inr s'"
      by (auto simp: recompute_key_percentages_def un_def cur_def)
    have money: "\<forall>k \<in> set existing. pred_option money (ak_allocated_budget k)"
      using typed facts(1) by (auto simp: typed_state_def typed_key_def app_keys_def)
    have s1t: "typed_state s1" using spec(2) typed by (rule keys_realloc_typed)
    have "sum_list (map (or_zero \<circ> snd) (map (\<lambda>k. (ak_id k, ak_allocated_budget k)) un)) =
        sum_list (map (\<lambda>k. or_zero (ak_allocated_budget (apply_row ak_id (put_key u) rows k))) un)"
      by (rule arg_cong [of _ _ sum_list]) (auto simp: un_def keys.untouched)
    also have "\<dots> \<le> sum_list (map (\<lambda>k. or_zero (ak_allocated_budget (apply_row ak_id (put_key u) rows k))) existing)"
      unfolding un_def
    proof (rule sum_list_filter_le)
      fix k assume "k \<in> set existing"
      then have k: "k \<in> set (au_keys s)" using facts(1) by (simp add: app_keys_def)
      then have "apply_row ak_id (put_key u) rows k \<in> set (au_keys s1)" by (simp add: spec(1))
      then show "0 \<le> or_zero (ak_allocated_budget (apply_row ak_id (put_key u) rows k))"
        using s1t by (auto simp: typed_state_def typed_key_def dest!: or_zero_money simp: money_def)
    qed
    also have "\<dots> = keys_total s1 a"
    proof -
      have "app_keys s1 a = map (apply_row ak_id (put_key u) rows) (app_keys s a)"
        by (simp add: spec(1) app_keys_def filter_map o_def)
      then show ?thesis using ex by (simp add: keys_total_def o_def) (rule sum_list_mset_map)
    qed
    also have "\<dots> \<le> parent + 10 ^ 8" using spec(3) few_keys [OF typed, of a] by simp
    finally have total: "sum_list (map (or_zero \<circ> snd) (map (\<lambda>k. (ak_id k, ak_allocated_budget k)) un)) \<le> parent + 10 ^ 8" .
    have ids: "distinct (map fst (map (\<lambda>k. (ak_id k, ak_allocated_budget k)) un))"
      using facts(2) by (simp add: un_def o_def distinct_map_filter)
    have un_money: "\<forall>(i, b) \<in> set (map (\<lambda>k. (ak_id k, ak_allocated_budget k)) un). pred_option money b"
      using money by (auto simp: un_def)
    note cents = recompute_percentages_cents [OF pct parent ids un_money total]
    note pers = keys.persist_percentages [OF st cents(1,2)]
    have s': "s' = s1\<lparr>au_keys := map (apply_percentage ak_id (put_key_percentage u) cur ps) (au_keys s1)\<rparr>" using pers by blast
    have pid: "fst ` set ps \<subseteq> ak_id ` set existing" using cents(3) by (auto simp: un_def)
    have "realloc {a} (listed nested) k (apply_percentage ak_id (put_key_percentage u) cur ps k)" if k: "k \<in> set (au_keys s1)" for k
    proof (cases "ak_id k \<in> fst ` set ps")
      case True
      with pid obtain k' where k': "k' \<in> set existing" "ak_id k' = ak_id k" by (metis image_iff subset_iff)
      then have "k' \<in> set (au_keys s)" "ak_application_id k' = a" "ak_is_active k'" using facts(1) by (simp_all add: app_keys_def)
      moreover obtain k0 where k0: "k0 \<in> set (au_keys s)" "k = apply_row ak_id (put_key u) rows k0" using k by (auto simp: spec(1))
      moreover have "k0 = k'"
        using distinct_eqI [of ak_id "au_keys s" k0 k'] typed k0 k'(2) \<open>k' \<in> set (au_keys s)\<close>
        by (auto simp: typed_state_def tables_ok_def)
      ultimately have "ak_application_id k \<in> {a}" "ak_is_active k" by simp_all
      with pers show ?thesis by (intro apply_percentage_realloc) auto
    next
      case False
      then show ?thesis by (simp add: apply_percentage_untouched)
    qed
    then have "keys_realloc {a} (listed nested) s1 s'" unfolding s' by (rule keys_realloc_map)
    from keys_realloc_trans [OF spec(2) this] have "keys_realloc {a} (listed nested) s s'" by simp
    moreover have "keys_total s' a = keys_total s1 a"
      by (simp add: s' keys_total_def app_keys_def filter_map o_def)
    ultimately show "keys_realloc {a} (listed nested) s s' \<and> keys_total s' a \<le> parent + of_nat (length (app_keys s a)) / 100"
      using spec(3) by simp
  qed
qed

end
