(* ===== verification/Allocation_Theorems.thy ===== *)
theory Allocation_Theorems
  imports Allocation_Props
begin

text \<open>
  The budget hierarchy across requests: what a successful allocation establishes for the applications of
  a tenant and the keys of an application, that a refused request changes nothing, and that the
  exhaustion flags and the ledger agree with the new ceilings.
\<close>

section \<open>The applications of a tenant\<close>

lemma level_ok_apps:
  assumes "\<forall>a \<in> set as. typed_app a \<and> is_int4_id (Some (ap_id a))" "distinct (map ap_id as)"
  shows "level_ok (map (app_row keys_by_app usage) as)"
  using assms int4_ids_few [of ap_id as]
  by (auto simp: level_ok_def app_row_def typed_app_def o_def)

definition apps_schema_ok :: "ApplicationAllocationRow list \<Rightarrow> bool" where
  "apps_schema_ok rows \<longleftrightarrow> (\<forall>r \<in> set rows. check_bounds_and_precision (pr_allocation r) \<and> schema_ok (pr_api_keys r))"

definition listed_apps :: "ApplicationAllocationRow list \<Rightarrow> int set" where
  "listed_apps rows = pr_application_id ` set rows"

definition listed_keys :: "ApplicationAllocationRow list \<Rightarrow> int set" where
  "listed_keys rows = (\<Union>r \<in> set rows. listed (pr_api_keys r))"

lemma tenant_apps_facts:
  assumes "typed_state s" and as: "as = active_applications (apps_by_tenant s t)"
  shows "distinct (map ap_id as)" "level_ok (map (app_row keys_by_app usage) as)"
    "mset as = mset (filter (\<lambda>a. ap_tenant_id a = t \<and> ap_status a = APP_ACTIVE) (au_applications s))"
proof -
  show m: "mset as = mset (filter (\<lambda>a. ap_tenant_id a = t \<and> ap_status a = APP_ACTIVE) (au_applications s))"
    unfolding as active_applications_def apps_by_tenant_def by (simp add: filter_filter_mset)
  have "distinct (map ap_id (filter (\<lambda>a. ap_tenant_id a = t \<and> ap_status a = APP_ACTIVE) (au_applications s)))"
    using assms(1) unfolding typed_state_def tables_ok_def by (intro distinct_map_filter) simp
  moreover have "mset (map ap_id as) = mset (map ap_id (filter (\<lambda>a. ap_tenant_id a = t \<and> ap_status a = APP_ACTIVE) (au_applications s)))"
    using m by (simp only: mset_map)
  ultimately show d: "distinct (map ap_id as)" by (metis mset_eq_imp_distinct_iff)
  show "level_ok (map (app_row keys_by_app usage) as)"
    using assms(1) d by (intro level_ok_apps) (auto simp: as active_applications_def typed_state_def)
qed

text \<open>Storing the applications of a tenant.\<close>

lemma persist_apps_spec:
  assumes ok: "resolve_and_persist_level (store_app u) budget (map (app_row kba usage) as)
      (map (\<lambda>r. explicit_input (pr_application_id r) (pr_allocation r)) rows) s = Inr (resolved, s1)"
    and typed: "typed_state s" and as: "as = active_applications (apps_by_tenant s t)"
    and schema: "apps_schema_ok rows" and budget: "money budget"
  shows "s1 = s\<lparr>au_applications := map (apply_row ap_id (put_app u) resolved) (au_applications s)\<rparr>" (is ?eq)
    and "typed_state s1" and "typed_rows resolved" and "rr_id ` set resolved \<subseteq> listed_apps rows \<inter> ap_id ` set as"
    and "sum_allocated_budget s1 t \<le> budget + of_nat (length as) / 100"
    and "\<forall>a \<in> set (au_applications s). ap_id a \<notin> listed_apps rows \<longrightarrow> apply_row ap_id (put_app u) resolved a = a"
proof -
  let ?explicit = "map (\<lambda>r. explicit_input (pr_application_id r) (pr_allocation r)) rows"
  note facts = tenant_apps_facts [OF typed as]
  have ex: "\<forall>e \<in> set ?explicit. explicit_ok e" using schema by (auto simp: apps_schema_ok_def intro: schema_explicit_ok)
  note level = apps.persist_level [OF ok facts(2) ex budget]
  show eq: ?eq using level(3) .
  show tr: "typed_rows resolved" using level(2) .
  have "set (map rr_id resolved) = set (filter (\<lambda>i. i \<in> listed_apps rows) (map ap_id as))"
    unfolding resolve_level_spec(1) [OF level(1) facts(2) ex budget] by (auto simp: listed_apps_def app_row_def image_image)
  then show rr: "rr_id ` set resolved \<subseteq> listed_apps rows \<inter> ap_id ` set as" by auto
  show un: "\<forall>a \<in> set (au_applications s). ap_id a \<notin> listed_apps rows \<longrightarrow> apply_row ap_id (put_app u) resolved a = a"
    using rr by (auto intro!: apps.untouched)
  have fields: "ap_id (apply_row ap_id (put_app u) resolved a) = ap_id a"
      "ap_tenant_id (apply_row ap_id (put_app u) resolved a) = ap_tenant_id a"
      "ap_status (apply_row ap_id (put_app u) resolved a) = ap_status a" for a
    by (simp_all add: apply_row_def put_app_def split: option.split)
  have "typed_app (apply_row ap_id (put_app u) resolved a)" if "typed_app a" for a
  proof (cases "changed_row resolved (ap_id a)")
    case (Some r)
    then have "r \<in> set resolved" by (auto simp: changed_row_def find_Some_iff)
    with tr Some show ?thesis by (simp add: apply_row_def put_app_def typed_app_def typed_rows_def)
  qed (use that in \<open>simp add: apply_row_def\<close>)
  then show "typed_state s1"
    using typed by (simp add: eq typed_state_def tables_ok_def fields o_def)
  have "sum_allocated_budget s1 t = sum_list (map (\<lambda>a. or_zero (ap_allocated_budget (apply_row ap_id (put_app u) resolved a)))
      (filter (\<lambda>a. ap_tenant_id a = t \<and> ap_status a = APP_ACTIVE) (au_applications s)))"
    by (simp add: sum_allocated_budget_def sql_sum_def eq filter_map o_def fields)
  also have "\<dots> = sum_list (map (\<lambda>a. or_zero (ap_allocated_budget (apply_row ap_id (put_app u) resolved a))) as)"
    using facts(3) by (intro sum_list_mset_map) simp
  also have "\<dots> \<le> budget + of_nat (length as) / 100"
    by (rule apps.total_after [OF level(1) facts(2) ex budget])
  finally show "sum_allocated_budget s1 t \<le> budget + of_nat (length as) / 100" .
qed

section \<open>The cascade into the keys\<close>

lemma app_keys_other: "keys_realloc A L s s' \<Longrightarrow> a \<notin> A \<Longrightarrow> app_keys s' a = app_keys s a"
  unfolding app_keys_def using keys_realloc_other [of A L s s' a] by (metis (no_types, lifting) filter_filter filter_cong conj_commute)

lemma nested_of:
  assumes "apps_schema_ok rows"
  defines "nested i \<equiv> (case dict_get (dict_of pr_application_id rows) i of None \<Rightarrow> [] | Some row \<Rightarrow> pr_api_keys row)"
  shows "schema_ok (nested i)" "listed (nested i) \<subseteq> listed_keys rows"
proof -
  have "schema_ok (nested i) \<and> listed (nested i) \<subseteq> listed_keys rows"
  proof (cases "dict_get (dict_of pr_application_id rows) i")
    case None
    then show ?thesis by (simp add: nested_def schema_ok_def listed_def)
  next
    case (Some row)
    then have "row \<in> set rows" using dict_of_entry map_of_SomeD by fastforce
    with Some assms(1) show ?thesis by (auto simp: nested_def apps_schema_ok_def listed_keys_def)
  qed
  then show "schema_ok (nested i)" "listed (nested i) \<subseteq> listed_keys rows" by simp_all
qed

lemma cascade_app_spec:
  assumes ok: "cascade_app u rows kba usage r (out, ws, s) = Inr (out', ws', s')"
    and typed: "typed_state s" and schema: "apps_schema_ok rows" and amount: "money (rr_amount r)"
    and kba: "mset (active (kba (rr_id r))) = mset (app_keys s (rr_id r))"
  shows "keys_realloc {rr_id r} (listed_keys rows) s s'"
    "rr_changed r \<Longrightarrow> keys_total s' (rr_id r) \<le> rr_amount r + of_nat (length (app_keys s (rr_id r))) / 100"
proof -
  define nested where "nested = (case dict_get (dict_of pr_application_id rows) (rr_id r) of None \<Rightarrow> [] | Some row \<Rightarrow> pr_api_keys row)"
  note nest = nested_of [OF schema, of "rr_id r", folded nested_def]
  have both: "keys_realloc {rr_id r} (listed_keys rows) s s' \<and>
      (rr_changed r \<longrightarrow> keys_total s' (rr_id r) \<le> rr_amount r + of_nat (length (app_keys s (rr_id r))) / 100)"
  proof (cases "rr_changed r \<or> nested \<noteq> []")
    case True
    with ok obtain kout where casc: "cascade_into_keys u (rr_id r) (rr_amount r) nested (active (kba (rr_id r))) usage (rr_changed r) (ws, s)
        = Inr (kout, ws', s')"
      by (auto simp: cascade_app_def Let_def nested_def [symmetric])
    note spec = cascade_into_keys_spec [OF casc typed kba nest(1) amount]
    from keys_realloc_mono [OF spec(1) order_refl nest(2)] spec(2) show ?thesis by simp
  next
    case False
    with ok have "s' = s" by (auto simp: cascade_app_def Let_def nested_def [symmetric])
    with False show ?thesis by simp
  qed
  then show "keys_realloc {rr_id r} (listed_keys rows) s s'"
    "rr_changed r \<Longrightarrow> keys_total s' (rr_id r) \<le> rr_amount r + of_nat (length (app_keys s (rr_id r))) / 100"
    by simp_all
qed

lemma cascade_apps_spec:
  assumes "res_fold (cascade_app u rows kba usage) rs (out, ws, s) = Inr (out', ws', s')"
    and "typed_state s" "apps_schema_ok rows" "distinct (map rr_id rs)" "\<forall>r \<in> set rs. money (rr_amount r)"
    and "\<forall>r \<in> set rs. mset (active (kba (rr_id r))) = mset (app_keys s (rr_id r))"
  shows "keys_realloc (rr_id ` set rs) (listed_keys rows) s s' \<and>
    (\<forall>r \<in> set rs. rr_changed r \<longrightarrow> keys_total s' (rr_id r) \<le> rr_amount r + of_nat (length (app_keys s (rr_id r))) / 100)"
  using assms
proof (induction rs arbitrary: out ws s)
  case (Cons r rs)
  from Cons.prems(1) obtain out1 ws1 s1 where step: "cascade_app u rows kba usage r (out, ws, s) = Inr (out1, ws1, s1)"
    and rest: "res_fold (cascade_app u rows kba usage) rs (out1, ws1, s1) = Inr (out', ws', s')"
    by (auto simp: rbind_def split: sum.splits)
  have r: "money (rr_amount r)" "mset (active (kba (rr_id r))) = mset (app_keys s (rr_id r))" "rr_id r \<notin> rr_id ` set rs"
    using Cons.prems by auto
  note spec = cascade_app_spec [OF step Cons.prems(2,3) r(1,2)]
  have t1: "typed_state s1" by (rule keys_realloc_typed [OF spec(1) Cons.prems(2)])
  have same: "app_keys s1 (rr_id x) = app_keys s (rr_id x)" if "x \<in> set rs" for x
    using that r(3) by (intro app_keys_other [OF spec(1)]) (metis image_eqI singletonD)
  have IH: "keys_realloc (rr_id ` set rs) (listed_keys rows) s1 s' \<and>
    (\<forall>r \<in> set rs. rr_changed r \<longrightarrow> keys_total s' (rr_id r) \<le> rr_amount r + of_nat (length (app_keys s1 (rr_id r))) / 100)"
    using Cons.prems same by (intro Cons.IH [OF rest t1 Cons.prems(3)]) auto
  have "keys_total s' (rr_id r) = keys_total s1 (rr_id r)"
    using app_keys_other [OF conjunct1 [OF IH] r(3)] by (simp add: keys_total_def)
  moreover have "keys_realloc (rr_id ` set (r # rs)) (listed_keys rows) s s'"
    using keys_realloc_trans [OF spec(1) conjunct1 [OF IH]] by simp
  ultimately show ?case using IH spec(2) same by auto
qed simp

section \<open>After the commit\<close>

text \<open>The allocation of a key, which the flags and the ledger never touch.\<close>

definition alloc_view :: "APIKey \<Rightarrow> int \<times> int \<times> bool \<times> rat option \<times> rat option" where
  "alloc_view k = (ak_id k, ak_application_id k, ak_is_active k, ak_allocated_budget k, ak_allocated_percentage k)"

definition same_alloc :: "AuthState \<Rightarrow> AuthState \<Rightarrow> bool" where
  "same_alloc s s' \<longleftrightarrow> au_tenants s' = au_tenants s \<and> au_applications s' = au_applications s \<and>
     map alloc_view (au_keys s') = map alloc_view (au_keys s)"

lemma same_alloc_refl [simp]: "same_alloc s s"
  by (simp add: same_alloc_def)

lemma same_alloc_trans: "same_alloc s t \<Longrightarrow> same_alloc t u \<Longrightarrow> same_alloc s u"
  by (simp add: same_alloc_def)

lemma same_alloc_flags: "same_alloc s (snd (set_budget_exhausted_for_keys env ids b s))"
  by (auto simp: set_budget_exhausted_for_keys_def patch_cached_data_field_for_keys_def change_cached_data_def
      same_alloc_def alloc_view_def Let_def split: prod.split)

lemma same_alloc_finalize: "same_alloc s (snd (finalize env writes usage s))"
proof -
  have a: "same_alloc s (snd (write_budget_snapshot env writes s))" by (simp add: same_alloc_def)
  have b: "same_alloc t (snd (sync_key_exhaustion_flags env writes usage t))" for t
    unfolding sync_key_exhaustion_flags_def
    using same_alloc_flags [of t env "now_exhausted writes usage" True]
    by (auto split: prod.split sum.split intro: same_alloc_trans [OF _ same_alloc_flags])
  from same_alloc_trans [OF a b] show ?thesis by (simp add: finalize_def)
qed

lemma same_alloc_committed:
  "committed s env usage (Inr (out, ws, s1)) = (r, s') \<Longrightarrow> same_alloc s1 s'"
  using same_alloc_finalize [of s1 env ws usage] by (auto simp: committed_def split: prod.splits sum.splits)

lemma keys_total_view: "keys_total s a =
    sum_list (map (\<lambda>(i, app, act, b, p). or_zero b) (filter (\<lambda>(i, app, act, b, p). app = a \<and> act) (map alloc_view (au_keys s))))"
  by (simp add: keys_total_def app_keys_def filter_map o_def alloc_view_def)

lemma same_alloc_keys_total: "same_alloc s s' \<Longrightarrow> keys_total s' a = keys_total s a"
  by (simp add: keys_total_view same_alloc_def)

lemma same_alloc_typed: "same_alloc s s' \<Longrightarrow> typed_state s \<Longrightarrow> typed_state s'"
proof -
  assume same: "same_alloc s s'" and t: "typed_state s"
  have v: "map alloc_view (au_keys s') = map alloc_view (au_keys s)" using same by (simp add: same_alloc_def)
  have "map fst (map alloc_view (au_keys s')) = map fst (map alloc_view (au_keys s))" by (simp only: v)
  then have ids: "map ak_id (au_keys s') = map ak_id (au_keys s)" by (simp add: o_def alloc_view_def)
  have "typed_key k \<and> is_int4_id (Some (ak_id k))" if "k \<in> set (au_keys s')" for k
  proof -
    have "alloc_view k \<in> set (map alloc_view (au_keys s))" using that unfolding v [symmetric] by simp
    then obtain k0 where k0: "k0 \<in> set (au_keys s)" "alloc_view k = alloc_view k0" by auto
    have "typed_key k0" "is_int4_id (Some (ak_id k0))" using t k0(1) by (auto simp: typed_state_def)
    with k0(2) show ?thesis by (simp add: alloc_view_def typed_key_def)
  qed
  with same t ids show ?thesis by (simp add: typed_state_def tables_ok_def same_alloc_def)
qed

text \<open>The money a key row holds, by id.\<close>

definition key_budget :: "AuthState \<Rightarrow> int \<Rightarrow> rat option" where
  "key_budget s i = Option.bind (find (\<lambda>k. ak_id k = i) (au_keys s)) ak_allocated_budget"

lemma key_budget_view: "key_budget s i =
    Option.bind (find (\<lambda>v. fst v = i) (map alloc_view (au_keys s))) (\<lambda>(j, app, act, b, p). b)"
proof -
  have "find (\<lambda>v. fst v = i) (map alloc_view ks) = map_option alloc_view (find (\<lambda>k. ak_id k = i) ks)" for ks
    by (induction ks) (simp_all add: alloc_view_def)
  then show ?thesis by (cases "find (\<lambda>k. ak_id k = i) (au_keys s)") (simp_all add: key_budget_def alloc_view_def)
qed

lemma same_alloc_key_budget: "same_alloc s s' \<Longrightarrow> key_budget s' i = key_budget s i"
  by (simp add: key_budget_view same_alloc_def)

lemma realloc_key_budget:
  assumes "keys_realloc A L s s'" "i \<notin> L" shows "key_budget s' i = key_budget s i"
proof -
  obtain ks where ks: "s' = s\<lparr>au_keys := ks\<rparr>" "list_all2 (realloc A L) (au_keys s) ks"
    using assms(1) by (auto simp: keys_realloc_def)
  from ks(2) have "Option.bind (find (\<lambda>k. ak_id k = i) ks) ak_allocated_budget =
      Option.bind (find (\<lambda>k. ak_id k = i) (au_keys s)) ak_allocated_budget"
  proof (induction rule: list_all2_induct)
    case (Cons x xs y ys)
    have "ak_id x \<notin> L \<longrightarrow> ak_allocated_budget y = ak_allocated_budget x" using Cons(1) unfolding realloc_def by blast
    then show ?case using Cons(3) assms(2) realloc_fields(1) [OF Cons(1)] by auto
  qed simp
  with ks(1) show ?thesis by (simp add: key_budget_def)
qed

section \<open>The tenant endpoint\<close>

lemma tenant_keys: "a \<in> set ids \<Longrightarrow>
    mset (active (fst (load_keys_and_usage env s ids) a)) = mset (app_keys s a)"
  by (auto simp: load_keys_and_usage_def Let_def active_def keys_by_applications_def app_keys_def filter_filter_mset
      intro!: filter_mset_cong)

lemma stage_tenant_spec:
  assumes ok: "stage_tenant_allocations u budget rows as kba usage s = Inr (out, ws, s')"
    and typed: "typed_state s" and as: "as = active_applications (apps_by_tenant s t)" and schema: "apps_schema_ok rows"
    and budget: "money budget" and kba: "\<forall>a \<in> ap_id ` set as. mset (active (kba a)) = mset (app_keys s a)"
  shows "typed_state s'" "sum_allocated_budget s' t \<le> budget + of_nat (length as) / 100"
    "\<forall>a \<in> set (au_applications s). ap_id a \<notin> listed_apps rows \<longrightarrow> a \<in> set (au_applications s')"
    "\<forall>i. i \<notin> listed_keys rows \<longrightarrow> key_budget s' i = key_budget s i"
    "\<forall>a \<in> set (au_applications s') - set (au_applications s).
       keys_total s' (ap_id a) \<le> or_zero (ap_allocated_budget a) + of_nat (length (app_keys s (ap_id a))) / 100"
proof -
  from ok obtain resolved s1 out1 ws1 where
    apps: "resolve_and_persist_level (store_app u) budget (map (app_row kba usage) as)
      (map (\<lambda>r. explicit_input (pr_application_id r) (pr_allocation r)) rows) s = Inr (resolved, s1)"
    and casc: "res_fold (cascade_app u rows kba usage) resolved ([], [], s1) = Inr (out1, ws1, s')"
    by (auto simp: stage_tenant_allocations_def split: prod.splits)
  note spec = persist_apps_spec [OF apps typed as schema budget]
  have same_keys: "app_keys s1 a = app_keys s a" for a by (simp add: spec(1) app_keys_def)
  have dist: "distinct (map rr_id resolved)" "\<forall>r \<in> set resolved. money (rr_amount r)"
    using spec(3) by (simp_all add: typed_rows_def)
  have "\<forall>r \<in> set resolved. mset (active (kba (rr_id r))) = mset (app_keys s1 (rr_id r))"
    using kba spec(4) by (auto simp: same_keys)
  from cascade_apps_spec [OF casc spec(2) schema dist this]
  have re: "keys_realloc (rr_id ` set resolved) (listed_keys rows) s1 s'"
    and tot: "\<forall>r \<in> set resolved. rr_changed r \<longrightarrow>
       keys_total s' (rr_id r) \<le> rr_amount r + of_nat (length (app_keys s1 (rr_id r))) / 100" by blast+
  show "typed_state s'" by (rule keys_realloc_typed [OF re spec(2)])
  have sa: "au_applications s' = au_applications s1" using re by (auto simp: keys_realloc_def)
  show "sum_allocated_budget s' t \<le> budget + of_nat (length as) / 100"
    using spec(5) by (simp add: sum_allocated_budget_def sa)
  show "\<forall>a \<in> set (au_applications s). ap_id a \<notin> listed_apps rows \<longrightarrow> a \<in> set (au_applications s')"
    using spec(6) unfolding sa by (auto simp: spec(1) image_iff) metis
  show "\<forall>i. i \<notin> listed_keys rows \<longrightarrow> key_budget s' i = key_budget s i"
    using realloc_key_budget [OF re] by (simp add: spec(1) key_budget_def)
  show "\<forall>a \<in> set (au_applications s') - set (au_applications s).
       keys_total s' (ap_id a) \<le> or_zero (ap_allocated_budget a) + of_nat (length (app_keys s (ap_id a))) / 100"
  proof
    fix a' assume a': "a' \<in> set (au_applications s') - set (au_applications s)"
    then obtain a where a: "a \<in> set (au_applications s)" "a' = apply_row ap_id (put_app u) resolved a"
      by (auto simp: sa spec(1))
    with a' obtain r where r: "changed_row resolved (ap_id a) = Some r" by (cases "changed_row resolved (ap_id a)") (auto simp: apply_row_def)
    then have rr: "r \<in> set resolved" "rr_id r = ap_id a" "rr_changed r" by (auto simp: changed_row_def find_Some_iff)
    have eqs: "ap_id a' = rr_id r" "or_zero (ap_allocated_budget a') = rr_amount r"
      using r rr(2) by (simp_all add: a(2) apply_row_def put_app_def or_zero_def)
    have "keys_total s' (rr_id r) \<le> rr_amount r + of_nat (length (app_keys s1 (rr_id r))) / 100"
      using tot rr by blast
    then show "keys_total s' (ap_id a') \<le> or_zero (ap_allocated_budget a') + of_nat (length (app_keys s (ap_id a'))) / 100"
      unfolding eqs same_keys .
  qed
qed

lemma load_keys_mset:
  "load_keys_and_usage env s ids = (kba, usage) \<Longrightarrow> \<forall>a \<in> set ids. mset (active (kba a)) = mset (app_keys s a)"
  using tenant_keys [of _ ids env s] by simp

text \<open>
  C5: A successful call of the tenant endpoint leaves well-typed tables, and the active applications of the
  tenant hold at most its budget plus one cent for each of them.  An application that was not listed and
  the money of a key that was not listed are as before, and under an application whose amount changed the
  active keys hold at most its new amount plus one cent for each of them.
\<close>

theorem tenant_allocation_stays_within_budget:
  assumes run: "update_tenant_application_allocations env user t rows s = (Inr out, s')"
    and typed: "typed_state s" and schema: "apps_schema_ok rows"
  shows "typed_state s' \<and>
    (\<exists>tn budget. tenant_by_id s t = Some tn \<and> tn_allocated_budget tn = Some budget \<and>
       sum_allocated_budget s' t \<le> budget + of_nat (length (active_applications (apps_by_tenant s t))) / 100) \<and>
    (\<forall>a \<in> set (au_applications s). ap_id a \<notin> listed_apps rows \<longrightarrow> a \<in> set (au_applications s')) \<and>
    (\<forall>i. i \<notin> listed_keys rows \<longrightarrow> key_budget s' i = key_budget s i) \<and>
    (\<forall>a \<in> set (au_applications s') - set (au_applications s).
       keys_total s' (ap_id a) \<le> or_zero (ap_allocated_budget a) + of_nat (length (app_keys s (ap_id a))) / 100)"
proof -
  define as where "as = active_applications (apps_by_tenant s t)"
  obtain kba usage where load: "load_keys_and_usage env s (map ap_id as) = (kba, usage)" by fastforce
  from run obtain tn budget where tn: "tenant_by_id s t = Some tn" "tn_allocated_budget tn = Some budget"
    and com: "committed s env usage (stage_tenant_allocations (us_id user) budget rows as kba usage s) = (Inr out, s')"
    by (auto simp: update_tenant_application_allocations_def as_def [symmetric] load split: sum.splits option.splits)
  from com obtain out1 ws s1 where stage: "stage_tenant_allocations (us_id user) budget rows as kba usage s = Inr (out1, ws, s1)"
    by (auto simp: committed_def split: sum.splits)
  have same: "same_alloc s1 s'" using com unfolding stage by (rule same_alloc_committed)
  have budget: "money budget" using typed tn tenant_by_id_Some [OF tn(1)] by (auto simp: typed_state_def dest!: bspec)
  have kba: "\<forall>a \<in> ap_id ` set as. mset (active (kba a)) = mset (app_keys s a)" using load_keys_mset [OF load] by simp
  note spec = stage_tenant_spec [OF stage typed as_def schema budget kba]
  have apps: "au_applications s' = au_applications s1" using same by (simp add: same_alloc_def)
  have "sum_allocated_budget s' t \<le> budget + of_nat (length as) / 100"
    using spec(2) by (simp add: sum_allocated_budget_def apps)
  moreover have "\<forall>i. i \<notin> listed_keys rows \<longrightarrow> key_budget s' i = key_budget s i"
    using spec(4) same_alloc_key_budget [OF same] by simp
  moreover have "\<forall>a \<in> set (au_applications s') - set (au_applications s).
       keys_total s' (ap_id a) \<le> or_zero (ap_allocated_budget a) + of_nat (length (app_keys s (ap_id a))) / 100"
    using spec(5) by (simp only: apps same_alloc_keys_total [OF same])
  ultimately show ?thesis
    using tn spec(3) same_alloc_typed [OF same spec(1)] unfolding apps as_def by blast
qed

section \<open>The key endpoints\<close>

lemma stage_keys_spec:
  assumes "stage_key_allocations env u a budget nested s = (usage, Inr (out, ws, s'))"
    and typed: "typed_state s" and schema: "schema_ok nested" and budget: "money budget"
  shows "typed_state s'" "keys_realloc {ap_id a} (listed nested) s s'"
    "keys_total s' (ap_id a) \<le> budget + of_nat (length (app_keys s (ap_id a))) / 100"
proof -
  let ?ex = "active (keys_by_application s (ap_id a))"
  from assms(1) obtain rows where keys: "resolve_and_persist_keys u budget nested ?ex usage (Some (ap_id a)) s = Inr (rows, s')"
    by (auto simp: stage_key_allocations_def Let_def)
  have ex: "mset ?ex = mset (app_keys s (ap_id a))"
    by (simp add: active_def keys_by_application_def app_keys_def filter_filter_mset)
  note spec = resolve_keys_spec [OF keys typed ex schema budget]
  show "keys_realloc {ap_id a} (listed nested) s s'" using spec(2) .
  then show "typed_state s'" using typed by (rule keys_realloc_typed)
  show "keys_total s' (ap_id a) \<le> budget + of_nat (length (app_keys s (ap_id a))) / 100" using spec(3) .
qed

lemma committed_keys_spec:
  assumes stage: "stage_key_allocations env u a budget nested s = (usage, staged)"
    and com: "committed s env usage staged = (Inr out, s')"
    and typed: "typed_state s" and schema: "schema_ok nested" and budget: "money budget"
  shows "typed_state s'" "au_applications s' = au_applications s"
    "\<And>i. i \<notin> listed nested \<Longrightarrow> key_budget s' i = key_budget s i"
    "keys_total s' (ap_id a) \<le> budget + of_nat (length (app_keys s (ap_id a))) / 100"
    "\<And>b. b \<noteq> ap_id a \<Longrightarrow> keys_total s' b = keys_total s b"
proof -
  from com obtain out1 ws s1 where st: "staged = Inr (out1, ws, s1)" by (auto simp: committed_def split: sum.splits)
  have same: "same_alloc s1 s'" using com unfolding st by (rule same_alloc_committed)
  note spec = stage_keys_spec [OF stage [unfolded st] typed schema budget]
  show "typed_state s'" by (rule same_alloc_typed [OF same spec(1)])
  show "au_applications s' = au_applications s"
    using same spec(2) by (auto simp: same_alloc_def keys_realloc_def)
  show "key_budget s' i = key_budget s i" if "i \<notin> listed nested" for i
    using same_alloc_key_budget [OF same] realloc_key_budget [OF spec(2) that] by simp
  show "keys_total s' (ap_id a) \<le> budget + of_nat (length (app_keys s (ap_id a))) / 100"
    using spec(3) same_alloc_keys_total [OF same] by simp
  show "keys_total s' b = keys_total s b" if "b \<noteq> ap_id a" for b
    using same_alloc_keys_total [OF same] app_keys_other [OF spec(2), of b] that by (simp add: keys_total_def)
qed

lemma load_application_facts:
  assumes "load_and_lock_application s user i = Inr (a, b)" "typed_state s"
  shows "app_by_id s i = Some a" "ap_id a = i" "ap_allocated_budget a = Some b" "money b"
proof -
  show ap: "app_by_id s i = Some a" "ap_allocated_budget a = Some b"
    using assms(1) by (auto simp: load_and_lock_application_def split: option.splits)
  then show "ap_id a = i" "money b"
    using app_by_id_Some [OF ap(1)] assms(2) by (auto simp: typed_state_def typed_app_def)
qed

text \<open>
  C15: A successful call of the key endpoint changes no application, leaves the active keys of the
  application with at most its budget plus one cent for each of them, and moves the money of listed keys
  only; no other application's keys are touched.
\<close>

theorem key_allocation_stays_within_application:
  assumes run: "update_application_key_allocations env user app body s = (Inr out, s')"
    and typed: "typed_state s" and schema: "schema_ok (pr_api_keys body)"
  shows "typed_state s' \<and> au_applications s' = au_applications s \<and>
    (\<exists>a b. app_by_id s app = Some a \<and> ap_allocated_budget a = Some b \<and>
       keys_total s' app \<le> b + of_nat (length (app_keys s app)) / 100) \<and>
    (\<forall>i. i \<notin> listed (pr_api_keys body) \<longrightarrow> key_budget s' i = key_budget s i) \<and>
    (\<forall>b. b \<noteq> app \<longrightarrow> keys_total s' b = keys_total s b)"
proof -
  from run obtain a b where load: "load_and_lock_application s user app = Inr (a, b)"
    and run': "(let (usage, staged) = stage_key_allocations env (us_id user) a b (pr_api_keys body) s
          in (case committed s env usage staged of
                (Inl e, s') \<Rightarrow> (Inl e, s')
              | (Inr out, s') \<Rightarrow>
                  (Inr \<lparr>pi_application_id = app, pi_allocation = pr_allocation body,
                        pi_allocated_budget = b, pi_api_keys = Some out\<rparr>, s'))) = (Inr out, s')"
    by (auto simp: update_application_key_allocations_def split: sum.splits)
  obtain usage staged where st: "stage_key_allocations env (us_id user) a b (pr_api_keys body) s = (usage, staged)" by fastforce
  from run' obtain out1 where com: "committed s env usage staged = (Inr out1, s')"
    by (auto simp: st split: prod.splits sum.splits)
  note a = load_application_facts [OF load typed]
  note spec = committed_keys_spec [OF st com typed schema a(4), unfolded a(2)]
  show ?thesis using spec a by blast
qed

section \<open>Refusals\<close>

lemma committed_error: "committed s env usage r = (Inl e, s') \<Longrightarrow> e = RedisFailed \<or> s' = s"
  by (auto simp: committed_def finalize_def sync_key_exhaustion_flags_def set_budget_exhausted_for_keys_def
      split: sum.splits prod.splits if_splits)

lemma response_error: "response_value ty x = Inl e \<Longrightarrow> e = ResponseInvalid"
  by (simp add: response_value_def Let_def split: if_splits)


section \<open>Flags and ledger\<close>

definition flag_key :: "bool \<Rightarrow> APIKey \<Rightarrow> APIKey" where
  "flag_key b k = k\<lparr>ak_cached_data := map_option (dict_set ''budget-exhausted'' (C_str (flag b))) (ak_cached_data k)\<rparr>"

definition flag_entry :: "datetime \<Rightarrow> bool \<Rightarrow> payload \<times> expiry \<Rightarrow> payload \<times> expiry" where
  "flag_entry now b he = (if live now (snd he) then (dict_set ''budget-exhausted'' (C_str (flag b)) (fst he), snd he) else he)"

lemma dict_set_twice [simp]: "dict_set k v (dict_set k w d) = dict_set k v d"
  by (induction d) auto

lemma dict_set_not_Nil [simp]: "dict_set k v d \<noteq> []"
  by (cases d) (auto split: if_splits)

lemma flag_entry_twice [simp]: "flag_entry now b (flag_entry now c he) = flag_entry now b he"
  by (simp add: flag_entry_def)

lemma dict_get_patch:
  "dict_get (patch_api_key_cache_field now v ''budget-exhausted'' (flag b) r) key =
     (if key = REDIS_API_KEY_PREFIX @ v then map_option (flag_entry now b) (dict_get r key) else dict_get r key)"
  by (auto simp: patch_api_key_cache_field_def change_hash_def Let_def flag_entry_def split: option.split)

lemma dict_get_patches:
  "dict_get (fold (\<lambda>v. patch_api_key_cache_field now v ''budget-exhausted'' (flag b)) vs r) key =
     (if key \<in> (@) REDIS_API_KEY_PREFIX ` set vs then map_option (flag_entry now b) (dict_get r key) else dict_get r key)"
proof (induction vs arbitrary: r)
  case (Cons v vs)
  then show ?case by (auto simp: dict_get_patch option.map_comp o_def)
qed simp

definition flagged :: "datetime \<Rightarrow> int list \<Rightarrow> APIKey \<Rightarrow> bool" where
  "flagged now ids k \<longleftrightarrow> ak_id k \<in> set ids \<and> active_key_conditions now True k"

lemma set_exhausted_keys:
  assumes "en_redis env"
  shows "set_budget_exhausted_for_keys env ids b s = (Inr (), s
    \<lparr>au_keys := map (\<lambda>k. if flagged (en_now env) ids k then flag_key b k else k) (au_keys s),
     au_redis := fold (\<lambda>v. patch_api_key_cache_field (en_now env) v ''budget-exhausted'' (flag b))
       (live_key_values (en_now env) (filter (flagged (en_now env) ids) (au_keys s))) (au_redis s)\<rparr>)"
proof -
  have "filter (flagged (en_now env) ids) (au_keys s) = filter (\<lambda>k. ak_id k \<in> set ids \<and> active_key_conditions (en_now env) True k) (au_keys s)"
    by (rule filter_cong) (simp_all add: flagged_def)
  with assms show ?thesis
    by (simp add: set_budget_exhausted_for_keys_def patch_cached_data_field_for_keys_def change_cached_data_def
        flagged_def flag_key_def live_key_values_def Let_def)
qed

lemma flag_key_same [simp]:
  "ak_id (flag_key b k) = ak_id k" "active_key_conditions now c (flag_key b k) = active_key_conditions now c k"
  "cache_key_values now (flag_key b k) = cache_key_values now k"
  by (auto simp: flag_key_def active_key_conditions_def cache_key_values_def live_rotated_key_def split: option.split)

lemma upsert_snapshots_spec:
  assumes "distinct (map fst ws)" "\<forall>(i, v) \<in> set ws. money v"
  shows "\<exists>d'. upsert_snapshots ws d = Some d' \<and>
    (\<forall>i. dict_get d' i = (case dict_get ws i of None \<Rightarrow> dict_get d i
       | Some v \<Rightarrow> Some \<lparr>bu_used = (case dict_get d i of None \<Rightarrow> 0 | Some r \<Rightarrow> bu_used r), bu_snap = Some v\<rparr>))"
  using assms
proof (induction ws arbitrary: d)
  case (Cons w ws)
  obtain i v where w: "w = (i, v)" by (cases w)
  have "pg_numeric 15 2 v = Some v"
    using Cons.prems(2) column_money [of v] by (auto simp: w column_def split: option.splits)
  moreover obtain d' where d': "upsert_snapshots ws (upsert_snapshot i v d) = Some d'"
    "\<forall>j. dict_get d' j = (case dict_get ws j of None \<Rightarrow> dict_get (upsert_snapshot i v d) j
       | Some v' \<Rightarrow> Some \<lparr>bu_used = (case dict_get (upsert_snapshot i v d) j of None \<Rightarrow> 0 | Some r \<Rightarrow> bu_used r), bu_snap = Some v'\<rparr>)"
    using Cons.IH [of "upsert_snapshot i v d"] Cons.prems by auto
  moreover have "dict_get ws i = None" using Cons.prems(1) by (simp add: w map_of_eq_None_iff)
  ultimately show ?case by (auto simp: w upsert_snapshot_def split: option.split)
qed simp

text \<open>Every hash under a value of a key whose ceiling changed, and every ledger row.\<close>

definition exhausted :: "(int, rat \<times> rat option) dict \<Rightarrow> int \<Rightarrow> rat \<Rightarrow> bool" where
  "exhausted usage i snap \<longleftrightarrow> snap \<le> used_of usage i"

lemma now_lists:
  assumes "distinct (map fst writes)" "(i, snap) \<in> set writes"
  shows "i \<in> set (now_exhausted writes usage) \<longleftrightarrow> exhausted usage i snap"
    "i \<in> set (now_clear writes usage) \<longleftrightarrow> \<not> exhausted usage i snap"
proof -
  have uniq: "(i, v) \<in> set writes \<longleftrightarrow> v = snap" for v
    using eq_key_imp_eq_value [OF assms(1) _ assms(2), of v] assms(2) by blast
  have "i \<in> set (now_exhausted writes usage) \<longleftrightarrow> (\<exists>v. (i, v) \<in> set writes \<and> v \<le> used_of usage i)"
    "i \<in> set (now_clear writes usage) \<longleftrightarrow> (\<exists>v. (i, v) \<in> set writes \<and> \<not> v \<le> used_of usage i)"
    by (auto simp: now_exhausted_def now_clear_def image_iff split_beta)
  then show "i \<in> set (now_exhausted writes usage) \<longleftrightarrow> exhausted usage i snap"
    "i \<in> set (now_clear writes usage) \<longleftrightarrow> \<not> exhausted usage i snap"
    by (simp_all add: uniq exhausted_def)
qed

lemma live_values_of: "v \<in> set (cache_key_values now k) \<Longrightarrow> k \<in> set ks \<Longrightarrow> v \<in> set (live_key_values now ks)"
  by (auto simp: live_key_values_def)

lemma distinct_live_values:
  assumes "distinct (live_key_values now ks)" "k \<in> set ks" "k' \<in> set ks" "v \<in> set (cache_key_values now k)" "v \<in> set (cache_key_values now k')"
  shows "k = k'"
  using assms unfolding live_key_values_def by (induction ks) auto

lemma sync_flags:
  assumes redis: "en_redis env" and uniq: "distinct (live_key_values (en_now env) (au_keys s))"
    and writes: "distinct (map fst writes)" "(i, snap) \<in> set writes"
    and k: "k \<in> set (au_keys s)" "ak_id k = i" "active_key_conditions (en_now env) True k"
  shows "\<exists>s'. sync_key_exhaustion_flags env writes usage s = (Inr (), s') \<and> flag_key (exhausted usage i snap) k \<in> set (au_keys s') \<and>
    (\<forall>v \<in> set (cache_key_values (en_now env) k).
       dict_get (au_redis s') (REDIS_API_KEY_PREFIX @ v) =
         map_option (flag_entry (en_now env) (exhausted usage i snap)) (dict_get (au_redis s) (REDIS_API_KEY_PREFIX @ v)))"
proof -
  let ?now = "en_now env" and ?E = "now_exhausted writes usage" and ?C = "now_clear writes usage"
  define s1 where "s1 = snd (set_budget_exhausted_for_keys env ?E True s)"
  define s2 where "s2 = snd (set_budget_exhausted_for_keys env ?C False s1)"
  have run: "sync_key_exhaustion_flags env writes usage s = (Inr (), s2)"
    by (simp add: sync_key_exhaustion_flags_def s1_def s2_def set_exhausted_keys [OF redis])
  define f where "f = (\<lambda>k. if flagged ?now ?E k then flag_key True k else k)"
  define g where "g = (\<lambda>k. if flagged ?now ?C k then flag_key False k else k)"
  have keys: "au_keys s1 = map f (au_keys s)" "au_keys s2 = map g (map f (au_keys s))"
    by (simp_all add: s1_def s2_def set_exhausted_keys [OF redis] f_def g_def)
  have same: "cache_key_values ?now (f x) = cache_key_values ?now x" "flagged ?now ids (f x) = flagged ?now ids x" for x ids
    by (simp_all add: f_def flagged_def)
  have fk: "flagged ?now ?E k \<longleftrightarrow> exhausted usage i snap" "flagged ?now ?C k \<longleftrightarrow> \<not> exhausted usage i snap"
    using now_lists [OF writes] k by (simp_all add: flagged_def)
  have "g (f k) = flag_key (exhausted usage i snap) k"
    using fk same(2) [of _ k] by (cases "exhausted usage i snap") (simp_all add: g_def f_def)
  then have in_keys: "flag_key (exhausted usage i snap) k \<in> set (au_keys s2)" using k(1) by (force simp: keys)
  have hit: "v \<in> set (live_key_values ?now (filter (flagged ?now ids) (au_keys s))) \<longleftrightarrow> flagged ?now ids k"
    if "v \<in> set (cache_key_values ?now k)" for v ids
  proof
    assume "v \<in> set (live_key_values ?now (filter (flagged ?now ids) (au_keys s)))"
    then obtain x where x: "x \<in> set (au_keys s)" "flagged ?now ids x" "v \<in> set (cache_key_values ?now x)"
      unfolding live_key_values_def by auto
    with distinct_live_values [OF uniq k(1) x(1) that x(3)] show "flagged ?now ids k" by simp
  next
    assume "flagged ?now ids k"
    with k(1) that show "v \<in> set (live_key_values ?now (filter (flagged ?now ids) (au_keys s)))"
      by (intro live_values_of [of v ?now k]) simp_all
  qed
  have live_f: "live_key_values ?now (filter (flagged ?now ids) (map f (au_keys s))) = live_key_values ?now (filter (flagged ?now ids) (au_keys s))" for ids
    by (simp add: live_key_values_def filter_map o_def same)
  have prefix: "REDIS_API_KEY_PREFIX @ v \<in> (@) REDIS_API_KEY_PREFIX ` set vs \<longleftrightarrow> v \<in> set vs" for v vs by (simp add: image_iff)
  have redis1: "au_redis s1 = fold (\<lambda>v. patch_api_key_cache_field ?now v ''budget-exhausted'' (flag True))
      (live_key_values ?now (filter (flagged ?now ?E) (au_keys s))) (au_redis s)"
    by (simp only: s1_def set_exhausted_keys [OF redis]) simp
  have redis2: "au_redis s2 = fold (\<lambda>v. patch_api_key_cache_field ?now v ''budget-exhausted'' (flag False))
      (live_key_values ?now (filter (flagged ?now ?C) (au_keys s))) (au_redis s1)"
    using live_f [of ?C] by (simp only: s2_def set_exhausted_keys [OF redis] keys(1)) simp
  have "dict_get (au_redis s2) (REDIS_API_KEY_PREFIX @ v) =
         map_option (flag_entry ?now (exhausted usage i snap)) (dict_get (au_redis s) (REDIS_API_KEY_PREFIX @ v))"
    if v: "v \<in> set (cache_key_values ?now k)" for v
    unfolding redis2 redis1 dict_get_patches prefix hit [OF v] fk by simp
  with run in_keys show ?thesis by blast
qed

lemma fetched_use:
  assumes "en_core_db env" "en_core_read env" "i \<in> set ids"
  shows "used_of (fetch_budget_usage env s ids) i = (case dict_get (au_budget_usage s) i of None \<Rightarrow> 0 | Some r \<Rightarrow> bu_used r)"
proof -
  have "dict_get (map (\<lambda>(k, r). (k, (bu_used r, bu_snap r))) (filter (\<lambda>(k, _). k \<in> set ids) d)) i =
      map_option (\<lambda>r. (bu_used r, bu_snap r)) (dict_get d i)" for d :: "(int, BudgetRow) dict"
    using assms(3) by (induction d) auto
  then show ?thesis using assms by (auto simp: fetch_budget_usage_def used_of_def split: option.split)
qed


section \<open>Percentages\<close>

lemma recompute_total:
  assumes fs: "funded entities \<noteq> []" and parent: "money parent" "0 < parent"
    and typed: "\<forall>(i, b) \<in> set entities. pred_option money b"
    and total: "sum_list (map (or_zero \<circ> snd) entities) \<le> parent + 10 ^ 8"
  shows "\<exists>ps. recompute_percentages parent entities = Inr ps \<and> map fst ps = map fst (funded entities) \<and>
    (\<forall>(i, p) \<in> set ps. cents p) \<and> sum_list (map snd ps) = pg_round 2 (share parent (sum_list (map (or_zero \<circ> snd) entities)))"
proof -
  note closed = recompute_percentages_closed [OF assms]
  let ?f = "butlast (funded entities)" and ?l = "last (funded entities)"
  let ?t = "pg_round 2 (share parent (sum_list (map (or_zero \<circ> snd) entities)))"
  let ?d = "sum_list (map (\<lambda>(i, b). down_share parent b) ?f)"
  let ?ps = "map (\<lambda>(i, b). (i, down_share parent b)) ?f @ [(fst ?l, ?t - ?d)]"
  have b: "\<forall>(i, b) \<in> set ?f. cents (down_share parent b)"
  proof safe
    fix i b assume "(i, b) \<in> set ?f"
    then have "(i, b) \<in> set (funded entities)" by (rule in_set_butlastD)
    then obtain b0 where "(i, b0) \<in> set entities" "b = or_zero b0" by (auto simp: funded_def)
    then have "money b" using typed by (metis (mono_tags, lifting) case_prodD or_zero_money)
    then show "cents (down_share parent b)" using down_share_cents parent(2) by (auto simp: money_def)
  qed
  have "has_scale 2 ?d" using b by (intro has_scale_sum_list) (auto simp: cents_def)
  then have last: "cents (?t - ?d)" using closed(2,4) by (simp add: cents_def has_scale_diff)
  have "map snd ?ps = map (\<lambda>(i, b). down_share parent b) ?f @ [?t - ?d]" by auto
  then have "sum_list (map snd ?ps) = ?t" by (simp only: sum_list_append) simp
  moreover have "map fst ?ps = map fst (funded entities)" by (rule map_fst_butlast_last [OF fs])
  moreover have "\<forall>(i, p) \<in> set ?ps. cents p" using b last by auto
  ultimately show ?thesis using closed(1) by blast
qed

text \<open>
  C27: The percentages recomputed for the children that were not listed are non-negative amounts of
  hundredths, one for each funded child in order, and their sum is exactly the children's total as a share
  of the parent, rounded to two places.
\<close>

theorem recomputed_percentages_add_up:
  assumes "funded entities \<noteq> []" "money parent" "0 < parent"
    and "\<forall>(i, b) \<in> set entities. pred_option money b"
    and "sum_list (map (or_zero \<circ> snd) entities) \<le> parent + 10 ^ 8"
  shows "\<exists>ps. recompute_percentages parent entities = Inr ps \<and> map fst ps = map fst (funded entities) \<and>
    (\<forall>(i, p) \<in> set ps. cents p) \<and> sum_list (map snd ps) = pg_round 2 (share parent (sum_list (map (or_zero \<circ> snd) entities)))"
  by (rule recompute_total [OF assms])

lemma share_total_le_100: "0 \<le> x \<Longrightarrow> x \<le> parent \<Longrightarrow> 0 < parent \<Longrightarrow> pg_round 2 (share parent x) \<le> 100"
proof -
  assume "0 \<le> x" "x \<le> parent" "0 < parent"
  then have "share parent x \<le> 100" using share_le_100 [of x parent] by (simp add: share_def)
  then have "pg_round 2 (share parent x) \<le> pg_round 2 100" by (rule pg_round_mono)
  then show ?thesis by simp
qed

context allocation_store
begin

lemma store_percentages_total:
  "\<forall>(i, p) \<in> set ps. percent p \<Longrightarrow> \<exists>s'. store_percentages pstore current ps s = Inr s'"
proof (induction ps arbitrary: s)
  case (Cons ip ps)
  obtain i p where ip: "ip = (i, p)" by (cases ip)
  have "percent p" using Cons.prems by (simp add: ip)
  then obtain t where "(if p \<noteq> current i then pstore i p s else Inr s) = Inr t" using pstore [of p i s] by (cases "p = current i") auto
  with Cons.IH [of t] Cons.prems show ?case by (simp add: store_percentages_def ip)
qed (simp add: store_percentages_def)

end

lemma recompute_entities_total:
  assumes "money parent" "\<forall>(i, b) \<in> set entities. pred_option money b" "distinct (map fst entities)"
    and "sum_list (map (or_zero \<circ> snd) entities) \<le> parent"
  shows "\<exists>ps. recompute_percentages parent entities = Inr ps \<and> (\<forall>(i, p) \<in> set ps. percent p) \<and> distinct (map fst ps) \<and>
    fst ` set ps \<subseteq> fst ` set entities \<and> sum_list (map snd ps) \<le> 100"
proof (cases "funded entities = [] \<or> parent = 0")
  case True
  have "sum_list (map snd (map (\<lambda>(i, _). (i, 0 :: rat)) (funded entities))) = 0"
    by (induction "funded entities") (auto simp: split_beta o_def)
  with True funded_ids [of entities] assms(3) show ?thesis
    by (auto simp: recompute_percentages_def funded_def [symmetric] Let_def percent_def split_beta o_def image_image image_iff)
next
  case False
  then have fs: "funded entities \<noteq> []" and p0: "0 < parent" using assms(1) by (auto simp: money_def)
  obtain ps where ps: "recompute_percentages parent entities = Inr ps" "map fst ps = map fst (funded entities)"
    "\<forall>(i, p) \<in> set ps. cents p" "sum_list (map snd ps) = pg_round 2 (share parent (sum_list (map (or_zero \<circ> snd) entities)))"
    using recompute_total [OF fs assms(1) p0 assms(2)] assms(4) by auto
  have "0 \<le> sum_list (map (or_zero \<circ> snd) entities)"
    using assms(2) by (intro sum_list_nonneg) (auto simp: split_beta dest!: bspec or_zero_money simp: money_def)
  then have le: "sum_list (map snd ps) \<le> 100" unfolding ps(4) using share_total_le_100 [OF _ assms(4) p0] by blast
  have "percent p" if "(i, p) \<in> set ps" for i p
  proof -
    have nn: "\<And>x. x \<in> set (map snd ps) \<Longrightarrow> 0 \<le> x" using ps(3) by (auto simp: cents_def)
    have "p \<le> sum_list (map snd ps)" by (rule member_le_sum_list) (use that nn in force)+
    with le ps(3) that show ?thesis by (auto simp: percent_def cents_def)
  qed
  moreover have "distinct (map fst ps)" using ps(2) funded_ids(1) [OF assms(3)] by simp
  moreover have "fst ` set ps \<subseteq> fst ` set entities" using ps(2) funded_ids(2) [of entities] by (metis image_set)
  ultimately show ?thesis using ps(1) le by blast
qed

lemma covered_level_passes:
  assumes "level_ok children" "money parent" "dsum (map ar_consumed_amount children) \<le> parent"
    and "sum_list (map ar_allocated_amount children) \<le> parent"
  shows "resolve_level parent children [] = Inr []"
proof -
  let ?S = "sum_list (map ar_allocated_amount children)"
  have c: "\<forall>x \<in> set (map ar_allocated_amount children). cents x"
    using assms(1) by (auto simp: level_ok_def intro: money_cents)
  have small: "?S < 10 ^ 26" using assms(2,4) by (simp add: money_def)
  have d: "dsum (map ar_allocated_amount children) = ?S" by (rule dsum_cents [OF c small])
  have z: "dadd 0 ?S = ?S" using dadd_cents [OF cents_0 cents_sum_list [OF c]] small by simp
  have p: "dfix parent = parent" using assms(2) by (intro dfix_scale [of 2]) (auto simp: money_def)
  have "0 \<le> dmul (1 / 100) (of_nat (length children))" by (simp add: dmul_def)
  then have "dfix parent \<le> dfix (parent + dmul (1 / 100) (of_nat (length children)))"
    using assms(2) by (intro dfix_mono) (auto simp: money_def)
  then have "\<not> dadd parent (dmul (1 / 100) (of_nat (length children))) < ?S" using p assms(4) by (simp add: dadd_def)
  moreover have "List.map_filter (\<lambda>c. None) children = ([] :: ResolvedRow list)" by (simp add: List.map_filter_def)
  ultimately show ?thesis
    using assms(2,3) d z by (simp add: resolve_level_def dict_of_def Let_def money_def)
qed

text \<open>
  A revised tenant budget that covers what its active applications hold and what their keys have
  consumed is always accepted: the call succeeds, moves no money, and rewrites the percentages of at most
  the active applications to ones that fit their column and add up to at most one hundred.
\<close>

lemma covering_budget_revision_succeeds:
  assumes typed: "typed_state s" and new: "money new_amount"
    and allocated: "sum_allocated_budget s t \<le> new_amount"
    and consumed: "dsum (map (\<lambda>a. consumed_total (filter (\<lambda>k. ak_application_id k = ap_id a)
        (keys_by_applications s (map ap_id as))) (fetch_budget_usage env s (map ak_id (keys_by_applications s (map ap_id as))))) as) \<le> new_amount"
    and as: "as = active_applications (apps_by_tenant s t)"
  shows "\<exists>n ps. cascade_tenant_budget_revision env user t new_amount s =
    Inr (n, s\<lparr>au_applications := map (apply_percentage ap_id (put_app_percentage user)
       (percentage_in (map (\<lambda>a. (ap_id a, or_zero (ap_allocated_percentage a))) as)) ps) (au_applications s)\<rparr>) \<and>
    n \<le> length as \<and> fst ` set ps \<subseteq> ap_id ` set as \<and> (\<forall>(i, p) \<in> set ps. percent p) \<and> sum_list (map snd ps) \<le> 100"
proof (cases "as = []")
  case True
  have "apply_percentage ap_id (put_app_percentage user) c [] = id" for c by (rule ext) (simp add: apply_percentage_def)
  with True show ?thesis
    by (intro exI [of _ 0] exI [of _ "[]"]) (simp add: cascade_tenant_budget_revision_def as [symmetric])
next
  case False
  define kba where "kba = (\<lambda>a. filter (\<lambda>k. ak_application_id k = a) (keys_by_applications s (map ap_id as)))"
  define usage where "usage = fetch_budget_usage env s (map ak_id (keys_by_applications s (map ap_id as)))"
  let ?cur = "percentage_in (map (\<lambda>a. (ap_id a, or_zero (ap_allocated_percentage a))) as)"
  let ?ents = "map (\<lambda>a. (ap_id a, ap_allocated_budget a)) as"
  note facts = tenant_apps_facts [OF typed as]
  have load: "load_keys_and_usage env s (map ap_id as) = (kba, usage)"
    by (simp add: load_keys_and_usage_def Let_def kba_def usage_def)
  have "sum_list (map (or_zero \<circ> ap_allocated_budget) as) =
      sum_list (map (or_zero \<circ> ap_allocated_budget) (filter (\<lambda>a. ap_tenant_id a = t \<and> ap_status a = APP_ACTIVE) (au_applications s)))"
    using facts(3) by (rule sum_list_mset_map)
  then have total: "sum_list (map (or_zero \<circ> ap_allocated_budget) as) \<le> new_amount"
    using allocated by (simp add: sum_allocated_budget_def sql_sum_def)
  have level: "resolve_level new_amount (map (app_row kba usage) as) [] = Inr []"
    using total consumed
    by (intro covered_level_passes [OF facts(2) new]) (simp_all add: app_row_def o_def kba_def usage_def)
  have money: "\<forall>(i, b) \<in> set ?ents. pred_option money b"
    using typed by (auto simp: as active_applications_def typed_state_def typed_app_def)
  have ids: "distinct (map fst ?ents)" using facts(1) by (simp add: o_def)
  have tot: "sum_list (map (or_zero \<circ> snd) ?ents) \<le> new_amount" using total by (simp add: o_def)
  obtain ps where ps: "recompute_percentages new_amount ?ents = Inr ps" "\<forall>(i, p) \<in> set ps. percent p"
    "distinct (map fst ps)" "fst ` set ps \<subseteq> fst ` set ?ents" "sum_list (map snd ps) \<le> 100"
    using recompute_entities_total [OF new money ids tot] by blast
  obtain s' where s': "store_percentages (store_app_percentage user) ?cur ps s = Inr s'"
    using apps.store_percentages_total [OF ps(2)] by blast
  have "\<forall>(i, p) \<in> set ps. cents p" using ps(2) by (auto simp: percent_def cents_def)
  from apps.persist_percentages [OF s' ps(3) this]
  have eq: "s' = s\<lparr>au_applications := map (apply_percentage ap_id (put_app_percentage user) ?cur ps) (au_applications s)\<rparr>" by blast
  have "length ps = card (fst ` set ps)" using ps(3) by (metis distinct_card length_map list.set_map)
  also have "\<dots> \<le> card (set (map fst ?ents))" using ps(4) by (intro card_mono) auto
  also have "\<dots> \<le> length as" by (metis card_length length_map)
  finally have "length (filter (\<lambda>(i, p). p \<noteq> ?cur i) ps) \<le> length as" by (meson length_filter_le order_trans)
  moreover have "fst ` set ps \<subseteq> ap_id ` set as" using ps(4) by (simp add: image_image)
  moreover have "cascade_tenant_budget_revision env user t new_amount s = Inr (length (filter (\<lambda>(i, p). p \<noteq> ?cur i) ps), s')"
    using False level ps(1) s'
    by (simp add: cascade_tenant_budget_revision_def as [symmetric] load recompute_app_percentages_def Let_def)
  ultimately show ?thesis using ps(2,5) eq by blast
qed

text \<open>
  C28: The rows the validator resolves are the listed children in the order of the level, each once, with an
  amount that \<open>NUMERIC(15, 2)\<close> and a percentage that \<open>NUMERIC(5, 2)\<close> store unchanged; no percentage
  exceeds one hundred and the amounts together never exceed the parent's.
\<close>

theorem resolved_rows_fit_columns:
  assumes "resolve_level parent children explicit = Inr rows" "level_ok children" "\<forall>e \<in> set explicit. explicit_ok e" "money parent"
  shows "map rr_id rows = filter (\<lambda>i. i \<in> ei_id ` set explicit) (map ar_id children) \<and> distinct (map rr_id rows) \<and>
    (\<forall>r \<in> set rows. column 15 (rr_amount r) = Inr (rr_amount r) \<and> column 5 (rr_percentage r) = Inr (rr_percentage r) \<and>
       0 \<le> rr_amount r \<and> 0 \<le> rr_percentage r \<and> rr_percentage r \<le> 100) \<and>
    sum_list (map rr_amount rows) \<le> parent"
proof -
  note spec = resolve_level_spec [OF assms]
  have "typed_rows rows" by (rule resolve_level_typed [OF assms])
  then show ?thesis using spec(1,3,4) by (auto simp: typed_rows_def column_money column_percent cents_def)
qed

section \<open>Examples\<close>

definition alloc_tenant :: Tenant where
  "alloc_tenant = \<lparr>tn_id = 1, tn_name = ''acme'', tn_organisation = ''Acme'', tn_status = ACTIVE, tn_tier_id = None, tn_allocated_budget = Some 1000,
     tn_budget_effective_from = None, tn_budget_effective_to = None, tn_updated_by = None\<rparr>"

definition alloc_app :: Application where
  "alloc_app = \<lparr>ap_id = 7, ap_tenant_id = 1, ap_name = ''app'', ap_description = None, ap_domain = None,
     ap_allocated_percentage = Some 10, ap_allocated_budget = Some 100, ap_status = APP_ACTIVE, ap_policy_id = None,
     ap_service_fallbacks = [], ap_created_by = None, ap_updated_by = None\<rparr>"

definition alloc_key :: APIKey where
  "alloc_key = \<lparr>ak_id = 5, ak_application_id = 7, ak_key_name = ''k'', ak_api_key = ''v'',
     ak_allocated_percentage = Some 50, ak_allocated_budget = Some 50, ak_permissions = [], ak_expires_at = None,
     ak_is_active = True, ak_created_at = 0, ak_created_by = None, ak_updated_by = None, ak_cached_data = Some [(''id'', C_int 5)],
     ak_rotated_key = None, ak_rotated_key_expires_at = None, ak_rotated_at = None\<rparr>"

definition alloc_state :: AuthState where
  "alloc_state = \<lparr>au_tenants = [alloc_tenant], au_applications = [alloc_app], au_keys = [alloc_key],
     au_roles = [(''root'', [ROLE_ADMIN])], au_budget_usage = [(5, \<lparr>bu_used = 20, bu_snap = Some 50\<rparr>)],
     au_redis = [(''auth:apikey:v'', ([(''id'', C_str ''5'')], None))]\<rparr>"

definition alloc_env :: Env where
  "alloc_env = \<lparr>en_core_db = True, en_core_read = True, en_core_write = True, en_redis = True, en_now = 0\<rparr>"

definition alloc_user :: User where "alloc_user = \<lparr>us_id = ''root'', us_tenant_id = None\<rparr>"
definition alloc_guest :: User where "alloc_guest = \<lparr>us_id = ''guest'', us_tenant_id = Some 1\<rparr>"

definition alloc_key_row :: APIKeyAllocationRow where
  "alloc_key_row = \<lparr>kr_api_key_id = 5, kr_allocation = \<lparr>av_type = FIXED, av_value = (80, 0)\<rparr>\<rparr>"

definition alloc_request :: ApplicationAllocationRow where
  "alloc_request = \<lparr>pr_application_id = 7, pr_allocation = \<lparr>av_type = PERCENTAGE, av_value = (50, 0)\<rparr>, pr_api_keys = [alloc_key_row]\<rparr>"

definition alloc_key_request :: ApplicationAllocationRow where
  "alloc_key_request = \<lparr>pr_application_id = 7, pr_allocation = \<lparr>av_type = PERCENTAGE, av_value = (10, 0)\<rparr>, pr_api_keys = [alloc_key_row]\<rparr>"

lemmas alloc_defs = alloc_tenant_def alloc_app_def alloc_key_def alloc_state_def alloc_env_def alloc_user_def alloc_guest_def
  alloc_key_row_def alloc_request_def alloc_key_request_def

lemma scale_numeral: "has_scale 2 (numeral n)" "has_scale 2 0"
  using has_scale_int [of 2 "numeral n"] by simp_all

lemma alloc_state_typed: "typed_state alloc_state"
  by (simp add: typed_state_def tables_ok_def alloc_defs typed_app_def typed_key_def money_def percent_def is_int4_id_def INT4_MAX_def scale_numeral)

lemma alloc_schema: "check_bounds_and_precision (kr_allocation alloc_key_row)" "check_bounds_and_precision (pr_allocation alloc_request)"
  by code_simp+

lemma dfix_numeral: "(numeral n :: int) < 10 ^ 28 \<Longrightarrow> dfix (numeral n) = numeral n"
  using dfix_exact [of "numeral n" 0] by simp

lemma dfix_hundredth: "\<bar>m\<bar> < 10 ^ 28 \<Longrightarrow> dfix (of_int m / 100) = of_int m / 100"
  using dfix_exact [of m "-2"] by (simp add: power_int_minus field_simps)

lemma quantize_numeral: "(numeral n :: int) < 10 ^ 26 \<Longrightarrow> quantize round_half_up (numeral n) = Inr (numeral n)"
proof -
  assume n: "(numeral n :: int) < 10 ^ 26"
  then have "of_int (numeral n) < (of_int (10 ^ 26) :: rat)" by (simp only: of_int_less_iff)
  then show ?thesis by (intro quantize_up_id scale_numeral) simp
qed

lemma alloc_quotients: "dfix (1 / 100) = 1 / 100" "dfix (4 / 25) = 4 / 25" "dfix (4 / 5) = 4 / 5"
    "dfix (10001 / 100) = 10001 / 100" "dfix (50001 / 100) = 50001 / 100" "dfix (100001 / 100) = 100001 / 100"
  using dfix_hundredth [of 1] dfix_hundredth [of 16] dfix_hundredth [of 80]
    dfix_hundredth [of 10001] dfix_hundredth [of 50001] dfix_hundredth [of 100001] by simp_all

lemmas dec_eval = dadd_def dsub_def dmul_def ddiv_def dsum_def dfix_numeral quantize_numeral dval_def
  explicit_input_def alloc_quotients

lemma fixed_ids_Cons:
  "fixed_key_ids (r # rs) = (if av_type (kr_allocation r) = FIXED then kr_api_key_id r # fixed_key_ids rs else fixed_key_ids rs)"
  "fixed_key_ids [] = []"
  "fixed_app_ids (q # qs) = (if av_type (pr_allocation q) = FIXED then pr_application_id q # fixed_app_ids qs else fixed_app_ids qs)"
  "fixed_app_ids [] = []"
  by (simp_all add: fixed_key_ids_def fixed_app_ids_def)

lemma alloc_apps_level:
  "resolve_level 1000 [\<lparr>ar_id = 7, ar_allocated_amount = 100, ar_allocated_percentage = 10, ar_consumed_amount = 20,
       ar_has_children = True, ar_label = Some ''app''\<rparr>]
     [explicit_input 7 \<lparr>av_type = PERCENTAGE, av_value = (50, 0)\<rparr>] =
   Inr [\<lparr>rr_id = 7, rr_amount = 500, rr_percentage = 50, rr_changed = True\<rparr>]"
  by (simp add: resolve_level_def resolve_row_def convert_def dict_of_def dec_eval Let_def List.map_filter_def)

lemma alloc_convert:
  "convert (explicit_input 5 \<lparr>av_type = FIXED, av_value = (80, 0)\<rparr>) 500 = Inr (80, 16)"
  "convert (explicit_input 5 \<lparr>av_type = FIXED, av_value = (80, 0)\<rparr>) 100 = Inr (80, 80)"
  by (simp_all add: convert_def dec_eval)

lemma alloc_keys_level:
  "resolve_level 500 [\<lparr>ar_id = 5, ar_allocated_amount = 50, ar_allocated_percentage = 50, ar_consumed_amount = 20,
       ar_has_children = False, ar_label = Some ''k''\<rparr>] [explicit_input 5 \<lparr>av_type = FIXED, av_value = (80, 0)\<rparr>] =
   Inr [\<lparr>rr_id = 5, rr_amount = 80, rr_percentage = 16, rr_changed = True\<rparr>]"
  "resolve_level 100 [\<lparr>ar_id = 5, ar_allocated_amount = 50, ar_allocated_percentage = 50, ar_consumed_amount = 20,
       ar_has_children = False, ar_label = Some ''k''\<rparr>] [explicit_input 5 \<lparr>av_type = FIXED, av_value = (80, 0)\<rparr>] =
   Inr [\<lparr>rr_id = 5, rr_amount = 80, rr_percentage = 80, rr_changed = True\<rparr>]"
  by (simp_all add: resolve_level_def resolve_row_def convert_def dict_of_def dec_eval Let_def List.map_filter_def)

lemma alloc_responses:
  "response_value FIXED 80 = Inr \<lparr>av_type = FIXED, av_value = (8000, -2)\<rparr>"
  "response_value PERCENTAGE 50 = Inr \<lparr>av_type = PERCENTAGE, av_value = (5000, -2)\<rparr>"
  by code_simp+

lemma alloc_columns: "column 15 500 = Inr 500" "column 5 50 = Inr 50" "column 15 80 = Inr 80" "column 5 16 = Inr 16" "column 5 80 = Inr 80"
  by (simp_all add: column_money column_percent money_def percent_def scale_numeral)

lemmas alloc_eval = authorize_institution_scope_def get_user_roles_def tenant_by_id_def is_int4_id_def INT4_MAX_def
  active_applications_def apps_by_tenant_def check_listed_app_def load_keys_and_usage_def keys_by_applications_def
  fetch_budget_usage_def resolve_and_persist_level_def app_row_def consumed_total_def used_of_def or_zero_def alloc_apps_level
  persist_rows_def store_app_def alloc_columns update_app_def resolve_and_persist_keys_def check_listed_key_def check_positive_def
  alloc_convert active_def key_row_def alloc_keys_level store_key_def update_key_def build_key_response_def response_allocation_def
  fixed_ids_Cons alloc_responses changed_ceilings_def committed_def set_exhausted_keys
  finalize_def sync_key_exhaustion_flags_def app_by_id_def load_and_lock_application_def guard_def

theorem tenant_allocation_stays_within_budget_witness:
  "\<exists>out s'. update_tenant_application_allocations alloc_env alloc_user 1 [alloc_request] alloc_state = (Inr out, s') \<and>
     sum_allocated_budget s' 1 \<le> 1000 + 1 / 100 \<and> key_budget s' 6 = None"
proof -
  have "\<exists>out s'. update_tenant_application_allocations alloc_env alloc_user 1 [alloc_request] alloc_state = (Inr out, s')"
    by (simp add: update_tenant_application_allocations_def stage_tenant_allocations_def cascade_app_def dict_of_def cascade_into_keys_def
        recompute_key_percentages_def recompute_percentages_def store_percentages_def dec_eval(5) alloc_eval alloc_defs Let_def dfix_numeral dadd_def)
  then obtain out s' where run: "update_tenant_application_allocations alloc_env alloc_user 1 [alloc_request] alloc_state = (Inr out, s')" by blast
  have schema: "apps_schema_ok [alloc_request]"
    using alloc_schema by (simp add: apps_schema_ok_def schema_ok_def alloc_request_def)
  note facts = tenant_allocation_stays_within_budget [OF run alloc_state_typed schema]
  have "sum_allocated_budget s' 1 \<le> 1000 + 1 / 100"
    using facts by (auto simp: tenant_by_id_def active_applications_def apps_by_tenant_def alloc_defs split: if_splits)
  moreover have "key_budget s' 6 = None"
    using facts by (auto simp: listed_keys_def listed_def key_budget_def alloc_defs)
  ultimately show ?thesis using run by blast
qed

theorem key_allocation_stays_within_application_witness:
  "\<exists>out s'. update_application_key_allocations alloc_env alloc_user 7 alloc_key_request alloc_state = (Inr out, s') \<and>
     keys_total s' 7 \<le> 100 + 1 / 100"
proof -
  have "\<exists>out s'. update_application_key_allocations alloc_env alloc_user 7 alloc_key_request alloc_state = (Inr out, s')"
    by (simp add: update_application_key_allocations_def stage_key_allocations_def keys_by_application_def
        assert_matches_current_application_allocation_def alloc_eval alloc_defs Let_def dval_def)
  then obtain out s' where run: "update_application_key_allocations alloc_env alloc_user 7 alloc_key_request alloc_state = (Inr out, s')" by blast
  have "schema_ok (pr_api_keys alloc_key_request)" using alloc_schema by (simp add: schema_ok_def alloc_key_request_def)
  from key_allocation_stays_within_application [OF run alloc_state_typed this]
  have "keys_total s' 7 \<le> 100 + 1 / 100" by (auto simp: app_by_id_def app_keys_def alloc_defs split: if_splits)
  with run show ?thesis by blast
qed



theorem recomputed_percentages_add_up_witness:
  "\<exists>ps. recompute_percentages 200 [(1, Some 50), (2, None), (3, Some 25)] = Inr ps \<and> map fst ps = [1, 3]"
proof -
  have "\<exists>ps. recompute_percentages 200 [(1, Some 50), (2, None), (3, Some 25)] = Inr ps \<and>
    map fst ps = map fst (funded [(1, Some 50), (2, None), (3, Some 25)]) \<and> (\<forall>(i, p) \<in> set ps. cents p) \<and>
    sum_list (map snd ps) = pg_round 2 (share 200 (sum_list (map (or_zero \<circ> snd) [(1 :: int, Some 50), (2, None), (3, Some 25)])))"
    by (rule recomputed_percentages_add_up) (auto simp: funded_def or_zero_def money_def scale_numeral)
  then show ?thesis by (auto simp: funded_def or_zero_def)
qed

theorem resolved_rows_fit_columns_witness:
  "\<exists>rows. resolve_level 500 [\<lparr>ar_id = 5, ar_allocated_amount = 50, ar_allocated_percentage = 50, ar_consumed_amount = 20,
       ar_has_children = False, ar_label = Some ''k''\<rparr>] [explicit_input 5 \<lparr>av_type = FIXED, av_value = (80, 0)\<rparr>] = Inr rows \<and>
     map rr_id rows = [5] \<and> sum_list (map rr_amount rows) \<le> 500"
proof -
  have "explicit_ok (explicit_input 5 \<lparr>av_type = FIXED, av_value = (80, 0)\<rparr>)"
    using schema_explicit_ok [OF alloc_schema(1)] by (simp add: alloc_key_row_def)
  then show ?thesis
    using resolved_rows_fit_columns [OF alloc_keys_level(1)] alloc_keys_level(1)
    by (simp add: level_ok_def money_def scale_numeral)
qed

end
