(* ===== verification/Api_Keys_Props.thy ===== *)
theory Api_Keys_Props
  imports Api_Keys Allocation_Theorems
begin

text \<open>
  Cache coherence of API keys: what Redis serves is backed by an active row whose windows last at least
  as long as the entry, over every sequence of key operations, fan-outs and reallocations with a Redis
  that answers.  A key that was revoked never validates again.
\<close>

section \<open>The invariant\<close>

definition key_values :: "APIKey \<Rightarrow> string set" where
  "key_values k = insert (ak_api_key k) (set_option (ak_rotated_key k))"

definition ends_by :: "datetime \<Rightarrow> datetime option \<Rightarrow> bool" where
  "ends_by t e \<longleftrightarrow> (case e of None \<Rightarrow> True | Some x \<Rightarrow> t \<le> x)"

text \<open>A row backs an entry under one of its values that ends no later than the value does.\<close>

definition backs :: "APIKey \<Rightarrow> string \<Rightarrow> expiry \<Rightarrow> bool" where
  "backs k v e \<longleftrightarrow> ak_is_active k \<and> (\<exists>t. e = Some t \<and> ends_by t (ak_expires_at k) \<and>
     (ak_api_key k = v \<or> ak_rotated_key k = Some v \<and> v \<noteq> [] \<and> (\<exists>r. ak_rotated_key_expires_at k = Some r \<and> t \<le> r)))"

text \<open>An entry that answers a validation now.\<close>

definition served :: "datetime \<Rightarrow> key_hashes \<Rightarrow> string \<Rightarrow> expiry \<Rightarrow> bool" where
  "served now r v e \<longleftrightarrow> live now e \<and> (\<exists>h. dict_get r (REDIS_API_KEY_PREFIX @ v) = Some (h, e) \<and> \<not> is_cache_entry_invalid h)"

definition values_ok :: "AuthState \<Rightarrow> bool" where
  "values_ok s \<longleftrightarrow> distinct (map ak_id (au_keys s)) \<and> (\<forall>k \<in> set (au_keys s). ak_api_key k \<noteq> []) \<and>
     (\<forall>k \<in> set (au_keys s). \<forall>k' \<in> set (au_keys s). key_values k \<inter> key_values k' \<noteq> {} \<longrightarrow> ak_id k = ak_id k')"

definition coherent :: "datetime \<Rightarrow> string set \<Rightarrow> AuthState \<Rightarrow> bool" where
  "coherent now V s \<longleftrightarrow> (\<forall>v e. v \<notin> V \<and> served now (au_redis s) v e \<longrightarrow> (\<exists>k \<in> set (au_keys s). backs k v e))"

definition key_inv :: "datetime \<Rightarrow> AuthState \<Rightarrow> bool" where
  "key_inv now s \<longleftrightarrow> values_ok s \<and> coherent now {} s"

text \<open>The columns the invariant depends on, and the fate of a revoked row.\<close>

definition life :: "APIKey \<Rightarrow> int \<times> string \<times> bool \<times> datetime option \<times> string option \<times> datetime option" where
  "life k = (ak_id k, ak_api_key k, ak_is_active k, ak_expires_at k, ak_rotated_key k, ak_rotated_key_expires_at k)"

definition same_life :: "AuthState \<Rightarrow> AuthState \<Rightarrow> bool" where
  "same_life s s' \<longleftrightarrow> map life (au_keys s') = map life (au_keys s)"

definition stays_revoked :: "AuthState \<Rightarrow> AuthState \<Rightarrow> bool" where
  "stays_revoked s s' \<longleftrightarrow> (\<forall>k \<in> set (au_keys s). \<not> ak_is_active k \<longrightarrow>
     (\<exists>k' \<in> set (au_keys s'). ak_id k' = ak_id k \<and> \<not> ak_is_active k' \<and> key_values k' = key_values k))"

definition fades :: "datetime \<Rightarrow> key_hashes \<Rightarrow> key_hashes \<Rightarrow> bool" where
  "fades now r r' \<longleftrightarrow> (\<forall>v e. served now r' v e \<longrightarrow> served now r v e)"

lemma life_fields: "life k = life k' \<Longrightarrow> ak_id k = ak_id k' \<and> ak_api_key k = ak_api_key k' \<and> ak_is_active k = ak_is_active k' \<and>
    ak_expires_at k = ak_expires_at k' \<and> ak_rotated_key k = ak_rotated_key k' \<and> ak_rotated_key_expires_at k = ak_rotated_key_expires_at k'"
  by (simp add: life_def)

lemma backs_life: "life k = life k' \<Longrightarrow> backs k v e = backs k' v e"
  by (drule life_fields) (simp add: backs_def)

lemma key_values_life: "life k = life k' \<Longrightarrow> key_values k = key_values k'"
  by (drule life_fields) (simp add: key_values_def)

lemma backs_value: "backs k v e \<Longrightarrow> v \<in> key_values k"
  by (auto simp: backs_def key_values_def)

lemma same_life_refl [simp]: "same_life s s"
  by (simp add: same_life_def)

lemma same_life_trans: "same_life s t \<Longrightarrow> same_life t u \<Longrightarrow> same_life s u"
  by (simp add: same_life_def)

lemma same_life_row: "same_life s s' \<Longrightarrow> k \<in> set (au_keys s) \<Longrightarrow> \<exists>k' \<in> set (au_keys s'). life k' = life k"
  unfolding same_life_def by (metis (no_types, lifting) image_iff image_set)

lemma same_life_sym: "same_life s s' \<Longrightarrow> same_life s' s"
  by (simp add: same_life_def)

lemma same_life_update: "(\<And>k. life (f k) = life k) \<Longrightarrow> same_life s (update_key i f s)"
  by (simp add: same_life_def)

lemma values_ok_same_life: "same_life s s' \<Longrightarrow> values_ok s \<Longrightarrow> values_ok s'"
proof -
  assume same: "same_life s s'" and ok: "values_ok s"
  have "map fst (map life (au_keys s')) = map fst (map life (au_keys s))" using same by (simp add: same_life_def)
  then have ids: "map ak_id (au_keys s') = map ak_id (au_keys s)" by (simp add: o_def life_def)
  have row: "\<exists>k0 \<in> set (au_keys s). life k0 = life k" if "k \<in> set (au_keys s')" for k
    using same_life_row [OF same_life_sym [OF same] that] by blast
  have "ak_api_key k \<noteq> []" if k: "k \<in> set (au_keys s')" for k
  proof -
    from row [OF k] obtain k0 where k0: "k0 \<in> set (au_keys s)" "life k0 = life k" by blast
    have "ak_api_key k0 \<noteq> []" using ok k0(1) by (simp add: values_ok_def)
    with life_fields [OF k0(2)] show ?thesis by simp
  qed
  moreover have "ak_id k = ak_id k'" if k: "k \<in> set (au_keys s')" "k' \<in> set (au_keys s')" "key_values k \<inter> key_values k' \<noteq> {}" for k k'
  proof -
    from row [OF k(1)] row [OF k(2)] obtain k0 k0' where
      r: "k0 \<in> set (au_keys s)" "life k0 = life k" "k0' \<in> set (au_keys s)" "life k0' = life k'" by blast
    with ok k(3) key_values_life [OF r(2)] key_values_life [OF r(4)] have "ak_id k0 = ak_id k0'" unfolding values_ok_def by metis
    with life_fields [OF r(2)] life_fields [OF r(4)] show ?thesis by simp
  qed
  ultimately show ?thesis using ok by (simp add: values_ok_def ids)
qed

lemma stays_revoked_refl [simp]: "stays_revoked s s"
  by (auto simp: stays_revoked_def)

lemma stays_revoked_trans: "stays_revoked s t \<Longrightarrow> stays_revoked t u \<Longrightarrow> stays_revoked s u"
  unfolding stays_revoked_def by metis

lemma stays_revoked_same_life: "same_life s s' \<Longrightarrow> stays_revoked s s'"
  unfolding stays_revoked_def
proof safe
  fix k assume "same_life s s'" "k \<in> set (au_keys s)" "\<not> ak_is_active k"
  then obtain k' where "k' \<in> set (au_keys s')" "life k' = life k" using same_life_row by blast
  with \<open>\<not> ak_is_active k\<close> life_fields [of k' k] key_values_life [of k' k]
  show "\<exists>k' \<in> set (au_keys s'). ak_id k' = ak_id k \<and> \<not> ak_is_active k' \<and> key_values k' = key_values k" by blast
qed

lemma fades_refl [simp]: "fades now r r"
  by (simp add: fades_def)

lemma fades_trans: "fades now r s \<Longrightarrow> fades now s t \<Longrightarrow> fades now r t"
  by (simp add: fades_def)

lemma fades_fold: "(\<And>x r. x \<in> set xs \<Longrightarrow> fades now r (f x r)) \<Longrightarrow> fades now r (fold f xs r)"
proof (induction xs arbitrary: r)
  case (Cons x xs)
  then show ?case using fades_trans [of now r "f x r"] by simp
qed simp

lemma coherent_change:
  assumes "coherent now V s" "same_life s s'"
    and "\<And>v e. v \<notin> W \<Longrightarrow> served now (au_redis s') v e \<Longrightarrow>
      v \<notin> V \<and> served now (au_redis s) v e \<or> (\<exists>k \<in> set (au_keys s'). backs k v e)"
  shows "coherent now W s'"
  unfolding coherent_def
proof safe
  fix v e assume v: "v \<notin> W" "served now (au_redis s') v e"
  show "\<exists>k \<in> set (au_keys s'). backs k v e"
  proof (cases "v \<notin> V \<and> served now (au_redis s) v e")
    case True
    then obtain k where "k \<in> set (au_keys s)" "backs k v e" using assms(1) by (auto simp: coherent_def)
    with same_life_row [OF assms(2)] backs_life show ?thesis by blast
  next
    case False
    with assms(3) [OF v] show ?thesis by blast
  qed
qed

lemma key_inv_fades:
  assumes "key_inv now s" "same_life s s'" "fades now (au_redis s) (au_redis s')"
  shows "key_inv now s'"
  using assms values_ok_same_life coherent_change [of now "{}" s s' "{}"] by (auto simp: key_inv_def fades_def)

text \<open>Time only takes entries away.\<close>

lemma key_inv_later:
  assumes "key_inv now s" "now \<le> later" shows "key_inv later s"
proof -
  have "live later e \<Longrightarrow> live now e" for e using assms(2) by (auto simp: live_def split: option.splits)
  then have "served later (au_redis s) v e \<Longrightarrow> served now (au_redis s) v e" for v e by (auto simp: served_def)
  with assms(1) show ?thesis by (auto simp: key_inv_def coherent_def)
qed

section \<open>What the Redis commands serve\<close>

lemma dict_get_del [simp]: "dict_get (redis_del k r) k' = (if k' = k then None else dict_get r k')"
  by (induction r) (auto simp: redis_del_def)

lemma served_delete: "served now (delete_api_key_cache v r) w e \<longleftrightarrow> w \<noteq> v \<and> served now r w e"
  by (auto simp: served_def delete_api_key_cache_def)

lemma fades_delete: "fades now r (delete_api_key_cache v r)"
  by (simp add: fades_def served_delete)

lemma served_delete_key_caches:
  "served now (delete_key_caches k r) w e \<longleftrightarrow> (w = [] \<or> w \<notin> key_values k) \<and> served now r w e"
  by (auto simp: delete_key_caches_def key_values_def served_delete split: option.split)

lemma fades_delete_key_caches: "fades now r (delete_key_caches k r)"
  by (simp add: fades_def served_delete_key_caches)

lemma fades_change_hash:
  assumes "\<And>h. is_cache_entry_invalid h \<Longrightarrow> is_cache_entry_invalid (f h)"
  shows "fades now r (change_hash now v f r)"
  using assms unfolding fades_def
  by (auto simp: change_hash_def Let_def served_def split: option.splits if_splits prod.splits)

lemma fades_patch: "fld \<noteq> ''is_already_invalid'' \<Longrightarrow> fades now r (patch_api_key_cache_field now v fld x r)"
  unfolding patch_api_key_cache_field_def by (rule fades_change_hash) (simp add: is_cache_entry_invalid_def)

lemma fades_patch_present: "fld \<noteq> ''is_already_invalid'' \<Longrightarrow> fades now r (patch_api_key_cache_field_if_present now v fld x r)"
  unfolding patch_api_key_cache_field_if_present_def by (rule fades_change_hash) (simp add: is_cache_entry_invalid_def)

lemma dict_get_remove_fields: "f \<notin> set flds \<Longrightarrow> dict_get (remove_fields flds h) f = dict_get h f"
  by (induction h) (auto simp: remove_fields_def)

lemma fades_remove_fields: "''is_already_invalid'' \<notin> set flds \<Longrightarrow> fades now r (delete_api_key_cache_fields now flds v r)"
  unfolding delete_api_key_cache_fields_def
  by (auto intro!: fades_change_hash simp: is_cache_entry_invalid_def dict_get_remove_fields)

lemma quota_fields: "''is_already_invalid'' \<notin> set (quota_field_names catalogue)"
  by (auto simp: quota_field_names_def)

text \<open>A write starts a new time to live; a tombstone is not served.\<close>

lemma served_set: "served now (set_api_key_cache now v ttl data r) w e \<Longrightarrow>
    w = v \<and> e = Some (now + ttl * 1000000) \<or> w \<noteq> v \<and> served now r w e"
  by (auto simp: served_def set_api_key_cache_def redis_setex_def Let_def split: if_splits)

lemma served_tombstone: "\<not> served now (set_api_key_cache now v ttl [(''is_already_invalid'', C_str ''1'')] r) v e"
  by (simp add: served_def set_api_key_cache_def redis_setex_def Let_def is_cache_entry_invalid_def cell_text_def)

lemma served_write_entries:
  assumes "served now (write_entries cfg now k payload r) v e"
  shows "v \<in> set (cache_key_values now k) \<and> 0 < cache_ttl_for cfg now k v \<and> e = Some (now + cache_ttl_for cfg now k v * 1000000) \<or>
    \<not> (v \<in> set (cache_key_values now k) \<and> 0 < cache_ttl_for cfg now k v) \<and> served now r v e"
proof -
  have "served now (fold (\<lambda>v r. if 0 < cache_ttl_for cfg now k v then set_api_key_cache now v (cache_ttl_for cfg now k v) payload r else r) vs r) v e \<Longrightarrow>
      v \<in> set vs \<and> 0 < cache_ttl_for cfg now k v \<and> e = Some (now + cache_ttl_for cfg now k v * 1000000) \<or>
      \<not> (v \<in> set vs \<and> 0 < cache_ttl_for cfg now k v) \<and> served now r v e" for vs r
  proof (induction vs arbitrary: r)
    case (Cons w vs)
    show ?case
    proof (cases "0 < cache_ttl_for cfg now k w")
      case True
      with Cons.prems have "served now (fold (\<lambda>v r. if 0 < cache_ttl_for cfg now k v then set_api_key_cache now v (cache_ttl_for cfg now k v) payload r else r) vs
          (set_api_key_cache now w (cache_ttl_for cfg now k w) payload r)) v e" by simp
      from Cons.IH [OF this] True served_set [of now w "cache_ttl_for cfg now k w" payload r v e] show ?thesis by auto
    next
      case False
      with Cons.prems Cons.IH [of r] show ?thesis by auto
    qed
  qed simp
  from this [of "cache_key_values now k" r] assms show ?thesis by (simp add: write_entries_def)
qed

lemma seconds_le: "now + seconds * 1000000 \<le> e" if "seconds \<le> (e - now) div 1000000" for now e seconds :: int
proof -
  have "seconds * 1000000 \<le> (e - now) div 1000000 * 1000000" using that by (rule mult_right_mono) simp
  also have "\<dots> \<le> e - now" by (simp add: div_mult_mod_eq [symmetric] minus_mod_eq_div_mult [symmetric])
  finally show ?thesis by simp
qed

lemma compute_ttl_ends: "0 < ttl \<Longrightarrow> ttl \<le> compute_cache_ttl cfg now k \<Longrightarrow> ends_by (now + ttl * 1000000) (ak_expires_at k)"
  by (auto simp: ends_by_def compute_cache_ttl_def seconds_until_def split: option.splits intro!: seconds_le)

text \<open>An entry written for a live value is backed by its row.\<close>

lemma ttl_backs:
  assumes "ak_is_active k" "v \<in> set (cache_key_values now k)" "0 < cache_ttl_for cfg now k v"
  shows "backs k v (Some (now + cache_ttl_for cfg now k v * 1000000))"
proof (cases "v = ak_api_key k")
  case True
  then show ?thesis using assms compute_ttl_ends [of "cache_ttl_for cfg now k v" cfg now k]
    by (simp add: backs_def cache_ttl_for_def)
next
  case False
  with assms(2) have live: "live_rotated_key now k = Some v" by (auto simp: cache_key_values_def split: option.splits)
  then obtain r where r: "ak_rotated_key k = Some v" "ak_rotated_key_expires_at k = Some r" "v \<noteq> []"
    by (auto simp: live_rotated_key_def split: option.splits if_splits)
  with False assms(3) have "cache_ttl_for cfg now k v = min ((r - now) div 1000000) (compute_cache_ttl cfg now k)"
    by (auto simp: cache_ttl_for_def)
  then have "cache_ttl_for cfg now k v \<le> (r - now) div 1000000" "cache_ttl_for cfg now k v \<le> compute_cache_ttl cfg now k" by simp_all
  with r assms(1,3) show ?thesis
    using compute_ttl_ends [of "cache_ttl_for cfg now k v" cfg now k] by (auto simp: backs_def intro!: seconds_le)
qed

lemma refresh_cases:
  assumes "refresh_redis_cache cfg env k t b s = Inr s'"
  shows "same_life s s'"
    "\<And>v e. served (en_now env) (au_redis s') v e \<Longrightarrow>
       v \<in> set (cache_key_values (en_now env) k) \<and> 0 < cache_ttl_for cfg (en_now env) k v \<and>
         e = Some (en_now env + cache_ttl_for cfg (en_now env) k v * 1000000) \<or>
       \<not> (0 < compute_cache_ttl cfg (en_now env) k \<and> v \<in> set (cache_key_values (en_now env) k) \<and> 0 < cache_ttl_for cfg (en_now env) k v) \<and>
         served (en_now env) (au_redis s) v e"
proof -
  have life_snapshot: "life (k\<lparr>ak_cached_data := d\<rparr>) = life k" for k d by (simp add: life_def)
  show "same_life s s'"
    using assms by (auto simp: refresh_redis_cache_def Let_def persist_cache_snapshot_def same_life_def life_snapshot split: if_splits)
  fix v e assume "served (en_now env) (au_redis s') v e"
  then show "v \<in> set (cache_key_values (en_now env) k) \<and> 0 < cache_ttl_for cfg (en_now env) k v \<and>
         e = Some (en_now env + cache_ttl_for cfg (en_now env) k v * 1000000) \<or>
       \<not> (0 < compute_cache_ttl cfg (en_now env) k \<and> v \<in> set (cache_key_values (en_now env) k) \<and> 0 < cache_ttl_for cfg (en_now env) k v) \<and>
         served (en_now env) (au_redis s) v e"
    using assms by (auto simp: refresh_redis_cache_def Let_def persist_cache_snapshot_def dest: served_write_entries split: if_splits)
qed

lemma refresh_total: "en_redis env \<Longrightarrow> \<exists>s'. refresh_redis_cache cfg env k t b s = Inr s'"
  by (simp add: refresh_redis_cache_def Let_def)

section \<open>Changing one row\<close>

lemma values_ok_row: "values_ok s \<Longrightarrow> k \<in> set (au_keys s) \<Longrightarrow> k' \<in> set (au_keys s) \<Longrightarrow> ak_id k = ak_id k' \<Longrightarrow> k = k'"
  by (rule distinct_eqI [of ak_id "au_keys s"]) (auto simp: values_ok_def)

text \<open>Changing a row can only disturb the entries under its own values.\<close>

lemma coherent_row_change:
  assumes inv: "key_inv now s" and k: "k \<in> set (au_keys s)"
    and keys: "au_keys s' = map (\<lambda>x. if ak_id x = ak_id k then f x else x) (au_keys s)" and redis: "au_redis s' = au_redis s"
  shows "coherent now (key_values k) s'"
  unfolding coherent_def redis
proof safe
  fix v e assume v: "v \<notin> key_values k" "served now (au_redis s) v e"
  with inv obtain k0 where k0: "k0 \<in> set (au_keys s)" "backs k0 v e" by (auto simp: key_inv_def coherent_def)
  then have "ak_id k0 \<noteq> ak_id k" using values_ok_row [of s k0 k] inv k backs_value v(1) by (metis key_inv_def)
  with k0 show "\<exists>k \<in> set (au_keys s'). backs k v e" unfolding keys by force
qed

lemma values_ok_change:
  assumes ok: "values_ok s" and k: "k \<in> set (au_keys s)"
    and keys: "au_keys s' = map (\<lambda>x. if ak_id x = ak_id k then k1 else x) (au_keys s)"
    and k1: "ak_id k1 = ak_id k" "ak_api_key k1 \<noteq> []"
    and vals: "\<And>v. v \<in> key_values k1 \<Longrightarrow> v \<in> key_values k \<or> (\<forall>x \<in> set (au_keys s). v \<notin> key_values x)"
  shows "values_ok s'"
proof -
  have ids: "map ak_id (au_keys s') = map ak_id (au_keys s)" using k1(1) by (simp add: keys)
  have row: "y = k1 \<or> y \<in> set (au_keys s) \<and> ak_id y \<noteq> ak_id k" if "y \<in> set (au_keys s')" for y
    using that by (auto simp: keys)
  have disj: "key_values k1 \<inter> key_values y = {}" if "y \<in> set (au_keys s)" "ak_id y \<noteq> ak_id k" for y
    using vals ok k that unfolding values_ok_def by (metis IntE disjoint_iff)
  have "ak_id y = ak_id z" if "y \<in> set (au_keys s')" "z \<in> set (au_keys s')" "key_values y \<inter> key_values z \<noteq> {}" for y z
    using row [OF that(1)] row [OF that(2)] disj that(3) ok unfolding values_ok_def by (metis Int_commute)
  moreover have "\<forall>y \<in> set (au_keys s'). ak_api_key y \<noteq> []" using row k1(2) ok by (auto simp: values_ok_def)
  ultimately show ?thesis using ok by (simp add: values_ok_def ids)
qed

lemma update_key_row:
  assumes "values_ok s" "k \<in> set (au_keys s)"
  shows "au_keys (update_key (ak_id k) f s) = map (\<lambda>x. if ak_id x = ak_id k then f k else x) (au_keys s)"
    "f k \<in> set (au_keys (update_key (ak_id k) f s))"
proof -
  show "au_keys (update_key (ak_id k) f s) = map (\<lambda>x. if ak_id x = ak_id k then f k else x) (au_keys s)"
    using values_ok_row [OF assms(1) _ assms(2)] by auto
  then show "f k \<in> set (au_keys (update_key (ak_id k) f s))" using assms(2) by force
qed

lemma stays_revoked_change:
  assumes ok: "values_ok s" and k: "k \<in> set (au_keys s)"
    and keys: "au_keys s' = map (\<lambda>x. if ak_id x = ak_id k then k1 else x) (au_keys s)"
    and k1: "ak_id k1 = ak_id k" "\<not> ak_is_active k \<Longrightarrow> \<not> ak_is_active k1 \<and> key_values k1 = key_values k"
  shows "stays_revoked s s'"
  unfolding stays_revoked_def
proof safe
  fix x assume x: "x \<in> set (au_keys s)" "\<not> ak_is_active x"
  show "\<exists>k' \<in> set (au_keys s'). ak_id k' = ak_id x \<and> \<not> ak_is_active k' \<and> key_values k' = key_values x"
  proof (cases "ak_id x = ak_id k")
    case True
    then have "x = k" using values_ok_row [OF ok x(1) k] by simp
    with x k1 k show ?thesis unfolding keys by force
  next
    case False
    with x show ?thesis unfolding keys by force
  qed
qed

text \<open>No entry is ever served under the empty value.\<close>

lemma not_served_empty: "key_inv now s \<Longrightarrow> \<not> served now (au_redis s) [] e"
proof
  assume inv: "key_inv now s" and "served now (au_redis s) [] e"
  then obtain k where "k \<in> set (au_keys s)" "backs k [] e" by (auto simp: key_inv_def coherent_def)
  with inv show False by (auto simp: key_inv_def values_ok_def backs_def)
qed

text \<open>
  After a row was changed, its own entries must be backed again: those that are still served, by it or
  by another row.
\<close>

lemma coherent_close:
  assumes "coherent now (key_values k) s1" "same_life s1 s2"
    and "\<And>v e. served now (au_redis s2) v e \<Longrightarrow> served now (au_redis s1) v e \<or> (\<exists>x \<in> set (au_keys s2). backs x v e)"
    and "\<And>v e. v \<in> key_values k \<Longrightarrow> served now (au_redis s2) v e \<Longrightarrow> \<exists>x \<in> set (au_keys s2). backs x v e"
  shows "coherent now {} s2"
  using assms(3,4) by (intro coherent_change [OF assms(1,2)]) blast

section \<open>The operations\<close>

text \<open>
  The contract every operation keeps while Redis answers: the invariant at the instant of the request, and
  revoked rows with the values they hold.
\<close>

locale key_operation =
  fixes run :: "Env \<Rightarrow> AuthState \<Rightarrow> AuthState"
  assumes keeps: "en_redis env \<Longrightarrow> key_inv (en_now env) s \<Longrightarrow> key_inv (en_now env) (run env s)"
    and revoked: "en_redis env \<Longrightarrow> key_inv (en_now env) s \<Longrightarrow> stays_revoked s (run env s)"
begin

text \<open>After the operation no value of a row that was revoked before it is served.\<close>

lemma revoked_not_served:
  assumes "en_redis env" "key_inv (en_now env) s" "k \<in> set (au_keys s)" "\<not> ak_is_active k" "v \<in> key_values k"
  shows "\<not> served (en_now env) (au_redis (run env s)) v e"
proof
  assume "served (en_now env) (au_redis (run env s)) v e"
  then obtain x where x: "x \<in> set (au_keys (run env s))" "backs x v e"
    using keeps [OF assms(1,2)] by (auto simp: key_inv_def coherent_def)
  obtain k' where k': "k' \<in> set (au_keys (run env s))" "\<not> ak_is_active k'" "key_values k' = key_values k"
    using revoked [OF assms(1,2)] assms(3,4) by (auto simp: stays_revoked_def)
  have ok: "values_ok (run env s)" using keeps [OF assms(1,2)] by (simp add: key_inv_def)
  have "v \<in> key_values x \<inter> key_values k'" using backs_value [OF x(2)] k'(3) assms(5) by simp
  then have "ak_id x = ak_id k'" using ok x(1) k'(1) unfolding values_ok_def by blast
  with values_ok_row [OF ok x(1) k'(1)] x(2) k'(2) show False by (simp add: backs_def)
qed

end

text \<open>A contract that fades: the rows keep what the invariant reads and Redis only loses entries.\<close>

locale fading_operation =
  fixes run :: "Env \<Rightarrow> AuthState \<Rightarrow> AuthState"
  assumes same: "same_life s (run env s)" and fading: "en_redis env \<Longrightarrow> fades (en_now env) (au_redis s) (au_redis (run env s))"

sublocale fading_operation \<subseteq> key_operation run
  by unfold_locales (auto intro: key_inv_fades [OF _ same fading] stays_revoked_same_life [OF same])

subsection \<open>Revocation\<close>

lemma scoped_key_row: "scoped_key s user i = Inr k \<Longrightarrow> k \<in> set (au_keys s) \<and> ak_id k = i"
  by (auto simp: scoped_key_def get_by_id_for_scope_def key_by_id_for_tenant_def key_by_id_def find_Some_iff split: option.splits if_splits)

lemma revoke_keeps:
  assumes redis: "en_redis env" and inv: "key_inv (en_now env) s" and k: "k \<in> set (au_keys s)"
  shows "key_inv (en_now env) (snd (revoke_by_obj env k s)) \<and> stays_revoked s (snd (revoke_by_obj env k s))"
proof -
  let ?now = "en_now env" and ?f = "\<lambda>r. r\<lparr>ak_is_active := False\<rparr>"
  define s1 where "s1 = update_key (ak_id k) ?f s"
  define s2 where "s2 = s1\<lparr>au_redis := delete_key_caches k (au_redis s1)\<rparr>"
  have run: "snd (revoke_by_obj env k s) = s2" using redis by (simp add: revoke_by_obj_def Let_def s1_def s2_def)
  have ok: "values_ok s" using inv by (simp add: key_inv_def)
  note row = update_key_row [OF ok k, of ?f, folded s1_def]
  have api: "ak_api_key k \<noteq> []" using ok k by (simp add: values_ok_def)
  have v1: "values_ok s1" by (rule values_ok_change [OF ok k row(1)]) (simp_all add: key_values_def api)
  have st: "stays_revoked s s1" by (rule stays_revoked_change [OF ok k row(1)]) (simp_all add: key_values_def)
  have same: "same_life s1 s2" by (simp add: s2_def same_life_def)
  have redis1: "au_redis s1 = au_redis s" by (simp add: s1_def)
  have c1: "coherent ?now (key_values k) s1" using coherent_row_change [OF inv k row(1) redis1] .
  have "coherent ?now {} s2"
  proof (rule coherent_close [OF c1 same])
    fix v e assume v: "served ?now (au_redis s2) v e"
    then show "served ?now (au_redis s1) v e \<or> (\<exists>x \<in> set (au_keys s2). backs x v e)"
      by (simp add: s2_def served_delete_key_caches)
    assume "v \<in> key_values k"
    with v not_served_empty [OF inv] show "\<exists>x \<in> set (au_keys s2). backs x v e"
      by (auto simp: s2_def served_delete_key_caches redis1)
  qed
  then show ?thesis
    using values_ok_same_life [OF same v1] stays_revoked_trans [OF st stays_revoked_same_life [OF same]] by (simp add: run key_inv_def)
qed

interpretation revoke: key_operation "\<lambda>env s. snd (revoke_api_key_route env user i s)" for user i
  using revoke_keeps scoped_key_row
  by unfold_locales (auto simp: revoke_api_key_route_def split: sum.split)

subsection \<open>Update\<close>

lemma new_expiry_cases:
  assumes "new_expiry now rq k = Inr (a, b)"
  shows "a = ak_expires_at k \<and> b = ak_rotated_key_expires_at k \<or>
    (\<exists>days. 1 \<le> days \<and> a = Some (now + days * US_PER_DAY) \<and> b = map_option (min (now + days * US_PER_DAY)) (ak_rotated_key_expires_at k))"
proof (cases "\<exists>days. uq_expires_days rq = Some (Some days)")
  case True
  then obtain days where "uq_expires_days rq = Some (Some days)" by blast
  with assms have "1 \<le> days \<and> a = Some (now + days * US_PER_DAY) \<and> b = map_option (min (now + days * US_PER_DAY)) (ak_rotated_key_expires_at k)"
    by (cases "ak_rotated_key_expires_at k") (auto simp: new_expiry_def days_from_def Let_def min_def split: if_splits)
  then show ?thesis by blast
next
  case False
  with assms show ?thesis by (auto simp: new_expiry_def split: option.splits)
qed

lemma updated_row_facts:
  assumes "updated_row ps now actor rq k = Inr k1"
  shows "ak_id k1 = ak_id k" "ak_api_key k1 = ak_api_key k" "ak_is_active k1 = ak_is_active k" "ak_rotated_key k1 = ak_rotated_key k"
    "key_values k1 = key_values k"
    "ak_expires_at k1 = ak_expires_at k \<and> ak_rotated_key_expires_at k1 = ak_rotated_key_expires_at k \<or>
     (\<exists>days. 1 \<le> days \<and> ak_expires_at k1 = Some (now + days * US_PER_DAY) \<and>
        ak_rotated_key_expires_at k1 = map_option (min (now + days * US_PER_DAY)) (ak_rotated_key_expires_at k))"
proof -
  from assms obtain ps' a b n where e: "new_expiry now rq k = Inr (a, b)"
    and k1: "k1 = k\<lparr>ak_key_name := n, ak_permissions := ps', ak_expires_at := a, ak_rotated_key_expires_at := b, ak_updated_by := Some actor\<rparr>"
    by (auto simp: updated_row_def)
  show "ak_id k1 = ak_id k" "ak_api_key k1 = ak_api_key k" "ak_is_active k1 = ak_is_active k" "ak_rotated_key k1 = ak_rotated_key k"
    "key_values k1 = key_values k" by (simp_all add: k1 key_values_def)
  show "ak_expires_at k1 = ak_expires_at k \<and> ak_rotated_key_expires_at k1 = ak_rotated_key_expires_at k \<or>
     (\<exists>days. 1 \<le> days \<and> ak_expires_at k1 = Some (now + days * US_PER_DAY) \<and>
        ak_rotated_key_expires_at k1 = map_option (min (now + days * US_PER_DAY)) (ak_rotated_key_expires_at k))"
    using new_expiry_cases [OF e] by (simp add: k1)
qed

lemma day_ttl: "1 \<le> days \<Longrightarrow> 0 < (now + days * US_PER_DAY - now) div 1000000" for days now :: int
  by (simp add: US_PER_DAY_def)

text \<open>An entry of the row that the refresh does not rewrite ends early enough for the updated row.\<close>

lemma update_unwritten:
  assumes upd: "updated_row ps now actor rq k = Inr k1" and old: "backs k v e" and live: "live now e"
    and unwritten: "\<not> (0 < compute_cache_ttl cfg now k1 \<and> v \<in> set (cache_key_values now k1) \<and> 0 < cache_ttl_for cfg now k1 v)"
  shows "backs k1 v e"
proof -
  note f = updated_row_facts [OF upd]
  show ?thesis
  proof (cases "ak_expires_at k1 = ak_expires_at k \<and> ak_rotated_key_expires_at k1 = ak_rotated_key_expires_at k")
    case True
    with old f show ?thesis by (simp add: backs_def)
  next
    case False
    with f(6) obtain days where d: "1 \<le> days" "ak_expires_at k1 = Some (now + days * US_PER_DAY)"
      "ak_rotated_key_expires_at k1 = map_option (min (now + days * US_PER_DAY)) (ak_rotated_key_expires_at k)" by blast
    let ?e = "now + days * US_PER_DAY"
    from old obtain t where t: "e = Some t" "now < t" "ak_is_active k"
      "ak_api_key k = v \<or> ak_rotated_key k = Some v \<and> v \<noteq> [] \<and> (\<exists>r. ak_rotated_key_expires_at k = Some r \<and> t \<le> r)"
      using live by (auto simp: backs_def live_def)
    have ttl: "0 < compute_cache_ttl cfg now k1" using day_ttl [OF d(1)] d(2) by (simp add: compute_cache_ttl_def seconds_until_def)
    have api: "v \<noteq> ak_api_key k" using unwritten ttl f(2) by (auto simp: cache_key_values_def cache_ttl_for_def split: option.splits)
    with t(4) obtain r where r: "ak_rotated_key k = Some v" "v \<noteq> []" "ak_rotated_key_expires_at k = Some r" "t \<le> r" by blast
    have r1: "ak_rotated_key_expires_at k1 = Some (min ?e r)" using d(3) r(3) by simp
    have "now < min ?e r" using d(1) t(2) r(4) by (simp add: US_PER_DAY_def)
    then have "v \<in> set (cache_key_values now k1)" using r r1 f(4) by (simp add: cache_key_values_def live_rotated_key_def)
    with unwritten ttl have "cache_ttl_for cfg now k1 v \<le> 0" by simp
    then have "(min ?e r - now) div 1000000 \<le> 0" using api f(2,4) r(1) r1 ttl by (auto simp: cache_ttl_for_def)
    with day_ttl [OF d(1), of now] have "r < ?e" by (auto simp: min_def split: if_splits)
    with r t f d(2) r1 show ?thesis by (auto simp: backs_def ends_by_def min_def)
  qed
qed

lemma update_keeps:
  assumes redis: "en_redis env" and inv: "key_inv (en_now env) s" and k: "k \<in> set (au_keys s)"
  shows "key_inv (en_now env) (snd (update_key_by_obj cfg ps env actor rq k s)) \<and> stays_revoked s (snd (update_key_by_obj cfg ps env actor rq k s))"
proof (cases "updated_row ps (en_now env) actor rq k")
  case (Inl e)
  with inv show ?thesis by (simp add: update_key_by_obj_def)
next
  case (Inr k1)
  let ?now = "en_now env"
  define s1 where "s1 = update_key (ak_id k) (\<lambda>_. k1) s"
  obtain app tenant where at: "application_and_tenant s1 k1 = (app, tenant)" by fastforce
  define tid where "tid = map_option (\<lambda>a. show_int (ap_tenant_id a)) app"
  define eff where "eff = Option.bind tenant tn_budget_effective_to"
  note f = updated_row_facts [OF Inr]
  have ok: "values_ok s" using inv by (simp add: key_inv_def)
  note row = update_key_row [OF ok k, of "\<lambda>_. k1", folded s1_def]
  have api: "ak_api_key k \<noteq> []" using ok k by (simp add: values_ok_def)
  have v1: "values_ok s1" by (rule values_ok_change [OF ok k row(1)]) (simp_all add: f api)
  have st: "stays_revoked s s1" by (rule stays_revoked_change [OF ok k row(1)]) (simp_all add: f)
  have redis1: "au_redis s1 = au_redis s" by (simp add: s1_def)
  have c1: "coherent ?now (key_values k) s1" using coherent_row_change [OF inv k row(1) redis1] .
  have other: "\<exists>x \<in> set (au_keys s1). backs x v e" if "served ?now (au_redis s) v e" "backs k v e \<Longrightarrow> backs k1 v e" for v e
  proof -
    from inv that(1) obtain x where x: "x \<in> set (au_keys s)" "backs x v e" by (auto simp: key_inv_def coherent_def)
    show ?thesis
    proof (cases "ak_id x = ak_id k")
      case True
      then have "x = k" using values_ok_row [OF ok x(1) k] by simp
      with x(2) that(2) row(2) show ?thesis by blast
    next
      case False
      with x show ?thesis unfolding row(1) by force
    qed
  qed
  have run: "snd (update_key_by_obj cfg ps env actor rq k s) =
      (if app \<noteq> None \<and> effective_is_active ?now k1 app tenant
       then (case refresh_redis_cache cfg env k1 tid eff s1 of Inl e \<Rightarrow> s1 | Inr s2 \<Rightarrow> s2)
       else persist_current_state_to_cached_data k1 tid eff (s1\<lparr>au_redis := delete_key_caches k1 (au_redis s1)\<rparr>))"
    using redis by (simp add: update_key_by_obj_def Inr s1_def [symmetric] at tid_def eff_def Let_def split: sum.split)
  show ?thesis
  proof (cases "app \<noteq> None \<and> effective_is_active ?now k1 app tenant")
    case True
    then obtain s2 where s2: "refresh_redis_cache cfg env k1 tid eff s1 = Inr s2"
      using refresh_total [OF redis] by blast
    note ref = refresh_cases [OF s2]
    have act: "ak_is_active k1" using True by (simp add: effective_is_active_def)
    have k1s2: "\<exists>x \<in> set (au_keys s2). backs x v e" if "backs y v e" "y \<in> set (au_keys s1)" for y v e
      using same_life_row [OF ref(1) that(2)] backs_life that(1) by blast
    have "coherent ?now {} s2"
    proof (rule coherent_close [OF c1 ref(1)])
      fix v e assume v: "served ?now (au_redis s2) v e"
      show "served ?now (au_redis s1) v e \<or> (\<exists>x \<in> set (au_keys s2). backs x v e)"
        using ref(2) [OF v] ttl_backs [OF act] k1s2 row(2) by blast
      assume "v \<in> key_values k"
      show "\<exists>x \<in> set (au_keys s2). backs x v e"
        using ref(2) [OF v]
      proof
        assume "v \<in> set (cache_key_values ?now k1) \<and> 0 < cache_ttl_for cfg ?now k1 v \<and> e = Some (?now + cache_ttl_for cfg ?now k1 v * 1000000)"
        then show ?thesis using ttl_backs [OF act] k1s2 row(2) by blast
      next
        assume un: "\<not> (0 < compute_cache_ttl cfg ?now k1 \<and> v \<in> set (cache_key_values ?now k1) \<and> 0 < cache_ttl_for cfg ?now k1 v) \<and>
          served ?now (au_redis s1) v e"
        then have "live ?now e" by (simp add: served_def)
        with other [of v e] un update_unwritten [OF Inr] k1s2 show ?thesis unfolding redis1 by blast
      qed
    qed
    then show ?thesis
      using True s2 values_ok_same_life [OF ref(1) v1] stays_revoked_trans [OF st stays_revoked_same_life [OF ref(1)]]
      by (simp add: run key_inv_def)
  next
    case False
    define s2 where "s2 = persist_current_state_to_cached_data k1 tid eff (s1\<lparr>au_redis := delete_key_caches k1 (au_redis s1)\<rparr>)"
    have same: "same_life s1 s2"
      by (simp add: s2_def persist_current_state_to_cached_data_def persist_cache_snapshot_def same_life_def life_def)
    have r2: "au_redis s2 = delete_key_caches k1 (au_redis s1)"
      by (simp add: s2_def persist_current_state_to_cached_data_def persist_cache_snapshot_def)
    have "coherent ?now {} s2"
    proof (rule coherent_close [OF c1 same])
      fix v e assume v: "served ?now (au_redis s2) v e"
      then show "served ?now (au_redis s1) v e \<or> (\<exists>x \<in> set (au_keys s2). backs x v e)"
        by (simp add: r2 served_delete_key_caches)
      assume "v \<in> key_values k"
      with v not_served_empty [OF inv] show "\<exists>x \<in> set (au_keys s2). backs x v e"
        by (auto simp: r2 served_delete_key_caches redis1 f(5))
    qed
    then have "key_inv ?now s2 \<and> stays_revoked s s2"
      using values_ok_same_life [OF same v1] stays_revoked_trans [OF st stays_revoked_same_life [OF same]] by (simp add: key_inv_def)
    then show ?thesis unfolding run if_not_P [OF False] s2_def .
  qed
qed

interpretation update: key_operation "\<lambda>env s. snd (update_api_key_route cfg ps env user i rq s)" for cfg ps user i rq
  using update_keeps scoped_key_row
  by unfold_locales (auto simp: update_api_key_route_def split: sum.split)

end
