(* ===== verification/Key_Lifecycle.thy ===== *)
theory Key_Lifecycle
  imports Api_Keys_Props
begin

text \<open>
  The remaining operations on API keys keep the contract of \<open>Api_Keys_Props\<close>: rotation, creation,
  validation, the fan-outs and the allocation endpoints.  Their closure is the reachability relation over
  which a validation answers for active rows only.
\<close>

section \<open>Rotation\<close>

lemma reread_row:
  assumes "distinct (map ak_id (au_keys s))" "k1 \<in> set (au_keys s)" "ak_id k1 = ak_id k"
  shows "reread s k = k1"
proof -
  have "find (\<lambda>r. ak_id r = ak_id k1) (au_keys s) = Some k1" by (rule find_distinct [OF assms(1,2)])
  then show ?thesis by (simp add: reread_def assms(3))
qed

text \<open>What the guarded statements do to the row the service holds.\<close>

lemma guarded_update:
  assumes ok: "values_ok s" and k: "k \<in> set (au_keys s)" and c: "\<And>x. c x \<Longrightarrow> ak_id x = ak_id k" "\<exists>x \<in> set (au_keys s). c x"
  shows "c k" "map (\<lambda>x. if c x then f x else x) (au_keys s) = map (\<lambda>x. if ak_id x = ak_id k then f k else x) (au_keys s)"
proof -
  from c(2) obtain x where x: "x \<in> set (au_keys s)" "c x" by blast
  have "x = k" by (rule values_ok_row [OF ok x(1) k c(1) [OF x(2)]])
  with x(2) show ck: "c k" by simp
  show "map (\<lambda>x. if c x then f x else x) (au_keys s) = map (\<lambda>x. if ak_id x = ak_id k then f k else x) (au_keys s)"
  proof (rule map_cong [OF refl])
    fix x assume "x \<in> set (au_keys s)"
    then have "ak_id x = ak_id k \<longrightarrow> x = k" using values_ok_row [OF ok _ k] by blast
    then show "(if c x then f x else x) = (if ak_id x = ak_id k then f k else x)" using c(1) [of x] ck by (cases "c x") auto
  qed
qed

lemma rotate_True:
  assumes "rotate now (ak_id k) (ak_api_key k) new_value rexp actor s = (True, s1)" "values_ok s" "k \<in> set (au_keys s)"
  shows "s1 = s\<lparr>au_keys := map (\<lambda>x. if ak_id x = ak_id k then rotate_row now new_value rexp actor k else x) (au_keys s)\<rparr>"
    "ak_is_active k"
proof -
  let ?c = "\<lambda>x. ak_id x = ak_id k \<and> ak_api_key x = ak_api_key k \<and> active_key_conditions now False x \<and>
                (ak_rotated_key x = None \<or> pred_option (\<lambda>e. e \<le> now) (ak_rotated_key_expires_at x))"
  have ex: "\<exists>x \<in> set (au_keys s). ?c x"
    and eq: "s1 = s\<lparr>au_keys := map (\<lambda>x. if ?c x then rotate_row now new_value rexp actor x else x) (au_keys s)\<rparr>"
    using assms(1) by (auto simp: rotate_def Let_def split: if_splits)
  note g = guarded_update [OF assms(2,3) _ ex]
  show "ak_is_active k" using g(1) by (simp add: active_key_conditions_def)
  show "s1 = s\<lparr>au_keys := map (\<lambda>x. if ak_id x = ak_id k then rotate_row now new_value rexp actor k else x) (au_keys s)\<rparr>"
    using g(2) [of "rotate_row now new_value rexp actor"] eq by simp
qed

lemma end_rotation_True:
  assumes "end_rotation now (ak_id k) old actor s = (True, s1)" "values_ok s" "k \<in> set (au_keys s)"
  shows "s1 = s\<lparr>au_keys := map (\<lambda>x. if ak_id x = ak_id k
      then k\<lparr>ak_rotated_key := None, ak_rotated_key_expires_at := None, ak_updated_by := Some actor\<rparr> else x) (au_keys s)\<rparr>"
    "ak_is_active k" "ak_rotated_key k = Some old"
proof -
  let ?c = "\<lambda>x. ak_id x = ak_id k \<and> ak_rotated_key x = Some old \<and> active_key_conditions now False x"
  let ?f = "\<lambda>x. x\<lparr>ak_rotated_key := None, ak_rotated_key_expires_at := None, ak_updated_by := Some actor\<rparr>"
  have ex: "\<exists>x \<in> set (au_keys s). ?c x" and eq: "s1 = s\<lparr>au_keys := map (\<lambda>x. if ?c x then ?f x else x) (au_keys s)\<rparr>"
    using assms(1) by (auto simp: end_rotation_def Let_def split: if_splits)
  note g = guarded_update [OF assms(2,3) _ ex]
  show "ak_is_active k" "ak_rotated_key k = Some old" using g(1) by (simp_all add: active_key_conditions_def)
  show "s1 = s\<lparr>au_keys := map (\<lambda>x. if ak_id x = ak_id k then ?f k else x) (au_keys s)\<rparr>"
    using g(2) [of ?f] eq by simp
qed

lemma extend_rotation_True:
  assumes "extend_rotation now (ak_id k) old new_end actor s = (True, s1)" "values_ok s" "k \<in> set (au_keys s)"
  shows "s1 = s\<lparr>au_keys := map (\<lambda>x. if ak_id x = ak_id k
      then k\<lparr>ak_rotated_key_expires_at := Some new_end, ak_updated_by := Some actor\<rparr> else x) (au_keys s)\<rparr>"
    "ak_is_active k" "\<exists>r. ak_rotated_key_expires_at k = Some r \<and> r < new_end"
proof -
  let ?c = "\<lambda>x. ak_id x = ak_id k \<and> ak_rotated_key x = Some old \<and>
      (case ak_rotated_key_expires_at x of None \<Rightarrow> False | Some e \<Rightarrow> now < e \<and> e < new_end) \<and>
      pred_option (\<lambda>e. new_end \<le> e) (ak_expires_at x) \<and> active_key_conditions now False x"
  let ?f = "\<lambda>x. x\<lparr>ak_rotated_key_expires_at := Some new_end, ak_updated_by := Some actor\<rparr>"
  have ex: "\<exists>x \<in> set (au_keys s). ?c x" and eq: "s1 = s\<lparr>au_keys := map (\<lambda>x. if ?c x then ?f x else x) (au_keys s)\<rparr>"
    using assms(1) by (auto simp: extend_rotation_def Let_def split: if_splits)
  note g = guarded_update [OF assms(2,3) _ ex]
  show "ak_is_active k" "\<exists>r. ak_rotated_key_expires_at k = Some r \<and> r < new_end"
    using g(1) by (auto simp: active_key_conditions_def split: option.splits)
  show "s1 = s\<lparr>au_keys := map (\<lambda>x. if ak_id x = ak_id k then ?f k else x) (au_keys s)\<rparr>"
    using g(2) [of ?f] eq by simp
qed

text \<open>A refresh of an active row of the table keeps coherence, whatever was left open.\<close>

lemma refresh_coherent:
  assumes ref: "refresh_redis_cache cfg env k t b s = Inr s'" and k: "x \<in> set (au_keys s)" "life x = life k" "ak_is_active k"
    and coh: "coherent (en_now env) V s"
    and "\<And>v. v \<in> V \<Longrightarrow> v \<notin> W \<Longrightarrow> 0 < compute_cache_ttl cfg (en_now env) k \<and> v \<in> set (cache_key_values (en_now env) k) \<and> 0 < cache_ttl_for cfg (en_now env) k v"
  shows "coherent (en_now env) W s'"
proof (rule coherent_change [OF coh refresh_cases(1) [OF ref]])
  fix v e assume v: "v \<notin> W" "served (en_now env) (au_redis s') v e"
  obtain k' where k': "k' \<in> set (au_keys s')" "life k' = life k" using same_life_row [OF refresh_cases(1) [OF ref] k(1)] k(2) by auto
  from refresh_cases(2) [OF ref v(2)] show "v \<notin> V \<and> served (en_now env) (au_redis s) v e \<or> (\<exists>k \<in> set (au_keys s'). backs k v e)"
    using ttl_backs [OF k(3)] k' backs_life assms(6) [OF _ v(1)] by blast
qed

lemma unused_value: "generate_unused_key s drawn = Inr v \<Longrightarrow> v \<in> set drawn \<and> (\<forall>k \<in> set (au_keys s). v \<notin> key_values k)"
proof -
  assume a: "generate_unused_key s drawn = Inr v"
  then obtain vs where "filter (\<lambda>v. \<not> key_value_in_use s v) (take 3 drawn) = v # vs"
    by (auto simp: generate_unused_key_def split: list.splits)
  then have "v \<in> set (filter (\<lambda>v. \<not> key_value_in_use s v) (take 3 drawn))" by (metis list.set_intros(1))
  then show ?thesis by (auto simp: key_value_in_use_def key_values_def dest: in_set_takeD)
qed

lemma rotation_cache_fades:
  assumes "en_redis env" "refresh_redis_cache cfg env k (Some (show_int (ap_tenant_id a))) (Option.bind tenant tn_budget_effective_to) s = Inr s1"
  shows "same_life s1 (rotation_cache cfg env a tenant old k s)"
    "fades (en_now env) (au_redis s1) (au_redis (rotation_cache cfg env a tenant old k s))"
    "live_rotated_key (en_now env) k = None \<Longrightarrow> \<not> served (en_now env) (au_redis (rotation_cache cfg env a tenant old k s)) old e"
  using assms fades_trans [OF fades_delete fades_delete_key_caches]
  by (auto simp: rotation_cache_def Let_def same_life_def served_delete served_delete_key_caches fades_delete fades_delete_key_caches
      split: prod.split)

lemma rotate_by_obj_cases:
  assumes "rotate_by_obj cfg env drawn actor grace k s = (r, s')"
  obtains "s' = s"
  | a tenant rexp new s1 where "application_and_tenant s k = (Some a, tenant)" "live_rotated_key (en_now env) k = None"
    "days_from (en_now env) grace = Inr rexp" "pred_option (\<lambda>e. rexp \<le> e) (ak_expires_at k)"
    "generate_unused_key s drawn = Inr new" "rotate (en_now env) (ak_id k) (ak_api_key k) new rexp actor s = (True, s1)"
    "s' = rotation_cache cfg env a tenant (ak_api_key k) (reread s1 k) s1"
proof -
  obtain app tenant where at: "application_and_tenant s k = (app, tenant)" by fastforce
  show thesis
  proof (cases "s' = s")
    case False
    with assms obtain a rexp new where
      c: "app = Some a" "live_rotated_key (en_now env) k = None" "days_from (en_now env) grace = Inr rexp"
      "pred_option (\<lambda>e. rexp \<le> e) (ak_expires_at k)" "generate_unused_key s drawn = Inr new"
      "(case rotate (en_now env) (ak_id k) (ak_api_key k) new rexp actor s of
         (False, _) \<Rightarrow> (Inl (AppErr 409 ''ROTATION_IN_PROGRESS''), s)
       | (True, s1) \<Rightarrow> let s2 = rotation_cache cfg env a tenant (ak_api_key k) (reread s1 k) s1 in (Inr (new, reread s2 k), s2)) = (r, s')"
      by (auto simp: rotate_by_obj_def at split: option.splits if_splits sum.splits)
    obtain b s1 where rot: "rotate (en_now env) (ak_id k) (ak_api_key k) new rexp actor s = (b, s1)" by fastforce
    with c(6) False have b and "s' = rotation_cache cfg env a tenant (ak_api_key k) (reread s1 k) s1"
      by (cases b; simp add: Let_def)+
    with c at rot that(2) show thesis by simp
  qed (rule that(1))
qed

lemma rotate_keeps:
  assumes redis: "en_redis env" and inv: "key_inv (en_now env) s" and k: "k \<in> set (au_keys s)"
    and drawn: "\<forall>v \<in> set drawn. v \<noteq> []" and cfg: "1 \<le> st_api_key_expire_days cfg"
  shows "key_inv (en_now env) (snd (rotate_by_obj cfg env drawn actor grace k s)) \<and>
    stays_revoked s (snd (rotate_by_obj cfg env drawn actor grace k s))"
proof (rule rotate_by_obj_cases [OF surjective_pairing])
  assume "snd (rotate_by_obj cfg env drawn actor grace k s) = s"
  with inv show ?thesis by simp
next
  let ?now = "en_now env"
  have ok: "values_ok s" using inv by (simp add: key_inv_def)
  fix a tenant rexp new s1
  assume live: "live_rotated_key ?now k = None"
    and days: "days_from ?now grace = Inr rexp" and exp: "pred_option (\<lambda>e. rexp \<le> e) (ak_expires_at k)"
    and new: "generate_unused_key s drawn = Inr new"
    and rot: "rotate ?now (ak_id k) (ak_api_key k) new rexp actor s = (True, s1)"
    and run: "snd (rotate_by_obj cfg env drawn actor grace k s) = rotation_cache cfg env a tenant (ak_api_key k) (reread s1 k) s1"
  note r1 = rotate_True [OF rot ok k]
  define k1 where "k1 = rotate_row ?now new rexp actor k"
  have keys1: "au_keys s1 = map (\<lambda>x. if ak_id x = ak_id k then k1 else x) (au_keys s)" and redis1: "au_redis s1 = au_redis s"
    using r1(1) by (simp_all add: k1_def)
  have k1f: "ak_id k1 = ak_id k" "ak_api_key k1 = new" "ak_rotated_key k1 = Some (ak_api_key k)" "ak_is_active k1"
    "ak_rotated_key_expires_at k1 = Some rexp" "ak_expires_at k1 = ak_expires_at k"
    using r1(2) by (simp_all add: k1_def rotate_row_def)
  note un = unused_value [OF new]
  have newk: "new \<notin> key_values k" "new \<noteq> ak_api_key k" "new \<noteq> []" using un k drawn by (auto simp: key_values_def)
  have v1: "values_ok s1"
    by (rule values_ok_change [OF ok k keys1]) (use k1f newk un in \<open>auto simp: key_values_def\<close>)
  have st: "stays_revoked s s1" by (rule stays_revoked_change [OF ok k keys1]) (use k1f r1(2) in auto)
  have k1in: "k1 \<in> set (au_keys s1)" using k by (force simp: keys1)
  have re: "reread s1 k = k1" using v1 k1in k1f(1) by (intro reread_row) (simp_all add: values_ok_def)
  have c1: "coherent ?now (key_values k) s1" by (rule coherent_row_change [OF inv k keys1 redis1])
  have c1': "coherent ?now {ak_api_key k} s1"
    unfolding coherent_def
  proof (intro allI impI, elim conjE)
    fix v e assume v: "v \<notin> {ak_api_key k}" "served ?now (au_redis s1) v e"
    show "\<exists>x \<in> set (au_keys s1). backs x v e"
    proof (cases "v \<in> key_values k")
      case False
      with c1 v show ?thesis by (auto simp: coherent_def)
    next
      case True
      from inv v(2) redis1 obtain x where x: "x \<in> set (au_keys s)" "backs x v e" by (auto simp: key_inv_def coherent_def)
      have "ak_id x \<noteq> ak_id k"
      proof
        assume "ak_id x = ak_id k"
        then have "x = k" using values_ok_row [OF ok x(1) k] by simp
        with x(2) v live show False by (auto simp: backs_def served_def live_def live_rotated_key_def)
      qed
      with x show ?thesis unfolding keys1 by force
    qed
  qed
  have rexp: "rexp = ?now + grace * US_PER_DAY" using days by (auto simp: days_from_def Let_def split: if_splits)
  let ?s' = "rotation_cache cfg env a tenant (ak_api_key k) k1 s1"
  obtain s2 where s2: "refresh_redis_cache cfg env k1 (Some (show_int (ap_tenant_id a))) (Option.bind tenant tn_budget_effective_to) s1 = Inr s2"
    using refresh_total [OF redis] by blast
  note rc = rotation_cache_fades [OF redis s2, of "ak_api_key k"]
  have same: "same_life s1 ?s'" by (rule same_life_trans [OF refresh_cases(1) [OF s2] rc(1)])
  have "coherent ?now {} ?s'"
  proof (cases "live_rotated_key ?now k1 = None")
    case True
    have "coherent ?now {ak_api_key k} s2" by (rule refresh_coherent [OF s2 k1in refl k1f(4) c1']) simp
    then show ?thesis
      by (rule coherent_change [OF _ rc(1)]) (use rc(2,3) True in \<open>auto simp: fades_def\<close>)
  next
    case False
    have pos: "?now < rexp" and val: "ak_api_key k \<noteq> []" using False k1f by (auto simp: live_rotated_key_def split: if_splits)
    then have "0 < grace" by (simp add: rexp US_PER_DAY_def zero_less_mult_iff)
    then have g: "1 \<le> grace" by simp
    have rttl: "0 < (rexp - ?now) div 1000000" using day_ttl [OF g, of ?now] by (simp add: rexp)
    have ettl: "0 < compute_cache_ttl cfg ?now k1"
    proof (cases "ak_expires_at k")
      case (Some x)
      then have "(rexp - ?now) div 1000000 \<le> (x - ?now) div 1000000" using exp by (intro zdiv_mono1) auto
      with rttl Some k1f show ?thesis by (simp add: compute_cache_ttl_def seconds_until_def)
    qed (use cfg in \<open>simp add: compute_cache_ttl_def k1f\<close>)
    then have "0 < cache_ttl_for cfg ?now k1 (ak_api_key k)" using rttl k1f newk by (simp add: cache_ttl_for_def)
    moreover have "ak_api_key k \<in> set (cache_key_values ?now k1)"
      using val pos k1f by (simp add: cache_key_values_def live_rotated_key_def)
    ultimately have "coherent ?now {} s2" using ettl by (intro refresh_coherent [OF s2 k1in refl k1f(4) c1']) auto
    then show ?thesis by (rule coherent_change [OF _ rc(1)]) (use rc(2) in \<open>auto simp: fades_def\<close>)
  qed
  then show ?thesis
    using values_ok_same_life [OF same v1] stays_revoked_trans [OF st stays_revoked_same_life [OF same]] by (simp add: run re key_inv_def)
qed

lemma end_rotation_keeps:
  assumes redis: "en_redis env" and inv: "key_inv (en_now env) s" and k: "k \<in> set (au_keys s)"
  shows "key_inv (en_now env) (snd (end_rotation_by_obj env actor k s)) \<and> stays_revoked s (snd (end_rotation_by_obj env actor k s))"
proof (cases "\<exists>old s1. live_rotated_key (en_now env) k = Some old \<and> end_rotation (en_now env) (ak_id k) old actor s = (True, s1) \<and>
    snd (end_rotation_by_obj env actor k s) = s1\<lparr>au_redis := delete_api_key_cache old (au_redis s1)\<rparr>")
  case False
  then have "snd (end_rotation_by_obj env actor k s) = s"
    using redis by (auto simp: end_rotation_by_obj_def split: option.splits prod.splits bool.splits)
  with inv show ?thesis by simp
next
  case True
  let ?now = "en_now env"
  from True obtain old s1 where e: "end_rotation ?now (ak_id k) old actor s = (True, s1)"
    and run: "snd (end_rotation_by_obj env actor k s) = s1\<lparr>au_redis := delete_api_key_cache old (au_redis s1)\<rparr>" by blast
  have ok: "values_ok s" using inv by (simp add: key_inv_def)
  note r1 = end_rotation_True [OF e ok k]
  define k1 where "k1 = k\<lparr>ak_rotated_key := None, ak_rotated_key_expires_at := None, ak_updated_by := Some actor\<rparr>"
  have keys1: "au_keys s1 = map (\<lambda>x. if ak_id x = ak_id k then k1 else x) (au_keys s)" and redis1: "au_redis s1 = au_redis s"
    using r1(1) by (simp_all add: k1_def)
  have k1f: "ak_id k1 = ak_id k" "ak_api_key k1 = ak_api_key k" "ak_rotated_key k1 = None" "ak_is_active k1" "ak_expires_at k1 = ak_expires_at k"
    using r1(2) by (simp_all add: k1_def)
  have api: "ak_api_key k \<noteq> []" using ok k by (simp add: values_ok_def)
  have v1: "values_ok s1" by (rule values_ok_change [OF ok k keys1]) (use k1f api in \<open>auto simp: key_values_def\<close>)
  have st: "stays_revoked s s1" by (rule stays_revoked_change [OF ok k keys1]) (use k1f r1(2) in auto)
  have c1: "coherent ?now (key_values k) s1" by (rule coherent_row_change [OF inv k keys1 redis1])
  let ?s2 = "s1\<lparr>au_redis := delete_api_key_cache old (au_redis s1)\<rparr>"
  have same: "same_life s1 ?s2" by (simp add: same_life_def)
  have "coherent ?now {} ?s2"
  proof (rule coherent_close [OF c1 same])
    fix v e assume v: "served ?now (au_redis ?s2) v e"
    then show "served ?now (au_redis s1) v e \<or> (\<exists>x \<in> set (au_keys ?s2). backs x v e)" by (simp add: served_delete)
    from v have vs: "v \<noteq> old" "served ?now (au_redis s) v e" by (simp_all add: served_delete redis1)
    then obtain x where x: "x \<in> set (au_keys s)" "backs x v e" using inv by (auto simp: key_inv_def coherent_def)
    show "\<exists>x \<in> set (au_keys ?s2). backs x v e"
    proof (cases "ak_id x = ak_id k")
      case True
      then have "x = k" using values_ok_row [OF ok x(1) k] by simp
      with x(2) vs(1) r1(3) k1f have "backs k1 v e" by (auto simp: backs_def)
      with k show ?thesis by (force simp: keys1)
    next
      case False
      with x show ?thesis by (force simp: keys1)
    qed
  qed
  then show ?thesis
    using values_ok_same_life [OF same v1] stays_revoked_trans [OF st stays_revoked_same_life [OF same]] by (simp add: run key_inv_def)
qed

lemma extend_by_obj_cases:
  assumes "extend_rotation_by_obj cfg env new_end actor k s = (r, s')"
  obtains "s' = s"
  | old s1 where "extend_rotation (en_now env) (ak_id k) old new_end actor s = (True, s1)" "s' = s1"
  | old s1 t b where "extend_rotation (en_now env) (ak_id k) old new_end actor s = (True, s1)"
      "refresh_redis_cache cfg env (reread s1 k) t b s1 = Inr s'"
  using assms that
  by (auto simp: extend_rotation_by_obj_def Let_def split: option.splits if_splits prod.splits bool.splits sum.splits)

lemma extend_rotation_keeps:
  assumes inv: "key_inv (en_now env) s" and k: "k \<in> set (au_keys s)"
  shows "key_inv (en_now env) (snd (extend_rotation_by_obj cfg env new_end actor k s)) \<and>
    stays_revoked s (snd (extend_rotation_by_obj cfg env new_end actor k s))"
proof -
  let ?now = "en_now env"
  have ok: "values_ok s" using inv by (simp add: key_inv_def)
  have mid: "key_inv ?now s1 \<and> stays_revoked s s1 \<and> reread s1 k \<in> set (au_keys s1) \<and> ak_is_active (reread s1 k)"
    if e: "extend_rotation ?now (ak_id k) old new_end actor s = (True, s1)" for old s1
  proof -
    note r1 = extend_rotation_True [OF e ok k]
    define k1 where "k1 = k\<lparr>ak_rotated_key_expires_at := Some new_end, ak_updated_by := Some actor\<rparr>"
    have keys1: "au_keys s1 = map (\<lambda>x. if ak_id x = ak_id k then k1 else x) (au_keys s)" and redis1: "au_redis s1 = au_redis s"
      using r1(1) by (simp_all add: k1_def)
    have api: "ak_api_key k \<noteq> []" using ok k by (simp add: values_ok_def)
    have v1: "values_ok s1" by (rule values_ok_change [OF ok k keys1]) (simp_all add: k1_def key_values_def api)
    have st: "stays_revoked s s1" by (rule stays_revoked_change [OF ok k keys1]) (use r1(2) in \<open>simp_all add: k1_def\<close>)
    have up: "backs k v e \<Longrightarrow> backs k1 v e" for v e using r1(3) by (fastforce simp: backs_def k1_def)
    have "coherent ?now {} s1"
      unfolding coherent_def redis1
    proof (intro allI impI, elim conjE)
      fix v e assume "served ?now (au_redis s) v e"
      then obtain x where x: "x \<in> set (au_keys s)" "backs x v e" using inv by (auto simp: key_inv_def coherent_def)
      show "\<exists>x \<in> set (au_keys s1). backs x v e"
      proof (cases "ak_id x = ak_id k")
        case True
        then have "x = k" using values_ok_row [OF ok x(1) k] by simp
        with up x k show ?thesis by (force simp: keys1)
      next
        case False
        with x show ?thesis by (force simp: keys1)
      qed
    qed
    moreover have "k1 \<in> set (au_keys s1)" using k by (force simp: keys1)
    moreover have "reread s1 k = k1" using v1 \<open>k1 \<in> set (au_keys s1)\<close> by (intro reread_row) (simp_all add: values_ok_def k1_def)
    ultimately show ?thesis using v1 st r1(2) by (simp add: key_inv_def k1_def)
  qed
  show ?thesis
  proof (rule extend_by_obj_cases [OF surjective_pairing])
    assume "snd (extend_rotation_by_obj cfg env new_end actor k s) = s"
    with inv show ?thesis by simp
  next
    fix old s1 assume "extend_rotation ?now (ak_id k) old new_end actor s = (True, s1)" "snd (extend_rotation_by_obj cfg env new_end actor k s) = s1"
    with mid show ?thesis by simp
  next
    fix old s1 t b
    assume e: "extend_rotation ?now (ak_id k) old new_end actor s = (True, s1)"
      and ref: "refresh_redis_cache cfg env (reread s1 k) t b s1 = Inr (snd (extend_rotation_by_obj cfg env new_end actor k s))"
    note m = mid [OF e]
    have "coherent ?now {} (snd (extend_rotation_by_obj cfg env new_end actor k s))"
      using m by (intro refresh_coherent [OF ref _ refl, of "{}"]) (auto simp: key_inv_def)
    with m values_ok_same_life [OF refresh_cases(1) [OF ref]] stays_revoked_trans [OF _ stays_revoked_same_life [OF refresh_cases(1) [OF ref]]]
    show ?thesis by (auto simp: key_inv_def)
  qed
qed

interpretation end_rotation: key_operation "\<lambda>env s. snd (revoke_previous_api_key_value env user i s)" for user i
  using end_rotation_keeps scoped_key_row
  by unfold_locales (auto simp: revoke_previous_api_key_value_def split: sum.split)

interpretation extend_rotation: key_operation "\<lambda>env s. snd (extend_previous_api_key_value cfg env user i new_end s)" for cfg user i new_end
  using extend_rotation_keeps scoped_key_row
  by unfold_locales (auto simp: extend_previous_api_key_value_def split: sum.split)

section \<open>Validation\<close>

lemma found_row:
  assumes "get_by_api_key_if_valid now s token = Inr (Some k)"
  shows "k \<in> set (au_keys s)" "ak_is_active k" "\<not> is_expired now k"
    "ak_api_key k = token \<or> ak_rotated_key k = Some token \<and> (\<exists>r. ak_rotated_key_expires_at k = Some r \<and> now < r)"
proof -
  let ?P = "\<lambda>k. (ak_api_key k = token \<or> ak_rotated_key k = Some token \<and> pred_option (\<lambda>e. now < e) (ak_rotated_key_expires_at k)
      \<and> ak_rotated_key_expires_at k \<noteq> None) \<and> active_key_conditions now False k"
  have "filter ?P (au_keys s) = [k]"
    using assms by (auto simp: get_by_api_key_if_valid_def split: list.splits)
  then have "k \<in> set (filter ?P (au_keys s))" by (metis list.set_intros(1))
  then have "k \<in> set (au_keys s)" and P: "?P k" by simp_all
  then show "k \<in> set (au_keys s)" "ak_is_active k" "\<not> is_expired now k"
    "ak_api_key k = token \<or> ak_rotated_key k = Some token \<and> (\<exists>r. ak_rotated_key_expires_at k = Some r \<and> now < r)"
    by (auto simp: active_key_conditions_def is_expired_def split: option.splits)
qed

lemma found_value:
  assumes "get_by_api_key_if_valid now s token = Inr (Some k)" "token \<noteq> []"
  shows "token \<in> set (cache_key_values now k)"
  using found_row(4) [OF assms(1)] assms(2) by (auto simp: cache_key_values_def live_rotated_key_def split: option.split)

lemma tombstone_fades: "fades now (au_redis s) (au_redis (tombstone_invalid_token cfg now token s))"
  unfolding fades_def
proof (intro allI impI)
  fix v e assume v: "served now (au_redis (tombstone_invalid_token cfg now token s)) v e"
  then have "v \<noteq> token" using served_tombstone [of now token] by (auto simp: tombstone_invalid_token_def)
  with v show "served now (au_redis s) v e" by (auto simp: tombstone_invalid_token_def dest!: served_set)
qed

lemma validate_keeps:
  assumes inv: "key_inv (en_now env) s"
  shows "key_inv (en_now env) (snd (validate_api_key cfg env token s))" "same_life s (snd (validate_api_key cfg env token s))"
proof -
  let ?now = "en_now env"
  have tomb: "key_inv ?now (tombstone_invalid_token cfg ?now token s)" "same_life s (tombstone_invalid_token cfg ?now token s)"
    using key_inv_fades [OF inv _ tombstone_fades] by (simp_all add: tombstone_invalid_token_def same_life_def)
  have rehy: "key_inv ?now (snd (rehydrate_cache_from_db cfg ?now k token s)) \<and> same_life s (snd (rehydrate_cache_from_db cfg ?now k token s))"
    if found: "get_by_api_key_if_valid ?now s token = Inr (Some k)" and tok: "token \<noteq> []" for k
  proof (cases "snd (rehydrate_cache_from_db cfg ?now k token s) = s")
    case False
    then obtain p where ttl: "0 < cache_ttl_for cfg ?now k token" and eq: "snd (rehydrate_cache_from_db cfg ?now k token s) =
        s\<lparr>au_redis := set_api_key_cache ?now token (cache_ttl_for cfg ?now k token) p (au_redis s)\<rparr>"
      by (auto simp: rehydrate_cache_from_db_def split: option.splits if_splits)
    let ?s' = "s\<lparr>au_redis := set_api_key_cache ?now token (cache_ttl_for cfg ?now k token) p (au_redis s)\<rparr>"
    have same: "same_life s ?s'" by (simp add: same_life_def)
    have "coherent ?now {} ?s'"
    proof (rule coherent_change [of ?now "{}" s])
      show "coherent ?now {} s" using inv by (simp add: key_inv_def)
      fix v e assume "served ?now (au_redis ?s') v e"
      then show "v \<notin> {} \<and> served ?now (au_redis s) v e \<or> (\<exists>k \<in> set (au_keys ?s'). backs k v e)"
        using served_set [of ?now token "cache_ttl_for cfg ?now k token" p "au_redis s" v e]
          ttl_backs [OF found_row(2) [OF found] found_value [OF found tok] ttl] found_row(1) [OF found] by auto
    qed (rule same)
    with values_ok_same_life [OF same] inv same show ?thesis unfolding eq by (simp add: key_inv_def)
  qed (use inv in simp)
  have "key_inv ?now (snd (validate_api_key cfg env token s)) \<and> same_life s (snd (validate_api_key cfg env token s))"
  proof (cases "is_api_key token \<and> en_redis env \<and> get_api_key_cache ?now (au_redis s) token = None")
    case False
    then have "snd (validate_api_key cfg env token s) = s" by (auto simp: validate_api_key_def split: option.split)
    with inv show ?thesis by simp
  next
    case True
    then have tok: "token \<noteq> []" by (auto simp: is_api_key_def)
    have "snd (validate_api_key cfg env token s) = snd (resolve_from_db_or_tombstone cfg ?now token s)"
      using True by (simp add: validate_api_key_def split: prod.split sum.split)
    then show ?thesis
      using tomb rehy [OF _ tok] inv by (auto simp: resolve_from_db_or_tombstone_def split: sum.split option.split)
  qed
  then show "key_inv ?now (snd (validate_api_key cfg env token s))" "same_life s (snd (validate_api_key cfg env token s))" by simp_all
qed

interpretation validation: key_operation "\<lambda>env s. snd (validate_api_key cfg env token s)" for cfg token
  by unfold_locales (auto intro: validate_keeps(1) stays_revoked_same_life validate_keeps(2))

section \<open>Creation\<close>

lemma new_row_facts:
  assumes "new_key_row cfg env actor i raw rq ps p a s = Inr k"
  shows "ak_id k = i" "ak_api_key k = raw" "ak_is_active k" "ak_rotated_key k = None"
    "ak_expires_at k = Some (en_now env + (case cq_expires_days rq of None \<Rightarrow> st_api_key_expire_days cfg | Some d \<Rightarrow> d) * US_PER_DAY)"
proof -
  from assms obtain e q b where e: "days_from (en_now env) (case cq_expires_days rq of None \<Rightarrow> st_api_key_expire_days cfg | Some d \<Rightarrow> d) = Inr e"
    and num: "pg_numeric 5 2 p = Some q" "pg_numeric 15 2 a = Some b"
    by (cases "pg_numeric 5 2 p"; cases "pg_numeric 15 2 a") (auto simp: new_key_row_def)
  with assms have k: "k = \<lparr>ak_id = i, ak_application_id = cq_application_id rq, ak_key_name = cq_key_name rq, ak_api_key = raw,
      ak_allocated_percentage = Some q, ak_allocated_budget = Some b, ak_permissions = ps, ak_expires_at = Some e, ak_is_active = True,
      ak_created_at = en_now env, ak_created_by = Some actor, ak_updated_by = Some actor, ak_cached_data = None, ak_rotated_key = None,
      ak_rotated_key_expires_at = None, ak_rotated_at = None\<rparr>"
    by (simp add: new_key_row_def split: if_splits)
  have "e = en_now env + (case cq_expires_days rq of None \<Rightarrow> st_api_key_expire_days cfg | Some d \<Rightarrow> d) * US_PER_DAY"
    using e by (simp add: days_from_def Let_def split: if_splits)
  with k show "ak_id k = i" "ak_api_key k = raw" "ak_is_active k" "ak_rotated_key k = None"
    "ak_expires_at k = Some (en_now env + (case cq_expires_days rq of None \<Rightarrow> st_api_key_expire_days cfg | Some d \<Rightarrow> d) * US_PER_DAY)"
    by simp_all
qed

lemma create_cases:
  assumes "create_api_key cfg ps env actor scope i raw rq s = (r, s')"
  obtains "s' = s"
  | k pids pct amount where "new_key_row cfg env actor i raw rq pids pct amount s = Inr k"
      "same_life (s\<lparr>au_keys := au_keys s @ [k]\<rparr>) s'" "au_redis s' = au_redis s"
  | k pids pct amount payload where "new_key_row cfg env actor i raw rq pids pct amount s = Inr k"
      "same_life (s\<lparr>au_keys := au_keys s @ [k]\<rparr>) s'"
      "au_redis s' = set_api_key_cache (en_now env) raw ((case cq_expires_days rq of None \<Rightarrow> st_api_key_expire_days cfg | Some d \<Rightarrow> d) * 86400) payload (au_redis s)"
proof -
  have snap: "life (k\<lparr>ak_cached_data := d\<rparr>) = life k" for k d by (simp add: life_def)
  consider e where "rbind (create_checks ps env scope rq s) (\<lambda>(a, t, pids, pct, amount).
      rbind (new_key_row cfg env actor i raw rq pids pct amount s) (\<lambda>k. Inr (a, t, amount, k))) = Inl e"
    | a t pids pct amount k where "create_checks ps env scope rq s = Inr (a, t, pids, pct, amount)"
      "new_key_row cfg env actor i raw rq pids pct amount s = Inr k"
  proof (cases "create_checks ps env scope rq s")
    case (Inr c)
    obtain a t pids pct amount where c: "c = (a, t, pids, pct, amount)" by (cases c)
    show thesis
      by (cases "new_key_row cfg env actor i raw rq pids pct amount s") (use Inr c that in simp_all)
  qed (use that in simp)
  then show thesis
  proof cases
    case 1
    with assms that(1) show thesis by (simp add: create_api_key_def)
  next
    case 2
    with assms that(2,3) [OF 2(2)] show thesis
      by (auto simp: create_api_key_def Let_def persist_cache_snapshot_def same_life_def snap split: if_splits)
  qed
qed

lemma create_keeps:
  assumes inv: "key_inv (en_now env) s" and i: "i \<notin> ak_id ` set (au_keys s)" and raw: "is_api_key raw" "\<not> key_value_in_use s raw"
  shows "key_inv (en_now env) (snd (create_api_key cfg ps env actor scope i raw rq s)) \<and>
    stays_revoked s (snd (create_api_key cfg ps env actor scope i raw rq s))"
proof -
  let ?now = "en_now env"
  have ne: "raw \<noteq> []" using raw(1) by (auto simp: is_api_key_def)
  have mid: "values_ok (s\<lparr>au_keys := au_keys s @ [k]\<rparr>)" "coherent ?now {} (s\<lparr>au_keys := au_keys s @ [k]\<rparr>)"
    "stays_revoked s (s\<lparr>au_keys := au_keys s @ [k]\<rparr>)" if row: "new_key_row cfg env actor i raw rq pids pct amount s = Inr k" for k pids pct amount
  proof -
    note f = new_row_facts [OF row]
    have vals: "key_values k = {raw}" using f by (simp add: key_values_def)
    have fresh: "raw \<notin> key_values x" if "x \<in> set (au_keys s)" for x
      using raw(2) that by (auto simp: key_value_in_use_def key_values_def)
    have old: "\<forall>x \<in> set (au_keys s). ak_api_key x \<noteq> []"
      "\<forall>x \<in> set (au_keys s). \<forall>y \<in> set (au_keys s). key_values x \<inter> key_values y \<noteq> {} \<longrightarrow> ak_id x = ak_id y"
      using inv unfolding key_inv_def values_ok_def by blast+
    have kk: "au_keys (s\<lparr>au_keys := au_keys s @ [k]\<rparr>) = au_keys s @ [k]" by simp
    have a: "distinct (map ak_id (au_keys s @ [k]))" using inv i f(1) by (simp add: key_inv_def values_ok_def)
    have b: "\<forall>x \<in> set (au_keys s @ [k]). ak_api_key x \<noteq> []" using old(1) ne f(2) by auto
    have c: "\<forall>x \<in> set (au_keys s @ [k]). \<forall>y \<in> set (au_keys s @ [k]). key_values x \<inter> key_values y \<noteq> {} \<longrightarrow> ak_id x = ak_id y"
    proof (intro ballI impI)
      fix x y assume xy: "x \<in> set (au_keys s @ [k])" "y \<in> set (au_keys s @ [k])" "key_values x \<inter> key_values y \<noteq> {}"
      have "x = k \<longleftrightarrow> y = k" using xy fresh vals by auto
      then consider "x = k" "y = k" | "x \<in> set (au_keys s)" "y \<in> set (au_keys s)" using xy by auto
      then show "ak_id x = ak_id y" by cases (use old(2) xy(3) in blast)+
    qed
    show "values_ok (s\<lparr>au_keys := au_keys s @ [k]\<rparr>)" unfolding values_ok_def kk using a b c by (intro conjI)
    show "coherent ?now {} (s\<lparr>au_keys := au_keys s @ [k]\<rparr>)" using inv by (auto simp: key_inv_def coherent_def)
    show "stays_revoked s (s\<lparr>au_keys := au_keys s @ [k]\<rparr>)" by (auto simp: stays_revoked_def)
  qed
  show ?thesis
  proof (rule create_cases [OF surjective_pairing])
    let ?s' = "snd (create_api_key cfg ps env actor scope i raw rq s)"
    show ?thesis if "?s' = s" using inv that by simp
    fix k pids pct amount
    assume row: "new_key_row cfg env actor i raw rq pids pct amount s = Inr k" and same: "same_life (s\<lparr>au_keys := au_keys s @ [k]\<rparr>) ?s'"
    note m = mid [OF row]
    have keep: "values_ok ?s'" "stays_revoked s ?s'"
      using values_ok_same_life [OF same m(1)] stays_revoked_trans [OF m(3) stays_revoked_same_life [OF same]] by simp_all
    show ?thesis if "au_redis ?s' = au_redis s"
      using keep coherent_change [OF m(2) same, of "{}"] that by (simp add: key_inv_def)
    fix payload
    let ?days = "case cq_expires_days rq of None \<Rightarrow> st_api_key_expire_days cfg | Some d \<Rightarrow> d"
    assume red: "au_redis ?s' = set_api_key_cache ?now raw (?days * 86400) payload (au_redis s)"
    have "backs k raw (Some (?now + ?days * 86400 * 1000000))"
      using new_row_facts [OF row] by (simp add: backs_def ends_by_def US_PER_DAY_def)
    moreover obtain k' where "k' \<in> set (au_keys ?s')" "life k' = life k" using same_life_row [OF same, of k] by auto
    ultimately have new: "\<exists>x \<in> set (au_keys ?s'). backs x raw (Some (?now + ?days * 86400 * 1000000))" using backs_life by blast
    have "coherent ?now {} ?s'"
    proof (rule coherent_change [OF m(2) same])
      fix v e assume "served ?now (au_redis ?s') v e"
      from served_set [OF this [unfolded red]] new
      show "v \<notin> {} \<and> served ?now (au_redis (s\<lparr>au_keys := au_keys s @ [k]\<rparr>)) v e \<or> (\<exists>k \<in> set (au_keys ?s'). backs k v e)" by auto
    qed
    with keep show ?thesis by (simp add: key_inv_def)
  qed
qed

section \<open>Fan-outs\<close>

lemma same_life_cached_data [simp]: "same_life s (change_cached_data c f s)"
  by (simp add: same_life_def change_cached_data_def life_def)

lemma same_life_redis [simp]: "same_life s (s\<lparr>au_redis := r\<rparr>)"
  by (simp add: same_life_def)

lemma same_life_ledger [simp]: "same_life s (snd (write_budget_snapshot env w s))"
  by (simp add: same_life_def)

lemma change_cached_data_redis [simp]: "au_redis (change_cached_data c f s) = au_redis s"
  by (simp add: change_cached_data_def)

lemma for_each_fades:
  assumes "\<And>k r. fades now r (f k r)"
  shows "same_life s (for_each_active_tenant_key now t f s)" "fades now (au_redis s) (au_redis (for_each_active_tenant_key now t f s))"
  using assms by (simp_all add: for_each_active_tenant_key_def fades_fold)

lemma fades_evict: "fades now r (fold delete_key_caches ks r)"
  by (rule fades_fold) (rule fades_delete_key_caches)

interpretation evict_application: fading_operation "\<lambda>env s. snd (evict_keys_for_application env a s)" for a
  by unfold_locales (simp_all add: evict_keys_for_application_def Let_def fades_evict)

interpretation evict_tenant: fading_operation "\<lambda>env s. snd (evict_keys_for_tenant env t s)" for t
  by unfold_locales (simp_all add: evict_keys_for_tenant_def for_each_fades fades_delete_key_caches)

lemma patch_all_fades:
  assumes "fld \<noteq> ''is_already_invalid''"
  shows "same_life s (snd (patch_all_tenant_key_caches env t fld v only s))"
    "fades (en_now env) (au_redis s) (au_redis (snd (patch_all_tenant_key_caches env t fld v only s)))"
proof -
  let ?patch = "if only then patch_api_key_cache_field_if_present else patch_api_key_cache_field"
  have f: "fades (en_now env) r (fold (\<lambda>value. ?patch (en_now env) value fld v) (cache_key_values (en_now env) k) r)" for k r
    using assms by (intro fades_fold) (simp add: fades_patch fades_patch_present)
  have "same_life s (patch_cached_data_field_for_tenant now t fld v only s')" if "same_life s s'" for now s'
    using that same_life_trans same_life_cached_data by (auto simp: patch_cached_data_field_for_tenant_def)
  moreover have "au_redis (patch_cached_data_field_for_tenant now t fld v only s') = au_redis s'" for now s'
    by (simp add: patch_cached_data_field_for_tenant_def)
  ultimately show "same_life s (snd (patch_all_tenant_key_caches env t fld v only s))"
    "fades (en_now env) (au_redis s) (au_redis (snd (patch_all_tenant_key_caches env t fld v only s)))"
    using for_each_fades [OF f] by (simp_all add: patch_all_tenant_key_caches_def Let_def)
qed

interpretation patch_budget_flag: fading_operation "\<lambda>env s. snd (set_budget_exhausted_for_tenant env t b s)" for t b
  by unfold_locales (simp_all add: set_budget_exhausted_for_tenant_def patch_all_fades)

interpretation patch_window: fading_operation "\<lambda>env s. snd (set_budget_effective_to_for_tenant env t e s)" for t e
  by unfold_locales (simp_all add: set_budget_effective_to_for_tenant_def patch_all_fades)

interpretation patch_tier: fading_operation "\<lambda>env s. snd (set_tier_id_for_tenant env t tier s)" for t tier
  by unfold_locales (simp_all add: set_tier_id_for_tenant_def patch_all_fades)

interpretation patch_no_tier: fading_operation "\<lambda>env s. snd (mark_tier_unassigned_for_tenant env t s)" for t
  by unfold_locales (simp_all add: mark_tier_unassigned_for_tenant_def patch_all_fades)

interpretation patch_quota: fading_operation "\<lambda>env s. snd (set_quota_exhausted_for_tenant env t n s)" for t n
  by unfold_locales (simp_all add: set_quota_exhausted_for_tenant_def patch_all_fades)

interpretation clear_quota: fading_operation "\<lambda>env s. snd (clear_quota_flags_for_tenant env catalogue t s)" for catalogue t
proof -
  have f: "fades now r (fold (delete_api_key_cache_fields now (quota_field_names catalogue)) vs r)" for now r vs
    by (intro fades_fold fades_remove_fields quota_fields)
  have same: "same_life s (remove_cached_data_fields_for_tenant now t flds s')" if "same_life s s'" for now flds s s'
    using that same_life_trans same_life_cached_data by (auto simp: remove_cached_data_fields_for_tenant_def)
  have redis: "au_redis (remove_cached_data_fields_for_tenant now t flds s') = au_redis s'" for now flds s'
    by (simp add: remove_cached_data_fields_for_tenant_def)
  show "fading_operation (\<lambda>env s. snd (clear_quota_flags_for_tenant env catalogue t s))"
    using for_each_fades [OF f] by unfold_locales (auto simp: clear_quota_flags_for_tenant_def Let_def redis intro!: same)
qed

interpretation reset_quota: fading_operation "\<lambda>env s. snd (reset_all_quota_fields env catalogue s)" for catalogue
proof -
  have f: "fades now r (delete_api_key_cache_fields_bulk now (quota_field_names catalogue) vs r)" for now vs r
    by (auto simp: delete_api_key_cache_fields_bulk_def intro!: fades_fold fades_remove_fields quota_fields)
  have same: "same_life s (remove_cached_data_fields_globally now flds s')" if "same_life s s'" for now flds s s'
    using that same_life_trans same_life_cached_data by (auto simp: remove_cached_data_fields_globally_def Let_def)
  have redis: "au_redis (remove_cached_data_fields_globally now flds s') = au_redis s'" for now flds s'
    by (simp add: remove_cached_data_fields_globally_def Let_def)
  show "fading_operation (\<lambda>env s. snd (reset_all_quota_fields env catalogue s))"
    by unfold_locales (auto simp: reset_all_quota_fields_def Let_def redis intro!: same fades_fold f)
qed

lemma flag_keys_fades:
  "same_life s (snd (set_budget_exhausted_for_keys env ids b s))"
  "en_redis env \<Longrightarrow> fades (en_now env) (au_redis s) (au_redis (snd (set_budget_exhausted_for_keys env ids b s)))"
proof -
  show "same_life s (snd (set_budget_exhausted_for_keys env ids b s))"
    using same_life_trans [OF same_life_cached_data same_life_redis]
    by (auto simp: set_budget_exhausted_for_keys_def patch_cached_data_field_for_keys_def Let_def)
  show "fades (en_now env) (au_redis s) (au_redis (snd (set_budget_exhausted_for_keys env ids b s)))" if "en_redis env"
    using that by (simp add: set_exhausted_keys fades_fold fades_patch)
qed

interpretation flag_keys: fading_operation "\<lambda>env s. snd (set_budget_exhausted_for_keys env ids b s)" for ids b
  by unfold_locales (simp_all add: flag_keys_fades)

interpretation flag_key: fading_operation "\<lambda>env s. snd (set_budget_exhausted_for_key env i b s)" for i b
proof -
  have same: "same_life s (update_key i (\<lambda>k. k\<lparr>ak_cached_data := map_option g (ak_cached_data k)\<rparr>) (s\<lparr>au_redis := r\<rparr>))" for s r g
    by (simp add: same_life_def life_def)
  show "fading_operation (\<lambda>env s. snd (set_budget_exhausted_for_key env i b s))"
    by unfold_locales (auto simp: set_budget_exhausted_for_key_def Let_def same intro!: fades_fold fades_patch split: option.split)
qed

end
