(* ===== verification/Key_Reachability.thy ===== *)
theory Key_Reachability
  imports Key_Lifecycle
begin

text \<open>
  Every sequence of operations on API keys: the refreshing fan-outs, the revocation of a tenant's keys
  and the allocation endpoints join the operations of \<open>Key_Lifecycle\<close>, and what holds in every reachable
  state.
\<close>

section \<open>Refreshes and bulk revocation\<close>

lemma refresh_keys_keeps:
  assumes "en_redis env" "key_inv (en_now env) s" "\<forall>k \<in> set ks. \<exists>x \<in> set (au_keys s). life x = life k"
  shows "key_inv (en_now env) (snd (refresh_keys cfg env t e ks s)) \<and> same_life s (snd (refresh_keys cfg env t e ks s))"
  using assms(2,3)
proof (induction ks arbitrary: s)
  case (Cons k ks)
  show ?case
  proof (cases "ak_is_active k \<and> \<not> is_expired (en_now env) k")
    case False
    then have "refresh_keys cfg env t e (k # ks) s = refresh_keys cfg env t e ks s" by auto
    with Cons show ?thesis by simp
  next
    case True
    obtain s1 where s1: "refresh_redis_cache cfg env k t e s = Inr s1" using refresh_total [OF assms(1)] by blast
    obtain x where x: "x \<in> set (au_keys s)" "life x = life k" using Cons.prems by auto
    note same = refresh_cases(1) [OF s1]
    have "coherent (en_now env) {} s1"
      using refresh_coherent [OF s1 x, of "{}" "{}"] True Cons.prems(1) by (simp add: key_inv_def)
    then have inv1: "key_inv (en_now env) s1" using values_ok_same_life [OF same] Cons.prems(1) by (simp add: key_inv_def)
    have "\<forall>k \<in> set ks. \<exists>x \<in> set (au_keys s1). life x = life k"
    proof
      fix k' assume "k' \<in> set ks"
      then obtain y where "y \<in> set (au_keys s)" "life y = life k'" using Cons.prems(2) by auto
      with same_life_row [OF same] show "\<exists>x \<in> set (au_keys s1). life x = life k'" by metis
    qed
    from Cons.IH [OF inv1 this] same_life_trans [OF same] True s1 show ?thesis by simp
  qed
qed simp

lemma refresh_application_keeps:
  assumes "en_redis env" "key_inv (en_now env) s"
  shows "key_inv (en_now env) (snd (refresh_keys_cache_for_application cfg env a tn s)) \<and>
    same_life s (snd (refresh_keys_cache_for_application cfg env a tn s))"
proof -
  have ks: "\<forall>k \<in> set (keys_by_application s (ap_id a)). \<exists>x \<in> set (au_keys s). life x = life k" by auto
  show ?thesis
    using refresh_keys_keeps [OF assms ks] evict_application.keeps [OF assms] evict_application.same
    by (simp add: refresh_keys_cache_for_application_def Let_def)
qed

lemma refresh_applications_keeps:
  assumes "en_redis env" "key_inv (en_now env) s"
  shows "key_inv (en_now env) (snd (refresh_applications cfg env t as s)) \<and> same_life s (snd (refresh_applications cfg env t as s))"
  using assms(2)
proof (induction as arbitrary: s)
  case (Cons a as)
  note step = refresh_application_keeps [OF assms(1) Cons.prems, of cfg a "Some t"]
  obtain r s1 where r: "refresh_keys_cache_for_application cfg env a (Some t) s = (r, s1)" by fastforce
  show ?case
  proof (cases r)
    case (Inl e)
    with step r show ?thesis by simp
  next
    case (Inr u)
    with step r Cons.IH [of s1] same_life_trans [of s s1] show ?thesis by simp
  qed
qed simp

interpretation refresh_application: key_operation "\<lambda>env s. snd (refresh_keys_cache_for_application cfg env a tn s)" for cfg a tn
  using refresh_application_keeps stays_revoked_same_life by unfold_locales blast+

interpretation refresh_tenant: key_operation "\<lambda>env s. snd (refresh_keys_cache_for_tenant cfg env t s)" for cfg t
  using refresh_applications_keeps stays_revoked_same_life
  by unfold_locales (auto simp: refresh_keys_cache_for_tenant_def split: option.split)

text \<open>Revoking the keys of a tenant deletes every value the revoked rows hold.\<close>

lemma served_deletes: "served now (fold delete_api_key_cache vs r) w e \<longleftrightarrow> w \<notin> set vs \<and> served now r w e"
  by (induction vs arbitrary: r) (auto simp: served_delete)

lemma revoke_tenant_keeps:
  assumes redis: "en_redis env" and inv: "key_inv (en_now env) s"
  shows "key_inv (en_now env) (snd (revoke_keys_for_tenant env t s)) \<and> stays_revoked s (snd (revoke_keys_for_tenant env t s))"
proof -
  let ?now = "en_now env"
  define app_ids where "app_ids = map ap_id (apps_by_tenant s t)"
  define c where "c = (\<lambda>k. ak_application_id k \<in> set app_ids \<and> ak_is_active (k :: APIKey))"
  define off where "off = (\<lambda>k. if c k then k\<lparr>ak_is_active := False\<rparr> else k)"
  define gone where "gone = filter (\<lambda>v. v \<noteq> []) (concat (map (\<lambda>k. ak_api_key k # (case ak_rotated_key k of None \<Rightarrow> [] | Some v \<Rightarrow> [v]))
      (filter c (au_keys s))))"
  define s2 where "s2 = s\<lparr>au_keys := map off (au_keys s), au_redis := fold delete_api_key_cache gone (au_redis s)\<rparr>"
  show ?thesis
  proof (cases "snd (revoke_keys_for_tenant env t s) = s")
    case True
    with inv show ?thesis by simp
  next
    case False
    then have ne: "app_ids \<noteq> []" by (auto simp: revoke_keys_for_tenant_def revoke_active_for_applications_def Let_def app_ids_def)
    have "revoke_active_for_applications app_ids s = (gone, s\<lparr>au_keys := map off (au_keys s)\<rparr>)"
      unfolding revoke_active_for_applications_def Let_def if_not_P [OF ne] c_def [symmetric] off_def [symmetric] gone_def ..
    with False redis have run: "snd (revoke_keys_for_tenant env t s) = s2"
      by (simp add: revoke_keys_for_tenant_def Let_def app_ids_def [symmetric] s2_def split: if_splits)
    have ids: "map ak_id (map off (au_keys s)) = map ak_id (au_keys s)" by (simp add: off_def)
    have vals: "key_values (off k) = key_values k" "ak_api_key (off k) = ak_api_key k" "ak_id (off k) = ak_id k" for k
      by (simp_all add: off_def key_values_def)
    have ok: "values_ok s" using inv by (simp add: key_inv_def)
    have "values_ok s2"
    proof -
      have keys2: "au_keys s2 = map off (au_keys s)" by (simp add: s2_def)
      have a: "distinct (map ak_id (au_keys s2))" unfolding keys2 ids using ok by (simp add: values_ok_def)
      have b: "\<forall>k \<in> set (au_keys s2). ak_api_key k \<noteq> []" using ok vals by (simp add: values_ok_def s2_def)
      have d: "\<forall>k \<in> set (au_keys s2). \<forall>k' \<in> set (au_keys s2). key_values k \<inter> key_values k' \<noteq> {} \<longrightarrow> ak_id k = ak_id k'"
        using ok by (simp add: values_ok_def s2_def vals)
      show ?thesis unfolding values_ok_def using a b d by (intro conjI)
    qed
    moreover have "coherent ?now {} s2"
      unfolding coherent_def
    proof (intro allI impI, elim conjE)
      fix v e assume "served ?now (au_redis s2) v e"
      then have v: "v \<notin> set gone" "served ?now (au_redis s) v e" by (simp_all add: s2_def served_deletes)
      then obtain k where k: "k \<in> set (au_keys s)" "backs k v e" using inv by (auto simp: key_inv_def coherent_def)
      have "v \<noteq> []" using not_served_empty [OF inv] v(2) by auto
      have "\<not> c k"
      proof
        assume "c k"
        then have "v \<in> set gone" using k \<open>v \<noteq> []\<close> unfolding gone_def by (auto simp: backs_def)
        with v(1) show False by blast
      qed
      then have "off k = k" by (simp add: off_def)
      with k show "\<exists>k \<in> set (au_keys s2). backs k v e" by (force simp: s2_def)
    qed
    moreover have "stays_revoked s s2"
      unfolding stays_revoked_def
    proof (intro ballI impI)
      fix k assume k: "k \<in> set (au_keys s)" "\<not> ak_is_active k"
      then have "off k = k" by (simp add: off_def c_def)
      with k show "\<exists>k' \<in> set (au_keys s2). ak_id k' = ak_id k \<and> \<not> ak_is_active k' \<and> key_values k' = key_values k" by (force simp: s2_def)
    qed
    ultimately show ?thesis by (simp add: run key_inv_def)
  qed
qed

interpretation revoke_tenant: key_operation "\<lambda>env s. snd (revoke_keys_for_tenant env t s)" for t
  using revoke_tenant_keeps by unfold_locales blast+

section \<open>Allocation endpoints\<close>

text \<open>Storing allocations touches neither Redis nor what the invariant reads of a row.\<close>

definition quiet :: "AuthState \<Rightarrow> AuthState \<Rightarrow> bool" where
  "quiet s s' \<longleftrightarrow> same_life s s' \<and> au_redis s' = au_redis s"

lemma quiet_refl [simp]: "quiet s s"
  by (simp add: quiet_def)

lemma quiet_trans: "quiet s t \<Longrightarrow> quiet t u \<Longrightarrow> quiet s u"
  using same_life_trans by (auto simp: quiet_def)

lemma quiet_stores:
  "store_key u i a p s = Inr s' \<Longrightarrow> quiet s s'" "store_key_percentage u i p s = Inr s' \<Longrightarrow> quiet s s'"
  "store_app u i a p s = Inr s' \<Longrightarrow> quiet s s'" "store_app_percentage u i p s = Inr s' \<Longrightarrow> quiet s s'"
  by (auto simp: store_key_def store_key_percentage_def store_app_def store_app_percentage_def quiet_def same_life_def life_def)

lemma quiet_persist:
  assumes "\<And>i a p s s'. store i a p s = Inr s' \<Longrightarrow> quiet s s'"
    and "resolve_and_persist_level store parent children explicit s = Inr (rows, s')"
  shows "quiet s s'"
proof -
  from assms(2) have "res_fold (\<lambda>r s. if rr_changed r then store (rr_id r) (rr_amount r) (rr_percentage r) s else Inr s) rows s = Inr s'"
    by (auto simp: resolve_and_persist_level_def persist_rows_def)
  then show ?thesis
    by (rule res_fold_invariant [where P = "quiet s"]) (auto split: if_splits intro: quiet_trans assms(1))
qed

lemma quiet_percentages:
  assumes "\<And>i p s s'. store i p s = Inr s' \<Longrightarrow> quiet s s'" "store_percentages store current ps s = Inr s'"
  shows "quiet s s'"
  using assms(2) unfolding store_percentages_def
  by (rule res_fold_invariant [where P = "quiet s"]) (auto split: if_splits prod.splits intro: quiet_trans assms(1))

lemma quiet_keys:
  assumes "resolve_and_persist_keys u parent nested existing usage owner s = Inr (rows, s')" shows "quiet s s'"
  using assms quiet_persist [of "store_key u", OF quiet_stores(1)] by (auto simp: resolve_and_persist_keys_def)

lemma quiet_cascade_keys:
  assumes "cascade_into_keys u a parent nested existing usage ch (ws, s) = Inr (out, ws', s')" shows "quiet s s'"
proof -
  from assms obtain rows s1 ps where s1: "resolve_and_persist_keys u parent nested existing usage (Some a) s = Inr (rows, s1)"
    and s2: "(if ch then recompute_key_percentages u parent (filter (\<lambda>k. ak_id k \<notin> rr_id ` set rows) existing) s1 else Inr ([], s1)) = Inr (ps, s')"
    by (auto simp: cascade_into_keys_def split: prod.splits)
  have "quiet s1 s'"
    using s2 quiet_percentages [of "store_key_percentage u", OF quiet_stores(2)] by (auto simp: recompute_key_percentages_def split: if_splits)
  with quiet_keys [OF s1] show ?thesis by (rule quiet_trans)
qed

lemma quiet_cascade_app:
  assumes "cascade_app u rows kba usage r acc = Inr acc'" shows "quiet (snd (snd acc)) (snd (snd acc'))"
proof -
  obtain out ws s where acc: "acc = (out, ws, s)" by (cases acc)
  obtain out' ws' s' where acc': "acc' = (out', ws', s')" by (cases acc')
  from assms have "s' = s \<or> (\<exists>nested kout. cascade_into_keys u (rr_id r) (rr_amount r) nested (active (kba (rr_id r))) usage (rr_changed r) (ws, s) = Inr (kout, ws', s'))"
    by (auto simp: cascade_app_def Let_def acc acc' split: if_splits)
  then show ?thesis using quiet_cascade_keys by (auto simp: acc acc')
qed

lemma quiet_stage_tenant:
  assumes "stage_tenant_allocations u budget rows as kba usage s = Inr (out, ws, s')" shows "quiet s s'"
proof -
  from assms obtain resolved s1 out1 where
    s1: "resolve_and_persist_level (store_app u) budget (map (app_row kba usage) as)
      (map (\<lambda>r. explicit_input (pr_application_id r) (pr_allocation r)) rows) s = Inr (resolved, s1)"
    and casc: "res_fold (cascade_app u rows kba usage) resolved ([], [], s1) = Inr (out1, ws, s')"
    by (auto simp: stage_tenant_allocations_def split: prod.splits)
  have "quiet s s1" by (rule quiet_persist [of "store_app u", OF quiet_stores(3) s1])
  moreover have "quiet s1 (snd (snd (out1, ws, s')))"
    by (rule res_fold_invariant [OF casc, where P = "\<lambda>acc. quiet s1 (snd (snd acc))"]) (auto intro: quiet_trans quiet_cascade_app)
  ultimately show ?thesis using quiet_trans by simp
qed

lemma quiet_stage_keys:
  assumes "stage_key_allocations env u a budget nested s = (usage, Inr (out, ws, s'))" shows "quiet s s'"
  using assms quiet_keys by (auto simp: stage_key_allocations_def Let_def)

text \<open>What is committed is followed by the flags, which only patch.\<close>

lemma finalize_fades:
  "same_life s (snd (finalize env writes usage s))"
  "en_redis env \<Longrightarrow> fades (en_now env) (au_redis s) (au_redis (snd (finalize env writes usage s)))"
proof -
  let ?s1 = "snd (write_budget_snapshot env writes s)"
  have sync: "same_life t (snd (sync_key_exhaustion_flags env writes usage t))" for t
    using same_life_trans [OF flag_keys_fades(1) flag_keys_fades(1)]
    by (auto simp: sync_key_exhaustion_flags_def flag_keys_fades(1) split: prod.split sum.split) (metis flag_keys_fades(1) same_life_trans snd_conv)+
  show "same_life s (snd (finalize env writes usage s))"
    using same_life_trans [OF same_life_ledger sync] by (simp add: finalize_def)
  assume redis: "en_redis env"
  have "fades (en_now env) (au_redis ?s1) (au_redis (snd (sync_key_exhaustion_flags env writes usage ?s1)))"
    using fades_trans [OF flag_keys_fades(2) [OF redis] flag_keys_fades(2) [OF redis]]
    by (simp add: sync_key_exhaustion_flags_def set_exhausted_keys [OF redis])
  then show "fades (en_now env) (au_redis s) (au_redis (snd (finalize env writes usage s)))" by (simp add: finalize_def)
qed

lemma committed_fades:
  assumes "\<And>out ws s'. staged = Inr (out, ws, s') \<Longrightarrow> quiet s s'"
  shows "same_life s (snd (committed s env usage staged))"
    "en_redis env \<Longrightarrow> fades (en_now env) (au_redis s) (au_redis (snd (committed s env usage staged)))"
proof -
  have "snd (committed s env usage staged) = (case staged of Inl e \<Rightarrow> s | Inr (out, ws, s') \<Rightarrow> snd (finalize env ws usage s'))"
    by (auto simp: committed_def split: sum.split prod.split)
  then show "same_life s (snd (committed s env usage staged))"
    "en_redis env \<Longrightarrow> fades (en_now env) (au_redis s) (au_redis (snd (committed s env usage staged)))"
    using assms finalize_fades same_life_trans by (auto simp: quiet_def split: sum.split) (metis finalize_fades(2))
qed

interpretation allocate_tenant: fading_operation "\<lambda>env s. snd (update_tenant_application_allocations env user t rows s)" for user t rows
  by unfold_locales
    (auto simp: update_tenant_application_allocations_def Let_def split: sum.split prod.split
      intro!: committed_fades quiet_stage_tenant)

interpretation allocate_keys: fading_operation "\<lambda>env s. snd (update_application_key_allocations env user a body s)" for user a body
proof -
  have snd_case: "snd (case r of (Inl e, s') \<Rightarrow> (Inl e, s') | (Inr x, s') \<Rightarrow> (Inr (g x), s')) = snd r" for r :: "'x outcome" and g
    by (auto split: prod.split sum.split)
  show "fading_operation (\<lambda>env s. snd (update_application_key_allocations env user a body s))"
    by unfold_locales
      (auto simp: update_application_key_allocations_def Let_def snd_case split: sum.split prod.split
        intro!: committed_fades quiet_stage_keys)
qed

interpretation allocate_key: fading_operation "\<lambda>env s. snd (update_single_api_key_allocation env user i body s)" for user i body
proof -
  have snd_case: "snd (case r of (Inl e, s') \<Rightarrow> (Inl e, s') | (Inr x, s') \<Rightarrow> (case q of Inl e \<Rightarrow> (Inl e, s') | Inr v \<Rightarrow> (Inr (g x v), s'))) = snd r"
    for r :: "'x outcome" and q g
    by (auto split: prod.split sum.split)
  show "fading_operation (\<lambda>env s. snd (update_single_api_key_allocation env user i body s))"
    by unfold_locales
      (auto simp: update_single_api_key_allocation_def Let_def snd_case split: sum.split prod.split
        intro!: committed_fades quiet_stage_keys)
qed

section \<open>Reachable states\<close>

text \<open>
  One step from an instant and a state to the next: time passes, or a request runs with Redis answering.
  Values drawn at random are key-shaped, and a drawn value or id that is already taken is not drawn again.
\<close>

inductive key_step :: "Settings \<Rightarrow> Permission list \<Rightarrow> datetime \<times> AuthState \<Rightarrow> datetime \<times> AuthState \<Rightarrow> bool"
  for cfg :: Settings and ps :: "Permission list" where
  tick: "now \<le> later \<Longrightarrow> key_step cfg ps (now, s) (later, s)"
| validate: "en_redis env \<Longrightarrow> key_step cfg ps (en_now env, s) (en_now env, snd (validate_api_key cfg env token s))"
| create: "en_redis env \<Longrightarrow> i \<notin> ak_id ` set (au_keys s) \<Longrightarrow> is_api_key raw \<Longrightarrow> \<not> key_value_in_use s raw \<Longrightarrow>
    key_step cfg ps (en_now env, s) (en_now env, snd (create_api_key_route cfg ps env user i raw rq s))"
| update: "en_redis env \<Longrightarrow> key_step cfg ps (en_now env, s) (en_now env, snd (update_api_key_route cfg ps env user i urq s))"
| revoke: "en_redis env \<Longrightarrow> key_step cfg ps (en_now env, s) (en_now env, snd (revoke_api_key_route env user i s))"
| rotate: "en_redis env \<Longrightarrow> \<forall>v \<in> set drawn. is_api_key v \<Longrightarrow>
    key_step cfg ps (en_now env, s) (en_now env, snd (rotate_api_key_route cfg env user drawn i grace s))"
| end_rotation: "en_redis env \<Longrightarrow> key_step cfg ps (en_now env, s) (en_now env, snd (revoke_previous_api_key_value env user i s))"
| extend_rotation: "en_redis env \<Longrightarrow>
    key_step cfg ps (en_now env, s) (en_now env, snd (extend_previous_api_key_value cfg env user i new_end s))"
| revoke_tenant: "en_redis env \<Longrightarrow> key_step cfg ps (en_now env, s) (en_now env, snd (revoke_keys_for_tenant env t s))"
| evict_application: "en_redis env \<Longrightarrow> key_step cfg ps (en_now env, s) (en_now env, snd (evict_keys_for_application env a s))"
| evict_tenant: "en_redis env \<Longrightarrow> key_step cfg ps (en_now env, s) (en_now env, snd (evict_keys_for_tenant env t s))"
| refresh_application: "en_redis env \<Longrightarrow>
    key_step cfg ps (en_now env, s) (en_now env, snd (refresh_keys_cache_for_application cfg env app tn s))"
| refresh_tenant: "en_redis env \<Longrightarrow> key_step cfg ps (en_now env, s) (en_now env, snd (refresh_keys_cache_for_tenant cfg env t s))"
| budget_flag: "en_redis env \<Longrightarrow> key_step cfg ps (en_now env, s) (en_now env, snd (set_budget_exhausted_for_tenant env t b s))"
| key_flag: "en_redis env \<Longrightarrow> key_step cfg ps (en_now env, s) (en_now env, snd (set_budget_exhausted_for_key env i b s))"
| budget_window: "en_redis env \<Longrightarrow> key_step cfg ps (en_now env, s) (en_now env, snd (set_budget_effective_to_for_tenant env t e s))"
| tier: "en_redis env \<Longrightarrow> key_step cfg ps (en_now env, s) (en_now env, snd (set_tier_id_for_tenant env t tr s))"
| no_tier: "en_redis env \<Longrightarrow> key_step cfg ps (en_now env, s) (en_now env, snd (mark_tier_unassigned_for_tenant env t s))"
| quota: "en_redis env \<Longrightarrow> key_step cfg ps (en_now env, s) (en_now env, snd (set_quota_exhausted_for_tenant env t n s))"
| clear_quota: "en_redis env \<Longrightarrow> key_step cfg ps (en_now env, s) (en_now env, snd (clear_quota_flags_for_tenant env catalogue t s))"
| reset_quota: "en_redis env \<Longrightarrow> key_step cfg ps (en_now env, s) (en_now env, snd (reset_all_quota_fields env catalogue s))"
| allocate_tenant: "en_redis env \<Longrightarrow>
    key_step cfg ps (en_now env, s) (en_now env, snd (update_tenant_application_allocations env user t rows s))"
| allocate_keys: "en_redis env \<Longrightarrow>
    key_step cfg ps (en_now env, s) (en_now env, snd (update_application_key_allocations env user a body s))"
| allocate_key: "en_redis env \<Longrightarrow>
    key_step cfg ps (en_now env, s) (en_now env, snd (update_single_api_key_allocation env user i row s))"

inductive_cases key_stepE: "key_step cfg ps (now, s) (later, s')"

lemma key_step_keeps:
  assumes "key_step cfg ps st st'" "key_inv (fst st) (snd st)" "1 \<le> st_api_key_expire_days cfg"
  shows "key_inv (fst st') (snd st') \<and> stays_revoked (snd st) (snd st')"
  using assms(1,2)
proof cases
  case (tick now later s)
  with assms(2) show ?thesis using key_inv_later by simp
next
  case (create env i s raw user rq)
  with assms(2) show ?thesis
    using create_keeps [of env s i raw] by (auto simp: create_api_key_route_def split: sum.split)
next
  case (rotate env drawn s user i grace)
  have "\<forall>v \<in> set drawn. v \<noteq> []" using rotate(4) by (auto simp: is_api_key_def)
  with rotate assms(2,3) show ?thesis
    using rotate_keeps [of env s _ drawn cfg] scoped_key_row by (auto simp: rotate_api_key_route_def split: sum.split)
qed (simp_all add: validation.keeps validation.revoked update.keeps update.revoked revoke.keeps revoke.revoked
    end_rotation.keeps end_rotation.revoked extend_rotation.keeps extend_rotation.revoked revoke_tenant.keeps revoke_tenant.revoked
    evict_application.keeps evict_application.revoked evict_tenant.keeps evict_tenant.revoked refresh_application.keeps refresh_application.revoked
    refresh_tenant.keeps refresh_tenant.revoked patch_budget_flag.keeps patch_budget_flag.revoked flag_key.keeps flag_key.revoked
    patch_window.keeps patch_window.revoked patch_tier.keeps patch_tier.revoked patch_no_tier.keeps patch_no_tier.revoked
    patch_quota.keeps patch_quota.revoked clear_quota.keeps clear_quota.revoked reset_quota.keeps reset_quota.revoked
    allocate_tenant.keeps allocate_tenant.revoked allocate_keys.keeps allocate_keys.revoked allocate_key.keeps allocate_key.revoked)

lemma key_steps_keep:
  assumes "(key_step cfg ps)\<^sup>*\<^sup>* st st'" "key_inv (fst st) (snd st)" "1 \<le> st_api_key_expire_days cfg"
  shows "key_inv (fst st') (snd st') \<and> stays_revoked (snd st) (snd st')"
  using assms(1)
proof induction
  case base
  with assms(2) show ?case by simp
next
  case (step y z)
  with key_step_keeps [OF step.hyps(2) _ assms(3)] stays_revoked_trans show ?case by blast
qed

section \<open>Validation answers for active rows\<close>

lemma served_row:
  assumes "backs k v e" "live now e"
  shows "ak_is_active k \<and> \<not> is_expired now k \<and> v \<in> set (cache_key_values now k)"
  using assms by (auto simp: backs_def live_def ends_by_def is_expired_def cache_key_values_def live_rotated_key_def split: option.splits)

lemma valid_answer_row:
  assumes inv: "key_inv (en_now env) s" and ans: "fst (validate_api_key cfg env token s) = Inr (ValidKey p)"
  shows "\<exists>k \<in> set (au_keys s). ak_is_active k \<and> \<not> is_expired (en_now env) k \<and> token \<in> set (cache_key_values (en_now env) k)"
proof (cases "get_api_key_cache (en_now env) (au_redis s) token")
  case (Some h)
  with ans have "\<not> is_cache_entry_invalid h" by (auto simp: validate_api_key_def split: if_splits)
  moreover from Some obtain e where "dict_get (au_redis s) (REDIS_API_KEY_PREFIX @ token) = Some (h, e)" "live (en_now env) e"
    by (auto simp: get_api_key_cache_def redis_get_def split: option.splits if_splits)
  ultimately have "served (en_now env) (au_redis s) token e" "live (en_now env) e" by (auto simp: served_def)
  with inv served_row show ?thesis unfolding key_inv_def coherent_def by blast
next
  case None
  with ans have tok: "token \<noteq> []" and r: "fst (resolve_from_db_or_tombstone cfg (en_now env) token s) = Inr p"
    by (auto simp: validate_api_key_def is_api_key_def split: if_splits prod.splits sum.splits)
  then obtain k where k: "get_by_api_key_if_valid (en_now env) s token = Inr (Some k)"
    by (auto simp: resolve_from_db_or_tombstone_def split: sum.splits option.splits)
  with found_row [OF k] found_value [OF k tok] show ?thesis by blast
qed

lemma cache_values_subset: "set (cache_key_values now k) \<subseteq> key_values k"
  by (auto simp: cache_key_values_def key_values_def live_rotated_key_def split: option.splits if_splits)

lemma revoked_row:
  assumes inv: "key_inv (en_now env) s" and run: "revoke_api_key_route env user i s = (Inr (), s1)" and k: "k \<in> set (au_keys s)" "ak_id k = i"
  shows "key_inv (en_now env) s1" "\<exists>k1 \<in> set (au_keys s1). \<not> ak_is_active k1 \<and> key_values k1 = key_values k"
proof -
  from run obtain k0 where k0: "scoped_key s user i = Inr k0" and rev: "revoke_by_obj env k0 s = (Inr (), s1)"
    by (auto simp: revoke_api_key_route_def split: sum.splits)
  have ok: "values_ok s" using inv by (simp add: key_inv_def)
  have "k0 = k" by (rule values_ok_row [OF ok _ k(1)]) (use scoped_key_row [OF k0] k(2) in simp_all)
  with rev have redis: "en_redis env" and keys: "au_keys s1 = au_keys (update_key (ak_id k) (\<lambda>r. r\<lparr>ak_is_active := False\<rparr>) s)"
    by (auto simp: revoke_by_obj_def Let_def split: if_splits)
  show "key_inv (en_now env) s1" using revoke_keeps [OF redis inv k(1)] rev \<open>k0 = k\<close> by simp
  have "k\<lparr>ak_is_active := False\<rparr> \<in> set (au_keys s1)" unfolding keys using update_key_row(2) [OF ok k(1)] by blast
  then show "\<exists>k1 \<in> set (au_keys s1). \<not> ak_is_active k1 \<and> key_values k1 = key_values k"
    by (rule bexI [rotated]) (simp add: key_values_def)
qed


text \<open>
  C6: Once a revocation has succeeded, none of the values the key held ever validates again, whatever
  operations follow and however long.
\<close>

theorem revoked_key_never_validates:
  assumes "key_inv (en_now env0) s0" "1 \<le> st_api_key_expire_days cfg"
    and "revoke_api_key_route env0 user i s0 = (Inr (), s1)"
    and "k \<in> set (au_keys s0)" "ak_id k = i" "token \<in> key_values k"
    and "(key_step cfg ps)\<^sup>*\<^sup>* (en_now env0, s1) (en_now env, s)"
  shows "fst (validate_api_key cfg env token s) \<noteq> Inr (ValidKey p)"
proof
  assume ans: "fst (validate_api_key cfg env token s) = Inr (ValidKey p)"
  note r = revoked_row [OF assms(1,3-5)]
  have kept: "key_inv (en_now env) s" "stays_revoked s1 s" using key_steps_keep [OF assms(7) _ assms(2)] r(1) by simp_all
  obtain x where x: "x \<in> set (au_keys s)" "ak_is_active x" "token \<in> key_values x"
    using valid_answer_row [OF kept(1) ans] cache_values_subset by blast
  obtain k' where k': "k' \<in> set (au_keys s)" "\<not> ak_is_active k'" "token \<in> key_values k'"
    using kept(2) r(2) assms(6) unfolding stays_revoked_def by metis
  have ok: "values_ok s" using kept(1) by (simp add: key_inv_def)
  then have "ak_id x = ak_id k'" using x k' unfolding values_ok_def by blast
  with values_ok_row [OF ok x(1) k'(1)] x(2) k'(2) show False by simp
qed

section \<open>Examples\<close>

definition life_token :: string where "life_token = replicate 32 (CHR ''a'')"

definition life_key :: APIKey where "life_key = alloc_key\<lparr>ak_api_key := life_token\<rparr>"

definition life_state :: AuthState where "life_state = alloc_state\<lparr>au_keys := [life_key], au_redis := []\<rparr>"

definition life_settings :: Settings where
  "life_settings = \<lparr>st_api_key_expire_days = 365, st_invalid_api_key_cache_ttl_seconds = 86400\<rparr>"

lemmas life_defs = life_key_def life_state_def life_settings_def alloc_defs

lemma life_token_shape: "is_api_key life_token" "life_token \<noteq> []"
  by (simp_all add: is_api_key_def life_token_def list_all_iff is_digit_def)

lemma life_inv: "key_inv now life_state"
  using life_token_shape(2)
  by (simp add: key_inv_def values_ok_def coherent_def served_def life_defs)

lemma life_validates: "\<exists>p. fst (validate_api_key life_settings alloc_env life_token life_state) = Inr (ValidKey p)"
  using life_token_shape(1)
  by (simp add: validate_api_key_def get_api_key_cache_def redis_get_def resolve_from_db_or_tombstone_def get_by_api_key_if_valid_def
      active_key_conditions_def is_key_eligible_def application_and_tenant_def app_by_id_def tenant_by_id_def is_int4_id_def INT4_MAX_def
      application_may_use_api_keys_def rehydrate_cache_from_db_def cache_ttl_for_def compute_cache_ttl_def life_defs Let_def)


theorem revoked_key_never_validates_witness:
  "\<exists>s1. revoke_api_key_route alloc_env alloc_user 5 life_state = (Inr (), s1) \<and>
     (\<forall>p. fst (validate_api_key life_settings alloc_env life_token s1) \<noteq> Inr (ValidKey p))"
proof -
  have "\<exists>s1. revoke_api_key_route alloc_env alloc_user 5 life_state = (Inr (), s1)"
    by (simp add: revoke_api_key_route_def scoped_key_def resolve_caller_tenant_scope_def get_user_roles_def get_by_id_for_scope_def
        key_by_id_def is_int4_id_def INT4_MAX_def revoke_by_obj_def Let_def life_defs)
  then obtain s1 where run: "revoke_api_key_route alloc_env alloc_user 5 life_state = (Inr (), s1)" by blast
  have "fst (validate_api_key life_settings alloc_env life_token s1) \<noteq> Inr (ValidKey p)" for p
    by (rule revoked_key_never_validates [OF life_inv _ run _ _ _ rtranclp.rtrancl_refl, of _ life_key])
      (simp_all add: life_defs key_values_def)
  with run show ?thesis by blast
qed

end
