(* ===== verification/Permission_Map.thy ===== *)
theory Permission_Map
  imports Py_Json
begin

text \<open>
  Which permission an endpoint requires (\<open>core/permission_checker.py\<close>, and the loading of the map in
  \<open>main.py\<close>).  A process keeps one map from \<open>METHOD:/path/{template}\<close> to a permission id; the checker
  looks an endpoint up literally first and then among the templates, through an index by method and
  number of segments that it builds on demand and keeps.
\<close>

named_theorems perm_simps \<open>the permission map and its index\<close>

section \<open>Text\<close>

text \<open>\<open>s.split(c)\<close>, \<open>s.rstrip(c)\<close> and \<open>s.startswith(p)\<close> for a single character.\<close>

fun split_on :: "char \<Rightarrow> string \<Rightarrow> string list" where
  "split_on c [] = [[]]"
| "split_on c (x # xs) =
     (if x = c then [] # split_on c xs
      else case split_on c xs of [] \<Rightarrow> [[x]] | y # ys \<Rightarrow> (x # y) # ys)"

definition rstrip :: "char \<Rightarrow> string \<Rightarrow> string" where
  "rstrip c s = rev (dropWhile (\<lambda>x. x = c) (rev s))"

definition starts_with :: "string \<Rightarrow> string \<Rightarrow> bool" where
  "starts_with p s \<longleftrightarrow> take (length p) s = p"

lemma split_on_not_Nil [simp]: "split_on c s \<noteq> []"
  by (induction s) (auto split: list.splits)

lemma rstrip_snoc [simp]: "rstrip c (s @ [c]) = rstrip c s"
  by (simp add: rstrip_def)

section \<open>The map\<close>

text \<open>An entry of \<open>apiMappings\<close> in \<open>api_permissions.json\<close>, and the loading of the map at start-up.\<close>

type_synonym perm_map = "(string, int) dict"

definition endpoint_to_id :: "(string \<times> int) list \<Rightarrow> perm_map" where
  "endpoint_to_id mappings = fold (\<lambda>(e, p). dict_set e p) mappings []"

section \<open>The index of templates\<close>

text \<open>A segment and whether it is a placeholder.\<close>

type_synonym seg_specs = "(string \<times> bool) list"

type_synonym template_index = "(string, (nat, (seg_specs \<times> int) list) dict) dict"

definition is_placeholder :: "string \<Rightarrow> bool" where
  "is_placeholder s \<longleftrightarrow> s \<noteq> [] \<and> hd s = CHR ''{'' \<and> last s = CHR ''}''"

definition segments :: "string \<Rightarrow> string list" where
  "segments path = split_on (CHR ''/'') (rstrip (CHR ''/'') path)"

definition setdefault :: "('k, 'v) dict \<Rightarrow> 'k \<Rightarrow> 'v \<Rightarrow> 'v" where
  "setdefault d k v = (case dict_get d k of None \<Rightarrow> v | Some w \<Rightarrow> w)"

definition add_template :: "string \<times> int \<Rightarrow> template_index \<Rightarrow> template_index" where
  "add_template entry index =
     (case split_at (\<lambda>c. c = CHR '':'') (fst entry) of
        (_, None) \<Rightarrow> index
      | (method, Some path) \<Rightarrow>
          let segs = segments path;
              specs = map (\<lambda>s. (s, is_placeholder s)) segs;
              by_count = setdefault index (upper method) [];
              bucket = setdefault by_count (length segs) []
          in dict_set (upper method) (dict_set (length segs) (bucket @ [(specs, snd entry)]) by_count) index)"

definition build_index :: "perm_map \<Rightarrow> template_index" where
  "build_index mapping = fold add_template mapping []"

text \<open>
  The checker keeps the index with a fingerprint: which dictionary it was built from and how many
  entries that had.  The singleton's own map stays empty, so it reads the process-wide one.
\<close>

datatype map_identity = NoMap | OwnMap | GlobalMap

record PermissionChecker =
  pc_api_permission_map :: perm_map
  pc_template_index :: template_index
  pc_template_index_fp :: "map_identity \<times> nat"

definition new_checker :: PermissionChecker where
  "new_checker = \<lparr>pc_api_permission_map = [], pc_template_index = [], pc_template_index_fp = (NoMap, 0)\<rparr>"

definition get_template_index :: "map_identity \<Rightarrow> perm_map \<Rightarrow> PermissionChecker \<Rightarrow> template_index \<times> PermissionChecker" where
  "get_template_index ident mapping pc =
     (let fp = (ident, length mapping)
      in if fp = pc_template_index_fp pc \<and> pc_template_index pc \<noteq> [] then (pc_template_index pc, pc)
         else let index = build_index mapping
              in (index, pc\<lparr>pc_template_index := index, pc_template_index_fp := fp\<rparr>))"

definition template_matches :: "string list \<Rightarrow> seg_specs \<Rightarrow> bool" where
  "template_matches path_segments specs = list_all (\<lambda>((ps, ph), rs). ph \<or> ps = rs) (zip specs path_segments)"

definition get_required_permission :: "perm_map \<Rightarrow> string \<Rightarrow> string \<Rightarrow> PermissionChecker \<Rightarrow> int option \<times> PermissionChecker" where
  "get_required_permission global_map method path pc =
     (let endpoint_key = upper method @ '':'' @ path;
          (ident, mapping) = (if pc_api_permission_map pc \<noteq> [] then (OwnMap, pc_api_permission_map pc) else (GlobalMap, global_map))
      in if mapping = [] then (None, pc)
         else case dict_get mapping endpoint_key of
                Some p \<Rightarrow> (Some p, pc)
              | None \<Rightarrow>
                  let path_segments = segments path;
                      (index, pc') = get_template_index ident mapping pc;
                      candidates = setdefault (setdefault index (upper method) []) (length path_segments) []
                  in (map_option snd (find (\<lambda>(specs, _). template_matches path_segments specs) candidates), pc'))"

section \<open>A reference for the lookup\<close>

text \<open>
  What the index stands for: the literal entry, or the first entry of the map, in its order, whose
  method is the same and whose path has as many segments, each a placeholder or equal.
\<close>

definition pattern_matches :: "string \<Rightarrow> string \<Rightarrow> string \<Rightarrow> bool" where
  "pattern_matches method path pattern =
     (case split_at (\<lambda>c. c = CHR '':'') pattern of
        (_, None) \<Rightarrow> False
      | (m, Some t) \<Rightarrow> upper m = upper method \<and> list_all2 (\<lambda>s r. is_placeholder s \<or> s = r) (segments t) (segments path))"

definition required_permission :: "perm_map \<Rightarrow> string \<Rightarrow> string \<Rightarrow> int option" where
  "required_permission mapping method path =
     (case dict_get mapping (upper method @ '':'' @ path) of
        Some p \<Rightarrow> Some p
      | None \<Rightarrow> map_option snd (find (\<lambda>(pattern, _). pattern_matches method path pattern) mapping))"

text \<open>The bucket of a method and a number of segments holds its templates in the order of the map.\<close>

definition template_of :: "string \<Rightarrow> nat \<Rightarrow> string \<times> int \<Rightarrow> (seg_specs \<times> int) option" where
  "template_of method n entry =
     (case split_at (\<lambda>c. c = CHR '':'') (fst entry) of
        (_, None) \<Rightarrow> None
      | (m, Some t) \<Rightarrow>
          if upper m = upper method \<and> length (segments t) = n
          then Some (map (\<lambda>s. (s, is_placeholder s)) (segments t), snd entry) else None)"

definition bucket_of :: "template_index \<Rightarrow> string \<Rightarrow> nat \<Rightarrow> (seg_specs \<times> int) list" where
  "bucket_of index method n = setdefault (setdefault index (upper method) []) n []"

lemma setdefault_set [simp]: "setdefault (dict_set k v d) k' w = (if k' = k then v else setdefault d k' w)"
  by (simp add: setdefault_def)

lemma bucket_add_template:
  "bucket_of (add_template e index) method n =
     bucket_of index method n @ (case template_of method n e of None \<Rightarrow> [] | Some x \<Rightarrow> [x])"
  by (auto simp: bucket_of_def add_template_def template_of_def Let_def split: prod.splits option.splits)

lemma bucket_fold: "bucket_of (fold add_template es index) method n = bucket_of index method n @ List.map_filter (template_of method n) es"
  by (induction es arbitrary: index) (auto simp: bucket_add_template map_filter_simps split: option.splits)

lemma bucket_build: "bucket_of (build_index mapping) method n = List.map_filter (template_of method n) mapping"
  by (simp add: build_index_def bucket_fold) (simp add: bucket_of_def setdefault_def)

lemma template_matches_list_all2:
  "length ss = length rs \<Longrightarrow>
     template_matches rs (map (\<lambda>s. (s, is_placeholder s)) ss) = list_all2 (\<lambda>s r. is_placeholder s \<or> s = r) ss rs"
  by (induction ss rs rule: list_induct2) (simp_all add: template_matches_def)

lemma find_template:
  "map_option snd (find (\<lambda>(specs, _). template_matches (segments path) specs)
       (List.map_filter (template_of method (length (segments path))) mapping)) =
     map_option snd (find (\<lambda>(pattern, _). pattern_matches method path pattern) mapping)"
proof (induction mapping)
  case (Cons e mapping)
  show ?case
  proof (cases "template_of method (length (segments path)) e")
    case None
    then have "\<not> pattern_matches method path (fst e)"
      by (auto simp: template_of_def pattern_matches_def split: prod.splits option.splits if_splits dest: list_all2_lengthD)
    with Cons None show ?thesis by (cases e) (simp add: map_filter_simps)
  next
    case (Some x)
    then have "template_matches (segments path) (fst x) = pattern_matches method path (fst e) \<and> snd x = snd e"
      by (auto simp: template_of_def pattern_matches_def template_matches_list_all2 split: prod.splits option.splits if_splits)
    with Cons Some show ?thesis by (cases e; cases x) (simp add: map_filter_simps)
  qed
qed (simp add: map_filter_simps)

section \<open>The index is transparent\<close>

text \<open>The index agrees with the map it will be read with: none was kept yet, or it was built from this map.\<close>

definition index_fresh :: "perm_map \<Rightarrow> PermissionChecker \<Rightarrow> bool" where
  "index_fresh global_map pc \<longleftrightarrow> pc_api_permission_map pc = [] \<and>
     (pc_template_index_fp pc = (GlobalMap, length global_map) \<longrightarrow>
        pc_template_index pc = [] \<or> pc_template_index pc = build_index global_map)"

lemma lookup_fresh:
  assumes "index_fresh global_map pc"
  shows "fst (get_required_permission global_map method path pc) = required_permission global_map method path"
proof -
  have index: "fst (get_template_index GlobalMap global_map pc) = build_index global_map"
    using assms by (auto simp: get_template_index_def index_fresh_def Let_def)
  show ?thesis
    using assms index
    by (auto simp: get_required_permission_def required_permission_def index_fresh_def Let_def bucket_build [unfolded bucket_of_def]
        find_template split: option.splits prod.splits)
qed

lemma lookup_stays_fresh:
  assumes "index_fresh global_map pc"
  shows "index_fresh global_map (snd (get_required_permission global_map method path pc))"
  using assms
  by (auto simp: get_required_permission_def get_template_index_def index_fresh_def Let_def split: option.splits prod.splits)

lemma new_checker_fresh: "index_fresh global_map new_checker"
  by (simp add: index_fresh_def new_checker_def)

text \<open>The lookups a process makes, each handing the checker to the next.\<close>

fun lookups :: "perm_map \<Rightarrow> (string \<times> string) list \<Rightarrow> PermissionChecker \<Rightarrow> int option list" where
  "lookups global_map [] pc = []"
| "lookups global_map ((m, p) # rest) pc =
     (case get_required_permission global_map m p pc of (r, pc') \<Rightarrow> r # lookups global_map rest pc')"

lemma lookups_fresh:
  "index_fresh global_map pc \<Longrightarrow> lookups global_map qs pc = map (\<lambda>(m, p). required_permission global_map m p) qs"
proof (induction qs arbitrary: pc)
  case (Cons q qs)
  obtain m p where q: "q = (m, p)" by fastforce
  obtain r pc' where r: "get_required_permission global_map m p pc = (r, pc')" by fastforce
  show ?case
    using Cons.IH [of pc'] lookup_fresh [OF Cons.prems, of m p] lookup_stays_fresh [OF Cons.prems, of m p] by (simp add: q r)
qed simp

text \<open>
  Every lookup a process makes after it loaded the map, through the index it builds and keeps, gives
  what a scan of the map gives: the literal entry, or the first template in the map's order with the
  same method and matching segments.
\<close>

lemma indexed_lookup_is_first_match:
  "lookups global_map qs new_checker = map (\<lambda>(m, p). required_permission global_map m p) qs"
  by (rule lookups_fresh [OF new_checker_fresh])

text \<open>
  A map that is replaced by one with as many entries leaves the fingerprint as it was, and the old
  index answers: the permission a reload brought is not required.
\<close>

lemma reload_of_same_size_is_not_seen:
  "let old = [(''GET:/a/{id}'', 7 :: int)]; new = [(''GET:/b/{id}'', 8)];
       pc = snd (get_required_permission old ''GET'' ''/a/1'' new_checker)
   in fst (get_required_permission new ''GET'' ''/b/1'' pc) = None \<and>
      required_permission new ''GET'' ''/b/1'' = Some 8"
  by code_simp

section \<open>Guarded endpoints\<close>

lemma find_None_iff_all: "find P xs = None \<longleftrightarrow> (\<forall>x \<in> set xs. \<not> P x)"
  by (induction xs) auto

text \<open>Nothing is required exactly when neither the literal endpoint nor any template of the map covers it.\<close>

lemma not_required_iff:
  "required_permission mapping method path = None \<longleftrightarrow>
     upper method @ '':'' @ path \<notin> set (dict_keys mapping) \<and> (\<forall>pattern \<in> set (dict_keys mapping). \<not> pattern_matches method path pattern)"
proof (cases "dict_get mapping (upper method @ '':'' @ path)")
  case None
  then have "upper method @ '':'' @ path \<notin> set (dict_keys mapping)" by (metis map_of_eq_None_iff set_map)
  moreover have "required_permission mapping method path = None \<longleftrightarrow> (\<forall>x \<in> set mapping. \<not> pattern_matches method path (fst x))"
    unfolding required_permission_def None by (simp add: find_None_iff_all case_prod_unfold)
  ultimately show ?thesis by simp
next
  case (Some p)
  then have "upper method @ '':'' @ path \<in> set (dict_keys mapping)" by (force dest: map_of_SomeD)
  with Some show ?thesis by (simp add: required_permission_def)
qed

text \<open>An endpoint of the map stays guarded when slashes are appended to its path.\<close>

lemma slashes_stay_guarded:
  assumes "m @ '':'' @ t \<in> set (dict_keys mapping)" "CHR '':'' \<notin> set m" "upper m = upper method"
    "rstrip (CHR ''/'') path = rstrip (CHR ''/'') t"
  shows "required_permission mapping method path \<noteq> None"
proof -
  have split: "split_at (\<lambda>c. c = CHR '':'') (m @ '':'' @ t) = (m, Some t)"
  proof -
    have "dropWhile (\<lambda>c. c \<noteq> CHR '':'') (m @ CHR '':'' # t) = CHR '':'' # t \<and> takeWhile (\<lambda>c. c \<noteq> CHR '':'') (m @ CHR '':'' # t) = m"
      using assms(2) by (induction m) auto
    then show ?thesis by (simp add: split_at_def)
  qed
  have "pattern_matches method path (m @ '':'' @ t)"
    unfolding pattern_matches_def split using assms(3,4) by (simp add: segments_def list_all2_same)
  with assms(1) show ?thesis unfolding not_required_iff by blast
qed

end
