(* ===== verification/Catalogue.thy ===== *)
theory Catalogue
  imports Permission_Map
begin

text \<open>
  The client of the inference-type catalogue (\<open>libs/ai4i_core/ai4i_core/ppu/catalogue.py\<close>): a snapshot
  with a lifetime, refreshed through Redis, the database and HTTP in this order, and served past its
  lifetime when all of them fail.  A row is a JSON object; a row's name is text or absent.
\<close>

section \<open>State\<close>

type_synonym row = "(string, json) dict"

record Catalogue =
  ct_ttl :: int                       \<comment> \<open>microseconds of the monotonic clock\<close>
  ct_snapshot :: "row list"
  ct_snapshot_at :: int
  ct_has_loaded :: bool
  ct_warned_at :: int

text \<open>
  What the providers meet during one refresh: \<open>None\<close> is an exception.  The Redis hash holds JSON texts,
  given here as the values they encode; the HTTP answer is the parsed body.
\<close>

record Providers =
  pv_redis :: "row list option"       \<comment> \<open>\<open>_from_redis\<close>\<close>
  pv_db :: "(int \<times> string \<times> string list option \<times> string \<times> string) list option option"   \<comment> \<open>no session factory, or the answer of the query\<close>
  pv_http :: "json option option"     \<comment> \<open>no base url, or the answer\<close>

definition new_catalogue :: "int \<Rightarrow> Catalogue" where
  "new_catalogue ttl = \<lparr>ct_ttl = ttl, ct_snapshot = [], ct_snapshot_at = 0, ct_has_loaded = False, ct_warned_at = 0\<rparr>"

section \<open>Providers\<close>

definition from_db :: "Providers \<Rightarrow> row list option" where
  "from_db pv =
     (case pv_db pv of
        None \<Rightarrow> Some []
      | Some answer \<Rightarrow> map_option (map (\<lambda>(i, name, patterns, unit, pricing).
          [(''id'', JInt i), (''name'', JStr name),
           (''endpoint_patterns'', JArr (map JStr (case patterns of None \<Rightarrow> [] | Some ps \<Rightarrow> ps))),
           (''unit'', JStr unit), (''pricing'', JStr pricing)])) answer)"

text \<open>\<open>list(v or [])\<close> of a JSON value; anything that is not a list or null is outside the model.\<close>

definition json_list :: "json \<Rightarrow> json list" where
  "json_list v = (case v of JArr xs \<Rightarrow> xs | _ \<Rightarrow> [])"

text \<open>One item of the HTTP answer, in the legacy scalar shape; \<open>item["name"]\<close> may be missing.\<close>

definition row_of_legacy :: "row \<Rightarrow> row option" where
  "row_of_legacy item =
     (case dict_get item ''name'' of
        None \<Rightarrow> None
      | Some name \<Rightarrow>
          Some [(''id'', jget item ''id''), (''name'', name),
            (''endpoint_patterns'',
              JArr ((if truthy (jget item ''endpoint_pattern'') then [jget item ''endpoint_pattern''] else [])
                    @ json_list (jget item ''endpoint_aliases''))),
            (''unit'', jget_default item ''unit'' (JStr [])), (''pricing'', jget_default item ''pricing'' (JStr []))])"

definition json_obj :: "json \<Rightarrow> row" where
  "json_obj v = (case v of JObj d \<Rightarrow> d | _ \<Rightarrow> [])"

definition from_http :: "Providers \<Rightarrow> row list option" where
  "from_http pv =
     (case pv_http pv of
        None \<Rightarrow> Some []
      | Some None \<Rightarrow> None
      | Some (Some payload) \<Rightarrow>
          map_opt (\<lambda>item. row_of_legacy (json_obj item))
            (json_list (jget (json_obj (jget (json_obj payload) ''data'')) ''inference_types'')))"

section \<open>Refresh\<close>

definition row_name :: "row \<Rightarrow> string option" where
  "row_name r = (case dict_get r ''name'' of Some (JStr n) \<Rightarrow> Some n | _ \<Rightarrow> None)"

text \<open>\<open>sorted(rows, key=lambda r: r["name"])\<close>; the key is taken outside the handler of the providers.\<close>

definition sorted_rows :: "row list \<Rightarrow> row list option" where
  "sorted_rows rows = (if \<forall>r \<in> set rows. row_name r \<noteq> None then Some (sort_key (\<lambda>r. map of_char (the (row_name r)) :: nat list) rows) else None)"

definition first_rows :: "row list option list \<Rightarrow> row list option" where
  "first_rows answers = (case filter (\<lambda>a. a \<noteq> None \<and> a \<noteq> Some []) answers of [] \<Rightarrow> None | a # _ \<Rightarrow> a)"

definition stale_or_empty :: "int \<Rightarrow> Catalogue \<Rightarrow> row list \<times> Catalogue" where
  "stale_or_empty now ct =
     (let ct' = (if ct_ttl ct \<le> now - ct_warned_at ct then ct\<lparr>ct_warned_at := now\<rparr> else ct)
      in (if ct_has_loaded ct then ct_snapshot ct else [], ct'))"

definition fresh :: "int \<Rightarrow> Catalogue \<Rightarrow> bool" where
  "fresh now ct \<longleftrightarrow> ct_has_loaded ct \<and> now - ct_snapshot_at ct < ct_ttl ct"

text \<open>\<open>None\<close> is the \<open>KeyError\<close> of a row without a name.\<close>

definition refresh :: "int \<Rightarrow> Providers \<Rightarrow> Catalogue \<Rightarrow> row list option \<times> Catalogue" where
  "refresh now pv ct =
     (if fresh now ct then (Some (ct_snapshot ct), ct)
      else case first_rows [pv_redis pv, from_db pv, from_http pv] of
             Some rows \<Rightarrow>
               (case sorted_rows rows of
                  None \<Rightarrow> (None, ct)
                | Some xs \<Rightarrow> (Some xs, ct\<lparr>ct_snapshot := xs, ct_snapshot_at := now, ct_has_loaded := True\<rparr>))
           | None \<Rightarrow> (case stale_or_empty now ct of (xs, ct') \<Rightarrow> (Some xs, ct')))"

definition get_all :: "int \<Rightarrow> Providers \<Rightarrow> Catalogue \<Rightarrow> row list option \<times> Catalogue" where
  "get_all now pv ct = (if fresh now ct then (Some (ct_snapshot ct), ct) else refresh now pv ct)"

section \<open>Lookups\<close>

definition find_by_name :: "string \<Rightarrow> row list \<Rightarrow> row option" where
  "find_by_name name rows = (if name = [] then None else find (\<lambda>r. row_name r = Some (lower (strip name))) rows)"

definition get_by_name :: "int \<Rightarrow> Providers \<Rightarrow> string \<Rightarrow> Catalogue \<Rightarrow> row option option \<times> Catalogue" where
  "get_by_name now pv name ct =
     (if name = [] then (Some None, ct)
      else case get_all now pv ct of (rows, ct') \<Rightarrow> (map_option (find_by_name name) rows, ct'))"

definition get_unit_map :: "int \<Rightarrow> Providers \<Rightarrow> Catalogue \<Rightarrow> (string, json) dict option \<times> Catalogue" where
  "get_unit_map now pv ct =
     (case get_all now pv ct of (rows, ct') \<Rightarrow>
        (map_option (\<lambda>rs. fold (\<lambda>r d. case row_name r of None \<Rightarrow> d | Some n \<Rightarrow> dict_set n (jget_default r ''unit'' (JStr [])) d) rs []) rows, ct'))"

definition uri_path :: "string \<Rightarrow> string" where
  "uri_path uri = fst (split_at (\<lambda>c. c = CHR ''?'') uri)"

definition patterns_of :: "row \<Rightarrow> string list" where
  "patterns_of r = List.map_filter (\<lambda>v. case v of JStr s \<Rightarrow> Some s | _ \<Rightarrow> None) (json_list (jget r ''endpoint_patterns''))"

definition find_by_path :: "string \<Rightarrow> row list \<Rightarrow> row option" where
  "find_by_path uri rows =
     find (\<lambda>r. \<exists>p \<in> set (patterns_of r). rstrip (CHR ''/'') p = rstrip (CHR ''/'') (uri_path uri)) rows"

definition get_by_path :: "int \<Rightarrow> Providers \<Rightarrow> string \<Rightarrow> Catalogue \<Rightarrow> row option option \<times> Catalogue" where
  "get_by_path now pv uri ct =
     (if uri = [] then (Some None, ct)
      else case get_all now pv ct of (rows, ct') \<Rightarrow> (map_option (find_by_path uri) rows, ct'))"

section \<open>The legacy projection\<close>

definition to_legacy_entry :: "row \<Rightarrow> row" where
  "to_legacy_entry entry =
     (let patterns = json_list (jget entry ''endpoint_patterns'')
      in [(''name'', jget entry ''name''),
          (''endpoint_pattern'', case patterns of [] \<Rightarrow> JStr [] | p # _ \<Rightarrow> p),
          (''endpoint_aliases'', JArr (tl patterns)),
          (''unit'', jget_default entry ''unit'' (JStr [])),
          (''pricing'', jget_default entry ''pricing'' (JStr []))])"

lemma legacy_entry_back:
  assumes "json_list (jget entry ''endpoint_patterns'') \<noteq> [] \<Longrightarrow> truthy (hd (json_list (jget entry ''endpoint_patterns'')))"
    and "dict_get entry ''name'' = Some n"
  shows "\<exists>row. row_of_legacy (to_legacy_entry entry) = Some row \<and> jget row ''name'' = n \<and>
    json_list (jget row ''endpoint_patterns'') = json_list (jget entry ''endpoint_patterns'') \<and>
    jget row ''unit'' = jget_default entry ''unit'' (JStr []) \<and> jget row ''pricing'' = jget_default entry ''pricing'' (JStr [])"
  using assms
  by (cases "json_list (jget entry ''endpoint_patterns'')")
    (simp_all add: row_of_legacy_def to_legacy_entry_def Let_def jget_def jget_default_def json_list_def)

section \<open>Outages\<close>

lemma first_rows_None: "first_rows answers = None \<longleftrightarrow> (\<forall>a \<in> set answers. a = None \<or> a = Some [])"
  by (induction answers) (auto simp: first_rows_def)

lemma first_rows_Some: "first_rows answers = Some rows \<Longrightarrow> Some rows \<in> set answers \<and> rows \<noteq> []"
  by (induction answers) (auto simp: first_rows_def split: if_splits)

text \<open>
  While every provider fails or answers nothing, a catalogue that was ever loaded goes on answering
  with the rows it last read, however old they are, and one that never was answers with none; no
  outage makes it raise.
\<close>

lemma outage_serves_last_rows:
  assumes "\<forall>a \<in> {pv_redis pv, from_db pv, from_http pv}. a = None \<or> a = Some []"
  shows "fst (get_all now pv ct) = Some (if ct_has_loaded ct then ct_snapshot ct else []) \<and>
    ct_snapshot (snd (get_all now pv ct)) = ct_snapshot ct \<and> ct_has_loaded (snd (get_all now pv ct)) = ct_has_loaded ct"
proof -
  have none: "first_rows [pv_redis pv, from_db pv, from_http pv] = None" using assms by (simp add: first_rows_None)
  then show ?thesis by (auto simp: get_all_def refresh_def none fresh_def stale_or_empty_def Let_def)
qed

text \<open>A cached row without a name makes the refresh raise, although it promises never to.\<close>

lemma nameless_row_raises: "fst (get_all 0 \<lparr>pv_redis = Some [[]], pv_db = None, pv_http = None\<rparr> (new_catalogue 60)) = None"
  by (simp add: get_all_def refresh_def fresh_def new_catalogue_def first_rows_def sorted_rows_def row_name_def)

end
