(* ===== verification/Py_Iso.thy ===== *)
theory Py_Iso
  imports Py_Time
begin

text \<open>
  \<open>datetime.fromisoformat\<close> on the texts \<open>isoformat\<close> writes for an aware moment in UTC, with and without
  microseconds.  Any other text is refused here.
\<close>

definition fromisoformat :: "string \<Rightarrow> datetime option" where
  "fromisoformat s =
     (case (digits_at s 0 4, digits_at s 5 2, digits_at s 8 2, digits_at s 11 2, digits_at s 14 2, digits_at s 17 2,
            if drop 19 s = ''+00:00'' then Some 0
            else if take 1 (drop 19 s) = ''.'' \<and> drop 26 s = ''+00:00'' then digits_at s 20 6 else None) of
        (Some y, Some m, Some d, Some hh, Some mm, Some ss, Some us) \<Rightarrow>
          if [s ! 4, s ! 7, s ! 10, s ! 13, s ! 16] = ''--T::'' \<and>
             1 \<le> y \<and> 1 \<le> m \<and> m \<le> 12 \<and> 1 \<le> d \<and> d \<le> days_in_month (is_leap y) m \<and>
             hh < 24 \<and> mm < 60 \<and> ss < 60
          then Some (moment_of y m d hh mm ss us) else None
      | _ \<Rightarrow> None)"

text \<open>Every moment of the calendar reads back from its text.\<close>

lemma fromisoformat_isoformat:
  assumes "valid_moment t"
  shows "fromisoformat (isoformat t) = Some t"
proof -
  define Y M D H N S where
    "Y = field 4 (year_of t)" and "M = field 2 (month_num t)" and "D = field 2 (day_num t)" and
    "H = field 2 (hour_of t)" and "N = field 2 (minute_of t)" and "S = field 2 (second_of t)"
  define U where "U = field 6 (micro_of t)"
  define tl where "tl = (if micro_of t = 0 then [] else ''.'' @ U) @ ''+00:00''"
  have micro: "0 \<le> micro_of t" "micro_of t < 1000000" by (simp_all add: micro_of_def)
  have lens: "length Y = 4" "length M = 2" "length D = 2" "length H = 2" "length N = 2" "length S = 2" "length U = 6"
    using assms date_ranges [of t] day_num_le [of t] clock_ranges [of t] micro
    unfolding Y_def M_def D_def H_def N_def S_def U_def valid_moment_def
    by (intro length_field; simp)+
  have digs: "list_all is_digit Y" "list_all is_digit M" "list_all is_digit D" "list_all is_digit H"
    "list_all is_digit N" "list_all is_digit S" "list_all is_digit U"
    by (simp_all add: Y_def M_def D_def H_def N_def S_def U_def field_digits)
  have vals: "int (read_digits Y) = year_of t" "int (read_digits M) = month_num t" "int (read_digits D) = day_num t"
    "int (read_digits H) = hour_of t" "int (read_digits N) = minute_of t" "int (read_digits S) = second_of t"
    "int (read_digits U) = micro_of t"
    using assms date_ranges [of t] clock_ranges [of t] micro
    by (simp_all add: Y_def M_def D_def H_def N_def S_def U_def valid_moment_def)
  let ?s = "Y @ ''-'' @ M @ ''-'' @ D @ ''T'' @ H @ '':'' @ N @ '':'' @ S @ tl"
  have s: "isoformat t = ?s"
    by (simp add: isoformat_def iso_base_def Y_def M_def D_def H_def N_def S_def U_def tl_def)
  have parts: "digits_at ?s 0 4 = Some (year_of t)" "digits_at ?s 5 2 = Some (month_num t)"
    "digits_at ?s 8 2 = Some (day_num t)" "digits_at ?s 11 2 = Some (hour_of t)"
    "digits_at ?s 14 2 = Some (minute_of t)" "digits_at ?s 17 2 = Some (second_of t)"
    using lens digs vals by (simp_all add: digits_at_def)
  have seps: "[?s ! 4, ?s ! 7, ?s ! 10, ?s ! 13, ?s ! 16] = ''--T::''"
    using lens by (simp_all add: nth_append)
  have rest: "(if drop 19 ?s = ''+00:00'' then Some 0
      else if take 1 (drop 19 ?s) = ''.'' \<and> drop 26 ?s = ''+00:00'' then digits_at ?s 20 6 else None) = Some (micro_of t)"
  proof (cases "micro_of t = 0")
    case True
    with lens show ?thesis by (simp add: tl_def)
  next
    case False
    with lens digs vals show ?thesis by (simp add: tl_def digits_at_def)
  qed
  have "fromisoformat ?s = Some (moment_of (year_of t) (month_num t) (day_num t) (hour_of t) (minute_of t) (second_of t) (micro_of t))"
    unfolding fromisoformat_def parts rest using seps assms date_ranges [of t] clock_ranges [of t]
    by (simp add: valid_moment_def)
  also have "\<dots> = Some t" using moment_of_fields [of t] by (simp add: moment_of_def)
  finally show ?thesis by (simp only: s)
qed

lemma isoformat_not_Nil [simp]: "isoformat t \<noteq> []"
  by (simp add: isoformat_def iso_base_def)

end
