(* ===== verification/Forward_Auth.thy ===== *)
theory Forward_Auth
  imports Api_Keys Catalogue Py_Iso
begin

text \<open>
  The gateway's forward-auth call (\<open>routes/validation.py\<close>), made for every request to the platform:
  it identifies the caller by API key or JWT, authorizes the endpoint, and for API keys enforces tier,
  budget window, budget and quota.  With it the JWT verifier (\<open>core/jwt_verifier.py\<close>), the revocation
  of sessions (\<open>dependencies/auth.py\<close>, \<open>services/cache_service.py\<close>), the issuing of tokens
  (\<open>services/token_service.py\<close>), the lookup of tiers (\<open>services/tier_lookup.py\<close>), and the internal
  endpoints the billing consumer calls (\<open>routes/internal.py\<close>).

  PyJWT and the decoding of a token's header are parameters.  The monotonic clock of the process is the
  clock of the model.  Bodies of answers are reduced to their error codes, log lines are left out.
\<close>

section \<open>Requests and answers\<close>

record Request =
  rq_authorization :: "string option"
  rq_method :: "string option"           \<comment> \<open>\<open>X-Original-Method\<close>\<close>
  rq_uri :: "string option"              \<comment> \<open>\<open>X-Original-URI\<close>\<close>

text \<open>Admitted with the headers set on the response, refused with status and code, or an unhandled exception (500).\<close>

datatype answer = Admit "(string, string) dict" | Deny int string | Crash

definition unauthenticated :: answer where "unauthenticated = Deny 401 ''UNAUTHENTICATED''"

definition extract_token :: "Request \<Rightarrow> string" where
  "extract_token rq =
     (let raw = strip (case rq_authorization rq of None \<Rightarrow> [] | Some a \<Rightarrow> a)
      in if starts_with ''bearer '' (lower raw) then strip (drop 7 raw) else raw)"

section \<open>State\<close>

record Verifier =
  vf_jwks_url :: "string option"
  vf_issuer :: string
  vf_audience :: "string option"
  vf_public_keys :: "(string, string) dict"      \<comment> \<open>\<open>kid\<close> to PEM\<close>
  vf_last_jwks_refresh :: int

text \<open>
  What the process and its stores hold: the auth tables and key hashes, the logout times and tier hashes
  in Redis, the tiers of platform-core, the permission map with its checker, the catalogue, the names of
  the tenants and the verifier.
\<close>

record Gateway =
  gw_auth :: AuthState
  gw_logout :: "(string, int \<times> expiry) dict"
  gw_tier_cache :: "(string, (string \<times> int option) \<times> expiry) dict"
  gw_tiers :: "(string, string \<times> int option) dict"
  gw_permissions :: perm_map
  gw_checker :: PermissionChecker
  gw_catalogue :: Catalogue
  gw_tenant_names :: "(int, string) dict"
  gw_verifier :: Verifier

section \<open>Endpoint permissions\<close>

definition required_endpoint_permission :: "Request \<Rightarrow> Gateway \<Rightarrow> (bool \<times> int option) \<times> Gateway" where
  "required_endpoint_permission rq gw =
     (case (rq_method rq, rq_uri rq) of
        (Some m, Some u) \<Rightarrow>
          if m = [] \<or> u = [] then ((False, None), gw)
          else if gw_permissions gw = [] then ((False, None), gw)
          else (case get_required_permission (gw_permissions gw) m (uri_path u) (gw_checker gw) of
                  (p, pc) \<Rightarrow> ((True, p), gw\<lparr>gw_checker := pc\<rparr>))
      | _ \<Rightarrow> ((False, None), gw))"

definition allowed :: "bool \<times> int option \<Rightarrow> int list \<Rightarrow> bool" where
  "allowed looked permission_ids \<longleftrightarrow> \<not> fst looked \<or> (case snd looked of None \<Rightarrow> True | Some p \<Rightarrow> p \<in> set permission_ids)"

definition check_endpoint_permission :: "Request \<Rightarrow> int list \<Rightarrow> Gateway \<Rightarrow> bool \<times> Gateway" where
  "check_endpoint_permission rq permission_ids gw =
     (case required_endpoint_permission rq gw of (looked, gw') \<Rightarrow> (allowed looked permission_ids, gw'))"

text \<open>Without a token only an endpoint that is known to be public is open.\<close>

definition validate_anonymous :: "Request \<Rightarrow> Gateway \<Rightarrow> answer \<times> Gateway" where
  "validate_anonymous rq gw =
     (case required_endpoint_permission rq gw of (looked, gw') \<Rightarrow>
        (if fst looked \<and> snd looked = None then Admit [(''X-User-ID'', []), (''X-Tenant-ID'', [])]
         else Deny 401 ''AUTHENTICATION_REQUIRED'', gw'))"

section \<open>Headers of the tenant\<close>

definition tenant_headers :: "(int, string) dict \<Rightarrow> json \<Rightarrow> (string, string) dict \<Rightarrow> (string, string) dict" where
  "tenant_headers names tenant_id hs =
     (let name = (case py_int tenant_id of None \<Rightarrow> None | Some i \<Rightarrow> dict_get names i);
          shown = (case name of None \<Rightarrow> py_str tenant_id | Some n \<Rightarrow> if n = [] then py_str tenant_id else n)
      in dict_set ''X-Tenant-Name'' shown (dict_set ''X-Tenant-ID'' (py_str tenant_id) hs))"

section \<open>Tiers\<close>

definition REDIS_TIER_PREFIX :: string where "REDIS_TIER_PREFIX = ''core:tier:''"
definition REDIS_TIER_TTL_SECONDS :: int where "REDIS_TIER_TTL_SECONDS = 10 * 60"

definition get_tier_cache :: "Env \<Rightarrow> string \<Rightarrow> Gateway \<Rightarrow> (string \<times> int option) option" where
  "get_tier_cache env tier_id gw =
     (if en_redis env then redis_get (en_now env) (gw_tier_cache gw) (REDIS_TIER_PREFIX @ tier_id) else None)"

definition set_tier_cache :: "Env \<Rightarrow> string \<Rightarrow> string \<Rightarrow> int option \<Rightarrow> Gateway \<Rightarrow> Gateway" where
  "set_tier_cache env tier_id status rate_limit gw =
     (if en_redis env \<and> redis_get (en_now env) (gw_tier_cache gw) (REDIS_TIER_PREFIX @ tier_id) = None
      then gw\<lparr>gw_tier_cache := redis_setex (en_now env) (REDIS_TIER_PREFIX @ tier_id) (status, rate_limit) REDIS_TIER_TTL_SECONDS
                (gw_tier_cache gw)\<rparr>
      else gw)"

definition get_tier :: "Env \<Rightarrow> string \<Rightarrow> Gateway \<Rightarrow> (string option \<times> int option) \<times> Gateway" where
  "get_tier env tier_id gw =
     (case get_tier_cache env tier_id gw of
        Some (status, rate_limit) \<Rightarrow> ((Some status, rate_limit), gw)
      | None \<Rightarrow>
          if \<not> en_core_db env \<or> \<not> en_core_read env then ((None, None), gw)
          else case dict_get (gw_tiers gw) tier_id of
                 None \<Rightarrow> ((None, None), gw)
               | Some (status, rate_limit) \<Rightarrow>
                   if status = ''DELETED'' then ((None, None), gw)
                   else ((Some status, rate_limit), set_tier_cache env tier_id status rate_limit gw))"

section \<open>API keys\<close>

definition cell_truthy :: "cell \<Rightarrow> bool" where
  "cell_truthy c = (case c of C_int i \<Rightarrow> i \<noteq> 0 | C_str s \<Rightarrow> s \<noteq> [] | C_perms ps \<Rightarrow> ps \<noteq> [] | C_null \<Rightarrow> False)"

definition json_of_cell :: "cell \<Rightarrow> json" where
  "json_of_cell c = (case c of C_int i \<Rightarrow> JInt i | C_str s \<Rightarrow> JStr s | C_perms ps \<Rightarrow> JArr (map JInt ps) | C_null \<Rightarrow> JNull)"

text \<open>A field that is there with a value Python takes for true.\<close>

definition present :: "payload \<Rightarrow> string \<Rightarrow> cell option" where
  "present p f = (case dict_get p f of None \<Rightarrow> None | Some c \<Rightarrow> if cell_truthy c then Some c else None)"

definition permission_ids_of :: "payload \<Rightarrow> int list" where
  "permission_ids_of p = (case dict_get p ''permissions'' of Some (C_perms xs) \<Rightarrow> xs | _ \<Rightarrow> [])"

definition cached_budget_window_is_expired :: "datetime \<Rightarrow> payload \<Rightarrow> bool" where
  "cached_budget_window_is_expired now p =
     (case present p ''budget_effective_to'' of
        Some (C_str raw) \<Rightarrow>
          (case fromisoformat raw of None \<Rightarrow> False | Some e \<Rightarrow> is_budget_window_expired now (Some e))
      | _ \<Rightarrow> False)"

definition text_key :: "string \<Rightarrow> nat list" where
  "text_key s = map of_char s"

definition exhausted_services :: "payload \<Rightarrow> string list" where
  "exhausted_services p =
     sort_key text_key (map (\<lambda>(k, _). drop 6 k) (filter (\<lambda>(k, v). starts_with ''quota-'' k \<and> v = C_str ''1'') p))"

definition set_header :: "string \<Rightarrow> cell option \<Rightarrow> (string, string) dict \<Rightarrow> (string, string) dict" where
  "set_header h c hs = (case c of None \<Rightarrow> hs | Some v \<Rightarrow> dict_set h (py_str (json_of_cell v)) hs)"

definition key_headers :: "(int, string) dict \<Rightarrow> payload \<Rightarrow> int option \<Rightarrow> (string, string) dict" where
  "key_headers names p rate_limit =
     (let hs = set_header ''X-API-Key-ID'' (present p ''id'')
                 (set_header ''X-Application-ID'' (present p ''application_id'') (set_header ''X-User-ID'' (present p ''user_id'') []));
          hs = dict_set ''X-Tier-ID'' (case present p ''tier_id'' of None \<Rightarrow> [] | Some c \<Rightarrow> py_str (json_of_cell c)) hs;
          hs = (case rate_limit of None \<Rightarrow> hs | Some n \<Rightarrow> dict_set ''X-Rate-Limit'' (show_int n) hs);
          hs = dict_set ''X-Quota-Exhausted-Services'' (join '','' (exhausted_services p)) hs;
          hs = dict_set ''X-Auth-Type'' ''api_key'' hs;
          hs = dict_set ''X-Permission-IDS'' (''['' @ join '','' (map show_int (permission_ids_of p)) @ '']'') hs
      in case present p ''tenant_id'' of None \<Rightarrow> hs | Some c \<Rightarrow> tenant_headers names (json_of_cell c) hs)"

text \<open>The checks behind a valid key, in their order: the first that fails is the answer.\<close>

definition enforce_quota :: "Providers \<Rightarrow> Env \<Rightarrow> Request \<Rightarrow> payload \<Rightarrow> int option \<Rightarrow> Gateway \<Rightarrow> answer \<times> Gateway" where
  "enforce_quota pv env rq p rate_limit gw =
     (case get_by_path (en_now env) pv (case rq_uri rq of None \<Rightarrow> [] | Some u \<Rightarrow> u) (gw_catalogue gw) of
        (None, ct) \<Rightarrow> (Crash, gw\<lparr>gw_catalogue := ct\<rparr>)
      | (Some service, ct) \<Rightarrow>
          (if (case service of None \<Rightarrow> False | Some r \<Rightarrow> (case row_name r of None \<Rightarrow> False | Some n \<Rightarrow> n \<in> set (exhausted_services p)))
           then Deny 429 ''QUOTA_EXCEEDED'' else Admit (key_headers (gw_tenant_names gw) p rate_limit),
           gw\<lparr>gw_catalogue := ct\<rparr>))"

definition enforce_budget :: "Providers \<Rightarrow> Env \<Rightarrow> Request \<Rightarrow> payload \<Rightarrow> int option \<Rightarrow> Gateway \<Rightarrow> answer \<times> Gateway" where
  "enforce_budget pv env rq p rate_limit gw =
     (if cached_budget_window_is_expired (en_now env) p then (Deny 403 ''BUDGET_EXPIRED'', gw)
      else if dict_get p ''budget-exhausted'' = Some (C_str ''1'') then (Deny 429 ''BUDGET_EXHAUSTED'', gw)
      else enforce_quota pv env rq p rate_limit gw)"

definition enforce_tier :: "Providers \<Rightarrow> Env \<Rightarrow> Request \<Rightarrow> payload \<Rightarrow> Gateway \<Rightarrow> answer \<times> Gateway" where
  "enforce_tier pv env rq p gw =
     (if dict_get p ''tier_id'' = Some (C_str UNASSIGNED_TIER_ID) then (Deny 403 ''NO_ACTIVE_TIER'', gw)
      else
        case (case present p ''tier_id'' of
                None \<Rightarrow> ((None, None), gw)
              | Some c \<Rightarrow> get_tier env (py_str (json_of_cell c)) gw) of
          ((status, rate_limit), gw') \<Rightarrow>
            if status \<noteq> None \<and> status \<noteq> Some ''ACTIVE'' then (Deny 403 ''TIER_DEACTIVATED'', gw')
            else enforce_budget pv env rq p rate_limit gw')"

definition validate_api_key_branch :: "Settings \<Rightarrow> Providers \<Rightarrow> Env \<Rightarrow> string \<Rightarrow> Request \<Rightarrow> Gateway \<Rightarrow> answer \<times> Gateway" where
  "validate_api_key_branch cfg pv env token rq gw =
     (case validate_api_key cfg env token (gw_auth gw) of
        (Inl InvalidAPIKey, s) \<Rightarrow> (unauthenticated, gw\<lparr>gw_auth := s\<rparr>)
      | (Inl _, s) \<Rightarrow> (Crash, gw\<lparr>gw_auth := s\<rparr>)
      | (Inr InvalidFormat, s) \<Rightarrow> (unauthenticated, gw\<lparr>gw_auth := s\<rparr>)
      | (Inr (ValidKey p), s) \<Rightarrow>
          (case check_endpoint_permission rq (permission_ids_of p) (gw\<lparr>gw_auth := s\<rparr>) of
             (False, gw') \<Rightarrow> (Deny 403 ''INSUFFICIENT_PERMISSIONS'', gw')
           | (True, gw') \<Rightarrow> enforce_tier pv env rq p gw'))"

section \<open>JWTs\<close>

text \<open>
  The parameters of the JWT path: the JSON value of a url-safe base64 text, \<open>jwt.get_unverified_header\<close>,
  \<open>jwt.decode\<close> at an instant with the key, issuer and audience to check, \<open>jwt.encode\<close> with the key and
  its id, and the answer of the JWKS endpoint as key ids with the PEM of each key that converts.
\<close>

datatype decoded = Expired | Refused | Payload row

record JwtLib =
  jl_b64_json :: "string \<Rightarrow> json option"
  jl_header :: "string \<Rightarrow> row option"
  jl_decode :: "datetime \<Rightarrow> string \<Rightarrow> string \<Rightarrow> string \<Rightarrow> string option \<Rightarrow> decoded"
  jl_encode :: "row \<Rightarrow> string \<Rightarrow> string \<Rightarrow> string"
  jl_fetch :: "string \<Rightarrow> (string \<times> string option) list option"

definition is_jwt_strict :: "JwtLib \<Rightarrow> string \<Rightarrow> bool" where
  "is_jwt_strict lib token =
     (let parts = split_on (CHR ''.'') token
      in if length parts \<noteq> 3 then False
         else let h = parts ! 0; padding = (4 - length h mod 4) mod 4
              in case jl_b64_json lib (h @ replicate padding (CHR ''='')) of
                   Some (JObj header) \<Rightarrow> jget header ''alg'' = JStr ''RS256''
                 | _ \<Rightarrow> False)"

record AuthClaims =
  cl_user_id :: json
  cl_tenant_id :: json
  cl_permission_ids :: json
  cl_token_type :: json
  cl_token_id :: json
  cl_raw :: row

definition payload_to_claims :: "row \<Rightarrow> AuthClaims option" where
  "payload_to_claims payload =
     (let sub = (if jget payload ''sub'' = JNull then jget payload ''user_id'' else jget payload ''sub'')
      in if sub = JNull then None
         else Some \<lparr>cl_user_id = (case py_int sub of None \<Rightarrow> sub | Some i \<Rightarrow> JInt i),
                    cl_tenant_id = jget payload ''tenant_id'',
                    cl_permission_ids = jget_default payload ''permission_ids'' (JArr []),
                    cl_token_type = jget_default payload ''type'' (JStr []),
                    cl_token_id = jget payload ''token_id'', cl_raw = payload\<rparr>)"

text \<open>\<open>_refresh_jwks\<close>: \<open>None\<close> when there is no key to fall back on.\<close>

definition refresh_jwks :: "JwtLib \<Rightarrow> string \<Rightarrow> Verifier \<Rightarrow> Verifier option" where
  "refresh_jwks lib url vf =
     (case jl_fetch lib url of
        None \<Rightarrow> if vf_public_keys vf = [] then None else Some vf
      | Some jwks \<Rightarrow>
          Some (vf\<lparr>vf_public_keys := fold (\<lambda>(kid, pem) d. if kid = [] then d else
                     (case pem of None \<Rightarrow> d | Some k \<Rightarrow> dict_set kid k d)) jwks []\<rparr>))"

text \<open>The key of an id; a miss refreshes the keys at most once in thirty seconds.\<close>

definition pem_of :: "JwtLib \<Rightarrow> datetime \<Rightarrow> string \<Rightarrow> Verifier \<Rightarrow> string option \<times> Verifier" where
  "pem_of lib now kid vf =
     (case (dict_get (vf_public_keys vf) kid, vf_jwks_url vf) of
        (None, Some url) \<Rightarrow>
          if url \<noteq> [] \<and> 30 * 1000000 \<le> now - vf_last_jwks_refresh vf
          then (case refresh_jwks lib url vf of
                  None \<Rightarrow> (None, vf\<lparr>vf_last_jwks_refresh := now\<rparr>)
                | Some vf' \<Rightarrow> (dict_get (vf_public_keys vf') kid, vf'\<lparr>vf_last_jwks_refresh := now\<rparr>))
          else (None, vf)
      | (pem, _) \<Rightarrow> (pem, vf))"

datatype jwt_error = JwtExpired | JwtInvalid

definition verify :: "JwtLib \<Rightarrow> datetime \<Rightarrow> string \<Rightarrow> Verifier \<Rightarrow> (jwt_error, AuthClaims) res \<times> Verifier" where
  "verify lib now token vf =
     (if vf_public_keys vf = [] then (Inl JwtInvalid, vf)
      else case jl_header lib token of
             None \<Rightarrow> (Inl JwtInvalid, vf)
           | Some header \<Rightarrow>
               (case jget header ''kid'' of
                  JStr kid \<Rightarrow>
                    if kid = [] \<or> jget header ''alg'' \<noteq> JStr ''RS256'' then (Inl JwtInvalid, vf)
                    else (case pem_of lib now kid vf of
                            (None, vf') \<Rightarrow> (Inl JwtInvalid, vf')
                          | (Some pem, vf') \<Rightarrow>
                              (case jl_decode lib now token pem (vf_issuer vf) (vf_audience vf) of
                                 Expired \<Rightarrow> (Inl JwtExpired, vf')
                               | Refused \<Rightarrow> (Inl JwtInvalid, vf')
                               | Payload p \<Rightarrow> ((case payload_to_claims p of None \<Rightarrow> Inl JwtInvalid | Some c \<Rightarrow> Inr c), vf')))
                | _ \<Rightarrow> (Inl JwtInvalid, vf)))"

section \<open>Sessions\<close>

definition REDIS_LOGOUT_PREFIX :: string where "REDIS_LOGOUT_PREFIX = ''auth:logout:''"

definition set_logout_timestamp :: "datetime \<Rightarrow> string \<Rightarrow> int \<Rightarrow> Gateway \<Rightarrow> Gateway" where
  "set_logout_timestamp now user_id ttl_seconds gw =
     gw\<lparr>gw_logout := redis_setex now (REDIS_LOGOUT_PREFIX @ user_id) (now div US_PER_SECOND) ttl_seconds (gw_logout gw)\<rparr>"

definition revoke_all_sessions :: "int \<Rightarrow> datetime \<Rightarrow> string \<Rightarrow> Gateway \<Rightarrow> Gateway" where
  "revoke_all_sessions access_token_expire_minutes now user_id gw =
     set_logout_timestamp now user_id (access_token_expire_minutes * 60) gw"

definition get_logout_timestamp :: "datetime \<Rightarrow> string \<Rightarrow> Gateway \<Rightarrow> int option" where
  "get_logout_timestamp now user_id gw = redis_get now (gw_logout gw) (REDIS_LOGOUT_PREFIX @ user_id)"

text \<open>Revoked or not; \<open>None\<close> is an exception: Redis does not answer, or \<open>iat\<close> is not a number.\<close>

definition issued_before :: "json \<Rightarrow> int \<Rightarrow> bool option" where
  "issued_before iat ts =
     (case iat of JInt i \<Rightarrow> Some (i < ts) | JFloat x \<Rightarrow> Some (x < of_int ts) | JBool b \<Rightarrow> Some ((if b then 1 else 0) < ts) | _ \<Rightarrow> None)"

definition check_token_revocation :: "Env \<Rightarrow> AuthClaims \<Rightarrow> Gateway \<Rightarrow> bool option" where
  "check_token_revocation env cl gw =
     (if cl_token_type cl = JStr ''api_key''
      then if en_redis env then Some (get_api_key_cache (en_now env) (au_redis (gw_auth gw)) (py_str (cl_token_id cl)) = None) else None
      else if truthy (cl_user_id cl) \<and> jget (cl_raw cl) ''iat'' \<noteq> JNull
      then if \<not> en_redis env then None
           else case get_logout_timestamp (en_now env) (py_str (cl_user_id cl)) gw of
                  None \<Rightarrow> Some False
                | Some ts \<Rightarrow> issued_before (jget (cl_raw cl) ''iat'') ts
      else Some False)"

text \<open>\<open>required in permission_ids\<close>, and the text of the ids, for a claim of any shape; \<open>None\<close> is a \<open>TypeError\<close>.\<close>

definition claims_permit :: "bool \<times> int option \<Rightarrow> json \<Rightarrow> bool option" where
  "claims_permit looked ids =
     (if \<not> fst looked then Some True
      else case snd looked of
             None \<Rightarrow> Some True
           | Some p \<Rightarrow> (case ids of JArr xs \<Rightarrow> Some (\<exists>x \<in> set xs. py_eq_int x p) | JObj _ \<Rightarrow> Some False | _ \<Rightarrow> None))"

definition ids_text :: "json \<Rightarrow> string option" where
  "ids_text ids =
     (case ids of
        JArr xs \<Rightarrow> Some (join '','' (map py_str xs))
      | JObj d \<Rightarrow> Some (join '','' (dict_keys d))
      | JStr s \<Rightarrow> Some (join '','' (map (\<lambda>c. [c]) s))
      | _ \<Rightarrow> None)"

definition jwt_headers :: "(int, string) dict \<Rightarrow> AuthClaims \<Rightarrow> (string, string) dict option" where
  "jwt_headers names cl =
     (case (cl_token_type cl, ids_text (cl_permission_ids cl)) of
        (JStr ty, Some ids) \<Rightarrow>
          let hs = (if truthy (cl_user_id cl) then [(''X-User-ID'', py_str (cl_user_id cl))] else []);
              hs = dict_set ''X-Permission-IDS'' (''['' @ ids @ '']'') (dict_set ''X-Auth-Type'' ty (dict_set ''X-Tier-ID'' [] hs))
          in Some (if truthy (cl_tenant_id cl) then tenant_headers names (cl_tenant_id cl) hs else hs)
      | _ \<Rightarrow> None)"

definition validate_jwt :: "JwtLib \<Rightarrow> Env \<Rightarrow> string \<Rightarrow> Request \<Rightarrow> Gateway \<Rightarrow> answer \<times> Gateway" where
  "validate_jwt lib env token rq gw =
     (case verify lib (en_now env) token (gw_verifier gw) of
        (Inl _, vf) \<Rightarrow> (unauthenticated, gw\<lparr>gw_verifier := vf\<rparr>)
      | (Inr cl, vf) \<Rightarrow>
          let gw = gw\<lparr>gw_verifier := vf\<rparr>
          in case check_token_revocation env cl gw of
               None \<Rightarrow> (Crash, gw)
             | Some True \<Rightarrow> (unauthenticated, gw)
             | Some False \<Rightarrow>
                 (case required_endpoint_permission rq gw of (looked, gw') \<Rightarrow>
                    (case claims_permit looked (cl_permission_ids cl) of
                       None \<Rightarrow> Crash
                     | Some False \<Rightarrow> Deny 403 ''INSUFFICIENT_PERMISSIONS''
                     | Some True \<Rightarrow> (case jwt_headers (gw_tenant_names gw') cl of None \<Rightarrow> Crash | Some hs \<Rightarrow> Admit hs), gw')))"

section \<open>The endpoint\<close>

definition validate_token :: "JwtLib \<Rightarrow> Settings \<Rightarrow> Providers \<Rightarrow> Env \<Rightarrow> Request \<Rightarrow> Gateway \<Rightarrow> answer \<times> Gateway" where
  "validate_token lib cfg pv env rq gw =
     (let token = extract_token rq
      in if token = [] then validate_anonymous rq gw
         else if is_jwt_strict lib token then validate_jwt lib env token rq gw
         else validate_api_key_branch cfg pv env token rq gw)"

section \<open>Issuing tokens\<close>

text \<open>
  \<open>_create_token\<close> and \<open>create_access_token\<close>; \<open>jwt.encode\<close> turns the moments \<open>iat\<close> and \<open>exp\<close> into whole
  seconds.
\<close>

record TokenSettings =
  ts_jwt_issuer :: string
  ts_jwt_audience :: "string option"
  ts_access_token_expire_minutes :: int

definition base_claims :: "TokenSettings \<Rightarrow> datetime \<Rightarrow> string \<Rightarrow> string \<Rightarrow> row" where
  "base_claims cfg now jti kid =
     [(''iss'', JStr (ts_jwt_issuer cfg)), (''iat'', JInt (now div US_PER_SECOND)), (''jti'', JStr jti), (''kid'', JStr kid)]
     @ (case ts_jwt_audience cfg of None \<Rightarrow> [] | Some a \<Rightarrow> if a = [] then [] else [(''aud'', JStr a)])"

definition token_payload :: "TokenSettings \<Rightarrow> datetime \<Rightarrow> string \<Rightarrow> string \<Rightarrow> string \<Rightarrow> string \<Rightarrow> int \<Rightarrow> row \<Rightarrow> row" where
  "token_payload cfg now jti kid token_type sub minutes extra =
     fold (\<lambda>(k, v). dict_set k v) extra
       (dict_set ''exp'' (JInt ((now + minutes * 60 * US_PER_SECOND) div US_PER_SECOND))
         (dict_set ''type'' (JStr token_type) (dict_set ''sub'' (JStr sub) (base_claims cfg now jti kid))))"

definition access_payload :: "TokenSettings \<Rightarrow> datetime \<Rightarrow> string \<Rightarrow> string \<Rightarrow> string \<Rightarrow> string option \<Rightarrow> int list \<Rightarrow> row" where
  "access_payload cfg now jti kid user_id tenant_id permission_ids =
     token_payload cfg now jti kid ''access_token'' user_id (ts_access_token_expire_minutes cfg)
       [(''tenant_id'', case tenant_id of None \<Rightarrow> JNull | Some t \<Rightarrow> JStr t), (''permission_ids'', JArr (map JInt permission_ids))]"

definition create_access_token :: "JwtLib \<Rightarrow> TokenSettings \<Rightarrow> datetime \<Rightarrow> string \<Rightarrow> string \<Rightarrow> string \<Rightarrow> string \<Rightarrow> string option \<Rightarrow> int list \<Rightarrow> string" where
  "create_access_token lib cfg now jti kid private_pem user_id tenant_id permission_ids =
     jl_encode lib (access_payload cfg now jti kid user_id tenant_id permission_ids) private_pem kid"

section \<open>Internal endpoints\<close>

text \<open>
  The calls of the billing consumer and the scheduler.  A path parameter that is not a number is a bad
  request; the rest is the service's operation.
\<close>

definition with_id :: "string \<Rightarrow> (int \<Rightarrow> AuthState \<Rightarrow> unit outcome) \<Rightarrow> AuthState \<Rightarrow> unit outcome" where
  "with_id raw f s = (case int_of_str raw of None \<Rightarrow> (Inl (Http 400 []), s) | Some i \<Rightarrow> f i s)"

definition set_api_key_budget_exhausted :: "Env \<Rightarrow> string \<Rightarrow> bool \<Rightarrow> AuthState \<Rightarrow> unit outcome" where
  "set_api_key_budget_exhausted env api_key_id exhausted s =
     with_id api_key_id (\<lambda>i. set_budget_exhausted_for_key env i exhausted) s"

definition set_budget_exhausted_deprecated_tenant_scoped :: "Env \<Rightarrow> string \<Rightarrow> bool \<Rightarrow> AuthState \<Rightarrow> unit outcome" where
  "set_budget_exhausted_deprecated_tenant_scoped env tenant_id exhausted s =
     with_id tenant_id (\<lambda>i. set_budget_exhausted_for_tenant env i exhausted) s"

definition set_quota_exhausted :: "Env \<Rightarrow> string \<Rightarrow> string \<Rightarrow> AuthState \<Rightarrow> unit outcome" where
  "set_quota_exhausted env tenant_id inference_name s =
     with_id tenant_id (\<lambda>i. set_quota_exhausted_for_tenant env i inference_name) s"

definition reset_monthly_quota :: "Env \<Rightarrow> string list \<Rightarrow> AuthState \<Rightarrow> unit outcome" where
  "reset_monthly_quota env catalogue s = reset_all_quota_fields env catalogue s"

definition reset_tenant_quota :: "Env \<Rightarrow> string list \<Rightarrow> string \<Rightarrow> AuthState \<Rightarrow> unit outcome" where
  "reset_tenant_quota env catalogue tenant_id s = with_id tenant_id (clear_quota_flags_for_tenant env catalogue) s"

fun notify_tier_reactivated :: "Env \<Rightarrow> string list \<Rightarrow> int list \<Rightarrow> AuthState \<Rightarrow> unit outcome" where
  "notify_tier_reactivated env catalogue [] s = (Inr (), s)"
| "notify_tier_reactivated env catalogue (t # ts) s =
     (case clear_quota_flags_for_tenant env catalogue t s of
        (Inl e, s') \<Rightarrow> (Inl e, s')
      | (Inr _, s') \<Rightarrow> notify_tier_reactivated env catalogue ts s')"

end
