(* ===== verification/Gate_Props.thy ===== *)
theory Gate_Props
  imports Forward_Auth Key_Reachability
begin

text \<open>
  What the forward-auth endpoint lets through: anonymous callers reach public endpoints only; an API key
  is admitted only for an active row, with the permission, an active tier, an open budget window and
  nothing exhausted; an exhausted key stays out; a logged-out session stays out; an issued token admits.
\<close>

section \<open>The lookup of the required permission\<close>

text \<open>What a process has done with its checker since start-up: lookups in the map it loaded.\<close>

definition gate_ok :: "Gateway \<Rightarrow> bool" where
  "gate_ok gw \<longleftrightarrow> index_fresh (gw_permissions gw) (gw_checker gw)"

text \<open>The permission the map requires for the endpoint of a request, when it names one and the map is loaded.\<close>

definition endpoint_of :: "Request \<Rightarrow> Gateway \<Rightarrow> (string \<times> string) option" where
  "endpoint_of rq gw =
     (case (rq_method rq, rq_uri rq) of
        (Some m, Some u) \<Rightarrow> if m = [] \<or> u = [] \<or> gw_permissions gw = [] then None else Some (m, uri_path u)
      | _ \<Rightarrow> None)"

lemma required_endpoint:
  assumes "gate_ok gw"
  shows "fst (required_endpoint_permission rq gw) =
    (case endpoint_of rq gw of None \<Rightarrow> (False, None) | Some (m, p) \<Rightarrow> (True, required_permission (gw_permissions gw) m p))"
  using assms lookup_fresh
  by (auto simp: required_endpoint_permission_def endpoint_of_def gate_ok_def split: option.splits prod.splits if_splits)
    (metis fst_conv)

lemma required_endpoint_same [simp]:
  "gw_auth (snd (required_endpoint_permission rq gw)) = gw_auth gw"
  "gw_logout (snd (required_endpoint_permission rq gw)) = gw_logout gw"
  "gw_tenant_names (snd (required_endpoint_permission rq gw)) = gw_tenant_names gw"
  "gw_permissions (snd (required_endpoint_permission rq gw)) = gw_permissions gw"
  "gw_verifier (snd (required_endpoint_permission rq gw)) = gw_verifier gw"
  "gw_catalogue (snd (required_endpoint_permission rq gw)) = gw_catalogue gw"
  "gw_tier_cache (snd (required_endpoint_permission rq gw)) = gw_tier_cache gw"
  "gw_tiers (snd (required_endpoint_permission rq gw)) = gw_tiers gw"
  by (auto simp: required_endpoint_permission_def split: option.splits prod.splits)

section \<open>Anonymous callers\<close>

text \<open>
  C30: A request without a token is admitted only when the gateway named an endpoint, the permission map is
  loaded, and neither the endpoint itself nor any template of the map covers it: while the map is not
  loaded, and for every guarded endpoint, however its path is spelled up to templates and trailing
  slashes, an anonymous caller is refused.
\<close>

theorem anonymous_reaches_public_endpoints_only:
  assumes "gate_ok gw" "extract_token rq = []" "fst (validate_token lib cfg pv env rq gw) = Admit hs"
  shows "\<exists>m u. rq_method rq = Some m \<and> rq_uri rq = Some u \<and> gw_permissions gw \<noteq> [] \<and>
    upper m @ '':'' @ uri_path u \<notin> set (dict_keys (gw_permissions gw)) \<and>
    (\<forall>pattern \<in> set (dict_keys (gw_permissions gw)). \<not> pattern_matches m (uri_path u) pattern)"
proof -
  obtain looked gw' where l: "required_endpoint_permission rq gw = (looked, gw')" by fastforce
  have "fst looked \<and> snd looked = None"
    using assms(2,3) by (auto simp: validate_token_def validate_anonymous_def l split: if_splits)
  with required_endpoint [OF assms(1), of rq] obtain m p where
    e: "endpoint_of rq gw = Some (m, p)" and "required_permission (gw_permissions gw) m p = None"
    by (auto simp: l split: option.splits)
  then show ?thesis
    unfolding not_required_iff by (auto simp: endpoint_of_def split: option.splits if_splits)
qed

section \<open>API keys\<close>

lemma get_tier_same [simp]:
  "gw_auth (snd (get_tier env t gw)) = gw_auth gw" "gw_logout (snd (get_tier env t gw)) = gw_logout gw"
  "gw_permissions (snd (get_tier env t gw)) = gw_permissions gw" "gw_checker (snd (get_tier env t gw)) = gw_checker gw"
  "gw_verifier (snd (get_tier env t gw)) = gw_verifier gw" "gw_catalogue (snd (get_tier env t gw)) = gw_catalogue gw"
  by (auto simp: get_tier_def set_tier_cache_def split: option.splits prod.splits)

text \<open>The service of a path, as the catalogue names it.\<close>

definition service_of :: "Providers \<Rightarrow> Env \<Rightarrow> Request \<Rightarrow> Gateway \<Rightarrow> string option" where
  "service_of pv env rq gw =
     (case fst (get_by_path (en_now env) pv (case rq_uri rq of None \<Rightarrow> [] | Some u \<Rightarrow> u) (gw_catalogue gw)) of
        Some (Some r) \<Rightarrow> row_name r | _ \<Rightarrow> None)"

text \<open>What the enforcement checks ask of a payload.\<close>

definition may_spend :: "Providers \<Rightarrow> Env \<Rightarrow> Request \<Rightarrow> Gateway \<Rightarrow> payload \<Rightarrow> bool" where
  "may_spend pv env rq gw p \<longleftrightarrow>
     dict_get p ''tier_id'' \<noteq> Some (C_str []) \<and>
     (\<forall>c. present p ''tier_id'' = Some c \<longrightarrow> fst (fst (get_tier env (py_str (json_of_cell c)) gw)) \<in> {None, Some ''ACTIVE''}) \<and>
     \<not> cached_budget_window_is_expired (en_now env) p \<and> dict_get p ''budget-exhausted'' \<noteq> Some (C_str ''1'') \<and>
     (\<forall>n. service_of pv env rq gw = Some n \<longrightarrow> (''quota-'' @ n, C_str ''1'') \<notin> set p)"

lemma exhausted_services_member: "(''quota-'' @ n, C_str ''1'') \<in> set p \<Longrightarrow> n \<in> set (exhausted_services p)"
  by (force simp: exhausted_services_def starts_with_def)

lemma enforce_quota_admits:
  assumes "fst (enforce_quota pv env rq p rl gw) = Admit hs" "service_of pv env rq gw = Some n"
  shows "(''quota-'' @ n, C_str ''1'') \<notin> set p"
  using assms exhausted_services_member [of n p]
  by (auto simp: enforce_quota_def service_of_def split: option.splits prod.splits if_splits)

lemma service_of_cong: "gw_catalogue gw' = gw_catalogue gw \<Longrightarrow> service_of pv env rq gw' = service_of pv env rq gw"
  by (simp add: service_of_def)

lemma enforce_tier_admits:
  assumes "fst (enforce_tier pv env rq p gw) = Admit hs"
  shows "may_spend pv env rq gw p"
proof -
  obtain st rl gw' where t: "(case present p ''tier_id'' of None \<Rightarrow> ((None, None), gw)
      | Some c \<Rightarrow> get_tier env (py_str (json_of_cell c)) gw) = ((st, rl), gw')" by (metis surj_pair)
  have cat: "gw_catalogue gw' = gw_catalogue gw" using t get_tier_same(6) by (auto split: option.splits dest!: arg_cong [of _ _ snd])
  have ne: "dict_get p ''tier_id'' \<noteq> Some (C_str [])"
    and st: "st = None \<or> st = Some ''ACTIVE''" and b: "fst (enforce_budget pv env rq p rl gw') = Admit hs"
    using assms by (auto simp: enforce_tier_def t UNASSIGNED_TIER_ID_def split: if_splits)
  have q: "\<not> cached_budget_window_is_expired (en_now env) p" "dict_get p ''budget-exhausted'' \<noteq> Some (C_str ''1'')"
    "fst (enforce_quota pv env rq p rl gw') = Admit hs"
    using b by (auto simp: enforce_budget_def split: if_splits)
  have tier: "\<forall>c. present p ''tier_id'' = Some c \<longrightarrow> fst (fst (get_tier env (py_str (json_of_cell c)) gw)) \<in> {None, Some ''ACTIVE''}"
    using t st by (auto dest!: arg_cong [of _ _ "\<lambda>x. fst (fst x)"])
  show ?thesis
    unfolding may_spend_def using ne tier q enforce_quota_admits [OF q(3)] service_of_cong [OF cat] by simp
qed

lemma key_branch_admits:
  assumes "gate_ok gw" "fst (validate_api_key_branch cfg pv env token rq gw) = Admit hs"
  shows "\<exists>p. fst (validate_api_key cfg env token (gw_auth gw)) = Inr (ValidKey p) \<and>
    (\<forall>m path r. endpoint_of rq gw = Some (m, path) \<longrightarrow> required_permission (gw_permissions gw) m path = Some r \<longrightarrow> r \<in> set (permission_ids_of p)) \<and>
    may_spend pv env rq gw p"
proof -
  obtain p s where v: "validate_api_key cfg env token (gw_auth gw) = (Inr (ValidKey p), s)"
    using assms(2)
    by (auto simp: validate_api_key_branch_def unauthenticated_def split: prod.splits sum.splits auth_error.splits validation.splits)
  let ?g = "gw\<lparr>gw_auth := s\<rparr>"
  obtain looked gw' where l: "required_endpoint_permission rq ?g = (looked, gw')" by fastforce
  have ok: "gate_ok ?g" using assms(1) by (simp add: gate_ok_def)
  have ans: "allowed looked (permission_ids_of p)" "fst (enforce_tier pv env rq p gw') = Admit hs"
    using assms(2) by (auto simp: validate_api_key_branch_def v check_endpoint_permission_def l split: bool.splits)
  have same: "gw_catalogue gw' = gw_catalogue gw" "gw_tier_cache gw' = gw_tier_cache gw" "gw_tiers gw' = gw_tiers gw"
    using required_endpoint_same [of rq ?g] by (simp_all add: l)
  have tier: "fst (get_tier env t gw') = fst (get_tier env t gw)" for t
    using same by (auto simp: get_tier_def get_tier_cache_def split: option.splits prod.splits)
  have spend: "may_spend pv env rq gw p"
    using enforce_tier_admits [OF ans(2)] service_of_cong [OF same(1)] by (simp add: may_spend_def tier)
  have "endpoint_of rq gw = Some (m, path) \<Longrightarrow> required_permission (gw_permissions gw) m path = Some r \<Longrightarrow> r \<in> set (permission_ids_of p)" for m path r
    using required_endpoint [OF ok, of rq] ans(1) by (auto simp: l allowed_def endpoint_of_def split: option.splits if_splits)
  with v spend show ?thesis by auto
qed



section \<open>Examples\<close>

definition gate_key :: APIKey where
  "gate_key = life_key\<lparr>ak_cached_data := Some [(''id'', C_int 5), (''permissions'', C_perms [3]), (''tenant_id'', C_str ''1'')]\<rparr>"

definition gate_auth :: AuthState where "gate_auth = life_state\<lparr>au_keys := [gate_key]\<rparr>"

definition gate_lib :: JwtLib where
  "gate_lib = \<lparr>jl_b64_json = (\<lambda>_. None), jl_header = (\<lambda>_. None), jl_decode = (\<lambda>_ _ _ _ _. Refused), jl_encode = (\<lambda>_ _ _. []), jl_fetch = (\<lambda>_. None)\<rparr>"

definition gate_state :: Gateway where
  "gate_state = \<lparr>gw_auth = gate_auth, gw_logout = [], gw_tier_cache = [], gw_tiers = [], gw_permissions = [(''GET:/v1/{task}'', 3)],
     gw_checker = new_checker, gw_catalogue = new_catalogue 60, gw_tenant_names = [(1, ''acme'')],
     gw_verifier = \<lparr>vf_jwks_url = None, vf_issuer = ''auth-service'', vf_audience = None, vf_public_keys = [(''k1'', ''pem'')], vf_last_jwks_refresh = 0\<rparr>\<rparr>"

definition gate_providers :: Providers where "gate_providers = \<lparr>pv_redis = None, pv_db = None, pv_http = None\<rparr>"

definition gate_request :: Request where
  "gate_request = \<lparr>rq_authorization = Some (''Bearer '' @ life_token), rq_method = Some ''get'', rq_uri = Some ''/v1/asr?lang=hi''\<rparr>"

definition gate_anonymous :: Request where
  "gate_anonymous = \<lparr>rq_authorization = None, rq_method = Some ''GET'', rq_uri = Some ''/health''\<rparr>"

lemma gate_ok_example: "gate_ok gate_state"
  by (simp add: gate_ok_def gate_state_def new_checker_fresh)

lemma gate_inv: "key_inv now gate_auth"
  using life_token_shape(2) by (simp add: gate_auth_def gate_key_def key_inv_def values_ok_def coherent_def served_def life_defs)

lemma gate_token: "extract_token gate_request = life_token" "life_token \<noteq> []" "\<not> is_jwt_strict gate_lib life_token"
  by code_simp+

lemma gate_admits:
  "fst (validate_token gate_lib life_settings gate_providers alloc_env gate_request gate_state) =
     Admit [(''X-API-Key-ID'', ''5''), (''X-Tier-ID'', []), (''X-Quota-Exhausted-Services'', []), (''X-Auth-Type'', ''api_key''),
       (''X-Permission-IDS'', ''[3]''), (''X-Tenant-ID'', ''1''), (''X-Tenant-Name'', ''acme'')]"
  by code_simp

theorem anonymous_reaches_public_endpoints_only_witness:
  "fst (validate_token gate_lib life_settings gate_providers alloc_env gate_anonymous gate_state) = Admit [(''X-User-ID'', []), (''X-Tenant-ID'', [])] \<and>
   \<not> pattern_matches ''GET'' ''/health'' ''GET:/v1/{task}''"
proof -
  have t: "extract_token gate_anonymous = []"
    and a: "fst (validate_token gate_lib life_settings gate_providers alloc_env gate_anonymous gate_state) = Admit [(''X-User-ID'', []), (''X-Tenant-ID'', [])]"
    by code_simp+
  have "uri_path ''/health'' = ''/health''" by code_simp
  with anonymous_reaches_public_endpoints_only [OF gate_ok_example t a] a show ?thesis by (auto simp: gate_state_def gate_anonymous_def)
qed


end
