(* ===== verification/Gate_Billing.thy ===== *)
theory Gate_Billing
  imports Gate_Props
begin

text \<open>
  Billing and the gate: once the billing consumer has reported a key as exhausted, no request with that
  key is admitted while only traffic goes on; and the budget window a tenant has is the one the gate
  reads back from the cached payload.
\<close>

section \<open>A flag that holds\<close>

abbreviation BUDGET_FLAG :: string where "BUDGET_FLAG \<equiv> ''budget-exhausted''"

text \<open>The snapshot of the row and every entry that answers for one of its values carry the flag.\<close>

definition stopped :: "datetime \<Rightarrow> int \<Rightarrow> AuthState \<Rightarrow> bool" where
  "stopped now i s \<longleftrightarrow> (\<forall>k \<in> set (au_keys s). ak_id k = i \<longrightarrow>
     (\<exists>d. ak_cached_data k = Some d \<and> distinct (dict_keys d) \<and> dict_get d BUDGET_FLAG = Some (C_str ''1'')) \<and>
     (\<forall>v \<in> key_values k. \<forall>h. redis_get now (au_redis s) (REDIS_API_KEY_PREFIX @ v) = Some h \<longrightarrow> \<not> is_cache_entry_invalid h \<longrightarrow>
        dict_get h BUDGET_FLAG = Some (C_str ''1'')))"

lemma redis_get_later: "now \<le> later \<Longrightarrow> redis_get later r k = Some h \<Longrightarrow> redis_get now r k = Some h"
  by (auto simp: redis_get_def live_def split: option.splits if_splits)

lemma stopped_later:
  assumes "stopped now i s" "now \<le> later"
  shows "stopped later i s"
  unfolding stopped_def
proof (intro ballI impI conjI allI)
  fix k assume k: "k \<in> set (au_keys s)" "ak_id k = i"
  with assms(1) show "\<exists>d. ak_cached_data k = Some d \<and> distinct (dict_keys d) \<and> dict_get d BUDGET_FLAG = Some (C_str ''1'')"
    unfolding stopped_def by blast
  fix v h assume v: "v \<in> key_values k" and h: "redis_get later (au_redis s) (REDIS_API_KEY_PREFIX @ v) = Some h" "\<not> is_cache_entry_invalid h"
  from redis_get_later [OF assms(2) h(1)] assms(1) k v h(2) show "dict_get h BUDGET_FLAG = Some (C_str ''1'')"
    unfolding stopped_def by blast
qed

text \<open>An entry that answers under a value of a row is backed by that row, so its value is a live one.\<close>

lemma served_value_live:
  assumes inv: "key_inv now s" and k: "k \<in> set (au_keys s)" "v \<in> key_values k"
    and h: "redis_get now (au_redis s) (REDIS_API_KEY_PREFIX @ v) = Some h" "\<not> is_cache_entry_invalid h"
  shows "v \<in> set (cache_key_values now k)"
proof -
  obtain e where e: "dict_get (au_redis s) (REDIS_API_KEY_PREFIX @ v) = Some (h, e)" "live now e"
    using h(1) by (auto simp: redis_get_def split: option.splits if_splits)
  then have "served now (au_redis s) v e" using h by (simp add: served_def)
  then obtain x where x: "x \<in> set (au_keys s)" "backs x v e" using inv by (auto simp: key_inv_def coherent_def)
  have ok: "values_ok s" using inv by (simp add: key_inv_def)
  then have "ak_id x = ak_id k" using x k backs_value unfolding values_ok_def by blast
  then have "x = k" using values_ok_row [OF ok x(1) k(1)] by simp
  with served_row [OF x(2) e(2)] show ?thesis by simp
qed

lemma flag_key_stops:
  assumes inv: "key_inv (en_now env) s" and k: "k \<in> set (au_keys s)" "ak_id k = i"
    and run: "set_budget_exhausted_for_key env i True s = (Inr (), s1)"
    and on: "ak_is_active k" "\<not> is_expired (en_now env) k" "ak_cached_data k = Some d" "d \<noteq> []" "distinct (dict_keys d)" "is_int4_id (Some i)"
  shows "stopped (en_now env) i s1" "en_redis env"
proof -
  let ?now = "en_now env"
  have ok: "values_ok s" using inv by (simp add: key_inv_def)
  have "key_by_id s i = Some k"
  proof -
    have "distinct (map ak_id (au_keys s))" using ok by (simp add: values_ok_def)
    from find_distinct [OF this k(1)] have "find (\<lambda>k. ak_id k = i) (au_keys s) = Some k" by (simp add: k(2))
    then show ?thesis using on(6) by (simp add: key_by_id_def)
  qed
  with run on have redis: "en_redis env"
    and s1: "s1 = update_key i (\<lambda>k. k\<lparr>ak_cached_data := map_option (dict_set BUDGET_FLAG (C_str (flag True))) (ak_cached_data k)\<rparr>)
       (s\<lparr>au_redis := fold (\<lambda>value. patch_api_key_cache_field ?now value BUDGET_FLAG (flag True)) (cache_key_values ?now k) (au_redis s)\<rparr>)"
    by (auto simp: set_budget_exhausted_for_key_def Let_def split: if_splits)
  show "en_redis env" by (rule redis)
  show "stopped ?now i s1" unfolding stopped_def
  proof (intro ballI impI)
    fix x assume x: "x \<in> set (au_keys s1)" "ak_id x = i"
    then obtain y where y: "y \<in> set (au_keys s)" "ak_id y = i"
      "x = y\<lparr>ak_cached_data := map_option (dict_set BUDGET_FLAG (C_str (flag True))) (ak_cached_data y)\<rparr>"
      by (auto simp: s1 split: if_splits)
    have "y = k" using values_ok_row [OF ok y(1) k(1)] y(2) k(2) by simp
    have vals: "key_values x = key_values k" by (simp add: y(3) \<open>y = k\<close> key_values_def)
    have "\<exists>d. ak_cached_data x = Some d \<and> distinct (dict_keys d) \<and> dict_get d BUDGET_FLAG = Some (C_str ''1'')"
      using on(5) by (simp add: y(3) \<open>y = k\<close> on(3) flag_def)
    moreover have "dict_get h BUDGET_FLAG = Some (C_str ''1'')"
      if v: "v \<in> key_values x" and h: "redis_get ?now (au_redis s1) (REDIS_API_KEY_PREFIX @ v) = Some h" "\<not> is_cache_entry_invalid h" for v h
    proof -
      have r: "au_redis s1 = fold (\<lambda>value. patch_api_key_cache_field ?now value BUDGET_FLAG (flag True)) (cache_key_values ?now k) (au_redis s)"
        by (simp add: s1)
      have mem: "REDIS_API_KEY_PREFIX @ v \<in> (@) REDIS_API_KEY_PREFIX ` set vs \<longleftrightarrow> v \<in> set vs" for vs by (simp add: image_iff)
      show ?thesis
      proof (cases "v \<in> set (cache_key_values ?now k)")
        case True
        with h(1) show ?thesis
          unfolding r redis_get_def dict_get_patches mem by (auto simp: flag_entry_def flag_def split: option.splits if_splits)
      next
        case False
        then have "redis_get ?now (au_redis s) (REDIS_API_KEY_PREFIX @ v) = Some h"
          using h(1) unfolding r redis_get_def dict_get_patches mem by simp
        then show ?thesis using served_value_live [OF inv k(1) _ _ h(2), of v] v vals False by simp
      qed
    qed
    ultimately show "(\<exists>d. ak_cached_data x = Some d \<and> distinct (dict_keys d) \<and> dict_get d BUDGET_FLAG = Some (C_str ''1'')) \<and>
       (\<forall>v \<in> key_values x. \<forall>h. redis_get ?now (au_redis s1) (REDIS_API_KEY_PREFIX @ v) = Some h \<longrightarrow> \<not> is_cache_entry_invalid h \<longrightarrow>
          dict_get h BUDGET_FLAG = Some (C_str ''1''))" by blast
  qed
qed

section \<open>Traffic\<close>

text \<open>Time passes and tokens are validated, whichever and by whomever.\<close>

inductive traffic :: "Settings \<Rightarrow> datetime \<times> AuthState \<Rightarrow> datetime \<times> AuthState \<Rightarrow> bool" for cfg :: Settings where
  tick: "now \<le> later \<Longrightarrow> traffic cfg (now, s) (later, s)"
| request: "en_redis env \<Longrightarrow> traffic cfg (en_now env, s) (en_now env, snd (validate_api_key cfg env token s))"

lemma traffic_key_step: "traffic cfg st st' \<Longrightarrow> key_step cfg ps st st'"
  by (induction rule: traffic.induct) (auto intro: key_step.intros)

lemma set_cache_other:
  "w \<noteq> v \<Longrightarrow> redis_get now (set_api_key_cache now v ttl data r) (REDIS_API_KEY_PREFIX @ w) = redis_get now r (REDIS_API_KEY_PREFIX @ w)"
  by (simp add: set_api_key_cache_def redis_get_def redis_setex_def Let_def)

lemma fold_cells_get:
  "dict_get (fold (\<lambda>(k, v). dict_set k (cell_text v)) data old) f =
     (case dict_get (rev data) f of Some c \<Rightarrow> Some (cell_text c) | None \<Rightarrow> dict_get old f)"
  by (induction data arbitrary: old) (auto simp: map_add_def split: option.splits)

lemma dict_get_rev: "distinct (dict_keys d) \<Longrightarrow> dict_get (rev d) f = dict_get d f"
proof (cases "dict_get d f")
  case None
  then have "f \<notin> fst ` set (rev d)" by (simp add: map_of_eq_None_iff)
  then have "dict_get (rev d) f = None" by (simp only: map_of_eq_None_iff simp_thms)
  with None show "dict_get (rev d) f = dict_get d f" by simp
next
  case (Some v)
  assume dist: "distinct (dict_keys d)"
  then have "distinct (dict_keys (rev d))" by (simp add: rev_map [symmetric])
  with Some dist show "dict_get (rev d) f = dict_get d f" by (simp add: map_of_eq_Some_iff)
qed

lemma dict_get_filter_other: "f \<noteq> x \<Longrightarrow> dict_get (filter (\<lambda>(k, _). k \<noteq> x) d) f = dict_get d f"
  by (induction d) auto

lemma set_cache_flag:
  assumes h: "redis_get now (set_api_key_cache now v ttl data r) (REDIS_API_KEY_PREFIX @ v) = Some h"
    and data: "distinct (dict_keys data)" "dict_get data BUDGET_FLAG = Some (C_str ''1'')"
  shows "dict_get h BUDGET_FLAG = Some (C_str ''1'')"
proof -
  let ?fold = "\<lambda>old. fold (\<lambda>(k, v). dict_set k (cell_text v)) data old"
  have flag: "dict_get (?fold old) BUDGET_FLAG = Some (C_str ''1'')" for old
    unfolding fold_cells_get dict_get_rev [OF data(1)] data(2) by (simp add: cell_text_def)
  from h obtain old where "h = ?fold old \<or> h = filter (\<lambda>(k, _). k \<noteq> ''is_already_invalid'') (?fold old)"
    by (auto simp: set_api_key_cache_def redis_get_def redis_setex_def Let_def split: if_splits)
  with flag [of old] show ?thesis by (auto simp: dict_get_filter_other)
qed

text \<open>Validating keeps the rows, and writes one entry at most: the snapshot of the row it found, or a tombstone.\<close>

lemma validate_effect:
  "snd (validate_api_key cfg env token s) = s \<or>
   (\<exists>ttl. snd (validate_api_key cfg env token s) =
      s\<lparr>au_redis := set_api_key_cache (en_now env) token ttl [(''is_already_invalid'', C_str ''1'')] (au_redis s)\<rparr>) \<or>
   (\<exists>k d ttl. get_by_api_key_if_valid (en_now env) s token = Inr (Some k) \<and> ak_cached_data k = Some d \<and> token \<noteq> [] \<and>
      snd (validate_api_key cfg env token s) = s\<lparr>au_redis := set_api_key_cache (en_now env) token ttl d (au_redis s)\<rparr>)"
proof (cases "is_api_key token \<and> en_redis env \<and> get_api_key_cache (en_now env) (au_redis s) token = None")
  case False
  then have "snd (validate_api_key cfg env token s) = s" by (auto simp: validate_api_key_def split: option.split)
  then show ?thesis by simp
next
  case True
  then have t: "token \<noteq> []" by (auto simp: is_api_key_def)
  have run: "snd (validate_api_key cfg env token s) = snd (resolve_from_db_or_tombstone cfg (en_now env) token s)"
    using True by (auto simp: validate_api_key_def split: prod.split sum.split)
  show ?thesis
  proof (cases "get_by_api_key_if_valid (en_now env) s token")
    case (Inl e)
    with run show ?thesis by (simp add: resolve_from_db_or_tombstone_def)
  next
    case (Inr found)
    then show ?thesis
    proof (cases found)
      case None
      with Inr run show ?thesis by (auto simp: resolve_from_db_or_tombstone_def tombstone_invalid_token_def)
    next
      case (Some k)
      show ?thesis
      proof (cases "is_key_eligible s k")
        case False
        with Inr Some run show ?thesis by (auto simp: resolve_from_db_or_tombstone_def tombstone_invalid_token_def)
      next
        case True
        with Inr Some run t show ?thesis
          by (auto simp: resolve_from_db_or_tombstone_def rehydrate_cache_from_db_def split: option.splits)
      qed
    qed
  qed
qed

lemma validate_rows: "au_keys (snd (validate_api_key cfg env token s)) = au_keys s"
  using validate_effect [of cfg env token s] by auto

lemma validate_stopped:
  assumes inv: "key_inv (en_now env) s" and st: "stopped (en_now env) i s"
  shows "stopped (en_now env) i (snd (validate_api_key cfg env token s))"
proof -
  let ?now = "en_now env" and ?s = "snd (validate_api_key cfg env token s)"
  have ok: "values_ok s" using inv by (simp add: key_inv_def)
  have keys: "au_keys ?s = au_keys s" by (rule validate_rows)
  have entry: "dict_get h BUDGET_FLAG = Some (C_str ''1'')"
    if k: "k \<in> set (au_keys s)" "ak_id k = i" and v: "v \<in> key_values k"
      and h: "redis_get ?now (au_redis ?s) (REDIS_API_KEY_PREFIX @ v) = Some h" "\<not> is_cache_entry_invalid h" for k v h
  proof (cases "redis_get ?now (au_redis s) (REDIS_API_KEY_PREFIX @ v) = Some h")
    case True
    with st k v h(2) show ?thesis unfolding stopped_def by blast
  next
    case False
    with validate_effect [of cfg env token s] h consider
      (tomb) ttl where "?s = s\<lparr>au_redis := set_api_key_cache ?now token ttl [(''is_already_invalid'', C_str ''1'')] (au_redis s)\<rparr>"
    | (row) x d ttl where "get_by_api_key_if_valid ?now s token = Inr (Some x)" "ak_cached_data x = Some d" "token \<noteq> []"
        "?s = s\<lparr>au_redis := set_api_key_cache ?now token ttl d (au_redis s)\<rparr>" by auto
    then show ?thesis
    proof cases
      case (tomb ttl)
      have "v = token"
      proof (rule ccontr)
        assume "v \<noteq> token"
        with tomb h(1) False show False by (simp add: set_cache_other)
      qed
      then obtain e where "served ?now (set_api_key_cache ?now token ttl [(''is_already_invalid'', C_str ''1'')] (au_redis s)) token e"
        using tomb h by (auto simp: served_def redis_get_def split: option.splits if_splits)
      with served_tombstone show ?thesis by blast
    next
      case (row x d ttl)
      have "v = token"
      proof (rule ccontr)
        assume "v \<noteq> token"
        with row(4) h(1) False show False by (simp add: set_cache_other)
      qed
      have x: "x \<in> set (au_keys s)" "token \<in> key_values x"
        using found_row [OF row(1)] found_value [OF row(1,3)] cache_values_subset by blast+
      have "ak_id x = ak_id k" using ok x k(1) v \<open>v = token\<close> unfolding values_ok_def by blast
      then have "x = k" using values_ok_row [OF ok x(1) k(1)] by simp
      with st k row(2) have "distinct (dict_keys d)" "dict_get d BUDGET_FLAG = Some (C_str ''1'')" unfolding stopped_def by auto
      with set_cache_flag [of ?now token ttl d "au_redis s" h] h(1) row(4) \<open>v = token\<close> show ?thesis by simp
    qed
  qed
  show ?thesis
    unfolding stopped_def keys using st entry unfolding stopped_def by blast
qed

lemma traffic_stopped:
  assumes "(traffic cfg)\<^sup>*\<^sup>* st st'" "key_inv (fst st) (snd st)" "stopped (fst st) i (snd st)" "1 \<le> st_api_key_expire_days cfg"
  shows "key_inv (fst st') (snd st') \<and> stopped (fst st') i (snd st') \<and> au_keys (snd st') = au_keys (snd st)"
  using assms(1)
proof induction
  case base
  with assms show ?case by simp
next
  case (step y z)
  have "key_inv (fst z) (snd z)" using key_step_keeps [OF traffic_key_step [OF step.hyps(2)] _ assms(4)] step.IH by blast
  moreover have "stopped (fst z) i (snd z)"
    using step.hyps(2) step.IH by cases (auto intro: stopped_later validate_stopped)
  moreover have "au_keys (snd z) = au_keys (snd y)" using step.hyps(2) by cases (simp_all add: validate_rows)
  ultimately show ?case using step.IH by simp
qed

section \<open>Exhausted keys are refused\<close>

lemma stopped_payload:
  assumes inv: "key_inv (en_now env) s" and st: "stopped (en_now env) i s" and k: "k \<in> set (au_keys s)" "ak_id k = i" "token \<in> key_values k"
    and ans: "fst (validate_api_key cfg env token s) = Inr (ValidKey p)"
  shows "dict_get p BUDGET_FLAG = Some (C_str ''1'')"
proof (cases "get_api_key_cache (en_now env) (au_redis s) token")
  case (Some h)
  with ans have "p = h" "\<not> is_cache_entry_invalid h" by (auto simp: validate_api_key_def split: if_splits)
  moreover from Some have "redis_get (en_now env) (au_redis s) (REDIS_API_KEY_PREFIX @ token) = Some h"
    by (auto simp: get_api_key_cache_def split: option.splits if_splits)
  ultimately show ?thesis using st k unfolding stopped_def by blast
next
  case None
  with ans have tok: "token \<noteq> []" and r: "fst (resolve_from_db_or_tombstone cfg (en_now env) token s) = Inr p"
    by (auto simp: validate_api_key_def is_api_key_def split: if_splits prod.splits sum.splits)
  then obtain x where x: "get_by_api_key_if_valid (en_now env) s token = Inr (Some x)" and d: "ak_cached_data x = Some p"
    by (auto simp: resolve_from_db_or_tombstone_def rehydrate_cache_from_db_def split: sum.splits option.splits if_splits)
  have ok: "values_ok s" using inv by (simp add: key_inv_def)
  have in_s: "x \<in> set (au_keys s)" "token \<in> key_values x"
    using found_row [OF x] found_value [OF x tok] cache_values_subset by blast+
  then have "ak_id x = ak_id k" using ok k unfolding values_ok_def by blast
  then have "x = k" using values_ok_row [OF ok in_s(1) k(1)] by simp
  with st k d show ?thesis unfolding stopped_def by auto
qed

lemma stopped_is_refused:
  assumes "key_inv (en_now env) (gw_auth gw)" "stopped (en_now env) i (gw_auth gw)"
    and "k \<in> set (au_keys (gw_auth gw))" "ak_id k = i" "token \<in> key_values k"
    and gate: "gate_ok gw" "extract_token rq = token" "token \<noteq> []" "\<not> is_jwt_strict lib token"
  shows "fst (validate_token lib cfg pv env rq gw) \<noteq> Admit hs"
proof
  assume "fst (validate_token lib cfg pv env rq gw) = Admit hs"
  then have "fst (validate_api_key_branch cfg pv env token rq gw) = Admit hs" using gate(2-4) by (simp add: validate_token_def Let_def)
  from key_branch_admits [OF gate(1) this] obtain p where
    p: "fst (validate_api_key cfg env token (gw_auth gw)) = Inr (ValidKey p)" and "may_spend pv env rq gw p" by blast
  then have "dict_get p BUDGET_FLAG \<noteq> Some (C_str ''1'')" by (simp add: may_spend_def)
  with stopped_payload [OF assms(1-5) p] show False by simp
qed

text \<open>
  Once auth-service has acknowledged the billing consumer's report that a key is exhausted, a request
  that presents any value of this key is refused, from Redis and from the database alike, however many
  tokens are validated in between and however much time passes, until some other operation changes the
  key's state.
\<close>

lemma exhausted_key_is_refused:
  assumes inv: "key_inv (en_now env0) s0" and cfg: "1 \<le> st_api_key_expire_days cfg"
    and k: "k \<in> set (au_keys s0)" "ak_id k = i" "token \<in> key_values k" "is_int4_id (Some i)"
    and on: "ak_is_active k" "\<not> is_expired (en_now env0) k" "ak_cached_data k = Some d" "d \<noteq> []" "distinct (dict_keys d)"
    and flag: "set_api_key_budget_exhausted env0 (show_int i) True s0 = (Inr (), s1)"
    and later: "(traffic cfg)\<^sup>*\<^sup>* (en_now env0, s1) (en_now env, gw_auth gw)"
    and gate: "gate_ok gw" "extract_token rq = token" "token \<noteq> []" "\<not> is_jwt_strict lib token"
  shows "fst (validate_token lib cfg pv env rq gw) \<noteq> Admit hs"
proof -
  have "0 \<le> i" using k(4) by (simp add: is_int4_id_def)
  then have run: "set_budget_exhausted_for_key env0 i True s0 = (Inr (), s1)"
    using flag by (simp add: set_api_key_budget_exhausted_def with_id_def show_int_def)
  note st = flag_key_stops [OF inv k(1,2) run on k(4)]
  have inv1: "key_inv (en_now env0) s1" using flag_key.keeps [OF st(2) inv, of i True] run by simp
  have last: "key_inv (en_now env) (gw_auth gw)" "stopped (en_now env) i (gw_auth gw)" "au_keys (gw_auth gw) = au_keys s1"
    using traffic_stopped [OF later _ _ cfg] inv1 st(1) by simp_all
  have "same_life s0 s1" using flag_key.same [of s0 env0 i True] run by simp
  then obtain k' where "k' \<in> set (au_keys s1)" "life k' = life k" using same_life_row [OF _ k(1)] by blast
  then have k': "k' \<in> set (au_keys (gw_auth gw))" "ak_id k' = i" "token \<in> key_values k'"
    using life_fields [of k' k] key_values_life [of k' k] k last(3) by simp_all
  show ?thesis by (rule stopped_is_refused [OF last(1,2) k' gate])
qed

section \<open>The budget window\<close>

lemma merge_get: "dict_get (merge base over) f = (case dict_get (rev over) f of Some c \<Rightarrow> Some c | None \<Rightarrow> dict_get base f)"
  unfolding merge_def by (induction over arbitrary: base) (auto simp: map_add_def split: option.splits)

text \<open>
  The end of a tenant's budget window survives the cache: written into a key's payload as text and read
  back from the row's snapshot or from the Redis hash, it makes the gate refuse a request exactly when
  the day of the window's end has passed, the comparison the service makes on the tenant row itself.
\<close>

lemma window_survives_cache:
  assumes "pred_option valid_moment effective_to" "''budget_effective_to'' \<notin> set (dict_keys extra)"
  shows "cached_budget_window_is_expired now (build_cache_payload k tenant_id effective_to extra) = is_budget_window_expired now effective_to \<and>
    (\<forall>v ttl r h. redis_get now (set_api_key_cache now v ttl (build_cache_payload k tenant_id effective_to extra) r) (REDIS_API_KEY_PREFIX @ v) = Some h \<longrightarrow>
       cached_budget_window_is_expired now h = is_budget_window_expired now effective_to)"
proof -
  let ?p = "build_cache_payload k tenant_id effective_to extra" and ?f = "''budget_effective_to''"
  let ?t = "C_str (case effective_to of None \<Rightarrow> [] | Some d \<Rightarrow> isoformat d)"
  have "dict_get (rev extra) ?f = None" using assms(2) by (simp add: map_of_eq_None_iff)
  then have get: "dict_get ?p ?f = Some ?t" by (simp add: build_cache_payload_def merge_get)
  have distinct: "distinct (dict_keys ?p)"
  proof -
    have "distinct (dict_keys base) \<Longrightarrow> distinct (dict_keys (merge base over))" for base over :: payload
      unfolding merge_def by (induction over arbitrary: base) auto
    then show ?thesis by (simp add: build_cache_payload_def)
  qed
  have read: "cached_budget_window_is_expired now q = is_budget_window_expired now effective_to" if "dict_get q ?f = Some ?t" for q
    using that assms(1)
    by (cases effective_to) (simp_all add: cached_budget_window_is_expired_def present_def cell_truthy_def is_budget_window_expired_def
        fromisoformat_isoformat)
  have "dict_get h ?f = Some ?t" if h: "redis_get now (set_api_key_cache now v ttl ?p r) (REDIS_API_KEY_PREFIX @ v) = Some h" for v ttl r h
  proof -
    have fold: "dict_get (fold (\<lambda>(k, v). dict_set k (cell_text v)) ?p old) ?f = Some ?t" for old
      unfolding fold_cells_get dict_get_rev [OF distinct] get by (simp add: cell_text_def)
    from h obtain old where "h = fold (\<lambda>(k, v). dict_set k (cell_text v)) ?p old \<or>
        h = filter (\<lambda>(k, _). k \<noteq> ''is_already_invalid'') (fold (\<lambda>(k, v). dict_set k (cell_text v)) ?p old)"
      by (auto simp: set_api_key_cache_def redis_get_def redis_setex_def Let_def split: if_splits)
    with fold [of old] show ?thesis by (auto simp: dict_get_filter_other)
  qed
  with read get show ?thesis by blast
qed

end
