(* ===== verification/Spend_Gate.thy ===== *)
theory Spend_Gate
  imports Handler_Props Gate_Billing
begin

text \<open>
  From a charge to the gate: the billing consumer's calls, as it writes their paths and bodies, reach the
  routes of \<open>routes/internal.py\<close>; a key whose charge reached its ceiling is refused by forward-auth.
\<close>

section \<open>Routes\<close>

text \<open>
  FastAPI's dispatch of the three routes the consumer posts to, behind the prefix \<open>/internal\<close>.  Bodies are
  the JSON booleans and strings the consumer sends; pydantic's conversions of other values are left out,
  such a body is answered as unprocessable.
\<close>

definition ppu_route :: "Auth_Models.Env \<Rightarrow> AuthCall \<Rightarrow> AuthState \<Rightarrow> unit outcome" where
  "ppu_route env c s =
     (case (split_on (CHR ''/'') (ac_path c), ac_body c) of
        ([[], a, b, kind, i, what], JObj body) \<Rightarrow>
          if a \<noteq> ''internal'' \<or> b \<noteq> ''ppu'' \<or> i = [] then (Inl (Http 404 []), s)
          else if kind = ''api-key'' \<and> what = ''budget-exhausted'' then
            (case jget body ''exhausted'' of JBool x \<Rightarrow> set_api_key_budget_exhausted env i x s | _ \<Rightarrow> (Inl (Http 422 []), s))
          else if kind = ''tenant'' \<and> what = ''budget-exhausted'' then
            (case jget body ''exhausted'' of JBool x \<Rightarrow> set_budget_exhausted_deprecated_tenant_scoped env i x s | _ \<Rightarrow> (Inl (Http 422 []), s))
          else if kind = ''tenant'' \<and> what = ''quota-exhausted'' then
            (case jget body ''inference_name'' of JStr n \<Rightarrow> set_quota_exhausted env i n s | _ \<Rightarrow> (Inl (Http 422 []), s))
          else (Inl (Http 404 []), s)
      | _ \<Rightarrow> (Inl (Http 404 []), s))"

lemma split_on_plain: "c \<notin> set x \<Longrightarrow> split_on c x = [x]"
  by (induction x) auto

lemma split_on_first: "c \<notin> set x \<Longrightarrow> split_on c (x @ c # y) = x # split_on c y"
  by (induction x) auto

lemma show_int_plain: "0 \<le> i \<Longrightarrow> CHR ''/'' \<notin> set (show_int i)" "show_int i \<noteq> []"
proof -
  show "CHR ''/'' \<notin> set (show_int i)" if "0 \<le> i"
    using that show_nat_digits [of "nat i"] by (auto simp: show_int_def list_all_iff is_digit_def)
qed (simp add: show_int_def)

text \<open>The path the consumer writes is the path of the route.\<close>

lemma budget_call_routed:
  assumes "0 \<le> i" "ac_path c = ''/internal/ppu/api-key/'' @ show_int i @ ''/budget-exhausted''" "ac_body c = JObj [(''exhausted'', JBool b)]"
  shows "ppu_route env c s = set_api_key_budget_exhausted env (show_int i) b s"
proof -
  have "split_on (CHR ''/'') (ac_path c) = [[], ''internal'', ''ppu'', ''api-key'', show_int i, ''budget-exhausted'']"
    using split_on_first [OF show_int_plain(1) [OF assms(1)], of "''budget-exhausted''"] assms(2)
    by (simp add: split_on_plain)
  then show ?thesis using assms(3) show_int_plain(2) [of i] by (simp add: ppu_route_def jget_def)
qed

section \<open>A charge that reaches the ceiling\<close>

lemma bill_usage_wallet:
  assumes "bill_usage ops env ctx s = (Inr (Some out), s1)" "bc_tier_id ctx = Some t" "t \<noteq> []"
  shows "bo_wallet_exhausted out \<longleftrightarrow> (\<exists>row c. budget_of (pc_db (pu_process s1)) (bc_api_key_id ctx) = Some row \<and> bu_snap row = Some c \<and> c \<le> bu_used row)"
proof -
  obtain pricing type_id p2 wr db1 ok db2 where
    d: "deduct_balance_and_update_quota env (bc_tenant_id ctx) (bc_billing_month ctx) (billed_units ctx pricing) (cost_of ctx pricing)
         (bc_api_key_id ctx) (bc_tier_id ctx) type_id (pc_db (pu_process s)) = Inr (wr, db1)"
    and e: "record_usage_event env (usage_event ctx pricing type_id (billed_units ctx pricing) (cost_of ctx pricing) (llm_cost_of ctx pricing)) db1 = (ok, db2)"
    and p: "pu_process s1 = p2\<lparr>pc_db := db2\<rparr>" and x: "(bo_wallet_exhausted out, bo_quota_exhausted out) = exhaustion_flags wr pricing type_id"
    using assms(1) by (rule bill_usage_Some)
  obtain b q where f: "fused_write (bc_tenant_id ctx) (bc_billing_month ctx) (billed_units ctx pricing) (cost_of ctx pricing)
      (bc_api_key_id ctx) (bc_tier_id ctx) type_id (pc_db (pu_process s)) = Inr ((b, q), db1)"
    and w: "write_result b q (bc_tier_id ctx) = Some wr"
    using d by (auto simp: deduct_balance_and_update_quota_def split: if_splits sum.splits option.splits)
  have "bw_tier_id wr \<noteq> None" "bw_budget_exhausted wr \<longleftrightarrow> (\<exists>row c. b = Some row \<and> bu_snap row = Some c \<and> c \<le> bu_used row)"
    using w assms(2,3) by (auto simp: write_result_def Let_def split: option.splits prod.splits)
  moreover have "budget_of db2 (bc_api_key_id ctx) = b"
    using record_usage_event_budget [OF e] fused_write_spec(2) [OF f, of "bc_api_key_id ctx"] by (simp add: budget_of_def)
  ultimately show ?thesis using x p by (auto simp: exhaustion_flags_def)
qed

lemma handled_calls:
  assumes "get_billing_data msg = Inr (Some data)" "prepare_billing_context env data (pu_process s) = Inr (Some ctx)"
    and "bill_usage ops env ctx s = (Inr (Some out), s1)" "handle_ppu_usage ops svc env msg s = (r, s')"
  shows "pc_db (pu_process s') = pc_db (pu_process s1) \<and> pu_calls s' = pu_calls s @
    post_billing svc (bo_wallet_exhausted out) (bo_quota_exhausted out) (bc_tenant_id ctx) (bc_api_key_id ctx) (pr_task_type (bo_pricing out))"
proof -
  have "jget data ''name'' = JStr AI_INFERENCE_SPAN" using assms(2) by (rule prepare_Some)
  then have "jget data ''name'' \<noteq> JStr REQUEST_SPAN" by (simp add: AI_INFERENCE_SPAN_def REQUEST_SPAN_def)
  then show ?thesis using assms bill_usage_auth [OF assms(3)]
    by (auto simp: handle_ppu_usage_def Let_def update_billing_on_cache_def split: if_splits)
qed


section \<open>Example\<close>

definition spend_ppu :: "unit Ppu" where
  "spend_ppu = ex_ppu\<lparr>pu_process := (pu_process ex_ppu)\<lparr>pc_db := (pc_db (pu_process ex_ppu))\<lparr>db_budget := [(11, \<lparr>bu_used = 90, bu_snap = Some 95\<rparr>)]\<rparr>\<rparr>\<rparr>"

definition spend_auth :: AuthState where "spend_auth = life_state\<lparr>au_keys := [gate_key\<lparr>ak_id := 11\<rparr>]\<rparr>"

lemma spend_inv: "key_inv now spend_auth"
  using life_token_shape(2) by (simp add: spend_auth_def gate_key_def key_inv_def values_ok_def coherent_def served_def life_defs)

lemma spend_run:
  "\<exists>ctx out s1 s' row t. prepare_billing_context ex_cold ex_span (pu_process spend_ppu) = Inr (Some ctx) \<and>
     bill_usage ex_ops ex_cold ctx spend_ppu = (Inr (Some out), s1) \<and> handle_ppu_usage ex_ops ex_svc ex_cold ex_msg spend_ppu = (Inr (), s') \<and>
     budget_of (pc_db (pu_process s')) 11 = Some row \<and> bu_snap row = Some 95 \<and> 95 \<le> bu_used row \<and> bc_api_key_id ctx = 11 \<and> bc_tier_id ctx = Some t \<and> t \<noteq> []"
proof -
  have "case prepare_billing_context ex_cold ex_span (pu_process spend_ppu) of
      Inr (Some ctx) \<Rightarrow> bc_api_key_id ctx = 11 \<and> bc_tier_id ctx = Some ex_tier \<and>
        (case bill_usage ex_ops ex_cold ctx spend_ppu of (Inr (Some out), _) \<Rightarrow> True | _ \<Rightarrow> False)
    | _ \<Rightarrow> False" by code_simp
  then obtain ctx out s1 where c: "prepare_billing_context ex_cold ex_span (pu_process spend_ppu) = Inr (Some ctx)"
    "bc_api_key_id ctx = 11" "bc_tier_id ctx = Some ex_tier" "bill_usage ex_ops ex_cold ctx spend_ppu = (Inr (Some out), s1)"
    by (clarsimp split: sum.splits option.splits prod.splits)
  have "case handle_ppu_usage ex_ops ex_svc ex_cold ex_msg spend_ppu of
      (r, s') \<Rightarrow> r = Inr () \<and> budget_of (pc_db (pu_process s')) 11 = Some \<lparr>bu_used = 98, bu_snap = Some 95\<rparr>" by code_simp
  then obtain s' where h: "handle_ppu_usage ex_ops ex_svc ex_cold ex_msg spend_ppu = (Inr (), s')"
    "budget_of (pc_db (pu_process s')) 11 = Some \<lparr>bu_used = 98, bu_snap = Some 95\<rparr>"
    by (cases "handle_ppu_usage ex_ops ex_svc ex_cold ex_msg spend_ppu") simp
  have "ex_tier \<noteq> []" by code_simp
  with c h show ?thesis by (intro exI conjI) (assumption | simp)+
qed


end
