(* ===== verification/Session_Props.thy ===== *)
theory Session_Props
  imports Gate_Props
begin

text \<open>
  Sessions: an issued access token opens the endpoints its permissions name until it expires, and a
  global logout (\<open>routes/auth.py\<close>, \<open>services/cache_service.py\<close>) closes every token issued in an
  earlier second for good, although its entry in Redis expires.
\<close>

section \<open>Steps\<close>

text \<open>
  Time passes, any request is validated, any user logs out, and the tables change: the keys with their
  cache, the tiers, the names of tenants and the permission map.
\<close>

inductive session_step :: "JwtLib \<Rightarrow> Settings \<Rightarrow> Providers \<Rightarrow> TokenSettings \<Rightarrow> datetime \<times> Gateway \<Rightarrow> datetime \<times> Gateway \<Rightarrow> bool"
  for lib :: JwtLib and cfg :: Settings and pv :: Providers and tcfg :: TokenSettings where
  tick: "now \<le> later \<Longrightarrow> session_step lib cfg pv tcfg (now, gw) (later, gw)"
| request: "session_step lib cfg pv tcfg (en_now env, gw) (en_now env, snd (validate_token lib cfg pv env rq gw))"
| logout: "session_step lib cfg pv tcfg (now, gw) (now, revoke_all_sessions (ts_access_token_expire_minutes tcfg) now user gw)"
| tables: "session_step lib cfg pv tcfg (now, gw)
    (now, gw\<lparr>gw_auth := s, gw_tiers := tiers, gw_tenant_names := names, gw_permissions := perms, gw_checker := pc\<rparr>)"

text \<open>The entry of a logout at \<open>t\<close>, or of a later one: it stays until \<open>t\<close> plus the lifetime of a token.\<close>

definition closed :: "TokenSettings \<Rightarrow> datetime \<Rightarrow> string \<Rightarrow> Gateway \<Rightarrow> bool" where
  "closed tcfg t user gw \<longleftrightarrow>
     (\<exists>ts e. dict_get (gw_logout gw) (REDIS_LOGOUT_PREFIX @ user) = Some (ts, Some e) \<and> t div US_PER_SECOND \<le> ts \<and>
        t + ts_access_token_expire_minutes tcfg * 60 * US_PER_SECOND \<le> e)"

lemma logout_closes: "closed tcfg now user (revoke_all_sessions (ts_access_token_expire_minutes tcfg) now user gw)"
  by (simp add: closed_def revoke_all_sessions_def set_logout_timestamp_def redis_setex_def US_PER_SECOND_def)

lemma validate_keeps_logouts [simp]: "gw_logout (snd (validate_token lib cfg pv env rq gw)) = gw_logout gw"
proof -
  have req: "gw_logout g' = gw_logout g" if "required_endpoint_permission rq g = (l, g')" for l g g'
    using required_endpoint_same(2) [of rq g] that by simp
  have anon: "gw_logout (snd (validate_anonymous rq gw)) = gw_logout gw"
    using required_endpoint_same(2) [of rq gw] by (cases "required_endpoint_permission rq gw") (simp add: validate_anonymous_def)
  have jwt: "gw_logout (snd (validate_jwt lib env tk rq gw)) = gw_logout gw" for tk
  proof (cases "verify lib (en_now env) tk (gw_verifier gw)")
    case (Pair v vf)
    then show ?thesis by (auto simp: validate_jwt_def Let_def dest!: req split: sum.split prod.split option.split bool.split)
  qed
  have quota: "gw_logout (snd (enforce_quota pv env rq p rl g)) = gw_logout g" for p rl g
    by (simp add: enforce_quota_def split: prod.split option.split)
  have budget: "gw_logout (snd (enforce_budget pv env rq p rl g)) = gw_logout g" for p rl g
    by (simp add: enforce_budget_def quota)
  have tier: "gw_logout (snd (enforce_tier pv env rq p g)) = gw_logout g" for p g
  proof -
    obtain st rl g' where t: "(case present p ''tier_id'' of None \<Rightarrow> ((None, None), g)
        | Some c \<Rightarrow> get_tier env (py_str (json_of_cell c)) g) = ((st, rl), g')" by (metis surj_pair)
    then have "gw_logout g' = gw_logout g" using get_tier_same(2) by (auto split: option.splits dest!: arg_cong [of _ _ snd])
    then show ?thesis by (simp add: enforce_tier_def t budget)
  qed
  have key: "gw_logout (snd (validate_api_key_branch cfg pv env tk rq gw)) = gw_logout gw" for tk
  proof (cases "validate_api_key cfg env tk (gw_auth gw)")
    case (Pair v s)
    then show ?thesis
      by (auto simp: validate_api_key_branch_def check_endpoint_permission_def tier dest!: req split: sum.split prod.split auth_error.split validation.split bool.split)
  qed
  show ?thesis by (simp add: validate_token_def Let_def anon jwt key)
qed

lemma session_step_closed:
  assumes "session_step lib cfg pv tcfg st st'" "closed tcfg t user (snd st)" "t \<le> fst st"
  shows "closed tcfg t user (snd st') \<and> t \<le> fst st'"
  using assms(1)
proof cases
  case (logout now gw u)
  have "t div US_PER_SECOND \<le> now div US_PER_SECOND" using assms(3) logout by (simp add: US_PER_SECOND_def zdiv_mono1)
  then show ?thesis using assms(2,3) logout
    by (cases "u = user") (auto simp: closed_def revoke_all_sessions_def set_logout_timestamp_def redis_setex_def US_PER_SECOND_def)
qed (use assms(2,3) in \<open>simp_all add: closed_def\<close>)

lemma session_steps_closed:
  assumes "(session_step lib cfg pv tcfg)\<^sup>*\<^sup>* st st'" "closed tcfg t user (snd st)" "t \<le> fst st"
  shows "closed tcfg t user (snd st') \<and> t \<le> fst st'"
  using assms by (induction rule: rtranclp_induct) (auto dest: session_step_closed)

section \<open>Tokens\<close>

text \<open>
  What PyJWT documents of \<open>decode\<close> for a token: a payload it returns is the one that was encoded, and it
  is returned only before \<open>exp\<close>.
\<close>

definition decodes_to :: "JwtLib \<Rightarrow> string \<Rightarrow> row \<Rightarrow> bool" where
  "decodes_to lib token payload \<longleftrightarrow>
     (\<forall>now pem iss aud q. jl_decode lib now token pem iss aud = Payload q \<longrightarrow>
        q = payload \<and> (\<forall>e. jget payload ''exp'' = JInt e \<longrightarrow> now < e * US_PER_SECOND))"

lemma access_payload_get:
  "jget (access_payload tcfg t jti kid user tenant ids) ''iat'' = JInt (t div US_PER_SECOND)"
  "jget (access_payload tcfg t jti kid user tenant ids) ''sub'' = JStr user"
  "jget (access_payload tcfg t jti kid user tenant ids) ''exp'' =
     JInt ((t + ts_access_token_expire_minutes tcfg * 60 * US_PER_SECOND) div US_PER_SECOND)"
  "jget_default (access_payload tcfg t jti kid user tenant ids) ''type'' d = JStr ''access_token''"
  "jget_default (access_payload tcfg t jti kid user tenant ids) ''permission_ids'' d = JArr (map JInt ids)"
  "jget (access_payload tcfg t jti kid user tenant ids) ''tenant_id'' = (case tenant of None \<Rightarrow> JNull | Some x \<Rightarrow> JStr x)"
  by (simp_all add: access_payload_def token_payload_def base_claims_def jget_def jget_default_def)

lemma access_claims:
  assumes "int_of_str user = None"
  shows "payload_to_claims (access_payload tcfg t jti kid user tenant ids) =
    Some \<lparr>cl_user_id = JStr user, cl_tenant_id = (case tenant of None \<Rightarrow> JNull | Some x \<Rightarrow> JStr x),
      cl_permission_ids = JArr (map JInt ids), cl_token_type = JStr ''access_token'',
      cl_token_id = jget (access_payload tcfg t jti kid user tenant ids) ''token_id'', cl_raw = access_payload tcfg t jti kid user tenant ids\<rparr>"
  using assms by (simp add: payload_to_claims_def access_payload_get py_int_def Let_def)

lemma verify_access:
  assumes "verify lib now token vf = (Inr cl, vf')" "decodes_to lib token payload"
  shows "payload_to_claims payload = Some cl" "jget payload ''exp'' = JInt e \<Longrightarrow> now < e * US_PER_SECOND"
proof -
  from assms(1) obtain pem iss aud q where "jl_decode lib now token pem iss aud = Payload q" "payload_to_claims q = Some cl"
    by (auto simp: verify_def split: if_splits option.splits json.splits prod.splits decoded.splits)
  with assms(2) show "payload_to_claims payload = Some cl" "jget payload ''exp'' = JInt e \<Longrightarrow> now < e * US_PER_SECOND"
    by (auto simp: decodes_to_def)
qed

lemma closed_revokes:
  assumes closed: "closed tcfg t user gw" and later: "t0 div US_PER_SECOND < t div US_PER_SECOND"
    and user: "user \<noteq> []" and live: "en_now env < (t0 + ts_access_token_expire_minutes tcfg * 60 * US_PER_SECOND) div US_PER_SECOND * US_PER_SECOND"
    and cl: "cl_user_id cl = JStr user" "cl_token_type cl = JStr ''access_token''" "jget (cl_raw cl) ''iat'' = JInt (t0 div US_PER_SECOND)"
  shows "check_token_revocation env cl gw \<in> {None, Some True}"
proof -
  from closed obtain ts e where r: "dict_get (gw_logout gw) (REDIS_LOGOUT_PREFIX @ user) = Some (ts, Some e)" "t div US_PER_SECOND \<le> ts"
    "t + ts_access_token_expire_minutes tcfg * 60 * US_PER_SECOND \<le> e" by (auto simp: closed_def)
  have "t div US_PER_SECOND \<le> t0 div US_PER_SECOND" if "t \<le> t0" using that by (simp add: US_PER_SECOND_def zdiv_mono1)
  then have "t0 < t" using later by linarith
  moreover have "x div US_PER_SECOND * US_PER_SECOND \<le> x" for x by (simp add: US_PER_SECOND_def)
  ultimately have "en_now env < e" using live r(3) by (smt (verit))
  then have "get_logout_timestamp (en_now env) user gw = Some ts" using r(1) by (simp add: get_logout_timestamp_def redis_get_def live_def)
  then show ?thesis using cl user later r(2) by (simp add: check_token_revocation_def issued_before_def py_str_def)
qed

text \<open>
  C9: After a global logout, an access token issued in an earlier second is never admitted again, whatever
  requests, logouts and changes of the tables follow: by the time the entry in Redis expires, the token
  has expired, although the lifetimes of both are counted in whole seconds.
\<close>

theorem logged_out_token_is_refused:
  assumes token: "token = create_access_token lib tcfg t0 jti kid pem user tenant ids" "is_jwt_strict lib token"
    and lib: "decodes_to lib token (access_payload tcfg t0 jti kid user tenant ids)"
    and user: "user \<noteq> []" "int_of_str user = None"
    and out: "t0 div US_PER_SECOND < t div US_PER_SECOND" "gw1 = revoke_all_sessions (ts_access_token_expire_minutes tcfg) t user gw0"
    and later: "(session_step lib cfg pv tcfg)\<^sup>*\<^sup>* (t, gw1) (en_now env, gw)"
    and rq: "extract_token rq = token" "token \<noteq> []"
  shows "fst (validate_token lib cfg pv env rq gw) \<noteq> Admit hs"
proof (cases "verify lib (en_now env) token (gw_verifier gw)")
  case (Pair v vf)
  let ?p = "access_payload tcfg t0 jti kid user tenant ids" and ?g = "gw\<lparr>gw_verifier := vf\<rparr>"
  have run: "fst (validate_token lib cfg pv env rq gw) = fst (validate_jwt lib env token rq gw)"
    using rq token(2) by (simp add: validate_token_def Let_def)
  show ?thesis
  proof (cases v)
    case (Inl e)
    then show ?thesis using run Pair by (simp add: validate_jwt_def unauthenticated_def)
  next
    case (Inr cl)
    have "closed tcfg t user gw" using session_steps_closed [OF later] logout_closes [of tcfg t user gw0] out(2) by simp
    then have "closed tcfg t user ?g" by (simp add: closed_def)
    moreover note verify_access [OF Pair [unfolded Inr] lib] access_claims [OF user(2), of tcfg t0 jti kid tenant ids]
    ultimately have "check_token_revocation env cl ?g \<in> {None, Some True}"
      using closed_revokes [of tcfg t user ?g t0 env cl] out(1) user(1) by (auto simp: access_payload_get)
    then show ?thesis using run Pair Inr by (auto simp: validate_jwt_def unauthenticated_def Let_def)
  qed
qed

text \<open>
  What it documents of a fresh token: the header names the key and the algorithm, and before \<open>exp\<close>
  \<open>decode\<close> with the matching key, issuer and audience returns the payload.
\<close>

definition accepts :: "JwtLib \<Rightarrow> string \<Rightarrow> string \<Rightarrow> row \<Rightarrow> string \<Rightarrow> Verifier \<Rightarrow> bool" where
  "accepts lib token kid payload pem vf \<longleftrightarrow>
     (\<exists>header. jl_header lib token = Some header \<and> jget header ''kid'' = JStr kid \<and> jget header ''alg'' = JStr ''RS256'') \<and>
     (\<forall>now e. jget payload ''exp'' = JInt e \<longrightarrow> now < e * US_PER_SECOND \<longrightarrow> jl_decode lib now token pem (vf_issuer vf) (vf_audience vf) = Payload payload)"

lemma verify_accepts:
  assumes "accepts lib token kid payload pem vf" "dict_get (vf_public_keys vf) kid = Some pem" "kid \<noteq> []"
    and "jget payload ''exp'' = JInt e" "now < e * US_PER_SECOND" "payload_to_claims payload = Some cl"
  shows "verify lib now token vf = (Inr cl, vf)"
proof -
  have "vf_public_keys vf \<noteq> []" using assms(2) by auto
  with assms show ?thesis by (auto simp: verify_def accepts_def pem_of_def split: option.splits)
qed


section \<open>Examples\<close>

definition session_settings :: TokenSettings where
  "session_settings = \<lparr>ts_jwt_issuer = ''auth-service'', ts_jwt_audience = None, ts_access_token_expire_minutes = 60\<rparr>"

definition session_user :: string where "session_user = ''8b1c-77''"

definition session_payload :: row where
  "session_payload = access_payload session_settings 0 ''j1'' ''k1'' session_user (Some ''1'') [3]"

text \<open>A library that knows one token.\<close>

definition session_lib :: JwtLib where
  "session_lib = \<lparr>jl_b64_json = (\<lambda>_. Some (JObj [(''alg'', JStr ''RS256'')])),
     jl_header = (\<lambda>_. Some [(''kid'', JStr ''k1''), (''alg'', JStr ''RS256'')]),
     jl_decode = (\<lambda>now _ _ _ _. if now < 3600 * US_PER_SECOND then Payload session_payload else Expired),
     jl_encode = (\<lambda>_ _ _. ''h.p.s''), jl_fetch = (\<lambda>_. None)\<rparr>"

definition session_request :: Request where
  "session_request = gate_request\<lparr>rq_authorization := Some ''Bearer h.p.s''\<rparr>"

definition session_env :: Env where "session_env = alloc_env\<lparr>en_now := 9 * US_PER_SECOND\<rparr>"

definition session_token :: string where
  "session_token = create_access_token session_lib session_settings 0 ''j1'' ''k1'' ''pem'' session_user (Some ''1'') [3]"

lemma session_facts:
  "is_jwt_strict session_lib session_token" "extract_token session_request = session_token" "session_token \<noteq> []"
  "session_user \<noteq> []" "int_of_str session_user = None" "en_redis session_env"
  by code_simp+

lemma session_exp: "jget session_payload ''exp'' = JInt 3600"
  by code_simp

text \<open>A token of the very second of the logout is as good as before: seconds are compared, and with \<open><\<close>.\<close>

lemma same_second_token_survives:
  "dict_get (case fst (validate_token session_lib life_settings gate_providers session_env session_request
     (revoke_all_sessions 60 10 session_user gate_state)) of Admit hs \<Rightarrow> hs | _ \<Rightarrow> []) ''X-User-ID'' = Some session_user"
  by code_simp

theorem logged_out_token_is_refused_witness:
  "\<forall>hs. fst (validate_token session_lib life_settings gate_providers session_env session_request
     (revoke_all_sessions 60 (5 * US_PER_SECOND) session_user gate_state)) \<noteq> Admit hs"
proof
  fix hs
  let ?gw = "revoke_all_sessions (ts_access_token_expire_minutes session_settings) (5 * US_PER_SECOND) session_user gate_state"
  have lib: "decodes_to session_lib session_token session_payload"
    by (simp add: decodes_to_def session_exp) (simp add: session_lib_def)
  have out: "0 div US_PER_SECOND < 5 * US_PER_SECOND div US_PER_SECOND" by (simp add: US_PER_SECOND_def)
  have later: "(session_step session_lib life_settings gate_providers session_settings)\<^sup>*\<^sup>* (5 * US_PER_SECOND, ?gw) (en_now session_env, ?gw)"
    by (rule r_into_rtranclp) (simp add: session_env_def session_step.tick US_PER_SECOND_def)
  from logged_out_token_is_refused [OF session_token_def session_facts(1) lib [unfolded session_payload_def] session_facts(4,5) out refl later session_facts(2,3)]
  show "fst (validate_token session_lib life_settings gate_providers session_env session_request
     (revoke_all_sessions 60 (5 * US_PER_SECOND) session_user gate_state)) \<noteq> Admit hs" by (simp add: session_settings_def)
qed


end
