(* ===== verification/Tenant_Admin.thy ===== *)
theory Tenant_Admin
  imports Allocation Api_Keys
begin

text \<open>
  Administration of tenants (\<open>services/tenant_service.py\<close>, \<open>services/tenant_lifecycle.py\<close>): the status of a
  tenant and what it means for its users and API keys, the tier, the budget and its window, and what a
  revision of the budget pushes to the cached keys afterwards.

  The notification events of these endpoints start in the background after the commit and are left out, as
  is the profile of a tenant.  The service is wired with its key and allocation services.
\<close>

section \<open>Status\<close>

definition ALLOWED_TENANT_STATUS_TRANSITIONS :: "TenantStatus \<Rightarrow> TenantStatus list" where
  "ALLOWED_TENANT_STATUS_TRANSITIONS st =
     (case st of
        PENDING \<Rightarrow> [DEACTIVATED]
      | ACTIVE \<Rightarrow> [SUSPENDED, DEACTIVATED]
      | SUSPENDED \<Rightarrow> [ACTIVE, DEACTIVATED]
      | DEACTIVATED \<Rightarrow> [ACTIVE])"

text \<open>\<open>casefold\<close> of ASCII text is \<open>lower\<close>.\<close>

definition is_default_tenant :: "string \<Rightarrow> Tenant \<Rightarrow> bool" where
  "is_default_tenant default_tenant_org t \<longleftrightarrow> lower (strip (tn_organisation t)) = lower (strip default_tenant_org)"

definition assert_default_tenant_not_targeted :: "string \<Rightarrow> Tenant \<Rightarrow> (auth_error, unit) res" where
  "assert_default_tenant_not_targeted default_tenant_org t =
     guard (\<not> is_default_tenant default_tenant_org t) (Validation ''DEFAULT_ORG_PROTECTED'')"

definition assert_valid_tenant_status_transition :: "TenantStatus \<Rightarrow> TenantStatus \<Rightarrow> (auth_error, unit) res" where
  "assert_valid_tenant_status_transition current target =
     (if current = target then Inl (Validation ''TENANT_STATUS_UNCHANGED'')
      else if target \<in> set (ALLOWED_TENANT_STATUS_TRANSITIONS current) then Inr ()
      else Inl (Validation ''INVALID_TENANT_STATUS_TRANSITION''))"

text \<open>The columns of a user that the status of its tenant touches.\<close>

record TenantUser =
  tu_id :: string
  tu_tenant_id :: "int option"
  tu_is_delete :: bool
  tu_activated_at :: "datetime option"
  tu_is_tenant_active :: bool
  tu_updated_by :: "string option"

definition lock_tenant_users_for_status :: "int \<Rightarrow> string \<Rightarrow> TenantUser list \<Rightarrow> TenantUser list" where
  "lock_tenant_users_for_status tenant_id by_user us =
     map (\<lambda>u. if tu_tenant_id u = Some tenant_id \<and> \<not> tu_is_delete u \<and> tu_activated_at u \<noteq> None
              then u\<lparr>tu_is_tenant_active := False, tu_updated_by := Some by_user\<rparr> else u) us"

definition unlock_tenant_users_for_status :: "int \<Rightarrow> string \<Rightarrow> TenantUser list \<Rightarrow> TenantUser list" where
  "unlock_tenant_users_for_status tenant_id by_user us =
     map (\<lambda>u. if tu_tenant_id u = Some tenant_id \<and> \<not> tu_is_delete u
              then u\<lparr>tu_is_tenant_active := True, tu_updated_by := Some by_user\<rparr> else u) us"

definition sync_tenant_users_for_status :: "int \<Rightarrow> TenantStatus \<Rightarrow> string \<Rightarrow> TenantUser list \<Rightarrow> TenantUser list" where
  "sync_tenant_users_for_status tenant_id st by_user us =
     (case st of
        ACTIVE \<Rightarrow> unlock_tenant_users_for_status tenant_id by_user us
      | SUSPENDED \<Rightarrow> lock_tenant_users_for_status tenant_id by_user us
      | DEACTIVATED \<Rightarrow> lock_tenant_users_for_status tenant_id by_user us
      | PENDING \<Rightarrow> us)"

definition update_tenant :: "int \<Rightarrow> (Tenant \<Rightarrow> Tenant) \<Rightarrow> AuthState \<Rightarrow> AuthState" where
  "update_tenant i f s = s\<lparr>au_tenants := map (\<lambda>t. if tn_id t = i then f t else t) (au_tenants s)\<rparr>"

definition only_admin :: "AuthState \<Rightarrow> User \<Rightarrow> (auth_error, unit) res" where
  "only_admin s user = guard (ROLE_ADMIN \<in> set (get_user_roles s (us_id user))) (Http 403 ''INSUFFICIENT_PERMISSIONS'')"

definition load_tenant_or_404 :: "AuthState \<Rightarrow> int \<Rightarrow> (auth_error, Tenant) res" where
  "load_tenant_or_404 s i = (case tenant_by_id s i of None \<Rightarrow> Inl EntityNotFound | Some t \<Rightarrow> Inr t)"

definition check_status_change :: "string \<Rightarrow> User \<Rightarrow> int \<Rightarrow> TenantStatus \<Rightarrow> AuthState \<Rightarrow> (auth_error, Tenant) res" where
  "check_status_change org user tenant_id st s =
     rbind (only_admin s user) (\<lambda>_.
     rbind (load_tenant_or_404 s tenant_id) (\<lambda>t.
     rbind (if st \<noteq> ACTIVE then assert_default_tenant_not_targeted org t else Inr ()) (\<lambda>_.
     rbind (assert_valid_tenant_status_transition (tn_status t) st) (\<lambda>_. Inr t))))"

text \<open>Users and tenant are committed together; the keys follow, and what fails there leaves the status changed.\<close>

definition keys_follow_status :: "Settings \<Rightarrow> Env \<Rightarrow> int \<Rightarrow> TenantStatus \<Rightarrow> AuthState \<Rightarrow> unit outcome" where
  "keys_follow_status cfg env tenant_id st s =
     (case st of
        SUSPENDED \<Rightarrow> evict_keys_for_tenant env tenant_id s
      | DEACTIVATED \<Rightarrow> revoke_keys_for_tenant env tenant_id s
      | ACTIVE \<Rightarrow> refresh_keys_cache_for_tenant cfg env tenant_id s
      | PENDING \<Rightarrow> (Inr (), s))"

definition update_tenant_status ::
  "string \<Rightarrow> Settings \<Rightarrow> Env \<Rightarrow> User \<Rightarrow> int \<Rightarrow> TenantStatus \<Rightarrow> TenantUser list \<Rightarrow> AuthState \<Rightarrow> unit outcome \<times> TenantUser list" where
  "update_tenant_status org cfg env user tenant_id st us s =
     (case check_status_change org user tenant_id st s of
        Inl e \<Rightarrow> ((Inl e, s), us)
      | Inr _ \<Rightarrow>
          (keys_follow_status cfg env tenant_id st
             (update_tenant tenant_id (\<lambda>t. t\<lparr>tn_status := st, tn_updated_by := Some (us_id user)\<rparr>) s),
           sync_tenant_users_for_status tenant_id st (us_id user) us))"

section \<open>Tier\<close>

text \<open>The tiers of platform-core: name and status by id.  The route hands over the canonical text of a UUID.\<close>

definition active_tier :: "Env \<Rightarrow> (string, string \<times> string) dict \<Rightarrow> string \<Rightarrow> (auth_error, string) res" where
  "active_tier env tiers tier_id =
     (if \<not> en_core_db env then Inl (Validation ''PLATFORM_CORE_DB_NOT_CONFIGURED'')
      else if \<not> en_core_read env then Inl (DbFailed DB_Unavailable)
      else case dict_get tiers tier_id of
             Some (name, st) \<Rightarrow> if st = ''ACTIVE'' then Inr name else Inl (Http 404 ''TIER_NOT_FOUND'')
           | None \<Rightarrow> Inl (Http 404 ''TIER_NOT_FOUND''))"

definition check_tier_change :: "Env \<Rightarrow> (string, string \<times> string) dict \<Rightarrow> User \<Rightarrow> int \<Rightarrow> string \<Rightarrow> AuthState \<Rightarrow> (auth_error, Tenant) res" where
  "check_tier_change env tiers user tenant_id tier_id s =
     rbind (only_admin s user) (\<lambda>_.
     rbind (load_tenant_or_404 s tenant_id) (\<lambda>t.
     rbind (active_tier env tiers tier_id) (\<lambda>_.
     rbind (guard (tn_tier_id t \<noteq> Some tier_id) (Http 409 ''TENANT_ALREADY_ON_TIER'')) (\<lambda>_. Inr t))))"

definition assign_tenant_tier ::
  "Env \<Rightarrow> (string, string \<times> string) dict \<Rightarrow> string list \<Rightarrow> User \<Rightarrow> int \<Rightarrow> string \<Rightarrow> AuthState \<Rightarrow> unit outcome" where
  "assign_tenant_tier env tiers catalogue user tenant_id tier_id s =
     (case check_tier_change env tiers user tenant_id tier_id s of
        Inl e \<Rightarrow> (Inl e, s)
      | Inr _ \<Rightarrow>
          (case clear_quota_flags_for_tenant env catalogue tenant_id
                  (update_tenant tenant_id (\<lambda>t. t\<lparr>tn_tier_id := Some tier_id, tn_updated_by := Some (us_id user)\<rparr>) s) of
             (Inl e, s') \<Rightarrow> (Inl e, s')
           | (Inr _, s') \<Rightarrow> set_tier_id_for_tenant env tenant_id tier_id s'))"

definition unassign_tenant_tier :: "Env \<Rightarrow> User \<Rightarrow> int \<Rightarrow> AuthState \<Rightarrow> (string option) outcome" where
  "unassign_tenant_tier env user tenant_id s =
     (case rbind (only_admin s user) (\<lambda>_. load_tenant_or_404 s tenant_id) of
        Inl e \<Rightarrow> (Inl e, s)
      | Inr t \<Rightarrow>
          let s' = (if tn_tier_id t = None then s
                    else update_tenant tenant_id (\<lambda>t. t\<lparr>tn_tier_id := None, tn_updated_by := Some (us_id user)\<rparr>) s)
          in case mark_tier_unassigned_for_tenant env tenant_id s' of
               (Inl e, s'') \<Rightarrow> (Inl e, s'')
             | (Inr _, s'') \<Rightarrow> (Inr (tn_tier_id t), s''))"

section \<open>The window of a budget\<close>

definition validate_new_effective_from :: "datetime \<Rightarrow> datetime \<Rightarrow> (auth_error, unit) res" where
  "validate_new_effective_from now budget_effective_from =
     guard (as_utc_date now \<le> as_utc_date budget_effective_from) (Http 422 ''budget_effective_from_invalid'')"

text \<open>The day after the last day of the calendar does not exist.\<close>

definition validate_effective_to_after_from :: "datetime \<Rightarrow> datetime \<Rightarrow> (auth_error, unit) res" where
  "validate_effective_to_after_from budget_effective_from budget_effective_to =
     (if \<not> valid_moment (budget_effective_from + US_PER_DAY) then Inl OverflowError
      else guard (as_utc_date budget_effective_from + 1 \<le> as_utc_date budget_effective_to) (Http 422 ''budget_effective_to_invalid''))"

definition validate_new_effective_to_not_in_past :: "datetime \<Rightarrow> datetime \<Rightarrow> (auth_error, unit) res" where
  "validate_new_effective_to_not_in_past now budget_effective_to =
     guard (as_utc_date now \<le> as_utc_date budget_effective_to) (Http 422 ''budget_effective_to_invalid'')"

definition resolve_existing_window ::
  "datetime \<Rightarrow> Tenant \<Rightarrow> datetime \<Rightarrow> bool \<Rightarrow> datetime option \<Rightarrow> datetime option \<Rightarrow> (auth_error, datetime \<times> datetime option) res" where
  "resolve_existing_window now t stored_from top_up budget_effective_from budget_effective_to =
     (if budget_effective_from \<noteq> None then Inl (Http 422 ''effective_from_locked'')
      else
        let window_active = (tn_budget_effective_to t \<noteq> None \<and> \<not> is_budget_window_expired now (tn_budget_effective_to t))
        in case budget_effective_to of
             None \<Rightarrow>
               if top_up \<and> \<not> window_active \<and> tn_budget_effective_to t \<noteq> None then Inl (Http 422 ''budget_window_expired'')
               else Inr (stored_from, tn_budget_effective_to t)
           | Some e \<Rightarrow>
               rbind (validate_effective_to_after_from stored_from e) (\<lambda>_.
               rbind (if window_active then Inr () else validate_new_effective_to_not_in_past now e) (\<lambda>_.
               Inr (stored_from, Some e))))"

definition resolve_first_window :: "datetime \<Rightarrow> datetime \<Rightarrow> datetime option \<Rightarrow> (auth_error, datetime \<times> datetime option) res" where
  "resolve_first_window now budget_effective_from budget_effective_to =
     (case budget_effective_to of
        None \<Rightarrow> Inl (Http 422 ''effective_window_required'')
      | Some e \<Rightarrow>
          rbind (validate_new_effective_from now budget_effective_from) (\<lambda>_.
          rbind (validate_effective_to_after_from budget_effective_from e) (\<lambda>_.
          Inr (budget_effective_from, Some e))))"

definition resolve_revised_window ::
  "datetime \<Rightarrow> Tenant \<Rightarrow> bool \<Rightarrow> datetime option \<Rightarrow> datetime option \<Rightarrow> (auth_error, datetime \<times> datetime option) res" where
  "resolve_revised_window now t top_up budget_effective_from budget_effective_to =
     (case (tn_budget_effective_from t, budget_effective_from) of
        (Some f, _) \<Rightarrow> resolve_existing_window now t f top_up budget_effective_from budget_effective_to
      | (None, Some f) \<Rightarrow> resolve_first_window now f budget_effective_to
      | (None, None) \<Rightarrow> Inl (Http 422 ''effective_window_required''))"

section \<open>Revising a budget\<close>

text \<open>
  The request: the schema admits \<open>action\<close> and \<open>amount\<close> only together, so a top-up is an amount, with at most
  two decimals and fifteen digits, or nothing; and a request that asks for nothing is refused.
\<close>

record TenantBudgetRequest =
  tb_top_up :: "rat option"
  tb_budget_effective_from :: "datetime option"
  tb_budget_effective_to :: "datetime option"

definition TenantBudgetRequest_ok :: "TenantBudgetRequest \<Rightarrow> bool" where
  "TenantBudgetRequest_ok rq \<longleftrightarrow>
     pred_option (\<lambda>a. 0 < a \<and> has_scale 2 a \<and> a < 10 ^ 13) (tb_top_up rq) \<and>
     \<not> (tb_top_up rq = None \<and> tb_budget_effective_from rq = None \<and> tb_budget_effective_to rq = None)"

text \<open>\<open>NUMERIC(15, 2)\<close>\<close>

definition MAX_TENANT_BUDGET :: rat where
  "MAX_TENANT_BUDGET = 10 ^ (15 - 2) - 1 / 10 ^ 2"

definition revised_budget :: "Tenant \<Rightarrow> rat option \<Rightarrow> (auth_error, rat \<times> rat) res" where
  "revised_budget t top_up =
     (let current_budget = or_zero (tn_allocated_budget t)
      in case top_up of
           None \<Rightarrow> Inr (current_budget, current_budget)
         | Some amount \<Rightarrow>
             let new_budget = dadd current_budget amount
             in if MAX_TENANT_BUDGET < new_budget then Inl (Http 422 ''budget_limit_exceeded'') else Inr (current_budget, new_budget))"

text \<open>\<open>_sync_ppu_wallet_and_exhaustion\<close> with \<open>raise_on_error\<close>: what raises inside is logged, the flags stay.\<close>

definition individually_exhausted :: "(int, rat \<times> rat option) dict \<Rightarrow> int \<Rightarrow> bool" where
  "individually_exhausted usage key_id =
     (case dict_get usage key_id of Some (used, Some snap) \<Rightarrow> snap \<le> used | _ \<Rightarrow> False)"

definition sync_ppu_wallet_and_exhaustion :: "Env \<Rightarrow> int \<Rightarrow> rat \<Rightarrow> AuthState \<Rightarrow> AuthState" where
  "sync_ppu_wallet_and_exhaustion env tenant_id allocated_budget s =
     (let key_ids = list_key_ids_for_tenant s tenant_id
      in if key_ids \<noteq> [] \<and> \<not> en_core_read env then s
         else
           let usage = fetch_budget_usage env s key_ids;
               total_spent = dsum (map (\<lambda>(_, used, _). used) usage)
           in if dsub allocated_budget total_spent \<le> 0 then snd (set_budget_exhausted_for_tenant env tenant_id True s)
              else snd (set_budget_exhausted_for_keys env (filter (\<lambda>i. \<not> individually_exhausted usage i) key_ids) False s))"

definition sync_budget_effective_to_cache :: "Env \<Rightarrow> int \<Rightarrow> AuthState \<Rightarrow> AuthState" where
  "sync_budget_effective_to_cache env tenant_id s =
     (case tenant_by_id s tenant_id of
        None \<Rightarrow> s
      | Some t \<Rightarrow> snd (set_budget_effective_to_for_tenant env tenant_id (tn_budget_effective_to t) s))"

definition after_budget_revision :: "Env \<Rightarrow> int \<Rightarrow> rat \<Rightarrow> (int, rat) dict \<Rightarrow> AuthState \<Rightarrow> bool \<times> AuthState" where
  "after_budget_revision env tenant_id new_budget snapshot_writes s =
     (let (written, s1) = write_budget_snapshot env snapshot_writes s;
          s2 = (if en_core_db env then sync_ppu_wallet_and_exhaustion env tenant_id new_budget s1 else s1)
      in (\<not> written, sync_budget_effective_to_cache env tenant_id s2))"

text \<open>Everything up to the commit: the window, the new budget, the gates and percentages of the applications, the row.\<close>

definition put_budget :: "string \<Rightarrow> rat \<Rightarrow> datetime \<Rightarrow> datetime option \<Rightarrow> Tenant \<Rightarrow> Tenant" where
  "put_budget by_user budget f e t =
     t\<lparr>tn_allocated_budget := Some budget, tn_budget_effective_from := Some f, tn_budget_effective_to := e, tn_updated_by := Some by_user\<rparr>"

definition stage_budget_revision ::
  "Env \<Rightarrow> User \<Rightarrow> int \<Rightarrow> TenantBudgetRequest \<Rightarrow> AuthState \<Rightarrow> (auth_error, (nat \<times> rat) \<times> AuthState) res" where
  "stage_budget_revision env user tenant_id rq s =
     rbind (only_admin s user) (\<lambda>_.
     rbind (load_tenant_or_404 s tenant_id) (\<lambda>t.
     rbind (resolve_revised_window (en_now env) t (tb_top_up rq \<noteq> None) (tb_budget_effective_from rq) (tb_budget_effective_to rq)) (\<lambda>(f, e).
     rbind (revised_budget t (tb_top_up rq)) (\<lambda>(_, new_budget).
     rbind (cascade_tenant_budget_revision env (us_id user) tenant_id new_budget s) (\<lambda>(n, s').
     case pg_numeric 15 2 new_budget of
       None \<Rightarrow> Inl (DbFailed DB_NumericOverflow)
     | Some stored \<Rightarrow> Inr ((n, new_budget), update_tenant tenant_id (put_budget (us_id user) stored f e) s'))))))"

definition revise_tenant_budget :: "Env \<Rightarrow> User \<Rightarrow> int \<Rightarrow> TenantBudgetRequest \<Rightarrow> AuthState \<Rightarrow> (nat \<times> bool) outcome" where
  "revise_tenant_budget env user tenant_id rq s =
     (case stage_budget_revision env user tenant_id rq s of
        Inl e \<Rightarrow> (Inl e, s)
      | Inr ((n, new_budget), s1) \<Rightarrow>
          (case after_budget_revision env tenant_id new_budget [] s1 of
             (snapshot_write_failed, s2) \<Rightarrow> (Inr (n, snapshot_write_failed), s2)))"

end
