(* ===== verification/Application_Admin.thy ===== *)
theory Application_Admin
  imports Tenant_Admin
begin

text \<open>
  Applications of a tenant (\<open>services/application_service.py\<close>, \<open>schemas/application.py\<close>,
  \<open>repositories/application_repository.py\<close>, \<open>services/service_fallback_validator.py\<close>): a new application and its
  share of the tenant's budget, a change of an application and what its deactivation does to its API keys,
  the search in the list of applications, and the fallback services of an application.

  The service is wired with its key service and cache.  The pre-check of a name and the write are two
  statements between which another request may commit: an operation takes the tables its pre-check read,
  \<open>seen\<close>, beside the tables it writes to.
\<close>

section \<open>Requests\<close>

type_synonym fallbacks = "(string, string list) dict"

text \<open>\<open>clean_service_fallbacks\<close>; \<open>None\<close> is the \<open>ValueError\<close> that makes the request unprocessable.\<close>

fun clean_service_fallbacks :: "(string \<times> string list) list \<Rightarrow> fallbacks \<Rightarrow> fallbacks option" where
  "clean_service_fallbacks [] out = Some out"
| "clean_service_fallbacks ((primary0, fallbacks0) # v) out =
     (let primary = strip primary0; fallbacks = map strip fallbacks0
      in if primary = [] \<or> [] \<in> set fallbacks then None
         else if primary \<in> set fallbacks \<or> \<not> distinct fallbacks then None
         else clean_service_fallbacks v (if fallbacks \<noteq> [] then dict_set primary fallbacks out else out))"

definition blank_to_none :: "string option \<Rightarrow> string option" where
  "blank_to_none v = (case v of None \<Rightarrow> None | Some s \<Rightarrow> if strip s = [] then None else Some (strip s))"

definition text_fits :: "nat \<Rightarrow> string option \<Rightarrow> bool" where
  "text_fits n v = pred_option (\<lambda>s. length s \<le> n) v"

record ApplicationCreate =
  ca_name :: string
  ca_description :: "string option"
  ca_domain :: "string option"
  ca_allocated_percentage :: "rat option"
  ca_service_fallbacks :: "fallbacks option"

text \<open>The request as the service receives it, \<open>None\<close> when the schema refuses it.\<close>

definition parse_ApplicationCreate :: "ApplicationCreate \<Rightarrow> ApplicationCreate option" where
  "parse_ApplicationCreate rq =
     (let name = strip (ca_name rq); description = blank_to_none (ca_description rq); domain = blank_to_none (ca_domain rq)
      in if name = [] \<or> 255 < length name \<or> \<not> text_fits 500 description \<or> \<not> text_fits 255 domain \<or>
            \<not> pred_option (\<lambda>p. 0 \<le> p \<and> p \<le> 100) (ca_allocated_percentage rq) then None
         else
           let body = (\<lambda>f. \<lparr>ca_name = name, ca_description = description, ca_domain = domain,
                 ca_allocated_percentage = map_option (\<lambda>p. of_int (round_half_even (p * 100)) / 100) (ca_allocated_percentage rq),
                 ca_service_fallbacks = f\<rparr>)
           in case ca_service_fallbacks rq of
                None \<Rightarrow> Some (body None)
              | Some v \<Rightarrow> map_option (\<lambda>f. body (Some f)) (clean_service_fallbacks v []))"

text \<open>A field that was not sent is \<open>None\<close>; a nullable field that was sent carries the value or null.\<close>

record ApplicationUpdate =
  ah_name :: "string option"
  ah_description :: "string option option"
  ah_domain :: "string option option"
  ah_status :: "ApplicationStatus option"
  ah_policy_id :: "int list option option"
  ah_service_fallbacks :: "fallbacks option"

definition parse_ApplicationUpdate :: "ApplicationUpdate \<Rightarrow> ApplicationUpdate option" where
  "parse_ApplicationUpdate rq =
     (let name = map_option strip (ah_name rq); description = map_option blank_to_none (ah_description rq);
          domain = map_option blank_to_none (ah_domain rq);
          body = rq\<lparr>ah_name := name, ah_description := description, ah_domain := domain\<rparr>
      in if \<not> pred_option (\<lambda>s. s \<noteq> [] \<and> length s \<le> 255) name \<or> \<not> pred_option (text_fits 500) description \<or>
            \<not> pred_option (text_fits 255) domain then None
         else case ah_service_fallbacks rq of
                None \<Rightarrow> Some body
              | Some v \<Rightarrow> map_option (\<lambda>f. body\<lparr>ah_service_fallbacks := Some f\<rparr>) (clean_service_fallbacks v []))"

section \<open>Fallback services\<close>

text \<open>The catalogue of platform-core: its services, and the models whose task type stands in for a missing one.\<close>

record ServiceRow =
  sv_service_id :: string
  sv_task_type :: "string option"
  sv_model :: "string \<times> string"                     \<comment> \<open>id and version\<close>
  sv_is_published :: bool
  sv_deleted_at :: "datetime option"
  sv_tier_ids :: "string list option"

record ServiceCatalogue =
  ct_services :: "ServiceRow list"
  ct_models :: "(string \<times> string, string option) dict" \<comment> \<open>\<open>task->>'type'\<close> by id and version\<close>

definition service_task_type :: "ServiceCatalogue \<Rightarrow> ServiceRow \<Rightarrow> string option" where
  "service_task_type cat r =
     map_option lower (case sv_task_type r of Some t \<Rightarrow> Some t | None \<Rightarrow> Option.bind (dict_get (ct_models cat) (sv_model r)) id)"

text \<open>The rows of the query by service id.\<close>

definition services_by_id :: "ServiceCatalogue \<Rightarrow> string list \<Rightarrow> (string, ServiceRow) dict" where
  "services_by_id cat ids = dict_of sv_service_id (filter (\<lambda>r. sv_service_id r \<in> set ids) (ct_services cat))"

definition check_service :: "ServiceRow option \<Rightarrow> string \<Rightarrow> (auth_error, unit) res" where
  "check_service row tier_id =
     (case row of
        None \<Rightarrow> Inl (Http 422 ''SERVICE_NOT_FOUND'')
      | Some r \<Rightarrow>
          if sv_deleted_at r \<noteq> None \<or> \<not> sv_is_published r then Inl (Http 422 ''SERVICE_NOT_PUBLISHED'')
          else guard (tier_id \<in> set (case sv_tier_ids r of None \<Rightarrow> [] | Some ts \<Rightarrow> ts)) (Http 422 ''SERVICE_NOT_IN_TIER''))"

definition fallback_ids :: "fallbacks \<Rightarrow> string list" where
  "fallback_ids fs = sort (remdups (concat (map (\<lambda>(p, bs). p # bs) fs)))"

definition task_type_of :: "ServiceCatalogue \<Rightarrow> (string, ServiceRow) dict \<Rightarrow> string \<Rightarrow> string option" where
  "task_type_of cat by_id sid = Option.bind (dict_get by_id sid) (service_task_type cat)"

definition check_task_types :: "ServiceCatalogue \<Rightarrow> (string, ServiceRow) dict \<Rightarrow> string \<times> string list \<Rightarrow> (auth_error, unit) res" where
  "check_task_types cat by_id entry =
     res_fold (\<lambda>b _. guard (task_type_of cat by_id b = task_type_of cat by_id (fst entry)) (Http 422 ''TASK_TYPE_MISMATCH''))
       (snd entry) ()"

definition validate_service_fallbacks ::
  "Env \<Rightarrow> ServiceCatalogue \<Rightarrow> fallbacks \<Rightarrow> string option \<Rightarrow> (auth_error, unit) res" where
  "validate_service_fallbacks env cat fs tier_id =
     (if fs = [] then Inr ()
      else case tier_id of
        None \<Rightarrow> Inl (Http 422 ''NO_ACTIVE_TIER'')
      | Some tier \<Rightarrow>
          if tier = [] then Inl (Http 422 ''NO_ACTIVE_TIER'')
          else if \<not> en_core_db env then Inl (Http 503 ''SERVICE_CATALOGUE_UNAVAILABLE'')
          else if \<not> en_core_read env then Inl (DbFailed DB_Unavailable)
          else
            let by_id = services_by_id cat (fallback_ids fs)
            in rbind (res_fold (\<lambda>sid _. check_service (dict_get by_id sid) tier) (fallback_ids fs) ()) (\<lambda>_.
               res_fold (\<lambda>entry _. check_task_types cat by_id entry) fs ()))"

section \<open>The cache of applications\<close>

text \<open>
  Two Redis strings per application, without expiry, for the inference service; the text is the JSON of a
  value, which is kept here.  A failing Redis is logged and ignored.
\<close>

type_synonym app_cache = "(string, json) dict"

definition app_policy_key :: "int \<Rightarrow> string" where
  "app_policy_key app_id = ''auth:app:'' @ show_int app_id @ '':policy_ids''"

definition app_fallbacks_key :: "int \<Rightarrow> string" where
  "app_fallbacks_key app_id = ''auth:app:'' @ show_int app_id @ '':service_fallbacks''"

definition json_of_ids :: "int list \<Rightarrow> json" where "json_of_ids is = JArr (map JInt is)"

definition json_of_fallbacks :: "fallbacks \<Rightarrow> json" where
  "json_of_fallbacks fs = JObj (map (\<lambda>(p, bs). (p, JArr (map JStr bs))) fs)"

definition set_app_policy_ids :: "Env \<Rightarrow> int \<Rightarrow> int list \<Rightarrow> app_cache \<Rightarrow> app_cache" where
  "set_app_policy_ids env app_id policy_ids c =
     (if en_redis env then dict_set (app_policy_key app_id) (json_of_ids policy_ids) c else c)"

definition set_app_service_fallbacks :: "Env \<Rightarrow> int \<Rightarrow> fallbacks \<Rightarrow> app_cache \<Rightarrow> app_cache" where
  "set_app_service_fallbacks env app_id fs c =
     (if en_redis env then dict_set (app_fallbacks_key app_id) (json_of_fallbacks fs) c else c)"

definition get_app_policy_ids :: "Env \<Rightarrow> int \<Rightarrow> app_cache \<Rightarrow> json option" where
  "get_app_policy_ids env app_id c = (if en_redis env then dict_get c (app_policy_key app_id) else None)"

section \<open>Rows\<close>

definition load_application_or_404 :: "AuthState \<Rightarrow> int \<Rightarrow> int \<Rightarrow> (auth_error, Application) res" where
  "load_application_or_404 s tenant_id application_id =
     (case app_by_id s application_id of
        None \<Rightarrow> Inl EntityNotFound
      | Some a \<Rightarrow> if ap_tenant_id a \<noteq> tenant_id then Inl EntityNotFound else Inr a)"

definition app_by_name :: "AuthState \<Rightarrow> int \<Rightarrow> string \<Rightarrow> Application option" where
  "app_by_name s tenant_id name =
     find (\<lambda>a. ap_tenant_id a = tenant_id \<and> lower (ap_name a) = lower (strip name)) (au_applications s)"

text \<open>
  The unique index on tenant and lower-case name is checked by the statement that writes the row, which
  \<open>create\<close> and \<open>update\<close> send by their \<open>flush\<close>, ahead of the commit.
\<close>

definition name_taken :: "AuthState \<Rightarrow> int \<Rightarrow> int \<Rightarrow> string \<Rightarrow> bool" where
  "name_taken s tenant_id application_id name \<longleftrightarrow>
     (\<exists>a \<in> set (au_applications s). ap_id a \<noteq> application_id \<and> ap_tenant_id a = tenant_id \<and> lower (ap_name a) = lower name)"

text \<open>A nullable numeric column.\<close>

definition pg_column :: "nat \<Rightarrow> rat option \<Rightarrow> rat option option" where
  "pg_column p v = (case v of None \<Rightarrow> Some None | Some x \<Rightarrow> map_option Some (pg_numeric p 2 x))"

definition insert_application :: "Application \<Rightarrow> AuthState \<Rightarrow> (auth_error, Application \<times> AuthState) res" where
  "insert_application a s =
     (case (pg_column 5 (ap_allocated_percentage a), pg_column 15 (ap_allocated_budget a)) of
        (Some p, Some b) \<Rightarrow>
          let a' = a\<lparr>ap_allocated_percentage := p, ap_allocated_budget := b\<rparr>
          in if name_taken s (ap_tenant_id a) (ap_id a) (ap_name a) then Inl (DbFailed DB_UniqueViolation)
             else Inr (a', s\<lparr>au_applications := au_applications s @ [a']\<rparr>)
      | _ \<Rightarrow> Inl (DbFailed DB_NumericOverflow))"

definition NAME_CONFLICT_CONSTRAINT :: string where
  "NAME_CONFLICT_CONSTRAINT = ''uq_applications_tenant_name_lower''"

text \<open>
  The commit, which names the constraint when it raises an \<open>IntegrityError\<close>; the error is translated for the
  index on names only.
\<close>

definition commit_or_raise_name_conflict :: "string option \<Rightarrow> (auth_error, unit) res" where
  "commit_or_raise_name_conflict violated =
     (case violated of
        None \<Rightarrow> Inr ()
      | Some c \<Rightarrow> if c = NAME_CONFLICT_CONSTRAINT then Inl (Http 409 ''APPLICATION_NAME_ALREADY_EXISTS'')
                  else Inl (DbFailed DB_UniqueViolation))"

section \<open>A new application\<close>

text \<open>\<open>quantize\<close> without a rounding mode rounds half to even.\<close>

definition derive_budget :: "rat option \<Rightarrow> rat \<Rightarrow> (auth_error, rat option) res" where
  "derive_budget parent_budget percentage =
     (case parent_budget of
        None \<Rightarrow> Inr None
      | Some b \<Rightarrow> rbind (quantize round_half_even (ddiv (dmul b percentage) 100)) (\<lambda>x. Inr (Some x)))"

definition assert_allocation_within_cap :: "AuthState \<Rightarrow> int \<Rightarrow> rat \<Rightarrow> (auth_error, Tenant) res" where
  "assert_allocation_within_cap s tenant_id new_percentage =
     (case tenant_by_id s tenant_id of
        None \<Rightarrow> Inl EntityNotFound
      | Some locked \<Rightarrow>
          if 100 < dadd (sum_allocated_percentage s tenant_id) new_percentage then Inl (Http 422 ''ALLOCATION_TOTAL_EXCEEDED'')
          else case tn_allocated_budget locked of
                 None \<Rightarrow> Inr locked
               | Some budget \<Rightarrow>
                   rbind (derive_budget (Some budget) new_percentage) (\<lambda>new_budget.
                   if budget < dadd (sum_allocated_budget s tenant_id) (or_zero new_budget)
                   then Inl (Http 422 ''ALLOCATION_TOTAL_EXCEEDED'') else Inr locked))"

definition check_new_application ::
  "Env \<Rightarrow> ServiceCatalogue \<Rightarrow> User \<Rightarrow> int \<Rightarrow> ApplicationCreate \<Rightarrow> AuthState \<Rightarrow> (auth_error, fallbacks) res" where
  "check_new_application env cat user tenant_id body seen =
     rbind (authorize_institution_scope seen user tenant_id) (\<lambda>_.
     rbind (load_tenant_or_404 seen tenant_id) (\<lambda>t.
     rbind (guard (app_by_name seen tenant_id (ca_name body) = None) (Http 409 ''APPLICATION_NAME_ALREADY_EXISTS'')) (\<lambda>_.
     let fs = (case ca_service_fallbacks body of None \<Rightarrow> [] | Some f \<Rightarrow> f)
     in rbind (validate_service_fallbacks env cat fs (tn_tier_id t)) (\<lambda>_. Inr fs))))"

definition new_application ::
  "User \<Rightarrow> int \<Rightarrow> int \<Rightarrow> ApplicationCreate \<Rightarrow> fallbacks \<Rightarrow> AuthState \<Rightarrow> (auth_error, Application) res" where
  "new_application user new_id tenant_id body fs s =
     rbind (case ca_allocated_percentage body of
              None \<Rightarrow> Inr None
            | Some p \<Rightarrow>
                rbind (assert_allocation_within_cap s tenant_id p) (\<lambda>locked. derive_budget (tn_allocated_budget locked) p)) (\<lambda>budget.
     Inr \<lparr>ap_id = new_id, ap_tenant_id = tenant_id, ap_name = ca_name body, ap_description = ca_description body,
          ap_domain = ca_domain body, ap_allocated_percentage = ca_allocated_percentage body, ap_allocated_budget = budget,
          ap_status = APP_ACTIVE, ap_policy_id = None, ap_service_fallbacks = fs, ap_created_by = Some (us_id user),
          ap_updated_by = None\<rparr>)"

definition create_application ::
  "Env \<Rightarrow> ServiceCatalogue \<Rightarrow> string option \<Rightarrow> User \<Rightarrow> int \<Rightarrow> int \<Rightarrow> ApplicationCreate \<Rightarrow> AuthState \<Rightarrow> AuthState \<Rightarrow> app_cache
    \<Rightarrow> Application outcome \<times> app_cache" where
  "create_application env cat violated user new_id tenant_id body seen s c =
     (case rbind (check_new_application env cat user tenant_id body seen) (\<lambda>fs.
           rbind (new_application user new_id tenant_id body fs s) (\<lambda>a.
           rbind (insert_application a s) (\<lambda>(a', s').
           rbind (commit_or_raise_name_conflict violated) (\<lambda>_. Inr (a', s'))))) of
        Inl e \<Rightarrow> ((Inl e, s), c)
      | Inr (a, s') \<Rightarrow> ((Inr a, s'), set_app_service_fallbacks env (ap_id a) (ap_service_fallbacks a) c))"

section \<open>A change of an application\<close>

definition assert_name_available :: "AuthState \<Rightarrow> int \<Rightarrow> int \<Rightarrow> string \<Rightarrow> (auth_error, unit) res" where
  "assert_name_available seen tenant_id application_id name =
     guard (pred_option (\<lambda>a. ap_id a = application_id) (app_by_name seen tenant_id name))
       (Http 409 ''APPLICATION_NAME_ALREADY_EXISTS'')"

text \<open>\<open>UPDATE api_key ... RETURNING id\<close>\<close>

definition zero_allocation_for_applications :: "int list \<Rightarrow> AuthState \<Rightarrow> int list \<times> AuthState" where
  "zero_allocation_for_applications app_ids s =
     (if app_ids = [] then ([], s)
      else
        let c = (\<lambda>k. ak_application_id k \<in> set app_ids \<and> ak_is_active k)
        in (map ak_id (filter c (au_keys s)),
            s\<lparr>au_keys := map (\<lambda>k. if c k then k\<lparr>ak_allocated_budget := Some 0, ak_allocated_percentage := Some 0\<rparr> else k) (au_keys s)\<rparr>))"

definition put_update :: "User \<Rightarrow> ApplicationUpdate \<Rightarrow> bool \<Rightarrow> Application \<Rightarrow> Application" where
  "put_update user body release a =
     a\<lparr>ap_name := (case ah_name body of None \<Rightarrow> ap_name a | Some v \<Rightarrow> v),
       ap_description := (case ah_description body of None \<Rightarrow> ap_description a | Some v \<Rightarrow> v),
       ap_domain := (case ah_domain body of None \<Rightarrow> ap_domain a | Some v \<Rightarrow> v),
       ap_status := (case ah_status body of None \<Rightarrow> ap_status a | Some v \<Rightarrow> v),
       ap_policy_id := (case ah_policy_id body of None \<Rightarrow> ap_policy_id a | Some v \<Rightarrow> v),
       ap_service_fallbacks := (case ah_service_fallbacks body of None \<Rightarrow> ap_service_fallbacks a | Some v \<Rightarrow> v),
       ap_allocated_budget := (if release then None else ap_allocated_budget a),
       ap_allocated_percentage := (if release then None else ap_allocated_percentage a),
       ap_updated_by := Some (us_id user)\<rparr>"

definition check_update ::
  "Env \<Rightarrow> ServiceCatalogue \<Rightarrow> User \<Rightarrow> int \<Rightarrow> int \<Rightarrow> ApplicationUpdate \<Rightarrow> AuthState \<Rightarrow> AuthState \<Rightarrow> (auth_error, Application) res" where
  "check_update env cat user tenant_id application_id body seen s =
     rbind (authorize_institution_scope s user tenant_id) (\<lambda>_.
     rbind (load_application_or_404 s tenant_id application_id) (\<lambda>a.
     rbind (case ah_name body of
              None \<Rightarrow> Inr ()
            | Some name \<Rightarrow>
                if lower (strip name) \<noteq> lower (strip (ap_name a)) then assert_name_available seen tenant_id application_id name
                else Inr ()) (\<lambda>_.
     rbind (case ah_service_fallbacks body of
              None \<Rightarrow> Inr ()
            | Some fs \<Rightarrow>
                rbind (load_tenant_or_404 s tenant_id) (\<lambda>t. validate_service_fallbacks env cat fs (tn_tier_id t))) (\<lambda>_.
     Inr a))))"

definition deactivates :: "ApplicationUpdate \<Rightarrow> Application \<Rightarrow> bool" where
  "deactivates body a \<longleftrightarrow> ah_status body = Some APP_INACTIVE \<and> ap_status a = APP_ACTIVE"

text \<open>Everything up to the commit: the keys whose ceiling was zeroed, the row, and the tables.\<close>

definition stage_update ::
  "Env \<Rightarrow> ServiceCatalogue \<Rightarrow> string option \<Rightarrow> User \<Rightarrow> int \<Rightarrow> int \<Rightarrow> ApplicationUpdate \<Rightarrow> AuthState \<Rightarrow> AuthState
    \<Rightarrow> (auth_error, int list \<times> Application \<times> AuthState) res" where
  "stage_update env cat violated user tenant_id application_id body seen s =
     rbind (check_update env cat user tenant_id application_id body seen s) (\<lambda>a.
     let (zeroed, s1) = (if deactivates body a then zero_allocation_for_applications [application_id] s else ([], s));
         a' = put_update user body (deactivates body a) a
     in if name_taken s tenant_id application_id (ap_name a') then Inl (DbFailed DB_UniqueViolation)
        else rbind (commit_or_raise_name_conflict violated) (\<lambda>_.
             Inr (zeroed, a', update_app application_id (\<lambda>_. a') s1)))"

definition sync_app_cache :: "Env \<Rightarrow> ApplicationUpdate \<Rightarrow> Application \<Rightarrow> app_cache \<Rightarrow> app_cache" where
  "sync_app_cache env body a c =
     (let c1 = (if ah_policy_id body \<noteq> None
                then set_app_policy_ids env (ap_id a) (case ap_policy_id a of None \<Rightarrow> [] | Some v \<Rightarrow> v) c else c)
      in if ah_service_fallbacks body \<noteq> None then set_app_service_fallbacks env (ap_id a) (ap_service_fallbacks a) c1 else c1)"

definition update_application ::
  "Env \<Rightarrow> ServiceCatalogue \<Rightarrow> string option \<Rightarrow> User \<Rightarrow> int \<Rightarrow> int \<Rightarrow> ApplicationUpdate \<Rightarrow> AuthState \<Rightarrow> AuthState \<Rightarrow> app_cache
    \<Rightarrow> Application outcome \<times> app_cache" where
  "update_application env cat violated user tenant_id application_id body seen s c =
     (case stage_update env cat violated user tenant_id application_id body seen s of
        Inl e \<Rightarrow> ((Inl e, s), c)
      | Inr (zeroed, a, s1) \<Rightarrow>
          (case (if zeroed = [] then (Inr (), s1)
                 else set_budget_exhausted_for_keys env zeroed True
                        (snd (write_budget_snapshot env (map (\<lambda>i. (i, 0)) zeroed) s1))) of
             (Inl e, s2) \<Rightarrow> ((Inl e, s2), c)
           | (Inr _, s2) \<Rightarrow> ((Inr a, s2), sync_app_cache env body a c)))"

section \<open>Reading applications\<close>

definition get_application :: "AuthState \<Rightarrow> User \<Rightarrow> int \<Rightarrow> int \<Rightarrow> (auth_error, Application) res" where
  "get_application s user tenant_id application_id =
     rbind (authorize_institution_scope s user tenant_id) (\<lambda>_. load_application_or_404 s tenant_id application_id)"

definition replace_char :: "char \<Rightarrow> string \<Rightarrow> string \<Rightarrow> string" where
  "replace_char c new s = concat (map (\<lambda>x. if x = c then new else [x]) s)"

definition escape_like :: "string \<Rightarrow> string" where
  "escape_like value = replace_char (CHR ''_'') (CHR 0x5C # ''_'') (replace_char (CHR ''%'') (CHR 0x5C # ''%'') (replace_char (CHR 0x5C) [CHR 0x5C, CHR 0x5C] value))"

text \<open>\<open>LIKE\<close> with the backslash as its escape character, and \<open>ILIKE\<close>.  A pattern that ends in the escape character is an error, which the patterns
  below, ending in a percent sign, are not; it matches nothing here.\<close>

function like :: "string \<Rightarrow> string \<Rightarrow> bool" where
  "like [] t = (t = [])"
| "like (c # p) t =
     (if c = CHR ''%'' then like p t \<or> (case t of [] \<Rightarrow> False | _ # t' \<Rightarrow> like (c # p) t')
      else if c = CHR ''_'' then (case t of [] \<Rightarrow> False | _ # t' \<Rightarrow> like p t')
      else if c = CHR 0x5C then (case (p, t) of (d # p', x # t') \<Rightarrow> x = d \<and> like p' t' | _ \<Rightarrow> False)
      else (case t of [] \<Rightarrow> False | x # t' \<Rightarrow> x = c \<and> like p t'))"
  by pat_completeness auto

termination
  by (relation "measure (\<lambda>(p, t). length p + length t)") auto

declare like.simps(2) [simp del]

definition ilike :: "string \<Rightarrow> string \<Rightarrow> bool" where
  "ilike p t = like (lower p) (lower t)"

text \<open>
  The filters: a comparison with a null domain does not hold.  The order of names is the database's
  collation, a parameter.
\<close>

definition app_filter :: "int \<Rightarrow> string option \<Rightarrow> string option \<Rightarrow> Application \<Rightarrow> bool" where
  "app_filter tenant_id search domain a \<longleftrightarrow>
     ap_tenant_id a = tenant_id \<and>
     (case search of None \<Rightarrow> True | Some q \<Rightarrow> q = [] \<or>
        (let pat = ''%'' @ escape_like (strip q) @ ''%''
         in ilike pat (ap_name a) \<or> (case ap_domain a of None \<Rightarrow> False | Some d \<Rightarrow> ilike pat d))) \<and>
     (case domain of None \<Rightarrow> True | Some q \<Rightarrow> q = [] \<or>
        (case ap_domain a of None \<Rightarrow> False | Some d \<Rightarrow> lower d = lower (strip q)))"

definition list_for_tenant ::
  "(string \<Rightarrow> 'k :: linorder) \<Rightarrow> int \<Rightarrow> string option \<Rightarrow> string option \<Rightarrow> nat \<Rightarrow> nat \<Rightarrow> AuthState \<Rightarrow> Application list \<times> nat" where
  "list_for_tenant collation tenant_id search domain offset limit s =
     (let rows = filter (app_filter tenant_id search domain) (au_applications s)
      in (take limit (drop offset (sort_key (\<lambda>a. collation (lower (ap_name a))) (sort_key ap_id rows))), length rows))"

definition list_applications ::
  "(string \<Rightarrow> 'k :: linorder) \<Rightarrow> AuthState \<Rightarrow> User \<Rightarrow> int \<Rightarrow> string option \<Rightarrow> string option \<Rightarrow> nat \<Rightarrow> nat
    \<Rightarrow> (auth_error, Application list \<times> nat) res" where
  "list_applications collation s user tenant_id search domain offset limit =
     rbind (authorize_institution_scope s user tenant_id) (\<lambda>_.
     rbind (load_tenant_or_404 s tenant_id) (\<lambda>_.
     Inr (list_for_tenant collation tenant_id search domain offset limit s)))"

text \<open>The route turns a page number, from 1 on, into an offset.\<close>

definition list_applications_route ::
  "(string \<Rightarrow> 'k :: linorder) \<Rightarrow> AuthState \<Rightarrow> User \<Rightarrow> int \<Rightarrow> string option \<Rightarrow> string option \<Rightarrow> nat \<Rightarrow> nat
    \<Rightarrow> (auth_error, Application list \<times> nat) res" where
  "list_applications_route collation s user tenant_id search domain page page_size =
     list_applications collation s user tenant_id search domain ((page - 1) * page_size) page_size"

end
