(* ===== verification/Application_Props.thy ===== *)
theory Application_Props
  imports Application_Admin Allocation_Theorems "HOL-Library.Sublist"
begin

text \<open>
  What holds of the applications of a tenant: a new one fits into the budget, names stay unique however
  requests interleave, a search finds literal text, and the fallbacks that are accepted can be used.
\<close>

section \<open>A new application\<close>

lemma pg_column_stored: "pg_column p v = Some w \<Longrightarrow> pred_option (has_scale 2) v \<Longrightarrow> w = v \<and> pred_option (\<lambda>x. \<bar>x\<bar> < 10 ^ (p - 2)) v"
  by (auto simp: pg_column_def pg_numeric_def Let_def pg_round_id split: if_splits option.splits)

lemma round_half_even_nonneg: "0 \<le> x \<Longrightarrow> 0 \<le> round_half_even x"
  using round_half_even_ge [of x] by (smt (verit) le_floor_iff of_int_0)

lemma derive_budget_cents:
  assumes "derive_budget parent p = Inr (Some x)" "pred_option money parent" "0 \<le> p"
  shows "cents x"
proof -
  obtain b where b: "parent = Some b" "quantize round_half_even (ddiv (dmul b p) 100) = Inr x"
    using assms(1) by (auto simp: derive_budget_def split: option.splits)
  have "0 \<le> ddiv (dmul b p) 100" using assms(2,3) b(1) by (simp add: ddiv_def dmul_def money_def)
  then show ?thesis
    using quantize_Inr [OF b(2)] round_half_even_nonneg [of "ddiv (dmul b p) 100 * 100"] by (simp add: cents_def)
qed

lemma sql_sum_cents: "(\<forall>v \<in> set vs. pred_option cents v) \<Longrightarrow> cents (sql_sum vs)"
  unfolding sql_sum_def by (rule cents_sum_list) (auto simp: or_zero_def split: option.split)

lemma sums_cents:
  assumes "typed_state s"
  shows "cents (sum_allocated_budget s t)" "cents (sum_allocated_percentage s t)"
proof -
  have "\<forall>a \<in> set (au_applications s). pred_option cents (ap_allocated_budget a) \<and> pred_option cents (ap_allocated_percentage a)"
    using assms by (auto simp: typed_state_def typed_app_def pred_option_def cents_def money_def percent_def)
  then show "cents (sum_allocated_budget s t)" "cents (sum_allocated_percentage s t)"
    by (auto simp: sum_allocated_budget_def sum_allocated_percentage_def intro!: sql_sum_cents)
qed

lemma sums_append:
  "au_applications s' = au_applications s @ [a] \<Longrightarrow> ap_tenant_id a = t \<Longrightarrow> ap_status a = APP_ACTIVE \<Longrightarrow>
   sum_allocated_budget s' t = sum_allocated_budget s t + or_zero (ap_allocated_budget a) \<and>
   sum_allocated_percentage s' t = sum_allocated_percentage s t + or_zero (ap_allocated_percentage a)"
  by (simp add: sum_allocated_budget_def sum_allocated_percentage_def sql_sum_def)

lemma within_cap:
  assumes cap: "assert_allocation_within_cap s t p = Inr tn" and d: "derive_budget (tn_allocated_budget tn) p = Inr b"
    and typed: "typed_state s" and p: "cents p"
  shows "tenant_by_id s t = Some tn" "sum_allocated_percentage s t + p \<le> 100" "pred_option cents b"
    "pred_option (\<lambda>B. sum_allocated_budget s t + or_zero b \<le> B) (tn_allocated_budget tn)"
proof -
  show tn: "tenant_by_id s t = Some tn"
    using cap by (auto simp: assert_allocation_within_cap_def split: option.splits if_splits)
  have B: "pred_option money (tn_allocated_budget tn)"
    using tenant_by_id_Some [OF tn] typed by (auto simp: typed_state_def)
  have "dadd (sum_allocated_percentage s t) p \<le> 100"
    using cap by (auto simp: assert_allocation_within_cap_def not_less split: option.splits if_splits)
  moreover from this have "dadd (sum_allocated_percentage s t) p = sum_allocated_percentage s t + p"
    using sums_cents(2) [OF typed] p by (intro dadd_small) simp_all
  ultimately show "sum_allocated_percentage s t + p \<le> 100" by simp
  show c: "pred_option cents b" using derive_budget_cents [OF _ B] d p by (auto simp: pred_option_def cents_def)
  have "sum_allocated_budget s t + or_zero b \<le> B'" if B': "tn_allocated_budget tn = Some B'" for B'
  proof -
    have le: "dadd (sum_allocated_budget s t) (or_zero b) \<le> B'"
      using cap tn d B' by (auto simp: assert_allocation_within_cap_def not_less split: if_splits)
    have "cents (or_zero b)" using c by (cases b) (simp_all add: or_zero_def)
    moreover have "B' < 10 ^ 26" using B B' by (simp add: money_def)
    ultimately have "dadd (sum_allocated_budget s t) (or_zero b) = sum_allocated_budget s t + or_zero b"
      using le sums_cents(1) [OF typed] by (intro dadd_small) simp_all
    with le show ?thesis by simp
  qed
  then show "pred_option (\<lambda>B. sum_allocated_budget s t + or_zero b \<le> B) (tn_allocated_budget tn)"
    by (cases "tn_allocated_budget tn") simp_all
qed

lemma parsed_percentage:
  assumes "parse_ApplicationCreate rq = Some body"
  shows "pred_option (\<lambda>p. cents p \<and> p \<le> 100) (ca_allocated_percentage body)"
proof -
  have "cents (of_int (round_half_even (p * 100)) / 100) \<and> of_int (round_half_even (p * 100)) / 100 \<le> (100 :: rat)"
    if "0 \<le> p" "p \<le> 100" for p :: rat
  proof -
    have "round_half_even (p * 100) \<le> round_half_even (of_int 10000)"
      using that(2) by (intro round_half_even_mono) simp
    then have "of_int (round_half_even (p * 100)) \<le> (of_int 10000 :: rat)" by (simp only: round_half_even_of_int of_int_le_iff)
    moreover have "0 \<le> round_half_even (p * 100)" using that(1) by (intro round_half_even_nonneg) simp
    ultimately show ?thesis by (auto simp: cents_def has_scale_iff)
  qed
  moreover have "pred_option (\<lambda>p. 0 \<le> p \<and> p \<le> 100) (ca_allocated_percentage rq)"
    "ca_allocated_percentage body = map_option (\<lambda>p. of_int (round_half_even (p * 100)) / 100) (ca_allocated_percentage rq)"
    using assms by (auto simp: parse_ApplicationCreate_def Let_def split: if_splits option.splits)
  ultimately show ?thesis by (cases "ca_allocated_percentage rq") simp_all
qed

text \<open>What a creation that succeeds has checked and written.\<close>

lemma create_application_Inr:
  assumes "create_application env cat violated user i t body seen s c = ((Inr a, s'), c')"
  obtains fs a0 where "check_new_application env cat user t body seen = Inr fs" "new_application user i t body fs s = Inr a0"
    "insert_application a0 s = Inr (a, s')"
  using assms by (auto simp: create_application_def split: sum.splits prod.splits)

lemma insert_application_Inr:
  assumes "insert_application a0 s = Inr (a, s')"
    and "pred_option (has_scale 2) (ap_allocated_percentage a0)" "pred_option (has_scale 2) (ap_allocated_budget a0)"
  shows "a = a0 \<and> s' = s\<lparr>au_applications := au_applications s @ [a]\<rparr> \<and> \<not> name_taken s (ap_tenant_id a) (ap_id a) (ap_name a) \<and>
    pred_option (\<lambda>p. \<bar>p\<bar> < 10 ^ 3) (ap_allocated_percentage a) \<and> pred_option (\<lambda>b. \<bar>b\<bar> < 10 ^ 13) (ap_allocated_budget a)"
proof -
  obtain p b where col: "pg_column 5 (ap_allocated_percentage a0) = Some p" "pg_column 15 (ap_allocated_budget a0) = Some b"
    and out: "a = a0\<lparr>ap_allocated_percentage := p, ap_allocated_budget := b\<rparr>" "s' = s\<lparr>au_applications := au_applications s @ [a]\<rparr>"
      "\<not> name_taken s (ap_tenant_id a0) (ap_id a0) (ap_name a0)"
    using assms(1) by (auto simp: insert_application_def Let_def split: option.splits if_splits)
  with pg_column_stored [OF col(1) assms(2)] pg_column_stored [OF col(2) assms(3)] show ?thesis by simp
qed

lemma new_application_typed:
  assumes "new_application user i t body fs s = Inr a" "typed_state s" "pred_option (\<lambda>p. cents p \<and> p \<le> 100) (ca_allocated_percentage body)"
  shows "ap_id a = i \<and> ap_tenant_id a = t \<and> ap_status a = APP_ACTIVE \<and> ap_name a = ca_name body \<and>
      ap_allocated_percentage a = ca_allocated_percentage body"
    "pred_option cents (ap_allocated_budget a)"
    "ca_allocated_percentage body = None \<Longrightarrow> ap_allocated_budget a = None"
    "ca_allocated_percentage body = Some p \<Longrightarrow> sum_allocated_percentage s t + p \<le> 100 \<and>
       (\<exists>tn. tenant_by_id s t = Some tn \<and> pred_option (\<lambda>B. sum_allocated_budget s t + or_zero (ap_allocated_budget a) \<le> B) (tn_allocated_budget tn))"
  using assms within_cap(1,2,4) [of s t p] within_cap(3) [of s t]
  by (auto simp: new_application_def pred_option_def split: option.splits)

text \<open>
  C13: A new application that names a share of its tenant's budget is stored only when the shares of the
  active applications stay within a hundred percent and their amounts, in money as it is stored, within the
  tenant's budget, to the cent; one that names no share leaves both totals as they were.  The tables stay
  well typed.
\<close>

theorem created_application_fits_budget:
  assumes rq: "parse_ApplicationCreate rq = Some body" and typed: "typed_state s"
    and i: "is_int4_id (Some i)" "i \<notin> ap_id ` set (au_applications s)"
    and run: "create_application env cat violated user i t body seen s c = ((Inr a, s'), c')"
  shows "typed_state s' \<and> au_applications s' = au_applications s @ [a] \<and> ap_tenant_id a = t \<and> ap_name a = ca_name body \<and>
    (case ca_allocated_percentage body of
       None \<Rightarrow> sum_allocated_budget s' t = sum_allocated_budget s t \<and> sum_allocated_percentage s' t = sum_allocated_percentage s t
     | Some p \<Rightarrow> sum_allocated_percentage s' t = sum_allocated_percentage s t + p \<and> sum_allocated_percentage s' t \<le> 100 \<and>
         (\<exists>tn. tenant_by_id s t = Some tn \<and> pred_option (\<lambda>B. sum_allocated_budget s' t \<le> B) (tn_allocated_budget tn)))"
proof -
  obtain fs a0 where new: "new_application user i t body fs s = Inr a0" and ins: "insert_application a0 s = Inr (a, s')"
    using run by (rule create_application_Inr)
  note p = parsed_percentage [OF rq]
  note t = new_application_typed [OF new typed p]
  have scale: "pred_option (has_scale 2) (ap_allocated_percentage a0)" "pred_option (has_scale 2) (ap_allocated_budget a0)"
    using p t(1,2) by (auto simp: pred_option_def cents_def)
  note stored = insert_application_Inr [OF ins scale]
  have app: "typed_app a" using stored p t(1,2) by (auto simp: typed_app_def pred_option_def money_def percent_def cents_def)
  have "typed_state s'" using typed app i stored t(1) by (auto simp: typed_state_def tables_ok_def)
  moreover have sums: "sum_allocated_budget s' t = sum_allocated_budget s t + or_zero (ap_allocated_budget a)"
    "sum_allocated_percentage s' t = sum_allocated_percentage s t + or_zero (ca_allocated_percentage body)"
    using sums_append [of s' s a t] stored t(1) by simp_all
  ultimately show ?thesis using stored t by (auto simp: or_zero_def split: option.split)
qed

section \<open>Names\<close>

definition names_unique :: "AuthState \<Rightarrow> bool" where
  "names_unique s \<longleftrightarrow> (\<forall>a \<in> set (au_applications s). \<forall>b \<in> set (au_applications s).
     ap_tenant_id a = ap_tenant_id b \<longrightarrow> lower (ap_name a) = lower (ap_name b) \<longrightarrow> ap_id a = ap_id b)"

lemma insert_application_names:
  assumes "insert_application a0 s = Inr (a, s')" "names_unique s" "ap_id a0 \<notin> ap_id ` set (au_applications s)"
  shows "names_unique s'"
proof -
  have "au_applications s' = au_applications s @ [a]" "ap_tenant_id a = ap_tenant_id a0" "ap_name a = ap_name a0"
    "\<not> name_taken s (ap_tenant_id a0) (ap_id a0) (ap_name a0)"
    using assms(1) by (auto simp: insert_application_def Let_def split: option.splits if_splits)
  then have apps: "set (au_applications s') = insert a (set (au_applications s))"
    and free: "x \<in> set (au_applications s) \<Longrightarrow> ap_tenant_id x = ap_tenant_id a \<Longrightarrow> lower (ap_name x) \<noteq> lower (ap_name a)" for x
    using assms(3) by (auto simp: name_taken_def image_iff) metis
  show ?thesis
    unfolding names_unique_def apps using free assms(2) [unfolded names_unique_def] by (metis insert_iff)
qed

text \<open>What a change has checked and written by its commit.\<close>

lemma stage_update_Inr:
  assumes "stage_update env cat violated user t i body seen s = Inr (zeroed, a', s1)"
  obtains a where "app_by_id s i = Some a" "ap_tenant_id a = t" "a' = put_update user body (deactivates body a) a"
    "\<not> name_taken s t i (ap_name a')"
    "s1 = update_app i (\<lambda>_. a') (if deactivates body a then snd (zero_allocation_for_applications [i] s) else s)"
    "zeroed = (if deactivates body a then fst (zero_allocation_for_applications [i] s) else [])"
proof -
  obtain a where chk: "check_update env cat user t i body seen s = Inr a"
    and out: "(if name_taken s t i (ap_name (put_update user body (deactivates body a) a)) then Inl (DbFailed DB_UniqueViolation)
        else rbind (commit_or_raise_name_conflict violated) (\<lambda>_. Inr (fst (if deactivates body a then zero_allocation_for_applications [i] s else ([], s)),
          put_update user body (deactivates body a) a,
          update_app i (\<lambda>_. put_update user body (deactivates body a) a) (snd (if deactivates body a then zero_allocation_for_applications [i] s else ([], s))))))
      = Inr (zeroed, a', s1)"
    using assms unfolding stage_update_def Let_def case_prod_unfold rbind_Inr by blast
  have row: "app_by_id s i = Some a" "ap_tenant_id a = t"
    using chk by (auto simp: check_update_def load_application_or_404_def split: option.splits if_splits)
  show thesis
    by (rule that [OF row]) (use out in \<open>auto split: if_splits\<close>)
qed

lemma zero_allocation_tables [simp, auth_simps]:
  "au_applications (snd (zero_allocation_for_applications is s)) = au_applications s"
  "au_tenants (snd (zero_allocation_for_applications is s)) = au_tenants s"
  "au_redis (snd (zero_allocation_for_applications is s)) = au_redis s"
  "au_budget_usage (snd (zero_allocation_for_applications is s)) = au_budget_usage s"
  by (simp_all add: zero_allocation_for_applications_def Let_def)

lemma put_update_row [simp, auth_simps]:
  "ap_id (put_update user body r a) = ap_id a" "ap_tenant_id (put_update user body r a) = ap_tenant_id a"
  by (simp_all add: put_update_def)

lemma set_exhausted_apps [simp, auth_simps]:
  "au_applications (snd (set_budget_exhausted_for_keys env is b s)) = au_applications s"
  by (simp add: set_budget_exhausted_for_keys_def patch_cached_data_field_for_keys_def change_cached_data_def Let_def)

lemma update_application_state:
  assumes "stage_update env cat violated user t i body seen s = Inr (zeroed, a, s1)"
  shows "snd (fst (update_application env cat violated user t i body seen s c)) =
    (if zeroed = [] then s1
     else snd (set_budget_exhausted_for_keys env zeroed True (snd (write_budget_snapshot env (map (\<lambda>i. (i, 0)) zeroed) s1))))"
  by (simp add: update_application_def assms split: sum.split prod.split)

lemma stage_update_names:
  assumes "stage_update env cat violated user t i body seen s = Inr (zeroed, a', s1)" "names_unique s"
  shows "names_unique s1"
proof -
  obtain a where a: "app_by_id s i = Some a" "ap_tenant_id a = t" "a' = put_update user body (deactivates body a) a"
      "\<not> name_taken s t i (ap_name a')"
      "s1 = update_app i (\<lambda>_. a') (if deactivates body a then snd (zero_allocation_for_applications [i] s) else s)"
    using assms(1) by (rule stage_update_Inr)
  have apps: "au_applications s1 = map (\<lambda>x. if ap_id x = i then a' else x) (au_applications s)" using a(5) by simp
  have id: "ap_id a' = i" "ap_tenant_id a' = t" using app_by_id_Some [OF a(1)] a(2,3) by simp_all
  show ?thesis
    unfolding names_unique_def
  proof (intro ballI impI)
    fix x y assume x: "x \<in> set (au_applications s1)" "y \<in> set (au_applications s1)" "ap_tenant_id x = ap_tenant_id y"
      "lower (ap_name x) = lower (ap_name y)"
    then consider "x = a'" "y = a'" | "x = a'" "y \<in> set (au_applications s)" "ap_id y \<noteq> i"
      | "y = a'" "x \<in> set (au_applications s)" "ap_id x \<noteq> i" | "x \<in> set (au_applications s)" "y \<in> set (au_applications s)"
      unfolding apps by (auto split: if_splits)
    then show "ap_id x = ap_id y"
    proof cases
      case 2
      with a(4) x(3,4) id show ?thesis unfolding name_taken_def by metis
    next
      case 3
      with a(4) x(3,4) id show ?thesis unfolding name_taken_def by metis
    next
      case 4
      with assms(2) x(3,4) show ?thesis unfolding names_unique_def by blast
    qed simp
  qed
qed


text \<open>
  The pre-check cannot see a row that another request commits after it, and the statement that writes the
  row raises before the commit that would translate the error: the loser of the race is answered with a
  server error, never with the conflict.
\<close>

lemma raced_name_is_server_error:
  assumes "check_new_application env cat user t body seen = Inr fs" "new_application user i t body fs s = Inr a0"
    and "pg_column 5 (ap_allocated_percentage a0) \<noteq> None" "pg_column 15 (ap_allocated_budget a0) \<noteq> None"
    and "name_taken s t i (ca_name body)"
  shows "create_application env cat violated user i t body seen s c = ((Inl (DbFailed DB_UniqueViolation), s), c)"
proof -
  have "ap_id a0 = i" "ap_tenant_id a0 = t" "ap_name a0 = ca_name body" using assms(2) by (auto simp: new_application_def)
  with assms show ?thesis by (auto simp: create_application_def insert_application_def)
qed

text \<open>A share that falls on half a cent is rounded to the even cent, not up.\<close>

lemma half_cent_share_rounds_to_even:
  "derive_budget (Some (1 / 2)) 1 = Inr (Some 0) \<and> quantize round_half_up (ddiv (dmul (1 / 2) 1) 100) = Inr (1 / 100)"
  by code_simp

section \<open>Search\<close>

abbreviation like_special :: "char \<Rightarrow> bool" where
  "like_special c \<equiv> c = CHR ''%'' \<or> c = CHR ''_'' \<or> c = CHR 0x5C"

lemma escape_like_Nil [simp]: "escape_like [] = []"
  by (simp add: escape_like_def replace_char_def)

lemma escape_like_Cons: "escape_like (c # s) = (if like_special c then [CHR 0x5C, c] else [c]) @ escape_like s"
  by (auto simp: escape_like_def replace_char_def)

lemma like_escaped: "like (escape_like x @ p) t \<longleftrightarrow> (\<exists>t'. t = x @ t' \<and> like p t')"
  by (induction x arbitrary: t) (auto simp: escape_like_Cons like.simps(2) split: list.splits)

lemma like_percent: "like (CHR ''%'' # p) t \<longleftrightarrow> (\<exists>u v. t = u @ v \<and> like p v)"
proof (induction t)
  case Nil
  show ?case by (simp add: like.simps(2))
next
  case (Cons x t)
  have "like (CHR ''%'' # p) (x # t) \<longleftrightarrow> like p (x # t) \<or> like (CHR ''%'' # p) t" by (simp add: like.simps(2))
  also have "\<dots> \<longleftrightarrow> (\<exists>u v. x # t = u @ v \<and> like p v)" unfolding Cons by (auto simp: Cons_eq_append_conv)
  finally show ?case .
qed

lemma like_literal: "like (CHR ''%'' # escape_like x @ ''%'') t \<longleftrightarrow> sublist x t"
  by (auto simp: like_percent like_escaped sublist_def)

lemma lower_char_special [simp]: "like_special (lower_char c) \<longleftrightarrow> like_special c" "like_special c \<Longrightarrow> lower_char c = c"
proof -
  show "like_special c \<Longrightarrow> lower_char c = c" by (auto simp: lower_char_def)
  show "like_special (lower_char c) \<longleftrightarrow> like_special c"
  proof (cases "65 \<le> (of_char c :: nat) \<and> (of_char c :: nat) \<le> 90")
    case True
    then have "(of_char (lower_char c) :: nat) = of_char c + 32" by (simp add: lower_char_def of_char_of)
    with True have "\<not> like_special (lower_char c)" by (auto dest!: arg_cong [of _ _ "of_char :: char \<Rightarrow> nat"])
    moreover have "\<not> like_special c" using True by auto
    ultimately show ?thesis by simp
  next
    case False
    then have "lower_char c = c" by (auto simp: lower_char_def)
    then show ?thesis by simp
  qed
qed

lemma lower_escape: "lower (escape_like x) = escape_like (lower x)"
proof (induction x)
  case (Cons c x)
  show ?case
  proof (cases "like_special c")
    case True
    have "lower_char (CHR 0x5C) = CHR 0x5C" by (rule lower_char_special) simp
    with True Cons show ?thesis using lower_char_special(2) [of c] by (simp add: escape_like_Cons lower_def)
  next
    case False
    with Cons show ?thesis using lower_char_special(1) [of c] by (simp add: escape_like_Cons lower_def)
  qed
qed (simp add: lower_def)

lemma ilike_literal: "ilike (''%'' @ escape_like x @ ''%'') t \<longleftrightarrow> sublist (lower x) (lower t)"
proof -
  have "lower ''%'' = ''%''" by code_simp
  then have "lower (''%'' @ escape_like x @ ''%'') = CHR ''%'' # escape_like (lower x) @ ''%''"
    using lower_escape [of x] by (simp add: lower_def)
  then show ?thesis by (simp add: ilike_def like_literal)
qed

lemma app_filter_search:
  "app_filter t (Some q) None a \<longleftrightarrow> ap_tenant_id a = t \<and>
     (sublist (lower (strip q)) (lower (ap_name a)) \<or> (\<exists>d. ap_domain a = Some d \<and> sublist (lower (strip q)) (lower d)))"
  by (auto simp: app_filter_def ilike_literal [simplified] lower_def Let_def split: option.splits)

lemma pages_concat: "concat (map (\<lambda>page. take n (drop ((page - 1) * n) xs)) [1..<Suc k]) = take (k * n) xs"
proof (induction k)
  case (Suc k)
  have "concat (map (\<lambda>page. take n (drop ((page - 1) * n) xs)) [1..<Suc (Suc k)]) = take (k * n) xs @ take n (drop (k * n) xs)"
    using Suc by simp
  then show ?case by (simp add: take_add [symmetric] add.commute)
qed simp

text \<open>
  C32: A search in the applications of a tenant finds exactly those whose name or domain contains the text
  that was asked for, up to case and surrounding blanks, whatever signs of a pattern the text contains; the
  pages the route serves, put one after the other, list each of them once, in the order of the names, and
  every page tells their number.
\<close>

theorem search_matches_literally:
  "\<exists>rows. mset rows = mset (filter (\<lambda>a. ap_tenant_id a = t \<and>
        (sublist (lower (strip q)) (lower (ap_name a)) \<or> (\<exists>d. ap_domain a = Some d \<and> sublist (lower (strip q)) (lower d)))) (au_applications s)) \<and>
     sorted (map (\<lambda>a. collation (lower (ap_name a))) rows) \<and>
     (\<forall>k n. concat (map (\<lambda>page. fst (list_for_tenant collation t (Some q) None ((page - 1) * n) n s)) [1..<Suc k]) = take (k * n) rows) \<and>
     (\<forall>offset n. snd (list_for_tenant collation t (Some q) None offset n s) = length rows)"
proof -
  define rows where "rows = sort_key (\<lambda>a. collation (lower (ap_name a))) (sort_key ap_id (filter (app_filter t (Some q) None) (au_applications s)))"
  have l: "list_for_tenant collation t (Some q) None offset n s = (take n (drop offset rows), length rows)" for offset n
    by (simp add: list_for_tenant_def Let_def rows_def)
  have "mset rows = mset (filter (app_filter t (Some q) None) (au_applications s))" by (simp add: rows_def)
  moreover have "sorted (map (\<lambda>a. collation (lower (ap_name a))) rows)" by (simp add: rows_def)
  ultimately show ?thesis
    unfolding l app_filter_search fst_conv snd_conv using pages_concat by (intro exI [of _ rows] conjI allI) blast+
qed

section \<open>Fallback services\<close>

lemma res_fold_unit: "res_fold (\<lambda>x _. f x) xs () = Inr () \<longleftrightarrow> (\<forall>x \<in> set xs. f x = Inr ())"
  by (induction xs) auto

lemma dict_get_dict_of: "distinct (map k xs) \<Longrightarrow> dict_get (dict_of k xs) i = find (\<lambda>x. k x = i) xs"
proof (induction xs rule: rev_induct)
  case (snoc x xs)
  have "find P (ys @ [y]) = (case find P ys of None \<Rightarrow> if P y then Some y else None | Some z \<Rightarrow> Some z)" for P and ys :: "'b list" and y
    by (induction ys) auto
  moreover have "find (\<lambda>z. k z = k x) xs = None" using snoc.prems by (auto simp: find_None_iff image_iff)
  ultimately show ?case using snoc by (auto simp: dict_of_def split: option.split)
qed (simp add: dict_of_def)

lemma find_filter: "find P (filter Q xs) = find (\<lambda>x. Q x \<and> P x) xs"
  by (induction xs) auto

lemma services_by_id_get:
  assumes "distinct (map sv_service_id (ct_services cat))" "sid \<in> set ids"
  shows "dict_get (services_by_id cat ids) sid = find (\<lambda>r. sv_service_id r = sid) (ct_services cat)"
proof -
  have "distinct (map sv_service_id (filter (\<lambda>r. sv_service_id r \<in> set ids) (ct_services cat)))"
    using assms(1) by (rule distinct_map_filter)
  then have "dict_get (services_by_id cat ids) sid = find (\<lambda>r. sv_service_id r \<in> set ids \<and> sv_service_id r = sid) (ct_services cat)"
    unfolding services_by_id_def by (simp only: dict_get_dict_of find_filter)
  also have "\<dots> = find (\<lambda>r. sv_service_id r = sid) (ct_services cat)" using assms(2) by (intro find_cong) auto
  finally show ?thesis .
qed

text \<open>A service that requests of the tier may use.\<close>

definition offered :: "string \<Rightarrow> ServiceRow \<Rightarrow> bool" where
  "offered tier r \<longleftrightarrow> sv_is_published r \<and> sv_deleted_at r = None \<and> (\<exists>ts. sv_tier_ids r = Some ts \<and> tier \<in> set ts)"

lemma check_service_Inr: "check_service row tier = Inr () \<longleftrightarrow> (\<exists>r. row = Some r \<and> offered tier r)"
  by (cases row) (auto simp: check_service_def offered_def split: option.splits if_splits intro: sym)

lemma find_service:
  "distinct (map sv_service_id rs) \<Longrightarrow> find (\<lambda>r. sv_service_id r = sid) rs = Some r \<longleftrightarrow> r \<in> set rs \<and> sv_service_id r = sid"
  using find_distinct [of sv_service_id rs r] by (auto simp: find_Some_iff)

text \<open>
  C33: The fallbacks of an application are accepted exactly when there are none, or the tenant has a tier, the
  catalogue can be read, and every service they name, primary or fallback, is one the tier is offered,
  with every fallback of the task type of its primary.
\<close>

theorem accepted_fallbacks_are_usable:
  assumes "distinct (map sv_service_id (ct_services cat))"
  shows "validate_service_fallbacks env cat fs tier_id = Inr () \<longleftrightarrow> fs = [] \<or>
    (\<exists>tier. tier_id = Some tier \<and> tier \<noteq> [] \<and> en_core_db env \<and> en_core_read env \<and>
      (\<forall>(p, bs) \<in> set fs. \<exists>r \<in> set (ct_services cat). sv_service_id r = p \<and> offered tier r \<and>
        (\<forall>b \<in> set bs. \<exists>r' \<in> set (ct_services cat). sv_service_id r' = b \<and> offered tier r' \<and> service_task_type cat r' = service_task_type cat r)))"
    (is "_ \<longleftrightarrow> fs = [] \<or> (\<exists>tier. ?ok tier)")
proof -
  let ?by = "services_by_id cat (fallback_ids fs)" and ?row = "\<lambda>sid. find (\<lambda>r. sv_service_id r = sid) (ct_services cat)"
  have ids: "set (fallback_ids fs) = (\<Union>(p, bs) \<in> set fs. insert p (set bs))" by (force simp: fallback_ids_def)
  have get: "dict_get ?by sid = ?row sid" if "sid \<in> set (fallback_ids fs)" for sid
    using services_by_id_get [OF assms that] .
  have one: "(\<exists>r. ?row sid = Some r \<and> Q r) \<longleftrightarrow> (\<exists>r \<in> set (ct_services cat). sv_service_id r = sid \<and> Q r)" for sid Q
    using find_service [OF assms, of sid] by auto
  have checks: "res_fold (\<lambda>sid _. check_service (dict_get ?by sid) tier) (fallback_ids fs) () = Inr () \<longleftrightarrow>
      (\<forall>(p, bs) \<in> set fs. \<forall>sid \<in> insert p (set bs). \<exists>r. ?row sid = Some r \<and> offered tier r)" for tier
  proof -
    have "(\<forall>sid \<in> set (fallback_ids fs). check_service (dict_get ?by sid) tier = Inr ()) \<longleftrightarrow>
        (\<forall>sid \<in> set (fallback_ids fs). \<exists>r. ?row sid = Some r \<and> offered tier r)"
      using get by (simp add: check_service_Inr)
    also have "\<dots> \<longleftrightarrow> (\<forall>(p, bs) \<in> set fs. \<forall>sid \<in> insert p (set bs). \<exists>r. ?row sid = Some r \<and> offered tier r)"
      unfolding ids by (simp only: ball_UN case_prod_unfold)
    finally show ?thesis unfolding res_fold_unit .
  qed
  have tasks: "res_fold (\<lambda>entry _. check_task_types cat ?by entry) fs () = Inr () \<longleftrightarrow>
      (\<forall>(p, bs) \<in> set fs. \<forall>b \<in> set bs. Option.bind (?row b) (service_task_type cat) = Option.bind (?row p) (service_task_type cat))"
    unfolding res_fold_unit
  proof (intro ball_cong refl)
    fix x assume "x \<in> set fs"
    then have "(case x of (p, bs) \<Rightarrow> insert p (set bs)) \<subseteq> set (fallback_ids fs)" unfolding ids by (rule UN_upper)
    then have "fst x \<in> set (fallback_ids fs)" "\<forall>b \<in> set (snd x). b \<in> set (fallback_ids fs)" by (auto simp: case_prod_unfold)
    then show "check_task_types cat ?by x = Inr () \<longleftrightarrow> (case x of (p, bs) \<Rightarrow> \<forall>b \<in> set bs.
        Option.bind (?row b) (service_task_type cat) = Option.bind (?row p) (service_task_type cat))"
      using get by (simp add: check_task_types_def case_prod_unfold res_fold_unit task_type_of_def)
  qed
  have "validate_service_fallbacks env cat fs (Some tier) = Inr () \<longleftrightarrow> ?ok tier" if "fs \<noteq> []" "tier_id = Some tier" for tier
  proof -
    have "validate_service_fallbacks env cat fs (Some tier) = Inr () \<longleftrightarrow> tier \<noteq> [] \<and> en_core_db env \<and> en_core_read env \<and>
        (\<forall>(p, bs) \<in> set fs. (\<forall>sid \<in> insert p (set bs). \<exists>r. ?row sid = Some r \<and> offered tier r) \<and>
          (\<forall>b \<in> set bs. Option.bind (?row b) (service_task_type cat) = Option.bind (?row p) (service_task_type cat)))"
      using that(1) checks [of tier] tasks by (auto simp: validate_service_fallbacks_def Let_def)
    also have "\<dots> \<longleftrightarrow> ?ok tier" using that(2) by (simp add: one [symmetric]) fastforce
    finally show ?thesis .
  qed
  then show ?thesis by (cases "fs = []"; cases tier_id) (auto simp: validate_service_fallbacks_def)
qed

section \<open>Examples\<close>

definition app_catalogue :: ServiceCatalogue where
  "app_catalogue = \<lparr>ct_services =
     [\<lparr>sv_service_id = ''asr-1'', sv_task_type = Some ''ASR'', sv_model = (''m'', ''1''), sv_is_published = True, sv_deleted_at = None, sv_tier_ids = Some [''gold'']\<rparr>,
      \<lparr>sv_service_id = ''asr-2'', sv_task_type = None, sv_model = (''m'', ''1''), sv_is_published = True, sv_deleted_at = None, sv_tier_ids = Some [''gold'']\<rparr>],
     ct_models = [((''m'', ''1''), Some ''asr'')]\<rparr>"

definition app_request :: ApplicationCreate where
  "app_request = \<lparr>ca_name = '' Portal '', ca_description = Some '' '', ca_domain = None, ca_allocated_percentage = Some (12345 / 1000),
     ca_service_fallbacks = Some []\<rparr>"

definition app_body :: ApplicationCreate where
  "app_body = \<lparr>ca_name = ''Portal'', ca_description = None, ca_domain = None, ca_allocated_percentage = Some (1234 / 100),
     ca_service_fallbacks = Some []\<rparr>"

definition app_update :: "ApplicationStatus \<Rightarrow> ApplicationUpdate" where
  "app_update st = \<lparr>ah_name = None, ah_description = None, ah_domain = None, ah_status = Some st, ah_policy_id = None, ah_service_fallbacks = None\<rparr>"

lemma app_parsed: "parse_ApplicationCreate app_request = Some app_body"
  by code_simp

lemma app_created:
  "\<exists>a s' c'. create_application alloc_env app_catalogue None alloc_user 8 1 app_body alloc_state alloc_state [] = ((Inr a, s'), c')"
proof -
  let ?r = "create_application alloc_env app_catalogue None alloc_user 8 1 app_body alloc_state alloc_state []"
  have "\<not> isl (fst (fst ?r))" by code_simp
  then show ?thesis by (cases ?r; cases "fst (fst ?r)") auto
qed

lemma app_fresh: "is_int4_id (Some 8)" "8 \<notin> ap_id ` set (au_applications alloc_state)"
  by (simp_all add: is_int4_id_def INT4_MAX_def alloc_state_def alloc_app_def)

theorem created_application_fits_budget_witness:
  "\<exists>a s' c'. create_application alloc_env app_catalogue None alloc_user 8 1 app_body alloc_state alloc_state [] = ((Inr a, s'), c') \<and>
     sum_allocated_percentage s' 1 = sum_allocated_percentage alloc_state 1 + 1234 / 100 \<and> sum_allocated_budget s' 1 \<le> 1000"
proof -
  obtain a s' c' where run: "create_application alloc_env app_catalogue None alloc_user 8 1 app_body alloc_state alloc_state [] = ((Inr a, s'), c')"
    using app_created by blast
  have "ca_allocated_percentage app_body = Some (1234 / 100)" "tenant_by_id alloc_state 1 = Some alloc_tenant" "tn_allocated_budget alloc_tenant = Some 1000"
    by (simp_all add: app_body_def tenant_by_id_def is_int4_id_def INT4_MAX_def alloc_state_def alloc_tenant_def)
  with created_application_fits_budget [OF app_parsed alloc_state_typed app_fresh run] run show ?thesis by auto
qed


theorem accepted_fallbacks_are_usable_witness:
  "validate_service_fallbacks alloc_env app_catalogue [(''asr-1'', [''asr-2''])] (Some ''gold'') = Inr () \<and>
   validate_service_fallbacks alloc_env app_catalogue [(''asr-1'', [''asr-2''])] (Some ''silver'') \<noteq> Inr ()"
proof -
  have "distinct (map sv_service_id (ct_services app_catalogue))" by (simp add: app_catalogue_def)
  note iff = accepted_fallbacks_are_usable [OF this]
  have "lower ''ASR'' = ''asr''" "lower ''asr'' = ''asr''" by code_simp+
  then show ?thesis unfolding iff by (simp add: app_catalogue_def alloc_env_def offered_def service_task_type_def)
qed

end
