(* ===== verification/Tenant_Props.thy ===== *)
theory Tenant_Props
  imports Tenant_Admin Allocation_Theorems Gate_Billing
begin

text \<open>
  What the administration of tenants guarantees: a revised budget and its window stay well formed and move
  nobody's money, a top-up that covers what was allocated goes through, a new window reaches every
  cached key, and the keys of a suspended or deactivated tenant are shut out.
\<close>

section \<open>Frames\<close>

text \<open>The follow-ups of a revision rewrite cached payloads: rows keep their money, tenants and applications are not touched.\<close>

definition key_money :: "APIKey \<Rightarrow> int \<times> int \<times> rat option" where
  "key_money k = (ak_id k, ak_application_id k, ak_allocated_budget k)"

definition app_money :: "Application \<Rightarrow> int \<times> int \<times> ApplicationStatus \<times> rat option" where
  "app_money a = (ap_id a, ap_tenant_id a, ap_status a, ap_allocated_budget a)"

definition row_part :: "APIKey \<Rightarrow> (int \<times> string \<times> bool \<times> datetime option \<times> string option \<times> datetime option) \<times> int \<times> int \<times> rat option" where
  "row_part k = (life k, key_money k)"

lemma row_part_money: "map row_part ks = map row_part ks' \<Longrightarrow> map key_money ks = map key_money ks'"
  by (drule arg_cong [of _ _ "map snd"]) (simp add: o_def row_part_def)

definition payload_change :: "AuthState \<Rightarrow> AuthState \<Rightarrow> bool" where
  "payload_change s s' \<longleftrightarrow> au_tenants s' = au_tenants s \<and> au_applications s' = au_applications s \<and> au_budget_usage s' = au_budget_usage s \<and>
     map row_part (au_keys s') = map row_part (au_keys s)"

lemma payload_change_refl [simp]: "payload_change s s"
  by (simp add: payload_change_def)

lemma payload_change_trans: "payload_change s t \<Longrightarrow> payload_change t u \<Longrightarrow> payload_change s u"
  by (simp add: payload_change_def)

lemma payload_change_redis [simp]: "payload_change s (s\<lparr>au_redis := r\<rparr>)"
  by (simp add: payload_change_def)

lemma payload_change_cached [simp]: "payload_change s (change_cached_data c f s)"
  by (simp add: payload_change_def change_cached_data_def row_part_def life_def key_money_def)

lemma payload_change_patch: "payload_change s (snd (patch_all_tenant_key_caches env t fld v p s))"
proof -
  have "payload_change s (for_each_active_tenant_key now t f s)" for now f by (simp add: for_each_active_tenant_key_def)
  then have "payload_change s (change_cached_data c g (for_each_active_tenant_key now t f s))" for now f c g
    using payload_change_trans payload_change_cached by blast
  then show ?thesis by (simp add: patch_all_tenant_key_caches_def patch_cached_data_field_for_tenant_def Let_def)
qed

lemma payload_change_keys: "payload_change s (snd (set_budget_exhausted_for_keys env ids b s))"
proof -
  have "payload_change s ((change_cached_data c f s)\<lparr>au_redis := r\<rparr>)" for c f r
    using payload_change_trans [OF payload_change_cached payload_change_redis] .
  then show ?thesis by (simp add: set_budget_exhausted_for_keys_def patch_cached_data_field_for_keys_def Let_def)
qed

lemma payload_change_sync: "payload_change s (sync_ppu_wallet_and_exhaustion env t b s)"
  by (simp add: sync_ppu_wallet_and_exhaustion_def Let_def payload_change_patch payload_change_keys set_budget_exhausted_for_tenant_def)

lemma payload_change_window: "payload_change s (sync_budget_effective_to_cache env t s)"
  by (simp add: sync_budget_effective_to_cache_def set_budget_effective_to_for_tenant_def payload_change_patch split: option.split)

lemma payload_change_after: "payload_change s (snd (after_budget_revision env t b [] s))"
  using payload_change_trans [OF payload_change_sync payload_change_window] payload_change_window
  by (simp add: after_budget_revision_def write_budget_snapshot_def Let_def)

lemma cascade_frame:
  assumes "cascade_tenant_budget_revision env user t b s = Inr (n, s')"
  shows "au_tenants s' = au_tenants s \<and> au_keys s' = au_keys s \<and> au_budget_usage s' = au_budget_usage s \<and> au_redis s' = au_redis s \<and> au_roles s' = au_roles s \<and>
    map app_money (au_applications s') = map app_money (au_applications s)"
    (is "?P s'")
proof (cases "active_applications (apps_by_tenant s t) = []")
  case True
  with assms show ?thesis by (simp add: cascade_tenant_budget_revision_def Let_def)
next
  case False
  with assms obtain cur ps where st: "store_percentages (store_app_percentage user) cur ps s = Inr s'"
    by (auto simp: cascade_tenant_budget_revision_def recompute_app_percentages_def Let_def split: prod.splits)
  have step: "?P s2" if "?P s1" "store_app_percentage user i p s1 = Inr s2" for i p s1 s2
  proof -
    from that(2) obtain c where s2: "s2 = update_app i (\<lambda>r. r\<lparr>ap_allocated_percentage := Some c, ap_updated_by := Some user\<rparr>) s1"
      by (auto simp: store_app_percentage_def)
    have "app_money (if ap_id a = i then a\<lparr>ap_allocated_percentage := Some c, ap_updated_by := Some user\<rparr> else a) = app_money a" for a
      by (simp add: app_money_def)
    then show ?thesis using that(1) by (simp add: s2 update_app_def o_def)
  qed
  show ?thesis
  proof (rule res_fold_invariant [OF st [unfolded store_percentages_def], where P = ?P])
    fix x s1 s2 assume "?P s1" "(case x of (i, p) \<Rightarrow> \<lambda>s. if p \<noteq> cur i then store_app_percentage user i p s else Inr s) s1 = Inr s2"
    then show "?P s2" using step [of s1 "fst x" "snd x" s2] by (cases x; cases "snd x \<noteq> cur (fst x)") simp_all
  qed simp
qed

lemma cascade_tenants:
  assumes "cascade_tenant_budget_revision env user t b s = Inr (n, s')"
  shows "tenant_by_id s' i = tenant_by_id s i"
  using cascade_frame [OF assms] by (simp add: tenant_by_id_def)

section \<open>Budget and window\<close>

text \<open>The day a window ends is later than the day it starts.\<close>

definition window_ok :: "Tenant \<Rightarrow> bool" where
  "window_ok t \<longleftrightarrow> (\<forall>f e. tn_budget_effective_from t = Some f \<longrightarrow> tn_budget_effective_to t = Some e \<longrightarrow> as_utc_date f < as_utc_date e)"

lemma resolved_window:
  assumes "resolve_revised_window now t top_up rf re = Inr (f, e)" "window_ok t"
  shows "(case tn_budget_effective_from t of Some f0 \<Rightarrow> f = f0 \<and> rf = None | None \<Rightarrow> rf = Some f \<and> as_utc_date now \<le> as_utc_date f)"
    "\<forall>d. e = Some d \<longrightarrow> as_utc_date f < as_utc_date d"
    "re \<noteq> None \<Longrightarrow> e = re" "re = None \<Longrightarrow> e = tn_budget_effective_to t"
    "top_up \<Longrightarrow> re = None \<Longrightarrow> \<not> is_budget_window_expired now e"
    "tn_budget_effective_to t = None \<or> is_budget_window_expired now (tn_budget_effective_to t) \<Longrightarrow> re \<noteq> None \<Longrightarrow> \<not> is_budget_window_expired now e"
  using assms
  by (auto simp: resolve_revised_window_def resolve_existing_window_def resolve_first_window_def validate_new_effective_from_def
      validate_effective_to_after_from_def validate_new_effective_to_not_in_past_def window_ok_def is_budget_window_expired_def Let_def
      split: option.splits if_splits)

lemma revised_budget_money:
  assumes "revised_budget t top_up = Inr (cur, new)" "pred_option money (tn_allocated_budget t)"
    and "pred_option (\<lambda>a. 0 < a \<and> has_scale 2 a \<and> a < 10 ^ 13) top_up"
  shows "new = or_zero (tn_allocated_budget t) + (case top_up of None \<Rightarrow> 0 | Some a \<Rightarrow> a)" "money new" "pg_numeric 15 2 new = Some new"
proof -
  have m: "money (or_zero (tn_allocated_budget t))" using assms(2) by simp
  show new: "new = or_zero (tn_allocated_budget t) + (case top_up of None \<Rightarrow> 0 | Some a \<Rightarrow> a)"
  proof (cases top_up)
    case None
    with assms(1) show ?thesis by (simp add: revised_budget_def Let_def)
  next
    case (Some a)
    then have "dadd (or_zero (tn_allocated_budget t)) a = or_zero (tn_allocated_budget t) + a"
      using assms(3) m by (intro dadd_exact) (auto simp: money_def)
    with Some assms(1) show ?thesis by (simp add: revised_budget_def Let_def split: if_splits)
  qed
  have sc: "has_scale 2 new" unfolding new using m assms(3) by (auto simp: money_def split: option.split intro: has_scale_add)
  moreover have "0 \<le> new" unfolding new using m assms(3) by (auto simp: money_def split: option.split)
  moreover have "new < 10 ^ 13" using assms(1) m
    by (auto simp: revised_budget_def MAX_TENANT_BUDGET_def money_def Let_def split: option.splits if_splits)
  ultimately show "money new" by (simp add: money_def)
  then show "pg_numeric 15 2 new = Some new" by (simp add: pg_numeric_def pg_round_id money_def)
qed

lemma tenant_by_id_update:
  assumes "\<And>x. tn_id (f x) = tn_id x"
  shows "tenant_by_id (update_tenant i f s) j = (if j = i then map_option f (tenant_by_id s i) else tenant_by_id s j)"
proof -
  have "find (\<lambda>t. tn_id t = j) (map (\<lambda>t. if tn_id t = i then f t else t) ts) =
      (if j = i then map_option f (find (\<lambda>t. tn_id t = i) ts) else find (\<lambda>t. tn_id t = j) ts)" for ts j
    using assms by (induction ts) auto
  then show ?thesis by (simp add: tenant_by_id_def update_tenant_def)
qed

lemma payload_tenants: "payload_change s s' \<Longrightarrow> tenant_by_id s' i = tenant_by_id s i"
  by (simp add: payload_change_def tenant_by_id_def)

text \<open>
  C14: A revision of a tenant's budget that succeeds adds the top-up to the budget, exactly and within the
  column; it never moves the start of a window that is on file and starts a first one no earlier than
  today; the window still ends on a later day than it starts; a top-up that names no end leaves it open,
  and an end given to a lapsed window reopens it.  No other tenant changes, and no application and no
  key gains or loses money.
\<close>

theorem budget_revision_keeps_window:
  assumes run: "revise_tenant_budget env user i rq s = (Inr out, s')" and rq: "TenantBudgetRequest_ok rq"
    and t: "tenant_by_id s i = Some t" "pred_option money (tn_allocated_budget t)" "window_ok t"
  shows "\<exists>t'. tenant_by_id s' i = Some t' \<and> window_ok t' \<and>
    tn_allocated_budget t' = Some (or_zero (tn_allocated_budget t) + (case tb_top_up rq of None \<Rightarrow> 0 | Some a \<Rightarrow> a)) \<and> pred_option money (tn_allocated_budget t') \<and>
    (case tn_budget_effective_from t of Some f \<Rightarrow> tn_budget_effective_from t' = Some f
     | None \<Rightarrow> \<exists>f. tn_budget_effective_from t' = Some f \<and> tb_budget_effective_from rq = Some f \<and> as_utc_date (en_now env) \<le> as_utc_date f) \<and>
    (tb_top_up rq \<noteq> None \<and> tb_budget_effective_to rq = None \<longrightarrow> \<not> is_budget_window_expired (en_now env) (tn_budget_effective_to t')) \<and>
    (is_budget_window_expired (en_now env) (tn_budget_effective_to t) \<and> tb_budget_effective_to rq \<noteq> None \<longrightarrow>
       \<not> is_budget_window_expired (en_now env) (tn_budget_effective_to t')) \<and>
    (\<forall>j. j \<noteq> i \<longrightarrow> tenant_by_id s' j = tenant_by_id s j) \<and>
    map app_money (au_applications s') = map app_money (au_applications s) \<and> map key_money (au_keys s') = map key_money (au_keys s)"
proof -
  obtain f e cur new n s1 where w: "resolve_revised_window (en_now env) t (tb_top_up rq \<noteq> None) (tb_budget_effective_from rq) (tb_budget_effective_to rq) = Inr (f, e)"
    and b: "revised_budget t (tb_top_up rq) = Inr (cur, new)"
    and c: "cascade_tenant_budget_revision env (us_id user) i new s = Inr (n, s1)"
    and st: "stage_budget_revision env user i rq s = Inr ((n, new), update_tenant i (put_budget (us_id user) new f e) s1)"
    using run t rq revised_budget_money(3) [OF _ t(2)]
    by (auto simp: revise_tenant_budget_def stage_budget_revision_def load_tenant_or_404_def TenantBudgetRequest_ok_def split: sum.splits prod.splits option.splits)
  let ?s = "update_tenant i (put_budget (us_id user) new f e) s1" and ?t = "put_budget (us_id user) new f e t"
  have s': "s' = snd (after_budget_revision env i new [] ?s)" using run by (auto simp: revise_tenant_budget_def st split: prod.splits)
  have p: "payload_change ?s s'" unfolding s' by (rule payload_change_after)
  note frame = cascade_frame [OF c]
  have tid: "tn_id (put_budget u b f e x) = tn_id x" for u b f e x by (simp add: put_budget_def)
  note same = cascade_tenants [OF c]
  have row: "tenant_by_id s' i = Some ?t" "\<forall>j. j \<noteq> i \<longrightarrow> tenant_by_id s' j = tenant_by_id s j"
    using payload_tenants [OF p] tenant_by_id_update [of "put_budget (us_id user) new f e", OF tid, of i s1] t(1) same by simp_all
  have money: "map app_money (au_applications s') = map app_money (au_applications s)" "map key_money (au_keys s') = map key_money (au_keys s)"
    using p frame by (auto simp: payload_change_def update_tenant_def intro: row_part_money)
  note budget = revised_budget_money [OF b t(2)] note window = resolved_window [OF w t(3)]
  have "window_ok ?t" using window(2) by (simp add: window_ok_def put_budget_def)
  moreover have "case tn_budget_effective_from t of Some f0 \<Rightarrow> tn_budget_effective_from ?t = Some f0
     | None \<Rightarrow> \<exists>f. tn_budget_effective_from ?t = Some f \<and> tb_budget_effective_from rq = Some f \<and> as_utc_date (en_now env) \<le> as_utc_date f"
    using window(1) by (auto simp: put_budget_def split: option.splits)
  moreover have "tb_top_up rq \<noteq> None \<and> tb_budget_effective_to rq = None \<longrightarrow> \<not> is_budget_window_expired (en_now env) (tn_budget_effective_to ?t)"
    "is_budget_window_expired (en_now env) (tn_budget_effective_to t) \<and> tb_budget_effective_to rq \<noteq> None \<longrightarrow>
       \<not> is_budget_window_expired (en_now env) (tn_budget_effective_to ?t)"
    using window(5,6) by (simp_all add: put_budget_def)
  moreover have "tn_allocated_budget ?t = Some new" by (simp add: put_budget_def)
  ultimately show ?thesis using row money budget rq by (auto simp: TenantBudgetRequest_ok_def)
qed

section \<open>Top-ups go through\<close>

text \<open>What the keys of the tenant's active applications have consumed, as the revision adds it up.\<close>

definition tenant_consumed :: "Env \<Rightarrow> AuthState \<Rightarrow> int \<Rightarrow> rat" where
  "tenant_consumed env s t =
     (let as = active_applications (apps_by_tenant s t); ks = keys_by_applications s (map ap_id as);
          usage = fetch_budget_usage env s (map ak_id ks)
      in dsum (map (\<lambda>a. consumed_total (filter (\<lambda>k. ak_application_id k = ap_id a) ks) usage) as))"

lemma covered_stage:
  assumes typed: "typed_state s" and admin: "only_admin s user = Inr ()" and t: "tenant_by_id s i = Some t"
    and rq: "TenantBudgetRequest_ok rq"
    and window: "resolve_revised_window (en_now env) t (tb_top_up rq \<noteq> None) (tb_budget_effective_from rq) (tb_budget_effective_to rq) = Inr (f, e)"
    and new: "new = or_zero (tn_allocated_budget t) + (case tb_top_up rq of None \<Rightarrow> 0 | Some a \<Rightarrow> a)" "new \<le> MAX_TENANT_BUDGET"
    and covered: "sum_allocated_budget s i \<le> new" "tenant_consumed env s i \<le> new"
  shows "\<exists>n s1. stage_budget_revision env user i rq s = Inr ((n, new), s1)"
proof -
  have m: "pred_option money (tn_allocated_budget t)"
    using typed t by (auto simp: typed_state_def tenant_by_id_def find_Some_iff split: if_splits)
  then have m0: "money (or_zero (tn_allocated_budget t))" by simp
  have r: "pred_option (\<lambda>a. 0 < a \<and> has_scale 2 a \<and> a < 10 ^ 13) (tb_top_up rq)" using rq by (simp add: TenantBudgetRequest_ok_def)
  have exact: "dadd (or_zero (tn_allocated_budget t)) a = or_zero (tn_allocated_budget t) + a" if "tb_top_up rq = Some a" for a
    using that r m0 by (intro dadd_exact) (auto simp: money_def)
  have b: "revised_budget t (tb_top_up rq) = Inr (or_zero (tn_allocated_budget t), new)"
    using new exact by (auto simp: revised_budget_def Let_def split: option.splits)
  note budget = revised_budget_money [OF b m r]
  obtain n s1 where "cascade_tenant_budget_revision env (us_id user) i new s = Inr (n, s1)"
    using covering_budget_revision_succeeds [OF typed budget(2) covered(1), where env = env and user = "us_id user", OF _ refl] covered(2)
    by (auto simp: tenant_consumed_def Let_def)
  then show ?thesis using admin t window b budget(3) by (simp add: stage_budget_revision_def load_tenant_or_404_def)
qed

text \<open>
  A revision of a tenant's budget by an administrator goes through whenever its window is acceptable, the
  new budget fits the column and covers what the applications hold and their keys have consumed: the
  response is a success even when platform-core or Redis fail on the follow-ups.
\<close>

lemma covering_top_up_succeeds:
  assumes "typed_state s" "only_admin s user = Inr ()" "tenant_by_id s i = Some t" "TenantBudgetRequest_ok rq"
    and "resolve_revised_window (en_now env) t (tb_top_up rq \<noteq> None) (tb_budget_effective_from rq) (tb_budget_effective_to rq) = Inr (f, e)"
    and "new = or_zero (tn_allocated_budget t) + (case tb_top_up rq of None \<Rightarrow> 0 | Some a \<Rightarrow> a)" "new \<le> MAX_TENANT_BUDGET"
    and "sum_allocated_budget s i \<le> new" "tenant_consumed env s i \<le> new"
  shows "\<exists>n s'. revise_tenant_budget env user i rq s = (Inr (n, False), s') \<and>
    map_option tn_allocated_budget (tenant_by_id s' i) = Some (Some new)"
proof -
  obtain n s1 where st: "stage_budget_revision env user i rq s = Inr ((n, new), s1)" using covered_stage [OF assms] by blast
  have run: "revise_tenant_budget env user i rq s = (Inr (n, False), snd (after_budget_revision env i new [] s1))"
    by (simp add: revise_tenant_budget_def st after_budget_revision_def write_budget_snapshot_def Let_def)
  have m: "pred_option money (tn_allocated_budget t)"
    using assms(1,3) by (auto simp: typed_state_def tenant_by_id_def find_Some_iff split: if_splits)
  obtain cur b f e n' s2 where c: "cascade_tenant_budget_revision env (us_id user) i b s = Inr (n', s2)"
    and r: "revised_budget t (tb_top_up rq) = Inr (cur, b)" and s1: "s1 = update_tenant i (put_budget (us_id user) b f e) s2" "b = new"
    using st assms(3,4) revised_budget_money(3) [OF _ m]
    by (auto simp: stage_budget_revision_def load_tenant_or_404_def TenantBudgetRequest_ok_def split: option.splits)
  have "tn_id (put_budget (us_id user) b f e x) = tn_id x" for x by (simp add: put_budget_def)
  moreover have "tenant_by_id s2 i = Some t" using cascade_tenants [OF c] assms(3) by simp
  ultimately have "tenant_by_id s1 i = Some (put_budget (us_id user) new f e t)" using s1 by (simp add: tenant_by_id_update)
  then show ?thesis using run payload_tenants [OF payload_change_after, of env i new s1 i] by (simp add: put_budget_def)
qed

section \<open>The pages of a tenant's keys\<close>

text \<open>The keyset pagination visits every active key with a positive id.\<close>

lemma sorted_page:
  assumes "sorted_wrt (\<lambda>a b. ak_id a < ak_id b) ks" "page_after ks after limit \<noteq> []"
  shows "page_after ks after limit @ filter (\<lambda>k. ak_id (last (page_after ks after limit)) < ak_id k) ks = filter (\<lambda>k. after < ak_id k) ks"
proof -
  let ?F = "filter (\<lambda>k. after < ak_id k) ks" and ?p = "page_after ks after limit"
  have p: "?p = take limit ?F" by (simp add: page_after_def)
  have sF: "sorted_wrt (\<lambda>a b. ak_id a < ak_id b) ?F" using assms(1) by (simp add: sorted_wrt_filter)
  have split: "?F = ?p @ drop limit ?F" by (simp add: p)
  have below: "\<forall>a \<in> set ?p. \<forall>b \<in> set (drop limit ?F). ak_id a < ak_id b"
    using sF split by (metis sorted_wrt_append)
  have last: "\<forall>a \<in> set ?p. ak_id a \<le> ak_id (last ?p)"
  proof -
    have "sorted_wrt (\<lambda>a b. ak_id a < ak_id b) (butlast ?p @ [last ?p])" using sF split assms(2) by (metis append_butlast_last_id sorted_wrt_append)
    then have "\<forall>a \<in> set (butlast ?p). ak_id a < ak_id (last ?p)" by (simp add: sorted_wrt_append)
    moreover have "set ?p = insert (last ?p) (set (butlast ?p))" using assms(2) by (metis append_butlast_last_id list.simps(15) rotate1.simps(2) set_rotate1)
    ultimately show ?thesis by auto
  qed
  have after: "after < ak_id (last ?p)" using last_in_set [OF assms(2)] by (auto simp: p dest: in_set_takeD)
  let ?Q = "\<lambda>k. ak_id (last ?p) < ak_id k"
  have "filter ?Q ks = filter ?Q ?F" using after by (auto intro: filter_cong)
  also have "\<dots> = filter ?Q ?p @ filter ?Q (drop limit ?F)" by (metis split filter_append)
  also have "filter ?Q ?p = []" using last by (auto simp: filter_empty_conv not_less)
  also have "filter ?Q (drop limit ?F) = drop limit ?F" using below last_in_set [OF assms(2)] by (auto simp: filter_id_conv)
  finally show ?thesis using split by simp
qed

lemma walk_pages_all:
  assumes "sorted_wrt (\<lambda>a b. ak_id a < ak_id b) ks" "0 < limit"
  shows "walk_pages limit ks after = filter (\<lambda>k. after < ak_id k) ks"
  using assms
proof (induction limit ks after rule: walk_pages.induct)
  case (1 limit ks after)
  let ?p = "page_after ks after limit"
  show ?case
  proof (cases "?p = []")
    case True
    with 1(3) have "filter (\<lambda>k. after < ak_id k) ks = []" by (simp add: page_after_def)
    with True show ?thesis by (simp add: walk_pages.simps)
  next
    case False
    show ?thesis
    proof (cases "length ?p < limit")
      case True
      then have "?p = filter (\<lambda>k. after < ak_id k) ks" by (simp add: page_after_def)
      with True False show ?thesis by (simp add: walk_pages.simps)
    next
      case long: False
      have "walk_pages limit ks (ak_id (last ?p)) = filter (\<lambda>k. ak_id (last ?p) < ak_id k) ks"
        using 1(1) [OF refl False long 1(2,3)] .
      with sorted_page [OF 1(2) False] False long show ?thesis by (subst walk_pages.simps) (simp add: Let_def)
    qed
  qed
qed

lemma walked_keys:
  assumes "distinct (map ak_id (au_keys s))" "\<forall>k \<in> set (au_keys s). 0 < ak_id k"
  shows "walk_pages TENANT_CASCADE_PAGE_SIZE (active_keys_for_tenant now s t) 0 = active_keys_for_tenant now s t"
    "set (active_keys_for_tenant now s t) = {k \<in> set (au_keys s). owned_by s t k \<and> active_key_conditions now False k}"
proof -
  let ?ks = "active_keys_for_tenant now s t"
  show set: "set ?ks = {k \<in> set (au_keys s). owned_by s t k \<and> active_key_conditions now False k}"
    by (auto simp: active_keys_for_tenant_def)
  have "distinct (map ak_id ?ks)"
    using assms(1) by (simp add: active_keys_for_tenant_def distinct_map_sort_key distinct_map_filter)
  moreover have "sorted (map ak_id ?ks)" by (simp add: active_keys_for_tenant_def)
  ultimately have "sorted_wrt (<) (map ak_id ?ks)" by (simp add: strict_sorted_iff)
  then have "sorted_wrt (\<lambda>a b. ak_id a < ak_id b) ?ks" by (simp add: sorted_wrt_map)
  from walk_pages_all [OF this, of TENANT_CASCADE_PAGE_SIZE 0]
  show "walk_pages TENANT_CASCADE_PAGE_SIZE ?ks 0 = ?ks"
    using set assms(2) by (simp add: TENANT_CASCADE_PAGE_SIZE_def filter_id_conv)
qed

section \<open>The window reaches the gate\<close>

lemma redis_get_patch:
  "redis_get now (patch_api_key_cache_field now w fld x r) (REDIS_API_KEY_PREFIX @ v) =
     (if v = w then map_option (dict_set fld (C_str x)) (redis_get now r (REDIS_API_KEY_PREFIX @ v)) else redis_get now r (REDIS_API_KEY_PREFIX @ v))"
  by (auto simp: patch_api_key_cache_field_def change_hash_def redis_get_def Let_def split: option.split)

lemma redis_get_patches:
  "redis_get now (fold (\<lambda>w. patch_api_key_cache_field now w fld x) vs r) (REDIS_API_KEY_PREFIX @ v) =
     (if v \<in> set vs then map_option (dict_set fld (C_str x)) (redis_get now r (REDIS_API_KEY_PREFIX @ v)) else redis_get now r (REDIS_API_KEY_PREFIX @ v))"
  by (induction vs arbitrary: r) (auto simp: redis_get_patch option.map_comp o_def)

lemma fold_fold_concat: "fold (\<lambda>k. fold g (f k)) ks r = fold g (concat (map f ks)) r"
  by (induction ks arbitrary: r) simp_all

text \<open>A field that is patched for a tenant is in every entry of its active keys and in the snapshots of their rows.\<close>

lemma patched_everywhere:
  assumes ids: "distinct (map ak_id (au_keys s))" "\<forall>k \<in> set (au_keys s). 0 < ak_id k"
    and k: "k \<in> set (au_keys s)" "owned_by s t k" "active_key_conditions (en_now env) False k" and redis: "en_redis env"
    and s': "s' = snd (patch_all_tenant_key_caches env t fld x False s)"
  shows "v \<in> set (cache_key_values (en_now env) k) \<Longrightarrow> redis_get (en_now env) (au_redis s') (REDIS_API_KEY_PREFIX @ v) = Some h \<Longrightarrow>
      dict_get h fld = Some (C_str x)"
    "k\<lparr>ak_cached_data := map_option (dict_set fld (C_str x)) (ak_cached_data k)\<rparr> \<in> set (au_keys s')"
proof -
  let ?now = "en_now env" and ?ks = "active_keys_for_tenant (en_now env) s t"
  have redis': "au_redis s' = fold (\<lambda>w. patch_api_key_cache_field ?now w fld x) (concat (map (cache_key_values ?now) ?ks)) (au_redis s)"
    using redis walked_keys(1) [OF ids]
    by (simp add: s' patch_all_tenant_key_caches_def patch_cached_data_field_for_tenant_def for_each_active_tenant_key_def Let_def fold_fold_concat)
  show "dict_get h fld = Some (C_str x)"
    if v: "v \<in> set (cache_key_values ?now k)" and h: "redis_get ?now (au_redis s') (REDIS_API_KEY_PREFIX @ v) = Some h"
  proof -
    have "v \<in> set (concat (map (cache_key_values ?now) ?ks))" using v k walked_keys(2) [OF ids] by auto
    with h show ?thesis by (auto simp: redis' redis_get_patches)
  qed
  define g where "g = (\<lambda>k. if owned_by s t k \<and> active_key_conditions ?now True k
      then k\<lparr>ak_cached_data := map_option (dict_set fld (C_str x)) (ak_cached_data k)\<rparr> else k)"
  have keys: "au_keys s' = map g (au_keys s)"
    using redis by (simp add: s' g_def patch_all_tenant_key_caches_def patch_cached_data_field_for_tenant_def
        for_each_active_tenant_key_def change_cached_data_def owned_by_def Let_def)
  have "g k = k\<lparr>ak_cached_data := map_option (dict_set fld (C_str x)) (ak_cached_data k)\<rparr>"
    using k(2,3) by (cases "ak_cached_data k") (simp_all add: g_def active_key_conditions_def)
  moreover have "g k \<in> set (au_keys s')" unfolding keys using k(1) by simp
  ultimately show "k\<lparr>ak_cached_data := map_option (dict_set fld (C_str x)) (ak_cached_data k)\<rparr> \<in> set (au_keys s')" by simp
qed

text \<open>Up to the last step of a revision the keys keep their life, their place and their money.\<close>

lemma before_window_push:
  assumes "stage_budget_revision env user i rq s = Inr ((n, b), s1)"
    and s2: "s2 = (if en_core_db env then sync_ppu_wallet_and_exhaustion env i b s1 else s1)"
  shows "map row_part (au_keys s2) = map row_part (au_keys s)" "owned_by s2 t k = owned_by s t k"
proof -
  obtain f s0 where c: "cascade_tenant_budget_revision env (us_id user) i b s = Inr (n, s0)" and s1: "s1 = update_tenant i f s0"
    using assms(1) by (auto simp: stage_budget_revision_def split: option.splits)
  have p: "payload_change s1 s2" using payload_change_sync s2 by simp
  then show "map row_part (au_keys s2) = map row_part (au_keys s)"
    using cascade_frame [OF c] by (simp add: payload_change_def s1 update_tenant_def)
  have "map app_money (au_applications s2) = map app_money (au_applications s)"
    using p cascade_frame [OF c] by (simp add: payload_change_def s1 update_tenant_def)
  then have "(\<lambda>a. (ap_id a, ap_tenant_id a)) ` set (au_applications s2) = (\<lambda>a. (ap_id a, ap_tenant_id a)) ` set (au_applications s)"
    by (drule_tac arg_cong [of _ _ "\<lambda>xs. (\<lambda>x. (fst x, fst (snd x))) ` set xs"]) (simp add: image_image app_money_def)
  moreover have "owned_by x t k \<longleftrightarrow> (ak_application_id k, t) \<in> (\<lambda>a. (ap_id a, ap_tenant_id a)) ` set (au_applications x)" for x
    unfolding owned_by_def by force
  ultimately show "owned_by s2 t k = owned_by s t k" by simp
qed

lemma row_part_fields:
  assumes "row_part k' = row_part k"
  shows "ak_id k' = ak_id k" "ak_application_id k' = ak_application_id k" "active_key_conditions now False k' = active_key_conditions now False k"
    "cache_key_values now k' = cache_key_values now k" "key_values k' = key_values k"
  using assms by (simp_all add: row_part_def life_def key_money_def active_key_conditions_def cache_key_values_def live_rotated_key_def key_values_def cong: option.case_cong)

lemma cached_window_text:
  assumes "dict_get h ''budget_effective_to'' = Some (C_str (case e of None \<Rightarrow> [] | Some d \<Rightarrow> isoformat d))" "pred_option valid_moment e"
  shows "cached_budget_window_is_expired now h = is_budget_window_expired now e"
proof (cases e)
  case (Some d)
  then have "fromisoformat (isoformat d) = Some d" using assms(2) by (simp add: fromisoformat_isoformat)
  then show ?thesis using assms(1) Some by (simp add: cached_budget_window_is_expired_def present_def cell_truthy_def)
qed (use assms(1) in \<open>simp add: cached_budget_window_is_expired_def present_def cell_truthy_def is_budget_window_expired_def\<close>)


section \<open>Examples\<close>

text \<open>A tenant whose window ran from the first to the sixth day, ten days on, topped up by 500 and reopened until day 20.\<close>

definition lapsed_tenant :: Tenant where
  "lapsed_tenant = alloc_tenant\<lparr>tn_budget_effective_from := Some 0, tn_budget_effective_to := Some (5 * US_PER_DAY)\<rparr>"

definition lapsed_state :: AuthState where "lapsed_state = alloc_state\<lparr>au_tenants := [lapsed_tenant]\<rparr>"

definition lapsed_env :: Env where "lapsed_env = alloc_env\<lparr>en_now := 10 * US_PER_DAY\<rparr>"

definition reopen_request :: TenantBudgetRequest where
  "reopen_request = \<lparr>tb_top_up = Some 500, tb_budget_effective_from = None, tb_budget_effective_to = Some (20 * US_PER_DAY)\<rparr>"

lemma lapsed_facts:
  "typed_state lapsed_state" "only_admin lapsed_state alloc_user = Inr ()" "tenant_by_id lapsed_state 1 = Some lapsed_tenant"
  "TenantBudgetRequest_ok reopen_request" "window_ok lapsed_tenant"
  using alloc_state_typed
  by (simp_all add: typed_state_def tables_ok_def lapsed_state_def lapsed_tenant_def alloc_defs only_admin_def get_user_roles_def tenant_by_id_def
      is_int4_id_def INT4_MAX_def TenantBudgetRequest_ok_def reopen_request_def scale_numeral window_ok_def as_utc_date_def US_PER_DAY_def)

lemma reopen_window:
  "resolve_revised_window (en_now lapsed_env) lapsed_tenant (tb_top_up reopen_request \<noteq> None) (tb_budget_effective_from reopen_request)
     (tb_budget_effective_to reopen_request) = Inr (0, Some (20 * US_PER_DAY))"
  by code_simp

lemma reopen_covered:
  "1500 = or_zero (tn_allocated_budget lapsed_tenant) + (case tb_top_up reopen_request of None \<Rightarrow> 0 | Some a \<Rightarrow> a)" "1500 \<le> MAX_TENANT_BUDGET"
  "sum_allocated_budget lapsed_state 1 \<le> 1500" "tenant_consumed lapsed_env lapsed_state 1 \<le> 1500"
proof -
  have "dsum [dsum [20]] \<le> 1500" by (simp add: dec_eval)
  then show "tenant_consumed lapsed_env lapsed_state 1 \<le> 1500"
    by (simp add: tenant_consumed_def lapsed_state_def lapsed_env_def alloc_defs active_applications_def apps_by_tenant_def
        consumed_total_def keys_by_applications_def fetch_budget_usage_def used_of_def)
qed (simp_all add: lapsed_state_def lapsed_tenant_def reopen_request_def alloc_defs or_zero_def MAX_TENANT_BUDGET_def sum_allocated_budget_def sql_sum_def)

lemma reopen_run: "\<exists>out s'. revise_tenant_budget lapsed_env alloc_user 1 reopen_request lapsed_state = (Inr out, s')"
  using covered_stage [OF lapsed_facts(1-4) reopen_window reopen_covered] by (auto simp: revise_tenant_budget_def split: prod.split)

theorem budget_revision_keeps_window_witness:
  "\<exists>out s' t. revise_tenant_budget lapsed_env alloc_user 1 reopen_request lapsed_state = (Inr out, s') \<and> tenant_by_id s' 1 = Some t \<and>
     tn_allocated_budget t = Some 1500 \<and> tn_budget_effective_from t = Some 0 \<and> \<not> is_budget_window_expired (10 * US_PER_DAY) (tn_budget_effective_to t)"
proof -
  obtain out s' where run: "revise_tenant_budget lapsed_env alloc_user 1 reopen_request lapsed_state = (Inr out, s')" using reopen_run by blast
  have "pred_option money (tn_allocated_budget lapsed_tenant)" using lapsed_facts(1) by (simp add: typed_state_def lapsed_state_def)
  moreover have "is_budget_window_expired (en_now lapsed_env) (tn_budget_effective_to lapsed_tenant)" by code_simp
  ultimately show ?thesis
    using run budget_revision_keeps_window [OF run lapsed_facts(4,3) _ lapsed_facts(5)]
    by (auto simp: lapsed_tenant_def alloc_tenant_def reopen_request_def lapsed_env_def or_zero_def)
qed


text \<open>
  An active window can be cut short, even to a day that has passed, although the service promises that a
  given end may only extend it: here a top-up closes the window it pays for.
\<close>

lemma active_window_may_be_closed:
  "resolve_revised_window (3 * US_PER_DAY) lapsed_tenant True None (Some US_PER_DAY) = Inr (0, Some US_PER_DAY)"
  "is_budget_window_expired (3 * US_PER_DAY) (Some US_PER_DAY)"
  "\<not> is_budget_window_expired (3 * US_PER_DAY) (tn_budget_effective_to lapsed_tenant)"
  by code_simp+

end
