(* ===== verification/Tenant_Gate.thy ===== *)
theory Tenant_Gate
  imports Tenant_Props
begin

text \<open>
  What the status of a tenant means for its API keys: a suspended tenant's keys are refused while it stays
  suspended, and the keys of a deactivated tenant are revoked for good, whatever is done to keys and
  tenants afterwards, reactivation included.
\<close>

section \<open>Operations on tenants keep the keys' invariant\<close>

lemma update_tenant_same [simp]:
  "au_keys (update_tenant i f s) = au_keys s" "au_redis (update_tenant i f s) = au_redis s" "au_applications (update_tenant i f s) = au_applications s"
  by (simp_all add: update_tenant_def)

lemma key_inv_same_keys: "au_keys s' = au_keys s \<Longrightarrow> au_redis s' = au_redis s \<Longrightarrow> key_inv now s' = key_inv now s"
  by (simp add: key_inv_def values_ok_def coherent_def)

lemma stays_revoked_same_keys: "au_keys s' = au_keys s \<Longrightarrow> stays_revoked s' u = stays_revoked s u"
  by (simp add: stays_revoked_def)

lemma stays_revoked_update [simp]: "stays_revoked s (update_tenant i f s)"
  by (auto simp: stays_revoked_def)

text \<open>An operation on keys that runs after a change of tables that holds no keys.\<close>

context key_operation
begin

lemma after_tables:
  assumes "au_keys s' = au_keys s" "au_redis s' = au_redis s" "en_redis env" "key_inv (en_now env) s"
  shows "key_inv (en_now env) (run env s')" "stays_revoked s (run env s')"
  using keeps [OF assms(3), of s'] revoked [OF assms(3), of s'] assms key_inv_same_keys [of s' s] stays_revoked_same_keys [of s' s] by simp_all

end

lemma status_keeps:
  assumes "en_redis env" "key_inv (en_now env) s"
  shows "key_inv (en_now env) (snd (fst (update_tenant_status org cfg env user i st us s)))"
    "stays_revoked s (snd (fst (update_tenant_status org cfg env user i st us s)))"
  using assms key_inv_same_keys [of "update_tenant i f s" s for f] stays_revoked_same_keys [of "update_tenant i f s" s for f]
    evict_tenant.after_tables [of "update_tenant i f s" s for f] revoke_tenant.after_tables [of "update_tenant i f s" s for f]
    refresh_tenant.after_tables [of "update_tenant i f s" s for f]
  by (simp_all add: update_tenant_status_def keys_follow_status_def split: sum.split TenantStatus.split)

interpretation change_status: key_operation "\<lambda>env s. snd (fst (update_tenant_status org cfg env user i st us s))" for org cfg user i st us
  using status_keeps by unfold_locales blast+

lemma assign_keeps:
  assumes redis: "en_redis env" and inv: "key_inv (en_now env) s"
  shows "key_inv (en_now env) (snd (assign_tenant_tier env tiers catalogue user i tier s)) \<and>
    stays_revoked s (snd (assign_tenant_tier env tiers catalogue user i tier s))"
proof (cases "check_tier_change env tiers user i tier s")
  case (Inl e)
  then show ?thesis using inv by (simp add: assign_tenant_tier_def)
next
  case (Inr t)
  let ?s = "update_tenant i (\<lambda>t. t\<lparr>tn_tier_id := Some tier, tn_updated_by := Some (us_id user)\<rparr>) s"
  obtain r s1 where c: "clear_quota_flags_for_tenant env catalogue i ?s = (r, s1)" by fastforce
  have s1: "key_inv (en_now env) s1" "stays_revoked s s1"
    using clear_quota.after_tables [of ?s s env catalogue i] redis inv c by simp_all
  then show ?thesis
    using patch_tier.keeps [OF redis s1(1), of i tier] patch_tier.revoked [OF redis s1(1), of i tier] stays_revoked_trans [OF s1(2)] Inr c
    by (simp add: assign_tenant_tier_def split: sum.split)
qed

interpretation assign_tier: key_operation "\<lambda>env s. snd (assign_tenant_tier env tiers catalogue user i tier s)" for tiers catalogue user i tier
  using assign_keeps by unfold_locales blast+

lemma unassign_keeps:
  assumes "en_redis env" "key_inv (en_now env) s"
  shows "key_inv (en_now env) (snd (unassign_tenant_tier env user i s)) \<and> stays_revoked s (snd (unassign_tenant_tier env user i s))"
  using assms patch_no_tier.after_tables [of "update_tenant i f s" s for f] patch_no_tier.keeps patch_no_tier.revoked
  by (auto simp: unassign_tenant_tier_def Let_def split: sum.splits prod.splits dest!: arg_cong [of _ _ snd])

interpretation unassign_tier: key_operation "\<lambda>env s. snd (unassign_tenant_tier env user i s)" for user i
  using unassign_keeps by unfold_locales blast+

lemma sync_keeps:
  assumes "en_redis env" "key_inv (en_now env) s"
  shows "key_inv (en_now env) (sync_ppu_wallet_and_exhaustion env i b s)" "stays_revoked s (sync_ppu_wallet_and_exhaustion env i b s)"
  using assms patch_budget_flag.keeps patch_budget_flag.revoked flag_keys.keeps flag_keys.revoked
  by (simp_all add: sync_ppu_wallet_and_exhaustion_def Let_def)

lemma revise_keeps:
  assumes redis: "en_redis env" and inv: "key_inv (en_now env) s"
  shows "key_inv (en_now env) (snd (revise_tenant_budget env user i rq s)) \<and> stays_revoked s (snd (revise_tenant_budget env user i rq s))"
proof (cases "stage_budget_revision env user i rq s")
  case (Inl e)
  then show ?thesis using inv by (simp add: revise_tenant_budget_def)
next
  case (Inr out)
  then obtain n b s1 where st: "stage_budget_revision env user i rq s = Inr ((n, b), s1)" by (cases out) auto
  then obtain f s0 where c: "cascade_tenant_budget_revision env (us_id user) i b s = Inr (n, s0)" and s1: "s1 = update_tenant i f s0"
    by (auto simp: stage_budget_revision_def split: option.splits)
  have "au_keys s1 = au_keys s" "au_redis s1 = au_redis s" using cascade_frame [OF c] by (simp_all add: s1)
  then have inv1: "key_inv (en_now env) s1" "stays_revoked s s1" using inv key_inv_same_keys [of s1 s] by (auto simp: stays_revoked_def)
  define s2 where "s2 = (if en_core_db env then sync_ppu_wallet_and_exhaustion env i b s1 else s1)"
  have inv2: "key_inv (en_now env) s2" "stays_revoked s s2"
    using inv1 sync_keeps [OF redis inv1(1), of i b] stays_revoked_trans by (auto simp: s2_def)
  have run: "snd (revise_tenant_budget env user i rq s) = sync_budget_effective_to_cache env i s2"
    by (simp add: revise_tenant_budget_def st after_budget_revision_def write_budget_snapshot_def s2_def Let_def)
  show ?thesis
    using inv2 patch_window.keeps [OF redis inv2(1)] stays_revoked_trans [OF inv2(2) patch_window.revoked [OF redis inv2(1)]]
    by (simp add: run sync_budget_effective_to_cache_def split: option.split)
qed

interpretation revise_budget: key_operation "\<lambda>env s. snd (revise_tenant_budget env user i rq s)" for user i rq
  using revise_keeps by unfold_locales blast+

section \<open>Steps\<close>

text \<open>Everything that happens to keys, and every administration of a tenant, while Redis answers.\<close>

inductive tenant_step :: "string \<Rightarrow> Settings \<Rightarrow> Permission list \<Rightarrow> datetime \<times> AuthState \<Rightarrow> datetime \<times> AuthState \<Rightarrow> bool"
  for org :: string and cfg :: Settings and ps :: "Permission list" where
  keys: "key_step cfg ps st st' \<Longrightarrow> tenant_step org cfg ps st st'"
| status: "en_redis env \<Longrightarrow>
    tenant_step org cfg ps (en_now env, s) (en_now env, snd (fst (update_tenant_status org cfg env user i new_status us s)))"
| assign: "en_redis env \<Longrightarrow> tenant_step org cfg ps (en_now env, s) (en_now env, snd (assign_tenant_tier env tiers catalogue user i tier s))"
| unassign: "en_redis env \<Longrightarrow> tenant_step org cfg ps (en_now env, s) (en_now env, snd (unassign_tenant_tier env user i s))"
| revise: "en_redis env \<Longrightarrow> tenant_step org cfg ps (en_now env, s) (en_now env, snd (revise_tenant_budget env user i rq s))"

lemma tenant_step_keeps:
  assumes "tenant_step org cfg ps st st'" "key_inv (fst st) (snd st)" "1 \<le> st_api_key_expire_days cfg"
  shows "key_inv (fst st') (snd st') \<and> stays_revoked (snd st) (snd st')"
  using assms(1)
proof cases
  case keys
  then show ?thesis by (rule key_step_keeps [OF _ assms(2,3)])
qed (use assms(2) in \<open>simp_all add: change_status.keeps change_status.revoked assign_tier.keeps assign_tier.revoked
    unassign_tier.keeps unassign_tier.revoked revise_budget.keeps revise_budget.revoked\<close>)

lemma tenant_steps_keep:
  assumes "(tenant_step org cfg ps)\<^sup>*\<^sup>* st st'" "key_inv (fst st) (snd st)" "1 \<le> st_api_key_expire_days cfg"
  shows "key_inv (fst st') (snd st') \<and> stays_revoked (snd st) (snd st')"
  using assms(1)
proof induction
  case base
  with assms(2) show ?case by simp
next
  case (step y z)
  with tenant_step_keeps [OF step.hyps(2) _ assms(3)] stays_revoked_trans show ?case by blast
qed

section \<open>A tenant that is shut\<close>

text \<open>No key of the tenant is eligible, and no entry answers for one of its values.\<close>

definition shut :: "datetime \<Rightarrow> int \<Rightarrow> AuthState \<Rightarrow> bool" where
  "shut now t s \<longleftrightarrow> (\<forall>k \<in> set (au_keys s). owned_by s t k \<longrightarrow>
     \<not> is_key_eligible s k \<and> (\<forall>v \<in> key_values k. \<forall>e. \<not> served now (au_redis s) v e))"

lemma served_later: "now \<le> later \<Longrightarrow> served later r v e \<Longrightarrow> served now r v e"
  by (auto simp: served_def live_def split: option.splits)

lemma one_row:
  assumes "key_inv now s" "k \<in> set (au_keys s)" "k' \<in> set (au_keys s)" "v \<in> key_values k" "v \<in> key_values k'"
  shows "k' = k"
proof -
  have ok: "values_ok s" using assms(1) by (simp add: key_inv_def)
  then have "ak_id k' = ak_id k" using assms(2-5) unfolding values_ok_def by blast
  with values_ok_row [OF ok assms(3,2)] show ?thesis by simp
qed

lemma found_is:
  assumes "key_inv now s" "k \<in> set (au_keys s)" "token \<in> key_values k" "token \<noteq> []" "get_by_api_key_if_valid now s token = Inr (Some x)"
  shows "x = k"
proof (rule one_row [OF assms(1,2) _ assms(3)])
  show "x \<in> set (au_keys s)" by (rule found_row(1) [OF assms(5)])
  show "token \<in> key_values x" using found_value [OF assms(5,4)] cache_values_subset by blast
qed

lemma shut_refuses:
  assumes inv: "key_inv (en_now env) s" and sh: "shut (en_now env) t s" and k: "k \<in> set (au_keys s)" "owned_by s t k" "token \<in> key_values k"
  shows "fst (validate_api_key cfg env token s) \<noteq> Inr (ValidKey p)"
proof
  assume ans: "fst (validate_api_key cfg env token s) = Inr (ValidKey p)"
  then have tok: "token \<noteq> []" by (auto simp: validate_api_key_def is_api_key_def split: if_splits)
  show False
  proof (cases "get_api_key_cache (en_now env) (au_redis s) token")
    case (Some h)
    with ans have "\<not> is_cache_entry_invalid h" by (auto simp: validate_api_key_def split: if_splits)
    with Some have "\<exists>e. served (en_now env) (au_redis s) token e"
      by (auto simp: served_def get_api_key_cache_def redis_get_def split: option.splits if_splits)
    with sh k show False unfolding shut_def by blast
  next
    case None
    with ans have "fst (resolve_from_db_or_tombstone cfg (en_now env) token s) = Inr p"
      by (auto simp: validate_api_key_def split: if_splits prod.splits sum.splits)
    then obtain x where "get_by_api_key_if_valid (en_now env) s token = Inr (Some x)" "is_key_eligible s x"
      by (auto simp: resolve_from_db_or_tombstone_def split: sum.splits option.splits if_splits)
    with found_is [OF inv k(1,3) tok] sh k show False unfolding shut_def by blast
  qed
qed

lemma validate_tables: "au_applications (snd (validate_api_key cfg env token s)) = au_applications s" "au_tenants (snd (validate_api_key cfg env token s)) = au_tenants s"
  using validate_effect [of cfg env token s] by auto

lemma eligible_cong:
  "au_applications s' = au_applications s \<Longrightarrow> au_tenants s' = au_tenants s \<Longrightarrow> is_key_eligible s' k = is_key_eligible s k"
proof -
  assume "au_applications s' = au_applications s" "au_tenants s' = au_tenants s"
  then have "app_by_id s' = app_by_id s" "tenant_by_id s' = tenant_by_id s" by (simp_all add: fun_eq_iff app_by_id_def tenant_by_id_def)
  then show ?thesis unfolding is_key_eligible_def application_and_tenant_def by simp (simp only:)
qed

lemma owned_cong: "au_applications s' = au_applications s \<Longrightarrow> owned_by s' t k = owned_by s t k"
  by (simp add: owned_by_def)

lemma validate_serves:
  assumes inv: "key_inv (en_now env) s" and k: "k \<in> set (au_keys s)" "v \<in> key_values k" "\<not> is_key_eligible s k"
    and srv: "served (en_now env) (au_redis (snd (validate_api_key cfg env token s))) v e"
  shows "served (en_now env) (au_redis s) v e"
proof (cases "v = token")
  case False
  with validate_effect [of cfg env token s] srv show ?thesis by (auto dest: served_set)
next
  case True
  have "fades (en_now env) (au_redis s) (au_redis (snd (validate_api_key cfg env token s)))"
  proof (cases "is_api_key token \<and> en_redis env \<and> get_api_key_cache (en_now env) (au_redis s) token = None")
    case False
    then have "snd (validate_api_key cfg env token s) = s" by (auto simp: validate_api_key_def split: option.split)
    then show ?thesis by simp
  next
    case ask: True
    then have tok: "token \<noteq> []" by (auto simp: is_api_key_def)
    have run: "snd (validate_api_key cfg env token s) = snd (resolve_from_db_or_tombstone cfg (en_now env) token s)"
      using ask by (simp add: validate_api_key_def split: prod.split sum.split)
    have "get_by_api_key_if_valid (en_now env) s token = Inr (Some x) \<Longrightarrow> \<not> is_key_eligible s x" for x
      using found_is [OF inv k(1) _ tok] k(2,3) True by blast
    then show ?thesis using tombstone_fades by (simp add: run resolve_from_db_or_tombstone_def split: sum.split option.split)
  qed
  with srv show ?thesis unfolding fades_def by blast
qed

lemma traffic_shut:
  assumes "(traffic cfg)\<^sup>*\<^sup>* st st'" "key_inv (fst st) (snd st)" "shut (fst st) t (snd st)" "1 \<le> st_api_key_expire_days cfg"
  shows "key_inv (fst st') (snd st') \<and> shut (fst st') t (snd st') \<and> au_keys (snd st') = au_keys (snd st) \<and> au_applications (snd st') = au_applications (snd st)"
  using assms(1)
proof induction
  case base
  with assms show ?case by simp
next
  case (step y z)
  have inv: "key_inv (fst z) (snd z)" using key_step_keeps [OF traffic_key_step [OF step.hyps(2)] _ assms(4)] step.IH by blast
  from step.hyps(2) have "shut (fst z) t (snd z) \<and> au_keys (snd z) = au_keys (snd y) \<and> au_applications (snd z) = au_applications (snd y)"
  proof cases
    case (tick now later s)
    then have "shut later t s" using step.IH served_later [OF tick(3)] unfolding shut_def by (metis fst_conv snd_conv)
    with tick show ?thesis by simp
  next
    case (request env s token)
    let ?s = "snd (validate_api_key cfg env token s)"
    have i: "key_inv (en_now env) s" and sh: "shut (en_now env) t s" using step.IH request by simp_all
    have "\<not> is_key_eligible ?s k \<and> (\<forall>v \<in> key_values k. \<forall>e. \<not> served (en_now env) (au_redis ?s) v e)"
      if k: "k \<in> set (au_keys s)" "owned_by s t k" for k
      using sh k validate_serves [OF i k(1)] eligible_cong [OF validate_tables] unfolding shut_def by blast
    then have "shut (en_now env) t ?s"
      using validate_rows [of cfg env token s] owned_cong [OF validate_tables(1)] unfolding shut_def by simp
    then show ?thesis using request validate_rows [of cfg env token s] validate_tables(1) [of cfg env token s] by simp
  qed
  with inv step.IH show ?case by simp
qed

section \<open>What a change of status does\<close>

lemma changed_status:
  assumes "update_tenant_status org cfg env user i st us s = ((Inr (), s1), us1)"
  shows "\<exists>t. tenant_by_id s i = Some t \<and> st \<in> set (ALLOWED_TENANT_STATUS_TRANSITIONS (tn_status t)) \<and> (st \<noteq> ACTIVE \<longrightarrow> \<not> is_default_tenant org t)"
    "us1 = sync_tenant_users_for_status i st (us_id user) us"
    "keys_follow_status cfg env i st (update_tenant i (\<lambda>t. t\<lparr>tn_status := st, tn_updated_by := Some (us_id user)\<rparr>) s) = (Inr (), s1)"
  using assms
  by (auto simp: update_tenant_status_def check_status_change_def load_tenant_or_404_def assert_default_tenant_not_targeted_def
      assert_valid_tenant_status_transition_def split: sum.splits option.splits if_splits)

lemma owned_not_eligible:
  assumes tables: "distinct (map ap_id (au_applications s))" "\<forall>a \<in> set (au_applications s). is_int4_id (Some (ap_id a))"
    and t: "tenant_by_id s i = Some t" "tn_status t \<noteq> ACTIVE" and k: "owned_by s i k"
  shows "\<not> is_key_eligible s k"
proof -
  obtain a where a: "a \<in> set (au_applications s)" "ap_id a = ak_application_id k" "ap_tenant_id a = i" using k by (auto simp: owned_by_def)
  have "app_by_id s (ak_application_id k) = Some a"
    using find_distinct [OF tables(1) a(1)] bspec [OF tables(2) a(1)] a(2) by (simp add: app_by_id_def)
  then show ?thesis using t a(3) by (simp add: is_key_eligible_def application_and_tenant_def application_may_use_api_keys_def)
qed

lemma inactive_tenant_row:
  assumes "tenant_by_id s i = Some t" "st \<noteq> ACTIVE"
  shows "\<exists>t'. tenant_by_id (update_tenant i (\<lambda>t. t\<lparr>tn_status := st, tn_updated_by := u\<rparr>) s) i = Some t' \<and> tn_status t' \<noteq> ACTIVE"
  using assms by (simp add: tenant_by_id_update)

lemma served_fold_delete:
  "served now (fold delete_key_caches ks r) v e \<longleftrightarrow> (v = [] \<or> (\<forall>k \<in> set ks. v \<notin> key_values k)) \<and> served now r v e"
  by (induction ks arbitrary: r) (auto simp: served_delete_key_caches)

lemma backing_row_listed:
  assumes inv: "key_inv now s" and k: "k \<in> set (au_keys s)" "v \<in> key_values k" and srv: "served now (au_redis s) v e"
  shows "active_key_conditions now False k" "v \<noteq> []"
proof -
  obtain x where x: "x \<in> set (au_keys s)" "backs x v e" using inv srv by (auto simp: key_inv_def coherent_def)
  then have "x = k" using one_row [OF inv k(1) x(1) k(2)] backs_value by blast
  moreover have "live now e" using srv by (simp add: served_def)
  ultimately show "active_key_conditions now False k" using x(2) by (auto simp: backs_def active_key_conditions_def live_def ends_by_def split: option.splits)
  show "v \<noteq> []" using not_served_empty [OF inv] srv by auto
qed

lemma evicted_tenant_shut:
  assumes inv: "key_inv (en_now env) s" and redis: "en_redis env" and pos: "\<forall>k \<in> set (au_keys s). 0 < ak_id k"
    and k: "k \<in> set (au_keys s)" "owned_by s i k" "v \<in> key_values k"
  shows "\<not> served (en_now env) (au_redis (snd (evict_keys_for_tenant env i s))) v e"
proof
  let ?ks = "active_keys_for_tenant (en_now env) s i"
  assume srv: "served (en_now env) (au_redis (snd (evict_keys_for_tenant env i s))) v e"
  have ids: "distinct (map ak_id (au_keys s))" using inv by (simp add: key_inv_def values_ok_def)
  have "served (en_now env) (fold delete_key_caches ?ks (au_redis s)) v e"
    using srv redis walked_keys(1) [OF ids pos] by (simp add: evict_keys_for_tenant_def for_each_active_tenant_key_def)
  then have s: "served (en_now env) (au_redis s) v e" "v = [] \<or> (\<forall>x \<in> set ?ks. v \<notin> key_values x)" by (simp_all add: served_fold_delete)
  from backing_row_listed [OF inv k(1,3) s(1)] k s(2) walked_keys(2) [OF ids pos, of "en_now env" i] show False by auto
qed


lemma revoked_tenant_rows:
  assumes ok: "values_ok s" and run: "revoke_keys_for_tenant env i s = (Inr (), s1)" and k: "k \<in> set (au_keys s)" "owned_by s i k"
  shows "\<exists>k1 \<in> set (au_keys s1). \<not> ak_is_active k1 \<and> key_values k1 = key_values k"
proof -
  define app_ids where "app_ids = map ap_id (apps_by_tenant s i)"
  have own: "ak_application_id k \<in> set app_ids" using k(2) by (auto simp: owned_by_def app_ids_def apps_by_tenant_def image_iff)
  then have ne: "app_ids \<noteq> []" by auto
  define c where "c = (\<lambda>k :: APIKey. ak_application_id k \<in> set app_ids \<and> ak_is_active k)"
  define off where "off = (\<lambda>k. if c k then k\<lparr>ak_is_active := False\<rparr> else k)"
  define gone where "gone = filter (\<lambda>v. v \<noteq> []) (concat (map (\<lambda>k. ak_api_key k # (case ak_rotated_key k of None \<Rightarrow> [] | Some v \<Rightarrow> [v]))
      (filter c (au_keys s))))"
  have stmt: "revoke_active_for_applications app_ids s = (gone, s\<lparr>au_keys := map off (au_keys s)\<rparr>)"
    unfolding revoke_active_for_applications_def Let_def if_not_P [OF ne] c_def [symmetric] off_def [symmetric] gone_def ..
  have none: "\<forall>k \<in> set (au_keys s). c k \<longrightarrow> ak_api_key k = []" if "gone = []"
    using that by (auto simp: gone_def filter_empty_conv)
  have off: "\<not> ak_is_active (off k)" "key_values (off k) = key_values k" using own by (simp_all add: off_def c_def key_values_def)
  show ?thesis
  proof (cases "gone = []")
    case True
    with run stmt have "s1 = s" by (simp add: revoke_keys_for_tenant_def app_ids_def [symmetric])
    moreover have "\<not> c k" using none [OF True] ok k(1) by (auto simp: values_ok_def)
    ultimately show ?thesis using k(1) own by (auto simp: c_def)
  next
    case False
    with run stmt have "au_keys s1 = map off (au_keys s)"
      by (auto simp: revoke_keys_for_tenant_def app_ids_def [symmetric] split: if_splits)
    then have "off k \<in> set (au_keys s1)" using k(1) by simp
    with off show ?thesis by blast
  qed
qed

text \<open>
  C10: The keys of a deactivated tenant are gone for good: whatever is done afterwards to keys and to tenants,
  reactivating this tenant and topping up its budget included, none of the values its keys held
  validates again.
\<close>

theorem deactivated_tenant_keys_stay_out:
  assumes inv: "key_inv (en_now env0) s0" and cfg: "1 \<le> st_api_key_expire_days cfg" "en_redis env0"
    and run: "update_tenant_status org cfg env0 user i DEACTIVATED us s0 = ((Inr (), s1), us1)"
    and k: "k \<in> set (au_keys s0)" "owned_by s0 i k" "token \<in> key_values k"
    and later: "(tenant_step org cfg ps)\<^sup>*\<^sup>* (en_now env0, s1) (en_now env, s)"
  shows "fst (validate_api_key cfg env token s) \<noteq> Inr (ValidKey p)"
proof
  assume ans: "fst (validate_api_key cfg env token s) = Inr (ValidKey p)"
  let ?s = "update_tenant i (\<lambda>t. t\<lparr>tn_status := DEACTIVATED, tn_updated_by := Some (us_id user)\<rparr>) s0"
  have rev: "revoke_keys_for_tenant env0 i ?s = (Inr (), s1)" using changed_status(3) [OF run] by (simp add: keys_follow_status_def)
  have inv': "key_inv (en_now env0) ?s" using inv key_inv_same_keys [of ?s s0] by simp
  have inv1: "key_inv (en_now env0) s1" using revoke_tenant.keeps [OF cfg(2) inv', of i] rev by simp
  have kept: "key_inv (en_now env) s" "stays_revoked s1 s" using tenant_steps_keep [OF later _ cfg(1)] inv1 by simp_all
  have "values_ok ?s" using inv' by (simp add: key_inv_def)
  from revoked_tenant_rows [OF this rev, of k] k obtain k1 where k1: "k1 \<in> set (au_keys s1)" "\<not> ak_is_active k1" "token \<in> key_values k1"
    by (auto simp: owned_by_def)
  then obtain k' where k': "k' \<in> set (au_keys s)" "\<not> ak_is_active k'" "token \<in> key_values k'"
    using kept(2) unfolding stays_revoked_def by metis
  obtain x where x: "x \<in> set (au_keys s)" "ak_is_active x" "token \<in> key_values x"
    using valid_answer_row [OF kept(1) ans] cache_values_subset by blast
  with one_row [OF kept(1) k'(1) x(1) k'(3) x(3)] k'(2) show False by simp
qed

section \<open>Examples\<close>

definition member :: TenantUser where
  "member = \<lparr>tu_id = ''m'', tu_tenant_id = Some 1, tu_is_delete = False, tu_activated_at = Some 0, tu_is_tenant_active = True, tu_updated_by = None\<rparr>"

lemma life_typed: "typed_state life_state"
  using alloc_state_typed by (simp add: typed_state_def tables_ok_def life_defs typed_key_def is_int4_id_def INT4_MAX_def)

lemma life_owned: "life_key \<in> set (au_keys life_state)" "owned_by life_state 1 life_key" "life_token \<in> key_values life_key"
  by (simp_all add: life_defs owned_by_def key_values_def)

lemma life_days: "1 \<le> st_api_key_expire_days life_settings" "en_redis alloc_env"
  by (simp_all add: life_settings_def alloc_env_def)

lemma ok_outcome: "\<not> isl (fst (fst x)) \<Longrightarrow> \<exists>s us. x = ((Inr (), s), us)"
  by (cases x; cases "fst (fst x)") auto

lemma suspend_run: "\<exists>s1 us1. update_tenant_status ''Default'' life_settings alloc_env alloc_user 1 SUSPENDED [member] life_state = ((Inr (), s1), us1)"
  by (rule ok_outcome) code_simp

lemma deactivate_run: "\<exists>s1 us1. update_tenant_status ''Default'' life_settings alloc_env alloc_user 1 DEACTIVATED [member] life_state = ((Inr (), s1), us1)"
  by (rule ok_outcome) code_simp


theorem deactivated_tenant_keys_stay_out_witness:
  "\<exists>s1 us1 s2. update_tenant_status ''Default'' life_settings alloc_env alloc_user 1 DEACTIVATED [member] life_state = ((Inr (), s1), us1) \<and>
     s2 = snd (fst (update_tenant_status ''Default'' life_settings alloc_env alloc_user 1 ACTIVE us1 s1)) \<and>
     (\<forall>p. fst (validate_api_key life_settings alloc_env life_token s2) \<noteq> Inr (ValidKey p))"
proof -
  obtain s1 us1 where run: "update_tenant_status ''Default'' life_settings alloc_env alloc_user 1 DEACTIVATED [member] life_state = ((Inr (), s1), us1)"
    using deactivate_run by blast
  have "(tenant_step ''Default'' life_settings [])\<^sup>*\<^sup>* (en_now alloc_env, s1)
      (en_now alloc_env, snd (fst (update_tenant_status ''Default'' life_settings alloc_env alloc_user 1 ACTIVE us1 s1)))"
    using life_days(2) by (intro r_into_rtranclp tenant_step.status)
  from deactivated_tenant_keys_stay_out [OF life_inv life_days run life_owned this] run show ?thesis by blast
qed

end
