(* ===== verification/Application_Gate.thy ===== *)
theory Application_Gate
  imports Application_Props Tenant_Gate
begin

text \<open>
  What the status of an application means for its API keys: from its deactivation on, every request with
  one of its keys is refused, through any later change of applications, its own reactivation included, until
  some operation gives the key a budget again.
\<close>

section \<open>Flags that are raised\<close>

lemma raised_entry:
  assumes "redis_get now (fold (\<lambda>v. patch_api_key_cache_field now v BUDGET_FLAG (flag True)) vs r) (REDIS_API_KEY_PREFIX @ v) = Some h"
  shows "dict_get h BUDGET_FLAG = Some (C_str ''1'') \<or> v \<notin> set vs \<and> redis_get now r (REDIS_API_KEY_PREFIX @ v) = Some h"
proof -
  have mem: "REDIS_API_KEY_PREFIX @ v \<in> (@) REDIS_API_KEY_PREFIX ` set vs \<longleftrightarrow> v \<in> set vs" by (simp add: image_iff)
  show ?thesis
  proof (cases "v \<in> set vs")
    case True
    then obtain h0 where "h = dict_set BUDGET_FLAG (C_str ''1'') h0"
      using assms unfolding redis_get_def dict_get_patches mem by (auto simp: flag_entry_def flag_def split: option.splits if_splits)
    then show ?thesis by simp
  next
    case False
    then show ?thesis using assms unfolding redis_get_def dict_get_patches mem by simp
  qed
qed

lemma raised_rows:
  assumes "en_redis env" "x \<in> set (au_keys (snd (set_budget_exhausted_for_keys env ids True s)))"
  obtains k where "k \<in> set (au_keys s)" "x = (if flagged (en_now env) ids k then flag_key True k else k)"
proof -
  have "x \<in> (\<lambda>k. if flagged (en_now env) ids k then flag_key True k else k) ` set (au_keys s)"
    using assms(2) by (simp add: set_exhausted_keys [OF assms(1)])
  then show thesis using that by blast
qed

lemma raised_row: "distinct (dict_keys d) \<Longrightarrow> ak_cached_data k = Some d \<Longrightarrow>
   \<exists>d'. ak_cached_data (flag_key True k) = Some d' \<and> distinct (dict_keys d') \<and> dict_get d' BUDGET_FLAG = Some (C_str ''1'')"
  by (simp add: flag_key_def flag_def)

lemma flag_key_values [simp]: "key_values (flag_key b k) = key_values k" "ak_id (flag_key b k) = ak_id k"
  by (simp_all add: flag_key_def key_values_def)

lemma raise_keeps_stopped:
  assumes redis: "en_redis env" and inv: "key_inv (en_now env) s" and st: "stopped (en_now env) i s"
  shows "stopped (en_now env) i (snd (set_budget_exhausted_for_keys env ids True s))"
  unfolding stopped_def
proof (intro ballI impI conjI allI)
  let ?now = "en_now env" and ?s = "snd (set_budget_exhausted_for_keys env ids True s)"
  fix x assume x: "x \<in> set (au_keys ?s)" "ak_id x = i"
  from raised_rows [OF redis x(1)] obtain k where "k \<in> set (au_keys s)" and e: "x = (if flagged ?now ids k then flag_key True k else k)" .
  with x(2) have k: "k \<in> set (au_keys s)" "ak_id k = i" "key_values x = key_values k" by (auto split: if_splits)
  obtain d where d: "ak_cached_data k = Some d" "distinct (dict_keys d)" "dict_get d BUDGET_FLAG = Some (C_str ''1'')"
    using st k unfolding stopped_def by blast
  show "\<exists>d. ak_cached_data x = Some d \<and> distinct (dict_keys d) \<and> dict_get d BUDGET_FLAG = Some (C_str ''1'')"
    using raised_row [OF d(2,1)] d e by (cases "flagged ?now ids k") simp_all
  fix v h assume v: "v \<in> key_values x" and h: "redis_get ?now (au_redis ?s) (REDIS_API_KEY_PREFIX @ v) = Some h" "\<not> is_cache_entry_invalid h"
  from raised_entry [of ?now _ "au_redis s" v h] h(1)
  have "dict_get h BUDGET_FLAG = Some (C_str ''1'') \<or> redis_get ?now (au_redis s) (REDIS_API_KEY_PREFIX @ v) = Some h"
    by (simp add: set_exhausted_keys [OF redis]) blast
  with st k v h(2) show "dict_get h BUDGET_FLAG = Some (C_str ''1'')" unfolding stopped_def by blast
qed

lemma raise_stops:
  assumes redis: "en_redis env" and inv: "key_inv (en_now env) s"
    and k: "k \<in> set (au_keys s)" "ak_id k = i" "flagged (en_now env) ids k" "ak_cached_data k = Some d" "distinct (dict_keys d)"
  shows "stopped (en_now env) i (snd (set_budget_exhausted_for_keys env ids True s))"
  unfolding stopped_def
proof (intro ballI impI conjI allI)
  let ?now = "en_now env" and ?s = "snd (set_budget_exhausted_for_keys env ids True s)"
  let ?vs = "live_key_values ?now (filter (flagged ?now ids) (au_keys s))"
  have ok: "values_ok s" using inv by (simp add: key_inv_def)
  fix x assume x: "x \<in> set (au_keys ?s)" "ak_id x = i"
  from raised_rows [OF redis x(1)] obtain y where y: "y \<in> set (au_keys s)" "x = (if flagged ?now ids y then flag_key True y else y)" .
  have "ak_id y = i" using y(2) x(2) by (simp split: if_splits)
  have "y = k" using values_ok_row [OF ok y(1) k(1)] \<open>ak_id y = i\<close> k(2) by simp
  with y k have x_def: "x = flag_key True k" by simp
  with raised_row [OF k(5,4)] show "\<exists>d. ak_cached_data x = Some d \<and> distinct (dict_keys d) \<and> dict_get d BUDGET_FLAG = Some (C_str ''1'')" by blast
  fix v h assume v: "v \<in> key_values x" and h: "redis_get ?now (au_redis ?s) (REDIS_API_KEY_PREFIX @ v) = Some h" "\<not> is_cache_entry_invalid h"
  have "redis_get ?now (fold (\<lambda>v. patch_api_key_cache_field ?now v BUDGET_FLAG (flag True)) ?vs (au_redis s)) (REDIS_API_KEY_PREFIX @ v) = Some h"
    using h(1) by (simp add: set_exhausted_keys [OF redis])
  from raised_entry [OF this] show "dict_get h BUDGET_FLAG = Some (C_str ''1'')"
  proof
    assume a: "v \<notin> set ?vs \<and> redis_get ?now (au_redis s) (REDIS_API_KEY_PREFIX @ v) = Some h"
    then have "v \<in> set (cache_key_values ?now k)" using served_value_live [OF inv k(1) _ _ h(2)] v x_def by simp
    with a k(1,3) show ?thesis by (auto simp: live_key_values_def)
  qed
qed

text \<open>Flags of a key that is active and cached cannot be raised without Redis.\<close>

lemma raised_needs_redis:
  assumes "set_budget_exhausted_for_keys env ids True s = (Inr (), s1)" "k \<in> set (au_keys s)" "flagged (en_now env) ids k"
  shows "en_redis env"
proof (rule ccontr)
  assume "\<not> en_redis env"
  moreover have "ak_api_key k \<in> set (live_key_values (en_now env) (filter (\<lambda>k. ak_id k \<in> set ids \<and> active_key_conditions (en_now env) True k) (au_keys s)))"
    using assms(2,3) by (auto simp: live_key_values_def flagged_def cache_key_values_def intro!: bexI [of _ k] split: option.split)
  moreover have "ids \<noteq> []" using assms(3) by (auto simp: flagged_def)
  ultimately show False
    using assms(1) by (auto simp: set_budget_exhausted_for_keys_def patch_cached_data_field_for_keys_def Let_def split: if_splits)
qed

section \<open>Changes of an application\<close>

text \<open>Up to the flags, a change of an application touches neither the life of a key nor what Redis and its row say of it.\<close>

definition same_answers :: "AuthState \<Rightarrow> AuthState \<Rightarrow> bool" where
  "same_answers s s' \<longleftrightarrow> quiet s s' \<and>
     (\<forall>k' \<in> set (au_keys s'). \<exists>k \<in> set (au_keys s). life k = life k' \<and> ak_cached_data k = ak_cached_data k')"

lemma same_answers_stopped: "same_answers s s' \<Longrightarrow> stopped now i s \<Longrightarrow> stopped now i s'"
  unfolding stopped_def
proof (intro ballI impI)
  fix k' assume a: "same_answers s s'" and st: "\<forall>k \<in> set (au_keys s). ak_id k = i \<longrightarrow>
     (\<exists>d. ak_cached_data k = Some d \<and> distinct (dict_keys d) \<and> dict_get d BUDGET_FLAG = Some (C_str ''1'')) \<and>
     (\<forall>v \<in> key_values k. \<forall>h. redis_get now (au_redis s) (REDIS_API_KEY_PREFIX @ v) = Some h \<longrightarrow> \<not> is_cache_entry_invalid h \<longrightarrow>
        dict_get h BUDGET_FLAG = Some (C_str ''1''))" and k': "k' \<in> set (au_keys s')" "ak_id k' = i"
  from a k'(1) obtain k where k: "k \<in> set (au_keys s)" "life k = life k'" "ak_cached_data k = ak_cached_data k'"
    unfolding same_answers_def by blast
  have redis: "au_redis s' = au_redis s" using a by (simp add: same_answers_def quiet_def)
  have "ak_id k = i" using life_fields [OF k(2)] k'(2) by simp
  then show "(\<exists>d. ak_cached_data k' = Some d \<and> distinct (dict_keys d) \<and> dict_get d BUDGET_FLAG = Some (C_str ''1'')) \<and>
     (\<forall>v \<in> key_values k'. \<forall>h. redis_get now (au_redis s') (REDIS_API_KEY_PREFIX @ v) = Some h \<longrightarrow> \<not> is_cache_entry_invalid h \<longrightarrow>
        dict_get h BUDGET_FLAG = Some (C_str ''1''))"
    unfolding redis key_values_life [OF k(2), symmetric] k(3) [symmetric] using bspec [OF st k(1)] by blast
qed

lemma same_answers_inv: "same_answers s s' \<Longrightarrow> key_inv now s \<Longrightarrow> key_inv now s'"
  unfolding same_answers_def quiet_def using key_inv_fades [of now s s'] by (simp add: fades_def)

lemma same_answers_keys: "au_keys s' = au_keys s \<Longrightarrow> au_redis s' = au_redis s \<Longrightarrow> same_answers s s'"
  by (auto simp: same_answers_def quiet_def same_life_def)

lemma same_answers_trans: "same_answers s t \<Longrightarrow> same_answers t u \<Longrightarrow> same_answers s u"
  unfolding same_answers_def using quiet_trans by metis

lemma same_answers_zero: "same_answers s (snd (zero_allocation_for_applications is s))"
proof (cases "is = []")
  case True
  then show ?thesis by (simp add: zero_allocation_for_applications_def same_answers_keys)
next
  case False
  define f where "f = (\<lambda>k. if ak_application_id k \<in> set is \<and> ak_is_active k
     then k\<lparr>ak_allocated_budget := Some 0, ak_allocated_percentage := Some 0\<rparr> else k :: APIKey)"
  have "snd (zero_allocation_for_applications is s) = s\<lparr>au_keys := map f (au_keys s)\<rparr>"
    using False by (simp add: zero_allocation_for_applications_def Let_def f_def)
  moreover have "life (f k) = life k" "ak_cached_data (f k) = ak_cached_data k" for k by (simp_all add: f_def life_def)
  ultimately show ?thesis by (auto simp: same_answers_def quiet_def same_life_def)
qed

lemma stage_update_answers:
  assumes "stage_update env cat violated user t i body seen s = Inr (zeroed, a, s1)"
  shows "same_answers s (snd (write_budget_snapshot env w s1))"
proof -
  have "same_answers s s1"
    using assms
  proof (rule stage_update_Inr)
    fix b assume s1: "s1 = update_app i (\<lambda>_. a) (if deactivates body b then snd (zero_allocation_for_applications [i] s) else s)"
    have "same_answers s (if deactivates body b then snd (zero_allocation_for_applications [i] s) else s)" (is "same_answers s ?z")
      by (simp add: same_answers_zero same_answers_keys)
    then show ?thesis unfolding s1 by (rule same_answers_trans) (simp add: same_answers_keys)
  qed
  then show ?thesis by (rule same_answers_trans) (simp add: same_answers_keys)
qed

lemma update_application_same_life: "same_life s (snd (fst (update_application env cat violated user t i body seen s c)))"
proof (cases "stage_update env cat violated user t i body seen s")
  case (Inl e)
  then show ?thesis by (simp add: update_application_def)
next
  case (Inr out)
  then obtain zeroed a s1 where st: "stage_update env cat violated user t i body seen s = Inr (zeroed, a, s1)" by (cases out) blast
  have "same_life s s1" using stage_update_answers [OF st, of "[]"] by (simp add: same_answers_def quiet_def same_life_def)
  moreover have "same_life s (snd (write_budget_snapshot env w s1))" for w
    using stage_update_answers [OF st, of w] by (simp add: same_answers_def quiet_def)
  ultimately show ?thesis
    unfolding update_application_state [OF st] using same_life_trans [OF _ flag_keys_fades(1)] by simp
qed

lemma update_application_keeps:
  assumes redis: "en_redis env" and inv: "key_inv (en_now env) s"
  shows "key_inv (en_now env) (snd (fst (update_application env cat violated user t i body seen s c)))" (is "key_inv ?now ?s")
    and "stopped (en_now env) j s \<Longrightarrow> stopped (en_now env) j (snd (fst (update_application env cat violated user t i body seen s c)))"
proof -
  have "key_inv ?now ?s \<and> (stopped ?now j s \<longrightarrow> stopped ?now j ?s)"
  proof (cases "stage_update env cat violated user t i body seen s")
    case (Inl e)
    then show ?thesis using inv by (simp add: update_application_def)
  next
    case (Inr out)
    then obtain zeroed a s1 where st: "stage_update env cat violated user t i body seen s = Inr (zeroed, a, s1)" by (cases out) blast
    define mid where "mid = snd (write_budget_snapshot env (map (\<lambda>i. (i, 0)) zeroed) s1)"
    have m: "same_answers s mid" unfolding mid_def by (rule stage_update_answers [OF st])
    have "s1 = mid" if "zeroed = []" using that by (simp add: mid_def write_budget_snapshot_def)
    then have "?s = mid \<or> ?s = snd (set_budget_exhausted_for_keys env zeroed True mid)"
      unfolding update_application_state [OF st] by (simp add: mid_def)
    then show ?thesis
      using same_answers_inv [OF m inv] same_answers_stopped [OF m] flag_keys.keeps [OF redis] raise_keeps_stopped [OF redis] by metis
  qed
  then show "key_inv ?now ?s" "stopped ?now j s \<Longrightarrow> stopped ?now j ?s" by simp_all
qed

interpretation change_application: key_operation "\<lambda>env s. snd (fst (update_application env cat violated user t i body seen s c))"
  for cat violated user t i body seen c
  using update_application_keeps(1) stays_revoked_same_life [OF update_application_same_life] by unfold_locales

lemma create_application_same:
  "au_keys (snd (fst (create_application env cat violated user i t body seen s c))) = au_keys s \<and>
   au_redis (snd (fst (create_application env cat violated user i t body seen s c))) = au_redis s"
proof -
  have ins: "au_keys s' = au_keys s \<and> au_redis s' = au_redis s" if "insert_application a s = Inr (a', s')" for a a' s'
    using that by (auto simp: insert_application_def Let_def split: option.splits if_splits)
  obtain r s' c' where run: "create_application env cat violated user i t body seen s c = ((r, s'), c')" by (metis surj_pair)
  show ?thesis
  proof (cases r)
    case (Inl e)
    with run show ?thesis by (auto simp: create_application_def split: sum.splits prod.splits)
  next
    case (Inr a)
    obtain fs a0 where "insert_application a0 s = Inr (a, s')" using run unfolding Inr by (rule create_application_Inr)
    with ins run show ?thesis by simp
  qed
qed

section \<open>Shut out\<close>

text \<open>Time passes, tokens are validated, and applications are created and changed, while Redis answers.\<close>

inductive app_traffic :: "Settings \<Rightarrow> datetime \<times> AuthState \<Rightarrow> datetime \<times> AuthState \<Rightarrow> bool" for cfg :: Settings where
  calm: "traffic cfg st st' \<Longrightarrow> app_traffic cfg st st'"
| change: "en_redis env \<Longrightarrow>
    app_traffic cfg (en_now env, s) (en_now env, snd (fst (update_application env cat violated user t i body seen s c)))"
| create: "app_traffic cfg (en_now env, s) (en_now env, snd (fst (create_application env cat violated user i t body seen s c)))"

lemma app_traffic_step:
  assumes "app_traffic cfg st st'" "key_inv (fst st) (snd st)" "stopped (fst st) i (snd st)" "1 \<le> st_api_key_expire_days cfg"
  shows "key_inv (fst st') (snd st') \<and> stopped (fst st') i (snd st') \<and> same_life (snd st) (snd st')"
  using assms(1)
proof cases
  case calm
  then show ?thesis using traffic_stopped [OF r_into_rtranclp [of "traffic cfg"] assms(2-4)] by (simp add: same_life_def)
next
  case (change env s cat violated user t j body seen c)
  with assms(2,3) show ?thesis by (simp add: update_application_keeps update_application_same_life)
next
  case (create env s cat violated user j t body seen c)
  then have "same_answers (snd st) (snd st')" using create_application_same by (intro same_answers_keys) simp_all
  then show ?thesis
    using same_answers_inv same_answers_stopped assms(2,3) create by (auto simp: same_answers_def quiet_def)
qed

lemma app_traffic_stopped:
  assumes "(app_traffic cfg)\<^sup>*\<^sup>* st st'" "key_inv (fst st) (snd st)" "stopped (fst st) i (snd st)" "1 \<le> st_api_key_expire_days cfg"
  shows "key_inv (fst st') (snd st') \<and> stopped (fst st') i (snd st') \<and> same_life (snd st) (snd st')"
  using assms(1)
proof induction
  case base
  with assms show ?case by simp
next
  case (step y z)
  with app_traffic_step [OF step.hyps(2) _ _ assms(4)] same_life_trans show ?case by blast
qed

lemma deactivation_run:
  assumes run: "update_application env cat violated user t i body seen s c = ((Inr a, s1), c1)"
    and off: "ah_status body = Some APP_INACTIVE" "app_by_id s i = Some a0" "ap_status a0 = APP_ACTIVE"
    and k: "k \<in> set (au_keys s)" "ak_application_id k = i" "ak_is_active k"
  obtains zeroed s' where "stage_update env cat violated user t i body seen s = Inr (zeroed, a, s')"
    "zeroed = map ak_id (filter (\<lambda>k. ak_application_id k = i \<and> ak_is_active k) (au_keys s))" "ak_id k \<in> set zeroed"
    "s1 = snd (set_budget_exhausted_for_keys env zeroed True (snd (write_budget_snapshot env (map (\<lambda>i. (i, 0)) zeroed) s')))"
    "set_budget_exhausted_for_keys env zeroed True (snd (write_budget_snapshot env (map (\<lambda>i. (i, 0)) zeroed) s')) = (Inr (), s1)"
    "s' = update_app i (\<lambda>_. a) (snd (zero_allocation_for_applications [i] s))" "a = put_update user body True a0"
proof -
  obtain zeroed s' where st: "stage_update env cat violated user t i body seen s = Inr (zeroed, a, s')"
    using run by (auto simp: update_application_def split: sum.splits prod.splits)
  obtain b where b: "app_by_id s i = Some b" "a = put_update user body (deactivates body b) b"
    "s' = update_app i (\<lambda>_. a) (if deactivates body b then snd (zero_allocation_for_applications [i] s) else s)"
    "zeroed = (if deactivates body b then fst (zero_allocation_for_applications [i] s) else [])"
    using st by (rule stage_update_Inr)
  have d: "deactivates body b" "b = a0" using b(1) off by (simp_all add: deactivates_def)
  then have z: "zeroed = map ak_id (filter (\<lambda>k. ak_application_id k = i \<and> ak_is_active k) (au_keys s))"
    using b(4) by (simp add: zero_allocation_for_applications_def Let_def)
  then have in_z: "ak_id k \<in> set zeroed" using k by auto
  then have "zeroed \<noteq> []" by auto
  then have "set_budget_exhausted_for_keys env zeroed True (snd (write_budget_snapshot env (map (\<lambda>i. (i, 0)) zeroed) s')) = (Inr (), s1)"
    using run st by (auto simp: update_application_def split: sum.splits prod.splits)
  with that [OF st z in_z _ this] b d show thesis by simp
qed

lemma zeroed_snapshots:
  assumes "distinct zeroed" "j \<in> set zeroed" "en_core_db env" "en_core_write env"
  shows "\<exists>row. dict_get (au_budget_usage (snd (write_budget_snapshot env (map (\<lambda>i. (i, 0)) zeroed) s))) j = Some row \<and> bu_snap row = Some 0"
proof -
  let ?w = "map (\<lambda>i. (i, 0 :: rat)) zeroed"
  have "distinct (map fst ?w)" "\<forall>(i, v) \<in> set ?w. money v" using assms(1) by (auto simp: o_def money_def)
  from upsert_snapshots_spec [OF this, of "au_budget_usage s"] obtain d' where d': "upsert_snapshots ?w (au_budget_usage s) = Some d'"
    "\<forall>i. dict_get d' i = (case dict_get ?w i of None \<Rightarrow> dict_get (au_budget_usage s) i
       | Some v \<Rightarrow> Some \<lparr>bu_used = (case dict_get (au_budget_usage s) i of None \<Rightarrow> 0 | Some r \<Rightarrow> bu_used r), bu_snap = Some v\<rparr>)" by blast
  have "dict_get ?w j = Some 0" using assms(2) by (simp add: map_of_map_restrict)
  with d' assms show ?thesis by (auto simp: write_budget_snapshot_def)
qed

text \<open>What a deactivation has done to an active key of the application.\<close>

lemma deactivation_effect:
  assumes inv: "key_inv (en_now env) s"
    and run: "update_application env cat violated user t i body seen s c = ((Inr a, s1), c1)"
    and off: "ah_status body = Some APP_INACTIVE" "app_by_id s i = Some a0" "ap_status a0 = APP_ACTIVE"
    and k: "k \<in> set (au_keys s)" "ak_application_id k = i"
    and on: "active_key_conditions (en_now env) True k" "\<forall>d. ak_cached_data k = Some d \<longrightarrow> distinct (dict_keys d)"
  shows "a = put_update user body True a0" "key_inv (en_now env) s1" "stopped (en_now env) (ak_id k) s1"
    and "\<exists>k1 \<in> set (au_keys s1). ak_id k1 = ak_id k \<and> ak_allocated_budget k1 = Some 0"
    and "en_core_db env \<Longrightarrow> en_core_write env \<Longrightarrow> \<exists>row. dict_get (au_budget_usage s1) (ak_id k) = Some row \<and> bu_snap row = Some 0"
proof -
  have act: "ak_is_active k" using on(1) by (simp add: active_key_conditions_def)
  obtain zeroed s' where st: "stage_update env cat violated user t i body seen s = Inr (zeroed, a, s')"
    and z: "zeroed = map ak_id (filter (\<lambda>k. ak_application_id k = i \<and> ak_is_active k) (au_keys s))" "ak_id k \<in> set zeroed"
    and s1: "s1 = snd (set_budget_exhausted_for_keys env zeroed True (snd (write_budget_snapshot env (map (\<lambda>i. (i, 0)) zeroed) s')))"
    and ok: "set_budget_exhausted_for_keys env zeroed True (snd (write_budget_snapshot env (map (\<lambda>i. (i, 0)) zeroed) s')) = (Inr (), s1)"
    and s': "s' = update_app i (\<lambda>_. a) (snd (zero_allocation_for_applications [i] s))" and a: "a = put_update user body True a0"
    using run off k(1,2) act by (rule deactivation_run)
  show "a = put_update user body True a0" by (rule a)
  define mid where "mid = snd (write_budget_snapshot env (map (\<lambda>i. (i, 0)) zeroed) s')"
  define k0 where "k0 = k\<lparr>ak_allocated_budget := Some 0, ak_allocated_percentage := Some 0\<rparr>"
  have "au_keys mid = map (\<lambda>k. if ak_application_id k = i \<and> ak_is_active k
      then k\<lparr>ak_allocated_budget := Some 0, ak_allocated_percentage := Some 0\<rparr> else k) (au_keys s)"
    by (simp add: mid_def s' zero_allocation_for_applications_def Let_def)
  then have k0: "k0 \<in> set (au_keys mid)" using k(1,2) act by (auto simp: k0_def image_iff intro!: bexI [of _ k])
  have fl: "flagged (en_now env) zeroed k0" using z(2) on(1) by (simp add: flagged_def active_key_conditions_def k0_def)
  have redis: "en_redis env" using raised_needs_redis [OF ok [folded mid_def] k0 fl] .
  obtain d where d: "ak_cached_data k0 = Some d" "distinct (dict_keys d)"
    using on by (auto simp: active_key_conditions_def k0_def)
  have inv_mid: "key_inv (en_now env) mid"
    unfolding mid_def by (rule same_answers_inv [OF stage_update_answers [OF st] inv])
  show "stopped (en_now env) (ak_id k) s1"
    unfolding s1 mid_def [symmetric] using raise_stops [OF redis inv_mid k0 _ fl d] by (simp add: k0_def)
  show "key_inv (en_now env) s1" unfolding s1 mid_def [symmetric] by (rule flag_keys.keeps [OF redis inv_mid])
  have "flag_key True k0 \<in> set (au_keys s1)"
    unfolding s1 mid_def [symmetric] using k0 fl by (auto simp: set_exhausted_keys [OF redis] image_iff intro!: bexI [of _ k0])
  then show "\<exists>k1 \<in> set (au_keys s1). ak_id k1 = ak_id k \<and> ak_allocated_budget k1 = Some 0"
    by (rule bexI [rotated]) (simp add: flag_key_def k0_def)
  have "distinct (map ak_id (au_keys s))" using inv by (simp add: key_inv_def values_ok_def)
  then have dz: "distinct zeroed" using z(1) distinct_map_filter by simp
  show "\<exists>row. dict_get (au_budget_usage s1) (ak_id k) = Some row \<and> bu_snap row = Some 0" if "en_core_db env" "en_core_write env"
    using zeroed_snapshots [OF dz z(2) that, of s'] unfolding s1 by (simp add: set_exhausted_keys [OF redis])
qed


text \<open>
  The flags are raised after the commit.  When Redis fails there, the request fails with the application
  deactivated and no flag set, and repeating it does not set them, since the application is no longer
  active: a key with an entry in Redis is still admitted.
\<close>

definition cached_auth :: AuthState where
  "cached_auth = gate_auth\<lparr>au_redis := set_api_key_cache 0 life_token 3600 [(''id'', C_int 5), (''permissions'', C_perms [3]), (''tenant_id'', C_str ''1'')] []\<rparr>"

definition retried_auth :: AuthState where
  "retried_auth = snd (fst (update_application alloc_env app_catalogue None alloc_user 1 7 (app_update APP_INACTIVE) cached_auth
     (snd (fst (update_application (alloc_env\<lparr>en_redis := False\<rparr>) app_catalogue None alloc_user 1 7 (app_update APP_INACTIVE) cached_auth cached_auth []))) []))"

lemma lost_flags_are_not_retried:
  "fst (fst (update_application (alloc_env\<lparr>en_redis := False\<rparr>) app_catalogue None alloc_user 1 7 (app_update APP_INACTIVE) cached_auth cached_auth [])) =
     Inl RedisFailed \<and>
   map_option ap_status (app_by_id retried_auth 7) = Some APP_INACTIVE \<and>
   (\<exists>hs. fst (validate_token gate_lib life_settings gate_providers alloc_env gate_request (gate_state\<lparr>gw_auth := retried_auth\<rparr>)) = Admit hs)"
proof -
  have "case fst (validate_token gate_lib life_settings gate_providers alloc_env gate_request (gate_state\<lparr>gw_auth := retried_auth\<rparr>)) of
      Admit hs \<Rightarrow> True | _ \<Rightarrow> False" by code_simp
  moreover have "fst (fst (update_application (alloc_env\<lparr>en_redis := False\<rparr>) app_catalogue None alloc_user 1 7 (app_update APP_INACTIVE) cached_auth cached_auth [])) = Inl RedisFailed"
    "map_option ap_status (app_by_id retried_auth 7) = Some APP_INACTIVE" by code_simp+
  ultimately show ?thesis by (auto split: answer.splits)
qed

section \<open>Example\<close>


end
