(* ===== verification/Spec2Isabelle.thy ===== *)
theory Spec2Isabelle
  imports Ledger Handler_Props Consumer_Loop Ppu_Alerts Key_Reachability Spend_Gate Session_Props Application_Gate
begin

text \<open>
  \<^bold>\<open>What this library verifies.\<close>  The platform's services emit one span per inference request.  The pay-per-use
  consumer reads the spans from Kafka, charges the API key and the monthly quota, tells auth-service which keys
  and tenants are exhausted, and evaluates the usage alerts.  The notification pipeline, a library every
  producer of notifications shares, turns such evaluations and administrative changes into events: it validates
  them, reads settings and subscriptions through a tiered cache, decides with a ledger in PostgreSQL which
  process may announce what, resolves recipients and hands the event to Kafka.  Auth-service divides the
  tenants' budgets among applications and API keys, keeps the keys and their cached copies in Redis, and answers
  the gateway's question whether a request may pass.  These subsystems are modelled here, whole functions at a
  time, on explicit states of their stores.

  \<^bold>\<open>Foundations.\<close>
  \<^item> \<open>Prelude\<close>: results as values, dictionaries in insertion order, Python text.
  \<^item> \<open>Effects\<close>: the state monad with a calculus of weakest preconditions; the locale \<open>frame\<close> collects what holds
    for every preorder on states, and each component interprets it with what it leaves alone.
  \<^item> \<open>Py_Numbers\<close>, \<open>Py_Time\<close>, \<open>Py_Json\<close>: floats and decimals as rationals with their rounding written out, moments as
    microseconds, parsed JSON with Python's truth values and \<open>json.dumps\<close>.
  \<^item> \<open>Store\<close>: errors of PostgreSQL, limits of its columns, Redis keys that expire.

  \<^bold>\<open>The notification pipeline\<close> (\<open>libs/ai4i_core/ai4i_core/kafka\<close>).
  \<^item> \<open>Notif_Constants\<close>, \<open>Notif_Specs\<close>, \<open>Notif_Keys\<close>, \<open>Notif_Models\<close>: \<open>constants.py\<close>, \<open>specs.py\<close>, \<open>keys.py\<close>, \<open>models.py\<close>.
    Every string enumeration is an interpretation of one locale; JSON forms read back; a ledger key determines
    notification, tenant and subject.
  \<^item> \<open>Ledger\<close>: \<open>bands.py\<close> and \<open>ledger.py\<close>, one definition per SQL statement over the table.  The locale \<open>band_gate\<close>
    states what a producer relies on (a claim wins iff its band is above the open one); the ledger interprets
    it.  A step relation lets any number of producers with arbitrarily old views act on one row.
  \<^item> \<open>Notif_Runtime\<close>, \<open>Failure_Log\<close>: \<open>runtime.py\<close>, \<open>config.py\<close>, \<open>failure_log.py\<close>; the state \<open>Rt\<close> of a process and its
    stores, and the \<open>World\<close> it runs in.  No report is lost by the throttle.
  \<^item> \<open>Notif_Publisher\<close>, \<open>Recipients\<close>, \<open>Settings_Loader\<close>: \<open>publisher.py\<close>, \<open>recipients.py\<close>, \<open>settings.py\<close>.
  \<^item> \<open>Notif_Cache\<close>, \<open>Notif_Cache_Props\<close>: \<open>cache.py\<close> and \<open>invalidation.py\<close>.  A read answers every key; a failed write
    leaves no stale value.
  \<^item> \<open>Pipeline_Items\<close>, \<open>Notif_Pipeline\<close>, \<open>Notif_Bands\<close>: \<open>pipeline.py\<close>, state events and band evaluations.
    \<open>Notif_Pipeline_Props\<close> and \<open>Notif_Bands_Props\<close> show that every published event belongs to a claim that won, that
    every won claim is published or on record, and that a healthy world delivers.

  \<^bold>\<open>The pay-per-use consumer\<close> (\<open>services/kafka-consumers\<close>).
  \<^item> \<open>Billing\<close>: \<open>_billing.py\<close>, prices and their cache, cost formulas, the fused write of budget and quota, usage events.
  \<^item> \<open>Handler\<close>, \<open>Handler_Props\<close>: \<open>handler.py\<close>, from a span message to charges, alert evaluations and auth calls.
    Redelivery is free, a failed call charges nothing, request spans never bill.
  \<^item> \<open>Consumer_Loop\<close>: \<open>main.py\<close> and \<open>bootstrap/consumers.py\<close>; the retry ladder, the chunk deadline, ownership of
    partitions and the offsets that are committed.
  \<^item> \<open>Ppu_Alerts\<close>: the handler on the pipeline.  The handler's own lemmas hold for every pipeline, since its
    operations are a parameter there; this theory supplies the real ones.

  \<^bold>\<open>Auth-service\<close> (\<open>services/auth-service/app\<close>).
  \<^item> \<open>Auth_Models\<close>: tenants, applications, API keys, the budget ledger and the Redis hashes as one state \<open>AuthState\<close>;
    the repositories' reads, decimal arithmetic, \<open>services/authorization.py\<close> and \<open>services/budget_usage.py\<close>.
  \<^item> \<open>Alloc_Validator\<close>, \<open>Allocation\<close>: \<open>schemas/allocation.py\<close>, \<open>services/allocation_validator.py\<close> and
    \<open>services/allocation_service.py\<close>.  \<open>Allocation_Props\<close> states what a table of children offers as the locales
    \<open>allocation_store\<close> and \<open>allocation_level\<close>, interpreted once for applications and once for keys;
    \<open>Allocation_Theorems\<close> shows that allocations stay within their parent, that refused requests change nothing and
    that the exhaustion flags agree with the ledger.
  \<^item> \<open>Api_Key_Cache\<close>, \<open>Api_Keys\<close>: \<open>services/api_key_service.py\<close> with its repository, routes and the hashes of
    \<open>services/cache_service.py\<close>.  \<open>Api_Keys_Props\<close>, \<open>Key_Lifecycle\<close> and \<open>Key_Reachability\<close> state the contract of an
    operation on keys as a locale, interpret it for each of them, and collect them in a step relation: no token
    validates in a reachable state unless it is a live value of an active row.
  \<^item> \<open>Permission_Map\<close>, \<open>Catalogue\<close>, \<open>Py_Iso\<close>, \<open>Forward_Auth\<close>: \<open>core/permission_checker.py\<close>, the inference-type catalogue
    of the core library, \<open>routes/validation.py\<close> with \<open>core/jwt_verifier.py\<close>, \<open>services/tier_lookup.py\<close>, the logout times,
    access tokens, and \<open>routes/internal.py\<close>.  \<open>Gate_Props\<close> shows whom the gate lets in, \<open>Session_Props\<close> that issued
    tokens work until they expire and that a logout closes the earlier ones.
  \<^item> \<open>Tenant_Admin\<close>: the status, tier, budget and budget window of a tenant (\<open>services/tenant_service.py\<close>,
    \<open>services/tenant_lifecycle.py\<close>).  \<open>Tenant_Props\<close> shows that a revision keeps budget and window well formed, goes
    through when it covers what was allocated, and reaches the gate; \<open>Tenant_Gate\<close> extends the step relation of
    the keys by these operations and shows that suspension and deactivation shut the keys out.
  \<^item> \<open>Application_Admin\<close>: \<open>services/application_service.py\<close> with its schemas, repository queries and
    \<open>services/service_fallback_validator.py\<close>.  \<open>Application_Props\<close> shows that a new application fits into the budget to
    the cent, that names stay unique when requests interleave, that a search is literal and which fallbacks are
    accepted; \<open>Application_Gate\<close> that a deactivated application's keys are refused at the gate.
  \<^item> \<open>Gate_Billing\<close>, \<open>Spend_Gate\<close>: the consumer and auth-service together.  A flag that was acknowledged holds
    through any traffic, and a key whose charge reached its ceiling is refused at the gate.
  A request to auth-service is one step: its row locks serialize requests on one application, and Redis answers
  all commands of a request or none.  The pre-check of an application's name holds no lock and may read older tables.

  \<^bold>\<open>Failures.\<close>  External operations of the pipeline are numbered in the order a process makes them, and the world
  says which of them fail and how; a commit or a Redis pipeline may fail after it took effect.  Theorems quantify
  over all worlds, so over all patterns of failures.  In the billing model the record \<open>Env\<close> plays this part.
  Third-party code is a parameter: SHA-256, e-mail decryption, uuids, clocks, evictions of the in-process
  caches, replies of auth-service.

  \<^bold>\<open>Bounds.\<close>  Every definition is a total function.  Loops with a bound in the source (three attempts, five polls)
  carry it as a number taken from the source's constants; the other loops recurse over their input.  The consume
  loop is run over a list of fetched chunks, the listener over a list of events.

  \<^bold>\<open>Not modelled.\<close>  Prometheus metrics other than the decisions, logging, start and stop of background tasks, TLS and
  client construction; coroutines of one process interleave only through the futures of the cache, and other
  processes only through the ledger's step relation.  Text is ASCII.  Of auth-service, users,
  passwords, roles, OAuth, the creation and profile of tenants, the other listings and e-mail; the notification e-mail consumer,
  platform-core's administration API, the inference proxy, the scheduled jobs and the frontend are outside this
  library; their tables appear where the modelled code reads or writes them.
\<close>

section \<open>Alerts of a span\<close>


section \<open>Subjects and keys\<close>

text \<open>
  The Redis key of a ledger row identifies it: two validated subjects with the same key belong to
  the same notification, tenant and subject, provided tenant ids hold no colon.
\<close>

lemma ledger_key_identifies_row:
  assumes "validate_subject (spec_of n) j = Inr s" "validate_subject (spec_of n') j' = Inr s'"
    and "CHR '':'' \<notin> set t" "CHR '':'' \<notin> set t'"
    and "ledger_key n t s = ledger_key n' t' s'"
  shows "n = n' \<and> t = t' \<and> s = s'"
  using assms by (rule ledger_key_inj)

end
